(* ===== verification/Prelude.thy ===== *)
theory Prelude
  imports Main "HOL-Library.Word" "HOL-Library.Monad_Syntax" "HOL-Library.Sublist"
begin

text \<open>
  The shared base of the development: names for the machine integers of the source, the
  convention for panics, the generic facts on lists and finite sets that the components use,
  and the named collections their proofs draw on.

  A Rust panic is the value \<open>None\<close> of an \<open>option\<close> type, so a function of the source that
  itself returns \<open>Option<T>\<close> and may panic has the type \<open>'a option option\<close>. Sequencing of
  such functions is the bind of the option type, written with the do-notation.
\<close>

section \<open>Machine integers\<close>

type_synonym u8 = "8 word"
type_synonym u32 = "32 word"
type_synonym u64 = "64 word"
type_synonym u128 = "128 word"
type_synonym i32 = "32 word"
type_synonym i64 = "64 word"

section \<open>Collections\<close>

named_theorems mir_simps \<open>unfolding rules for the accessors of the MIR data model\<close>
named_theorems cursor_simps \<open>effect of the cursor operations on the input that is left\<close>
named_theorems cursor_intros \<open>the suffix order between cursor states\<close>

section \<open>Panics\<close>

text \<open>An \<open>assert!\<close> of the source: continue, or panic.\<close>

definition rust_assert :: "bool \<Rightarrow> unit option" where
  "rust_assert b = (if b then Some () else None)"

lemma rust_assert_simps [simp]:
  "rust_assert True = Some ()"
  "rust_assert False = None"
  by (simp_all add: rust_assert_def)

lemma rust_assert_eq_Some [simp]: "rust_assert b = Some u \<longleftrightarrow> b"
  by (simp add: rust_assert_def)

text \<open>Indexing a vector: out of range is a panic.\<close>

definition vec_index :: "'a list \<Rightarrow> nat \<Rightarrow> 'a option" where
  "vec_index xs i = (if i < length xs then Some (xs ! i) else None)"

lemma vec_index_Some [simp]: "vec_index xs i = Some x \<longleftrightarrow> i < length xs \<and> xs ! i = x"
  by (auto simp: vec_index_def)

lemma vec_index_None [simp]: "vec_index xs i = None \<longleftrightarrow> length xs \<le> i"
  by (auto simp: vec_index_def)

lemma vec_index_in_range [simp]: "i < length xs \<Longrightarrow> vec_index xs i = Some (xs ! i)"
  by (simp add: vec_index_def)

text \<open>Arithmetic of a debug build: an overflow is a panic.\<close>

definition checked_add :: "'a::len word \<Rightarrow> 'a word \<Rightarrow> 'a word option" where
  "checked_add a b = (if unat a + unat b < 2 ^ LENGTH('a) then Some (a + b) else None)"

definition checked_sub :: "'a::len word \<Rightarrow> 'a word \<Rightarrow> 'a word option" where
  "checked_sub a b = (if b \<le> a then Some (a - b) else None)"

lemma checked_add_of_nat:
  "m + n < 2 ^ LENGTH('a) \<Longrightarrow> checked_add (of_nat m) (of_nat n) = Some (of_nat (m + n) :: 'a::len word)"
  by (simp add: checked_add_def unat_of_nat)

lemma checked_sub_of_nat:
  assumes "n \<le> m" "m < 2 ^ LENGTH('a)"
  shows "checked_sub (of_nat m) (of_nat n) = Some (of_nat (m - n) :: 'a::len word)"
proof -
  have "(of_nat n :: 'a word) \<le> of_nat m"
    using assms by (simp add: word_le_nat_alt unat_of_nat)
  then show ?thesis using assms(1) by (simp add: checked_sub_def of_nat_diff)
qed

lemma unat_of_nat_less: "n < 2 ^ LENGTH('a) \<Longrightarrow> unat (of_nat n :: 'a::len word) = n"
  by (simp add: unat_of_nat)

lemma word_inc:
  fixes n m :: "'a::len word"
  assumes "n < m"
  shows "unat (n + 1) = unat n + 1" "n + 1 \<le> m"
proof -
  have "unat n + 1 \<le> unat m" using assms by (simp add: word_less_nat_alt)
  also have "unat m < 2 ^ LENGTH('a)" by simp
  finally show eq: "unat (n + 1) = unat n + 1" by (simp add: unat_word_ariths)
  show "n + 1 \<le> m" using assms eq by (simp add: word_le_nat_alt word_less_nat_alt)
qed

section \<open>Lists\<close>

text \<open>First element that a partial function accepts: \<open>Iterator::find_map\<close>.\<close>

fun find_map :: "('a \<Rightarrow> 'b option) \<Rightarrow> 'a list \<Rightarrow> 'b option" where
  "find_map f [] = None"
| "find_map f (x # xs) = (case f x of Some y \<Rightarrow> Some y | None \<Rightarrow> find_map f xs)"

lemma find_map_Some_ex: "find_map f xs = Some y \<Longrightarrow> \<exists>x\<in>set xs. f x = Some y"
  by (induction xs) (auto split: option.splits)

lemma find_map_None_iff: "find_map f xs = None \<longleftrightarrow> (\<forall>x\<in>set xs. f x = None)"
  by (induction xs) (auto split: option.splits)

text \<open>Position order in a list without repetitions.\<close>

definition before :: "'a list \<Rightarrow> 'a \<Rightarrow> 'a \<Rightarrow> bool" where
  "before xs a b \<longleftrightarrow> (\<exists>ys zs. xs = ys @ b # zs \<and> a \<in> set ys)"

lemma before_append: "before xs a b \<Longrightarrow> before (xs @ ys) a b"
  unfolding before_def by fastforce

lemma before_snoc_intro: "a \<in> set xs \<Longrightarrow> before (xs @ [b]) a b"
  unfolding before_def by blast

lemma before_memD: "before xs a b \<Longrightarrow> a \<in> set xs \<and> b \<in> set xs"
  unfolding before_def by auto

section \<open>Finite sets of indices\<close>

lemma card_diff_insert_less:
  fixes n :: nat
  assumes "a < n" "a \<notin> S"
  shows "card ({..<n} - insert a S) < card ({..<n} - S)"
proof (rule psubset_card_mono)
  show "finite ({..<n} - S)" by simp
  show "{..<n} - insert a S \<subset> {..<n} - S"
    using assms by auto
qed

end
