(* ===== verification/MIR_Ty.thy ===== *)
theory MIR_Ty
  imports Prelude
begin

text \<open>
  The types and constants of the middle intermediate representation that the Triton backend
  inspects: \<open>rustc_ast_ir\<close> (the primitive number types), \<open>rustc_type_ir\<close> (\<open>TyKind\<close>,
  \<open>ConstKind\<close>) and \<open>rustc_middle\<close> (\<open>ScalarInt\<close>, \<open>ValTree\<close>, \<open>mir::Const\<close>).

  Interned identifiers (definition ids, symbols, allocation ids) are natural numbers. Payloads
  that no modelled operation reads (regions, existential predicates, binders, error
  guarantees) are left out of the constructors.
\<close>

section \<open>Identifiers\<close>

type_synonym def_id = nat
type_synonym symbol = nat
type_synonym alloc_id = nat
type_synonym field_idx = nat
type_synonym variant_idx = nat

section \<open>Primitive types\<close>

datatype int_ty = Isize | I8 | I16 | I32 | I64 | I128

datatype uint_ty = Usize | U8 | U16 | U32 | U64 | U128

datatype float_ty = F16 | F32 | F64 | F128

datatype mutability = Mut_Not | Mut_Mut

datatype infer_ty = TyVar nat | IntVar nat | FloatVar nat | FreshTy nat | FreshIntTy nat
  | FreshFloatTy nat

section \<open>Scalars\<close>

text \<open>
  \<open>ScalarInt\<close>: up to sixteen bytes of data and the number of bytes that count. A value is well
  formed when the bytes past \<open>size\<close> are zero, which \<open>check_data\<close> asserts in debug builds.
\<close>

record scalar_int =
  si_data :: u128
  si_size :: nat

definition scalar_int_wf :: "scalar_int \<Rightarrow> bool" where
  "scalar_int_wf s \<longleftrightarrow> 0 < si_size s \<and> si_size s \<le> 16 \<and>
     take_bit (8 * si_size s) (si_data s) = si_data s"

definition to_bits_unchecked :: "scalar_int \<Rightarrow> u128" where
  "to_bits_unchecked s = si_data s"

text \<open>\<open>to_i32\<close> panics unless the scalar is exactly four bytes wide.\<close>

definition to_bits :: "scalar_int \<Rightarrow> nat \<Rightarrow> u128 option" where
  "to_bits s bytes = (if bytes = si_size s then Some (si_data s) else None)"

definition to_i32 :: "scalar_int \<Rightarrow> i32 option" where
  "to_i32 s = map_option ucast (to_bits s 4)"

datatype scalar = Scalar_Int scalar_int | Scalar_Ptr alloc_id nat

section \<open>Types and type-level constants\<close>

datatype adt_def = AdtDef (adt_did: def_id) (adt_is_enum: bool)

datatype ty =
    Ty_Bool
  | Ty_Char
  | Ty_Int int_ty
  | Ty_Uint uint_ty
  | Ty_Float float_ty
  | Ty_Adt adt_def "generic_arg list"
  | Ty_Foreign def_id
  | Ty_Str
  | Ty_Array ty ty_const
  | Ty_Pat ty
  | Ty_Slice ty
  | Ty_RawPtr ty mutability
  | Ty_Ref ty mutability
  | Ty_FnDef def_id "generic_arg list"
  | Ty_FnPtr
  | Ty_UnsafeBinder
  | Ty_Dynamic
  | Ty_Closure def_id "generic_arg list"
  | Ty_CoroutineClosure def_id "generic_arg list"
  | Ty_Coroutine def_id "generic_arg list"
  | Ty_CoroutineWitness def_id "generic_arg list"
  | Ty_Never
  | Ty_Tuple "ty list"
  | Ty_Alias def_id "generic_arg list"
  | Ty_Param nat
  | Ty_Bound
  | Ty_Placeholder
  | Ty_Infer infer_ty
  | Ty_Error
and ty_const =
    Const_Param nat
  | Const_Infer
  | Const_Bound
  | Const_Placeholder
  | Const_Alias def_id "generic_arg list"
  | Const_Value ty val_tree
  | Const_Error
  | Const_Expr
and val_tree =
    ValTree_Leaf scalar_int
  | ValTree_Branch "ty_const list"
and generic_arg =
    Arg_Lifetime
  | Arg_Type ty
  | Arg_Const ty_const

definition is_integral :: "ty \<Rightarrow> bool" where
  "is_integral t = (case t of
       Ty_Infer (IntVar _) \<Rightarrow> True
     | Ty_Int _ \<Rightarrow> True
     | Ty_Uint _ \<Rightarrow> True
     | _ \<Rightarrow> False)"

fun value_try_to_leaf :: "val_tree \<Rightarrow> scalar_int option" where
  "value_try_to_leaf (ValTree_Leaf s) = Some s"
| "value_try_to_leaf (ValTree_Branch _) = None"

fun const_try_to_leaf :: "ty_const \<Rightarrow> scalar_int option" where
  "const_try_to_leaf (Const_Value _ v) = value_try_to_leaf v"
| "const_try_to_leaf _ = None"

text \<open>\<open>to_value\<close> panics on a constant that is not evaluated.\<close>

fun to_value :: "ty_const \<Rightarrow> (ty \<times> val_tree) option" where
  "to_value (Const_Value t v) = Some (t, v)"
| "to_value _ = None"

text \<open>\<open>const_at\<close> panics out of range and on an argument that is not a constant.\<close>

fun as_const :: "generic_arg \<Rightarrow> ty_const option" where
  "as_const (Arg_Const c) = Some c"
| "as_const _ = None"

definition const_at :: "generic_arg list \<Rightarrow> nat \<Rightarrow> ty_const option" where
  "const_at args i = do { a \<leftarrow> vec_index args i; as_const a }"

section \<open>Constants of MIR\<close>

datatype const_value =
    CV_Scalar scalar
  | CV_ZeroSized
  | CV_Slice alloc_id u64
  | CV_Indirect alloc_id nat

datatype mir_const =
    MC_Ty ty ty_const
  | MC_Unevaluated def_id "generic_arg list" "nat option" ty
  | MC_Val const_value ty

fun mir_const_try_to_scalar_int :: "mir_const \<Rightarrow> scalar_int option" where
  "mir_const_try_to_scalar_int (MC_Val (CV_Scalar (Scalar_Int x)) _) = Some x"
| "mir_const_try_to_scalar_int (MC_Ty _ c) = const_try_to_leaf c"
| "mir_const_try_to_scalar_int _ = None"

end
