(* ===== verification/MIR_Syntax.thy ===== *)
theory MIR_Syntax
  imports MIR_Ty
begin

text \<open>
  The syntax of MIR (\<open>rustc_middle/src/mir/syntax.rs\<close>, \<open>terminator.rs\<close>, \<open>mod.rs\<close>): places,
  operands, rvalues, statements, terminators, basic blocks and bodies, with the accessors the
  Triton backend calls. A basic block and a local are indices into the vectors of the body.
  Spans, debug information and the payloads of statements that no modelled operation reads are
  left out.
\<close>

type_synonym local = nat
type_synonym basic_block = nat

section \<open>Places\<close>

datatype projection_elem =
    Proj_Deref
  | Proj_Field field_idx ty
  | Proj_Index local
  | Proj_ConstantIndex u64 u64 bool
  | Proj_Subslice u64 u64 bool
  | Proj_Downcast "symbol option" variant_idx
  | Proj_OpaqueCast ty
  | Proj_UnwrapUnsafeBinder ty

record place =
  p_local :: local
  p_projection :: "projection_elem list"

abbreviation local_place :: "local \<Rightarrow> place" where
  "local_place l \<equiv> \<lparr>p_local = l, p_projection = []\<rparr>"

definition is_downcast :: "projection_elem \<Rightarrow> bool" where
  "is_downcast e = (case e of Proj_Downcast _ _ \<Rightarrow> True | _ \<Rightarrow> False)"

section \<open>Operands and rvalues\<close>

datatype runtime_checks = UbChecks | ContractChecks | OverflowChecks

datatype operand =
    Op_Copy place
  | Op_Move place
  | Op_Constant mir_const
  | Op_RuntimeChecks runtime_checks

text \<open>The place of a projection-free copy or move, the pattern the backend matches everywhere.\<close>

fun bare_local :: "operand \<Rightarrow> local option" where
  "bare_local (Op_Copy p) = (if p_projection p = [] then Some (p_local p) else None)"
| "bare_local (Op_Move p) = (if p_projection p = [] then Some (p_local p) else None)"
| "bare_local _ = None"

datatype un_op = UnOp_Not | UnOp_Neg | UnOp_PtrMetadata

datatype bin_op =
    BinOp_Add | BinOp_AddUnchecked | BinOp_AddWithOverflow
  | BinOp_Sub | BinOp_SubUnchecked | BinOp_SubWithOverflow
  | BinOp_Mul | BinOp_MulUnchecked | BinOp_MulWithOverflow
  | BinOp_Div | BinOp_Rem
  | BinOp_BitXor | BinOp_BitAnd | BinOp_BitOr
  | BinOp_Shl | BinOp_ShlUnchecked | BinOp_Shr | BinOp_ShrUnchecked
  | BinOp_Eq | BinOp_Lt | BinOp_Le | BinOp_Ne | BinOp_Ge | BinOp_Gt | BinOp_Cmp
  | BinOp_Offset

datatype pointer_coercion =
    ReifyFnPointer | UnsafeFnPointer | ClosureFnPointer | MutToConstPointer | ArrayToPointer | Unsize

datatype cast_kind =
    Cast_PointerExposeProvenance
  | Cast_PointerWithExposedProvenance
  | Cast_PointerCoercion pointer_coercion
  | Cast_IntToInt
  | Cast_FloatToInt
  | Cast_FloatToFloat
  | Cast_IntToFloat
  | Cast_PtrToPtr
  | Cast_FnPtrToPtr
  | Cast_Transmute
  | Cast_BoxDerefTransmute
  | Cast_Subtype

datatype borrow_kind = BK_Shared | BK_Fake | BK_Mut

datatype raw_ptr_kind = RPK_Mut | RPK_Const | RPK_FakeForPtrMetadata

datatype aggregate_kind =
    Agg_Array ty
  | Agg_Tuple
  | Agg_Adt def_id variant_idx "generic_arg list"
  | Agg_Closure def_id "generic_arg list"
  | Agg_Coroutine def_id "generic_arg list"
  | Agg_CoroutineClosure def_id "generic_arg list"
  | Agg_RawPtr ty mutability

definition is_adt_aggregate :: "aggregate_kind \<Rightarrow> bool" where
  "is_adt_aggregate k = (case k of Agg_Adt _ _ _ \<Rightarrow> True | _ \<Rightarrow> False)"

datatype rvalue =
    Rv_Use operand
  | Rv_Repeat operand ty_const
  | Rv_Ref borrow_kind place
  | Rv_ThreadLocalRef def_id
  | Rv_RawPtr raw_ptr_kind place
  | Rv_Cast cast_kind operand ty
  | Rv_BinaryOp bin_op operand operand
  | Rv_UnaryOp un_op operand
  | Rv_Discriminant place
  | Rv_Aggregate aggregate_kind "operand list"
  | Rv_CopyForDeref place
  | Rv_WrapUnsafeBinder operand ty
  | Rv_Reborrow ty mutability place

section \<open>Statements\<close>

datatype non_diverging_intrinsic =
    Intr_Assume operand
  | Intr_CopyNonOverlapping operand operand operand

datatype statement =
    Stmt_Assign place rvalue
  | Stmt_FakeRead place
  | Stmt_SetDiscriminant place variant_idx
  | Stmt_StorageLive local
  | Stmt_StorageDead local
  | Stmt_PlaceMention place
  | Stmt_AscribeUserType place
  | Stmt_Coverage
  | Stmt_Intrinsic non_diverging_intrinsic
  | Stmt_ConstEvalCounter
  | Stmt_Nop
  | Stmt_BackwardIncompatibleDropHint place

section \<open>Terminators\<close>

text \<open>
  \<open>SwitchTargets\<close> keeps the tested values and the targets in two vectors; the last target is
  the fallback, so there is always one target more than there are values.
\<close>

record switch_targets =
  st_values :: "u128 list"
  st_targets :: "basic_block list"

definition switch_targets_wf :: "switch_targets \<Rightarrow> bool" where
  "switch_targets_wf t \<longleftrightarrow> length (st_targets t) = Suc (length (st_values t))"

definition switch_targets_new :: "(u128 \<times> basic_block) list \<Rightarrow> basic_block \<Rightarrow> switch_targets" where
  "switch_targets_new cases other =
     \<lparr>st_values = map fst cases, st_targets = map snd cases @ [other]\<rparr>"

definition static_if :: "u128 \<Rightarrow> basic_block \<Rightarrow> basic_block \<Rightarrow> switch_targets" where
  "static_if v then_bb else_bb = \<lparr>st_values = [v], st_targets = [then_bb, else_bb]\<rparr>"

definition as_static_if :: "switch_targets \<Rightarrow> (u128 \<times> basic_block \<times> basic_block) option" where
  "as_static_if t = (case (st_values t, st_targets t) of
       ([v], [a, b]) \<Rightarrow> Some (v, a, b)
     | _ \<Rightarrow> None)"

definition otherwise :: "switch_targets \<Rightarrow> basic_block option" where
  "otherwise t = (if st_targets t = [] then None else Some (last (st_targets t)))"

definition switch_iter :: "switch_targets \<Rightarrow> (u128 \<times> basic_block) list" where
  "switch_iter t = zip (st_values t) (st_targets t)"

definition all_targets :: "switch_targets \<Rightarrow> basic_block list" where
  "all_targets t = st_targets t"

text \<open>The panic of \<open>target_for_value\<close> is that of \<open>otherwise\<close>: a switch with no targets.\<close>

definition target_for_value :: "switch_targets \<Rightarrow> u128 \<Rightarrow> basic_block option" where
  "target_for_value t v =
     (case find_map (\<lambda>(x, bb). if x = v then Some bb else None) (switch_iter t) of
        Some bb \<Rightarrow> Some bb
      | None \<Rightarrow> otherwise t)"

definition add_target :: "switch_targets \<Rightarrow> u128 \<Rightarrow> basic_block \<Rightarrow> switch_targets option" where
  "add_target t v bb =
     (if v \<in> set (st_values t) \<or> st_targets t = [] then None
      else Some \<lparr>st_values = st_values t @ [v],
                 st_targets = butlast (st_targets t) @ [bb, last (st_targets t)]\<rparr>)"

definition is_distinct :: "switch_targets \<Rightarrow> bool" where
  "is_distinct t \<longleftrightarrow> card (set (st_targets t)) = length (st_targets t)"

datatype unwind_terminate_reason = Terminate_Abi | Terminate_InCleanup

datatype unwind_action =
    Unwind_Continue
  | Unwind_Unreachable
  | Unwind_Terminate unwind_terminate_reason
  | Unwind_Cleanup basic_block

datatype terminator =
    Term_Goto basic_block
  | Term_SwitchInt operand switch_targets
  | Term_UnwindResume
  | Term_UnwindTerminate unwind_terminate_reason
  | Term_Return
  | Term_Unreachable
  | Term_Drop place basic_block unwind_action bool "basic_block option"
  | Term_Call operand "operand list" place "basic_block option" unwind_action
  | Term_TailCall operand "operand list"
  | Term_Assert operand bool basic_block unwind_action
  | Term_Yield operand basic_block place "basic_block option"
  | Term_CoroutineDrop
  | Term_FalseEdge basic_block basic_block
  | Term_FalseUnwind basic_block unwind_action
  | Term_InlineAsm "basic_block list" unwind_action

definition mk_successors ::
    "basic_block list \<Rightarrow> basic_block option \<Rightarrow> basic_block option \<Rightarrow> basic_block list" where
  "mk_successors bbs o1 o2 =
     bbs @ (case o1 of Some b \<Rightarrow> [b] | None \<Rightarrow> []) @ (case o2 of Some b \<Rightarrow> [b] | None \<Rightarrow> [])"

fun cleanup_target :: "unwind_action \<Rightarrow> basic_block option" where
  "cleanup_target (Unwind_Cleanup u) = Some u"
| "cleanup_target _ = None"

text \<open>
  \<open>successors\<close>: the source enumerates the combinations of optional targets in one match; the
  match arms of one constructor differ only in which of them are present.
\<close>

fun successors :: "terminator \<Rightarrow> basic_block list" where
  "successors (Term_Drop _ t unw _ d) = mk_successors [t] (cleanup_target unw) d"
| "successors (Term_Call _ _ _ (Some t) unw) = mk_successors [t] (cleanup_target unw) None"
| "successors (Term_Call _ _ _ None unw) =
     (case unw of Unwind_Cleanup t \<Rightarrow> mk_successors [t] None None | _ \<Rightarrow> mk_successors [] None None)"
| "successors (Term_Yield _ t _ d) = mk_successors [t] d None"
| "successors (Term_Assert _ _ t unw) = mk_successors [t] (cleanup_target unw) None"
| "successors (Term_FalseUnwind t unw) = mk_successors [t] (cleanup_target unw) None"
| "successors (Term_Goto t) = mk_successors [t] None None"
| "successors Term_UnwindResume = mk_successors [] None None"
| "successors (Term_UnwindTerminate _) = mk_successors [] None None"
| "successors Term_CoroutineDrop = mk_successors [] None None"
| "successors Term_Return = mk_successors [] None None"
| "successors Term_Unreachable = mk_successors [] None None"
| "successors (Term_TailCall _ _) = mk_successors [] None None"
| "successors (Term_InlineAsm ts unw) = mk_successors ts (cleanup_target unw) None"
| "successors (Term_SwitchInt _ ts) = mk_successors (st_targets ts) None None"
| "successors (Term_FalseEdge r i) = mk_successors [r] (Some i) None"

section \<open>Bodies\<close>

record basic_block_data =
  bb_statements :: "statement list"
  bb_terminator :: "terminator option"
  bb_is_cleanup :: bool

record body =
  basic_blocks :: "basic_block_data list"
  local_decls :: "ty list"
  arg_count :: nat

definition block_at :: "body \<Rightarrow> basic_block \<Rightarrow> basic_block_data option" where
  "block_at mir bb = vec_index (basic_blocks mir) bb"

text \<open>\<open>terminator()\<close> panics on a block under construction, indexing out of range panics too.\<close>

definition terminator_at :: "body \<Rightarrow> basic_block \<Rightarrow> terminator option" where
  "terminator_at mir bb = do { d \<leftarrow> block_at mir bb; bb_terminator d }"

definition statements_at :: "body \<Rightarrow> basic_block \<Rightarrow> statement list option" where
  "statements_at mir bb = map_option bb_statements (block_at mir bb)"

text \<open>
  A body the code generator receives: every block has a terminator, every edge stays inside the
  body, and every switch has its fallback target.
\<close>

definition terminator_wf :: "nat \<Rightarrow> terminator \<Rightarrow> bool" where
  "terminator_wf n t \<longleftrightarrow> list_all (\<lambda>s. s < n) (successors t) \<and>
     (case t of Term_SwitchInt _ ts \<Rightarrow> switch_targets_wf ts | _ \<Rightarrow> True)"

definition body_wf :: "body \<Rightarrow> bool" where
  "body_wf mir \<longleftrightarrow> basic_blocks mir \<noteq> [] \<and>
     list_all (\<lambda>d. case bb_terminator d of
         None \<Rightarrow> False
       | Some t \<Rightarrow> terminator_wf (length (basic_blocks mir)) t) (basic_blocks mir)"

section \<open>Facts on switch targets\<close>

lemma switch_targets_new_wf: "switch_targets_wf (switch_targets_new cs d)"
  by (simp add: switch_targets_wf_def switch_targets_new_def)

lemma static_if_wf: "switch_targets_wf (static_if v a b)"
  by (simp add: switch_targets_wf_def static_if_def)

lemma as_static_if_static_if: "as_static_if (static_if v a b) = Some (v, a, b)"
  by (simp add: as_static_if_def static_if_def)

lemma switch_targets_wf_nonempty: "switch_targets_wf t \<Longrightarrow> st_targets t \<noteq> []"
  by (auto simp: switch_targets_wf_def)

lemma otherwise_wf: "switch_targets_wf t \<Longrightarrow> otherwise t = Some (last (st_targets t))"
  by (simp add: otherwise_def switch_targets_wf_nonempty)

lemma switch_iter_new: "switch_iter (switch_targets_new cs d) = cs"
  unfolding switch_iter_def switch_targets_new_def by (induction cs) auto

lemma set_switch_iter_targets: "(v, bb) \<in> set (switch_iter t) \<Longrightarrow> bb \<in> set (st_targets t)"
  unfolding switch_iter_def by (rule set_zip_rightD)

lemma target_for_value_in_targets:
  "target_for_value t v = Some bb \<Longrightarrow> bb \<in> set (st_targets t)"
  by (auto simp: target_for_value_def otherwise_def split: option.splits if_splits
           dest!: find_map_Some_ex set_switch_iter_targets)

lemma target_for_value_total:
  assumes "switch_targets_wf t"
  shows "\<exists>bb. target_for_value t v = Some bb"
  using assms by (simp add: target_for_value_def otherwise_wf split: option.splits)

text \<open>Removing the fallback leaves as many targets as values, so \<open>iter\<close> and the fallback
  together list all the targets.\<close>

lemma switch_iter_otherwise_targets:
  assumes "switch_targets_wf t"
  shows "map snd (switch_iter t) @ [last (st_targets t)] = st_targets t"
proof -
  have ne: "st_targets t \<noteq> []" using assms by (rule switch_targets_wf_nonempty)
  have len: "length (st_values t) = length (butlast (st_targets t))"
    using assms by (simp add: switch_targets_wf_def)
  have "map snd (switch_iter t) = butlast (st_targets t)"
    unfolding switch_iter_def using len ne
    by (simp add: map_snd_zip_take butlast_conv_take)
  then show ?thesis using ne by simp
qed

lemma add_target_wf:
  assumes "switch_targets_wf t" "add_target t v bb = Some t'"
  shows "switch_targets_wf t'"
  using assms by (auto simp: switch_targets_wf_def add_target_def split: if_splits)

section \<open>Facts on bodies\<close>

lemma mk_successors_set:
  "set (mk_successors bbs o1 o2) = set bbs \<union> set_option o1 \<union> set_option o2"
  by (auto simp: mk_successors_def split: option.splits)

lemma cleanup_target_set: "set_option (cleanup_target u) \<subseteq> {b. u = Unwind_Cleanup b}"
  by (cases u) auto

lemma body_wf_terminator:
  assumes "body_wf mir" "bb < length (basic_blocks mir)"
  obtains t where "terminator_at mir bb = Some t" "terminator_wf (length (basic_blocks mir)) t"
  using assms
  by (auto simp: body_wf_def terminator_at_def block_at_def list_all_length split: option.splits)

lemma body_wf_entry: "body_wf mir \<Longrightarrow> 0 < length (basic_blocks mir)"
  by (simp add: body_wf_def)

lemma terminator_at_in_range: "terminator_at mir bb = Some t \<Longrightarrow> bb < length (basic_blocks mir)"
  by (auto simp: terminator_at_def block_at_def vec_index_def bind_eq_Some_conv split: if_splits)

lemma terminator_wf_successor:
  "terminator_wf n t \<Longrightarrow> s \<in> set (successors t) \<Longrightarrow> s < n"
  by (auto simp: terminator_wf_def list_all_iff)

end
