(* ===== verification/Triton_Const.thy ===== *)
theory Triton_Const
  imports MIR_Syntax
begin

text \<open>
  The pre-scan of the Triton code generator for statically known scalars and discriminants
  (\<open>compute_const_disc_locals\<close> and \<open>extract_switch_const\<close> of
  \<open>rustc_codegen_llvm/src/mlir/codegen/triton/mod.rs\<close>).

  The first pass records the locals that a \<open>SetDiscriminant\<close> or a scalar constant is stored
  into; the second repeats a sweep over all statements that propagates known values through
  copies and discriminant reads until a sweep adds no local. The maps are \<open>HashMap\<close>s keyed by
  the local; a later insertion overwrites an earlier one.

  Substituting the generic arguments of the instance into a constant and normalising it is a
  query of the type context; it is the field \<open>instantiate\<close> of the context record.
\<close>

record instance_ctx =
  instantiate :: "mir_const \<Rightarrow> mir_const"
  inst_args :: "generic_arg list"

type_synonym const_map = "local \<rightharpoonup> u64"

section \<open>Definitions\<close>

definition extract_scalar_const :: "instance_ctx \<Rightarrow> mir_const \<Rightarrow> u64 option" where
  "extract_scalar_const ix c =
     (case instantiate ix c of
        MC_Val (CV_Scalar (Scalar_Int s)) _ \<Rightarrow> Some (ucast (to_bits_unchecked s))
      | MC_Ty _ (Const_Value _ v) \<Rightarrow>
          map_option (\<lambda>s. ucast (to_bits_unchecked s)) (value_try_to_leaf v)
      | _ \<Rightarrow> None)"

definition all_statements :: "body \<Rightarrow> statement list" where
  "all_statements mir = concat (map bb_statements (basic_blocks mir))"

fun disc_pass1_stmt :: "instance_ctx \<Rightarrow> statement \<Rightarrow> const_map \<Rightarrow> const_map" where
  "disc_pass1_stmt ix (Stmt_SetDiscriminant p vi) m =
     (if p_projection p = [] then m(p_local p \<mapsto> of_nat vi) else m)"
| "disc_pass1_stmt ix (Stmt_Assign p (Rv_Use (Op_Constant c))) m =
     (if p_projection p = [] then
        (case extract_scalar_const ix c of
           Some v \<Rightarrow> m(p_local p \<mapsto> v)
         | None \<Rightarrow> m)
      else m)"
| "disc_pass1_stmt ix _ m = m"

text \<open>The value an assignment passes on: the read of a discriminant, or a bare copy or move.\<close>

fun disc_known :: "const_map \<Rightarrow> rvalue \<Rightarrow> u64 option" where
  "disc_known m (Rv_Discriminant src) = m (p_local src)"
| "disc_known m (Rv_Use op) = (case bare_local op of Some l \<Rightarrow> m l | None \<Rightarrow> None)"
| "disc_known m _ = None"

fun disc_pass2_stmt :: "statement \<Rightarrow> const_map \<times> bool \<Rightarrow> const_map \<times> bool" where
  "disc_pass2_stmt (Stmt_Assign p rv) (m, changed) =
     (if p_projection p = [] then
        (case disc_known m rv of
           Some v \<Rightarrow> (m(p_local p \<mapsto> v), changed \<or> m (p_local p) = None)
         | None \<Rightarrow> (m, changed))
      else (m, changed))"
| "disc_pass2_stmt _ st = st"

definition disc_pass1 :: "instance_ctx \<Rightarrow> statement list \<Rightarrow> const_map" where
  "disc_pass1 ix stmts = fold (disc_pass1_stmt ix) stmts Map.empty"

definition disc_sweep :: "statement list \<Rightarrow> const_map \<Rightarrow> const_map \<times> bool" where
  "disc_sweep stmts m = fold disc_pass2_stmt stmts (m, False)"

text \<open>The locals a sweep can add, which bound the number of sweeps.\<close>

fun assigned_local :: "statement \<Rightarrow> local option" where
  "assigned_local (Stmt_Assign p _) = (if p_projection p = [] then Some (p_local p) else None)"
| "assigned_local _ = None"

definition assigned_locals :: "statement list \<Rightarrow> local set" where
  "assigned_locals stmts = \<Union> (set_option ` assigned_local ` set stmts)"

lemma finite_assigned_locals [simp]: "finite (assigned_locals stmts)"
  by (auto simp: assigned_locals_def)

lemma dom_psubset_update: "m k = None \<Longrightarrow> dom m \<subset> insert k (dom m)"
  by (auto simp: domIff)

lemma pass2_stmt_dom:
  assumes "disc_pass2_stmt s (m, b) = (m', b')"
  shows "dom m \<subseteq> dom m'" "dom m' \<subseteq> dom m \<union> set_option (assigned_local s)"
    and "b' \<Longrightarrow> b \<or> dom m \<subset> dom m'" "b \<Longrightarrow> b'"
  using assms
  by (cases s; auto split: if_splits option.splits simp: dom_psubset_update)+

lemma sweep_fold_dom:
  assumes "fold disc_pass2_stmt stmts (m, b) = (m', b')"
  shows "dom m \<subseteq> dom m' \<and> dom m' \<subseteq> dom m \<union> assigned_locals stmts \<and>
     (b' \<longrightarrow> b \<or> dom m \<subset> dom m') \<and> (b \<longrightarrow> b')"
  using assms
proof (induction stmts arbitrary: m b)
  case Nil
  then show ?case by (simp add: assigned_locals_def)
next
  case (Cons s stmts)
  obtain m1 b1 where s: "disc_pass2_stmt s (m, b) = (m1, b1)" by fastforce
  with Cons.prems have "fold disc_pass2_stmt stmts (m1, b1) = (m', b')" by simp
  note IH = Cons.IH [OF this] and step = pass2_stmt_dom [OF s]
  have "assigned_locals (s # stmts) = set_option (assigned_local s) \<union> assigned_locals stmts"
    by (simp add: assigned_locals_def)
  then have asg: "(D \<union> set_option (assigned_local s)) \<union> assigned_locals stmts = D \<union> assigned_locals (s # stmts)"
    for D by (simp only: Un_assoc)
  have "dom m \<subseteq> dom m'" using IH step(1) by (meson order_trans)
  moreover have "dom m' \<subseteq> dom m \<union> assigned_locals (s # stmts)"
    unfolding asg [symmetric] using IH Un_mono [OF step(2) order_refl] by (meson order_trans)
  moreover have "b' \<longrightarrow> b \<or> dom m \<subset> dom m'"
    using IH step(1,3) by (meson psubset_subset_trans subset_psubset_trans)
  moreover have "b \<longrightarrow> b'" using IH step(4) by simp
  ultimately show ?case by simp
qed

lemma sweep_dom:
  assumes "disc_sweep stmts m = (m', b')"
  shows "dom m \<subseteq> dom m'" "dom m' \<subseteq> dom m \<union> assigned_locals stmts"
    and "b' \<Longrightarrow> dom m \<subset> dom m'"
  using sweep_fold_dom [OF assms [unfolded disc_sweep_def]] by blast+

text \<open>\<open>while changed { ... }\<close>\<close>

function disc_fixpoint :: "statement list \<Rightarrow> const_map \<Rightarrow> const_map" where
  "disc_fixpoint stmts m =
     (case disc_sweep stmts m of (m', changed) \<Rightarrow>
        if changed then disc_fixpoint stmts m' else m')"
  by pat_completeness auto
termination
proof (relation "measure (\<lambda>(stmts, m). card (assigned_locals stmts - dom m))")
  show "wf (measure (\<lambda>(stmts, m). card (assigned_locals stmts - dom m)))" by simp
next
  fix stmts m m' b'
  assume "(m', b') = disc_sweep stmts m" and b': "b'"
  then have sw: "disc_sweep stmts m = (m', b')" by simp
  have "dom m \<subset> dom m'" using sweep_dom(3) [OF sw] b' .
  moreover have "dom m' \<subseteq> dom m \<union> assigned_locals stmts" using sweep_dom [OF sw] by simp
  ultimately have "assigned_locals stmts - dom m' \<subset> assigned_locals stmts - dom m" by blast
  then show "((stmts, m'), (stmts, m)) \<in> measure (\<lambda>(stmts, m). card (assigned_locals stmts - dom m))"
    by (simp add: psubset_card_mono)
qed

declare disc_fixpoint.simps [simp del]

definition compute_const_disc_locals :: "instance_ctx \<Rightarrow> body \<Rightarrow> const_map" where
  "compute_const_disc_locals ix mir =
     disc_fixpoint (all_statements mir) (disc_pass1 ix (all_statements mir))"

definition extract_switch_const ::
    "instance_ctx \<Rightarrow> operand \<Rightarrow> const_map \<Rightarrow> u64 option" where
  "extract_switch_const ix discr m =
     (case discr of
        Op_Constant c \<Rightarrow> extract_scalar_const ix c
      | _ \<Rightarrow> (case bare_local discr of Some l \<Rightarrow> m l | None \<Rightarrow> None))"

section \<open>Where the values come from\<close>

text \<open>
  A recorded value is justified by a statement of the body: the statement stores exactly that
  value, or passes on the recorded value of another local.
\<close>

fun disc_source :: "instance_ctx \<Rightarrow> const_map \<Rightarrow> statement \<Rightarrow> u64 option" where
  "disc_source ix m (Stmt_SetDiscriminant p vi) = Some (of_nat vi)"
| "disc_source ix m (Stmt_Assign p rv) =
     (case rv of
        Rv_Use (Op_Constant c) \<Rightarrow> extract_scalar_const ix c
      | _ \<Rightarrow> disc_known m rv)"
| "disc_source ix m _ = None"

fun defines_bare :: "local \<Rightarrow> statement \<Rightarrow> bool" where
  "defines_bare l (Stmt_SetDiscriminant p _) \<longleftrightarrow> p = local_place l"
| "defines_bare l (Stmt_Assign p _) \<longleftrightarrow> p = local_place l"
| "defines_bare l _ \<longleftrightarrow> False"

definition justified :: "instance_ctx \<Rightarrow> statement list \<Rightarrow> const_map \<Rightarrow> bool" where
  "justified ix stmts m \<longleftrightarrow>
     (\<forall>l v. m l = Some v \<longrightarrow>
        (\<exists>s\<in>set stmts. defines_bare l s \<and> disc_source ix m s = Some v))"

text \<open>At most one statement of the list stores to the local.\<close>

definition one_def :: "statement list \<Rightarrow> local \<Rightarrow> bool" where
  "one_def stmts l \<longleftrightarrow>
     (\<forall>s\<in>set stmts. \<forall>t\<in>set stmts. defines_bare l s \<longrightarrow> defines_bare l t \<longrightarrow> s = t)"

lemma place_eq_local_place:
  "p_projection p = [] \<Longrightarrow> p = local_place (p_local p)"
  by (cases p) simp

lemma disc_known_update:
  "m k = None \<Longrightarrow> disc_known m rv = Some v \<Longrightarrow> disc_known (m(k \<mapsto> w)) rv = Some v"
  by (cases rv) (auto split: option.splits)

lemma disc_source_update:
  "m k = None \<Longrightarrow> disc_source ix m s = Some v \<Longrightarrow> disc_source ix (m(k \<mapsto> w)) s = Some v"
  by (cases s) (auto split: rvalue.splits operand.splits simp: disc_known_update)

text \<open>The step both passes make: a store of the value a statement is the source of.\<close>

lemma justified_update:
  assumes j: "justified ix stmts m" and s: "s \<in> set stmts" "defines_bare k s"
    and src: "disc_source ix m s = Some v" and one: "one_def stmts k"
  shows "justified ix stmts (m(k \<mapsto> v))"
proof (cases "m k")
  case None
  show ?thesis
    unfolding justified_def
  proof (intro allI impI)
    fix l w assume lw: "(m(k \<mapsto> v)) l = Some w"
    show "\<exists>s\<in>set stmts. defines_bare l s \<and> disc_source ix (m(k \<mapsto> v)) s = Some w"
    proof (cases "l = k")
      case True
      with lw s src None show ?thesis by (auto intro: disc_source_update)
    next
      case False
      with lw j obtain t where "t \<in> set stmts" "defines_bare l t" "disc_source ix m t = Some w"
        unfolding justified_def by fastforce
      with None show ?thesis by (auto intro: disc_source_update)
    qed
  qed
next
  case (Some v')
  with j obtain t where t: "t \<in> set stmts" "defines_bare k t" "disc_source ix m t = Some v'"
    unfolding justified_def by blast
  with s one have "t = s" unfolding one_def_def by blast
  with t src Some have "m(k \<mapsto> v) = m" by auto
  with j show ?thesis by simp
qed

lemma justified_pass1_stmt:
  assumes "justified ix stmts m" "s \<in> set stmts"
    and "\<And>k. k \<in> dom (disc_pass1_stmt ix s m) \<Longrightarrow> one_def stmts k"
  shows "justified ix stmts (disc_pass1_stmt ix s m)"
proof -
  have upd: "justified ix stmts (m(k \<mapsto> v))"
    if "defines_bare k s" "disc_source ix m s = Some v" "disc_pass1_stmt ix s m = m(k \<mapsto> v)" for k v
    using that assms by (auto intro: justified_update)
  show ?thesis
    using assms(1) upd
    by (cases "(ix, s, m)" rule: disc_pass1_stmt.cases)
       (auto split: if_splits option.splits intro: place_eq_local_place)
qed

lemma justified_pass2_stmt:
  assumes "justified ix stmts m" "s \<in> set stmts" "disc_pass2_stmt s (m, b) = (m', b')"
    and "\<And>k. k \<in> dom m' \<Longrightarrow> one_def stmts k"
  shows "justified ix stmts m'"
proof (cases s)
  case (Stmt_Assign p rv)
  show ?thesis
  proof (cases "p_projection p = [] \<and> disc_known m rv \<noteq> None")
    case True
    then obtain v where v: "disc_known m rv = Some v" by auto
    with True assms(3) Stmt_Assign have m': "m' = m(p_local p \<mapsto> v)" by auto
    have "disc_source ix m s = Some v"
      using v Stmt_Assign by (cases rv) (auto split: operand.splits)
    moreover have "defines_bare (p_local p) s"
      using True Stmt_Assign place_eq_local_place by auto
    ultimately show ?thesis
      using assms m' by (auto intro!: justified_update [where s = s])
  next
    case False
    with assms(1,3) Stmt_Assign show ?thesis by (auto split: if_splits option.splits)
  qed
qed (use assms in auto)

lemma pass1_stmt_dom: "dom m \<subseteq> dom (disc_pass1_stmt ix s m)"
  by (cases "(ix, s, m)" rule: disc_pass1_stmt.cases) (auto split: option.splits)

lemma pass1_fold_dom: "dom m \<subseteq> dom (fold (disc_pass1_stmt ix) ss m)"
proof (induction ss arbitrary: m)
  case (Cons s ss)
  show ?case using Cons.IH [of "disc_pass1_stmt ix s m"] pass1_stmt_dom [of m ix s] by simp
qed simp

lemma justified_pass1_fold:
  assumes "justified ix stmts m" "set ss \<subseteq> set stmts"
    and "\<And>k. k \<in> dom (fold (disc_pass1_stmt ix) ss m) \<Longrightarrow> one_def stmts k"
  shows "justified ix stmts (fold (disc_pass1_stmt ix) ss m)"
  using assms
proof (induction ss arbitrary: m)
  case (Cons s ss)
  have "justified ix stmts (disc_pass1_stmt ix s m)"
  proof (rule justified_pass1_stmt)
    fix k assume "k \<in> dom (disc_pass1_stmt ix s m)"
    then have "k \<in> dom (fold (disc_pass1_stmt ix) (s # ss) m)"
      using pass1_fold_dom [of "disc_pass1_stmt ix s m" ix ss] by auto
    then show "one_def stmts k" by (rule Cons.prems(3))
  qed (use Cons.prems in auto)
  with Cons.prems show ?case by (auto intro: Cons.IH)
qed simp

lemma justified_sweep_fold:
  assumes "justified ix stmts m" "set ss \<subseteq> set stmts"
    and "fold disc_pass2_stmt ss (m, b) = (m', b')"
    and "\<And>k. k \<in> dom m' \<Longrightarrow> one_def stmts k"
  shows "justified ix stmts m'"
  using assms
proof (induction ss arbitrary: m b)
  case (Cons s ss)
  obtain m1 b1 where s: "disc_pass2_stmt s (m, b) = (m1, b1)" by fastforce
  with Cons.prems(3) have f: "fold disc_pass2_stmt ss (m1, b1) = (m', b')" by simp
  have "justified ix stmts m1"
  proof (rule justified_pass2_stmt [OF Cons.prems(1) _ s])
    fix k assume "k \<in> dom m1"
    with sweep_fold_dom [OF f] have "k \<in> dom m'" by blast
    then show "one_def stmts k" by (rule Cons.prems(4))
  qed (use Cons.prems in auto)
  with Cons.prems(2,4) f show ?case by (intro Cons.IH) auto
qed simp

lemma disc_fixpoint_dom: "dom m \<subseteq> dom (disc_fixpoint stmts m)"
proof (induction stmts m rule: disc_fixpoint.induct)
  case (1 stmts m)
  obtain m' b' where sw: "disc_sweep stmts m = (m', b')" by fastforce
  show ?case
    using sweep_dom [OF sw] "1.IH" [OF sw [symmetric]]
    by (cases b') (auto simp: disc_fixpoint.simps [of stmts m] sw)
qed

lemma justified_disc_fixpoint:
  assumes "justified ix stmts m" "\<And>k. k \<in> dom (disc_fixpoint stmts m) \<Longrightarrow> one_def stmts k"
  shows "justified ix stmts (disc_fixpoint stmts m)"
  using assms
proof (induction stmts m rule: disc_fixpoint.induct)
  case (1 stmts m)
  obtain m' b' where sw: "disc_sweep stmts m = (m', b')" by fastforce
  have eq: "disc_fixpoint stmts m = (if b' then disc_fixpoint stmts m' else m')"
    by (simp add: disc_fixpoint.simps [of stmts m] sw)
  have "dom m' \<subseteq> dom (disc_fixpoint stmts m)"
    using eq disc_fixpoint_dom [of m' stmts] by (cases b') auto
  then have one: "one_def stmts k" if "k \<in> dom m'" for k
    using that by (intro "1.prems"(2)) (rule subsetD)
  have j: "justified ix stmts m'"
    by (rule justified_sweep_fold [OF "1.prems"(1) subset_refl sw [unfolded disc_sweep_def] one])
  show ?case
  proof (cases b')
    case True
    then show ?thesis
      using "1.IH" [OF sw [symmetric] _ j] "1.prems"(2) eq by simp
  next
    case False
    with j eq show ?thesis by simp
  qed
qed

lemma compute_const_disc_locals_justified:
  assumes "\<And>k. k \<in> dom (compute_const_disc_locals ix mir) \<Longrightarrow> one_def (all_statements mir) k"
  shows "justified ix (all_statements mir) (compute_const_disc_locals ix mir)"
  unfolding compute_const_disc_locals_def
proof (rule justified_disc_fixpoint)
  fix k assume k: "k \<in> dom (disc_fixpoint (all_statements mir) (disc_pass1 ix (all_statements mir)))"
  then show "one_def (all_statements mir) k"
    using assms by (simp add: compute_const_disc_locals_def)
next
  show "justified ix (all_statements mir) (disc_pass1 ix (all_statements mir))"
    unfolding disc_pass1_def
  proof (rule justified_pass1_fold)
    show "justified ix (all_statements mir) Map.empty" by (simp add: justified_def)
  next
    fix k assume "k \<in> dom (fold (disc_pass1_stmt ix) (all_statements mir) Map.empty)"
    then show "one_def (all_statements mir) k"
      using assms disc_fixpoint_dom
      unfolding compute_const_disc_locals_def disc_pass1_def by blast
  qed simp
qed

section \<open>The last sweep is stable\<close>

text \<open>
  When the loop stops no assignment of the body could still add a local: every projection-free
  copy or discriminant read of a known local has a known destination.
\<close>

lemma sweep_fold_stable:
  assumes "fold disc_pass2_stmt ss (m, b) = (m', False)"
  shows "\<not> b \<and> dom m' = dom m \<and>
     (\<forall>p rv. Stmt_Assign p rv \<in> set ss \<and> p_projection p = [] \<and> disc_known m rv \<noteq> None
        \<longrightarrow> p_local p \<in> dom m)"
  using assms
proof (induction ss arbitrary: m b)
  case (Cons s ss)
  obtain m1 b1 where s: "disc_pass2_stmt s (m, b) = (m1, b1)" by fastforce
  with Cons.prems have f: "fold disc_pass2_stmt ss (m1, b1) = (m', False)" by simp
  have IH: "\<not> b1" "dom m' = dom m1"
    "\<And>p rv. Stmt_Assign p rv \<in> set ss \<Longrightarrow> p_projection p = [] \<Longrightarrow> disc_known m1 rv \<noteq> None
      \<Longrightarrow> p_local p \<in> dom m1"
    using Cons.IH [OF f] by blast+
  have d1: "dom m1 = dom m"
    using s IH(1) by (cases s) (auto split: if_splits option.splits)
  have b0: "\<not> b" using s IH(1) by (cases s) (auto split: if_splits option.splits)
  have known: "disc_known m1 rv \<noteq> None \<longleftrightarrow> disc_known m rv \<noteq> None" for rv
    using d1 by (cases rv) (auto split: option.splits simp: domIff set_eq_iff)
  have here: "p_local p \<in> dom m"
    if "s = Stmt_Assign p rv" "p_projection p = []" "disc_known m rv \<noteq> None" for p rv
    using s that IH(1) by (auto split: option.splits)
  have rest: "p_local p \<in> dom m"
    if "Stmt_Assign p rv \<in> set ss" "p_projection p = []" "disc_known m rv \<noteq> None" for p rv
    using IH(3) [of p rv] that known [of rv] d1 by simp
  have "p_local p \<in> dom m"
    if "Stmt_Assign p rv \<in> set (s # ss)" "p_projection p = []" "disc_known m rv \<noteq> None" for p rv
    using that here [of p rv] rest [of p rv] by (cases "s = Stmt_Assign p rv") auto
  then show ?case using IH(2) d1 b0 by blast
qed simp

lemma disc_fixpoint_stable:
  assumes "Stmt_Assign p rv \<in> set stmts" "p_projection p = []"
    and "disc_known (disc_fixpoint stmts m) rv \<noteq> None"
  shows "p_local p \<in> dom (disc_fixpoint stmts m)"
  using assms
proof (induction stmts m rule: disc_fixpoint.induct)
  case (1 stmts m)
  obtain m' b' where sw: "disc_sweep stmts m = (m', b')" by fastforce
  have eq: "disc_fixpoint stmts m = (if b' then disc_fixpoint stmts m' else m')"
    by (simp add: disc_fixpoint.simps [of stmts m] sw)
  show ?case
  proof (cases b')
    case True
    with "1" eq sw show ?thesis by auto
  next
    case False
    with sw have f: "fold disc_pass2_stmt stmts (m, False) = (m', False)"
      by (simp add: disc_sweep_def)
    have d: "dom m' = dom m" using sweep_fold_stable [OF f] by blast
    then have "disc_known m rv \<noteq> None"
      using "1.prems"(3) eq False
      by (cases rv) (auto split: option.splits simp: domIff set_eq_iff)
    with sweep_fold_stable [OF f] "1.prems"(1,2) have "p_local p \<in> dom m" by blast
    with d eq False show ?thesis by simp
  qed
qed

end
