(* ===== verification/Worklist.thy ===== *)
theory Worklist
  imports Prelude
begin

text \<open>
  Worklist searches over the blocks of a body. The backend has two of them, which differ in how
  they queue the targets of a block: \<open>compute_reachable_blocks\<close> pushes on and pops from the end
  of a vector, \<open>collect_body_blocks_ordered\<close> pushes on the end and removes from the front. What
  they share is proved once, in the locale \<open>worklist_search\<close>, for any discipline that keeps
  what is queued.
\<close>

section \<open>The search as a relation\<close>

text \<open>
  \<open>search_run enq succ skip q ord r\<close>: with \<open>q\<close> queued and \<open>ord\<close> already visited, in this
  order, the search stops with the visited blocks \<open>r\<close>. Blocks that satisfy \<open>skip\<close> are dropped.
\<close>

inductive search_run ::
    "(nat list \<Rightarrow> nat list \<Rightarrow> nat list) \<Rightarrow> (nat \<Rightarrow> nat list) \<Rightarrow> (nat \<Rightarrow> bool) \<Rightarrow>
     nat list \<Rightarrow> nat list \<Rightarrow> nat list \<Rightarrow> bool"
  for enq succ skip where
  search_done: "search_run enq succ skip [] ord ord"
| search_seen: "b \<in> set ord \<Longrightarrow> search_run enq succ skip q ord r \<Longrightarrow>
     search_run enq succ skip (b # q) ord r"
| search_skip: "skip b \<Longrightarrow> search_run enq succ skip q ord r \<Longrightarrow>
     search_run enq succ skip (b # q) ord r"
| search_visit: "b \<notin> set ord \<Longrightarrow> \<not> skip b \<Longrightarrow>
     search_run enq succ skip (enq (succ b) q) (ord @ [b]) r \<Longrightarrow>
     search_run enq succ skip (b # q) ord r"

text \<open>The blocks a search should find: reachable from a start block without a skipped block.\<close>

inductive live_reach :: "(nat \<Rightarrow> nat list) \<Rightarrow> (nat \<Rightarrow> bool) \<Rightarrow> nat list \<Rightarrow> nat \<Rightarrow> bool"
  for succ skip starts where
  live_start: "b \<in> set starts \<Longrightarrow> \<not> skip b \<Longrightarrow> live_reach succ skip starts b"
| live_step: "live_reach succ skip starts a \<Longrightarrow> b \<in> set (succ a) \<Longrightarrow> \<not> skip b \<Longrightarrow>
     live_reach succ skip starts b"

text \<open>Paths of live blocks, and domination: a block every path passes.\<close>

inductive live_path :: "(nat \<Rightarrow> nat list) \<Rightarrow> (nat \<Rightarrow> bool) \<Rightarrow> nat list \<Rightarrow> nat list \<Rightarrow> bool"
  for succ skip starts where
  path_start: "b \<in> set starts \<Longrightarrow> \<not> skip b \<Longrightarrow> live_path succ skip starts [b]"
| path_step: "live_path succ skip starts p \<Longrightarrow> b \<in> set (succ (last p)) \<Longrightarrow> \<not> skip b \<Longrightarrow>
     live_path succ skip starts (p @ [b])"

definition dominates ::
    "(nat \<Rightarrow> nat list) \<Rightarrow> (nat \<Rightarrow> bool) \<Rightarrow> nat list \<Rightarrow> nat \<Rightarrow> nat \<Rightarrow> bool" where
  "dominates succ skip starts d b \<longleftrightarrow>
     (\<forall>p. live_path succ skip starts p \<and> last p = b \<longrightarrow> d \<in> set p)"

lemma live_path_nonempty: "live_path succ skip starts p \<Longrightarrow> p \<noteq> []"
  by (induction rule: live_path.induct) auto

lemma live_reach_path: "live_reach succ skip starts b \<Longrightarrow> \<exists>p. live_path succ skip starts p \<and> last p = b"
proof (induction rule: live_reach.induct)
  case (live_start b)
  then show ?case by (metis last.simps path_start)
next
  case (live_step a b)
  then obtain p where "live_path succ skip starts p" "last p = a" by blast
  with live_step show ?case by (metis last_snoc path_step)
qed

lemma live_path_reach: "live_path succ skip starts p \<Longrightarrow> live_reach succ skip starts (last p)"
  by (induction rule: live_path.induct) (auto intro: live_reach.intros)

lemma entry_dominates: "dominates succ skip [a] a b"
proof -
  have "a \<in> set p" if "live_path succ skip [a] p" for p
    using that by (induction rule: live_path.induct) auto
  then show ?thesis unfolding dominates_def by blast
qed

section \<open>What every search guarantees\<close>

locale worklist_search =
  fixes enq :: "nat list \<Rightarrow> nat list \<Rightarrow> nat list"
    and succ :: "nat \<Rightarrow> nat list"
    and skip :: "nat \<Rightarrow> bool"
  assumes set_enq: "set (enq ts q) = set ts \<union> set q"
begin

lemma run_prefix: "search_run enq succ skip q ord r \<Longrightarrow> prefix ord r"
  by (induction rule: search_run.induct) (auto dest: append_prefixD)

lemma run_distinct: "search_run enq succ skip q ord r \<Longrightarrow> distinct ord \<Longrightarrow> distinct r"
  by (induction rule: search_run.induct) auto

lemma run_no_skip:
  "search_run enq succ skip q ord r \<Longrightarrow> set ord \<inter> Collect skip = {} \<Longrightarrow> set r \<inter> Collect skip = {}"
  by (induction rule: search_run.induct) simp_all

lemma run_sound:
  "search_run enq succ skip q ord r \<Longrightarrow>
     \<forall>b\<in>set ord. live_reach succ skip starts b \<Longrightarrow>
     \<forall>b\<in>set q. \<not> skip b \<longrightarrow> live_reach succ skip starts b \<Longrightarrow>
     \<forall>b\<in>set r. live_reach succ skip starts b"
proof (induction rule: search_run.induct)
  case (search_visit b ord q r)
  then show ?case by (auto simp: set_enq intro: live_step)
qed auto

text \<open>Nothing is lost: what was queued, and the targets of what was visited, are visited.\<close>

lemma run_closed:
  "search_run enq succ skip q ord r \<Longrightarrow>
     \<forall>a\<in>set ord. \<forall>b\<in>set (succ a). skip b \<or> b \<in> set ord \<or> b \<in> set q \<Longrightarrow>
     (\<forall>b\<in>set q. skip b \<or> b \<in> set r) \<and> (\<forall>a\<in>set r. \<forall>b\<in>set (succ a). skip b \<or> b \<in> set r)"
proof (induction rule: search_run.induct)
  case (search_visit b ord q r)
  have "prefix (ord @ [b]) r" using search_visit.hyps(3) by (rule run_prefix)
  then have "b \<in> set r" by (auto simp: prefix_def)
  with search_visit show ?case by (auto simp: set_enq)
next
  case (search_seen b ord q r)
  have "prefix ord r" using search_seen.hyps(2) by (rule run_prefix)
  with search_seen.hyps(1) have "b \<in> set r" by (auto simp: prefix_def)
  with search_seen show ?case by auto
qed auto

lemma run_exact:
  assumes "search_run enq succ skip starts [] r"
  shows "set r = {b. live_reach succ skip starts b}"
proof (intro set_eqI iffI)
  fix b assume "b \<in> set r"
  with run_sound [OF assms, of starts] show "b \<in> {b. live_reach succ skip starts b}"
    by (auto intro: live_start)
next
  fix b assume "b \<in> {b. live_reach succ skip starts b}"
  then have "live_reach succ skip starts b" by simp
  then show "b \<in> set r"
    by (induction rule: live_reach.induct) (use run_closed [OF assms] in auto)
qed

text \<open>
  Every visited block has a path from a start block that uses only blocks visited before it,
  whatever the discipline; so a block that dominates another is visited first.
\<close>

lemma run_paths:
  "search_run enq succ skip q ord r \<Longrightarrow>
     (\<And>ys b zs. ord = ys @ b # zs \<Longrightarrow>
        \<exists>p. live_path succ skip starts p \<and> last p = b \<and> set p \<subseteq> insert b (set ys)) \<Longrightarrow>
     (\<And>b. b \<in> set q \<Longrightarrow> b \<in> set starts \<or> (\<exists>a\<in>set ord. b \<in> set (succ a))) \<Longrightarrow>
     r = ys @ b # zs \<Longrightarrow>
     \<exists>p. live_path succ skip starts p \<and> last p = b \<and> set p \<subseteq> insert b (set ys)"
proof (induction arbitrary: ys b zs rule: search_run.induct)
  case (search_visit c ord q r)
  have path_c: "\<exists>p. live_path succ skip starts p \<and> last p = c \<and> set p \<subseteq> insert c (set ord)"
  proof (cases "c \<in> set starts")
    case True
    with search_visit.hyps(2) have "live_path succ skip starts [c]" by (intro path_start)
    then show ?thesis by (intro exI [of _ "[c]"]) simp
  next
    case False
    with search_visit.prems(2) obtain a where a: "a \<in> set ord" "c \<in> set (succ a)"
      by auto
    then obtain us vs where ord: "ord = us @ a # vs" by (meson split_list)
    with search_visit.prems(1) obtain p where
      p: "live_path succ skip starts p" "last p = a" "set p \<subseteq> insert a (set us)" by blast
    then have "live_path succ skip starts (p @ [c])"
      using a(2) search_visit.hyps(2) by (auto intro: path_step)
    with p(3) ord show ?thesis by (intro exI [of _ "p @ [c]"]) auto
  qed
  show ?case
  proof (rule search_visit.IH)
    fix ys' b' zs' assume eq: "ord @ [c] = ys' @ b' # zs'"
    show "\<exists>p. live_path succ skip starts p \<and> last p = b' \<and> set p \<subseteq> insert b' (set ys')"
    proof (cases zs' rule: rev_cases)
      case Nil
      with eq have "ys' = ord" "b' = c" by auto
      with path_c show ?thesis by simp
    next
      case (snoc ws w)
      with eq have "ord = ys' @ b' # ws" by auto
      then show ?thesis by (rule search_visit.prems(1))
    qed
  next
    fix b' assume "b' \<in> set (enq (succ c) q)"
    then show "b' \<in> set starts \<or> (\<exists>a\<in>set (ord @ [c]). b' \<in> set (succ a))"
      using search_visit.prems(2) by (auto simp: set_enq)
  qed (rule search_visit.prems(3))
qed auto

lemma run_dominator_first:
  assumes run: "search_run enq succ skip starts [] r"
    and b: "b \<in> set r" and dom: "dominates succ skip starts d b" and neq: "d \<noteq> b"
  shows "before r d b"
proof -
  obtain ys zs where r: "r = ys @ b # zs" using b by (meson split_list)
  have "\<exists>p. live_path succ skip starts p \<and> last p = b \<and> set p \<subseteq> insert b (set ys)"
    by (rule run_paths [OF run]) (use r in auto)
  then obtain p where "live_path succ skip starts p" "last p = b" "set p \<subseteq> insert b (set ys)" by blast
  with dom neq have "d \<in> set ys" unfolding dominates_def by blast
  with r show ?thesis unfolding before_def by blast
qed

end

section \<open>The two disciplines\<close>

definition enq_lifo :: "nat list \<Rightarrow> nat list \<Rightarrow> nat list" where
  "enq_lifo ts q = rev ts @ q"

definition enq_fifo :: "nat list \<Rightarrow> nat list \<Rightarrow> nat list" where
  "enq_fifo ts q = q @ ts"

interpretation lifo: worklist_search enq_lifo succ skip for succ skip
  by unfold_locales (simp add: enq_lifo_def)

interpretation fifo: worklist_search enq_fifo succ skip for succ skip
  by unfold_locales (auto simp: enq_fifo_def)

end
