(* ===== verification/Triton_Reach.thy ===== *)
theory Triton_Reach
  imports Triton_Const Worklist
begin

text \<open>
  Reachability with constant folding (\<open>compute_reachable_blocks\<close> of
  \<open>rustc_codegen_llvm/src/mlir/codegen/triton/mod.rs\<close>). The search starts at block 0; a
  \<open>SwitchInt\<close> whose discriminant is statically known queues only the target it takes, and a
  block whose terminator is \<open>Unreachable\<close> is dropped. The result is the set of visited blocks
  and the vector that fixes the order in which the code generator processes them.
\<close>

section \<open>Definitions\<close>

text \<open>The targets the match on the terminator pushes, in push order; \<open>None\<close> is a panic.\<close>

definition fold_targets ::
    "instance_ctx \<Rightarrow> const_map \<Rightarrow> terminator \<Rightarrow> basic_block list option" where
  "fold_targets ix m t =
     (case t of
        Term_Goto target \<Rightarrow> Some [target]
      | Term_SwitchInt discr targets \<Rightarrow>
          (case extract_switch_const ix discr m of
             Some const_val \<Rightarrow>
               (case find (\<lambda>(val, _). val = ucast const_val) (switch_iter targets) of
                  Some (_, bb) \<Rightarrow> Some [bb]
                | None \<Rightarrow> map_option (\<lambda>bb. [bb]) (otherwise targets))
           | None \<Rightarrow>
               map_option (\<lambda>bb. map snd (switch_iter targets) @ [bb]) (otherwise targets))
      | Term_Return \<Rightarrow> Some []
      | Term_Unreachable \<Rightarrow> Some []
      | Term_Call _ _ _ target _ \<Rightarrow> Some (case target of Some t \<Rightarrow> [t] | None \<Rightarrow> [])
      | Term_Drop _ target _ _ _ \<Rightarrow> Some [target]
      | Term_Assert _ _ target _ \<Rightarrow> Some [target]
      | _ \<Rightarrow> Some (successors t))"

text \<open>
  The loop. The vector \<open>queue\<close> is written with its end first, since the loop pops from the end;
  pushing a list of targets in order therefore puts them in reverse.
\<close>

function reach_loop ::
    "instance_ctx \<Rightarrow> body \<Rightarrow> const_map \<Rightarrow> basic_block list \<Rightarrow> basic_block set \<Rightarrow> basic_block list \<Rightarrow>
     (basic_block set \<times> basic_block list) option" where
  "reach_loop ix mir m [] reachable ordered = Some (reachable, ordered)"
| "reach_loop ix mir m (bb # queue) reachable ordered =
     (if bb \<in> reachable then reach_loop ix mir m queue reachable ordered
      else case terminator_at mir bb of
        None \<Rightarrow> None
      | Some t \<Rightarrow>
          if t = Term_Unreachable then reach_loop ix mir m queue reachable ordered
          else case fold_targets ix m t of
            None \<Rightarrow> None
          | Some ts \<Rightarrow>
              reach_loop ix mir m (rev ts @ queue) (insert bb reachable) (ordered @ [bb]))"
  by pat_completeness auto
termination
proof (relation "measures [\<lambda>(ix, mir, m, q, R, ord). card ({..<length (basic_blocks mir)} - R),
                          \<lambda>(ix, mir, m, q, R, ord). length q]", goal_cases)
  case (4 ix mir m bb queue reachable ordered t ts)
  then have "bb < length (basic_blocks mir)" by (auto intro: terminator_at_in_range)
  from card_diff_insert_less [OF this 4(1)] show ?case by (simp del: Diff_insert card_Diff_insert)
qed auto

definition compute_reachable_blocks ::
    "instance_ctx \<Rightarrow> body \<Rightarrow> const_map \<Rightarrow> (basic_block set \<times> basic_block list) option" where
  "compute_reachable_blocks ix mir const_disc_locals =
     reach_loop ix mir const_disc_locals [0] {} []"

section \<open>The search it performs\<close>

text \<open>The successor function and the skipped blocks of the search.\<close>

definition fold_succ :: "instance_ctx \<Rightarrow> body \<Rightarrow> const_map \<Rightarrow> basic_block \<Rightarrow> basic_block list" where
  "fold_succ ix mir m bb =
     (case terminator_at mir bb of
        Some t \<Rightarrow> (case fold_targets ix m t of Some ts \<Rightarrow> ts | None \<Rightarrow> [])
      | None \<Rightarrow> [])"

definition unreachable_at :: "body \<Rightarrow> basic_block \<Rightarrow> bool" where
  "unreachable_at mir bb \<longleftrightarrow> terminator_at mir bb = Some Term_Unreachable"

lemma reach_loop_run:
  assumes "reach_loop ix mir m q R ord = Some (R', ord')" "R = set ord"
  shows "search_run enq_lifo (fold_succ ix mir m) (unreachable_at mir) q ord ord' \<and> R' = set ord'"
  using assms
proof (induction ix mir m q R ord rule: reach_loop.induct)
  case (1 ix mir m R ord)
  then show ?case by (auto intro: search_done)
next
  case (2 ix mir m bb q R ord)
  show ?case
  proof (cases "bb \<in> R")
    case True
    with "2.IH"(1) "2.prems" show ?thesis by (auto intro: search_seen)
  next
    case False
    with "2.prems" obtain t where t: "terminator_at mir bb = Some t"
      by (auto split: option.splits)
    show ?thesis
    proof (cases "t = Term_Unreachable")
      case True
      with "2.IH"(2) "2.prems" False t show ?thesis
        by (auto intro!: search_skip simp: unreachable_at_def)
    next
      case live: False
      with "2.prems" False t obtain ts where ts: "fold_targets ix m t = Some ts"
        by (auto split: option.splits)
      have "search_run enq_lifo (fold_succ ix mir m) (unreachable_at mir)
              (rev ts @ q) (ord @ [bb]) ord' \<and> R' = set ord'"
        using "2.IH"(3) [OF False t live ts] "2.prems" False t live ts by simp
      moreover have "enq_lifo (fold_succ ix mir m bb) q = rev ts @ q"
        using t ts by (simp add: fold_succ_def enq_lifo_def)
      moreover have "\<not> unreachable_at mir bb" using t live by (simp add: unreachable_at_def)
      ultimately show ?thesis
        using False "2.prems"(2) by (auto intro: search_visit)
    qed
  qed
qed

lemma compute_reachable_blocks_run:
  assumes "compute_reachable_blocks ix mir m = Some (R, ord)"
  shows "search_run enq_lifo (fold_succ ix mir m) (unreachable_at mir) [0] [] ord" "R = set ord"
  using reach_loop_run [OF assms [unfolded compute_reachable_blocks_def]] by simp_all

section \<open>No panic on well-formed bodies\<close>

lemma fold_targets_total:
  assumes "terminator_wf n t"
  shows "\<exists>ts. fold_targets ix m t = Some ts \<and> set ts \<subseteq> set (successors t)"
proof (cases t)
  case (Term_SwitchInt discr targets)
  then have wf: "switch_targets_wf targets" using assms by (simp add: terminator_wf_def)
  note ow = otherwise_wf [OF wf] and ne = switch_targets_wf_nonempty [OF wf]
  have iter: "set (map snd (switch_iter targets)) \<subseteq> set (st_targets targets)"
    using set_switch_iter_targets by auto
  have hit: "bb \<in> set (st_targets targets)"
    if "find P (switch_iter targets) = Some (v, bb)" for P v bb
    using that by (metis find_Some_iff nth_mem set_switch_iter_targets)
  show ?thesis
    using Term_SwitchInt ow ne iter hit
    by (auto simp: fold_targets_def mk_successors_set split: option.splits)
qed (auto simp: fold_targets_def mk_successors_def split: option.splits)

lemma reach_loop_total:
  assumes "body_wf mir" "\<forall>b\<in>set q. b < length (basic_blocks mir)"
  shows "\<exists>r. reach_loop ix mir m q R ord = Some r"
  using assms
proof (induction ix mir m q R ord rule: reach_loop.induct)
  case (2 ix mir m bb q R ord)
  obtain t where t: "terminator_at mir bb = Some t" "terminator_wf (length (basic_blocks mir)) t"
    using "2.prems" body_wf_terminator by (metis list.set_intros(1))
  obtain ts where ts: "fold_targets ix m t = Some ts" "set ts \<subseteq> set (successors t)"
    using fold_targets_total [OF t(2)] by blast
  have "\<forall>b\<in>set (rev ts @ q). b < length (basic_blocks mir)"
    using ts(2) terminator_wf_successor [OF t(2)] "2.prems"(2) by auto
  then show ?case
    using "2.IH" "2.prems" t ts by auto
qed simp

section \<open>Example body\<close>

definition ex_ix :: instance_ctx where
  "ex_ix = \<lparr>instantiate = (\<lambda>c. c), inst_args = []\<rparr>"

definition ex_block :: "statement list \<Rightarrow> terminator \<Rightarrow> basic_block_data" where
  "ex_block ss t = \<lparr>bb_statements = ss, bb_terminator = Some t, bb_is_cleanup = False\<rparr>"

definition ex_bool :: "u128 \<Rightarrow> operand" where
  "ex_bool v = Op_Constant (MC_Val (CV_Scalar (Scalar_Int \<lparr>si_data = v, si_size = 1\<rparr>)) Ty_Bool)"

text \<open>\<open>if x { ... } else { ... }\<close> on an argument: the arms 1 and 2 meet in block 3.\<close>

definition ex_diamond :: body where
  "ex_diamond = \<lparr>basic_blocks =
      [ex_block [] (Term_SwitchInt (Op_Copy (local_place 1)) (static_if 0 1 2)),
       ex_block [] (Term_Goto 3),
       ex_block [] (Term_Goto 3),
       ex_block [] Term_Return],
    local_decls = [Ty_Tuple [], Ty_Bool], arg_count = 1\<rparr>"

lemmas ex_defs = ex_ix_def ex_block_def ex_bool_def
lemmas block_defs = terminator_at_def statements_at_def block_at_def
lemmas reach_defs = compute_reachable_blocks_def fold_targets_def extract_switch_const_def
  static_if_def switch_iter_def otherwise_def

lemma ex_diamond_wf: "body_wf ex_diamond"
  by (simp add: body_wf_def ex_diamond_def ex_defs terminator_wf_def static_if_def
      switch_targets_wf_def mk_successors_def)

lemma ex_diamond_reach:
  "compute_reachable_blocks ex_ix ex_diamond Map.empty = Some ({0, 1, 2, 3}, [0, 2, 3, 1])"
  by (simp add: reach_defs ex_diamond_def ex_defs block_defs insert_commute)

section \<open>Properties\<close>

text \<open>C8. On a well-formed body the reachability pass does not panic, and it returns exactly the
  blocks that can be reached from block 0 along folded edges without an \<open>Unreachable\<close> block, each
  of them once in the processing order.\<close>

theorem compute_reachable_blocks_exact:
  assumes "body_wf mir"
  shows "\<exists>ord. compute_reachable_blocks ix mir m = Some (set ord, ord) \<and> distinct ord \<and>
     set ord = {b. live_reach (fold_succ ix mir m) (unreachable_at mir) [0] b}"
proof -
  obtain R ord where r: "compute_reachable_blocks ix mir m = Some (R, ord)"
    using reach_loop_total [OF assms, of "[0]"] body_wf_entry [OF assms]
    unfolding compute_reachable_blocks_def by fastforce
  note run = compute_reachable_blocks_run [OF r]
  show ?thesis
    using r run(2) lifo.run_distinct [OF run(1)] lifo.run_exact [OF run(1)] by auto
qed

theorem compute_reachable_blocks_exact_witness:
  "body_wf ex_diamond \<and>
   {0, 1, 2, 3} =
     {b. live_reach (fold_succ ex_ix ex_diamond Map.empty) (unreachable_at ex_diamond) [0] b}"
  using compute_reachable_blocks_exact [OF ex_diamond_wf, of ex_ix Map.empty]
    ex_diamond_reach ex_diamond_wf by simp

text \<open>C9. The processing order is sound for SSA values: a block that dominates another one in the
  folded control-flow graph is processed before it, so its values are available.\<close>

theorem compute_reachable_blocks_dominators_first:
  assumes "compute_reachable_blocks ix mir m = Some (R, ord)" and "b \<in> R"
    and "dominates (fold_succ ix mir m) (unreachable_at mir) [0] d b" and "d \<noteq> b"
  shows "before ord d b"
  using lifo.run_dominator_first [OF compute_reachable_blocks_run(1) [OF assms(1)]]
    assms(2-4) compute_reachable_blocks_run(2) [OF assms(1)] by blast

theorem compute_reachable_blocks_dominators_first_witness: "before [0, 2, 3, 1 :: nat] 0 3"
  by (rule compute_reachable_blocks_dominators_first [OF ex_diamond_reach _ entry_dominates]) simp_all

text \<open>The order is not breadth-first, contrary to the comments of the function and of its
  caller: the vector is popped from its end, so the search is depth-first, and in a diamond the
  join block 3 is processed before its predecessor 1.\<close>

theorem compute_reachable_blocks_not_bfs:
  "compute_reachable_blocks ex_ix ex_diamond Map.empty = Some ({0, 1, 2, 3}, [0, 2, 3, 1]) \<and>
   3 \<in> set (fold_succ ex_ix ex_diamond Map.empty 1)"
proof
  show "3 \<in> set (fold_succ ex_ix ex_diamond Map.empty 1)"
    by (simp add: fold_succ_def fold_targets_def ex_diamond_def ex_defs block_defs)
qed (rule ex_diamond_reach)

end
