(* ===== verification/MIR_Sem.thy ===== *)
theory MIR_Sem
  imports Triton_Reach
begin

text \<open>
  An execution semantics for MIR bodies, the abstract specification the folding passes are
  measured against. It follows the documentation of the constructors in
  \<open>rustc_middle/src/mir/syntax.rs\<close>. A memory gives each initialised local the number the
  passes track: the value of a scalar local, the discriminant of an enum local. What the
  semantics does not interpret is nondeterministic: an rvalue other than a constant, a bare
  copy or move, or a discriminant read yields any number; a write through a projection, a call
  or a drop may change the written local and every local whose address is taken.

  On this semantics: the constant pre-scan is sound for locals that are written at one place
  only, and unsound without that restriction.
\<close>

type_synonym mem = "local \<rightharpoonup> u64"

section \<open>Semantics\<close>

fun address_taken :: "statement \<Rightarrow> local set" where
  "address_taken (Stmt_Assign _ (Rv_Ref _ p)) = {p_local p}"
| "address_taken (Stmt_Assign _ (Rv_RawPtr _ p)) = {p_local p}"
| "address_taken (Stmt_Assign _ (Rv_Reborrow _ _ p)) = {p_local p}"
| "address_taken _ = {}"

definition exposed :: "body \<Rightarrow> local set" where
  "exposed mir = \<Union> (set (map address_taken (all_statements mir)))"

definition agree_outside :: "local set \<Rightarrow> mem \<Rightarrow> mem \<Rightarrow> bool" where
  "agree_outside W m m' \<longleftrightarrow> (\<forall>l. l \<notin> W \<longrightarrow> m' l = m l)"

definition operand_val :: "instance_ctx \<Rightarrow> mem \<Rightarrow> operand \<Rightarrow> u64 \<Rightarrow> bool" where
  "operand_val ix m op v \<longleftrightarrow>
     (case op of
        Op_Constant c \<Rightarrow> (\<forall>w. extract_scalar_const ix c = Some w \<longrightarrow> v = w)
      | _ \<Rightarrow> (\<forall>l. bare_local op = Some l \<longrightarrow> m l = Some v))"

definition rvalue_val :: "instance_ctx \<Rightarrow> mem \<Rightarrow> rvalue \<Rightarrow> u64 \<Rightarrow> bool" where
  "rvalue_val ix m rv v \<longleftrightarrow>
     (case rv of
        Rv_Use op \<Rightarrow> operand_val ix m op v
      | Rv_Discriminant src \<Rightarrow> p_projection src = [] \<longrightarrow> m (p_local src) = Some v
      | _ \<Rightarrow> True)"

inductive stmt_exec :: "instance_ctx \<Rightarrow> local set \<Rightarrow> statement \<Rightarrow> mem \<Rightarrow> mem \<Rightarrow> bool"
  for ix E where
  exec_assign: "p_projection p = [] \<Longrightarrow> rvalue_val ix m rv v \<Longrightarrow>
     stmt_exec ix E (Stmt_Assign p rv) m (m(p_local p \<mapsto> v))"
| exec_assign_proj: "p_projection p \<noteq> [] \<Longrightarrow> agree_outside (insert (p_local p) E) m m' \<Longrightarrow>
     stmt_exec ix E (Stmt_Assign p rv) m m'"
| exec_set_discriminant: "p_projection p = [] \<Longrightarrow>
     stmt_exec ix E (Stmt_SetDiscriminant p vi) m (m(p_local p \<mapsto> of_nat vi))"
| exec_set_discriminant_proj: "p_projection p \<noteq> [] \<Longrightarrow>
     agree_outside (insert (p_local p) E) m m' \<Longrightarrow>
     stmt_exec ix E (Stmt_SetDiscriminant p vi) m m'"
| exec_storage_live: "stmt_exec ix E (Stmt_StorageLive l) m (m(l := None))"
| exec_storage_dead: "stmt_exec ix E (Stmt_StorageDead l) m (m(l := None))"
| exec_intrinsic: "agree_outside E m m' \<Longrightarrow> stmt_exec ix E (Stmt_Intrinsic i) m m'"
| exec_fake_read: "stmt_exec ix E (Stmt_FakeRead p) m m"
| exec_place_mention: "stmt_exec ix E (Stmt_PlaceMention p) m m"
| exec_ascribe: "stmt_exec ix E (Stmt_AscribeUserType p) m m"
| exec_coverage: "stmt_exec ix E Stmt_Coverage m m"
| exec_counter: "stmt_exec ix E Stmt_ConstEvalCounter m m"
| exec_nop: "stmt_exec ix E Stmt_Nop m m"
| exec_drop_hint: "stmt_exec ix E (Stmt_BackwardIncompatibleDropHint p) m m"

inductive stmts_exec :: "instance_ctx \<Rightarrow> local set \<Rightarrow> statement list \<Rightarrow> mem \<Rightarrow> mem \<Rightarrow> bool"
  for ix E where
  stmts_nil: "stmts_exec ix E [] m m"
| stmts_cons: "stmt_exec ix E s m m1 \<Longrightarrow> stmts_exec ix E ss m1 m2 \<Longrightarrow>
     stmts_exec ix E (s # ss) m m2"

text \<open>
  The locals a terminator stores to. The outputs of inline assembly are not part of the data
  model, so it may store to any local.
\<close>

fun term_writes :: "terminator \<Rightarrow> local set" where
  "term_writes (Term_Call _ _ dest _ _) = {p_local dest}"
| "term_writes (Term_Drop p _ _ _ _) = {p_local p}"
| "term_writes (Term_Yield _ _ p _) = {p_local p}"
| "term_writes (Term_InlineAsm _ _) = UNIV"
| "term_writes _ = {}"

text \<open>Execution without unwinding: calls, drops and assertions continue at their target.\<close>

inductive term_exec ::
    "instance_ctx \<Rightarrow> local set \<Rightarrow> terminator \<Rightarrow> mem \<Rightarrow> basic_block \<Rightarrow> mem \<Rightarrow> bool"
  for ix E where
  exec_goto: "term_exec ix E (Term_Goto b) m b m"
| exec_switch: "operand_val ix m discr v \<Longrightarrow> target_for_value ts (ucast v) = Some b \<Longrightarrow>
     term_exec ix E (Term_SwitchInt discr ts) m b m"
| exec_drop: "agree_outside (insert (p_local p) E) m m' \<Longrightarrow>
     term_exec ix E (Term_Drop p b unw r d) m b m'"
| exec_call: "agree_outside (insert (p_local dest) E) m m' \<Longrightarrow>
     term_exec ix E (Term_Call f args dest (Some b) unw) m b m'"
| exec_assert: "term_exec ix E (Term_Assert c e b unw) m b m"
| exec_yield: "agree_outside (insert (p_local p) E) m m' \<Longrightarrow>
     b \<in> set (successors (Term_Yield v r p d)) \<Longrightarrow> term_exec ix E (Term_Yield v r p d) m b m'"
| exec_false_edge: "term_exec ix E (Term_FalseEdge b i) m b m"
| exec_false_unwind: "term_exec ix E (Term_FalseUnwind b unw) m b m"
| exec_inline_asm: "b \<in> set ts \<Longrightarrow> term_exec ix E (Term_InlineAsm ts unw) m b m'"

inductive_cases exec_unreachableE: "term_exec ix E Term_Unreachable m b m'"

text \<open>
  The block entries an execution passes: it starts at block 0, where at most the arguments
  (locals 1 to \<open>arg_count\<close>) are initialised.
\<close>

inductive mir_exec :: "instance_ctx \<Rightarrow> body \<Rightarrow> basic_block \<Rightarrow> mem \<Rightarrow> bool" for ix mir where
  exec_entry: "(\<And>l. l \<in> dom m \<Longrightarrow> 1 \<le> l \<and> l \<le> arg_count mir) \<Longrightarrow> mir_exec ix mir 0 m"
| exec_block: "mir_exec ix mir b m \<Longrightarrow> statements_at mir b = Some ss \<Longrightarrow>
     stmts_exec ix (exposed mir) ss m m1 \<Longrightarrow> terminator_at mir b = Some t \<Longrightarrow>
     term_exec ix (exposed mir) t m1 b' m2 \<Longrightarrow> mir_exec ix mir b' m2"

section \<open>When a recorded constant can be trusted\<close>

text \<open>The locals a statement changes other than by one whole-local store.\<close>

fun partial_writes :: "statement \<Rightarrow> local set" where
  "partial_writes (Stmt_Assign p _) = (if p_projection p = [] then {} else {p_local p})"
| "partial_writes (Stmt_SetDiscriminant p _) = (if p_projection p = [] then {} else {p_local p})"
| "partial_writes _ = {}"

fun reads_projected_discriminant :: "local \<Rightarrow> statement \<Rightarrow> bool" where
  "reads_projected_discriminant l (Stmt_Assign p (Rv_Discriminant src)) \<longleftrightarrow>
     p = local_place l \<and> p_projection src \<noteq> []"
| "reads_projected_discriminant _ _ \<longleftrightarrow> False"

text \<open>
  A local is written once: by one statement, to the whole local, neither as an argument nor by
  a terminator nor through a pointer; and that statement does not read the discriminant of a
  projected place.
\<close>

definition written_once :: "body \<Rightarrow> local \<Rightarrow> bool" where
  "written_once mir l \<longleftrightarrow>
     one_def (all_statements mir) l \<and>
     l \<notin> exposed mir \<and>
     \<not> (1 \<le> l \<and> l \<le> arg_count mir) \<and>
     (\<forall>s\<in>set (all_statements mir). l \<notin> partial_writes s \<and> \<not> reads_projected_discriminant l s) \<and>
     (\<forall>d\<in>set (basic_blocks mir). \<forall>t. bb_terminator d = Some t \<longrightarrow> l \<notin> term_writes t)"

definition trusts :: "const_map \<Rightarrow> mem \<Rightarrow> bool" where
  "trusts K m \<longleftrightarrow> (\<forall>l v. K l = Some v \<longrightarrow> m l = None \<or> m l = Some v)"

lemma trusts_update_other: "trusts K m \<Longrightarrow> K l = None \<Longrightarrow> trusts K (m(l \<mapsto> v))"
  by (auto simp: trusts_def)

lemma trusts_drop: "trusts K m \<Longrightarrow> trusts K (m(l := None))"
  by (auto simp: trusts_def)

lemma trusts_agree: "trusts K m \<Longrightarrow> agree_outside W m m' \<Longrightarrow> dom K \<inter> W = {} \<Longrightarrow> trusts K m'"
  unfolding trusts_def agree_outside_def by (metis disjoint_iff domI)

lemma trusts_value: "trusts K m \<Longrightarrow> K l = Some v \<Longrightarrow> m l = Some w \<Longrightarrow> w = v"
  by (fastforce simp: trusts_def)

lemma trusts_operand:
  assumes "trusts K m" "operand_val ix m op w" "extract_switch_const ix op K = Some v"
  shows "w = v"
  using assms trusts_value
  by (cases op) (auto simp: operand_val_def extract_switch_const_def split: option.splits if_splits)

lemma trusts_rvalue:
  assumes tr: "trusts K m" and val: "rvalue_val ix m rv w"
    and src: "disc_source ix K (Stmt_Assign p rv) = Some v"
    and proj: "\<And>q. rv = Rv_Discriminant q \<Longrightarrow> p_projection q = []"
  shows "w = v"
proof (cases rv)
  case (Rv_Use op)
  with src have "extract_switch_const ix op K = Some v"
    by (cases op) (auto simp: extract_switch_const_def)
  with tr val Rv_Use show ?thesis by (auto simp: rvalue_val_def intro: trusts_operand)
next
  case (Rv_Discriminant q)
  with src val proj tr show ?thesis by (auto simp: rvalue_val_def dest: trusts_value)
qed (use src in auto)

lemma exposed_disjoint:
  "(\<And>l. l \<in> dom K \<Longrightarrow> written_once mir l) \<Longrightarrow> dom K \<inter> exposed mir = {}"
  by (auto simp: written_once_def)

lemma trusts_stmt:
  assumes st: "stmt_exec ix (exposed mir) s m m'" and tr: "trusts K m"
    and s: "s \<in> set (all_statements mir)" and j: "justified ix (all_statements mir) K"
    and once: "\<And>l. l \<in> dom K \<Longrightarrow> written_once mir l"
  shows "trusts K m'"
proof -
  have ex: "dom K \<inter> exposed mir = {}" by (rule exposed_disjoint [OF once])
  have def_value: "disc_source ix K s = Some v"
    if "K l = Some v" "defines_bare l s" for l v
  proof -
    from j that(1) obtain t where
      t: "t \<in> set (all_statements mir)" "defines_bare l t" "disc_source ix K t = Some v"
      unfolding justified_def by blast
    have "one_def (all_statements mir) l" using once that(1) by (auto simp: written_once_def)
    with t that(2) s have "t = s" by (auto simp: one_def_def)
    with t show ?thesis by simp
  qed
  have no_partial: "dom K \<inter> partial_writes s = {}"
    using once s by (auto simp: written_once_def)
  have no_proj: "\<not> reads_projected_discriminant l s" if "l \<in> dom K" for l
    using once [OF that] s by (auto simp: written_once_def)
  from st show ?thesis
  proof cases
    case (exec_assign p rv v)
    show ?thesis
    proof (cases "K (p_local p)")
      case None
      with tr exec_assign show ?thesis by (auto intro: trusts_update_other)
    next
      case (Some w)
      have p: "p = local_place (p_local p)" using exec_assign(3) by (rule place_eq_local_place)
      have "disc_source ix K (Stmt_Assign p rv) = Some w"
        using def_value [OF Some] p exec_assign(1) by simp
      moreover have "p_projection q = []" if "rv = Rv_Discriminant q" for q
        using no_proj [of "p_local p"] Some p that exec_assign(1) by auto
      ultimately have "v = w" using trusts_rvalue [OF tr exec_assign(4)] by blast
      with tr Some exec_assign(2) show ?thesis by (auto simp: trusts_def)
    qed
  next
    case (exec_set_discriminant p vi)
    show ?thesis
    proof (cases "K (p_local p)")
      case None
      with tr exec_set_discriminant show ?thesis by (auto intro: trusts_update_other)
    next
      case (Some w)
      have "p = local_place (p_local p)" using exec_set_discriminant(3) by (rule place_eq_local_place)
      with def_value [OF Some] exec_set_discriminant(1) have "of_nat vi = w" by simp
      with tr Some exec_set_discriminant(2) show ?thesis by (auto simp: trusts_def)
    qed
  next
    case (exec_assign_proj p rv)
    with ex no_partial have "dom K \<inter> insert (p_local p) (exposed mir) = {}" by auto
    with tr exec_assign_proj show ?thesis by (blast intro: trusts_agree)
  next
    case (exec_set_discriminant_proj p vi)
    with ex no_partial have "dom K \<inter> insert (p_local p) (exposed mir) = {}" by auto
    with tr exec_set_discriminant_proj show ?thesis by (blast intro: trusts_agree)
  qed (use tr ex trusts_drop trusts_agree in auto)
qed

lemma trusts_stmts:
  assumes "stmts_exec ix (exposed mir) ss m m'" "trusts K m" "set ss \<subseteq> set (all_statements mir)"
    and "justified ix (all_statements mir) K" "\<And>l. l \<in> dom K \<Longrightarrow> written_once mir l"
  shows "trusts K m'"
  using assms
proof (induction rule: stmts_exec.induct)
  case (stmts_cons s m m1 ss m2)
  have "trusts K m1" by (rule trusts_stmt [OF stmts_cons.hyps(1)]) (use stmts_cons.prems in auto)
  with stmts_cons show ?case by auto
qed

lemma trusts_term:
  assumes te: "term_exec ix (exposed mir) t m b m'" and tr: "trusts K m"
    and w: "dom K \<inter> term_writes t = {}" and ex: "dom K \<inter> exposed mir = {}"
  shows "trusts K m'"
proof -
  have ins: "dom K \<inter> insert l (exposed mir) = {}" if "l \<in> term_writes t" for l
    using w ex that by blast
  from te show ?thesis
  proof cases
    case (exec_inline_asm ts unw)
    with w have "K = Map.empty" by simp
    then show ?thesis by (simp add: trusts_def)
  qed (use tr in \<open>auto intro: trusts_agree [OF tr _ ins]\<close>)
qed

section \<open>Folded edges cover every execution\<close>

lemma find_eq_target_for_value:
  "(case find (\<lambda>(val, _). val = v) (switch_iter ts) of
      Some (_, bb) \<Rightarrow> Some [bb]
    | None \<Rightarrow> map_option (\<lambda>bb. [bb]) (otherwise ts)) = map_option (\<lambda>bb. [bb]) (target_for_value ts v)"
proof -
  have eq: "find_map (\<lambda>(x, bb). if x = v then Some bb else None) xs =
      map_option snd (find (\<lambda>(val, _). val = v) xs)" for xs :: "(u128 \<times> basic_block) list"
    by (induction xs) auto
  show ?thesis
    unfolding target_for_value_def eq
    by (cases "find (\<lambda>(val, _). val = v) (switch_iter ts)") auto
qed

lemma term_exec_fold_targets:
  assumes te: "term_exec ix E t m b m'" and tr: "trusts K m" and wf: "terminator_wf n t"
  shows "\<exists>ts. fold_targets ix K t = Some ts \<and> b \<in> set ts"
  using te
proof cases
  case (exec_switch discr v ts)
  have swf: "switch_targets_wf ts" using wf exec_switch(1) by (simp add: terminator_wf_def)
  show ?thesis
  proof (cases "extract_switch_const ix discr K")
    case None
    have "set (map snd (switch_iter ts) @ [last (st_targets ts)]) = set (st_targets ts)"
      using switch_iter_otherwise_targets [OF swf] by simp
    then have "b \<in> set (map snd (switch_iter ts) @ [last (st_targets ts)])"
      using target_for_value_in_targets [OF exec_switch(4)] by blast
    with None exec_switch(1) show ?thesis
      by (auto simp: fold_targets_def otherwise_wf [OF swf])
  next
    case (Some c)
    with trusts_operand [OF tr exec_switch(3)] have "v = c" by simp
    with Some exec_switch(1,4) show ?thesis
      by (simp add: fold_targets_def find_eq_target_for_value)
  qed
qed (auto simp: fold_targets_def mk_successors_set)

text \<open>
  The invariant of an execution: the memory agrees with the recorded constants, and the block
  is reachable for the folded graph unless its terminator is \<open>Unreachable\<close>.
\<close>

lemma mir_exec_invariant:
  assumes ex: "mir_exec ix mir b m" and wf: "body_wf mir"
    and K: "K = compute_const_disc_locals ix mir"
    and once: "\<And>l. l \<in> dom K \<Longrightarrow> written_once mir l"
  shows "trusts K m \<and>
     (\<not> unreachable_at mir b \<longrightarrow> live_reach (fold_succ ix mir K) (unreachable_at mir) [0] b)"
  using ex
proof (induction rule: mir_exec.induct)
  case (exec_entry m)
  have "m l = None" if "l \<in> dom K" for l
    using once [OF that] exec_entry by (auto simp: written_once_def)
  then have "trusts K m" by (auto simp: trusts_def)
  then show ?case by (auto intro: live_start)
next
  case (exec_block b m ss m1 t b' m2)
  have j: "justified ix (all_statements mir) K"
    unfolding K by (rule compute_const_disc_locals_justified)
      (use once K in \<open>auto simp: written_once_def\<close>)
  have b: "b < length (basic_blocks mir)" using exec_block.hyps(4) by (rule terminator_at_in_range)
  have ss: "set ss \<subseteq> set (all_statements mir)"
    using exec_block.hyps(2) nth_mem
    by (fastforce simp: statements_at_def block_at_def all_statements_def)
  have tr1: "trusts K m1"
    by (rule trusts_stmts [OF exec_block.hyps(3) _ ss j]) (use exec_block.IH once in auto)
  have tin: "\<exists>d\<in>set (basic_blocks mir). bb_terminator d = Some t"
    using exec_block.hyps(4) by (auto simp: terminator_at_def block_at_def bind_eq_Some_conv)
  then have w: "dom K \<inter> term_writes t = {}"
    using once by (fastforce simp: written_once_def)
  have tr2: "trusts K m2"
    by (rule trusts_term [OF exec_block.hyps(5) tr1 w exposed_disjoint [OF once]])
  have twf: "terminator_wf (length (basic_blocks mir)) t"
    using body_wf_terminator [OF wf b] exec_block.hyps(4) by (metis option.inject)
  obtain ts where ts: "fold_targets ix K t = Some ts" "b' \<in> set ts"
    using term_exec_fold_targets [OF exec_block.hyps(5) tr1 twf] by blast
  have "t \<noteq> Term_Unreachable" using exec_block.hyps(5) by (auto elim: exec_unreachableE)
  then have "\<not> unreachable_at mir b" using exec_block.hyps(4) by (simp add: unreachable_at_def)
  then have "live_reach (fold_succ ix mir K) (unreachable_at mir) [0] b" using exec_block.IH by simp
  moreover have "b' \<in> set (fold_succ ix mir K b)"
    using ts exec_block.hyps(4) by (simp add: fold_succ_def)
  ultimately show ?case using tr2 by (auto intro: live_step)
qed


section \<open>Example bodies\<close>

text \<open>
  \<open>const USE_BIAS\<close> stored once and tested: block 1 is pruned.
\<close>

definition ex_pruned :: body where
  "ex_pruned = \<lparr>basic_blocks =
      [ex_block [Stmt_Assign (local_place 1) (Rv_Use (ex_bool 0))]
         (Term_SwitchInt (Op_Copy (local_place 1)) (static_if 0 2 1)),
       ex_block [] Term_Return,
       ex_block [] Term_Return],
    local_decls = [Ty_Tuple [], Ty_Bool], arg_count = 0\<rparr>"

text \<open>
  \<open>let flag = if x { true } else { false }; if flag { ... } else { ... }\<close>: the local 2 is stored
  to in both arms.
\<close>

definition ex_flag :: body where
  "ex_flag = \<lparr>basic_blocks =
      [ex_block [] (Term_SwitchInt (Op_Copy (local_place 1)) (static_if 0 1 2)),
       ex_block [Stmt_Assign (local_place 2) (Rv_Use (ex_bool 0))] (Term_Goto 3),
       ex_block [Stmt_Assign (local_place 2) (Rv_Use (ex_bool 1))] (Term_Goto 3),
       ex_block [] (Term_SwitchInt (Op_Copy (local_place 2)) (static_if 0 4 5)),
       ex_block [] Term_Return,
       ex_block [] Term_Return],
    local_decls = [Ty_Tuple [], Ty_Bool, Ty_Bool], arg_count = 1\<rparr>"

lemmas const_defs = compute_const_disc_locals_def all_statements_def disc_pass1_def
  disc_sweep_def extract_scalar_const_def to_bits_unchecked_def
lemmas target_defs = target_for_value_def switch_iter_def static_if_def otherwise_def

lemma ex_pruned_consts: "compute_const_disc_locals ex_ix ex_pruned = [1 \<mapsto> 0]"
  by (simp add: const_defs ex_pruned_def ex_defs disc_fixpoint.simps)

lemma ex_pruned_reach:
  "compute_reachable_blocks ex_ix ex_pruned (compute_const_disc_locals ex_ix ex_pruned) = Some ({0, 2}, [0, 2])"
  unfolding ex_pruned_consts
  by (simp add: compute_reachable_blocks_def ex_pruned_def ex_defs block_defs fold_targets_def
      extract_switch_const_def static_if_def switch_iter_def otherwise_def insert_commute)

lemma ex_pruned_wf: "body_wf ex_pruned"
  by (simp add: body_wf_def ex_pruned_def ex_defs terminator_wf_def static_if_def
      switch_targets_wf_def mk_successors_def)

lemma ex_pruned_once:
  "l \<in> dom (compute_const_disc_locals ex_ix ex_pruned) \<Longrightarrow> written_once ex_pruned l"
  unfolding ex_pruned_consts
  by (simp add: written_once_def one_def_def all_statements_def ex_pruned_def ex_defs exposed_def)

lemma ex_pruned_exec: "mir_exec ex_ix ex_pruned 2 [1 \<mapsto> 0]"
proof (rule mir_exec.exec_block)
  show "mir_exec ex_ix ex_pruned 0 Map.empty" by (rule mir_exec.exec_entry) simp
  show "statements_at ex_pruned 0 = Some [Stmt_Assign (local_place 1) (Rv_Use (ex_bool 0))]"
    by (simp add: ex_pruned_def ex_defs block_defs)
  have "stmt_exec ex_ix (exposed ex_pruned) (Stmt_Assign (local_place 1) (Rv_Use (ex_bool 0)))
          Map.empty (Map.empty(p_local (local_place 1) \<mapsto> 0))"
    by (rule exec_assign) (simp_all add: rvalue_val_def operand_val_def ex_defs const_defs)
  then show "stmts_exec ex_ix (exposed ex_pruned)
      [Stmt_Assign (local_place 1) (Rv_Use (ex_bool 0))] Map.empty [1 \<mapsto> 0]"
    by (auto intro: stmts_exec.intros)
  show "terminator_at ex_pruned 0 = Some (Term_SwitchInt (Op_Copy (local_place 1)) (static_if 0 2 1))"
    by (simp add: ex_pruned_def ex_defs block_defs)
  show "term_exec ex_ix (exposed ex_pruned)
      (Term_SwitchInt (Op_Copy (local_place 1)) (static_if 0 2 1)) [1 \<mapsto> 0] 2 [1 \<mapsto> 0]"
    by (rule exec_switch [where v = 0]) (simp_all add: operand_val_def target_defs)
qed

section \<open>Properties\<close>



text \<open>C19. Without that restriction folding prunes live code: the pre-scan is flow-insensitive, and
  the constant of the block with the larger index wins. For a flag that is set in the two arms of
  a branch and tested afterwards, an execution enters block 4, which the reachability pass
  leaves out.\<close>

theorem const_folding_prunes_live_block:
  "\<exists>R ord m. body_wf ex_flag \<and>
     compute_reachable_blocks ex_ix ex_flag (compute_const_disc_locals ex_ix ex_flag) = Some (R, ord) \<and>
     mir_exec ex_ix ex_flag 4 m \<and> \<not> unreachable_at ex_flag 4 \<and> 4 \<notin> R"
proof -
  have K: "compute_const_disc_locals ex_ix ex_flag = [2 \<mapsto> 1]"
    by (simp add: const_defs ex_flag_def ex_defs disc_fixpoint.simps)
  have R: "compute_reachable_blocks ex_ix ex_flag (compute_const_disc_locals ex_ix ex_flag) =
      Some ({0, 2, 3, 5, 1}, [0, 2, 3, 5, 1])"
    unfolding K
    by (simp add: compute_reachable_blocks_def ex_flag_def ex_defs block_defs fold_targets_def
        extract_switch_const_def static_if_def switch_iter_def otherwise_def insert_commute)
  have wf: "body_wf ex_flag"
    by (simp add: body_wf_def ex_flag_def ex_defs terminator_wf_def static_if_def
        switch_targets_wf_def mk_successors_def)
  let ?m1 = "[1 \<mapsto> 0] :: mem" and ?m2 = "[1 \<mapsto> 0, 2 \<mapsto> 0] :: mem"
  have "mir_exec ex_ix ex_flag 0 ?m1"
    by (rule mir_exec.exec_entry) (auto simp: ex_flag_def split: if_splits)
  then have "mir_exec ex_ix ex_flag 1 ?m1"
  proof (rule mir_exec.exec_block)
    show "stmts_exec ex_ix (exposed ex_flag) [] ?m1 ?m1" by (rule stmts_nil)
    show "term_exec ex_ix (exposed ex_flag)
        (Term_SwitchInt (Op_Copy (local_place 1)) (static_if 0 1 2)) ?m1 1 ?m1"
      by (rule exec_switch [where v = 0]) (simp_all add: operand_val_def target_defs)
  qed (simp_all add: ex_flag_def ex_defs block_defs)
  then have "mir_exec ex_ix ex_flag 3 ?m2"
  proof (rule mir_exec.exec_block)
    have "stmt_exec ex_ix (exposed ex_flag) (Stmt_Assign (local_place 2) (Rv_Use (ex_bool 0)))
          ?m1 (?m1(p_local (local_place 2) \<mapsto> 0))"
      by (rule exec_assign) (simp_all add: rvalue_val_def operand_val_def ex_defs const_defs)
    then show "stmts_exec ex_ix (exposed ex_flag)
        [Stmt_Assign (local_place 2) (Rv_Use (ex_bool 0))] ?m1 ?m2"
      by (auto intro: stmts_exec.intros)
    show "term_exec ex_ix (exposed ex_flag) (Term_Goto 3) ?m2 3 ?m2" by (rule exec_goto)
  qed (simp_all add: ex_flag_def ex_defs block_defs)
  then have "mir_exec ex_ix ex_flag 4 ?m2"
  proof (rule mir_exec.exec_block)
    show "stmts_exec ex_ix (exposed ex_flag) [] ?m2 ?m2" by (rule stmts_nil)
    show "term_exec ex_ix (exposed ex_flag)
        (Term_SwitchInt (Op_Copy (local_place 2)) (static_if 0 4 5)) ?m2 4 ?m2"
      by (rule exec_switch [where v = 0]) (simp_all add: operand_val_def target_defs)
  qed (simp_all add: ex_flag_def ex_defs block_defs)
  moreover have "\<not> unreachable_at ex_flag 4"
    by (simp add: unreachable_at_def ex_flag_def ex_defs block_defs)
  ultimately show ?thesis using wf R by (intro exI conjI) auto
qed

end
