(* ===== verification/Rust_Str.thy ===== *)
theory Rust_Str
  imports Prelude
begin

text \<open>
  The strings of the source language: a \<open>char\<close> is a Unicode scalar value, written as its number;
  a \<open>str\<close> is the list of its characters, whose bytes are their UTF-8 encodings. Offsets into a
  string count bytes. Slicing at an offset that is out of range or inside a character panics,
  so the slicing functions return an \<open>option\<close>.
\<close>

type_synonym rchar = nat
type_synonym rstr = "rchar list"

abbreviation ch :: "char \<Rightarrow> rchar" where
  "ch \<equiv> of_char"

abbreviation lit :: "string \<Rightarrow> rstr" where
  "lit s \<equiv> map of_char s"

section \<open>Characters and bytes\<close>

definition is_scalar_value :: "rchar \<Rightarrow> bool" where
  "is_scalar_value c \<longleftrightarrow> c < 0xD800 \<or> (0xE000 \<le> c \<and> c < 0x110000)"

definition is_ascii :: "rchar \<Rightarrow> bool" where
  "is_ascii c \<longleftrightarrow> c < 128"

definition is_ascii_digit :: "rchar \<Rightarrow> bool" where
  "is_ascii_digit c \<longleftrightarrow> ch CHR ''0'' \<le> c \<and> c \<le> ch CHR ''9''"

definition len_utf8 :: "rchar \<Rightarrow> nat" where
  "len_utf8 c = (if c < 0x80 then 1 else if c < 0x800 then 2 else if c < 0x10000 then 3 else 4)"

definition encode_utf8 :: "rchar \<Rightarrow> u8 list" where
  "encode_utf8 c =
     (if c < 0x80 then [of_nat c]
      else if c < 0x800 then [of_nat (0xC0 + c div 64), of_nat (0x80 + c mod 64)]
      else if c < 0x10000 then
        [of_nat (0xE0 + c div 4096), of_nat (0x80 + c div 64 mod 64), of_nat (0x80 + c mod 64)]
      else
        [of_nat (0xF0 + c div 262144), of_nat (0x80 + c div 4096 mod 64),
         of_nat (0x80 + c div 64 mod 64), of_nat (0x80 + c mod 64)])"

definition as_bytes :: "rstr \<Rightarrow> u8 list" where
  "as_bytes s = concat (map encode_utf8 s)"

definition str_len :: "rstr \<Rightarrow> nat" where
  "str_len s = sum_list (map len_utf8 s)"

section \<open>Slices and searches\<close>

text \<open>\<open>&s[n..]\<close> and \<open>&s[..n]\<close>.\<close>

fun str_from :: "rstr \<Rightarrow> nat \<Rightarrow> rstr option" where
  "str_from s 0 = Some s"
| "str_from [] (Suc n) = None"
| "str_from (c # s) (Suc n) =
     (if len_utf8 c \<le> Suc n then str_from s (Suc n - len_utf8 c) else None)"

fun str_to :: "rstr \<Rightarrow> nat \<Rightarrow> rstr option" where
  "str_to s 0 = Some []"
| "str_to [] (Suc n) = None"
| "str_to (c # s) (Suc n) =
     (if len_utf8 c \<le> Suc n then map_option ((#) c) (str_to s (Suc n - len_utf8 c)) else None)"

text \<open>\<open>&s[a..b]\<close>.\<close>

definition str_slice :: "rstr \<Rightarrow> nat \<Rightarrow> nat \<Rightarrow> rstr option" where
  "str_slice s a b =
     (if a \<le> b then do { t \<leftarrow> str_from s a; str_to t (b - a) } else None)"

text \<open>\<open>str::find\<close> for a string pattern: the offset of the first occurrence.\<close>

fun str_find :: "rstr \<Rightarrow> rstr \<Rightarrow> nat option" where
  "str_find [] pat = (if pat = [] then Some 0 else None)"
| "str_find (c # s) pat =
     (if prefix pat (c # s) then Some 0 else map_option ((+) (len_utf8 c)) (str_find s pat))"

text \<open>\<open>str::rfind\<close>: the offset of the last occurrence.\<close>

fun str_rfind :: "rstr \<Rightarrow> rstr \<Rightarrow> nat option" where
  "str_rfind [] pat = (if pat = [] then Some 0 else None)"
| "str_rfind (c # s) pat =
     (case str_rfind s pat of
        Some i \<Rightarrow> Some (len_utf8 c + i)
      | None \<Rightarrow> if prefix pat (c # s) then Some 0 else None)"

text \<open>\<open>s.lines().next().unwrap_or_default()\<close>.\<close>

definition first_line :: "rstr \<Rightarrow> rstr" where
  "first_line s =
     (let l = takeWhile (\<lambda>c. c \<noteq> 10) s in
      if 10 \<in> set s \<and> l \<noteq> [] \<and> last l = 13 then butlast l else l)"

section \<open>Lengths\<close>

lemma str_len_simps [simp]:
  "str_len [] = 0"
  "str_len (c # s) = len_utf8 c + str_len s"
  "str_len (s @ t) = str_len s + str_len t"
  by (simp_all add: str_len_def)

lemma len_utf8_pos [simp]: "0 < len_utf8 c"
  by (simp add: len_utf8_def)

lemma len_utf8_ascii [simp]: "c < 128 \<Longrightarrow> len_utf8 c = 1"
  by (simp add: len_utf8_def)

lemma str_len_0_iff [simp]: "str_len s = 0 \<longleftrightarrow> s = []"
  using len_utf8_pos by (cases s) (simp_all add: not_gr_zero [symmetric])

lemma length_le_str_len: "length s \<le> str_len s"
proof (induction s)
  case (Cons c s)
  then show ?case using len_utf8_pos [of c] by (simp del: len_utf8_pos)
qed simp

lemma length_encode_utf8 [simp]: "length (encode_utf8 c) = len_utf8 c"
  by (simp add: encode_utf8_def len_utf8_def)

lemma length_as_bytes [simp]: "length (as_bytes s) = str_len s"
  by (induction s) (simp_all add: as_bytes_def)

lemma as_bytes_simps [simp]:
  "as_bytes [] = []"
  "as_bytes (c # s) = encode_utf8 c @ as_bytes s"
  by (simp_all add: as_bytes_def)

lemma str_len_ascii: "(\<And>c. c \<in> set s \<Longrightarrow> c < 128) \<Longrightarrow> str_len s = length s"
  by (induction s) simp_all

section \<open>Slicing at character boundaries\<close>

lemma str_from_str_len [simp]: "str_from (s @ t) (str_len s) = Some t"
proof (induction s)
  case (Cons c s)
  obtain n where n: "len_utf8 c + str_len s = Suc n"
    using len_utf8_pos [of c] by (metis Suc_pred add_pos_nonneg zero_le)
  have "Suc n - len_utf8 c = str_len s" "len_utf8 c \<le> Suc n" using n by linarith+
  then show ?case using Cons n by simp
qed simp

lemma str_to_str_len [simp]: "str_to (s @ t) (str_len s) = Some s"
proof (induction s)
  case (Cons c s)
  obtain n where n: "len_utf8 c + str_len s = Suc n"
    using len_utf8_pos [of c] by (metis Suc_pred add_pos_nonneg zero_le)
  have "Suc n - len_utf8 c = str_len s" "len_utf8 c \<le> Suc n" using n by linarith+
  then show ?case using Cons n by simp
qed simp

lemma str_from_Some: "str_from s n = Some t \<Longrightarrow> \<exists>p. s = p @ t \<and> n = str_len p"
proof (induction s n rule: str_from.induct)
  case (1 s)
  then show ?case by simp
next
  case (2 n)
  then show ?case by simp
next
  case (3 c s n)
  then have le: "len_utf8 c \<le> Suc n" and "str_from s (Suc n - len_utf8 c) = Some t"
    by (auto split: if_splits)
  with 3 obtain p where p: "s = p @ t" "Suc n - len_utf8 c = str_len p" by blast
  then have "c # s = (c # p) @ t \<and> Suc n = str_len (c # p)" using le by simp
  then show ?case by blast
qed

lemma str_find_Some:
  "str_find s pat = Some i \<Longrightarrow> \<exists>p q. s = p @ pat @ q \<and> i = str_len p"
proof (induction s arbitrary: i)
  case (Cons c s)
  show ?case
  proof (cases "prefix pat (c # s)")
    case True
    then obtain q where "c # s = [] @ pat @ q" by (auto simp: prefix_def)
    moreover have "i = str_len []" using Cons.prems True by simp
    ultimately show ?thesis by blast
  next
    case False
    with Cons obtain j where j: "str_find s pat = Some j" "i = len_utf8 c + j" by auto
    from Cons.IH [OF j(1)] obtain p q where "s = p @ pat @ q" "j = str_len p" by blast
    then have "c # s = (c # p) @ pat @ q \<and> i = str_len (c # p)" using j by simp
    then show ?thesis by blast
  qed
qed (auto split: if_splits)

text \<open>The occurrence that is found is the first one.\<close>

lemma str_find_first:
  "str_find s pat = Some (str_len p) \<Longrightarrow> s = p @ t \<Longrightarrow> \<not> prefix pat (drop k s) \<or> length p \<le> k"
proof (induction s arbitrary: p k)
  case (Cons c s)
  show ?case
  proof (cases "prefix pat (c # s)")
    case True
    with Cons.prems(1) have "p = []" by simp
    then show ?thesis by simp
  next
    case False
    then obtain j where j: "str_find s pat = Some j" "len_utf8 c + j = str_len p"
      using Cons.prems(1) by auto
    then obtain p' where p': "p = c # p'"
      using Cons.prems(2) len_utf8_pos [of c] by (cases p) auto
    then have "str_find s pat = Some (str_len p')" "s = p' @ t" using j Cons.prems by auto
    from Cons.IH [OF this] show ?thesis using False p' by (cases k) auto
  qed
qed (auto split: if_splits)

lemma str_find_None: "str_find s pat = None \<Longrightarrow> \<not> prefix pat (drop k s)"
proof (induction s arbitrary: k)
  case (Cons c s)
  then show ?case by (cases k) (auto split: if_splits)
qed (auto split: if_splits)

lemma str_rfind_Some:
  "str_rfind s pat = Some i \<Longrightarrow> \<exists>p q. s = p @ pat @ q \<and> i = str_len p"
proof (induction s arbitrary: i)
  case (Cons c s)
  show ?case
  proof (cases "str_rfind s pat")
    case None
    with Cons.prems have "prefix pat (c # s)" "i = 0" by (auto split: if_splits)
    then show ?thesis by (metis append_Nil prefix_def str_len_simps(1))
  next
    case (Some j)
    from Cons.IH [OF this] obtain p q where "s = p @ pat @ q" "j = str_len p" by blast
    then have "c # s = (c # p) @ pat @ q \<and> i = str_len (c # p)" using Cons.prems Some by simp
    then show ?thesis by blast
  qed
qed (auto split: if_splits)

section \<open>Bytes of characters\<close>

text \<open>
  In UTF-8 a byte below 128 is a character of its own: every byte of a longer encoding has its
  top bit set. So the first occurrence of an ASCII byte is a character boundary.
\<close>

lemma encode_utf8_ascii: "c < 128 \<Longrightarrow> encode_utf8 c = [of_nat c]"
  by (simp add: encode_utf8_def)

lemma of_nat_u8_high:
  assumes "128 \<le> n" "n < 256"
  shows "128 \<le> unat (of_nat n :: u8)"
  using assms by (simp add: unat_of_nat)

lemma encode_utf8_high:
  assumes "\<not> c < 128" "is_scalar_value c" "b \<in> set (encode_utf8 c)"
  shows "128 \<le> unat b"
proof -
  have c: "c < 0x110000" using assms(2) by (auto simp: is_scalar_value_def)
  have m: "x mod 64 < 64" for x :: nat by simp
  have d: "c div 64 < 32" if "c < 0x800" using that by simp
  have e: "c div 4096 < 16" if "c < 0x10000" using that by simp
  have f: "c div 262144 < 16" using c by simp
  show ?thesis
    using assms(1,3) m [of c] m [of "c div 64"] m [of "c div 4096"] d e f
    by (auto simp: encode_utf8_def simp del: of_nat_add split: if_splits intro!: of_nat_u8_high)
qed

lemma takeWhile_as_bytes:
  assumes "\<forall>c\<in>set s. is_scalar_value c" "b < 128"
  shows "length (takeWhile (\<lambda>x. x \<noteq> of_nat b) (as_bytes s)) = str_len (takeWhile (\<lambda>c. c \<noteq> b) s) \<and>
    (of_nat b \<in> set (as_bytes s) \<longleftrightarrow> b \<in> set s)"
  using assms
proof (induction s)
  case (Cons c s)
  have unb: "unat (of_nat b :: u8) = b" using assms(2) by (simp add: unat_of_nat)
  show ?case
  proof (cases "c < 128")
    case True
    have unc: "unat (of_nat c :: u8) = c" using True by (simp add: unat_of_nat)
    have "(of_nat c :: u8) = of_nat b \<longleftrightarrow> c = b" using unb unc by metis
    then show ?thesis using Cons True by (auto simp: encode_utf8_ascii)
  next
    case False
    have ne: "x \<noteq> of_nat b" if "x \<in> set (encode_utf8 c)" for x
      using encode_utf8_high [OF False _ that] Cons.prems unb by fastforce
    then have "of_nat b \<notin> set (encode_utf8 c)" by auto
    moreover have "takeWhile (\<lambda>x. x \<noteq> of_nat b) (encode_utf8 c @ as_bytes s) =
        encode_utf8 c @ takeWhile (\<lambda>x. x \<noteq> of_nat b) (as_bytes s)"
      using ne by (simp add: takeWhile_append2)
    ultimately show ?thesis using Cons False assms(2) by auto
  qed
qed simp

end
