(* ===== verification/Lex_Cursor.thy ===== *)
theory Lex_Cursor
  imports Rust_Str
begin

text \<open>
  Tokens and the cursor of \<open>rustc_lexer/src/lib.rs\<close>: the token kinds, the character classes, the
  \<open>Cursor\<close> with its peeking and eating operations, and the order in which cursors advance.

  A debug build is modelled: the field \<open>prev\<close> is kept, and an assertion that fails, a string
  slice off a character boundary and an arithmetic overflow are panics (\<open>None\<close>). Offsets are
  \<open>usize\<close> in the code; a string has fewer than \<open>2 ^ 63\<close> bytes, so they are natural numbers here.
  The token positions, which the code truncates to 32 bits, are words.
\<close>

section \<open>Tokens\<close>

datatype doc_style = Outer | Inner

datatype base = Binary | Octal | Decimal | Hexadecimal

datatype literal_kind =
    Lit_Int base bool
  | Lit_Float base bool
  | Lit_Char bool
  | Lit_Byte bool
  | Lit_Str bool
  | Lit_ByteStr bool
  | Lit_CStr bool
  | Lit_RawStr "u8 option"
  | Lit_RawByteStr "u8 option"
  | Lit_RawCStr "u8 option"

datatype token_kind =
    LineComment "doc_style option"
  | BlockComment "doc_style option" bool
  | Whitespace
  | Frontmatter bool bool
  | Ident
  | InvalidIdent
  | RawIdent
  | UnknownPrefix
  | UnknownPrefixLifetime
  | RawLifetime
  | GuardedStrPrefix
  | Literal literal_kind u32
  | Lifetime bool
  | Semi | Comma | Dot | OpenParen | CloseParen | OpenBrace | CloseBrace | OpenBracket
  | CloseBracket | At | Pound | Tilde | Question | Colon | Dollar | Eq | Bang | Lt | Gt | Minus
  | And | Or | Plus | Star | Slash | Caret | Percent
  | Unknown
  | Eof

record token =
  tok_kind :: token_kind
  tok_len :: u32

record guarded_str =
  gs_n_hashes :: u32
  gs_terminated :: bool
  gs_token_len :: u32

datatype raw_str_error =
    InvalidStarter rchar
  | NoTerminator u32 u32 "u32 option"
  | TooManyDelimiters u32

section \<open>Library code the lexer calls\<close>

text \<open>
  The Unicode tables of \<open>unicode_ident\<close> and \<open>unicode_properties\<close> and the byte search of
  \<open>memchr\<close> are not part of the repository; they are parameters. What the lexer relies on: the
  tables agree with ASCII, and \<open>memchr\<close> returns the index of the first occurrence.
\<close>

record lex_ext =
  is_xid_start :: "rchar \<Rightarrow> bool"
  is_xid_continue :: "rchar \<Rightarrow> bool"
  is_emoji_char :: "rchar \<Rightarrow> bool"
  memchr :: "u8 \<Rightarrow> u8 list \<Rightarrow> nat option"

definition is_ascii_alphabetic :: "rchar \<Rightarrow> bool" where
  "is_ascii_alphabetic c \<longleftrightarrow> ch CHR ''a'' \<le> c \<and> c \<le> ch CHR ''z'' \<or> ch CHR ''A'' \<le> c \<and> c \<le> ch CHR ''Z''"

definition xid_ascii :: "lex_ext \<Rightarrow> bool" where
  "xid_ascii x \<longleftrightarrow>
     (\<forall>c<128. is_xid_start x c = is_ascii_alphabetic c) \<and>
     (\<forall>c<128. is_xid_continue x c =
        (is_ascii_alphabetic c \<or> is_ascii_digit c \<or> c = ch CHR ''_''))"

definition memchr_first :: "lex_ext \<Rightarrow> bool" where
  "memchr_first x \<longleftrightarrow>
     (\<forall>b bs. memchr x b bs =
        (if b \<in> set bs then Some (length (takeWhile (\<lambda>y. y \<noteq> b) bs)) else None))"

section \<open>Character classes\<close>

definition is_whitespace :: "rchar \<Rightarrow> bool" where
  "is_whitespace c \<longleftrightarrow>
     c \<in> {0x0A, 0x0B, 0x0C, 0x0D, 0x85, 0x2028, 0x2029, 0x200E, 0x200F, 0x09, 0x20}"

definition is_horizontal_whitespace :: "rchar \<Rightarrow> bool" where
  "is_horizontal_whitespace c \<longleftrightarrow> c \<in> {0x09, 0x20}"

definition is_id_start :: "lex_ext \<Rightarrow> rchar \<Rightarrow> bool" where
  "is_id_start x c \<longleftrightarrow> c = ch CHR ''_'' \<or> is_xid_start x c"

definition is_id_continue :: "lex_ext \<Rightarrow> rchar \<Rightarrow> bool" where
  "is_id_continue x c = is_xid_continue x c"

definition is_ident :: "lex_ext \<Rightarrow> rstr \<Rightarrow> bool" where
  "is_ident x s =
     (case s of start # chars \<Rightarrow> is_id_start x start \<and> list_all (is_id_continue x) chars
      | [] \<Rightarrow> False)"

section \<open>The cursor\<close>

datatype frontmatter_allowed = FA_Yes | FA_No

record cursor =
  len_remaining :: nat
  chars :: rstr
  frontmatter_ok :: frontmatter_allowed
  prev :: rchar

abbreviation (input) eof_char :: rchar where
  "eof_char \<equiv> 0"

definition cursor_new :: "rstr \<Rightarrow> frontmatter_allowed \<Rightarrow> cursor" where
  "cursor_new input fa =
     \<lparr>len_remaining = str_len input, chars = input, frontmatter_ok = fa, prev = eof_char\<rparr>"

definition first :: "cursor \<Rightarrow> rchar" where
  "first c = (case chars c of a # _ \<Rightarrow> a | [] \<Rightarrow> eof_char)"

definition second :: "cursor \<Rightarrow> rchar" where
  "second c = (case chars c of _ # a # _ \<Rightarrow> a | _ \<Rightarrow> eof_char)"

definition third :: "cursor \<Rightarrow> rchar" where
  "third c = (case chars c of _ # _ # a # _ \<Rightarrow> a | _ \<Rightarrow> eof_char)"

definition is_eof :: "cursor \<Rightarrow> bool" where
  "is_eof c \<longleftrightarrow> chars c = []"

text \<open>The subtraction panics when it would be negative; the result is truncated to 32 bits.\<close>

definition pos_within_token :: "cursor \<Rightarrow> u32 option" where
  "pos_within_token c =
     (if str_len (chars c) \<le> len_remaining c
      then Some (of_nat (len_remaining c - str_len (chars c))) else None)"

definition reset_pos_within_token :: "cursor \<Rightarrow> cursor" where
  "reset_pos_within_token c = c\<lparr>len_remaining := str_len (chars c)\<rparr>"

definition bump :: "cursor \<Rightarrow> rchar option \<times> cursor" where
  "bump c = (case chars c of
       [] \<Rightarrow> (None, c)
     | a # s \<Rightarrow> (Some a, c\<lparr>chars := s, prev := a\<rparr>))"

text \<open>The effect of \<open>self.bump();\<close> with the result ignored.\<close>

abbreviation bumped :: "cursor \<Rightarrow> cursor" where
  "bumped c \<equiv> snd (bump c)"

definition bump_bytes :: "cursor \<Rightarrow> nat \<Rightarrow> cursor option" where
  "bump_bytes c n = do { s \<leftarrow> str_from (chars c) n; Some (c\<lparr>chars := s\<rparr>) }"

lemma bumped_shorter: "\<not> is_eof c \<Longrightarrow> length (chars (bumped c)) < length (chars c)"
  by (auto simp: is_eof_def bump_def split: list.splits)

function eat_while :: "(rchar \<Rightarrow> bool) \<Rightarrow> cursor \<Rightarrow> cursor" where
  "eat_while p c = (if p (first c) \<and> \<not> is_eof c then eat_while p (bumped c) else c)"
  by pat_completeness auto
termination by (relation "measure (\<lambda>(p, c). length (chars c))") (auto intro: bumped_shorter)

declare eat_while.simps [simp del]

definition eat_until :: "lex_ext \<Rightarrow> u8 \<Rightarrow> cursor \<Rightarrow> cursor option" where
  "eat_until x byte c =
     (case memchr x byte (as_bytes (chars c)) of
        Some index \<Rightarrow> do { s \<leftarrow> str_from (chars c) index; Some (c\<lparr>chars := s\<rparr>) }
      | None \<Rightarrow> Some (c\<lparr>chars := []\<rparr>))"

section \<open>Cursor laws\<close>

text \<open>
  A cursor is sound when the token it is in started at or before its position and its characters
  are Unicode scalar values; \<open>advances c s d\<close> says that \<open>d\<close> is \<open>c\<close> after the text \<open>s\<close> was eaten.
\<close>

definition cursor_ok :: "cursor \<Rightarrow> bool" where
  "cursor_ok c \<longleftrightarrow>
     str_len (chars c) \<le> len_remaining c \<and> len_remaining c < 2 ^ 32 \<and>
     (\<forall>a\<in>set (chars c). is_scalar_value a)"

definition advances :: "cursor \<Rightarrow> rstr \<Rightarrow> cursor \<Rightarrow> bool" where
  "advances c s d \<longleftrightarrow>
     chars c = s @ chars d \<and> len_remaining d = len_remaining c \<and>
     frontmatter_ok d = frontmatter_ok c"

lemma advances_refl [cursor_intros]: "advances c [] c"
  by (simp add: advances_def)

lemma advances_trans: "advances c s d \<Longrightarrow> advances d t e \<Longrightarrow> advances c (s @ t) e"
  by (simp add: advances_def)

lemma advances_ok: "advances c s d \<Longrightarrow> cursor_ok c \<Longrightarrow> cursor_ok d"
  by (auto simp: advances_def cursor_ok_def)

lemma cursor_new_ok:
  "str_len s < 2 ^ 32 \<Longrightarrow> (\<And>a. a \<in> set s \<Longrightarrow> is_scalar_value a) \<Longrightarrow> cursor_ok (cursor_new s fa)"
  by (simp add: cursor_ok_def cursor_new_def)

lemma pos_within_token_ok [simp]:
  "cursor_ok c \<Longrightarrow>
   pos_within_token c = Some (of_nat (len_remaining c - str_len (chars c)))"
  by (simp add: pos_within_token_def cursor_ok_def)

lemma first_simps [cursor_simps]:
  "chars c = [] \<Longrightarrow> first c = eof_char"
  "chars c = a # s \<Longrightarrow> first c = a"
  by (simp_all add: first_def)

lemma second_simps [cursor_simps]:
  "chars c = [] \<Longrightarrow> second c = eof_char"
  "chars c = [a] \<Longrightarrow> second c = eof_char"
  "chars c = a # b # s \<Longrightarrow> second c = b"
  by (simp_all add: second_def)

lemma bump_simps [cursor_simps]:
  "chars c = [] \<Longrightarrow> bump c = (None, c)"
  "chars c = a # s \<Longrightarrow> bump c = (Some a, c\<lparr>chars := s, prev := a\<rparr>)"
  by (simp_all add: bump_def)

lemma first_nonzero: "first c \<noteq> 0 \<Longrightarrow> \<exists>s. chars c = first c # s"
  by (auto simp: first_def split: list.splits)

lemma bumped_advances: "\<exists>s. advances c s (bumped c)"
  by (auto simp: advances_def bump_def split: list.splits)

lemma bump_Some: "bump c = (Some a, d) \<Longrightarrow> advances c [a] d \<and> prev d = a"
  by (auto simp: advances_def bump_def split: list.splits)

lemma bump_None: "bump c = (None, d) \<Longrightarrow> chars c = [] \<and> d = c"
  by (auto simp: bump_def split: list.splits)

lemma bumped_first: "first c \<noteq> 0 \<Longrightarrow> advances c [first c] (bumped c) \<and> prev (bumped c) = first c"
  by (auto simp: advances_def bump_def first_def split: list.splits)

text \<open>Eating while a predicate holds drops the longest prefix that satisfies it.\<close>

lemma eat_while_chars: "chars (eat_while p c) = dropWhile p (chars c)"
proof (induction p c rule: eat_while.induct)
  case (1 p c)
  show ?case
    by (subst eat_while.simps) (use 1 in \<open>auto simp: is_eof_def first_def bump_def split: list.splits\<close>)
qed

lemma eat_while_advances: "advances c (takeWhile p (chars c)) (eat_while p c)"
proof (induction p c rule: eat_while.induct)
  case (1 p c)
  show ?case
    by (subst eat_while.simps)
      (use 1 in \<open>auto simp: advances_def is_eof_def first_def bump_def split: list.splits\<close>)
qed

lemma eat_while_first: "first (eat_while p c) = eof_char \<or> \<not> p (first (eat_while p c))"
  using dropWhile_eq_Cons_conv [of p "chars c"]
  by (auto simp: first_def eat_while_chars split: list.splits)

text \<open>Eating up to an ASCII byte never cuts a character and stops at the first occurrence.\<close>

lemma eat_until_ok:
  assumes "memchr_first x" "cursor_ok c" "b < 128"
  shows "eat_until x (of_nat b) c = Some (c\<lparr>chars := dropWhile (\<lambda>a. a \<noteq> b) (chars c)\<rparr>)"
proof -
  note tb = takeWhile_as_bytes [of "chars c" b]
  have sc: "\<forall>a\<in>set (chars c). is_scalar_value a" using assms(2) by (simp add: cursor_ok_def)
  show ?thesis
  proof (cases "b \<in> set (chars c)")
    case True
    have "memchr x (of_nat b) (as_bytes (chars c)) = Some (str_len (takeWhile (\<lambda>a. a \<noteq> b) (chars c)))"
      using assms(1) tb [OF sc assms(3)] True by (simp add: memchr_first_def)
    moreover have "str_from (chars c) (str_len (takeWhile (\<lambda>a. a \<noteq> b) (chars c))) =
        Some (dropWhile (\<lambda>a. a \<noteq> b) (chars c))"
      by (metis str_from_str_len takeWhile_dropWhile_id)
    ultimately show ?thesis by (simp add: eat_until_def)
  next
    case False
    then have "dropWhile (\<lambda>a. a \<noteq> b) (chars c) = []" by (auto simp: dropWhile_eq_Nil_conv)
    moreover have "memchr x (of_nat b) (as_bytes (chars c)) = None"
      using assms(1) tb [OF sc assms(3)] False by (simp add: memchr_first_def)
    ultimately show ?thesis by (simp only: eat_until_def option.case)
  qed
qed

lemma advances_dropWhile:
  "advances c (takeWhile p (chars c)) (c\<lparr>chars := dropWhile p (chars c)\<rparr>)"
  by (simp add: advances_def)

end
