(* ===== verification/Lexer.thy ===== *)
theory Lexer
  imports Lex_Cursor
begin

text \<open>
  The lexer of \<open>rustc_lexer/src/lib.rs\<close>: the scanners of literals, comments, identifiers and
  frontmatter, \<open>advance_token\<close>, \<open>tokenize\<close>, \<open>strip_shebang\<close> and \<open>validate_raw_str\<close>. Each scanner
  takes the cursor and returns its result with the cursor it leaves; \<open>None\<close> is a panic.

  Every loop is a function whose termination proof uses that an iteration eats a character.
\<close>

section \<open>Digits, suffixes and identifiers\<close>

lemma bumped_shorter_first: "first c \<noteq> 0 \<Longrightarrow> length (chars (bumped c)) < length (chars c)"
  by (auto simp: first_def bump_def split: list.splits)

lemma bumped_le: "length (chars (bumped c)) \<le> length (chars c)"
  by (auto simp: bump_def split: list.splits)

lemma bump_shorter: "bump c = (Some a, d) \<Longrightarrow> length (chars d) < length (chars c)"
  by (auto simp: bump_def split: list.splits)

function eat_decimal_loop :: "bool \<Rightarrow> cursor \<Rightarrow> bool \<times> cursor" where
  "eat_decimal_loop has_digits c =
     (if first c = ch CHR ''_'' then eat_decimal_loop has_digits (bumped c)
      else if is_ascii_digit (first c) then eat_decimal_loop True (bumped c)
      else (has_digits, c))"
  by pat_completeness auto
termination
  by (relation "measure (\<lambda>(h, c). length (chars c))")
    (auto intro!: bumped_shorter_first simp: is_ascii_digit_def)

definition eat_decimal_digits :: "cursor \<Rightarrow> bool \<times> cursor" where
  "eat_decimal_digits c = eat_decimal_loop False c"

definition is_hex_digit :: "rchar \<Rightarrow> bool" where
  "is_hex_digit a \<longleftrightarrow> is_ascii_digit a \<or> ch CHR ''a'' \<le> a \<and> a \<le> ch CHR ''f'' \<or>
     ch CHR ''A'' \<le> a \<and> a \<le> ch CHR ''F''"

function eat_hexadecimal_loop :: "bool \<Rightarrow> cursor \<Rightarrow> bool \<times> cursor" where
  "eat_hexadecimal_loop has_digits c =
     (if first c = ch CHR ''_'' then eat_hexadecimal_loop has_digits (bumped c)
      else if is_hex_digit (first c) then eat_hexadecimal_loop True (bumped c)
      else (has_digits, c))"
  by pat_completeness auto
termination
  by (relation "measure (\<lambda>(h, c). length (chars c))")
    (auto intro!: bumped_shorter_first simp: is_hex_digit_def is_ascii_digit_def)

definition eat_hexadecimal_digits :: "cursor \<Rightarrow> bool \<times> cursor" where
  "eat_hexadecimal_digits c = eat_hexadecimal_loop False c"

declare eat_decimal_loop.simps [simp del] eat_hexadecimal_loop.simps [simp del]

definition eat_float_exponent :: "cursor \<Rightarrow> (bool \<times> cursor) option" where
  "eat_float_exponent c = do {
     rust_assert (prev c = ch CHR ''e'' \<or> prev c = ch CHR ''E'');
     Some (eat_decimal_digits
       (if first c = ch CHR ''-'' \<or> first c = ch CHR ''+'' then bumped c else c)) }"

definition eat_identifier :: "lex_ext \<Rightarrow> cursor \<Rightarrow> cursor" where
  "eat_identifier x c =
     (if \<not> is_id_start x (first c) then c else eat_while (is_id_continue x) (bumped c))"

definition eat_literal_suffix :: "lex_ext \<Rightarrow> cursor \<Rightarrow> cursor" where
  "eat_literal_suffix x c = eat_identifier x c"

section \<open>Quoted strings\<close>

function single_quoted_loop :: "cursor \<Rightarrow> bool \<times> cursor" where
  "single_quoted_loop c =
     (if first c = 39 then (True, bumped c)
      else if first c = ch CHR ''/'' then (False, c)
      else if first c = 10 \<and> second c \<noteq> 39 then (False, c)
      else if first c = eof_char \<and> is_eof c then (False, c)
      else if first c = 92 then single_quoted_loop (bumped (bumped c))
      else single_quoted_loop (bumped c))"
  by pat_completeness auto
termination
proof (relation "measure (\<lambda>c. length (chars c))", goal_cases)
  case (2 c)
  then have "length (chars (bumped c)) < length (chars c)" by (intro bumped_shorter_first) simp
  then show ?case using bumped_le [of "bumped c"] by simp
next
  case (3 c)
  then have "\<not> is_eof c" by (auto simp: is_eof_def first_def)
  then show ?case using bumped_shorter by simp
qed auto

definition single_quoted_string :: "cursor \<Rightarrow> (bool \<times> cursor) option" where
  "single_quoted_string c = do {
     rust_assert (prev c = 39);
     Some (if second c = 39 \<and> first c \<noteq> 92 then (True, bumped (bumped c))
           else single_quoted_loop c) }"

function double_quoted_loop :: "cursor \<Rightarrow> bool \<times> cursor" where
  "double_quoted_loop c =
     (case bump c of
        (None, d) \<Rightarrow> (False, d)
      | (Some a, d) \<Rightarrow>
          if a = 34 then (True, d)
          else if a = 92 \<and> (first d = 92 \<or> first d = 34) then double_quoted_loop (bumped d)
          else double_quoted_loop d)"
  by pat_completeness auto
termination
  by (relation "measure (\<lambda>c. length (chars c))")
    (auto dest: bump_shorter [OF sym] intro: le_less_trans [OF bumped_le])

declare single_quoted_loop.simps [simp del] double_quoted_loop.simps [simp del]

definition double_quoted_string :: "cursor \<Rightarrow> (bool \<times> cursor) option" where
  "double_quoted_string c = do {
     rust_assert (prev c = 34);
     Some (double_quoted_loop c) }"

section \<open>Raw strings\<close>

text \<open>\<open>while self.first() == '#' { n += 1; self.bump(); }\<close>, the counter being a \<open>u32\<close>.\<close>

function count_hashes :: "u32 \<Rightarrow> cursor \<Rightarrow> (u32 \<times> cursor) option" where
  "count_hashes eaten c =
     (if first c = ch CHR ''#'' then
        (case checked_add eaten 1 of
           None \<Rightarrow> None
         | Some eaten' \<Rightarrow> count_hashes eaten' (bumped c))
      else Some (eaten, c))"
  by pat_completeness auto
termination
  by (relation "measure (\<lambda>(n, c). length (chars c))") (auto intro!: bumped_shorter_first)

function count_end_hashes :: "u32 \<Rightarrow> u32 \<Rightarrow> cursor \<Rightarrow> u32 \<times> cursor" where
  "count_end_hashes n_start n_end c =
     (if first c = ch CHR ''#'' \<and> n_end < n_start
      then count_end_hashes n_start (n_end + 1) (bumped c)
      else (n_end, c))"
  by pat_completeness auto
termination
  by (relation "measure (\<lambda>(m, n, c). length (chars c))") (auto intro!: bumped_shorter_first)

declare count_hashes.simps [simp del] count_end_hashes.simps [simp del]

lemma count_end_hashes_le:
  "length (chars (snd (count_end_hashes m n c))) \<le> length (chars c)"
proof (induction m n c rule: count_end_hashes.induct)
  case (1 m n c)
  then show ?case
    using bumped_le [of c] by (subst count_end_hashes.simps) auto
qed

lemma eat_until_le: "eat_until x b c = Some d \<Longrightarrow> length (chars d) \<le> length (chars c)"
  by (auto simp: eat_until_def bind_eq_Some_conv split: option.splits dest!: str_from_Some)

text \<open>The body of the loop up to the count of the closing hashes; \<open>None\<close> inside is the end of
  the input.\<close>

definition raw_string_close ::
    "lex_ext \<Rightarrow> u32 \<Rightarrow> cursor \<Rightarrow> ((u32 \<times> cursor) option \<times> cursor) option" where
  "raw_string_close x n_start c = do {
     d \<leftarrow> eat_until x 34 c;
     Some (if is_eof d then (None, d)
           else (Some (count_end_hashes n_start 0 (bumped d)), d)) }"

lemma raw_string_close_shorter:
  assumes "raw_string_close x n c = Some (Some (m, e), d)"
  shows "length (chars e) < length (chars c)"
proof -
  from assms have d: "eat_until x 34 c = Some d" "\<not> is_eof d"
    and e: "(m, e) = count_end_hashes n 0 (bumped d)"
    by (auto simp: raw_string_close_def bind_eq_Some_conv split: if_splits)
  have "length (chars e) \<le> length (chars (bumped d))"
    using e count_end_hashes_le [of n 0 "bumped d"] by (metis snd_conv)
  also have "\<dots> < length (chars d)" by (rule bumped_shorter [OF d(2)])
  also have "\<dots> \<le> length (chars c)" by (rule eat_until_le [OF d(1)])
  finally show ?thesis .
qed

function raw_string_loop ::
    "lex_ext \<Rightarrow> u32 \<Rightarrow> u32 \<Rightarrow> u32 \<Rightarrow> u32 \<Rightarrow> u32 option \<Rightarrow> cursor \<Rightarrow>
     ((raw_str_error + u32) \<times> cursor) option" where
  "raw_string_loop x prefix_len start_pos n_start max_hashes offset c =
     (case raw_string_close x n_start c of
        None \<Rightarrow> None
      | Some (None, d) \<Rightarrow> Some (Inl (NoTerminator n_start max_hashes offset), d)
      | Some (Some (n_end, e), d) \<Rightarrow>
          if n_end = n_start then Some (Inr n_start, e)
          else if max_hashes < n_end then
            (case do { p \<leftarrow> pos_within_token e;
                       a \<leftarrow> checked_sub p start_pos;
                       b \<leftarrow> checked_sub a n_end;
                       checked_add b prefix_len } of
               None \<Rightarrow> None
             | Some o' \<Rightarrow> raw_string_loop x prefix_len start_pos n_start n_end (Some o') e)
          else raw_string_loop x prefix_len start_pos n_start max_hashes offset e)"
  by pat_completeness auto
termination
  by (relation "measure (\<lambda>(x, p, s, n, m, off, c). length (chars c))")
    (auto dest: raw_string_close_shorter)

declare raw_string_loop.simps [simp del]

definition raw_string_unvalidated ::
    "lex_ext \<Rightarrow> u32 \<Rightarrow> cursor \<Rightarrow> ((raw_str_error + u32) \<times> cursor) option" where
  "raw_string_unvalidated x prefix_len c = do {
     rust_assert (prev c = ch CHR ''r'');
     start_pos \<leftarrow> pos_within_token c;
     (n_start, c) \<leftarrow> count_hashes 0 c;
     (case bump c of
        (Some a, d) \<Rightarrow>
          if a = 34 then raw_string_loop x prefix_len start_pos n_start 0 None d
          else Some (Inl (InvalidStarter a), d)
      | (None, d) \<Rightarrow> Some (Inl (InvalidStarter eof_char), d)) }"

definition raw_double_quoted_string ::
    "lex_ext \<Rightarrow> u32 \<Rightarrow> cursor \<Rightarrow> ((raw_str_error + u8) \<times> cursor) option" where
  "raw_double_quoted_string x prefix_len c = do {
     (res, c) \<leftarrow> raw_string_unvalidated x prefix_len c;
     Some (case res of
         Inl err \<Rightarrow> (Inl err, c)
       | Inr n_hashes \<Rightarrow>
           if n_hashes \<le> 255 then (Inr (ucast n_hashes), c)
           else (Inl (TooManyDelimiters n_hashes), c)) }"

text \<open>\<open>Result::ok\<close>.\<close>

definition result_ok :: "'e + 'a \<Rightarrow> 'a option" where
  "result_ok r = (case r of Inl _ \<Rightarrow> None | Inr a \<Rightarrow> Some a)"

definition guarded_double_quoted_string ::
    "lex_ext \<Rightarrow> cursor \<Rightarrow> (guarded_str option \<times> cursor) option" where
  "guarded_double_quoted_string x c = do {
     rust_assert (prev c \<noteq> ch CHR ''#'');
     (n_start, c) \<leftarrow> count_hashes 0 c;
     if first c \<noteq> 34 then Some (None, c)
     else do {
       let c = bumped c;
       rust_assert (prev c = 34);
       (terminated, c) \<leftarrow> double_quoted_string c;
       if \<not> terminated then do {
         token_len \<leftarrow> pos_within_token c;
         Some (Some \<lparr>gs_n_hashes = n_start, gs_terminated = False, gs_token_len = token_len\<rparr>,
           reset_pos_within_token c) }
       else do {
         let c = eat_literal_suffix x (snd (count_end_hashes n_start 0 c));
         token_len \<leftarrow> pos_within_token c;
         Some (Some \<lparr>gs_n_hashes = n_start, gs_terminated = True, gs_token_len = token_len\<rparr>,
           reset_pos_within_token c) } } }"

section \<open>Numbers\<close>

text \<open>The base prefix: \<open>Inl\<close> is an early return with the literal kind.\<close>

definition number_base :: "rchar \<Rightarrow> cursor \<Rightarrow> (literal_kind + base) \<times> cursor" where
  "number_base first_digit c =
     (if first_digit = ch CHR ''0'' then
        if first c = ch CHR ''b'' then
          (case eat_decimal_digits (bumped c) of
             (True, d) \<Rightarrow> (Inr Binary, d) | (False, d) \<Rightarrow> (Inl (Lit_Int Binary True), d))
        else if first c = ch CHR ''o'' then
          (case eat_decimal_digits (bumped c) of
             (True, d) \<Rightarrow> (Inr Octal, d) | (False, d) \<Rightarrow> (Inl (Lit_Int Octal True), d))
        else if first c = ch CHR ''x'' then
          (case eat_hexadecimal_digits (bumped c) of
             (True, d) \<Rightarrow> (Inr Hexadecimal, d) | (False, d) \<Rightarrow> (Inl (Lit_Int Hexadecimal True), d))
        else if is_ascii_digit (first c) \<or> first c = ch CHR ''_'' then
          (Inr Decimal, snd (eat_decimal_digits c))
        else if first c \<in> {ch CHR ''.'', ch CHR ''e'', ch CHR ''E''} then (Inr Decimal, c)
        else (Inl (Lit_Int Decimal False), c)
      else (Inr Decimal, snd (eat_decimal_digits c)))"

text \<open>The fraction and the exponent.\<close>

definition number_tail :: "lex_ext \<Rightarrow> base \<Rightarrow> cursor \<Rightarrow> (literal_kind \<times> cursor) option" where
  "number_tail x bs c =
     (if first c = ch CHR ''.'' \<and> second c \<noteq> ch CHR ''.'' \<and> \<not> is_id_start x (second c) then
        let c = bumped c in
        if is_ascii_digit (first c) then
          let c = snd (eat_decimal_digits c) in
          if first c = ch CHR ''e'' \<or> first c = ch CHR ''E'' then do {
            (ok, c) \<leftarrow> eat_float_exponent (bumped c);
            Some (Lit_Float bs (\<not> ok), c) }
          else Some (Lit_Float bs False, c)
        else Some (Lit_Float bs False, c)
      else if first c = ch CHR ''e'' \<or> first c = ch CHR ''E'' then do {
        (ok, c) \<leftarrow> eat_float_exponent (bumped c);
        Some (Lit_Float bs (\<not> ok), c) }
      else Some (Lit_Int bs False, c))"

definition number :: "lex_ext \<Rightarrow> rchar \<Rightarrow> cursor \<Rightarrow> (literal_kind \<times> cursor) option" where
  "number x first_digit c = do {
     rust_assert (ch CHR ''0'' \<le> prev c \<and> prev c \<le> ch CHR ''9'');
     (case number_base first_digit c of
        (Inl kind, d) \<Rightarrow> Some (kind, d)
      | (Inr bs, d) \<Rightarrow> number_tail x bs d) }"

section \<open>Comments and whitespace\<close>

definition line_comment :: "lex_ext \<Rightarrow> cursor \<Rightarrow> (token_kind \<times> cursor) option" where
  "line_comment x c = do {
     rust_assert (prev c = ch CHR ''/'' \<and> first c = ch CHR ''/'');
     let c = bumped c;
     let doc_style =
       (if first c = ch CHR ''!'' then Some Inner
        else if first c = ch CHR ''/'' \<and> second c \<noteq> ch CHR ''/'' then Some Outer
        else None);
     c \<leftarrow> eat_until x 10 c;
     Some (LineComment doc_style, c) }"

text \<open>The loop over the text of a block comment returns the depth at which it stops.\<close>

function block_comment_loop :: "nat \<Rightarrow> cursor \<Rightarrow> nat \<times> cursor" where
  "block_comment_loop depth c =
     (case bump c of
        (None, d) \<Rightarrow> (depth, d)
      | (Some a, d) \<Rightarrow>
          if a = ch CHR ''/'' \<and> first d = ch CHR ''*'' then
            block_comment_loop (depth + 1) (bumped d)
          else if a = ch CHR ''*'' \<and> first d = ch CHR ''/'' then
            if depth - 1 = 0 then (depth - 1, bumped d)
            else block_comment_loop (depth - 1) (bumped d)
          else block_comment_loop depth d)"
  by pat_completeness auto
termination
  by (relation "measure (\<lambda>(n, c). length (chars c))")
    (auto dest: bump_shorter [OF sym] intro: le_less_trans [OF bumped_le])

declare block_comment_loop.simps [simp del]

definition block_comment :: "cursor \<Rightarrow> (token_kind \<times> cursor) option" where
  "block_comment c = do {
     rust_assert (prev c = ch CHR ''/'' \<and> first c = ch CHR ''*'');
     let c = bumped c;
     let doc_style =
       (if first c = ch CHR ''!'' then Some Inner
        else if first c = ch CHR ''*'' \<and> \<not> (second c = ch CHR ''*'' \<or> second c = ch CHR ''/'')
        then Some Outer else None);
     let (depth, c) = block_comment_loop 1 c;
     Some (BlockComment doc_style (depth = 0), c) }"

definition whitespace :: "cursor \<Rightarrow> (token_kind \<times> cursor) option" where
  "whitespace c = do {
     rust_assert (is_whitespace (prev c));
     Some (Whitespace, eat_while is_whitespace c) }"

section \<open>Identifiers and prefixes\<close>

definition raw_ident :: "lex_ext \<Rightarrow> cursor \<Rightarrow> (token_kind \<times> cursor) option" where
  "raw_ident x c = do {
     rust_assert (prev c = ch CHR ''r'' \<and> first c = ch CHR ''#'' \<and> is_id_start x (second c));
     Some (RawIdent, eat_identifier x (bumped c)) }"

definition non_ascii_emoji :: "lex_ext \<Rightarrow> rchar \<Rightarrow> bool" where
  "non_ascii_emoji x a \<longleftrightarrow> \<not> is_ascii a \<and> is_emoji_char x a"

definition invalid_ident :: "lex_ext \<Rightarrow> cursor \<Rightarrow> token_kind \<times> cursor" where
  "invalid_ident x c =
     (InvalidIdent,
      eat_while (\<lambda>a. is_id_continue x a \<or> non_ascii_emoji x a \<or> a = 0x200D) c)"

definition ident_or_unknown_prefix :: "lex_ext \<Rightarrow> cursor \<Rightarrow> (token_kind \<times> cursor) option" where
  "ident_or_unknown_prefix x c = do {
     rust_assert (is_id_start x (prev c));
     let c = eat_while (is_id_continue x) c;
     Some (if first c = ch CHR ''#'' \<or> first c = 34 \<or> first c = 39 then (UnknownPrefix, c)
           else if non_ascii_emoji x (first c) then invalid_ident x c
           else (Ident, c)) }"

text \<open>The three places that lex a literal and then, if it is complete, its suffix.\<close>

definition quoted_literal ::
    "lex_ext \<Rightarrow> (cursor \<Rightarrow> (bool \<times> cursor) option) \<Rightarrow> (bool \<Rightarrow> literal_kind) \<Rightarrow> cursor \<Rightarrow>
     (token_kind \<times> cursor) option" where
  "quoted_literal x scan mk c = do {
     (terminated, c) \<leftarrow> scan c;
     suffix_start \<leftarrow> pos_within_token c;
     Some (Literal (mk terminated) suffix_start,
       if terminated then eat_literal_suffix x c else c) }"

definition raw_literal ::
    "lex_ext \<Rightarrow> u32 \<Rightarrow> (u8 option \<Rightarrow> literal_kind) \<Rightarrow> cursor \<Rightarrow> (token_kind \<times> cursor) option" where
  "raw_literal x prefix_len mk c = do {
     (res, c) \<leftarrow> raw_double_quoted_string x prefix_len c;
     suffix_start \<leftarrow> pos_within_token c;
     Some (Literal (mk (result_ok res)) suffix_start,
       if result_ok res \<noteq> None then eat_literal_suffix x c else c) }"

definition c_or_byte_string ::
    "lex_ext \<Rightarrow> (bool \<Rightarrow> literal_kind) \<Rightarrow> (u8 option \<Rightarrow> literal_kind) \<Rightarrow>
     (bool \<Rightarrow> literal_kind) option \<Rightarrow> cursor \<Rightarrow> (token_kind \<times> cursor) option" where
  "c_or_byte_string x mk_kind mk_kind_raw single_quoted c =
     (case (first c = 39, single_quoted) of
        (True, Some mk_single) \<Rightarrow>
          quoted_literal x single_quoted_string mk_single (bumped c)
      | _ \<Rightarrow>
          if first c = 34 then quoted_literal x double_quoted_string mk_kind (bumped c)
          else if first c = ch CHR ''r'' \<and> (second c = 34 \<or> second c = ch CHR ''#'') then
            raw_literal x 2 mk_kind_raw (bumped c)
          else ident_or_unknown_prefix x c)"

definition lifetime_or_char :: "lex_ext \<Rightarrow> cursor \<Rightarrow> (token_kind \<times> cursor) option" where
  "lifetime_or_char x c = do {
     rust_assert (prev c = 39);
     let can_be_a_lifetime =
       (if second c = 39 then False else is_id_start x (first c) \<or> is_ascii_digit (first c));
     if \<not> can_be_a_lifetime then quoted_literal x single_quoted_string Lit_Char c
     else if first c = ch CHR ''r'' \<and> second c = ch CHR ''#'' \<and> is_id_start x (third c) then
       Some (RawLifetime, eat_while (is_id_continue x) (bumped (bumped (bumped c))))
     else do {
       let starts_with_number = is_ascii_digit (first c);
       let c = eat_while (is_id_continue x) (bumped c);
       if first c = 39 then do {
         let c = bumped c;
         suffix_start \<leftarrow> pos_within_token c;
         Some (Literal (Lit_Char True) suffix_start, c) }
       else if first c = ch CHR ''#'' \<and> \<not> starts_with_number then Some (UnknownPrefixLifetime, c)
       else Some (Lifetime starts_with_number, c) } }"

section \<open>Frontmatter\<close>

text \<open>
  The last recovery step: the offset of the first \<open>---\<close> with only horizontal whitespace between
  it and the start of its line, or of what is left of the text after an earlier candidate.
\<close>

function find_dashes :: "nat \<Rightarrow> rstr \<Rightarrow> nat option option" where
  "find_dashes base_index rest =
     (case str_find rest (lit ''---'') of
        None \<Rightarrow> Some None
      | Some closing \<Rightarrow>
          (case do { upto \<leftarrow> str_to rest closing;
                     str_slice rest
                       (case str_rfind upto [10] of None \<Rightarrow> 0 | Some i \<Rightarrow> i + 1) closing } of
             None \<Rightarrow> None
           | Some preceding \<Rightarrow>
               if list_all is_horizontal_whitespace preceding then Some (Some (closing + base_index))
               else (case str_from rest (closing + 3) of
                       None \<Rightarrow> None
                     | Some rest' \<Rightarrow> find_dashes (base_index + (closing + 3)) rest')))"
  by pat_completeness auto
termination
proof (relation "measure (\<lambda>(b, r). length r)", goal_cases)
  case (2 b r closing pre r')
  from str_from_Some [OF 2(4)] obtain p where p: "r = p @ r'" "closing + 3 = str_len p" by blast
  then have "p \<noteq> []" by auto
  with p show ?case by simp
qed auto

declare find_dashes.simps [simp del]

text \<open>Where the text may stop when the closing fence is missing.\<close>

definition frontmatter_recovery :: "rstr \<Rightarrow> nat option option" where
  "frontmatter_recovery rest =
     (case str_find rest (10 # lit ''---'') of
        Some i \<Rightarrow> Some (Some (i + 1))
      | None \<Rightarrow>
     (case str_find rest (10 # lit ''use '') of
        Some i \<Rightarrow> Some (Some i)
      | None \<Rightarrow>
     (case str_find rest (10 # lit ''//!'') of
        Some i \<Rightarrow> Some (Some i)
      | None \<Rightarrow>
     (case str_find rest (10 # lit ''#!['') of
        Some i \<Rightarrow> Some (Some i)
      | None \<Rightarrow> find_dashes 0 rest))))"

definition frontmatter_body :: "lex_ext \<Rightarrow> nat \<Rightarrow> cursor \<Rightarrow> cursor option" where
  "frontmatter_body x length_opening c =
     (let nl_fence_pattern = 10 # replicate length_opening (ch CHR ''-'') in
      case str_find (chars c) nl_fence_pattern of
        Some closing \<Rightarrow> do {
          c \<leftarrow> bump_bytes c (closing + str_len nl_fence_pattern);
          eat_until x 10 c }
      | None \<Rightarrow> do {
          potential_closing \<leftarrow> frontmatter_recovery (chars c);
          (case potential_closing of
             Some n \<Rightarrow> do { c \<leftarrow> bump_bytes c n; eat_until x 10 c }
           | None \<Rightarrow> Some (eat_while (\<lambda>_. True) c)) })"

text \<open>The whitespace and the infostring behind the opening fence.\<close>

definition frontmatter_infostring :: "lex_ext \<Rightarrow> cursor \<Rightarrow> cursor" where
  "frontmatter_infostring x c =
     (let c = eat_while (\<lambda>a. a \<noteq> 10 \<and> is_horizontal_whitespace a) c;
          c = (if is_id_start x (first c)
               then eat_while (\<lambda>a. is_id_continue x a \<or> a = ch CHR ''-'' \<or> a = ch CHR ''.'') (bumped c)
               else c)
      in eat_while (\<lambda>a. a \<noteq> 10 \<and> is_horizontal_whitespace a) c)"

definition frontmatter :: "lex_ext \<Rightarrow> bool \<Rightarrow> cursor \<Rightarrow> (token_kind \<times> cursor) option" where
  "frontmatter x has_invalid_preceding_whitespace c = do {
     rust_assert (ch CHR ''-'' = prev c);
     pos \<leftarrow> pos_within_token c;
     let c = eat_while (\<lambda>a. a = ch CHR ''-'') c;
     pos' \<leftarrow> pos_within_token c;
     eaten \<leftarrow> checked_sub pos' pos;
     length_opening \<leftarrow> checked_add eaten 1;
     rust_assert (3 \<le> length_opening);
     let c = frontmatter_infostring x c;
     let invalid_infostring = (first c \<noteq> 10);
     c \<leftarrow> frontmatter_body x (unat length_opening) c;
     Some (Frontmatter has_invalid_preceding_whitespace invalid_infostring, c) }"

section \<open>One token\<close>

definition one_symbol :: "rchar \<Rightarrow> token_kind option" where
  "one_symbol a =
     map_of
       [(ch CHR '';'', Semi), (ch CHR '','', Comma), (ch CHR ''.'', Dot), (ch CHR ''('', OpenParen),
        (ch CHR '')'', CloseParen), (ch CHR ''{'', OpenBrace), (ch CHR ''}'', CloseBrace),
        (ch CHR ''['', OpenBracket), (ch CHR '']'', CloseBracket), (ch CHR ''@'', At),
        (ch CHR ''#'', Pound), (ch CHR ''~'', Tilde), (ch CHR ''?'', Question),
        (ch CHR '':'', Colon), (ch CHR ''$'', Dollar), (ch CHR ''='', Eq), (ch CHR ''!'', Bang),
        (ch CHR ''<'', Lt), (ch CHR ''>'', Gt), (ch CHR ''-'', Minus), (ch CHR ''&'', And),
        (ch CHR ''|'', Or), (ch CHR ''+'', Plus), (ch CHR ''*'', Star), (ch CHR ''^'', Caret),
        (ch CHR ''%'', Percent)] a"

text \<open>The loop over whitespace where frontmatter may follow; it returns the last character.\<close>

function leading_whitespace :: "rchar \<Rightarrow> cursor \<Rightarrow> rchar \<times> cursor" where
  "leading_whitespace lst c =
     (if is_whitespace (first c) then
        (case bump c of
           (None, d) \<Rightarrow> (lst, d)
         | (Some a, d) \<Rightarrow> leading_whitespace a d)
      else (lst, c))"
  by pat_completeness auto
termination
  by (relation "measure (\<lambda>(l, c). length (chars c))") (auto dest: bump_shorter [OF sym])

declare leading_whitespace.simps [simp del]

definition frontmatter_or_whitespace :: "lex_ext \<Rightarrow> rchar \<Rightarrow> cursor \<Rightarrow> (token_kind \<times> cursor) option" where
  "frontmatter_or_whitespace x first_char c =
     (let (lst, c) = leading_whitespace first_char c in
      if lst \<noteq> 10 \<and> prefix (lit ''---'') (chars c) then frontmatter x True (bumped c)
      else Some (Whitespace, c))"

text \<open>The match on the first character, which has been eaten.\<close>

definition token_of :: "lex_ext \<Rightarrow> rchar \<Rightarrow> cursor \<Rightarrow> (token_kind \<times> cursor) option" where
  "token_of x a c =
     (if frontmatter_ok c = FA_Yes \<and> is_whitespace a then frontmatter_or_whitespace x a c
      else if a = ch CHR ''-'' \<and> frontmatter_ok c = FA_Yes \<and> prefix (lit ''--'') (chars c)
        then frontmatter x False c
      else if a = ch CHR ''/'' then
        if first c = ch CHR ''/'' then line_comment x c
        else if first c = ch CHR ''*'' then block_comment c
        else Some (Slash, c)
      else if is_whitespace a then whitespace c
      else if a = ch CHR ''r'' then
        if first c = ch CHR ''#'' \<and> is_id_start x (second c) then raw_ident x c
        else if first c = ch CHR ''#'' \<or> first c = 34 then raw_literal x 1 Lit_RawStr c
        else ident_or_unknown_prefix x c
      else if a = ch CHR ''b'' then
        c_or_byte_string x Lit_ByteStr Lit_RawByteStr (Some Lit_Byte) c
      else if a = ch CHR ''c'' then c_or_byte_string x Lit_CStr Lit_RawCStr None c
      else if is_id_start x a then ident_or_unknown_prefix x c
      else if is_ascii_digit a then do {
        (kind, c) \<leftarrow> number x a c;
        suffix_start \<leftarrow> pos_within_token c;
        Some (Literal kind suffix_start, eat_literal_suffix x c) }
      else if a = ch CHR ''#'' \<and> (first c = 34 \<or> first c = ch CHR ''#'') then
        Some (GuardedStrPrefix, bumped c)
      else case one_symbol a of
        Some kind \<Rightarrow> Some (kind, c)
      | None \<Rightarrow>
          if a = 39 then lifetime_or_char x c
          else if a = 34 then quoted_literal x double_quoted_string Lit_Str c
          else if non_ascii_emoji x a then Some (invalid_ident x c)
          else Some (Unknown, c))"

definition advance_token :: "lex_ext \<Rightarrow> cursor \<Rightarrow> (token \<times> cursor) option" where
  "advance_token x c =
     (case bump c of
        (None, d) \<Rightarrow> Some (\<lparr>tok_kind = Eof, tok_len = 0\<rparr>, d)
      | (Some first_char, d) \<Rightarrow> do {
          (kind, d) \<leftarrow> token_of x first_char d;
          let d = (if frontmatter_ok d = FA_Yes \<and> kind \<noteq> Whitespace
                   then d\<lparr>frontmatter_ok := FA_No\<rparr> else d);
          len \<leftarrow> pos_within_token d;
          Some (\<lparr>tok_kind = kind, tok_len = len\<rparr>, reset_pos_within_token d) })"

end
