(* ===== verification/Lex_Scan.thy ===== *)
theory Lex_Scan
  imports Lexer
begin

text \<open>
  The contract of the scanners. A scanner only moves the cursor forward, and on a sound cursor
  that satisfies its precondition it does not panic: no debug assertion fires, no string is
  sliced off a character boundary, no counter overflows. The contract is the locale \<open>scanner\<close>;
  every scanner of the lexer is an interpretation of it.
\<close>

section \<open>Moving forward\<close>

definition eats :: "cursor \<Rightarrow> cursor \<Rightarrow> bool" where
  "eats c d \<longleftrightarrow> (\<exists>s. advances c s d)"

definition consumed :: "cursor \<Rightarrow> nat" where
  "consumed c = len_remaining c - str_len (chars c)"

lemma eats_refl [simp, cursor_intros]: "eats c c"
  unfolding eats_def using advances_refl by blast

lemma eats_trans [trans]: "eats c d \<Longrightarrow> eats d e \<Longrightarrow> eats c e"
  unfolding eats_def using advances_trans by blast

lemma eats_bumped [simp, cursor_intros]: "eats c (bumped c)"
  unfolding eats_def by (rule bumped_advances)

lemma eats_bump: "bump c = (r, d) \<Longrightarrow> eats c d"
  using eats_bumped [of c] by simp

lemma eats_then_bumped: "eats c d \<Longrightarrow> eats c (bumped d)"
  using eats_bumped eats_trans by blast

lemma eats_from_bumped: "eats (bumped c) d \<Longrightarrow> eats c d"
  using eats_bumped eats_trans by blast

lemma eats_via_bump:
  "bump c = (r, d) \<Longrightarrow> eats d e \<Longrightarrow> eats c e"
  "bump c = (r, d) \<Longrightarrow> eats (bumped d) e \<Longrightarrow> eats c e"
  using eats_bump eats_from_bumped eats_trans by blast+

lemma eats_eat_while [cursor_intros]: "eats c (eat_while p c)"
  unfolding eats_def using eat_while_advances by blast

lemma eats_then_while: "eats c d \<Longrightarrow> eats c (eat_while p d)"
  using eats_eat_while eats_trans by blast

lemma eats_ok: "eats c d \<Longrightarrow> cursor_ok c \<Longrightarrow> cursor_ok d"
  unfolding eats_def using advances_ok by blast

lemma eats_length: "eats c d \<Longrightarrow> length (chars d) \<le> length (chars c)"
  by (auto simp: eats_def advances_def)

lemma eats_flag: "eats c d \<Longrightarrow> frontmatter_ok d = frontmatter_ok c"
  by (auto simp: eats_def advances_def)

lemma advances_consumed:
  "advances c s d \<Longrightarrow> cursor_ok c \<Longrightarrow> consumed d = consumed c + str_len s"
  by (auto simp: advances_def cursor_ok_def consumed_def)

lemma eats_consumed: "eats c d \<Longrightarrow> cursor_ok c \<Longrightarrow> consumed c \<le> consumed d"
  unfolding eats_def using advances_consumed by fastforce

lemma consumed_less: "cursor_ok c \<Longrightarrow> consumed c < 2 ^ 32"
  unfolding cursor_ok_def consumed_def by linarith

lemma pos_consumed: "cursor_ok c \<Longrightarrow> pos_within_token c = Some (of_nat (consumed c))"
  by (simp add: consumed_def)

lemma eats_bump_bytes: "bump_bytes c n = Some d \<Longrightarrow> eats c d"
  by (auto simp: bump_bytes_def bind_eq_Some_conv eats_def advances_def dest!: str_from_Some)

lemma eats_eat_until: "eat_until x b c = Some d \<Longrightarrow> eats c d"
  by (auto simp: eat_until_def bind_eq_Some_conv eats_def advances_def split: option.splits
      dest!: str_from_Some)

lemma eats_decimal_loop: "eats c (snd (eat_decimal_loop h c))"
proof (induction h c rule: eat_decimal_loop.induct)
  case (1 h c)
  then show ?case by (subst eat_decimal_loop.simps) (auto intro: eats_from_bumped)
qed

lemma eats_hexadecimal_loop: "eats c (snd (eat_hexadecimal_loop h c))"
proof (induction h c rule: eat_hexadecimal_loop.induct)
  case (1 h c)
  then show ?case by (subst eat_hexadecimal_loop.simps) (auto intro: eats_from_bumped)
qed

lemma eats_digits [cursor_intros]:
  "eats c (snd (eat_decimal_digits c))"
  "eats c (snd (eat_hexadecimal_digits c))"
  by (simp_all add: eat_decimal_digits_def eat_hexadecimal_digits_def eats_decimal_loop
      eats_hexadecimal_loop)

lemma eats_single_quoted_loop: "eats c (snd (single_quoted_loop c))"
proof (induction c rule: single_quoted_loop.induct)
  case (1 c)
  then show ?case
    by (subst single_quoted_loop.simps) (auto intro: eats_from_bumped)
qed

lemma eats_double_quoted_loop: "eats c (snd (double_quoted_loop c))"
proof (induction c rule: double_quoted_loop.induct)
  case (1 c)
  then show ?case
    by (subst double_quoted_loop.simps)
      (auto split: option.splits prod.splits intro: eats_bump eats_via_bump)
qed

lemma eats_block_comment_loop: "eats c (snd (block_comment_loop n c))"
proof (induction n c rule: block_comment_loop.induct)
  case (1 n c)
  then show ?case
    by (subst block_comment_loop.simps)
      (auto split: option.splits prod.splits
        intro: eats_bump eats_via_bump eats_then_bumped [OF eats_bump])
qed

lemma eats_leading_whitespace: "eats c (snd (leading_whitespace l c))"
proof (induction l c rule: leading_whitespace.induct)
  case (1 l c)
  then show ?case
    by (subst leading_whitespace.simps)
      (auto split: option.splits prod.splits intro: eats_bump eats_via_bump)
qed

lemma eats_identifier [cursor_intros]:
  "eats c (eat_identifier x c)"
  "eats c (eat_literal_suffix x c)"
  by (simp_all add: eat_identifier_def eat_literal_suffix_def eats_then_while)

lemma eats_count_end_hashes: "eats c (snd (count_end_hashes m n c))"
proof (induction m n c rule: count_end_hashes.induct)
  case (1 m n c)
  then show ?case by (subst count_end_hashes.simps) (auto intro: eats_from_bumped)
qed

lemma eats_count_hashes: "count_hashes n c = Some (m, d) \<Longrightarrow> eats c d"
proof (induction n c rule: count_hashes.induct)
  case (1 n c)
  show ?case
  proof (cases "first c = ch CHR ''#''")
    case True
    with 1(2) obtain k where k: "checked_add n 1 = Some k" "count_hashes k (bumped c) = Some (m, d)"
      by (subst (asm) count_hashes.simps) (auto split: option.splits)
    from 1(1) [OF True k] show ?thesis by (rule eats_from_bumped)
  next
    case False
    with 1(2) show ?thesis by (subst (asm) count_hashes.simps) auto
  qed
qed

lemma eats_raw_string_close:
  "raw_string_close x n c = Some (r, d) \<Longrightarrow> eats c d \<and> (\<forall>m e. r = Some (m, e) \<longrightarrow> eats c e)"
proof -
  assume *: "raw_string_close x n c = Some (r, d)"
  then have d: "eats c d"
    by (auto simp: raw_string_close_def bind_eq_Some_conv split: if_splits intro: eats_eat_until)
  moreover have "eats c e" if "r = Some (m, e)" for m e
  proof -
    have "(m, e) = count_end_hashes n 0 (bumped d)"
      using * that by (auto simp: raw_string_close_def bind_eq_Some_conv split: if_splits)
    then have "eats (bumped d) e" by (metis eats_count_end_hashes snd_conv)
    then show ?thesis using d eats_from_bumped eats_trans by blast
  qed
  ultimately show ?thesis by blast
qed

lemma eats_raw_string_loop: "raw_string_loop x p s n m off c = Some (r, d) \<Longrightarrow> eats c d"
proof (induction x p s n m off c rule: raw_string_loop.induct)
  case (1 x p s n m off c)
  obtain q e where q: "raw_string_close x n c = Some (q, e)"
    using "1.prems" by (subst (asm) raw_string_loop.simps) (auto split: option.splits)
  note close = eats_raw_string_close [OF q]
  show ?case
  proof (cases q)
    case None
    then show ?thesis using "1.prems" q close by (subst (asm) raw_string_loop.simps) auto
  next
    case (Some mf)
    then obtain k f where k: "q = Some (k, f)" by (cases mf) auto
    then have cf: "eats c f" using close by blast
    from "1.prems" show ?thesis
      by (subst (asm) raw_string_loop.simps)
        (use "1.IH" q k cf in \<open>auto split: if_splits option.splits intro: eats_trans [OF cf]\<close>)
  qed
qed

section \<open>Counting hashes\<close>

lemma count_hashes_ok:
  "unat n + length (chars c) < 2 ^ 32 \<Longrightarrow>
   \<exists>d. count_hashes n c = Some (n + of_nat (length (takeWhile (\<lambda>a. a = ch CHR ''#'') (chars c))), d) \<and>
     chars d = dropWhile (\<lambda>a. a = ch CHR ''#'') (chars c) \<and>
     len_remaining d = len_remaining c \<and> frontmatter_ok d = frontmatter_ok c"
proof (induction "chars c" arbitrary: n c)
  case Nil
  then show ?case by (subst count_hashes.simps) (simp add: first_def)
next
  case (Cons a s)
  show ?case
  proof (cases "a = ch CHR ''#''")
    case True
    have one: "unat n + 1 < 2 ^ LENGTH(32)" using Cons.prems Cons.hyps(2) [symmetric] by simp
    then have add: "checked_add n 1 = Some (n + 1)" by (simp add: checked_add_def)
    have "unat (n + 1) = unat n + 1" using one by (simp add: unat_word_ariths)
    moreover have b: "chars (bumped c) = s" "len_remaining (bumped c) = len_remaining c"
        "frontmatter_ok (bumped c) = frontmatter_ok c"
      using Cons.hyps(2) by (auto simp: bump_def split: list.splits)
    ultimately have "unat (n + 1) + length (chars (bumped c)) < 2 ^ 32"
      using Cons.prems Cons.hyps(2) [symmetric] by simp
    from Cons.hyps(1) [OF b(1) [symmetric] this] show ?thesis
      using True add b Cons.hyps(2) [symmetric]
      by (subst count_hashes.simps) (auto simp: first_def add.assoc)
  next
    case False
    then show ?thesis
      using Cons.hyps(2) [symmetric] by (subst count_hashes.simps) (simp add: first_def)
  qed
qed

lemma count_end_hashes_ok:
  assumes "n \<le> m" "count_end_hashes m n c = (k, d)"
  shows "\<exists>j. k = n + of_nat j \<and> unat k = unat n + j \<and> k \<le> m \<and>
    advances c (replicate j (ch CHR ''#'')) d \<and> (k < m \<longrightarrow> first d \<noteq> ch CHR ''#'')"
  using assms
proof (induction m n c rule: count_end_hashes.induct)
  case (1 m n c)
  show ?case
  proof (cases "first c = ch CHR ''#'' \<and> n < m")
    case True
    note n1 = word_inc [OF conjunct2 [OF True]]
    have eq: "count_end_hashes m (n + 1) (bumped c) = (k, d)"
      using "1.prems"(2) True by (subst (asm) count_end_hashes.simps) simp
    from "1.IH" [OF True n1(2) eq] obtain j where
      j: "k = n + 1 + of_nat j" "unat k = unat (n + 1) + j" "k \<le> m"
         "advances (bumped c) (replicate j (ch CHR ''#'')) d" "k < m \<longrightarrow> first d \<noteq> ch CHR ''#''"
      by blast
    have "advances c [ch CHR ''#''] (bumped c)" using bumped_first [of c] True by simp
    from advances_trans [OF this j(4)] have "advances c (replicate (Suc j) (ch CHR ''#'')) d" by simp
    then show ?thesis using j n1 by (intro exI [of _ "Suc j"]) (simp add: algebra_simps)
  next
    case False
    with "1.prems" have "k = n" "d = c" by (subst (asm) count_end_hashes.simps; auto)+
    then show ?thesis
      using False "1.prems"(1) advances_refl [of c] by (intro exI [of _ 0]) auto
  qed
qed

section \<open>The search for the end of a raw string\<close>

lemma eat_until_quote:
  "memchr_first x \<Longrightarrow> cursor_ok c \<Longrightarrow>
   eat_until x 34 c = Some (c\<lparr>chars := dropWhile (\<lambda>a. a \<noteq> 34) (chars c)\<rparr>)"
  using eat_until_ok [of x c 34] by simp

lemma eat_until_newline:
  "memchr_first x \<Longrightarrow> cursor_ok c \<Longrightarrow>
   eat_until x 10 c = Some (c\<lparr>chars := dropWhile (\<lambda>a. a \<noteq> 10) (chars c)\<rparr>)"
  using eat_until_ok [of x c 10] by simp

lemma raw_string_close_eof:
  assumes "memchr_first x" "cursor_ok c" "34 \<notin> set (chars c)"
  shows "\<exists>d. raw_string_close x n c = Some (None, d) \<and> chars d = [] \<and> advances c (chars c) d"
proof -
  have "dropWhile (\<lambda>a. a \<noteq> 34) (chars c) = []"
    using assms(3) by (auto simp: dropWhile_eq_Nil_conv)
  then show ?thesis
    using eat_until_quote [OF assms(1,2)]
    by (auto simp: raw_string_close_def is_eof_def advances_def)
qed

lemma raw_string_close_quote:
  assumes "memchr_first x" "cursor_ok c" "chars c = body @ 34 # t" "34 \<notin> set body"
  shows "\<exists>k d e j. raw_string_close x n c = Some (Some (k, e), d) \<and> unat k = j \<and> k \<le> n \<and>
    advances c (body @ 34 # replicate j (ch CHR ''#'')) e \<and>
    (k < n \<longrightarrow> first e \<noteq> ch CHR ''#'')"
proof -
  have drop: "dropWhile (\<lambda>a. a \<noteq> 34) (chars c) = 34 # t"
    using assms(3,4) by (simp add: dropWhile_append3 dropWhile_append)
  let ?d = "c\<lparr>chars := 34 # t\<rparr>"
  obtain k e where k: "count_end_hashes n 0 (bumped ?d) = (k, e)" by fastforce
  have "raw_string_close x n c = Some (Some (k, e), ?d)"
    using eat_until_quote [OF assms(1,2)] drop k by (simp add: raw_string_close_def is_eof_def)
  moreover have "advances c (body @ [34]) (bumped ?d)"
    using assms(3) by (simp add: advances_def bump_def)
  moreover obtain j where "unat k = j" "k \<le> n" "advances (bumped ?d) (replicate j (ch CHR ''#'')) e"
      "k < n \<longrightarrow> first e \<noteq> ch CHR ''#''"
    using count_end_hashes_ok [OF _ k] by auto
  ultimately show ?thesis by (fastforce dest: advances_trans)
qed

lemma pos_offset_ok:
  assumes "cursor_ok e" "s + unat k \<le> consumed e" "unat p \<le> s"
  shows "\<exists>y. do { q \<leftarrow> pos_within_token e; a \<leftarrow> checked_sub q (of_nat s); b \<leftarrow> checked_sub a k;
    checked_add b p } = Some (y :: u32)"
proof -
  have lt: "consumed e < 2 ^ 32" by (rule consumed_less [OF assms(1)])
  have "checked_sub (of_nat (consumed e)) (of_nat s) = Some (of_nat (consumed e - s) :: u32)"
    by (rule checked_sub_of_nat) (use assms lt in auto)
  moreover have "checked_sub (of_nat (consumed e - s)) (of_nat (unat k)) =
      Some (of_nat (consumed e - s - unat k) :: u32)"
    by (rule checked_sub_of_nat) (use assms lt in auto)
  moreover have "checked_add (of_nat (consumed e - s - unat k)) (of_nat (unat p)) =
      Some (of_nat (consumed e - s - unat k + unat p) :: u32)"
    by (rule checked_add_of_nat) (use assms lt in auto)
  ultimately show ?thesis using pos_consumed [OF assms(1)] by simp
qed

lemma raw_string_loop_total:
  assumes "memchr_first x" "cursor_ok c" "unat p \<le> s" "s \<le> consumed c"
  shows "\<exists>y. raw_string_loop x p (of_nat s) n m off c = Some y"
  using assms(2,4)
proof (induction "length (chars c)" arbitrary: c m off rule: less_induct)
  case less
  show ?case
  proof (cases "34 \<in> set (chars c)")
    case False
    then obtain d where "raw_string_close x n c = Some (None, d)"
      using raw_string_close_eof [OF assms(1) less.prems(1)] by blast
    then show ?thesis by (subst raw_string_loop.simps) simp
  next
    case True
    then obtain body t where "chars c = body @ 34 # t" "34 \<notin> set body" by (metis split_list_first)
    from raw_string_close_quote [OF assms(1) less.prems(1) this] obtain k d e j where
      close: "raw_string_close x n c = Some (Some (k, e), d)" "unat k = j"
      and adv: "advances c (body @ 34 # replicate j (ch CHR ''#'')) e"
      by blast
    have ok: "cursor_ok e" by (rule advances_ok [OF adv less.prems(1)])
    have len: "consumed e = consumed c + str_len body + 1 + j"
      using advances_consumed [OF adv less.prems(1)] str_len_ascii [of "replicate j 35"] by simp
    have shorter: "length (chars e) < length (chars c)" by (rule raw_string_close_shorter [OF close(1)])
    have again: "\<exists>y. raw_string_loop x p (of_nat s) n m' off' e = Some y" for m' off'
      using less.hyps [OF shorter ok] len less.prems(2) by simp
    have "s + unat k \<le> consumed e" using len less.prems(2) close(2) by simp
    from pos_offset_ok [OF ok this assms(3)] again close show ?thesis
      by (subst raw_string_loop.simps) (auto split: option.splits)
  qed
qed

section \<open>The contract\<close>

locale scanner =
  fixes pre :: "cursor \<Rightarrow> bool"
    and scan :: "cursor \<Rightarrow> ('a \<times> cursor) option"
  assumes scan_eats: "scan c = Some (r, d) \<Longrightarrow> eats c d"
    and scan_total: "cursor_ok c \<Longrightarrow> pre c \<Longrightarrow> \<exists>y. scan c = Some y"
begin

lemma scan_ok:
  assumes "cursor_ok c" "pre c"
  shows "\<exists>r d. scan c = Some (r, d) \<and> eats c d \<and> cursor_ok d"
  using scan_total [OF assms] scan_eats eats_ok [OF _ assms(1)] by fastforce

text \<open>The position after a scan is known and counts the bytes since the token began.\<close>

lemma scan_pos:
  assumes "cursor_ok c" "scan c = Some (r, d)"
  shows "pos_within_token d = Some (of_nat (consumed d))" "consumed c \<le> consumed d"
proof -
  have e: "eats c d" by (rule scan_eats [OF assms(2)])
  show "pos_within_token d = Some (of_nat (consumed d))"
    by (rule pos_consumed [OF eats_ok [OF e assms(1)]])
  show "consumed c \<le> consumed d" by (rule eats_consumed [OF e assms(1)])
qed

end

text \<open>A scanner of quoted text: with the suffix that may follow it is a scanner of a token.\<close>

locale quote_scanner = scanner pre scan
  for pre and scan :: "cursor \<Rightarrow> (bool \<times> cursor) option"
begin

lemma literal_eats:
  assumes "quoted_literal x scan mk c = Some (r, d)"
  shows "eats c d"
  using assms eats_identifier(2) eats_trans
  by (fastforce simp: quoted_literal_def bind_eq_Some_conv dest!: scan_eats split: if_splits)

lemma literal_total: "cursor_ok c \<Longrightarrow> pre c \<Longrightarrow> \<exists>y. quoted_literal x scan mk c = Some y"
  using scan_ok [of c] scan_pos [of c] by (fastforce simp: quoted_literal_def)

end

sublocale quote_scanner \<subseteq> literal: scanner pre "quoted_literal x scan mk" for x mk
  by unfold_locales (rule literal_eats literal_total; assumption)+

definition lex_ext_ok :: "lex_ext \<Rightarrow> bool" where
  "lex_ext_ok x \<longleftrightarrow> xid_ascii x \<and> memchr_first x"

section \<open>The scanners keep it\<close>

interpretation single_quoted: quote_scanner "\<lambda>c. prev c = 39" single_quoted_string
proof unfold_locales
  fix c r d assume "single_quoted_string c = Some (r, d)"
  then show "eats c d"
    using eats_single_quoted_loop [of c] eats_then_bumped [OF eats_bumped]
    by (auto simp: single_quoted_string_def bind_eq_Some_conv split: if_splits)
qed (simp add: single_quoted_string_def)

interpretation double_quoted: quote_scanner "\<lambda>c. prev c = 34" double_quoted_string
proof unfold_locales
  fix c r d assume "double_quoted_string c = Some (r, d)"
  then show "eats c d"
    using eats_double_quoted_loop [of c] by (auto simp: double_quoted_string_def bind_eq_Some_conv)
qed (simp add: double_quoted_string_def)

interpretation float_exponent: scanner "\<lambda>c. prev c = ch CHR ''e'' \<or> prev c = ch CHR ''E''"
  eat_float_exponent
proof unfold_locales
  fix c r d assume "eat_float_exponent c = Some (r, d)"
  then show "eats c d"
    using eats_digits(1) [of c] eats_from_bumped [OF eats_digits(1) [of "bumped c"]]
    by (auto simp: eat_float_exponent_def bind_eq_Some_conv split: if_splits)
qed (auto simp: eat_float_exponent_def)

lemma eats_raw_string_unvalidated:
  assumes "raw_string_unvalidated x p c = Some (r, d)"
  shows "eats c d"
proof -
  from assms obtain s n c' where c': "count_hashes 0 c = Some (n, c')"
    and r: "(case bump c' of
        (Some a, d) \<Rightarrow>
          if a = 34 then raw_string_loop x p s n 0 None d else Some (Inl (InvalidStarter a), d)
      | (None, d) \<Rightarrow> Some (Inl (InvalidStarter 0), d)) = Some (r, d)"
    by (auto simp: raw_string_unvalidated_def bind_eq_Some_conv)
  have "eats c' d"
    using r by (auto split: prod.splits option.splits if_splits
        dest!: eats_raw_string_loop intro: eats_bump eats_via_bump)
  then show ?thesis using eats_count_hashes [OF c'] eats_trans by blast
qed

lemma count_hashes_total:
  assumes "cursor_ok c"
  shows "\<exists>n d. count_hashes 0 c = Some (n, d) \<and> eats c d"
proof -
  have "unat (0 :: u32) + length (chars c) < 2 ^ 32"
    using assms length_le_str_len [of "chars c"] unfolding cursor_ok_def by simp
  from count_hashes_ok [OF this] show ?thesis using eats_count_hashes by blast
qed

text \<open>The prefix \<open>r\<close>, \<open>br\<close> or \<open>cr\<close> belongs to the token, so the offset in an error does not overflow.\<close>

interpretation raw_string: scanner
  "\<lambda>c. memchr_first x \<and> prev c = ch CHR ''r'' \<and> unat p \<le> consumed c"
  "raw_string_unvalidated x p" for x p
proof unfold_locales
  fix c r d assume "raw_string_unvalidated x p c = Some (r, d)"
  then show "eats c d" by (rule eats_raw_string_unvalidated)
next
  fix c assume ok: "cursor_ok c"
    and pre: "memchr_first x \<and> prev c = ch CHR ''r'' \<and> unat p \<le> consumed c"
  obtain n c' where c': "count_hashes 0 c = Some (n, c')" "eats c c'"
    using count_hashes_total [OF ok] by blast
  have "\<exists>y. raw_string_loop x p (of_nat (consumed c)) n 0 None d = Some y"
    if "bump c' = (Some 34, d)" for d
  proof (rule raw_string_loop_total)
    have "eats c d" using that c'(2) eats_bump eats_trans by blast
    then show "cursor_ok d" "consumed c \<le> consumed d"
      using ok eats_ok eats_consumed by blast+
  qed (use pre in auto)
  then show "\<exists>y. raw_string_unvalidated x p c = Some y"
    using pre c'(1) pos_consumed [OF ok]
    by (auto simp: raw_string_unvalidated_def split: prod.splits option.splits)
qed

interpretation raw_double_quoted: scanner
  "\<lambda>c. memchr_first x \<and> prev c = ch CHR ''r'' \<and> unat p \<le> consumed c"
  "raw_double_quoted_string x p" for x p
proof unfold_locales
  fix c r d assume *: "raw_double_quoted_string x p c = Some (r, d)"
  then obtain res e where e: "raw_string_unvalidated x p c = Some (res, e)"
    by (cases "raw_string_unvalidated x p c") (auto simp: raw_double_quoted_string_def)
  with * have "e = d" by (cases res) (auto simp: raw_double_quoted_string_def split: if_splits)
  with e show "eats c d" by (blast intro: eats_raw_string_unvalidated)
next
  fix c assume "cursor_ok c" "memchr_first x \<and> prev c = ch CHR ''r'' \<and> unat p \<le> consumed c"
  from raw_string.scan_total [OF this] show "\<exists>y. raw_double_quoted_string x p c = Some y"
    by (auto simp: raw_double_quoted_string_def)
qed

interpretation raw_literal: scanner
  "\<lambda>c. memchr_first x \<and> prev c = ch CHR ''r'' \<and> unat p \<le> consumed c"
  "raw_literal x p mk" for x p mk
proof unfold_locales
  fix c r d assume "raw_literal x p mk c = Some (r, d)"
  then show "eats c d"
    using eats_identifier(2) eats_trans
    by (fastforce simp: raw_literal_def bind_eq_Some_conv dest!: raw_double_quoted.scan_eats split: if_splits)
next
  fix c assume "cursor_ok c" "memchr_first x \<and> prev c = ch CHR ''r'' \<and> unat p \<le> consumed c"
  from raw_double_quoted.scan_ok [OF this] show "\<exists>y. raw_literal x p mk c = Some y"
    by (auto simp: raw_literal_def)
qed

end
