(* ===== verification/Lex_Token.thy ===== *)
theory Lex_Token
  imports Lex_Scan
begin

text \<open>
  The scanners of whole tokens keep the scanner contract, so \<open>advance_token\<close> does not panic and
  eats at least one character before the end of the input. From this follow the termination of
  \<open>tokenize\<close> and its main property: the tokens are a partition of the input.
\<close>

section \<open>Numbers, comments and identifiers\<close>

lemma eats_number_base: "eats c (snd (number_base a c))"
  using eats_digits [of c] eats_from_bumped [OF eats_digits(1) [of "bumped c"]]
    eats_from_bumped [OF eats_digits(2) [of "bumped c"]]
  by (auto simp: number_base_def split: prod.split bool.split)

lemma bumped_prev: "first c \<noteq> 0 \<Longrightarrow> prev (bumped c) = first c"
  using bumped_first by blast

interpretation number_tail: scanner "\<lambda>_. True" "number_tail x bs" for x bs
proof unfold_locales
  fix c r d assume r: "number_tail x bs c = Some (r, d)"
  note dig = eats_from_bumped [OF eats_digits(1) [of "bumped c"]]
  show "eats c d"
  proof (cases "first c = ch CHR ''.'' \<and> second c \<noteq> ch CHR ''.'' \<and> \<not> is_id_start x (second c)")
    case True
    have "eats c d" if "eat_float_exponent (bumped (snd (eat_decimal_digits (bumped c)))) = Some (ok, d)" for ok
      using float_exponent.scan_eats [OF that] dig eats_from_bumped eats_trans by blast
    with r True dig show ?thesis
      by (auto simp: number_tail_def Let_def bind_eq_Some_conv split: if_splits)
  next
    case False
    have "eats c d" if "eat_float_exponent (bumped c) = Some (ok, d)" for ok
      using float_exponent.scan_eats [OF that] by (rule eats_from_bumped)
    with r False show ?thesis by (auto simp: number_tail_def bind_eq_Some_conv split: if_splits)
  qed
next
  fix c :: cursor
  have "\<exists>y. eat_float_exponent (bumped d) = Some y"
    if "first d = ch CHR ''e'' \<or> first d = ch CHR ''E''" for d
    using that bumped_prev [of d] by (auto simp: eat_float_exponent_def)
  then show "\<exists>y. number_tail x bs c = Some y"
    by (fastforce simp: number_tail_def Let_def)
qed

interpretation number: scanner "\<lambda>c. is_ascii_digit (prev c)" "number x a" for x a
proof unfold_locales
  fix c r d assume r: "number x a c = Some (r, d)"
  obtain k e where k: "number_base a c = (k, e)" by fastforce
  then have e: "eats c e" by (metis eats_number_base snd_conv)
  show "eats c d"
    using r k e number_tail.scan_eats eats_trans
    by (cases k) (auto simp: number_def bind_eq_Some_conv)
next
  fix c assume ok: "cursor_ok c" and pre: "is_ascii_digit (prev c)"
  obtain k e where k: "number_base a c = (k, e)" by fastforce
  then have "cursor_ok e" using ok eats_ok eats_number_base by (metis snd_conv)
  then have "\<exists>y. number_tail x bs e = Some y" for bs by (rule number_tail.scan_total) simp
  then show "\<exists>y. number x a c = Some y"
    using pre k by (cases k) (simp_all add: number_def is_ascii_digit_def)
qed

interpretation line_comment: scanner
  "\<lambda>c. memchr_first x \<and> prev c = ch CHR ''/'' \<and> first c = ch CHR ''/''" "line_comment x" for x
proof unfold_locales
  fix c r d assume "line_comment x c = Some (r, d)"
  then have "eat_until x 10 (bumped c) = Some d"
    by (auto simp: line_comment_def Let_def bind_eq_Some_conv)
  then show "eats c d" by (blast intro: eats_eat_until eats_from_bumped)
next
  fix c assume "cursor_ok c" "memchr_first x \<and> prev c = ch CHR ''/'' \<and> first c = ch CHR ''/''"
  then show "\<exists>y. line_comment x c = Some y"
    using eat_until_newline [of x "bumped c"] eats_ok [OF eats_bumped]
    by (simp add: line_comment_def Let_def)
qed

interpretation block_comment: scanner
  "\<lambda>c. prev c = ch CHR ''/'' \<and> first c = ch CHR ''*''" block_comment
proof unfold_locales
  fix c r d assume "block_comment c = Some (r, d)"
  then show "eats c d"
    using eats_from_bumped [OF eats_block_comment_loop [of "bumped c" 1]]
    by (auto simp: block_comment_def Let_def bind_eq_Some_conv split: prod.splits)
qed (auto simp: block_comment_def Let_def split: prod.splits)

interpretation whitespace: scanner "\<lambda>c. is_whitespace (prev c)" whitespace
proof unfold_locales
  fix c r d assume "whitespace c = Some (r, d)"
  then show "eats c d" by (auto simp: whitespace_def bind_eq_Some_conv intro: eats_eat_while)
qed (simp add: whitespace_def)

interpretation raw_ident: scanner
  "\<lambda>c. prev c = ch CHR ''r'' \<and> first c = ch CHR ''#'' \<and> is_id_start x (second c)" "raw_ident x" for x
proof unfold_locales
  fix c r d assume "raw_ident x c = Some (r, d)"
  then show "eats c d"
    by (auto simp: raw_ident_def bind_eq_Some_conv intro: eats_from_bumped eats_identifier)
qed (simp add: raw_ident_def)

interpretation ident: scanner "\<lambda>c. is_id_start x (prev c)" "ident_or_unknown_prefix x" for x
proof unfold_locales
  fix c r d assume "ident_or_unknown_prefix x c = Some (r, d)"
  then show "eats c d"
    by (auto simp: ident_or_unknown_prefix_def invalid_ident_def Let_def bind_eq_Some_conv
        split: if_splits intro: eats_eat_while eats_then_while)
qed (simp add: ident_or_unknown_prefix_def Let_def)

lemma xid_ascii_letter: "xid_ascii x \<Longrightarrow> is_ascii_alphabetic a \<Longrightarrow> is_id_start x a"
  by (auto simp: xid_ascii_def is_id_start_def is_ascii_alphabetic_def)

text \<open>The precondition in \<open>c_or_byte_string\<close>: the cursor is behind a \<open>b\<close> or \<open>c\<close> of the token.\<close>

interpretation byte_string: scanner
  "\<lambda>c. lex_ext_ok x \<and> is_ascii_alphabetic (prev c) \<and> 0 < consumed c"
  "c_or_byte_string x mk mkr sq" for x mk mkr sq
proof unfold_locales
  fix c r d assume r: "c_or_byte_string x mk mkr sq c = Some (r, d)"
  show "eats c d"
    using r single_quoted.literal.scan_eats double_quoted.literal.scan_eats
      raw_literal.scan_eats ident.scan_eats eats_from_bumped
    by (fastforce simp: c_or_byte_string_def split: bool.splits option.splits if_splits)
next
  fix c assume ok: "cursor_ok c"
    and pre: "lex_ext_ok x \<and> is_ascii_alphabetic (prev c) \<and> 0 < consumed c"
  have okb: "cursor_ok (bumped c)" using ok eats_ok eats_bumped by blast
  have "consumed (bumped c) = consumed c + 1" if "first c = ch CHR ''r''"
    using advances_consumed [OF conjunct1 [OF bumped_first] ok] that by simp
  then have raw: "\<exists>y. raw_literal x 2 mkr (bumped c) = Some y" if "first c = ch CHR ''r''"
    using raw_literal.scan_total [OF okb, of x 2] bumped_prev [of c] that pre
    by (simp add: lex_ext_ok_def)
  have "\<exists>y. quoted_literal x single_quoted_string m (bumped c) = Some y" if "first c = 39" for m
    using single_quoted.literal.scan_total [OF okb] bumped_prev [of c] that by simp
  moreover have "\<exists>y. quoted_literal x double_quoted_string m (bumped c) = Some y" if "first c = 34" for m
    using double_quoted.literal.scan_total [OF okb] bumped_prev [of c] that by simp
  moreover have "\<exists>y. ident_or_unknown_prefix x c = Some y"
    using ident.scan_total [OF ok] xid_ascii_letter pre by (simp add: lex_ext_ok_def)
  ultimately show "\<exists>y. c_or_byte_string x mk mkr sq c = Some y"
    using raw by (simp add: c_or_byte_string_def split: bool.split option.split)
qed

interpretation lifetime: scanner "\<lambda>c. prev c = 39" "lifetime_or_char x" for x
proof unfold_locales
  fix c r d assume r: "lifetime_or_char x c = Some (r, d)"
  have w: "eats c (eat_while (is_id_continue x) (bumped c))"
    "eats c (bumped (eat_while (is_id_continue x) (bumped c)))"
    "eats c (eat_while (is_id_continue x) (bumped (bumped (bumped c))))"
    by (blast intro: eats_then_while eats_then_bumped eats_refl)+
  show "eats c d"
  proof (cases "quoted_literal x single_quoted_string Lit_Char c = Some (r, d)")
    case True
    then show ?thesis by (rule single_quoted.literal.scan_eats)
  next
    case False
    with r w show ?thesis
      by (auto simp: lifetime_or_char_def Let_def bind_eq_Some_conv split: if_splits)
  qed
next
  fix c assume "cursor_ok c" "prev c = 39"
  moreover from this have "cursor_ok (bumped (eat_while (is_id_continue x) (bumped c)))"
    by (blast intro: eats_ok eats_then_bumped eats_then_while eats_bumped)
  ultimately show "\<exists>y. lifetime_or_char x c = Some y"
    using single_quoted.literal.scan_total [of c x Lit_Char]
    by (auto simp: lifetime_or_char_def Let_def)
qed

section \<open>Frontmatter\<close>

text \<open>An offset at which a string can be cut.\<close>

definition boundary :: "rstr \<Rightarrow> nat \<Rightarrow> bool" where
  "boundary s n \<longleftrightarrow> (\<exists>p t. s = p @ t \<and> n = str_len p)"

lemma boundary_str_from: "boundary s n \<Longrightarrow> \<exists>t. str_from s n = Some t"
  by (auto simp: boundary_def)

lemma boundary_find:
  assumes "str_find s pat = Some i"
  shows "boundary s i" "boundary s (i + str_len pat)"
proof -
  from str_find_Some [OF assms] obtain p q where *: "s = p @ pat @ q" "i = str_len p" by blast
  then show "boundary s i" by (auto simp: boundary_def)
  have "s = (p @ pat) @ q \<and> i + str_len pat = str_len (p @ pat)" using * by simp
  then show "boundary s (i + str_len pat)" unfolding boundary_def by blast
qed

lemma boundary_find_newline:
  assumes "str_find s (10 # pat) = Some i"
  shows "boundary s (i + 1)"
proof -
  from str_find_Some [OF assms] obtain p q where "s = (p @ [10]) @ pat @ q" "i + 1 = str_len (p @ [10])"
    by auto
  then show ?thesis unfolding boundary_def by blast
qed

lemma find_dashes_preceding:
  assumes "str_find rest pat = Some closing"
  shows "\<exists>pre. do { upto \<leftarrow> str_to rest closing;
      str_slice rest (case str_rfind upto [10] of None \<Rightarrow> 0 | Some i \<Rightarrow> i + 1) closing } = Some pre"
proof -
  from str_find_Some [OF assms] obtain p q where *: "rest = p @ pat @ q" "closing = str_len p" by blast
  then have upto: "str_to rest closing = Some p" by simp
  show ?thesis
  proof (cases "str_rfind p [10]")
    case None
    then show ?thesis using upto * by (simp add: str_slice_def)
  next
    case (Some i)
    from str_rfind_Some [OF this] obtain a b where ab: "p = a @ [10] @ b" "i = str_len a" by blast
    have "str_from rest (i + 1) = Some (b @ pat @ q)"
      using str_from_str_len [of "a @ [10]" "b @ pat @ q"] * ab by simp
    moreover have "closing - (i + 1) = str_len b" "i + 1 \<le> closing" using * ab by auto
    ultimately show ?thesis using upto Some by (simp add: str_slice_def)
  qed
qed

lemma find_dashes_ok:
  "\<exists>r. find_dashes b rest = Some r \<and> (\<forall>n. r = Some n \<longrightarrow> (\<exists>m. n = b + m \<and> boundary rest m))"
proof (induction b rest rule: find_dashes.induct)
  case (1 b rest)
  show ?case
  proof (cases "str_find rest (lit ''---'')")
    case None
    then show ?thesis by (subst find_dashes.simps) simp
  next
    case (Some closing)
    obtain pre where pre: "do { upto \<leftarrow> str_to rest closing;
      str_slice rest (case str_rfind upto [10] of None \<Rightarrow> 0 | Some i \<Rightarrow> i + 1) closing } = Some pre"
      using find_dashes_preceding [OF Some] by blast
    show ?thesis
    proof (cases "list_all is_horizontal_whitespace pre")
      case True
      then have "find_dashes b rest = Some (Some (b + closing))"
        using Some pre by (subst find_dashes.simps) (simp add: add.commute)
      then show ?thesis using boundary_find(1) [OF Some] by auto
    next
      case False
      have "boundary rest (closing + 3)" using boundary_find(2) [OF Some] by (simp add: numeral_3_eq_3)
      then obtain p t where t: "rest = p @ t" "closing + 3 = str_len p" by (auto simp: boundary_def)
      then have cut: "str_from rest (closing + 3) = Some t" by simp
      have eq: "find_dashes b rest = find_dashes (b + (closing + 3)) t"
        using Some pre False cut by (subst find_dashes.simps) simp
      from "1.IH" [OF Some pre False cut] obtain r where
        r: "find_dashes (b + (closing + 3)) t = Some r"
           "\<forall>n. r = Some n \<longrightarrow> (\<exists>m. n = b + (closing + 3) + m \<and> boundary t m)" by blast
      have "boundary rest (closing + 3 + m)" if "boundary t m" for m
        using that t unfolding boundary_def by (metis append.assoc str_len_simps(3))
      then show ?thesis using eq r by (metis add.assoc)
    qed
  qed
qed

lemma frontmatter_recovery_ok:
  "\<exists>r. frontmatter_recovery rest = Some r \<and> (\<forall>n. r = Some n \<longrightarrow> boundary rest n)"
  using find_dashes_ok [of 0 rest] boundary_find(1) boundary_find_newline
  by (fastforce simp: frontmatter_recovery_def split: option.split)

lemma bump_bytes_ok: "boundary (chars c) n \<Longrightarrow> \<exists>d. bump_bytes c n = Some d"
  using boundary_str_from by (fastforce simp: bump_bytes_def)

lemma eats_frontmatter_body: "frontmatter_body x n c = Some d \<Longrightarrow> eats c d"
  using eats_trans [OF eats_bump_bytes eats_eat_until]
  by (auto simp: frontmatter_body_def Let_def bind_eq_Some_conv split: option.splits
      intro: eats_eat_while)

lemma eat_until_newline_total:
  "memchr_first x \<Longrightarrow> cursor_ok c \<Longrightarrow> bump_bytes c n = Some d \<Longrightarrow> \<exists>e. eat_until x 10 d = Some e"
  using eat_until_newline eats_bump_bytes eats_ok by blast

lemma frontmatter_body_total:
  assumes "memchr_first x" "cursor_ok c"
  shows "\<exists>d. frontmatter_body x n c = Some d"
proof -
  let ?pat = "10 # replicate n (ch CHR ''-'')"
  have go: "\<exists>e. do { d \<leftarrow> bump_bytes c i; eat_until x 10 d } = Some e" if "boundary (chars c) i" for i
    using bump_bytes_ok [OF that] eat_until_newline_total [OF assms] by fastforce
  show ?thesis
  proof (cases "str_find (chars c) ?pat")
    case (Some i)
    then show ?thesis using go [OF boundary_find(2) [OF Some]] by (simp add: frontmatter_body_def)
  next
    case None
    obtain r where "frontmatter_recovery (chars c) = Some r" "\<forall>n. r = Some n \<longrightarrow> boundary (chars c) n"
      using frontmatter_recovery_ok by blast
    then show ?thesis using go None by (cases r) (simp_all add: frontmatter_body_def)
  qed
qed

lemma eats_infostring: "eats c (frontmatter_infostring x c)"
  unfolding frontmatter_infostring_def Let_def
  by (simp add: eats_then_while eats_then_bumped eats_eat_while)

text \<open>The caller guarantees that at least three dashes open the frontmatter.\<close>

interpretation frontmatter: scanner
  "\<lambda>c. memchr_first x \<and> prev c = ch CHR ''-'' \<and> prefix (lit ''--'') (chars c) \<and> 0 < consumed c"
  "frontmatter x w" for x w
proof unfold_locales
  fix c r d assume "frontmatter x w c = Some (r, d)"
  then obtain n where "frontmatter_body x n
      (frontmatter_infostring x (eat_while (\<lambda>a. a = ch CHR ''-'') c)) = Some d"
    by (auto simp: frontmatter_def Let_def bind_eq_Some_conv)
  from eats_trans [OF eats_trans [OF eats_eat_while eats_infostring] eats_frontmatter_body [OF this]]
  show "eats c d" .
next
  fix c assume ok: "cursor_ok c"
    and pre: "memchr_first x \<and> prev c = ch CHR ''-'' \<and> prefix (lit ''--'') (chars c) \<and> 0 < consumed c"
  let ?d = "eat_while (\<lambda>a. a = ch CHR ''-'') c"
  let ?n = "str_len (takeWhile (\<lambda>a. a = ch CHR ''-'') (chars c))"
  have okd: "cursor_ok ?d" using ok eats_eat_while eats_ok by blast
  have cons: "consumed ?d = consumed c + ?n" by (rule advances_consumed [OF eat_while_advances ok])
  have n: "?n + 1 < 2 ^ 32" "2 \<le> ?n" "consumed ?d < 2 ^ 32"
    using cons consumed_less [OF okd] pre by (auto simp: prefix_def)
  have sub: "checked_sub (of_nat (consumed ?d)) (of_nat (consumed c)) = Some (of_nat ?n :: u32)"
    using checked_sub_of_nat [of "consumed c" "consumed ?d", where 'a = 32] cons n by simp
  have un: "unat (of_nat (?n + 1) :: u32) = ?n + 1" by (rule unat_of_nat_less) (use n in simp)
  obtain l :: u32 where add: "checked_add (of_nat ?n) 1 = Some l" and l: "unat l = ?n + 1"
    using checked_add_of_nat [of ?n 1, where 'a = 32] n(1) un by fastforce
  have three: "3 \<le> l" using l n(2) by (simp add: word_le_nat_alt)
  obtain y where "frontmatter_body x (unat l) (frontmatter_infostring x ?d) = Some y"
    using frontmatter_body_total pre eats_ok [OF eats_infostring okd] by blast
  then show "\<exists>y. frontmatter x w c = Some y"
    using pos_consumed [OF ok] pos_consumed [OF okd] sub add three pre
    by (simp add: frontmatter_def Let_def)
qed

section \<open>One token\<close>

lemma leading_whitespace_ok:
  assumes "cursor_ok c" "leading_whitespace a c = (l, d)"
  shows "eats c d" "cursor_ok d"
  using eats_leading_whitespace [of c a] eats_ok assms by force+

interpretation frontmatter_or_whitespace: scanner "\<lambda>c. memchr_first x \<and> 0 < consumed c"
  "frontmatter_or_whitespace x a" for x a
proof unfold_locales
  fix c r d assume r: "frontmatter_or_whitespace x a c = Some (r, d)"
  obtain l e where l: "leading_whitespace a c = (l, e)" by fastforce
  have e: "eats c e" using eats_leading_whitespace [of c a] l by simp
  have "eats c d" if "frontmatter x True (bumped e) = Some (r, d)"
    using frontmatter.scan_eats [OF that] e eats_from_bumped eats_trans by blast
  then show "eats c d"
    using r l e by (auto simp: frontmatter_or_whitespace_def split: if_splits)
next
  fix c assume ok: "cursor_ok c" and pre: "memchr_first x \<and> 0 < consumed c"
  obtain l e where l: "leading_whitespace a c = (l, e)" by fastforce
  note e = leading_whitespace_ok [OF ok l]
  have "\<exists>y. frontmatter x True (bumped e) = Some y" if "prefix (lit ''---'') (chars e)"
  proof (rule frontmatter.scan_total)
    show "cursor_ok (bumped e)" using e eats_ok eats_bumped by blast
    from that obtain t where t: "chars e = lit ''---'' @ t" by (auto simp: prefix_def)
    have "0 < consumed (bumped e)"
      using pre eats_consumed [OF eats_then_bumped [OF e(1)] ok] by simp
    then show "memchr_first x \<and> prev (bumped e) = ch CHR ''-'' \<and>
        prefix (lit ''--'') (chars (bumped e)) \<and> 0 < consumed (bumped e)"
      using pre t by (simp add: bump_def)
  qed
  then show "\<exists>y. frontmatter_or_whitespace x a c = Some y"
    using l by (auto simp: frontmatter_or_whitespace_def)
qed

text \<open>The first character of the token has just been eaten.\<close>

definition token_started :: "rchar \<Rightarrow> cursor \<Rightarrow> bool" where
  "token_started a c \<longleftrightarrow> prev c = a \<and> 0 < consumed c"

lemma token_of_eats:
  assumes r: "token_of x a c = Some (k, d)"
  shows "eats c d"
proof -
  have num: "eats c (eat_literal_suffix x e)" if "number x a c = Some (l, e)" for l e
    using number.scan_eats [OF that] eats_identifier(2) eats_trans by blast
  have inv: "eats c (snd (invalid_ident x c))" by (simp add: invalid_ident_def eats_eat_while)
  show ?thesis
    using r num inv
    by (auto simp: token_of_def bind_eq_Some_conv split: if_splits option.splits
        dest: frontmatter_or_whitespace.scan_eats frontmatter.scan_eats line_comment.scan_eats
          block_comment.scan_eats whitespace.scan_eats raw_ident.scan_eats raw_literal.scan_eats
          ident.scan_eats byte_string.scan_eats lifetime.scan_eats double_quoted.literal.scan_eats)
qed

lemma token_of_total:
  assumes ok: "cursor_ok c" and x: "lex_ext_ok x" and st: "token_started a c"
  shows "\<exists>y. token_of x a c = Some y"
proof -
  have m: "memchr_first x" and xid: "xid_ascii x" using x by (auto simp: lex_ext_ok_def)
  have prev: "prev c = a" and pos: "0 < consumed c" using st by (auto simp: token_started_def)
  have "\<exists>y. frontmatter_or_whitespace x a c = Some y"
    by (rule frontmatter_or_whitespace.scan_total [OF ok]) (simp add: m pos)
  moreover have "\<exists>y. frontmatter x False c = Some y"
    if "a = ch CHR ''-''" "prefix (lit ''--'') (chars c)"
    using frontmatter.scan_total [OF ok] m pos prev that by simp
  moreover have "\<exists>y. line_comment x c = Some y" if "a = ch CHR ''/''" "first c = ch CHR ''/''"
    using line_comment.scan_total [OF ok] m prev that by simp
  moreover have "\<exists>y. block_comment c = Some y" if "a = ch CHR ''/''" "first c = ch CHR ''*''"
    using block_comment.scan_total [OF ok] prev that by simp
  moreover have "\<exists>y. whitespace c = Some y" if "is_whitespace a"
    using whitespace.scan_total [OF ok] prev that by simp
  moreover have "\<exists>y. raw_ident x c = Some y"
    if "a = ch CHR ''r''" "first c = ch CHR ''#''" "is_id_start x (second c)"
    using raw_ident.scan_total [OF ok] prev that by simp
  moreover have "\<exists>y. raw_literal x 1 Lit_RawStr c = Some y" if "a = ch CHR ''r''"
    using raw_literal.scan_total [OF ok, of x 1] m prev pos that by (simp add: Suc_le_eq)
  moreover have "\<exists>y. ident_or_unknown_prefix x c = Some y" if "is_id_start x a"
    using ident.scan_total [OF ok] prev that by simp
  moreover have "is_id_start x (ch CHR ''r'')"
    by (rule xid_ascii_letter [OF xid]) (simp add: is_ascii_alphabetic_def)
  moreover have "\<exists>y. c_or_byte_string x mk mkr sq c = Some y"
    if "a = ch CHR ''b'' \<or> a = ch CHR ''c''" for mk mkr sq
    using byte_string.scan_total [OF ok, of x] x prev pos that by (auto simp: is_ascii_alphabetic_def)
  moreover have "\<exists>y. lifetime_or_char x c = Some y" if "a = 39"
    using lifetime.scan_total [OF ok] prev that by simp
  moreover have "\<exists>y. quoted_literal x double_quoted_string Lit_Str c = Some y" if "a = 34"
    using double_quoted.literal.scan_total [OF ok] prev that by simp
  moreover have "\<exists>y. do { (kind, d) \<leftarrow> number x a c; suffix_start \<leftarrow> pos_within_token d;
      Some (Literal kind suffix_start, eat_literal_suffix x d) } = Some y" if "is_ascii_digit a"
    using number.scan_ok [OF ok, of x a] prev that by fastforce
  ultimately show ?thesis unfolding token_of_def by (simp split: option.split)
qed

end
