(* ===== verification/Lex_Tokenize.thy ===== *)
theory Lex_Tokenize
  imports Lex_Token
begin

text \<open>
  The entry points of \<open>rustc_lexer\<close>: \<open>tokenize\<close>, \<open>strip_shebang\<close> and \<open>validate_raw_str\<close>, and what
  they promise. The iterator that \<open>tokenize\<close> returns is the list of the tokens it yields.
\<close>

section \<open>One token makes progress\<close>

lemma quoted_literal_kind: "quoted_literal x f mk c = Some (k, d) \<Longrightarrow> \<exists>l n. k = Literal l n"
  by (auto simp: quoted_literal_def bind_eq_Some_conv)

lemma raw_literal_kind: "raw_literal x p mk c = Some (k, d) \<Longrightarrow> \<exists>l n. k = Literal l n"
  by (auto simp: raw_literal_def bind_eq_Some_conv)

lemma ident_kind:
  "ident_or_unknown_prefix x c = Some (k, d) \<Longrightarrow> k \<in> {Ident, UnknownPrefix, InvalidIdent}"
  by (auto simp: ident_or_unknown_prefix_def invalid_ident_def Let_def bind_eq_Some_conv
      split: if_splits)

lemma byte_string_kind:
  "c_or_byte_string x mk mkr sq c = Some (k, d) \<Longrightarrow>
   (\<exists>l n. k = Literal l n) \<or> ident_or_unknown_prefix x c = Some (k, d)"
  by (auto simp: c_or_byte_string_def split: bool.splits option.splits if_splits
      dest: quoted_literal_kind raw_literal_kind)

lemma lifetime_kind:
  "lifetime_or_char x c = Some (k, d) \<Longrightarrow>
   (\<exists>l n. k = Literal l n) \<or> k \<in> {RawLifetime, UnknownPrefixLifetime} \<or> (\<exists>n. k = Lifetime n)"
  by (auto simp: lifetime_or_char_def Let_def bind_eq_Some_conv split: if_splits
      dest: quoted_literal_kind)

lemma frontmatter_kind: "frontmatter x w c = Some (k, d) \<Longrightarrow> \<exists>u v. k = Frontmatter u v"
  by (auto simp: frontmatter_def Let_def bind_eq_Some_conv)

lemma frontmatter_or_whitespace_kind:
  "frontmatter_or_whitespace x a c = Some (k, d) \<Longrightarrow> k = Whitespace \<or> (\<exists>u v. k = Frontmatter u v)"
  by (auto simp: frontmatter_or_whitespace_def split: prod.splits if_splits dest: frontmatter_kind)

lemma comment_kind:
  "line_comment x c = Some (k, d) \<Longrightarrow> \<exists>s. k = LineComment s"
  "block_comment c = Some (k, d) \<Longrightarrow> \<exists>s t. k = BlockComment s t"
  "whitespace c = Some (k, d) \<Longrightarrow> k = Whitespace"
  "raw_ident x c = Some (k, d) \<Longrightarrow> k = RawIdent"
  by (auto simp: line_comment_def block_comment_def whitespace_def raw_ident_def Let_def
      bind_eq_Some_conv split: prod.splits)

lemma one_symbol_kind: "one_symbol a = Some k \<Longrightarrow> k \<notin> {Eof, Ident, Whitespace}"
  by (auto simp: one_symbol_def split: if_splits)

lemmas scanner_kinds = quoted_literal_kind raw_literal_kind ident_kind byte_string_kind
  lifetime_kind frontmatter_kind frontmatter_or_whitespace_kind comment_kind one_symbol_kind

text \<open>No token is \<open>Eof\<close>, and the kind \<open>Ident\<close> comes from one scanner only.\<close>

lemma token_of_kind:
  assumes "token_of x a c = Some (k, d)"
  shows "k \<noteq> Eof" "k = Ident \<Longrightarrow> ident_or_unknown_prefix x c = Some (k, d)"
  using assms
  by (auto simp: token_of_def invalid_ident_def bind_eq_Some_conv split: if_splits option.splits
      dest!: scanner_kinds)

lemma advance_token_cases:
  assumes "advance_token x c = Some (t, d)"
  obtains (at_eof) "chars c = []" "t = \<lparr>tok_kind = Eof, tok_len = 0\<rparr>" "d = c"
  | (tok) a s where "chars c = a # s @ chars d" "tok_kind t \<noteq> Eof"
      "len_remaining d = str_len (chars d)"
proof (cases "chars c")
  case Nil
  then have "t = \<lparr>tok_kind = Eof, tok_len = 0\<rparr>" "d = c"
    using assms by (simp_all add: advance_token_def bump_def)
  then show ?thesis by (rule at_eof [OF Nil])
next
  case (Cons a s)
  let ?b = "c\<lparr>chars := s, prev := a\<rparr>"
  from assms Cons obtain k e where k: "token_of x a ?b = Some (k, e)"
    by (cases "token_of x a ?b") (auto simp: advance_token_def bump_def)
  with assms Cons have t: "tok_kind t = k" "chars d = chars e" "len_remaining d = str_len (chars d)"
    by (auto simp: advance_token_def bump_def Let_def bind_eq_Some_conv reset_pos_within_token_def
        split: if_splits)
  from token_of_eats [OF k] obtain p where "chars ?b = p @ chars e" by (auto simp: eats_def advances_def)
  then show ?thesis using tok [of a p] t Cons token_of_kind(1) [OF k] by simp
qed

function tokens_from :: "lex_ext \<Rightarrow> cursor \<Rightarrow> token list option" where
  "tokens_from x c =
     (case advance_token x c of
        None \<Rightarrow> None
      | Some (t, d) \<Rightarrow> if tok_kind t \<noteq> Eof then map_option ((#) t) (tokens_from x d) else Some [])"
  by pat_completeness auto
termination
  by (relation "measure (\<lambda>(x, c). length (chars c))") (auto elim: advance_token_cases)

declare tokens_from.simps [simp del]

definition tokenize :: "lex_ext \<Rightarrow> rstr \<Rightarrow> frontmatter_allowed \<Rightarrow> token list option" where
  "tokenize x input fa = tokens_from x (cursor_new input fa)"

text \<open>The first kind that is neither whitespace nor a comment without documentation.\<close>

definition skipped_kind :: "token_kind \<Rightarrow> bool" where
  "skipped_kind k = (case k of
       Whitespace \<Rightarrow> True
     | LineComment None \<Rightarrow> True
     | BlockComment None _ \<Rightarrow> True
     | _ \<Rightarrow> False)"

definition strip_shebang :: "lex_ext \<Rightarrow> rstr \<Rightarrow> nat option option" where
  "strip_shebang x input =
     (if prefix (lit ''#!'') input then do {
        let input_tail = drop 2 input;
        toks \<leftarrow> tokenize x input_tail FA_No;
        Some (if find (\<lambda>k. \<not> skipped_kind k) (map tok_kind toks) \<noteq> Some OpenBracket
              then Some (2 + str_len (first_line input_tail)) else None) }
      else Some None)"

text \<open>\<open>for _ in 0..n { cursor.bump().unwrap(); }\<close>\<close>

fun bump_times :: "nat \<Rightarrow> cursor \<Rightarrow> cursor option" where
  "bump_times 0 c = Some c"
| "bump_times (Suc n) c =
     (case bump c of (None, _) \<Rightarrow> None | (Some _, d) \<Rightarrow> bump_times n d)"

definition validate_raw_str :: "lex_ext \<Rightarrow> rstr \<Rightarrow> u32 \<Rightarrow> (raw_str_error + unit) option" where
  "validate_raw_str x input prefix_len = do {
     rust_assert (input \<noteq> []);
     c \<leftarrow> bump_times (unat prefix_len) (cursor_new input FA_No);
     (res, _) \<leftarrow> raw_double_quoted_string x prefix_len c;
     Some (case res of Inl err \<Rightarrow> Inl err | Inr _ \<Rightarrow> Inr ()) }"

section \<open>Tokens partition the input\<close>

text \<open>A cursor between two tokens.\<close>

definition fresh :: "cursor \<Rightarrow> bool" where
  "fresh c \<longleftrightarrow> cursor_ok c \<and> len_remaining c = str_len (chars c)"

lemma fresh_new:
  "str_len s < 2 ^ 32 \<Longrightarrow> (\<And>a. a \<in> set s \<Longrightarrow> is_scalar_value a) \<Longrightarrow> fresh (cursor_new s fa)"
  using cursor_new_ok [of s fa] by (simp add: fresh_def cursor_new_def)

lemma advance_token_ok:
  assumes x: "lex_ext_ok x" and c: "fresh c" and cs: "chars c = a # s"
  shows "\<exists>k e p. token_of x a (c\<lparr>chars := s, prev := a\<rparr>) = Some (k, e) \<and> s = p @ chars e \<and>
    (\<exists>d. advance_token x c = Some (\<lparr>tok_kind = k, tok_len = of_nat (str_len (a # p))\<rparr>, d) \<and>
      chars d = chars e \<and> fresh d \<and>
      frontmatter_ok d = (if k = Whitespace then frontmatter_ok c else FA_No))"
proof -
  let ?b = "c\<lparr>chars := s, prev := a\<rparr>"
  have b: "advances c [a] ?b" using cs by (simp add: advances_def)
  have okc: "cursor_ok c" and c0: "consumed c = 0" using c by (auto simp: fresh_def consumed_def)
  have okb: "cursor_ok ?b" by (rule advances_ok [OF b okc])
  have "0 < consumed ?b" using advances_consumed [OF b okc] c0 by simp
  then have "token_started a ?b" by (simp add: token_started_def)
  then obtain k e where k: "token_of x a ?b = Some (k, e)"
    using token_of_total [OF okb x] by fastforce
  then obtain p where p: "advances ?b p e" using token_of_eats unfolding eats_def by blast
  have oke: "cursor_ok e" by (rule advances_ok [OF p okb])
  have len: "len_remaining e - str_len (chars e) = str_len (a # p)"
    using advances_consumed [OF p okb] advances_consumed [OF b okc] c0 by (simp add: consumed_def)
  have flag: "frontmatter_ok e = frontmatter_ok c" using p by (simp add: advances_def)
  have bump: "bump c = (Some a, ?b)" using cs by (simp add: bump_def)
  have pos: "pos_within_token (e\<lparr>frontmatter_ok := f\<rparr>) = Some (of_nat (str_len (a # p)))" for f
    using oke len by (simp add: pos_within_token_def cursor_ok_def)
  let ?f = "if frontmatter_ok e = FA_Yes \<and> k \<noteq> Whitespace then FA_No else frontmatter_ok e"
  have adv: "advance_token x c = Some (\<lparr>tok_kind = k, tok_len = of_nat (str_len (a # p))\<rparr>,
      reset_pos_within_token (e\<lparr>frontmatter_ok := ?f\<rparr>))"
    using bump k pos [of FA_No] pos [of "frontmatter_ok e"] by (simp add: advance_token_def Let_def)
  have fr: "fresh (reset_pos_within_token (e\<lparr>frontmatter_ok := ?f\<rparr>))"
    using oke by (simp add: fresh_def cursor_ok_def reset_pos_within_token_def)
  have "?f = (if k = Whitespace then frontmatter_ok c else FA_No)"
    using flag by (cases "frontmatter_ok c") auto
  then show ?thesis
    using k p adv fr by (auto simp: advances_def reset_pos_within_token_def)
qed

lemma tokens_from_partition:
  assumes "lex_ext_ok x" "fresh c"
  shows "\<exists>ts ps. tokens_from x c = Some ts \<and> concat ps = chars c \<and>
    list_all2 (\<lambda>t p. p \<noteq> [] \<and> unat (tok_len t) = str_len p \<and> tok_kind t \<noteq> Eof) ts ps"
  using assms(2)
proof (induction "length (chars c)" arbitrary: c rule: less_induct)
  case less
  show ?case
  proof (cases "chars c")
    case Nil
    then have "tokens_from x c = Some []"
      by (subst tokens_from.simps) (simp add: advance_token_def bump_def)
    then show ?thesis using Nil by (intro exI [of _ "[]"]) simp
  next
    case (Cons a s)
    from advance_token_ok [OF assms(1) less.prems Cons] obtain k e p d where
      k: "token_of x a (c\<lparr>chars := s, prev := a\<rparr>) = Some (k, e)" and s: "s = p @ chars d"
      and adv: "advance_token x c = Some (\<lparr>tok_kind = k, tok_len = of_nat (str_len (a # p))\<rparr>, d)"
      and d: "fresh d" by auto
    have "length (chars d) < length (chars c)" using Cons s by simp
    from less.hyps [OF this d] obtain ts ps where
      ts: "tokens_from x d = Some ts" "concat ps = chars d"
      and all: "list_all2 (\<lambda>t p. p \<noteq> [] \<and> unat (tok_len t) = str_len p \<and> tok_kind t \<noteq> Eof) ts ps"
      by blast
    let ?t = "\<lparr>tok_kind = k, tok_len = of_nat (str_len (a # p))\<rparr>"
    have eof: "k \<noteq> Eof" by (rule token_of_kind(1) [OF k])
    have "str_len (a # p) < 2 ^ LENGTH(32)"
      using less.prems Cons s by (simp add: fresh_def cursor_ok_def)
    then have "unat (tok_len ?t) = str_len (a # p)" by (simp only: token.simps unat_of_nat_less)
    then have "list_all2 (\<lambda>t p. p \<noteq> [] \<and> unat (tok_len t) = str_len p \<and> tok_kind t \<noteq> Eof)
        (?t # ts) ((a # p) # ps)" using all eof by simp
    moreover have "tokens_from x c = Some (?t # ts)"
      using adv ts(1) eof by (subst tokens_from.simps) simp
    moreover have "concat ((a # p) # ps) = chars c" using Cons s ts(2) by simp
    ultimately show ?thesis by blast
  qed
qed

section \<open>Identifiers\<close>

text \<open>Unicode keeps the whitespace characters out of identifiers.\<close>

definition xid_no_whitespace :: "lex_ext \<Rightarrow> bool" where
  "xid_no_whitespace x \<longleftrightarrow> (\<forall>c. is_whitespace c \<longrightarrow> \<not> is_xid_start x c)"

lemma ident_text:
  assumes "ident_or_unknown_prefix x c = Some (Ident, d)"
  shows "is_id_start x (prev c) \<and> d = eat_while (is_id_continue x) c"
  using assms
  by (auto simp: ident_or_unknown_prefix_def invalid_ident_def Let_def bind_eq_Some_conv
      split: if_splits)

lemma token_of_ident:
  assumes x: "lex_ext_ok x" "xid_no_whitespace x" and a: "is_id_start x a"
    and s: "list_all (is_id_continue x) s" and c: "chars c = s" "prev c = a"
  shows "token_of x a c = Some (Ident, eat_while (is_id_continue x) c)"
proof -
  have asc: "is_id_continue x b = (is_ascii_alphabetic b \<or> is_ascii_digit b \<or> b = ch CHR ''_'')"
    "is_id_start x b = (is_ascii_alphabetic b \<or> b = ch CHR ''_'')" if "b < 128" for b
    using x that by (auto simp: lex_ext_ok_def xid_ascii_def is_id_continue_def is_id_start_def)
  have "\<not> is_whitespace (ch CHR ''_'')" by (simp add: is_whitespace_def)
  then have ws: "\<not> is_whitespace a"
    using a x(2) unfolding is_id_start_def xid_no_whitespace_def by blast
  have f: "first c \<noteq> b" if "b < 128" "b \<noteq> 0" "\<not> is_id_continue x b" for b
    using s c that by (cases s) (auto simp: first_def)
  have f2: "second c \<noteq> b" if "b < 128" "b \<noteq> 0" "\<not> is_id_continue x b" for b
    using s c that by (cases s; cases "tl s") (auto simp: second_def)
  have quotes: "first c \<noteq> ch CHR ''#''" "first c \<noteq> 34" "first c \<noteq> 39" "second c \<noteq> ch CHR ''#''"
    "second c \<noteq> 34"
    using f [of 35] f [of 34] f [of 39] f2 [of 35] f2 [of 34]
    by (simp_all add: asc is_ascii_alphabetic_def is_ascii_digit_def)
  have slash: "a \<noteq> ch CHR ''/''" "a \<noteq> ch CHR ''-''"
    using a asc(2) [of a] by (auto simp: is_ascii_alphabetic_def)
  have "chars (eat_while (is_id_continue x) c) = []"
    using s c by (simp add: eat_while_chars list_all_iff dropWhile_eq_Nil_conv)
  then have "first (eat_while (is_id_continue x) c) = 0" by (simp add: first_def)
  then have id: "ident_or_unknown_prefix x c = Some (Ident, eat_while (is_id_continue x) c)"
    using a c(2) by (simp add: ident_or_unknown_prefix_def non_ascii_emoji_def is_ascii_def)
  then have "c_or_byte_string x mk mkr sq c = Some (Ident, eat_while (is_id_continue x) c)" for mk mkr sq
    using quotes by (simp add: c_or_byte_string_def)
  then show ?thesis
    using id a ws slash quotes by (simp add: token_of_def)
qed

section \<open>Example environment\<close>

text \<open>The ASCII part of the Unicode tables and a byte search, for evaluation.\<close>

definition ascii_ext :: lex_ext where
  "ascii_ext = \<lparr>is_xid_start = is_ascii_alphabetic,
     is_xid_continue = (\<lambda>c. is_ascii_alphabetic c \<or> is_ascii_digit c \<or> c = ch CHR ''_''),
     is_emoji_char = (\<lambda>c. c = 0x1F600),
     memchr = (\<lambda>b bs. if b \<in> set bs then Some (length (takeWhile (\<lambda>y. y \<noteq> b) bs)) else None)\<rparr>"

lemma ascii_ext_ok: "lex_ext_ok ascii_ext" "xid_no_whitespace ascii_ext" "memchr_first ascii_ext"
  by (simp_all add: lex_ext_ok_def xid_ascii_def memchr_first_def ascii_ext_def xid_no_whitespace_def)
    (auto simp: is_whitespace_def is_ascii_alphabetic_def)

definition valid_str :: "rstr \<Rightarrow> bool" where
  "valid_str s \<longleftrightarrow> str_len s < 2 ^ 32 \<and> list_all is_scalar_value s"

lemma valid_str_fresh: "valid_str s \<Longrightarrow> fresh (cursor_new s fa)"
  by (auto simp: valid_str_def list_all_iff intro: fresh_new)

section \<open>Properties\<close>

text \<open>C10. Lexing is total and lossless: on a valid string of less than 4 GiB the lexer does not
  panic and ends, and its tokens are a partition of the text. Every token has a positive length,
  the length of its piece in bytes, and none is the end-of-file token.\<close>

theorem tokenize_partition:
  assumes "lex_ext_ok x" "valid_str s"
  shows "\<exists>ts ps. tokenize x s fa = Some ts \<and> concat ps = s \<and>
    list_all2 (\<lambda>t p. p \<noteq> [] \<and> unat (tok_len t) = str_len p \<and> tok_kind t \<noteq> Eof) ts ps"
  using tokens_from_partition [OF assms(1) valid_str_fresh [OF assms(2)]]
  by (simp add: tokenize_def cursor_new_def)

theorem tokenize_partition_witness:
  "lex_ext_ok ascii_ext \<and> valid_str (lit ''let x1 = r#a; /* c */'') \<and>
   (\<exists>ts ps. tokenize ascii_ext (lit ''let x1 = r#a; /* c */'') FA_No = Some ts \<and>
      concat ps = lit ''let x1 = r#a; /* c */'')"
proof -
  have v: "valid_str (lit ''let x1 = r#a; /* c */'')"
    by (simp add: valid_str_def is_scalar_value_def)
  show ?thesis using tokenize_partition [OF ascii_ext_ok(1) v, of FA_No] v ascii_ext_ok(1) by blast
qed

text \<open>The lexer and \<open>is_ident\<close> agree: a valid string is lexed as exactly one identifier token
  that covers it if and only if \<open>is_ident\<close> accepts it.\<close>

theorem tokenize_ident_iff:
  assumes "lex_ext_ok x" "xid_no_whitespace x" "valid_str s"
  shows "tokenize x s fa = Some [\<lparr>tok_kind = Ident, tok_len = of_nat (str_len s)\<rparr>] \<longleftrightarrow> is_ident x s"
proof (cases s)
  case Nil
  then show ?thesis
    by (subst tokenize_def, subst tokens_from.simps)
      (simp add: advance_token_def bump_def cursor_new_def is_ident_def)
next
  case (Cons a t)
  let ?c = "cursor_new s fa"
  have cs: "chars ?c = a # t" using Cons by (simp add: cursor_new_def)
  let ?b = "?c\<lparr>chars := t, prev := a\<rparr>"
  from advance_token_ok [OF assms(1) valid_str_fresh [OF assms(3)] cs] obtain k e p d where
    k: "token_of x a ?b = Some (k, e)" and t: "t = p @ chars e" and
    adv: "advance_token x ?c = Some (\<lparr>tok_kind = k, tok_len = of_nat (str_len (a # p))\<rparr>, d)" and
    d: "chars d = chars e" "fresh d" by blast
  have len: "str_len s < 2 ^ LENGTH(32)" using assms(3) by (simp add: valid_str_def)
  have toks: "tokenize x s fa = map_option ((#) \<lparr>tok_kind = k, tok_len = of_nat (str_len (a # p))\<rparr>)
      (tokens_from x d)"
    unfolding tokenize_def
    by (subst tokens_from.simps) (simp add: adv token_of_kind(1) [OF k])
  show ?thesis
  proof
    assume "tokenize x s fa = Some [\<lparr>tok_kind = Ident, tok_len = of_nat (str_len s)\<rparr>]"
    then have kI: "k = Ident" and l: "(of_nat (str_len (a # p)) :: u32) = of_nat (str_len s)"
      using toks by auto
    have "str_len (a # p) < 2 ^ LENGTH(32)" using len Cons t by simp
    then have "str_len (a # p) = str_len s" using l len by (metis unat_of_nat_less)
    then have e: "chars e = []" using Cons t by simp
    have "ident_or_unknown_prefix x ?b = Some (Ident, e)" using token_of_kind(2) [OF k kI] kI by simp
    then have i: "is_id_start x (prev ?b)" "e = eat_while (is_id_continue x) ?b"
      using ident_text by blast+
    then have "list_all (is_id_continue x) t"
      using e by (auto simp: eat_while_chars dropWhile_eq_Nil_conv list_all_iff)
    then show "is_ident x s" using i Cons by (simp add: is_ident_def)
  next
    assume "is_ident x s"
    then have a: "is_id_start x a" and all: "list_all (is_id_continue x) t"
      using Cons by (auto simp: is_ident_def)
    have "k = Ident \<and> e = eat_while (is_id_continue x) ?b"
      using token_of_ident [OF assms(1,2) a all, of ?b] k by simp
    then have kI: "k = Ident" and "chars e = []"
      using all by (auto simp: eat_while_chars list_all_iff)
    then have "chars d = []" "p = t" using d t by auto
    then have "tokens_from x d = Some []"
      by (subst tokens_from.simps) (simp add: advance_token_def bump_def)
    then show "tokenize x s fa = Some [\<lparr>tok_kind = Ident, tok_len = of_nat (str_len s)\<rparr>]"
      using toks kI Cons \<open>p = t\<close> by simp
  qed
qed

theorem tokenize_ident_iff_witness:
  "is_ident ascii_ext (lit ''br_2'') \<and>
   tokenize ascii_ext (lit ''br_2'') FA_Yes = Some [\<lparr>tok_kind = Ident, tok_len = of_nat (str_len (lit ''br_2''))\<rparr>]"
proof -
  have v: "valid_str (lit ''br_2'')" by (simp add: valid_str_def is_scalar_value_def)
  have "is_ident ascii_ext (lit ''br_2'')"
    by (simp add: is_ident_def ascii_ext_def is_id_start_def is_id_continue_def
        is_ascii_alphabetic_def is_ascii_digit_def)
  then show ?thesis using tokenize_ident_iff [OF ascii_ext_ok(1,2) v, of FA_Yes] by blast
qed

end
