(* ===== verification/Lex_Literals.thy ===== *)
theory Lex_Literals
  imports Lex_Tokenize
begin

text \<open>
  What the scanners of raw strings and block comments accept, against reference definitions that
  do not mention a cursor: a raw string ends at the first occurrence of a quote and the opening
  number of hashes, a block comment where its delimiters balance. The parser's second look at an
  invalid raw string (\<open>validate_raw_str\<close>) and the stripping of a shebang line follow.
\<close>

section \<open>Raw strings\<close>

abbreviation hashes :: "nat \<Rightarrow> rstr" where
  "hashes n \<equiv> replicate n (ch CHR ''#'')"

abbreviation terminator_str :: "nat \<Rightarrow> rstr" where
  "terminator_str n \<equiv> 34 # hashes n"

lemma str_find_skip:
  assumes "\<And>k. k < length q \<Longrightarrow> \<not> prefix pat (drop k (q @ t))"
  shows "str_find (q @ t) pat = map_option ((+) (str_len q)) (str_find t pat)"
  using assms
proof (induction q)
  case Nil
  then show ?case by (cases "str_find t pat") auto
next
  case (Cons a q)
  have "\<not> prefix pat (a # q @ t)" using Cons.prems [of 0] by simp
  moreover have "\<not> prefix pat (drop k (q @ t))" if "k < length q" for k
    using Cons.prems [of "Suc k"] that by simp
  ultimately show ?case using Cons.IH by (simp add: option.map_comp comp_def add.assoc)
qed

lemma prefix_terminator_quote:
  "prefix (terminator_str n) (drop k (body @ t)) \<Longrightarrow> 34 \<notin> set body \<Longrightarrow> length body \<le> k"
proof (rule ccontr)
  assume *: "prefix (terminator_str n) (drop k (body @ t))" "34 \<notin> set body" "\<not> length body \<le> k"
  then have "drop k (body @ t) = body ! k # drop (Suc k) (body @ t)"
    by (simp add: Cons_nth_drop_Suc nth_append flip: Cons_nth_drop_Suc)
  with *(1) have "body ! k = 34" by simp
  with * show False using nth_mem [of k body] by auto
qed

lemma prefix_hashes_iff: "prefix (hashes n) (hashes j @ t) \<longleftrightarrow> n \<le> j \<or> prefix (hashes (n - j)) t"
proof (induction j arbitrary: n)
  case 0
  then show ?case by (cases n) auto
next
  case (Suc j)
  then show ?case by (cases n) simp_all
qed

lemma find_terminator_here:
  assumes "34 \<notin> set body"
  shows "str_find (body @ terminator_str n @ t) (terminator_str n) = Some (str_len body)"
proof -
  have "str_find (body @ terminator_str n @ t) (terminator_str n) =
      map_option ((+) (str_len body)) (str_find (terminator_str n @ t) (terminator_str n))"
  proof (rule str_find_skip)
    fix k assume "k < length body"
    then show "\<not> prefix (terminator_str n) (drop k (body @ terminator_str n @ t))"
      using prefix_terminator_quote [OF _ assms, of n k "terminator_str n @ t"] by linarith
  qed
  then show ?thesis by simp
qed

lemma find_terminator_later:
  assumes "34 \<notin> set body" "j < n" "\<not> prefix [ch CHR ''#''] t"
  shows "str_find ((body @ 34 # hashes j) @ t) (terminator_str n) =
    map_option ((+) (str_len (body @ 34 # hashes j))) (str_find t (terminator_str n))"
proof (rule str_find_skip)
  fix k assume k: "k < length (body @ 34 # hashes j)"
  show "\<not> prefix (terminator_str n) (drop k ((body @ 34 # hashes j) @ t))"
  proof
    assume p: "prefix (terminator_str n) (drop k ((body @ 34 # hashes j) @ t))"
    then have "prefix (terminator_str n) (drop k (body @ (34 # hashes j @ t)))" by simp
    from prefix_terminator_quote [OF this assms(1)] have "length body \<le> k" .
    then obtain i where i: "k = length body + i" by (metis le_Suc_ex)
    show False
    proof (cases i)
      case 0
      with p i have "prefix (hashes n) (hashes j @ t)" by simp
      then have "prefix (hashes (n - j)) t" using assms(2) prefix_hashes_iff [of n j t] by simp
      moreover obtain m where "n - j = Suc m" using assms(2) by (metis Suc_diff_Suc)
      ultimately show False using assms(3) by (auto simp: prefix_def)
    next
      case (Suc m)
      have "length (hashes j) \<le> m"
        by (rule prefix_terminator_quote [of n m "hashes j" t]) (use p i Suc in auto)
      then show False using k i Suc by simp
    qed
  qed
qed

text \<open>The loop finds what a plain search for the terminator finds.\<close>

lemma raw_string_loop_search:
  assumes "memchr_first x" "cursor_ok c" "raw_string_loop x p s n m off c = Some (r, d)"
  shows "case str_find (chars c) (terminator_str (unat n)) of
      None \<Rightarrow> chars d = [] \<and> (\<exists>f o'. r = Inl (NoTerminator n f o'))
    | Some i \<Rightarrow> r = Inr n \<and> str_from (chars c) (i + 1 + unat n) = Some (chars d)"
  using assms(2,3)
proof (induction "length (chars c)" arbitrary: c m off rule: less_induct)
  case less
  show ?case
  proof (cases "34 \<in> set (chars c)")
    case False
    then obtain d' where d': "raw_string_close x n c = Some (None, d')" "chars d' = []"
      using raw_string_close_eof [OF assms(1) less.prems(1)] by blast
    have "str_find (chars c) (terminator_str (unat n)) = None"
    proof (rule ccontr)
      assume "str_find (chars c) (terminator_str (unat n)) \<noteq> None"
      then obtain i where "str_find (chars c) (terminator_str (unat n)) = Some i" by blast
      from str_find_Some [OF this] have "34 \<in> set (chars c)" by auto
      with False show False by simp
    qed
    then show ?thesis using less.prems(2) d' by (subst (asm) raw_string_loop.simps) auto
  next
    case True
    then obtain body t where bt: "chars c = body @ 34 # t" "34 \<notin> set body" by (metis split_list_first)
    from raw_string_close_quote [OF assms(1) less.prems(1) bt] obtain k e' e j where
      close: "raw_string_close x n c = Some (Some (k, e), e')" "unat k = j" "k \<le> n"
      and adv: "advances c (body @ 34 # hashes j) e" and stop: "k < n \<longrightarrow> first e \<noteq> ch CHR ''#''"
      by blast
    have ce: "chars c = (body @ 34 # hashes j) @ chars e" using adv by (simp add: advances_def)
    have ok: "cursor_ok e" by (rule advances_ok [OF adv less.prems(1)])
    show ?thesis
    proof (cases "k = n")
      case True
      then have "r = Inr n \<and> d = e"
        using less.prems(2) close(1) by (subst (asm) raw_string_loop.simps) auto
      moreover have "str_find (chars c) (terminator_str (unat n)) = Some (str_len body)"
        using find_terminator_here [OF bt(2), of "unat n" "chars e"] ce close(2) True by simp
      moreover have "str_from (chars c) (str_len body + 1 + unat n) = Some (chars e)"
        using str_from_str_len [of "body @ 34 # hashes j" "chars e"] ce close(2) True
          str_len_ascii [of "hashes j"] by simp
      ultimately show ?thesis by simp
    next
      case False
      then have kn: "k < n" using close(3) by simp
      then obtain m' off' where rec: "raw_string_loop x p s n m' off' e = Some (r, d)"
        using less.prems(2) close(1) False
        by (subst (asm) raw_string_loop.simps) (auto split: if_splits option.splits)
      have "\<not> prefix [ch CHR ''#''] (chars e)" using stop kn by (auto simp: first_def prefix_def)
      then have fnd: "str_find (chars c) (terminator_str (unat n)) =
          map_option ((+) (str_len (body @ 34 # hashes j))) (str_find (chars e) (terminator_str (unat n)))"
        unfolding ce using find_terminator_later [OF bt(2), of j "unat n"] kn close(2)
        by (simp add: word_less_nat_alt)
      have cut: "str_from (chars c) (str_len (body @ 34 # hashes j) + i + 1 + unat n) = Some (chars d)"
        if "str_from (chars e) (i + 1 + unat n) = Some (chars d)" for i
      proof -
        from str_from_Some [OF that] obtain q where q: "chars e = q @ chars d" "i + 1 + unat n = str_len q"
          by blast
        have "chars c = ((body @ 34 # hashes j) @ q) @ chars d" using ce q(1) by simp
        moreover have "str_len (body @ 34 # hashes j) + i + 1 + unat n = str_len ((body @ 34 # hashes j) @ q)"
          using q(2) by simp
        ultimately show ?thesis by (simp only: str_from_str_len)
      qed
      have "length (chars e) < length (chars c)" using ce by simp
      from less.hyps [OF this ok rec] show ?thesis
        using fnd cut by (auto split: option.splits)
    qed
  qed
qed

lemma takeWhile_hashes: "\<not> prefix [ch CHR ''#''] t \<Longrightarrow>
    takeWhile (\<lambda>a. a = ch CHR ''#'') (hashes n @ t) = hashes n \<and>
    dropWhile (\<lambda>a. a = ch CHR ''#'') (hashes n @ t) = t"
  by (induction n) (auto simp: prefix_def neq_Nil_conv takeWhile_eq_Nil_iff dropWhile_eq_self_iff)

lemma split_hashes: "\<exists>n t. s = hashes n @ t \<and> \<not> prefix [ch CHR ''#''] t"
proof (induction s)
  case (Cons a s)
  then obtain n t where t: "s = hashes n @ t" "\<not> prefix [ch CHR ''#''] t" by blast
  show ?case
  proof (cases "a = ch CHR ''#''")
    case True
    then have "a # s = hashes (Suc n) @ t" using t by simp
    then show ?thesis using t by blast
  next
    case False
    then have "a # s = hashes 0 @ (a # s) \<and> \<not> prefix [ch CHR ''#''] (a # s)" by simp
    then show ?thesis by blast
  qed
qed (auto intro: exI [of _ 0])

lemma count_hashes_split:
  assumes "cursor_ok c" "chars c = hashes n @ t" "\<not> prefix [ch CHR ''#''] t"
  shows "\<exists>d. count_hashes 0 c = Some (of_nat n, d) \<and> chars d = t \<and> cursor_ok d \<and> n < 2 ^ 32"
proof -
  have "length (chars c) < 2 ^ 32"
    using assms(1) length_le_str_len [of "chars c"] unfolding cursor_ok_def by simp
  then have "unat (0 :: u32) + length (chars c) < 2 ^ 32" "n < 2 ^ 32" using assms(2) by simp_all
  with count_hashes_ok [OF this(1)] takeWhile_hashes [OF assms(3), of n] assms(2)
  obtain d where d: "count_hashes 0 c = Some (of_nat n, d)" "chars d = t" by auto
  then show ?thesis using eats_ok [OF eats_count_hashes assms(1)] \<open>n < 2 ^ 32\<close> by blast
qed

text \<open>
  The specification of a raw string behind its prefix: the outcome, and the text that is left.
\<close>

fun raw_str_outcome :: "nat \<Rightarrow> rstr \<Rightarrow> (raw_str_error + u8) \<Rightarrow> rstr \<Rightarrow> bool" where
  "raw_str_outcome n [] r rest \<longleftrightarrow> r = Inl (InvalidStarter 0) \<and> rest = []"
| "raw_str_outcome n (a # u) r rest \<longleftrightarrow>
     (if a \<noteq> 34 then r = Inl (InvalidStarter a) \<and> rest = u
      else case str_find u (terminator_str n) of
          None \<Rightarrow> rest = [] \<and> (\<exists>f o'. r = Inl (NoTerminator (of_nat n) f o'))
        | Some i \<Rightarrow> str_from u (i + 1 + n) = Some rest \<and>
            r = (if n \<le> 255 then Inr (of_nat n) else Inl (TooManyDelimiters (of_nat n))))"

definition raw_str_spec :: "rstr \<Rightarrow> (raw_str_error + u8) \<Rightarrow> rstr \<Rightarrow> bool" where
  "raw_str_spec s r rest \<longleftrightarrow>
     (\<exists>n t. s = hashes n @ t \<and> \<not> prefix [ch CHR ''#''] t \<and> raw_str_outcome n t r rest)"

lemma raw_double_quoted_string_spec:
  assumes x: "memchr_first x" and ok: "cursor_ok c"
    and r: "raw_double_quoted_string x p c = Some (r, d)"
  shows "raw_str_spec (chars c) r (chars d)"
proof -
  obtain n t where t: "chars c = hashes n @ t" "\<not> prefix [ch CHR ''#''] t"
    using split_hashes by blast
  from count_hashes_split [OF ok t] obtain c' where
    c': "count_hashes 0 c = Some (of_nat n, c')" "chars c' = t" "cursor_ok c'" and n: "n < 2 ^ 32" by blast
  have un: "unat (of_nat n :: u32) = n" by (rule unat_of_nat_less) (use n in simp)
  have ucast: "ucast (of_nat n :: u32) = (of_nat n :: u8)"
    using n by (simp add: unsigned_of_nat take_bit_nat_eq_self)
  from r obtain u where u: "raw_string_unvalidated x p c = Some (u, d)"
    and ru: "r = (case u of Inl e \<Rightarrow> Inl e | Inr m \<Rightarrow>
        if m \<le> 255 then Inr (ucast m) else Inl (TooManyDelimiters m))"
    by (cases "raw_string_unvalidated x p c")
      (auto simp: raw_double_quoted_string_def split: sum.splits if_splits)
  have le: "(of_nat n :: u32) \<le> 255 \<longleftrightarrow> n \<le> 255" using un by (simp add: word_le_nat_alt)
  show ?thesis
  proof (cases t)
    case Nil
    then have "u = Inl (InvalidStarter 0)" "chars d = []"
      using u c' by (auto simp: raw_string_unvalidated_def bind_eq_Some_conv bump_def)
    then show ?thesis unfolding raw_str_spec_def using t Nil ru by (intro exI [of _ n] exI [of _ t]) simp
  next
    case (Cons a s)
    show ?thesis
    proof (cases "a = 34")
      case False
      then have "u = Inl (InvalidStarter a)" "chars d = s"
        using u c' Cons by (auto simp: raw_string_unvalidated_def bind_eq_Some_conv bump_def)
      then show ?thesis
        unfolding raw_str_spec_def using t Cons False ru by (intro exI [of _ n] exI [of _ t]) simp
    next
      case True
      let ?e = "c'\<lparr>chars := s, prev := 34\<rparr>"
      from u c' Cons True obtain s0 where
        loop: "raw_string_loop x p s0 (of_nat n) 0 None ?e = Some (u, d)"
        by (auto simp: raw_string_unvalidated_def bind_eq_Some_conv bump_def)
      have "advances c' [34] ?e" using c'(2) Cons True by (simp add: advances_def)
      then have "cursor_ok ?e" using advances_ok c'(3) by blast
      note search = raw_string_loop_search [OF x this loop]
      have ce: "chars ?e = s" by simp
      have "case str_find s (terminator_str n) of
            None \<Rightarrow> chars d = [] \<and> (\<exists>f o'. u = Inl (NoTerminator (of_nat n) f o'))
          | Some i \<Rightarrow> u = Inr (of_nat n) \<and> str_from s (i + 1 + n) = Some (chars d)"
        using search unfolding un ce .
      then have "case str_find s (terminator_str n) of
            None \<Rightarrow> chars d = [] \<and> (\<exists>f o'. r = Inl (NoTerminator (of_nat n) f o'))
          | Some i \<Rightarrow> str_from s (i + 1 + n) = Some (chars d) \<and>
              r = (if n \<le> 255 then Inr (of_nat n) else Inl (TooManyDelimiters (of_nat n)))"
        using ru ucast le by (auto split: option.splits)
      then show ?thesis
        unfolding raw_str_spec_def using t Cons True
        by (intro exI [of _ n] exI [of _ t]) simp
    qed
  qed
qed

section \<open>The second look at an invalid raw string\<close>

lemma str_find_append: "str_find u pat = Some i \<Longrightarrow> str_find (u @ v) pat = Some i"
proof (induction u arbitrary: i)
  case Nil
  then show ?case by (cases v) (auto split: if_splits)
next
  case (Cons a u)
  show ?case
  proof (cases "prefix pat (a # u)")
    case True
    then have "prefix pat (a # u @ v)" by (metis append_Cons prefix_prefix)
    then show ?thesis using Cons.prems True by simp
  next
    case False
    then obtain j where j: "str_find u pat = Some j" "i = len_utf8 a + j" using Cons.prems by auto
    from str_find_Some [OF j(1)] have "length pat \<le> length u" by auto
    then have "\<not> prefix pat (a # u @ v)"
      using False by (metis append_Cons le_SucI length_Cons prefix_length_prefix prefixI)
    then show ?thesis using Cons.IH [OF j(1)] j(2) by simp
  qed
qed

lemma raw_str_spec_Inr:
  assumes "raw_str_spec s (Inr m) rest"
  obtains n w i where "s = hashes n @ 34 # w" "str_find w (terminator_str n) = Some i" "n \<le> 255"
proof -
  from assms obtain n u where n: "s = hashes n @ u" and u: "raw_str_outcome n u (Inr m) rest"
    unfolding raw_str_spec_def by blast
  show thesis
    using that [of n] n u by (cases u) (auto split: option.splits if_splits)
qed

lemma raw_str_spec_shrink:
  assumes "raw_str_spec s (Inr m) rest" "raw_str_spec (s @ t) (Inl e) rest'"
  shows False
proof -
  obtain n w i where n: "s = hashes n @ 34 # w"
    and w: "str_find w (terminator_str n) = Some i" "n \<le> 255"
    by (rule raw_str_spec_Inr [OF assms(1)])
  from assms(2) obtain n' u' where n': "s @ t = hashes n' @ u'" "\<not> prefix [ch CHR ''#''] u'"
    and u': "raw_str_outcome n' u' (Inl e) rest'"
    unfolding raw_str_spec_def by blast
  have "\<not> prefix [ch CHR ''#''] (34 # w @ t)" by simp
  from takeWhile_hashes [OF this, of n] takeWhile_hashes [OF n'(2), of n'] n'(1) n(1)
  have "hashes n = hashes n'" "34 # w @ t = u'" by (metis append.assoc append_Cons)+
  then have "n = n'" "u' = 34 # w @ t" by (auto dest: arg_cong [where f = length])
  then show False using u' w(2) str_find_append [OF w(1), of t] by simp
qed

lemma bump_times_chars:
  "chars c = p @ s \<Longrightarrow> p \<noteq> [] \<Longrightarrow>
   bump_times (length p) c = Some (c\<lparr>chars := s, prev := last p\<rparr>)"
proof (induction p arbitrary: c)
  case (Cons a p)
  then have b: "bump c = (Some a, c\<lparr>chars := p @ s, prev := a\<rparr>)" by (simp add: bump_def)
  show ?case
  proof (cases "p = []")
    case True
    then show ?thesis using b by simp
  next
    case False
    then show ?thesis using b Cons.IH [of "c\<lparr>chars := p @ s, prev := a\<rparr>"] by simp
  qed
qed simp

lemma validate_raw_str_run:
  assumes x: "memchr_first x" and v: "valid_str (pre @ s)" and pre: "pre \<noteq> []" "last pre = ch CHR ''r''"
    and len: "unat prefix_len = length pre"
  shows "\<exists>r rest. raw_str_spec s r rest \<and>
    validate_raw_str x (pre @ s) prefix_len = Some (case r of Inl e \<Rightarrow> Inl e | Inr _ \<Rightarrow> Inr ())"
proof -
  let ?new = "cursor_new (pre @ s) FA_No"
  let ?c = "?new\<lparr>chars := s, prev := ch CHR ''r''\<rparr>"
  have ok0: "cursor_ok ?new" using valid_str_fresh [OF v] by (simp add: fresh_def)
  have adv: "advances ?new pre ?c" by (simp add: advances_def cursor_new_def)
  have ok: "cursor_ok ?c" by (rule advances_ok [OF adv ok0])
  have "consumed ?c = str_len pre"
    using advances_consumed [OF adv ok0] by (simp add: consumed_def cursor_new_def)
  then have "unat prefix_len \<le> consumed ?c" using len length_le_str_len [of pre] by simp
  then obtain r d where r: "raw_double_quoted_string x prefix_len ?c = Some (r, d)"
    using raw_double_quoted.scan_total [OF ok, of x prefix_len] x by auto
  have bt: "bump_times (unat prefix_len) ?new = Some ?c"
    using bump_times_chars [of ?new pre s] pre len by (simp add: cursor_new_def)
  have "validate_raw_str x (pre @ s) prefix_len = Some (case r of Inl e \<Rightarrow> Inl e | Inr _ \<Rightarrow> Inr ())"
    using r bt pre(1) by (simp add: validate_raw_str_def)
  moreover have "raw_str_spec s r (chars d)" using raw_double_quoted_string_spec [OF x ok r] by simp
  ultimately show ?thesis by blast
qed

section \<open>Block comments\<close>

text \<open>The delimiters of a text from left to right, \<open>True\<close> for an opening one.\<close>

fun delims :: "rstr \<Rightarrow> bool list" where
  "delims (a # b # s) =
     (if a = ch CHR ''/'' \<and> b = ch CHR ''*'' then True # delims s
      else if a = ch CHR ''*'' \<and> b = ch CHR ''/'' then False # delims s
      else delims (b # s))"
| "delims _ = []"

definition balance :: "bool list \<Rightarrow> int" where
  "balance es = sum_list (map (\<lambda>e. if e then 1 else -1) es)"

lemma balance_simps [simp]:
  "balance [] = 0"
  "balance (e # es) = (if e then 1 else -1) + balance es"
  by (simp_all add: balance_def)

text \<open>
  \<open>comment_text n s m closed\<close>: read with \<open>n\<close> comments open, the delimiters of \<open>s\<close> leave \<open>m\<close> open,
  and no proper prefix of them closes all.
\<close>

definition comment_text :: "nat \<Rightarrow> rstr \<Rightarrow> nat \<Rightarrow> bool" where
  "comment_text n s m \<longleftrightarrow>
     int m = int n + balance (delims s) \<and>
     (\<forall>k<length (delims s). 0 < int n + balance (take k (delims s)))"

lemma comment_text_other:
  "comment_text n s m \<Longrightarrow> delims (a # s) = delims s \<Longrightarrow> comment_text n (a # s) m"
  by (simp add: comment_text_def)

lemma comment_text_delim:
  assumes "comment_text (if e then Suc n else n - 1) s m" "0 < n" "delims (a # b # s) = e # delims s"
  shows "comment_text n (a # b # s) m"
proof -
  have "0 < int n + balance (take k (e # delims s))" if "k < length (e # delims s)" for k
    using assms(1,2) that by (cases k) (auto simp: comment_text_def of_nat_diff split: if_splits)
  then show ?thesis using assms by (auto simp: comment_text_def of_nat_diff split: if_splits)
qed

lemma block_comment_loop_text:
  "0 < n \<Longrightarrow> block_comment_loop n c = (m, d) \<Longrightarrow>
   \<exists>s. chars c = s @ chars d \<and> comment_text n s m \<and> (0 < m \<longrightarrow> chars d = [])"
proof (induction n c rule: block_comment_loop.induct)
  case (1 n c)
  show ?case
  proof (cases "chars c")
    case Nil
    then have "m = n" "d = c"
      using "1.prems"(2) by (subst (asm) block_comment_loop.simps; simp add: bump_def)+
    then show ?thesis using Nil by (simp add: comment_text_def)
  next
    case (Cons a t)
    then obtain e where bump: "bump c = (Some a, e)" and ce: "chars e = t"
      by (simp add: bump_def)
    have fst: "first e = b \<Longrightarrow> b \<noteq> 0 \<Longrightarrow> t = b # chars (bumped e)" for b
      using ce by (cases t) (auto simp: first_def bump_def)
    consider (opn) "a = ch CHR ''/''" "first e = ch CHR ''*''"
      | (cls) "a = ch CHR ''*''" "first e = ch CHR ''/''"
      | (other) "\<not> (a = ch CHR ''/'' \<and> first e = ch CHR ''*'')"
          "\<not> (a = ch CHR ''*'' \<and> first e = ch CHR ''/'')" by blast
    then show ?thesis
    proof cases
      case opn
      have t: "t = ch CHR ''*'' # chars (bumped e)" using fst [OF opn(2)] by simp
      have run: "block_comment_loop (n + 1) (bumped e) = (m, d)"
        using "1.prems"(2) bump opn by (subst (asm) block_comment_loop.simps) simp
      from "1.IH"(1) [OF bump [symmetric] refl conjI [OF opn] _ run] obtain s where
        s: "chars (bumped e) = s @ chars d" "comment_text (n + 1) s m" "0 < m \<longrightarrow> chars d = []" by auto
      have "comment_text n (a # ch CHR ''*'' # s) m"
        by (rule comment_text_delim [where e = True]) (use s opn "1.prems" in auto)
      then show ?thesis using s t Cons by (intro exI [of _ "a # ch CHR ''*'' # s"]) simp
    next
      case cls
      have t: "t = ch CHR ''/'' # chars (bumped e)" using fst [OF cls(2)] by simp
      have no: "\<not> (a = ch CHR ''/'' \<and> first e = ch CHR ''*'')" using cls by simp
      have "\<exists>s. chars (bumped e) = s @ chars d \<and> comment_text (n - 1) s m \<and> (0 < m \<longrightarrow> chars d = [])"
      proof (cases "n - 1 = 0")
        case True
        then have "m = 0" "d = bumped e"
          using "1.prems"(2) bump cls by (subst (asm) block_comment_loop.simps; simp)+
        then show ?thesis using True by (intro exI [of _ "[]"]) (simp add: comment_text_def)
      next
        case False
        have run: "block_comment_loop (n - 1) (bumped e) = (m, d)"
          using "1.prems"(2) bump cls False by (subst (asm) block_comment_loop.simps) simp
        from "1.IH"(2) [OF bump [symmetric] refl no conjI [OF cls] False _ run] False show ?thesis by auto
      qed
      then obtain s where
        s: "chars (bumped e) = s @ chars d" "comment_text (n - 1) s m" "0 < m \<longrightarrow> chars d = []" by blast
      have "comment_text n (a # ch CHR ''/'' # s) m"
        by (rule comment_text_delim [where e = False]) (use s cls "1.prems" in auto)
      then show ?thesis using s t Cons by (intro exI [of _ "a # ch CHR ''/'' # s"]) simp
    next
      case other
      have run: "block_comment_loop n e = (m, d)"
        using "1.prems"(2) bump other by (subst (asm) block_comment_loop.simps) auto
      from "1.IH"(3) [OF bump [symmetric] refl other "1.prems"(1) run] obtain s where
        s: "t = s @ chars d" "comment_text n s m" "0 < m \<longrightarrow> chars d = []" using ce by auto
      have "delims (a # s) = delims s"
        using other s(1) ce by (cases s) (auto simp: first_def)
      then have "comment_text n (a # s) m" by (rule comment_text_other [OF s(2)])
      then show ?thesis using s Cons by (intro exI [of _ "a # s"]) simp
    qed
  qed
qed

section \<open>Shebang lines\<close>

lemma first_line_split:
  "\<exists>t. s = first_line s @ t \<and> 10 \<notin> set (first_line s) \<and> (t = [] \<or> prefix [10] t \<or> prefix [13, 10] t)"
proof -
  let ?l = "takeWhile (\<lambda>c. c \<noteq> 10) s" and ?r = "dropWhile (\<lambda>c. c \<noteq> 10) s"
  have s: "s = ?l @ ?r" by simp
  have l: "10 \<notin> set ?l" by (auto dest: set_takeWhileD)
  have r: "?r = [] \<or> prefix [10] ?r"
  proof (cases ?r)
    case (Cons a u)
    then have "a = 10" using dropWhile_eq_Cons_conv [of "\<lambda>c. c \<noteq> 10" s a u] by simp
    with Cons show ?thesis by simp
  qed simp
  show ?thesis
  proof (cases "10 \<in> set s \<and> ?l \<noteq> [] \<and> last ?l = 13")
    case True
    then have fl: "first_line s = butlast ?l" by (simp add: first_line_def Let_def)
    have "?r \<noteq> []" using True by (auto simp: dropWhile_eq_Nil_conv)
    then have p: "prefix [13, 10] (13 # ?r)" using r by auto
    have "s = butlast ?l @ 13 # ?r"
      using True s by (metis append.assoc append_Cons append_Nil append_butlast_last_id)
    then show ?thesis using fl p l by (metis in_set_butlastD)
  next
    case False
    then have "first_line s = ?l" by (auto simp: first_line_def Let_def)
    then show ?thesis using s l r by metis
  qed
qed

section \<open>Properties\<close>

text \<open>C11. Raw strings end where they should: behind the prefix \<open>r\<close>, \<open>br\<close> or \<open>cr\<close> the scanner does not
  panic, and its result is the one of the specification. After \<open>n\<close> hashes and a quote the string
  ends at the first quote followed by \<open>n\<close> hashes, and is accepted iff \<open>n\<close> is at most 255; without
  such a quote everything is eaten and a missing terminator is reported; without the opening
  quote the offending character is reported.\<close>

theorem raw_double_quoted_string_correct:
  assumes "memchr_first x" "cursor_ok c" "prev c = ch CHR ''r''" "unat prefix_len \<le> consumed c"
  shows "\<exists>r d. raw_double_quoted_string x prefix_len c = Some (r, d) \<and>
    raw_str_spec (chars c) r (chars d)"
proof -
  obtain r d where "raw_double_quoted_string x prefix_len c = Some (r, d)"
    using raw_double_quoted.scan_ok [OF assms(2), of x prefix_len] assms by blast
  with raw_double_quoted_string_spec [OF assms(1,2)] show ?thesis by blast
qed

definition ex_raw_cursor :: cursor where
  "ex_raw_cursor = \<lparr>len_remaining = 10, chars = [35, 34, 97, 34, 98, 34, 35, 59, 59],
     frontmatter_ok = FA_No, prev = ch CHR ''r''\<rparr>"

theorem raw_double_quoted_string_correct_witness:
  "\<exists>r d. raw_double_quoted_string ascii_ext 1 ex_raw_cursor = Some (r, d) \<and>
    raw_str_spec (chars ex_raw_cursor) r (chars d)"
  by (rule raw_double_quoted_string_correct [OF ascii_ext_ok(3)])
    (simp_all add: ex_raw_cursor_def cursor_ok_def is_scalar_value_def consumed_def)

text \<open>The parser's second look agrees with the lexer: when a raw string literal with the prefix
  \<open>pre\<close> was reported invalid, \<open>validate_raw_str\<close> on the text of the token neither panics nor
  accepts it, so the panic for "no error found" in the parser is not reached.\<close>

theorem validate_raw_str_rejects:
  assumes "memchr_first x" "valid_str (pre @ s)" "pre \<noteq> []" "last pre = ch CHR ''r''"
    and "unat prefix_len = length pre"
    and "cursor_ok c" "raw_double_quoted_string x prefix_len c = Some (Inl e, d)"
    and "chars c = s @ chars d"
  shows "\<exists>e'. validate_raw_str x (pre @ s) prefix_len = Some (Inl e')"
proof -
  have "raw_str_spec (s @ chars d) (Inl e) (chars d)"
    using raw_double_quoted_string_spec [OF assms(1,6,7)] assms(8) by simp
  moreover obtain r rest where "raw_str_spec s r rest"
    and v: "validate_raw_str x (pre @ s) prefix_len = Some (case r of Inl e \<Rightarrow> Inl e | Inr _ \<Rightarrow> Inr ())"
    using validate_raw_str_run [OF assms(1-5)] by blast
  ultimately show ?thesis using raw_str_spec_shrink by (cases r) auto
qed

definition ex_bad_cursor :: cursor where
  "ex_bad_cursor = \<lparr>len_remaining = 5, chars = [35, 126, 34, 59], frontmatter_ok = FA_No,
     prev = ch CHR ''r''\<rparr>"

theorem validate_raw_str_rejects_witness:
  "\<exists>e'. validate_raw_str ascii_ext (lit ''r'' @ [35, 126]) 1 = Some (Inl e')"
proof (rule validate_raw_str_rejects [OF ascii_ext_ok(3)])
  let ?d = "ex_bad_cursor\<lparr>chars := [34, 59], prev := 126\<rparr>"
  show "raw_double_quoted_string ascii_ext 1 ex_bad_cursor = Some (Inl (InvalidStarter 126), ?d)"
    by (simp add: raw_double_quoted_string_def raw_string_unvalidated_def ex_bad_cursor_def
        pos_within_token_def count_hashes.simps first_def bump_def checked_add_def)
qed (simp_all add: valid_str_def is_scalar_value_def ex_bad_cursor_def cursor_ok_def)


definition ex_comment :: cursor where
  "ex_comment = \<lparr>len_remaining = 14, chars = lit ''* /* */ */ x'', frontmatter_ok = FA_No,
     prev = ch CHR ''/''\<rparr>"


text \<open>A shebang is a prefix of the input that starts with \<open>#!\<close> and ends before the first line
  break, so cutting it off keeps a valid string and the line structure; stripping never panics
  and never happens on a text that does not start with \<open>#!\<close>.\<close>

theorem strip_shebang_line:
  assumes "lex_ext_ok x" "valid_str input"
  shows "\<exists>r. strip_shebang x input = Some r \<and>
    (\<forall>n. r = Some n \<longrightarrow> (\<exists>p t. input = p @ t \<and> n = str_len p \<and> prefix (lit ''#!'') p \<and>
       10 \<notin> set p \<and> (t = [] \<or> prefix [10] t \<or> prefix [13, 10] t)))"
proof (cases "prefix (lit ''#!'') input")
  case False
  then show ?thesis by (simp add: strip_shebang_def)
next
  case True
  then obtain tl where tl: "input = lit ''#!'' @ tl" by (auto simp: prefix_def)
  then have dr: "drop 2 input = tl" by simp
  have "valid_str tl" using assms(2) tl by (auto simp: valid_str_def)
  from tokens_from_partition [OF assms(1) valid_str_fresh [OF this]] obtain ts where
    ts: "tokenize x tl FA_No = Some ts" unfolding tokenize_def by blast
  obtain t where t: "tl = first_line tl @ t" "10 \<notin> set (first_line tl)"
      "t = [] \<or> prefix [10] t \<or> prefix [13, 10] t"
    using first_line_split [of tl] by blast
  let ?p = "lit ''#!'' @ first_line tl"
  have p: "input = ?p @ t" "2 + str_len (first_line tl) = str_len ?p" "prefix (lit ''#!'') ?p"
    "10 \<notin> set ?p"
    using tl t(1,2) by simp_all
  then have "\<exists>p t. input = p @ t \<and> 2 + str_len (first_line tl) = str_len p \<and> prefix (lit ''#!'') p \<and>
       10 \<notin> set p \<and> (t = [] \<or> prefix [10] t \<or> prefix [13, 10] t)" using t(3) by blast
  then show ?thesis using True ts dr by (simp add: strip_shebang_def)
qed

theorem strip_shebang_line_witness:
  "valid_str (lit ''#!/bin/x'' @ [10] @ lit ''fn'') \<and>
   (\<exists>r. strip_shebang ascii_ext (lit ''#!/bin/x'' @ [10] @ lit ''fn'') = Some r)"
proof -
  have v: "valid_str (lit ''#!/bin/x'' @ [10] @ lit ''fn'')"
    by (simp add: valid_str_def is_scalar_value_def)
  show ?thesis using strip_shebang_line [OF ascii_ext_ok(1) v] v by blast
qed

text \<open>Guarded strings: between two tokens the scanner does not panic; it finds a guarded string
  exactly when some hashes are followed by a quote, and then reports their number and the length
  in bytes of the text it ate, and leaves the cursor between two tokens.\<close>

theorem guarded_double_quoted_string_correct:
  assumes "fresh c" "prev c \<noteq> ch CHR ''#''" "chars c = hashes n @ t" "\<not> prefix [ch CHR ''#''] t"
  shows "\<exists>r d s. guarded_double_quoted_string x c = Some (r, d) \<and> chars c = s @ chars d \<and>
    (case r of
       None \<Rightarrow> \<not> prefix [34] t
     | Some g \<Rightarrow> prefix (hashes n @ [34]) s \<and> unat (gs_n_hashes g) = n \<and>
         unat (gs_token_len g) = str_len s \<and> fresh d)"
proof -
  have ok: "cursor_ok c" using assms(1) by (simp add: fresh_def)
  obtain c' where c': "count_hashes 0 c = Some (of_nat n, c')" "chars c' = t" "cursor_ok c'"
    and n: "n < 2 ^ 32" using count_hashes_split [OF ok assms(3,4)] by blast
  have cc': "advances c (hashes n) c'"
    using eats_count_hashes [OF c'(1)] c'(2) assms(3) by (auto simp: eats_def advances_def)
  have un: "unat (of_nat n :: u32) = n" by (rule unat_of_nat_less) (use n in simp)
  have found: "unat (of_nat (consumed e) :: u32) = str_len (hashes n @ 34 # s) \<and>
      pos_within_token e = Some (of_nat (consumed e)) \<and> fresh (reset_pos_within_token e)"
    if "advances c (hashes n @ 34 # s) e" for s e
  proof -
    have oke: "cursor_ok e" by (rule advances_ok [OF that ok])
    have "consumed e = str_len (hashes n @ 34 # s)"
      using advances_consumed [OF that ok] assms(1) by (simp add: fresh_def consumed_def)
    moreover have "unat (of_nat (consumed e) :: u32) = consumed e"
      by (rule unat_of_nat_less) (use consumed_less [OF oke] in simp)
    moreover have "fresh (reset_pos_within_token e)"
      using oke by (simp add: fresh_def cursor_ok_def reset_pos_within_token_def)
    ultimately show ?thesis using pos_consumed [OF oke] by simp
  qed
  show ?thesis
  proof (cases "prefix [34] t")
    case False
    then have "first c' \<noteq> 34" using c'(2) by (auto simp: first_def prefix_def split: list.splits)
    then have "guarded_double_quoted_string x c = Some (None, c')"
      using assms(2) c'(1) by (simp add: guarded_double_quoted_string_def)
    then show ?thesis using False cc' by (auto simp: advances_def)
  next
    case True
    then have f: "first c' = 34" using c'(2) by (auto simp: first_def prefix_def)
    have b: "advances c' [34] (bumped c')" "prev (bumped c') = 34" using bumped_first [of c'] f by auto
    obtain tm e where e: "double_quoted_loop (bumped c') = (tm, e)" by fastforce
    let ?f = "if tm then eat_literal_suffix x (snd (count_end_hashes (of_nat n) 0 e)) else e"
    have "eats e ?f"
      using eats_trans [OF eats_count_end_hashes eats_identifier(2)] by simp
    moreover have "eats (bumped c') e" using eats_double_quoted_loop [of "bumped c'"] e by simp
    ultimately obtain s where "advances (bumped c') s ?f" using eats_trans unfolding eats_def by blast
    with advances_trans [OF cc' b(1)] have adv: "advances c (hashes n @ 34 # s) ?f"
      using advances_trans by fastforce
    note fd = found [OF adv]
    have "guarded_double_quoted_string x c =
        Some (Some \<lparr>gs_n_hashes = of_nat n, gs_terminated = tm, gs_token_len = of_nat (consumed ?f)\<rparr>,
          reset_pos_within_token ?f)"
      using assms(2) c'(1) f b(2) e fd
      by (cases "tm") (simp_all add: guarded_double_quoted_string_def double_quoted_string_def Let_def)
    moreover have "chars c = (hashes n @ 34 # s) @ chars (reset_pos_within_token ?f)"
      using adv by (simp add: advances_def reset_pos_within_token_def)
    moreover have "prefix (hashes n @ [34]) (hashes n @ 34 # s)" by simp
    ultimately show ?thesis using fd un by (intro exI conjI) auto
  qed
qed

theorem guarded_double_quoted_string_correct_witness:
  "\<exists>r d s. guarded_double_quoted_string ascii_ext (cursor_new (hashes 1 @ lit ''x'') FA_No) = Some (r, d) \<and>
    chars (cursor_new (hashes 1 @ lit ''x'') FA_No) = s @ chars d \<and>
    (case r of
       None \<Rightarrow> \<not> prefix [34] (lit ''x'')
     | Some g \<Rightarrow> prefix (hashes 1 @ [34]) s \<and> unat (gs_n_hashes g) = 1 \<and>
         unat (gs_token_len g) = str_len s \<and> fresh d)"
proof (rule guarded_double_quoted_string_correct)
  show "fresh (cursor_new (hashes 1 @ lit ''x'') FA_No)"
    by (rule valid_str_fresh) (simp add: valid_str_def is_scalar_value_def)
qed (simp_all add: cursor_new_def)

end
