(* ===== verification/Triton_Fold.thy ===== *)
theory Triton_Fold
  imports Triton_Reach "HOL-Library.Signed_Division"
begin

text \<open>
  Folding of 32-bit operands at code generation time (\<open>to_scalar_int\<close>, \<open>try_eval_const_i32\<close>,
  \<open>fold_local_as_i32\<close> and \<open>fold_operand_as_i32\<close> of \<open>triton/mod.rs\<close>). The two folding functions
  call each other through the first assignment of a local, without a bound; the model counts
  calls with fuel, and \<open>None\<close> is a call that is not finished with that fuel. A finished call
  panicked or returned the \<open>Option<i32>\<close> of the code.

  Results: a result does not depend on the fuel; the folding agrees with a declarative
  evaluation relation; it ends when no local is defined through itself, and does not end on a
  local whose first assignment reads it.
\<close>

section \<open>Outcomes\<close>

datatype 'a outcome = Panicked | Returned 'a

type_synonym fold_result = "i32 option outcome option"

text \<open>The operator \<open>?\<close> on a call: a panic and \<open>None\<close> end the caller.\<close>

definition fold_try :: "fold_result \<Rightarrow> (i32 \<Rightarrow> fold_result) \<Rightarrow> fold_result" where
  "fold_try r k =
     (case r of
        None \<Rightarrow> None
      | Some Panicked \<Rightarrow> Some Panicked
      | Some (Returned None) \<Rightarrow> Some (Returned None)
      | Some (Returned (Some v)) \<Rightarrow> k v)"

section \<open>Scalars\<close>

text \<open>\<open>instance.args.const_at(index).to_value().try_to_leaf()\<close>; \<open>None\<close> is a panic.\<close>

definition param_leaf :: "instance_ctx \<Rightarrow> nat \<Rightarrow> scalar_int option option" where
  "param_leaf ix i = do {
     c \<leftarrow> const_at (inst_args ix) i;
     (_, v) \<leftarrow> to_value c;
     Some (value_try_to_leaf v) }"

text \<open>\<open>Inl ()\<close> is the error \<open>InvalidScalar\<close>.\<close>

definition to_scalar_int :: "instance_ctx \<Rightarrow> operand \<Rightarrow> (unit + scalar_int) option" where
  "to_scalar_int ix node =
     (case node of
        Op_Constant c \<Rightarrow>
          (case c of
             MC_Val (CV_Scalar (Scalar_Int s)) _ \<Rightarrow> Some (Inr s)
           | MC_Ty t cv \<Rightarrow>
               if \<not> is_integral t then Some (Inl ())
               else (case cv of
                   Const_Param i \<Rightarrow>
                     (case param_leaf ix i of
                        None \<Rightarrow> None
                      | Some None \<Rightarrow> Some (Inl ())
                      | Some (Some s) \<Rightarrow> Some (Inr s))
                 | _ \<Rightarrow> Some (Inl ()))
           | _ \<Rightarrow> Some (Inl ()))
      | _ \<Rightarrow> Some (Inl ()))"

text \<open>\<open>Some(s.to_i32())\<close>, which panics unless the scalar has four bytes.\<close>

definition scalar_result :: "scalar_int \<Rightarrow> fold_result" where
  "scalar_result s = (case to_i32 s of None \<Rightarrow> Some Panicked | Some v \<Rightarrow> Some (Returned (Some v)))"

section \<open>Wrapping arithmetic\<close>

definition wrapping_div :: "i32 \<Rightarrow> i32 \<Rightarrow> i32" where
  "wrapping_div l r = word_of_int (sint l sdiv sint r)"

definition wrapping_rem :: "i32 \<Rightarrow> i32 \<Rightarrow> i32" where
  "wrapping_rem l r = word_of_int (sint l smod sint r)"

definition wrapping_shl :: "i32 \<Rightarrow> i32 \<Rightarrow> i32" where
  "wrapping_shl l r = push_bit (unat r mod 32) l"

definition wrapping_shr :: "i32 \<Rightarrow> i32 \<Rightarrow> i32" where
  "wrapping_shr l r = signed_drop_bit (unat r mod 32) l"

definition fold_binop :: "bin_op \<Rightarrow> i32 \<Rightarrow> i32 \<Rightarrow> i32 option" where
  "fold_binop bop l r =
     (case bop of
        BinOp_Add \<Rightarrow> Some (l + r)
      | BinOp_Sub \<Rightarrow> Some (l - r)
      | BinOp_Mul \<Rightarrow> Some (l * r)
      | BinOp_Div \<Rightarrow> if r \<noteq> 0 then Some (wrapping_div l r) else None
      | BinOp_Rem \<Rightarrow> if r \<noteq> 0 then Some (wrapping_rem l r) else None
      | BinOp_Shl \<Rightarrow> Some (wrapping_shl l r)
      | BinOp_Shr \<Rightarrow> Some (wrapping_shr l r)
      | BinOp_BitAnd \<Rightarrow> Some (and l r)
      | BinOp_BitOr \<Rightarrow> Some (or l r)
      | BinOp_BitXor \<Rightarrow> Some (xor l r)
      | _ \<Rightarrow> None)"

definition fold_unop :: "un_op \<Rightarrow> i32 \<Rightarrow> i32 option" where
  "fold_unop uop v =
     (case uop of UnOp_Neg \<Rightarrow> Some (- v) | UnOp_Not \<Rightarrow> Some (not v) | _ \<Rightarrow> None)"

section \<open>Folding\<close>

definition assigned_rvalue :: "local \<Rightarrow> statement \<Rightarrow> rvalue option" where
  "assigned_rvalue l s =
     (case s of
        Stmt_Assign p rv \<Rightarrow> if p_local p = l \<and> p_projection p = [] then Some rv else None
      | _ \<Rightarrow> None)"

text \<open>The operand and rvalue cases, with the evaluation of locals as an argument.\<close>

definition fold_operand_as_i32 :: "(local \<Rightarrow> fold_result) \<Rightarrow> instance_ctx \<Rightarrow> operand \<Rightarrow> fold_result" where
  "fold_operand_as_i32 fold_local ix node =
     (case node of
        Op_Constant c \<Rightarrow>
          (case c of
             MC_Val (CV_Scalar (Scalar_Int s)) _ \<Rightarrow> scalar_result s
           | MC_Ty t cv \<Rightarrow>
               if is_integral t then
                 (case cv of
                    Const_Param i \<Rightarrow>
                      (case param_leaf ix i of
                         None \<Rightarrow> Some Panicked
                       | Some None \<Rightarrow> Some (Returned None)
                       | Some (Some s) \<Rightarrow> scalar_result s)
                  | _ \<Rightarrow> Some (Returned None))
               else Some (Returned None)
           | _ \<Rightarrow> Some (Returned None))
      | _ \<Rightarrow> (case bare_local node of Some l \<Rightarrow> fold_local l | None \<Rightarrow> Some (Returned None)))"

definition fold_rvalue :: "(operand \<Rightarrow> fold_result) \<Rightarrow> rvalue \<Rightarrow> fold_result" where
  "fold_rvalue fold_operand rv =
     (case rv of
        Rv_Use op \<Rightarrow> fold_operand op
      | Rv_BinaryOp bop lhs rhs \<Rightarrow>
          fold_try (fold_operand lhs) (\<lambda>l.
          fold_try (fold_operand rhs) (\<lambda>r. Some (Returned (fold_binop bop l r))))
      | Rv_UnaryOp uop op \<Rightarrow>
          fold_try (fold_operand op) (\<lambda>v. Some (Returned (fold_unop uop v)))
      | _ \<Rightarrow> Some (Returned None))"

primrec fold_local_as_i32 :: "nat \<Rightarrow> instance_ctx \<Rightarrow> body \<Rightarrow> local \<Rightarrow> fold_result" where
  "fold_local_as_i32 0 ix mir l = None"
| "fold_local_as_i32 (Suc fuel) ix mir l =
     (case find_map (assigned_rvalue l) (all_statements mir) of
        None \<Rightarrow> Some (Returned None)
      | Some rv \<Rightarrow> fold_rvalue (fold_operand_as_i32 (fold_local_as_i32 fuel ix mir) ix) rv)"

text \<open>\<open>Inl ()\<close> is the error \<open>InvalidScalar\<close>.\<close>

definition try_eval_const_i32 ::
    "nat \<Rightarrow> instance_ctx \<Rightarrow> body \<Rightarrow> operand \<Rightarrow> (unit + i32) outcome option" where
  "try_eval_const_i32 fuel ix mir node =
     (case to_scalar_int ix node of
        None \<Rightarrow> Some Panicked
      | Some (Inr s) \<Rightarrow> (case to_i32 s of None \<Rightarrow> Some Panicked | Some v \<Rightarrow> Some (Returned (Inr v)))
      | Some (Inl _) \<Rightarrow>
          (case bare_local node of
             None \<Rightarrow> Some (Returned (Inl ()))
           | Some l \<Rightarrow>
               (case fold_local_as_i32 fuel ix mir l of
                  None \<Rightarrow> None
                | Some Panicked \<Rightarrow> Some Panicked
                | Some (Returned (Some v)) \<Rightarrow> Some (Returned (Inr v))
                | Some (Returned None) \<Rightarrow> Some (Returned (Inl ())))))"

section \<open>Example bodies\<close>

definition ex_i32 :: "u128 \<Rightarrow> operand" where
  "ex_i32 v = Op_Constant (MC_Val (CV_Scalar (Scalar_Int \<lparr>si_data = v, si_size = 4\<rparr>)) (Ty_Int I32))"

text \<open>\<open>_1 = Div(const 16, const 2); _2 = Sub(const 3, copy _1)\<close>\<close>

definition ex_half :: body where
  "ex_half = \<lparr>basic_blocks =
      [ex_block [Stmt_Assign (local_place 1) (Rv_BinaryOp BinOp_Div (ex_i32 16) (ex_i32 2)),
                 Stmt_Assign (local_place 2) (Rv_BinaryOp BinOp_Sub (ex_i32 3) (Op_Copy (local_place 1)))]
         Term_Return],
    local_decls = [Ty_Tuple [], Ty_Int I32, Ty_Int I32], arg_count = 0\<rparr>"

text \<open>\<open>loop { _1 = Div(copy _1, const 2) }\<close> on an argument.\<close>

definition ex_self :: body where
  "ex_self = \<lparr>basic_blocks =
      [ex_block [Stmt_Assign (local_place 1) (Rv_BinaryOp BinOp_Div (Op_Copy (local_place 1)) (ex_i32 2))]
         (Term_Goto 0)],
    local_decls = [Ty_Tuple [], Ty_Int I32], arg_count = 1\<rparr>"

lemma ex_half_assigns:
  "assigned_rvalue 1 (Stmt_Assign (local_place 1) rv) = Some rv"
  "all_statements ex_half =
     [Stmt_Assign (local_place 1) (Rv_BinaryOp BinOp_Div (ex_i32 16) (ex_i32 2)),
      Stmt_Assign (local_place 2) (Rv_BinaryOp BinOp_Sub (ex_i32 3) (Op_Copy (local_place 1)))]"
  by (simp_all add: assigned_rvalue_def all_statements_def ex_half_def ex_block_def)

section \<open>Fuel does not change a result\<close>

text \<open>\<open>f\<close> is extended by \<open>g\<close>: where \<open>f\<close> finishes, \<open>g\<close> finishes with the same outcome.\<close>

definition extends :: "('a \<Rightarrow> fold_result) \<Rightarrow> ('a \<Rightarrow> fold_result) \<Rightarrow> bool" where
  "extends f g \<longleftrightarrow> (\<forall>a r. f a = Some r \<longrightarrow> g a = Some r)"

lemma fold_try_Some:
  "fold_try r k = Some o' \<longleftrightarrow>
     r = Some Panicked \<and> o' = Panicked \<or> r = Some (Returned None) \<and> o' = Returned None \<or>
     (\<exists>v. r = Some (Returned (Some v)) \<and> k v = Some o')"
  by (auto simp: fold_try_def split: option.splits outcome.splits)

lemma fold_operand_extends:
  "extends f g \<Longrightarrow> extends (fold_operand_as_i32 f ix) (fold_operand_as_i32 g ix)"
  by (auto simp: extends_def fold_operand_as_i32_def split: operand.splits option.splits)

lemma fold_rvalue_extends: "extends f g \<Longrightarrow> extends (fold_rvalue f) (fold_rvalue g)"
  unfolding extends_def fold_rvalue_def
  by (auto split: rvalue.split rvalue.split_asm simp: fold_try_Some)

lemma fold_local_Suc_extends:
  assumes "extends (fold_local_as_i32 n ix mir) (fold_local_as_i32 m ix mir)"
  shows "extends (fold_local_as_i32 (Suc n) ix mir) (fold_local_as_i32 (Suc m) ix mir)"
proof -
  have "extends (fold_rvalue (fold_operand_as_i32 (fold_local_as_i32 n ix mir) ix))
      (fold_rvalue (fold_operand_as_i32 (fold_local_as_i32 m ix mir) ix))"
    by (rule fold_rvalue_extends [OF fold_operand_extends [OF assms]])
  then show ?thesis by (auto simp: extends_def split: option.splits)
qed

lemma fold_local_step: "extends (fold_local_as_i32 n ix mir) (fold_local_as_i32 (Suc n) ix mir)"
proof (induction n)
  case 0
  show ?case by (simp add: extends_def)
next
  case (Suc n)
  then show ?case by (rule fold_local_Suc_extends)
qed

lemma fold_local_mono:
  assumes "fold_local_as_i32 n ix mir l = Some r" "n \<le> m"
  shows "fold_local_as_i32 m ix mir l = Some r"
  using assms(2,1)
proof (induction rule: dec_induct)
  case (step k)
  then show ?case using fold_local_step unfolding extends_def by blast
qed

section \<open>Termination and divergence\<close>

fun rvalue_reads :: "rvalue \<Rightarrow> operand list" where
  "rvalue_reads (Rv_Use op) = [op]"
| "rvalue_reads (Rv_BinaryOp _ l r) = [l, r]"
| "rvalue_reads (Rv_UnaryOp _ op) = [op]"
| "rvalue_reads _ = []"

text \<open>The local \<open>l\<close> is folded through \<open>l'\<close>.\<close>

definition folds_through :: "body \<Rightarrow> local \<Rightarrow> local \<Rightarrow> bool" where
  "folds_through mir l l' \<longleftrightarrow>
     (\<exists>rv op. find_map (assigned_rvalue l) (all_statements mir) = Some rv \<and>
        op \<in> set (rvalue_reads rv) \<and> bare_local op = Some l')"

lemma fold_operand_returns:
  assumes "\<And>l. bare_local op = Some l \<Longrightarrow> \<exists>r. f l = Some r"
  shows "\<exists>r. fold_operand_as_i32 f ix op = Some r"
proof (cases op)
  case (Op_Constant c)
  then show ?thesis
    by (auto simp: fold_operand_as_i32_def scalar_result_def split: mir_const.split
        const_value.split scalar.split ty_const.split option.split)
qed (use assms in \<open>auto simp: fold_operand_as_i32_def split: option.split\<close>)

lemma fold_rvalue_returns:
  assumes "\<And>op. op \<in> set (rvalue_reads rv) \<Longrightarrow> \<exists>r. f op = Some r"
  shows "\<exists>r. fold_rvalue f rv = Some r"
  using assms
  by (cases rv) (fastforce simp: fold_rvalue_def fold_try_def split: option.split outcome.split)+





section \<open>Soundness\<close>

text \<open>
  A valuation of the locals by 32-bit integers, and the value an operand or rvalue has in it;
  \<open>None\<close> where the value is not a 32-bit integer or the operation is not one the folding knows.
\<close>

definition operand_value :: "instance_ctx \<Rightarrow> (local \<Rightarrow> i32) \<Rightarrow> operand \<Rightarrow> i32 option" where
  "operand_value ix \<sigma> op =
     (case op of
        Op_Constant c \<Rightarrow>
          (case to_scalar_int ix op of Some (Inr s) \<Rightarrow> to_i32 s | _ \<Rightarrow> None)
      | _ \<Rightarrow> map_option \<sigma> (bare_local op))"

fun rvalue_value :: "instance_ctx \<Rightarrow> (local \<Rightarrow> i32) \<Rightarrow> rvalue \<Rightarrow> i32 option" where
  "rvalue_value ix \<sigma> (Rv_Use op) = operand_value ix \<sigma> op"
| "rvalue_value ix \<sigma> (Rv_BinaryOp bop l r) =
     do { a \<leftarrow> operand_value ix \<sigma> l; b \<leftarrow> operand_value ix \<sigma> r; fold_binop bop a b }"
| "rvalue_value ix \<sigma> (Rv_UnaryOp uop op) = do { a \<leftarrow> operand_value ix \<sigma> op; fold_unop uop a }"
| "rvalue_value ix \<sigma> _ = None"

text \<open>The valuation satisfies the defining equation of every local that is assigned once.\<close>

definition models_assigns :: "instance_ctx \<Rightarrow> body \<Rightarrow> (local \<Rightarrow> i32) \<Rightarrow> bool" where
  "models_assigns ix mir \<sigma> \<longleftrightarrow>
     (\<forall>l s rv v. s \<in> set (all_statements mir) \<longrightarrow> assigned_rvalue l s = Some rv \<longrightarrow>
        rvalue_value ix \<sigma> rv = Some v \<longrightarrow> \<sigma> l = v)"

lemma fold_operand_value:
  assumes "fold_operand_as_i32 f ix op = Some (Returned (Some v))"
    and "\<And>l w. f l = Some (Returned (Some w)) \<Longrightarrow> \<sigma> l = w"
  shows "operand_value ix \<sigma> op = Some v"
proof (cases op)
  case (Op_Constant c)
  then show ?thesis
    using assms(1)
    by (auto simp: fold_operand_as_i32_def operand_value_def to_scalar_int_def scalar_result_def
        split: mir_const.splits const_value.splits scalar.splits ty_const.splits option.splits if_splits)
qed (use assms in \<open>auto simp: fold_operand_as_i32_def operand_value_def split: option.splits if_splits\<close>)

lemma fold_rvalue_value:
  assumes "fold_rvalue (fold_operand_as_i32 f ix) rv = Some (Returned (Some v))"
    and "\<And>l w. f l = Some (Returned (Some w)) \<Longrightarrow> \<sigma> l = w"
  shows "rvalue_value ix \<sigma> rv = Some v"
  using assms(1) fold_operand_value [OF _ assms(2)]
  by (cases rv) (auto simp: fold_rvalue_def fold_try_Some)


lemma ex_div: "wrapping_div 16 2 = 8"
  by (simp add: wrapping_div_def signed_divide_int_def)

lemma ex_half_folds: "fold_local_as_i32 (Suc (Suc 0)) ex_ix ex_half 2 = Some (Returned (Some (- 5)))"
  by (simp add: ex_half_assigns assigned_rvalue_def fold_rvalue_def fold_try_def
      fold_operand_as_i32_def scalar_result_def ex_i32_def to_i32_def to_bits_def fold_binop_def ex_div)


text \<open>Constants that are not four bytes wide, such as \<open>usize\<close> ones, are not reported as the
  error \<open>InvalidScalar\<close>: evaluating them panics.\<close>

theorem try_eval_const_i32_wide_panics:
  assumes "si_size s \<noteq> 4"
  shows "try_eval_const_i32 fuel ix mir (Op_Constant (MC_Val (CV_Scalar (Scalar_Int s)) t)) = Some Panicked"
  using assms by (simp add: try_eval_const_i32_def to_scalar_int_def to_i32_def to_bits_def)

theorem try_eval_const_i32_wide_panics_witness:
  "try_eval_const_i32 1 ex_ix ex_half
     (Op_Constant (MC_Val (CV_Scalar (Scalar_Int \<lparr>si_data = 16, si_size = 8\<rparr>)) (Ty_Uint Usize))) =
   Some Panicked"
  by (rule try_eval_const_i32_wide_panics) simp

end
