(* ===== verification/Triton_Loops.thy ===== *)
theory Triton_Loops
  imports Triton_Fold
begin

text \<open>
  Detection of loops (\<open>detect_range_loop\<close>, \<open>detect_while_loop\<close> and their helpers in
  \<open>triton/mod.rs\<close>). A back edge is a \<open>Goto\<close> to an earlier block; the header decides which of the
  two patterns applies, the body is collected by a breadth-first search that stops at the
  header, and the locals that carry values across iterations are those the body reads before it
  assigns them, in the order of the collected blocks.

  As elsewhere \<open>None\<close> of the outer \<open>option\<close> is a panic (a block index out of range, a generic
  argument that is missing or not evaluated).
\<close>

section \<open>Loop descriptions\<close>

record range_loop_info =
  rl_header_bb :: basic_block
  rl_body_entry_bb :: basic_block
  rl_body_bbs :: "basic_block list"
  rl_back_edge_bb :: basic_block
  rl_exit_bb :: basic_block
  rl_counter_local :: local
  rl_bound_local :: "local option"
  rl_bound_const :: "i64 option"
  rl_induction_local :: local
  rl_iter_carry_locals :: "local list"
  rl_switch_bb :: "basic_block option"
  rl_next_result_local :: "local option"
  rl_extra_loop_region_bbs :: "basic_block list"

record while_loop_info =
  wl_header_bb :: basic_block
  wl_body_entry_bb :: basic_block
  wl_body_bbs :: "basic_block list"
  wl_back_edge_bb :: basic_block
  wl_exit_bb :: basic_block
  wl_iter_carry_locals :: "local list"

record header_info =
  hi_body_entry_bb :: basic_block
  hi_exit_bb :: basic_block
  hi_counter_local_hint :: "local option"
  hi_bound_local :: "local option"
  hi_bound_const :: "i64 option"
  hi_switch_bb :: "basic_block option"
  hi_next_result_local :: "local option"
  hi_extra_loop_region_bbs :: "basic_block list"

section \<open>Bounds and counters\<close>

definition try_const_operand_as_i64 :: "mir_const \<Rightarrow> i64 option" where
  "try_const_operand_as_i64 c =
     map_option (\<lambda>s. ucast (to_bits_unchecked s)) (mir_const_try_to_scalar_int c)"

definition copy_source :: "local \<Rightarrow> statement \<Rightarrow> local option" where
  "copy_source l s =
     (case assigned_rvalue l s of
        Some (Rv_Use op) \<Rightarrow> bare_local op
      | _ \<Rightarrow> None)"

definition find_copy_source_in_stmts :: "statement list \<Rightarrow> local \<Rightarrow> local option" where
  "find_copy_source_in_stmts stmts l = find_map (copy_source l) (rev stmts)"

definition lt_operands :: "local \<Rightarrow> statement \<Rightarrow> (operand \<times> operand) option" where
  "lt_operands l s =
     (case assigned_rvalue l s of
        Some (Rv_BinaryOp BinOp_Lt lhs rhs) \<Rightarrow> Some (lhs, rhs)
      | _ \<Rightarrow> None)"

text \<open>The bound: a local or a constant.\<close>

definition lt_bound :: "instance_ctx \<Rightarrow> operand \<Rightarrow> (local option \<times> i64 option) option option" where
  "lt_bound ix rhs =
     (case rhs of
        Op_Constant c \<Rightarrow>
          (case try_const_operand_as_i64 c of
             Some v \<Rightarrow> Some (Some (None, Some v))
           | None \<Rightarrow>
               (case c of
                  MC_Ty t (Const_Param i) \<Rightarrow>
                    if is_integral t then do {
                      leaf \<leftarrow> param_leaf ix i;
                      Some (map_option (\<lambda>s. (None, Some (ucast (to_bits_unchecked s)))) leaf) }
                    else Some None
                | _ \<Rightarrow> Some None))
      | _ \<Rightarrow> Some (map_option (\<lambda>l. (Some l, None)) (bare_local rhs)))"

definition find_lt_locals_in_stmts ::
    "statement list \<Rightarrow> local \<Rightarrow> instance_ctx \<Rightarrow>
     (local \<times> local option \<times> i64 option) option option" where
  "find_lt_locals_in_stmts stmts discr_local ix =
     (case find_map (lt_operands discr_local) stmts of
        None \<Rightarrow> Some None
      | Some (lhs, rhs) \<Rightarrow>
          (case bare_local lhs of
             None \<Rightarrow> Some None
           | Some counter_copy \<Rightarrow>
               let counter_local =
                 (case find_copy_source_in_stmts stmts counter_copy of
                    Some l \<Rightarrow> l | None \<Rightarrow> counter_copy)
               in do {
                 bound \<leftarrow> lt_bound ix rhs;
                 Some (map_option (\<lambda>(bl, bc). (counter_local, bl, bc)) bound) }))"

definition range_bound_of_stmt :: "statement \<Rightarrow> (i64 option \<times> local option) option" where
  "range_bound_of_stmt s =
     (case s of
        Stmt_Assign _ (Rv_Aggregate kind flds) \<Rightarrow>
          if is_adt_aggregate kind \<and> length flds = 2 then
            (case flds ! 1 of
               Op_Constant c \<Rightarrow> map_option (\<lambda>v. (Some v, None)) (try_const_operand_as_i64 c)
             | end_op \<Rightarrow> map_option (\<lambda>l. (None, Some l)) (bare_local end_op))
          else None
      | _ \<Rightarrow> None)"

text \<open>The blocks before the header, all of which exist when the header does.\<close>

definition find_range_bound :: "body \<Rightarrow> basic_block \<Rightarrow> (i64 option \<times> local option) option" where
  "find_range_bound mir header_bb =
     find_map range_bound_of_stmt
       (concat (map bb_statements (take header_bb (basic_blocks mir))))"

section \<open>The body of a loop\<close>

text \<open>The targets that are queued, in order.\<close>

definition body_targets :: "basic_block \<Rightarrow> terminator \<Rightarrow> basic_block list" where
  "body_targets header_bb t =
     (case t of
        Term_Goto target \<Rightarrow> if target \<noteq> header_bb then [target] else []
      | Term_Call _ _ _ (Some target) _ \<Rightarrow> if target \<noteq> header_bb then [target] else []
      | Term_Assert _ _ target _ \<Rightarrow> if target \<noteq> header_bb then [target] else []
      | Term_SwitchInt _ targets \<Rightarrow> filter (\<lambda>target. target \<noteq> header_bb) (all_targets targets)
      | _ \<Rightarrow> [])"

function body_loop ::
    "body \<Rightarrow> basic_block \<Rightarrow> basic_block list \<Rightarrow> basic_block list \<Rightarrow> basic_block list option" where
  "body_loop mir header_bb [] result = Some result"
| "body_loop mir header_bb (bb # queue) result =
     (if bb \<in> set result \<or> bb = header_bb then body_loop mir header_bb queue result
      else case terminator_at mir bb of
        None \<Rightarrow> None
      | Some t \<Rightarrow>
          if t = Term_Unreachable then body_loop mir header_bb queue result
          else body_loop mir header_bb (queue @ body_targets header_bb t) (result @ [bb]))"
  by pat_completeness auto
termination
proof (relation "measures [\<lambda>(mir, h, q, R). card ({..<length (basic_blocks mir)} - set R),
                          \<lambda>(mir, h, q, R). length q]", goal_cases)
  case (4 mir h bb queue result t)
  then have "bb < length (basic_blocks mir)" by (auto intro: terminator_at_in_range)
  from card_diff_insert_less [OF this, of "set result"] 4(1) show ?case
    by (simp del: Diff_insert card_Diff_insert)
qed auto

definition collect_body_blocks_ordered ::
    "body \<Rightarrow> basic_block \<Rightarrow> basic_block \<Rightarrow> basic_block list option" where
  "collect_body_blocks_ordered mir body_entry_bb header_bb = body_loop mir header_bb [body_entry_bb] []"

definition induction_of_stmt :: "statement \<Rightarrow> local option" where
  "induction_of_stmt s =
     (case s of
        Stmt_Assign dest (Rv_Use (Op_Copy src)) \<Rightarrow>
          if p_projection dest = [] \<and> list_ex is_downcast (p_projection src)
          then Some (p_local dest) else None
      | Stmt_Assign dest (Rv_Use (Op_Move src)) \<Rightarrow>
          if p_projection dest = [] \<and> list_ex is_downcast (p_projection src)
          then Some (p_local dest) else None
      | _ \<Rightarrow> None)"

text \<open>The statements of a sequence of blocks; indexing panics out of range.\<close>

definition stmts_of_bbs :: "body \<Rightarrow> basic_block list \<Rightarrow> statement list option" where
  "stmts_of_bbs mir bbs = map_option concat (those (map (statements_at mir) bbs))"

definition find_induction_local_in_bbs :: "body \<Rightarrow> basic_block list \<Rightarrow> local option option" where
  "find_induction_local_in_bbs mir body_bbs =
     do { ss \<leftarrow> stmts_of_bbs mir body_bbs; Some (find_map induction_of_stmt ss) }"

section \<open>Uses and assignments\<close>

fun operand_uses_local :: "operand \<Rightarrow> local \<Rightarrow> bool" where
  "operand_uses_local (Op_Copy p) l \<longleftrightarrow> p_local p = l"
| "operand_uses_local (Op_Move p) l \<longleftrightarrow> p_local p = l"
| "operand_uses_local (Op_Constant _) l \<longleftrightarrow> False"
| "operand_uses_local (Op_RuntimeChecks _) l \<longleftrightarrow> False"

fun rvalue_uses_local :: "rvalue \<Rightarrow> local \<Rightarrow> bool" where
  "rvalue_uses_local (Rv_Use op) l \<longleftrightarrow> operand_uses_local op l"
| "rvalue_uses_local (Rv_Repeat op _) l \<longleftrightarrow> operand_uses_local op l"
| "rvalue_uses_local (Rv_Cast _ op _) l \<longleftrightarrow> operand_uses_local op l"
| "rvalue_uses_local (Rv_BinaryOp _ a b) l \<longleftrightarrow> operand_uses_local a l \<or> operand_uses_local b l"
| "rvalue_uses_local (Rv_UnaryOp _ op) l \<longleftrightarrow> operand_uses_local op l"
| "rvalue_uses_local (Rv_Aggregate _ flds) l \<longleftrightarrow> list_ex (\<lambda>f. operand_uses_local f l) flds"
| "rvalue_uses_local (Rv_Ref _ p) l \<longleftrightarrow> p_local p = l"
| "rvalue_uses_local (Rv_RawPtr _ p) l \<longleftrightarrow> p_local p = l"
| "rvalue_uses_local _ l \<longleftrightarrow> False"

definition local_used_in_stmt :: "statement \<Rightarrow> local \<Rightarrow> bool" where
  "local_used_in_stmt s l = (case s of Stmt_Assign _ rv \<Rightarrow> rvalue_uses_local rv l | _ \<Rightarrow> False)"

definition local_assigned_in_stmt :: "statement \<Rightarrow> local \<Rightarrow> bool" where
  "local_assigned_in_stmt s l =
     (case s of Stmt_Assign dest _ \<Rightarrow> p_local dest = l \<and> p_projection dest = [] | _ \<Rightarrow> False)"

section \<open>Loop-carried locals\<close>

text \<open>The whole locals a block assigns, in order: by its statements, then by its call.\<close>

definition block_assigns :: "basic_block_data \<Rightarrow> local list" where
  "block_assigns d =
     concat (map (\<lambda>s. case s of
         Stmt_Assign dest _ \<Rightarrow> if p_projection dest = [] then [p_local dest] else []
       | _ \<Rightarrow> []) (bb_statements d)) @
     (case bb_terminator d of
        Some (Term_Call _ _ dest _ _) \<Rightarrow> if p_projection dest = [] then [p_local dest] else []
      | _ \<Rightarrow> [])"

text \<open>\<open>if set.insert(l) { vec.push(l) }\<close> over a sequence.\<close>

definition push_new :: "local \<Rightarrow> local list \<Rightarrow> local list" where
  "push_new l ls = (if l \<in> set ls then ls else ls @ [l])"

definition ordered_candidates :: "basic_block_data list \<Rightarrow> local list" where
  "ordered_candidates ds = fold push_new (concat (map block_assigns ds)) []"

text \<open>The scan of the statements of a block; \<open>None\<close> is \<open>break 'scan\<close> after a use before an
  assignment.\<close>

fun scan_stmts :: "local \<Rightarrow> bool \<Rightarrow> statement list \<Rightarrow> bool option" where
  "scan_stmts cand assigned [] = Some assigned"
| "scan_stmts cand assigned (s # ss) =
     (if \<not> assigned \<and> local_used_in_stmt s cand then None
      else scan_stmts cand (assigned \<or> local_assigned_in_stmt s cand) ss)"

definition term_uses :: "basic_block_data \<Rightarrow> local \<Rightarrow> bool" where
  "term_uses d l =
     (case bb_terminator d of
        Some (Term_Call _ args _ _ _) \<Rightarrow> list_ex (\<lambda>a. operand_uses_local a l) args
      | _ \<Rightarrow> False)"

definition term_assigns :: "basic_block_data \<Rightarrow> local \<Rightarrow> bool" where
  "term_assigns d l =
     (case bb_terminator d of Some (Term_Call _ _ dest _ _) \<Rightarrow> p_local dest = l | _ \<Rightarrow> False)"

fun scan_blocks :: "local \<Rightarrow> bool \<Rightarrow> basic_block_data list \<Rightarrow> bool" where
  "scan_blocks cand assigned [] = False"
| "scan_blocks cand assigned (d # ds) =
     (case scan_stmts cand assigned (bb_statements d) of
        None \<Rightarrow> True
      | Some assigned' \<Rightarrow>
          if \<not> assigned' \<and> term_uses d cand then True
          else scan_blocks cand (assigned' \<or> term_assigns d cand) ds)"

definition find_iter_carry_locals :: "body \<Rightarrow> basic_block list \<Rightarrow> local list option" where
  "find_iter_carry_locals mir body_bbs = do {
     ds \<leftarrow> those (map (block_at mir) body_bbs);
     Some (filter (\<lambda>cand. scan_blocks cand False ds) (ordered_candidates ds)) }"

section \<open>While loops\<close>

text \<open>A switch with the single case 0, the shape of a test on a \<open>bool\<close>.\<close>

definition bool_cases :: "switch_targets \<Rightarrow> basic_block option" where
  "bool_cases targets =
     (case switch_iter targets of
        [(v, bb)] \<Rightarrow> if v = 0 then Some bb else None
      | _ \<Rightarrow> None)"

definition try_build_while_loop_info ::
    "body \<Rightarrow> basic_block \<Rightarrow> basic_block \<Rightarrow> basic_block set \<Rightarrow> while_loop_info option option" where
  "try_build_while_loop_info mir header_bb back_edge_bb range_loop_blocks = do {
     t \<leftarrow> terminator_at mir header_bb;
     (case t of
        Term_SwitchInt _ targets \<Rightarrow>
          (case bool_cases targets of
             Some exit_bb \<Rightarrow> do {
                 body_entry_bb \<leftarrow> otherwise targets;
                 body_bbs \<leftarrow> collect_body_blocks_ordered mir body_entry_bb header_bb;
                 if body_bbs = [] \<or> back_edge_bb \<notin> set body_bbs then Some None
                 else if list_ex (\<lambda>bb. bb \<in> range_loop_blocks) body_bbs then Some None
                 else do {
                   carry \<leftarrow> find_iter_carry_locals mir body_bbs;
                   Some (Some \<lparr>wl_header_bb = header_bb, wl_body_entry_bb = body_entry_bb,
                     wl_body_bbs = body_bbs, wl_back_edge_bb = back_edge_bb, wl_exit_bb = exit_bb,
                     wl_iter_carry_locals = carry\<rparr>) } }
           | None \<Rightarrow> Some None)
      | _ \<Rightarrow> Some None) }"

text \<open>The back edges of a body in the order of the blocks, as pairs of header and source.\<close>

definition back_edge_of :: "basic_block \<times> terminator \<Rightarrow> (basic_block \<times> basic_block) option" where
  "back_edge_of e =
     (case snd e of
        Term_Goto target \<Rightarrow> if target < fst e then Some (target, fst e) else None
      | _ \<Rightarrow> None)"

definition back_edges :: "body \<Rightarrow> (basic_block \<times> basic_block) list option" where
  "back_edges mir = do {
     ts \<leftarrow> those (map bb_terminator (basic_blocks mir));
     Some (List.map_filter back_edge_of (enumerate 0 ts)) }"

fun push_infos :: "('e \<Rightarrow> 'a option option) \<Rightarrow> 'e list \<Rightarrow> 'a list option" where
  "push_infos build [] = Some []"
| "push_infos build (e # es) = do {
     info \<leftarrow> build e;
     rest \<leftarrow> push_infos build es;
     Some (case info of Some i \<Rightarrow> i # rest | None \<Rightarrow> rest) }"

definition detect_while_loop :: "body \<Rightarrow> basic_block set \<Rightarrow> while_loop_info list option" where
  "detect_while_loop mir range_loop_blocks = do {
     edges \<leftarrow> back_edges mir;
     push_infos (\<lambda>(header_bb, back_edge_bb).
         if header_bb \<in> range_loop_blocks \<or> back_edge_bb \<in> range_loop_blocks then Some None
         else try_build_while_loop_info mir header_bb back_edge_bb range_loop_blocks) edges }"

section \<open>Range loops\<close>

definition goto_target :: "body \<Rightarrow> basic_block \<Rightarrow> basic_block option option" where
  "goto_target mir bb = do {
     t \<leftarrow> terminator_at mir bb;
     Some (case t of Term_Goto target \<Rightarrow> Some target | _ \<Rightarrow> None) }"

definition discriminant_source :: "local \<Rightarrow> statement \<Rightarrow> local option" where
  "discriminant_source l s =
     (case assigned_rvalue l s of
        Some (Rv_Discriminant src) \<Rightarrow> if p_projection src = [] then Some (p_local src) else None
      | _ \<Rightarrow> None)"

definition option_cases :: "switch_targets \<Rightarrow> (basic_block \<times> basic_block) option" where
  "option_cases targets =
     (case switch_iter targets of
        [(v0, bb0), (v1, bb1)] \<Rightarrow> if v0 = 0 \<and> v1 = 1 then Some (bb0, bb1) else None
      | _ \<Rightarrow> None)"

definition try_detect_convergent_option_switch ::
    "body \<Rightarrow> basic_block \<Rightarrow> basic_block \<Rightarrow>
     (basic_block \<times> basic_block \<times> basic_block \<times> local) option option" where
  "try_detect_convergent_option_switch mir raw_exit_bb raw_body_entry_bb = do {
     g1 \<leftarrow> goto_target mir raw_exit_bb;
     (case g1 of
        None \<Rightarrow> Some None
      | Some switch_bb \<Rightarrow> do {
          g2 \<leftarrow> goto_target mir raw_body_entry_bb;
          if g2 \<noteq> Some switch_bb then Some None
          else do {
            t \<leftarrow> terminator_at mir switch_bb;
            ss \<leftarrow> statements_at mir switch_bb;
            Some (case t of
                Term_SwitchInt discr targets \<Rightarrow>
                  (case option_cases targets of
                     None \<Rightarrow> None
                   | Some (exit_bb, body_entry_bb) \<Rightarrow>
                       (case bare_local discr of
                          None \<Rightarrow> None
                        | Some discr_local \<Rightarrow>
                            map_option (\<lambda>l. (switch_bb, exit_bb, body_entry_bb, l))
                              (find_map (discriminant_source discr_local) ss)))
              | _ \<Rightarrow> None) } }) }"

text \<open>Pattern 1: a comparison in the header, whose branches may converge on a switch over the
  discriminant of an \<open>Option\<close>.\<close>

definition mk_lt_header ::
    "basic_block \<Rightarrow> basic_block \<Rightarrow> local \<times> local option \<times> i64 option \<Rightarrow>
     (basic_block \<times> basic_block \<times> basic_block \<times> local) option \<Rightarrow> header_info" where
  "mk_lt_header raw_exit_bb raw_body_entry_bb lt conv =
     (let (counter_local, bl, bc) = lt in
      case conv of
        Some (switch_bb, exit_bb, body_entry_bb, next_result_local) \<Rightarrow>
          \<lparr>hi_body_entry_bb = body_entry_bb, hi_exit_bb = exit_bb,
           hi_counter_local_hint = Some counter_local, hi_bound_local = bl,
           hi_bound_const = bc, hi_switch_bb = Some switch_bb,
           hi_next_result_local = Some next_result_local,
           hi_extra_loop_region_bbs = [raw_exit_bb, raw_body_entry_bb]\<rparr>
      | None \<Rightarrow>
          \<lparr>hi_body_entry_bb = raw_body_entry_bb, hi_exit_bb = raw_exit_bb,
           hi_counter_local_hint = Some counter_local, hi_bound_local = bl,
           hi_bound_const = bc, hi_switch_bb = None,
           hi_next_result_local = None, hi_extra_loop_region_bbs = []\<rparr>)"

definition lt_header :: "instance_ctx \<Rightarrow> body \<Rightarrow> basic_block \<Rightarrow> header_info option option" where
  "lt_header ix mir header_bb = do {
     t \<leftarrow> terminator_at mir header_bb;
     ss \<leftarrow> statements_at mir header_bb;
     (case t of
        Term_SwitchInt discr targets \<Rightarrow>
          (case (bool_cases targets, bare_local discr) of
             (Some raw_exit_bb, Some discr_local) \<Rightarrow> do {
               raw_body_entry_bb \<leftarrow> otherwise targets;
               found \<leftarrow> find_lt_locals_in_stmts ss discr_local ix;
               (case found of
                  None \<Rightarrow> Some None
                | Some lt \<Rightarrow> do {
                    conv \<leftarrow> try_detect_convergent_option_switch mir raw_exit_bb raw_body_entry_bb;
                    Some (Some (mk_lt_header raw_exit_bb raw_body_entry_bb lt conv)) }) }
           | _ \<Rightarrow> Some None)
      | _ \<Rightarrow> Some None) }"

text \<open>Pattern 2: the header calls \<open>Range::next\<close> and a switch over the result follows.\<close>

definition call_header :: "body \<Rightarrow> basic_block \<Rightarrow> header_info option option" where
  "call_header mir header_bb = do {
     t \<leftarrow> terminator_at mir header_bb;
     (case t of
        Term_Call _ _ destination (Some switch_bb) _ \<Rightarrow> do {
          st \<leftarrow> terminator_at mir switch_bb;
          Some (case st of
              Term_SwitchInt _ targets \<Rightarrow>
                (case option_cases targets of
                   Some (exit_bb, body_entry_bb) \<Rightarrow>
                     if p_projection destination = [] then
                       map_option (\<lambda>(bc, bl).
                           \<lparr>hi_body_entry_bb = body_entry_bb, hi_exit_bb = exit_bb,
                            hi_counter_local_hint = None, hi_bound_local = bl,
                            hi_bound_const = bc, hi_switch_bb = Some switch_bb,
                            hi_next_result_local = Some (p_local destination),
                            hi_extra_loop_region_bbs = []\<rparr>)
                         (find_range_bound mir header_bb)
                     else None
                 | None \<Rightarrow> None)
            | _ \<Rightarrow> None) }
      | _ \<Rightarrow> Some None) }"

definition detect_header :: "instance_ctx \<Rightarrow> body \<Rightarrow> basic_block \<Rightarrow> header_info option option" where
  "detect_header ix mir header_bb = do {
     h \<leftarrow> lt_header ix mir header_bb;
     (case h of Some i \<Rightarrow> Some (Some i) | None \<Rightarrow> call_header mir header_bb) }"

text \<open>The description that is returned; the result of \<open>Range::next\<close> is not carried.\<close>

definition mk_range_loop ::
    "basic_block \<Rightarrow> basic_block \<Rightarrow> header_info \<Rightarrow> basic_block list \<Rightarrow> local \<Rightarrow> local list \<Rightarrow> range_loop_info" where
  "mk_range_loop header_bb back_edge_bb hinfo body_bbs induction_local carry =
     \<lparr>rl_header_bb = header_bb, rl_body_entry_bb = hi_body_entry_bb hinfo,
      rl_body_bbs = body_bbs, rl_back_edge_bb = back_edge_bb,
      rl_exit_bb = hi_exit_bb hinfo,
      rl_counter_local =
        (case hi_counter_local_hint hinfo of Some l \<Rightarrow> l | None \<Rightarrow> induction_local),
      rl_bound_local = hi_bound_local hinfo, rl_bound_const = hi_bound_const hinfo,
      rl_induction_local = induction_local,
      rl_iter_carry_locals =
        (case hi_next_result_local hinfo of
           Some nrl \<Rightarrow> filter (\<lambda>l. l \<noteq> nrl) carry | None \<Rightarrow> carry),
      rl_switch_bb = hi_switch_bb hinfo,
      rl_next_result_local = hi_next_result_local hinfo,
      rl_extra_loop_region_bbs = hi_extra_loop_region_bbs hinfo\<rparr>"

definition try_build_range_loop_info ::
    "instance_ctx \<Rightarrow> body \<Rightarrow> basic_block \<Rightarrow> basic_block \<Rightarrow> range_loop_info option option" where
  "try_build_range_loop_info ix mir header_bb back_edge_bb = do {
     h \<leftarrow> detect_header ix mir header_bb;
     (case h of
        None \<Rightarrow> Some None
      | Some hinfo \<Rightarrow> do {
          body_bbs \<leftarrow> collect_body_blocks_ordered mir (hi_body_entry_bb hinfo) header_bb;
          if back_edge_bb \<notin> set body_bbs then Some None
          else do {
            ind \<leftarrow> find_induction_local_in_bbs mir body_bbs;
            (case ind of
               None \<Rightarrow> Some None
             | Some induction_local \<Rightarrow> do {
                 carry \<leftarrow> find_iter_carry_locals mir body_bbs;
                 Some (Some (mk_range_loop header_bb back_edge_bb hinfo body_bbs
                   induction_local carry)) }) } }) }"

definition detect_range_loop :: "instance_ctx \<Rightarrow> body \<Rightarrow> range_loop_info list option" where
  "detect_range_loop ix mir = do {
     edges \<leftarrow> back_edges mir;
     push_infos (\<lambda>(header_bb, back_edge_bb).
       try_build_range_loop_info ix mir header_bb back_edge_bb) edges }"

end
