(* ===== verification/Triton_Loop_Props.thy ===== *)
theory Triton_Loop_Props
  imports Triton_Loops
begin

text \<open>
  What the loop detection guarantees: the collected body is the set of blocks reachable from the
  body entry without the header, every reported loop is well formed, and the loop-carried locals
  are those read before they are assigned in the order of the body blocks. That order is one
  order only: a local that a branch of the body assigns is missed, although a path that avoids
  the branch reads the value of the iteration before.
\<close>

section \<open>The body\<close>

definition body_succ :: "body \<Rightarrow> basic_block \<Rightarrow> basic_block \<Rightarrow> basic_block list" where
  "body_succ mir h bb = (case terminator_at mir bb of Some t \<Rightarrow> body_targets h t | None \<Rightarrow> [])"

definition body_skip :: "body \<Rightarrow> basic_block \<Rightarrow> basic_block \<Rightarrow> bool" where
  "body_skip mir h bb \<longleftrightarrow> bb = h \<or> unreachable_at mir bb"

lemma body_loop_run:
  assumes "body_loop mir h q R = Some r"
  shows "search_run enq_fifo (body_succ mir h) (body_skip mir h) q R r"
  using assms
proof (induction mir h q R rule: body_loop.induct)
  case (1 mir h R)
  then show ?case by (auto intro: search_done)
next
  case (2 mir h bb q R)
  show ?case
  proof (cases "bb \<in> set R \<or> bb = h")
    case True
    with "2.IH"(1) "2.prems" show ?thesis
      by (auto intro: search_seen search_skip simp: body_skip_def)
  next
    case False
    with "2.prems" obtain t where t: "terminator_at mir bb = Some t"
      by (auto split: option.splits)
    show ?thesis
    proof (cases "t = Term_Unreachable")
      case True
      with "2.IH"(2) "2.prems" False t show ?thesis
        by (auto intro!: search_skip simp: body_skip_def unreachable_at_def)
    next
      case live: False
      have "search_run enq_fifo (body_succ mir h) (body_skip mir h)
              (q @ body_targets h t) (R @ [bb]) r"
        using "2.IH"(3) [OF False t live] "2.prems" False t live by simp
      moreover have "enq_fifo (body_succ mir h bb) q = q @ body_targets h t"
        using t by (simp add: body_succ_def enq_fifo_def)
      moreover have "\<not> body_skip mir h bb"
        using False t live by (simp add: body_skip_def unreachable_at_def)
      ultimately show ?thesis using False by (auto intro: search_visit)
    qed
  qed
qed

lemma body_targets_successors: "set (body_targets h t) \<subseteq> set (successors t)"
  by (cases t) (auto simp: body_targets_def mk_successors_def all_targets_def split: option.splits)

lemma body_loop_total:
  assumes "body_wf mir" "\<forall>b\<in>set q. b < length (basic_blocks mir)"
  shows "\<exists>r. body_loop mir h q R = Some r"
  using assms
proof (induction mir h q R rule: body_loop.induct)
  case (2 mir h bb q R)
  obtain t where t: "terminator_at mir bb = Some t" "terminator_wf (length (basic_blocks mir)) t"
    using "2.prems" body_wf_terminator by (metis list.set_intros(1))
  have "\<forall>b\<in>set (q @ body_targets h t). b < length (basic_blocks mir)"
    using body_targets_successors [of h t] terminator_wf_successor [OF t(2)] "2.prems"(2) by auto
  then show ?case using "2.IH" "2.prems" t by auto
qed simp

lemma collect_body_run:
  assumes "collect_body_blocks_ordered mir e h = Some r"
  shows "search_run enq_fifo (body_succ mir h) (body_skip mir h) [e] [] r"
  using body_loop_run [OF assms [unfolded collect_body_blocks_ordered_def]] .

lemma collect_body_facts:
  assumes "collect_body_blocks_ordered mir e h = Some r"
  shows "distinct r" "h \<notin> set r" "set r = {b. live_reach (body_succ mir h) (body_skip mir h) [e] b}"
proof -
  note run = collect_body_run [OF assms]
  show "distinct r" using fifo.run_distinct [OF run] by simp
  have "set r \<inter> Collect (body_skip mir h) = {}" using fifo.run_no_skip [OF run] by simp
  then show "h \<notin> set r" by (auto simp: body_skip_def)
  show "set r = {b. live_reach (body_succ mir h) (body_skip mir h) [e] b}"
    by (rule fifo.run_exact [OF run])
qed

text \<open>Collected blocks exist.\<close>

lemma live_reach_in_range:
  assumes "live_reach (body_succ mir h) (body_skip mir h) [e] b" "body_wf mir" "e < length (basic_blocks mir)"
  shows "b < length (basic_blocks mir)"
  using assms(1)
proof (induction rule: live_reach.induct)
  case (live_start b)
  then show ?case using assms(3) by simp
next
  case (live_step a b)
  then obtain t where t: "terminator_at mir a = Some t" "terminator_wf (length (basic_blocks mir)) t"
    using body_wf_terminator [OF assms(2)] by blast
  then have "b \<in> set (successors t)"
    using live_step.hyps(2) body_targets_successors by (auto simp: body_succ_def)
  then show ?case using terminator_wf_successor [OF t(2)] by blast
qed

section \<open>Uses before assignments\<close>

text \<open>The reads and assignments of a sequence of blocks, in order.\<close>

datatype event = Ev_Stmt statement | Ev_Term basic_block_data

definition events :: "basic_block_data list \<Rightarrow> event list" where
  "events ds = concat (map (\<lambda>d. map Ev_Stmt (bb_statements d) @ [Ev_Term d]) ds)"

fun ev_reads :: "event \<Rightarrow> local \<Rightarrow> bool" where
  "ev_reads (Ev_Stmt s) l = local_used_in_stmt s l"
| "ev_reads (Ev_Term d) l = term_uses d l"

fun ev_writes :: "event \<Rightarrow> local \<Rightarrow> bool" where
  "ev_writes (Ev_Stmt s) l = local_assigned_in_stmt s l"
| "ev_writes (Ev_Term d) l = term_assigns d l"

definition read_first :: "local \<Rightarrow> event list \<Rightarrow> bool" where
  "read_first l es \<longleftrightarrow> (\<exists>i<length es. ev_reads (es ! i) l \<and> (\<forall>j<i. \<not> ev_writes (es ! j) l))"

lemma read_first_Nil [simp]: "\<not> read_first l []"
  by (simp add: read_first_def)

lemma read_first_Cons [simp]:
  "read_first l (e # es) \<longleftrightarrow> ev_reads e l \<or> \<not> ev_writes e l \<and> read_first l es"
proof
  assume "read_first l (e # es)"
  then obtain i where i: "i < length (e # es)" "ev_reads ((e # es) ! i) l"
    "\<And>j. j < i \<Longrightarrow> \<not> ev_writes ((e # es) ! j) l" unfolding read_first_def by blast
  show "ev_reads e l \<or> \<not> ev_writes e l \<and> read_first l es"
  proof (cases i)
    case 0
    then show ?thesis using i by simp
  next
    case (Suc k)
    then have "\<not> ev_writes e l" using i(3) [of 0] by simp
    moreover have "read_first l es"
      unfolding read_first_def using i Suc by (intro exI [of _ k]) fastforce
    ultimately show ?thesis by blast
  qed
next
  assume "ev_reads e l \<or> \<not> ev_writes e l \<and> read_first l es"
  then show "read_first l (e # es)"
  proof
    assume "ev_reads e l"
    then show ?thesis unfolding read_first_def by (intro exI [of _ 0]) simp
  next
    assume *: "\<not> ev_writes e l \<and> read_first l es"
    then obtain i where i: "i < length es" "ev_reads (es ! i) l" "\<forall>j<i. \<not> ev_writes (es ! j) l"
      unfolding read_first_def by blast
    then show ?thesis
      unfolding read_first_def using * by (intro exI [of _ "Suc i"]) (auto simp: nth_Cons split: nat.split)
  qed
qed

lemma scan_stmts_read_first:
  "read_first l (map Ev_Stmt ss @ es) \<longleftrightarrow>
     (case scan_stmts l False ss of None \<Rightarrow> True | Some assigned \<Rightarrow> \<not> assigned \<and> read_first l es)"
proof (induction ss)
  case (Cons s ss)
  have stop: "scan_stmts l True ss' = Some True" for ss' by (induction ss') auto
  then show ?case using Cons by (cases "local_assigned_in_stmt s l") auto
qed simp

lemma scan_blocks_assigned: "\<not> scan_blocks l True ds"
proof (induction ds)
  case (Cons d ds)
  have "scan_stmts l True ss = Some True" for ss by (induction ss) auto
  then show ?case using Cons by simp
qed simp

lemma scan_blocks_read_first: "scan_blocks l False ds \<longleftrightarrow> read_first l (events ds)"
proof (induction ds)
  case (Cons d ds)
  have "read_first l (events (d # ds)) \<longleftrightarrow>
      read_first l (map Ev_Stmt (bb_statements d) @ Ev_Term d # events ds)" by (simp add: events_def)
  then show ?case
    using Cons scan_blocks_assigned unfolding scan_stmts_read_first
    by (cases "term_assigns d l") (auto split: option.split)
qed (simp add: events_def)

lemma set_push_new: "set (fold push_new xs acc) = set acc \<union> set xs"
  by (induction xs arbitrary: acc) (auto simp: push_new_def)

lemma distinct_push_new: "distinct acc \<Longrightarrow> distinct (fold push_new xs acc)"
  by (induction xs arbitrary: acc) (auto simp: push_new_def)

lemma those_map_nth:
  "those (map f xs) = Some ys \<Longrightarrow> length ys = length xs \<and> (\<forall>i<length xs. f (xs ! i) = Some (ys ! i))"
proof (induction xs arbitrary: ys)
  case (Cons x xs)
  then obtain y zs where y: "f x = Some y" "those (map f xs) = Some zs" "ys = y # zs"
    by (auto split: option.splits)
  then show ?case using Cons.IH [OF y(2)] by (auto simp: nth_Cons split: nat.split)
qed simp

lemma those_total: "(\<And>x. x \<in> set xs \<Longrightarrow> \<exists>y. f x = Some y) \<Longrightarrow> \<exists>ys. those (map f xs) = Some ys"
proof (induction xs)
  case (Cons x xs)
  have "\<exists>ys. those (map f xs) = Some ys" by (rule Cons.IH) (use Cons.prems in auto)
  moreover have "\<exists>y. f x = Some y" by (rule Cons.prems) simp
  ultimately show ?case by auto
qed simp

section \<open>Reported loops\<close>

lemma push_infos_mem:
  "push_infos f es = Some is \<Longrightarrow> i \<in> set is \<Longrightarrow> \<exists>e\<in>set es. f e = Some (Some i)"
proof (induction es arbitrary: "is")
  case (Cons e es)
  then obtain info rest where *: "f e = Some info" "push_infos f es = Some rest"
    "is = (case info of Some i \<Rightarrow> i # rest | None \<Rightarrow> rest)" by (auto simp: bind_eq_Some_conv)
  show ?case
  proof (cases "info = Some i")
    case True
    then show ?thesis using * by auto
  next
    case False
    then have "i \<in> set rest" using Cons.prems(2) *(3) by (auto split: option.splits)
    then show ?thesis using Cons.IH [OF *(2)] by auto
  qed
qed simp

lemma push_infos_total:
  "(\<And>e. e \<in> set es \<Longrightarrow> \<exists>y. f e = Some y) \<Longrightarrow> \<exists>is. push_infos f es = Some is"
proof (induction es)
  case (Cons e es)
  have "\<exists>y. f e = Some y" by (rule Cons.prems) simp
  moreover have "\<exists>is. push_infos f es = Some is" by (rule Cons.IH) (use Cons.prems in auto)
  ultimately show ?case by auto
qed simp

lemma back_edges_mem:
  assumes "back_edges mir = Some es" "(h, b) \<in> set es"
  shows "h < b" "terminator_at mir b = Some (Term_Goto h)"
proof -
  obtain ts where ts: "those (map bb_terminator (basic_blocks mir)) = Some ts"
    and es: "es = List.map_filter back_edge_of (enumerate 0 ts)"
    using assms(1) by (auto simp: back_edges_def bind_eq_Some_conv)
  from assms(2) es obtain i t where it: "(i, t) \<in> set (enumerate 0 ts)" "back_edge_of (i, t) = Some (h, b)"
    by (auto simp: List.map_filter_def)
  then have i: "i < length ts" "t = ts ! i" by (auto simp: in_set_enumerate_eq)
  from it(2) have b: "b = i" "t = Term_Goto h" "h < i"
    by (auto simp: back_edge_of_def split: terminator.splits if_splits)
  show "h < b" using b by simp
  show "terminator_at mir b = Some (Term_Goto h)"
    using those_map_nth [OF ts] i b by (auto simp: terminator_at_def block_at_def)
qed

lemma back_edges_total: "body_wf mir \<Longrightarrow> \<exists>es. back_edges mir = Some es"
proof -
  assume "body_wf mir"
  then have "\<exists>ts. those (map bb_terminator (basic_blocks mir)) = Some ts"
    by (intro those_total) (auto simp: body_wf_def list_all_iff split: option.splits)
  then show ?thesis by (auto simp: back_edges_def)
qed

text \<open>The shape of a loop: a back edge to the header, a body without the header.\<close>

definition loop_shape :: "body \<Rightarrow> basic_block \<Rightarrow> basic_block \<Rightarrow> basic_block list \<Rightarrow> basic_block \<Rightarrow> bool" where
  "loop_shape mir header entry bbs back \<longleftrightarrow>
     header < back \<and> terminator_at mir back = Some (Term_Goto header) \<and>
     back \<in> set bbs \<and> header \<notin> set bbs \<and> distinct bbs \<and>
     set bbs = {b. live_reach (body_succ mir header) (body_skip mir header) [entry] b}"

text \<open>The bound is a local or a constant, and not both.\<close>

definition one_bound :: "local option \<Rightarrow> i64 option \<Rightarrow> bool" where
  "one_bound bl bc \<longleftrightarrow> (bl = None \<longleftrightarrow> bc \<noteq> None)"

definition range_loop_wf :: "body \<Rightarrow> range_loop_info \<Rightarrow> bool" where
  "range_loop_wf mir i \<longleftrightarrow>
     loop_shape mir (rl_header_bb i) (rl_body_entry_bb i) (rl_body_bbs i) (rl_back_edge_bb i) \<and>
     one_bound (rl_bound_local i) (rl_bound_const i) \<and>
     (rl_switch_bb i = None \<longleftrightarrow> rl_next_result_local i = None) \<and>
     (\<forall>l. rl_next_result_local i = Some l \<longrightarrow> l \<notin> set (rl_iter_carry_locals i))"

lemma lt_bound_one:
  assumes "lt_bound ix rhs = Some (Some (bl, bc))"
  shows "one_bound bl bc"
proof (cases rhs)
  case (Op_Constant c)
  show ?thesis
  proof (cases "try_const_operand_as_i64 c")
    case None
    with assms Op_Constant show ?thesis
      by (auto simp: lt_bound_def one_bound_def bind_eq_Some_conv
          split: mir_const.splits ty_const.splits if_splits)
  next
    case (Some v)
    with assms Op_Constant have "bl = None" "bc = Some v" by (simp_all add: lt_bound_def)
    then show ?thesis by (simp add: one_bound_def)
  qed
qed (use assms in \<open>auto simp: lt_bound_def one_bound_def\<close>)

lemma find_lt_one:
  assumes "find_lt_locals_in_stmts ss l ix = Some (Some (c, bl, bc))"
  shows "one_bound bl bc"
proof -
  from assms obtain lhs rhs where "find_map (lt_operands l) ss = Some (lhs, rhs)"
    by (auto simp: find_lt_locals_in_stmts_def split: option.splits)
  with assms obtain b where "lt_bound ix rhs = Some (Some (bl, bc))"
    by (auto simp: find_lt_locals_in_stmts_def Let_def bind_eq_Some_conv split: option.splits)
  then show ?thesis by (rule lt_bound_one)
qed

lemma range_bound_of_stmt_one:
  assumes "range_bound_of_stmt s = Some (bc, bl)"
  shows "one_bound bl bc"
proof (cases s)
  case (Stmt_Assign p rv)
  show ?thesis
  proof (cases rv)
    case (Rv_Aggregate k ops)
    then show ?thesis
      using assms Stmt_Assign
      by (cases "ops ! 1") (auto simp: range_bound_of_stmt_def one_bound_def split: if_splits)
  qed (use assms Stmt_Assign in \<open>auto simp: range_bound_of_stmt_def one_bound_def\<close>)
qed (use assms in \<open>auto simp: range_bound_of_stmt_def one_bound_def\<close>)

lemma range_bound_one: "find_range_bound mir h = Some (bc, bl) \<Longrightarrow> one_bound bl bc"
  unfolding find_range_bound_def using find_map_Some_ex range_bound_of_stmt_one by metis

definition header_wf :: "header_info \<Rightarrow> bool" where
  "header_wf h \<longleftrightarrow> one_bound (hi_bound_local h) (hi_bound_const h) \<and>
     (hi_switch_bb h = None \<longleftrightarrow> hi_next_result_local h = None)"

lemma mk_lt_header_wf: "one_bound bl bc \<Longrightarrow> header_wf (mk_lt_header e b (c, bl, bc) conv)"
  by (auto simp: mk_lt_header_def header_wf_def split: option.split)

lemma lt_header_wf:
  assumes "lt_header ix mir hb = Some (Some h)"
  shows "header_wf h"
proof -
  from assms obtain t ss where t: "terminator_at mir hb = Some t" "statements_at mir hb = Some ss"
    by (auto simp: lt_header_def bind_eq_Some_conv)
  show ?thesis
  proof (cases t)
    case (Term_SwitchInt discr targets)
    with assms t obtain l e b c bl bc conv where
      "find_lt_locals_in_stmts ss l ix = Some (Some (c, bl, bc))" "h = mk_lt_header e b (c, bl, bc) conv"
      by (auto simp: lt_header_def bind_eq_Some_conv split: option.splits)
    then show ?thesis using find_lt_one mk_lt_header_wf by blast
  qed (use assms t in \<open>auto simp: lt_header_def\<close>)
qed

lemma call_header_wf:
  assumes "call_header mir hb = Some (Some h)"
  shows "header_wf h"
proof -
  from assms obtain t where t: "terminator_at mir hb = Some t"
    by (auto simp: call_header_def bind_eq_Some_conv)
  show ?thesis
  proof (cases t)
    case (Term_Call f args dest target unw)
    with assms t obtain sb st where sb: "target = Some sb" "terminator_at mir sb = Some st"
      by (cases target) (auto simp: call_header_def bind_eq_Some_conv)
    from assms t Term_Call sb have "find_range_bound mir hb = Some (hi_bound_const h, hi_bound_local h)"
      "hi_switch_bb h = Some sb" "hi_next_result_local h = Some (p_local dest)"
      by (cases st; auto simp: call_header_def split: option.splits if_splits)+
    with range_bound_one show ?thesis unfolding header_wf_def by simp
  qed (use assms t in \<open>auto simp: call_header_def\<close>)
qed

lemma detect_header_wf: "detect_header ix mir hb = Some (Some h) \<Longrightarrow> header_wf h"
  by (auto simp: detect_header_def bind_eq_Some_conv dest: lt_header_wf call_header_wf
      split: option.splits)

lemma try_build_range_wf:
  assumes "try_build_range_loop_info ix mir hb be = Some (Some i)" "hb < be"
    and "terminator_at mir be = Some (Term_Goto hb)"
  shows "range_loop_wf mir i"
proof -
  obtain h bbs ind carry where h: "detect_header ix mir hb = Some (Some h)"
    and bbs: "collect_body_blocks_ordered mir (hi_body_entry_bb h) hb = Some bbs" "be \<in> set bbs"
    and i: "i = mk_range_loop hb be h bbs ind carry"
    using assms(1)
    by (auto simp: try_build_range_loop_info_def bind_eq_Some_conv split: option.splits if_splits)
  have "header_wf h" by (rule detect_header_wf [OF h])
  moreover have "loop_shape mir hb (hi_body_entry_bb h) bbs be"
    unfolding loop_shape_def using assms(2,3) bbs(2) collect_body_facts [OF bbs(1)] by blast
  ultimately show ?thesis unfolding i range_loop_wf_def header_wf_def mk_range_loop_def by auto
qed

section \<open>Totality\<close>

lemma switch_target_in_range:
  assumes "body_wf mir" "terminator_at mir b = Some (Term_SwitchInt d ts)" "s \<in> set (st_targets ts)"
  shows "s < length (basic_blocks mir)"
proof -
  have "b < length (basic_blocks mir)" using assms(2) by (rule terminator_at_in_range)
  then have "terminator_wf (length (basic_blocks mir)) (Term_SwitchInt d ts)"
    using body_wf_terminator [OF assms(1)] assms(2) by (metis option.inject)
  then show ?thesis using terminator_wf_successor assms(3) by (fastforce simp: mk_successors_def)
qed

lemma switch_otherwise_in_range:
  assumes "body_wf mir" "terminator_at mir b = Some (Term_SwitchInt d ts)"
  shows "\<exists>o'. otherwise ts = Some o' \<and> o' < length (basic_blocks mir)"
proof -
  have "b < length (basic_blocks mir)" using assms(2) by (rule terminator_at_in_range)
  then have "terminator_wf (length (basic_blocks mir)) (Term_SwitchInt d ts)"
    using body_wf_terminator [OF assms(1)] assms(2) by (metis option.inject)
  then have wf: "switch_targets_wf ts" by (simp add: terminator_wf_def)
  have "last (st_targets ts) \<in> set (st_targets ts)" using switch_targets_wf_nonempty [OF wf] by simp
  from switch_target_in_range [OF assms this] otherwise_wf [OF wf] show ?thesis by simp
qed

lemma collect_body_total:
  assumes "body_wf mir" "e < length (basic_blocks mir)"
  shows "\<exists>r. collect_body_blocks_ordered mir e h = Some r \<and> (\<forall>b\<in>set r. b < length (basic_blocks mir))"
proof -
  have "\<forall>b\<in>set [e]. b < length (basic_blocks mir)" using assms(2) by simp
  from body_loop_total [OF assms(1) this] obtain r where
    r: "collect_body_blocks_ordered mir e h = Some r"
    unfolding collect_body_blocks_ordered_def by blast
  have "\<forall>b\<in>set r. b < length (basic_blocks mir)"
    using collect_body_facts(3) [OF r] live_reach_in_range [OF _ assms] by blast
  with r show ?thesis by blast
qed

lemma find_iter_carry_total:
  assumes "\<forall>b\<in>set bbs. b < length (basic_blocks mir)"
  shows "\<exists>ls. find_iter_carry_locals mir bbs = Some ls"
proof -
  have "\<exists>ds. those (map (block_at mir) bbs) = Some ds"
    by (rule those_total) (use assms in \<open>auto simp: block_at_def\<close>)
  then show ?thesis by (auto simp: find_iter_carry_locals_def)
qed

lemma try_build_while_total:
  assumes "body_wf mir" "hb < length (basic_blocks mir)"
  shows "\<exists>y. try_build_while_loop_info mir hb be R = Some y"
proof -
  obtain t where t: "terminator_at mir hb = Some t" using body_wf_terminator [OF assms] by blast
  show ?thesis
  proof (cases t)
    case (Term_SwitchInt d ts)
    then have sw: "terminator_at mir hb = Some (Term_SwitchInt d ts)" using t by simp
    obtain e where e: "otherwise ts = Some e" "e < length (basic_blocks mir)"
      using switch_otherwise_in_range [OF assms(1) sw] by blast
    obtain r where r: "collect_body_blocks_ordered mir e hb = Some r"
      "\<forall>b\<in>set r. b < length (basic_blocks mir)"
      using collect_body_total [OF assms(1) e(2)] by blast
    obtain ls where "find_iter_carry_locals mir r = Some ls" using find_iter_carry_total [OF r(2)] by blast
    then show ?thesis
      using t Term_SwitchInt e(1) r(1)
      by (cases "bool_cases ts") (auto simp: try_build_while_loop_info_def)
  qed (use t in \<open>auto simp: try_build_while_loop_info_def\<close>)
qed

definition while_loop_wf :: "body \<Rightarrow> basic_block set \<Rightarrow> while_loop_info \<Rightarrow> bool" where
  "while_loop_wf mir R i \<longleftrightarrow>
     loop_shape mir (wl_header_bb i) (wl_body_entry_bb i) (wl_body_bbs i) (wl_back_edge_bb i) \<and>
     set (wl_body_bbs i) \<inter> R = {} \<and> wl_header_bb i \<notin> R \<and>
     (\<exists>discr. terminator_at mir (wl_header_bb i) =
        Some (Term_SwitchInt discr (static_if 0 (wl_exit_bb i) (wl_body_entry_bb i))))"

lemma bool_cases_static_if:
  assumes "bool_cases ts = Some e" "otherwise ts = Some b" "switch_targets_wf ts"
  shows "ts = static_if 0 e b"
proof -
  from assms(1) have it: "switch_iter ts = [(0, e)]"
    by (auto simp: bool_cases_def split: list.splits prod.splits if_splits)
  have len: "length (st_targets ts) = Suc (length (st_values ts))"
    using assms(3) by (simp add: switch_targets_wf_def)
  have "length (switch_iter ts) = length (st_values ts)" using len by (simp add: switch_iter_def)
  with it have one: "length (st_values ts) = 1" by simp
  then obtain v where v: "st_values ts = [v]" by (metis One_nat_def length_0_conv length_Suc_conv)
  with len obtain a c where a: "st_targets ts = [a, c]"
    by (metis One_nat_def length_0_conv length_Suc_conv one)
  have "v = 0" "a = e" "c = b" using it v a assms(2) by (auto simp: switch_iter_def otherwise_def)
  then show ?thesis using v a by (simp add: static_if_def)
qed

lemma try_build_while_wf:
  assumes "try_build_while_loop_info mir hb be R = Some (Some i)" "hb < be" "hb \<notin> R" "body_wf mir"
    and "terminator_at mir be = Some (Term_Goto hb)"
  shows "while_loop_wf mir R i"
proof -
  obtain t where t: "terminator_at mir hb = Some t"
    using assms(1) by (auto simp: try_build_while_loop_info_def bind_eq_Some_conv)
  obtain d ts where d: "t = Term_SwitchInt d ts"
    using assms(1) t by (cases t) (auto simp: try_build_while_loop_info_def)
  with assms(1) t obtain e x r ls where e: "bool_cases ts = Some x" "otherwise ts = Some e"
    and r: "collect_body_blocks_ordered mir e hb = Some r" "be \<in> set r" "\<forall>b\<in>set r. b \<notin> R"
    and i: "i = \<lparr>wl_header_bb = hb, wl_body_entry_bb = e, wl_body_bbs = r, wl_back_edge_bb = be,
      wl_exit_bb = x, wl_iter_carry_locals = ls\<rparr>"
    by (auto simp: try_build_while_loop_info_def bind_eq_Some_conv list_ex_iff
        split: option.splits if_splits)
  have "hb < length (basic_blocks mir)" using t by (rule terminator_at_in_range)
  then have "terminator_wf (length (basic_blocks mir)) t"
    using body_wf_terminator [OF assms(4)] t by (metis option.inject)
  then have "switch_targets_wf ts" using d by (simp add: terminator_wf_def)
  from bool_cases_static_if [OF e this] have "ts = static_if 0 x e" .
  moreover have "loop_shape mir hb e r be"
    unfolding loop_shape_def using assms(2,5) r(2) collect_body_facts [OF r(1)] by blast
  ultimately show ?thesis unfolding while_loop_wf_def i using t d r(3) assms(3) by auto
qed

text \<open>The generic parameters that bound a comparison are known.\<close>

definition params_resolved :: "instance_ctx \<Rightarrow> body \<Rightarrow> bool" where
  "params_resolved ix mir \<longleftrightarrow>
     (\<forall>s\<in>set (all_statements mir). \<forall>l lhs t i.
        lt_operands l s = Some (lhs, Op_Constant (MC_Ty t (Const_Param i))) \<longrightarrow> param_leaf ix i \<noteq> None)"

lemma find_lt_total:
  assumes "params_resolved ix mir" "set ss \<subseteq> set (all_statements mir)"
  shows "\<exists>y. find_lt_locals_in_stmts ss l ix = Some y"
proof (cases "find_map (lt_operands l) ss")
  case (Some o')
  then obtain lhs rhs where o: "find_map (lt_operands l) ss = Some (lhs, rhs)" by (cases o') auto
  then obtain s where s: "s \<in> set ss" "lt_operands l s = Some (lhs, rhs)"
    using find_map_Some_ex [OF o] by blast
  have "\<exists>y. lt_bound ix rhs = Some y"
  proof (cases rhs)
    case (Op_Constant c)
    have "param_leaf ix i \<noteq> None" if "c = MC_Ty t (Const_Param i)" for t i
    proof -
      have "s \<in> set (all_statements mir)" using s(1) assms(2) by blast
      from assms(1) [unfolded params_resolved_def, rule_format, OF this, of l lhs t i]
      show ?thesis using s(2) that Op_Constant by simp
    qed
    then show ?thesis
      using Op_Constant
      by (auto simp: lt_bound_def split: option.split mir_const.split ty_const.split)
  qed (auto simp: lt_bound_def)
  then show ?thesis
    using o by (auto simp: find_lt_locals_in_stmts_def Let_def split: option.split)
qed (simp add: find_lt_locals_in_stmts_def)

lemma goto_target_total:
  assumes "body_wf mir" "b < length (basic_blocks mir)"
  shows "\<exists>y. goto_target mir b = Some y \<and> (\<forall>t. y = Some t \<longrightarrow> t < length (basic_blocks mir))"
proof -
  obtain t where t: "terminator_at mir b = Some t" "terminator_wf (length (basic_blocks mir)) t"
    using body_wf_terminator [OF assms] by blast
  have "g < length (basic_blocks mir)" if "t = Term_Goto g" for g
    using terminator_wf_successor [OF t(2)] that by (simp add: mk_successors_def)
  then show ?thesis using t(1) by (auto simp: goto_target_def split: terminator.split)
qed

lemma option_cases_mem:
  assumes "option_cases ts = Some (a, b)"
  shows "a \<in> set (st_targets ts) \<and> b \<in> set (st_targets ts)"
proof -
  have "switch_iter ts = [(0, a), (1, b)]"
    using assms by (auto simp: option_cases_def split: list.splits prod.splits if_splits)
  then show ?thesis
    using set_switch_iter_targets [of 0 a ts] set_switch_iter_targets [of 1 b ts] by simp
qed

lemma statements_at_total: "b < length (basic_blocks mir) \<Longrightarrow> \<exists>ss. statements_at mir b = Some ss"
  by (simp add: statements_at_def block_at_def)

lemma convergent_total:
  assumes "body_wf mir" "e < length (basic_blocks mir)" "b < length (basic_blocks mir)"
  shows "\<exists>y. try_detect_convergent_option_switch mir e b = Some y \<and>
    (\<forall>s x n l. y = Some (s, x, n, l) \<longrightarrow> n < length (basic_blocks mir))"
proof -
  obtain g1 where g1: "goto_target mir e = Some g1" "\<forall>t. g1 = Some t \<longrightarrow> t < length (basic_blocks mir)"
    using goto_target_total [OF assms(1,2)] by blast
  obtain g2 where g2: "goto_target mir b = Some g2" using goto_target_total [OF assms(1,3)] by blast
  show ?thesis
  proof (cases "g1 \<noteq> None \<and> g2 = g1")
    case True
    then obtain sb where sb: "g1 = Some sb" "sb < length (basic_blocks mir)" using g1(2) by auto
    obtain t ss where t: "terminator_at mir sb = Some t" "statements_at mir sb = Some ss"
      using body_wf_terminator [OF assms(1) sb(2)] statements_at_total [OF sb(2)] by blast
    show ?thesis
    proof (cases t)
      case (Term_SwitchInt d ts)
      have "n < length (basic_blocks mir)" if "option_cases ts = Some (x, n)" for x n
        using option_cases_mem [OF that] switch_target_in_range [OF assms(1), of sb d ts] t Term_SwitchInt
        by simp
      then show ?thesis
        using g1 g2 True sb t Term_SwitchInt
        by (auto simp: try_detect_convergent_option_switch_def split: option.split)
    qed (use g1 g2 True sb t in \<open>auto simp: try_detect_convergent_option_switch_def\<close>)
  qed (use g1 g2 in \<open>cases g1; auto simp: try_detect_convergent_option_switch_def\<close>)
qed

lemma statements_at_subset: "statements_at mir b = Some ss \<Longrightarrow> set ss \<subseteq> set (all_statements mir)"
  using nth_mem by (fastforce simp: statements_at_def block_at_def all_statements_def)

text \<open>Totality of the header detection; the body entry it finds exists.\<close>

lemma lt_header_total:
  assumes wf: "body_wf mir" and p: "params_resolved ix mir" and hb: "hb < length (basic_blocks mir)"
  shows "\<exists>y. lt_header ix mir hb = Some y \<and>
    (\<forall>h. y = Some h \<longrightarrow> hi_body_entry_bb h < length (basic_blocks mir))"
proof -
  obtain t ss where t: "terminator_at mir hb = Some t" "statements_at mir hb = Some ss"
    using body_wf_terminator [OF wf hb] statements_at_total [OF hb] by blast
  show ?thesis
  proof (cases t)
    case (Term_SwitchInt d ts)
    obtain e where e: "otherwise ts = Some e" "e < length (basic_blocks mir)"
      using switch_otherwise_in_range [OF wf] t(1) Term_SwitchInt by blast
    show ?thesis
    proof (cases "bool_cases ts = None \<or> bare_local d = None")
      case True
      then have "lt_header ix mir hb = Some None"
        using t Term_SwitchInt by (auto simp: lt_header_def split: option.split)
      then show ?thesis by simp
    next
      case False
      then obtain x l where xl: "bool_cases ts = Some x" "bare_local d = Some l" by auto
      then have "x \<in> set (st_targets ts)"
        using set_switch_iter_targets by (fastforce simp: bool_cases_def split: list.splits if_splits)
      then have x: "x < length (basic_blocks mir)"
        using switch_target_in_range [OF wf] t(1) Term_SwitchInt by blast
      obtain f where f: "find_lt_locals_in_stmts ss l ix = Some f"
        using find_lt_total [OF p statements_at_subset [OF t(2)]] by blast
      obtain conv where conv: "try_detect_convergent_option_switch mir x e = Some conv"
        "\<forall>s x n l. conv = Some (s, x, n, l) \<longrightarrow> n < length (basic_blocks mir)"
        using convergent_total [OF wf x e(2)] by blast
      have "hi_body_entry_bb (mk_lt_header x e lt conv) < length (basic_blocks mir)" for lt
        using conv(2) e(2) by (auto simp: mk_lt_header_def split: prod.split option.split)
      then show ?thesis
        using t Term_SwitchInt e(1) xl f conv(1)
        by (cases f) (simp_all add: lt_header_def)
    qed
  qed (use t in \<open>auto simp: lt_header_def\<close>)
qed

lemma call_header_total:
  assumes wf: "body_wf mir" and hb: "hb < length (basic_blocks mir)"
  shows "\<exists>y. call_header mir hb = Some y \<and>
    (\<forall>h. y = Some h \<longrightarrow> hi_body_entry_bb h < length (basic_blocks mir))"
proof -
  obtain t where t: "terminator_at mir hb = Some t" "terminator_wf (length (basic_blocks mir)) t"
    using body_wf_terminator [OF wf hb] by blast
  show ?thesis
  proof (cases t)
    case (Term_Call f args dest target unw)
    show ?thesis
    proof (cases target)
      case (Some sb)
      then have "sb < length (basic_blocks mir)"
        using terminator_wf_successor [OF t(2)] Term_Call by (simp add: mk_successors_def)
      then obtain st where st: "terminator_at mir sb = Some st" using body_wf_terminator [OF wf] by blast
      have "b < length (basic_blocks mir)" if "st = Term_SwitchInt d ts" "option_cases ts = Some (a, b)" for d ts a b
        using option_cases_mem [OF that(2)] switch_target_in_range [OF wf] st that(1) by blast
      then show ?thesis
        using t(1) Term_Call Some st
        by (cases st) (auto simp: call_header_def split: option.split)
    qed (use t Term_Call in \<open>auto simp: call_header_def\<close>)
  qed (use t in \<open>auto simp: call_header_def\<close>)
qed

lemma try_build_range_total:
  assumes wf: "body_wf mir" and p: "params_resolved ix mir" and hb: "hb < length (basic_blocks mir)"
  shows "\<exists>y. try_build_range_loop_info ix mir hb be = Some y"
proof -
  obtain h where h: "detect_header ix mir hb = Some h"
    "\<forall>i. h = Some i \<longrightarrow> hi_body_entry_bb i < length (basic_blocks mir)"
  proof -
    obtain y where y: "lt_header ix mir hb = Some y"
      "\<forall>i. y = Some i \<longrightarrow> hi_body_entry_bb i < length (basic_blocks mir)"
      using lt_header_total [OF wf p hb] by blast
    obtain z where z: "call_header mir hb = Some z"
      "\<forall>i. z = Some i \<longrightarrow> hi_body_entry_bb i < length (basic_blocks mir)"
      using call_header_total [OF wf hb] by blast
    show thesis using that y z by (cases y) (simp_all add: detect_header_def)
  qed
  show ?thesis
  proof (cases h)
    case None
    then show ?thesis using h by (simp add: try_build_range_loop_info_def)
  next
    case (Some i)
    then have "hi_body_entry_bb i < length (basic_blocks mir)" using h(2) by blast
    from collect_body_total [OF wf this] obtain r where
      r: "collect_body_blocks_ordered mir (hi_body_entry_bb i) hb = Some r"
         "\<forall>b\<in>set r. b < length (basic_blocks mir)" by blast
    have "\<exists>ss. those (map (statements_at mir) r) = Some ss"
      by (rule those_total) (use r(2) statements_at_total in blast)
    then obtain ind where "find_induction_local_in_bbs mir r = Some ind"
      by (auto simp: find_induction_local_in_bbs_def stmts_of_bbs_def)
    moreover obtain ls where "find_iter_carry_locals mir r = Some ls"
      using find_iter_carry_total [OF r(2)] by blast
    ultimately show ?thesis
      using h Some r(1) by (cases ind) (simp_all add: try_build_range_loop_info_def)
  qed
qed

lemma back_edge_header_in_range:
  assumes "back_edges mir = Some es" "(h, b) \<in> set es"
  shows "h < length (basic_blocks mir)"
  using back_edges_mem [OF assms] terminator_at_in_range by (meson less_trans)

end
