(* ===== verification/Triton_Loop_Correct.thy ===== *)
theory Triton_Loop_Correct
  imports Triton_Loop_Props
begin

text \<open>
  The properties of the loop detection, with example bodies: which loops are reported and in what
  shape, the order of the collected body, the loop-carried locals, and a body on which the linear
  scan for the loop-carried locals misses one.
\<close>

section \<open>Completeness of the detection\<close>

lemma those_map_Some: "those (map Some xs) = Some xs"
  by (induction xs) auto

lemma push_infos_complete:
  "push_infos f es = Some is \<Longrightarrow> e \<in> set es \<Longrightarrow> f e = Some (Some i) \<Longrightarrow> i \<in> set is"
proof (induction es arbitrary: "is")
  case (Cons a es)
  then obtain info rest where *: "f a = Some info" "push_infos f es = Some rest"
    "is = (case info of Some i \<Rightarrow> i # rest | None \<Rightarrow> rest)" by (auto simp: bind_eq_Some_conv)
  show ?case
  proof (cases "e = a")
    case True
    then show ?thesis using * Cons.prems(3) by simp
  next
    case False
    then have "i \<in> set rest" using Cons.IH [OF *(2)] Cons.prems by simp
    then show ?thesis using *(3) by (simp split: option.split)
  qed
qed simp

lemma those_nth: "those os = Some xs \<Longrightarrow> i < length os \<Longrightarrow> os ! i = Some (xs ! i)"
  using those_map_nth [of id os xs] by simp

lemma back_edges_complete:
  assumes "back_edges mir = Some es" "h < b" "terminator_at mir b = Some (Term_Goto h)"
  shows "(h, b) \<in> set es"
proof -
  obtain ts where ts: "those (map bb_terminator (basic_blocks mir)) = Some ts"
    and es: "es = List.map_filter back_edge_of (enumerate 0 ts)"
    using assms(1) by (auto simp: back_edges_def bind_eq_Some_conv)
  have b: "b < length (basic_blocks mir)" using assms(3) by (rule terminator_at_in_range)
  have len: "length ts = length (basic_blocks mir)" using those_map_nth [OF ts] by simp
  have "ts ! b = Term_Goto h"
    using those_nth [OF ts, of b] b assms(3) by (simp add: terminator_at_def block_at_def)
  then have "(b, Term_Goto h) \<in> set (enumerate 0 ts)"
    using b len by (simp add: in_set_enumerate_eq)
  moreover have "back_edge_of (b, Term_Goto h) = Some (h, b)" using assms(2) by (simp add: back_edge_of_def)
  ultimately show ?thesis unfolding es List.map_filter_def by force
qed

text \<open>A back edge whose header tests a \<open>bool\<close> and whose loop does not meet the range loops.\<close>

definition while_loop_at ::
    "body \<Rightarrow> basic_block set \<Rightarrow> basic_block \<Rightarrow> basic_block \<Rightarrow> bool" where
  "while_loop_at mir R h b \<longleftrightarrow>
     (\<exists>x e discr. terminator_at mir h = Some (Term_SwitchInt discr (static_if 0 x e)) \<and>
        h < b \<and> terminator_at mir b = Some (Term_Goto h) \<and> h \<notin> R \<and>
        live_reach (body_succ mir h) (body_skip mir h) [e] b \<and>
        (\<forall>c. live_reach (body_succ mir h) (body_skip mir h) [e] c \<longrightarrow> c \<notin> R))"

lemma try_build_while_complete:
  assumes wf: "body_wf mir" and at: "while_loop_at mir R h b"
  shows "\<exists>i. try_build_while_loop_info mir h b R = Some (Some i) \<and>
    wl_header_bb i = h \<and> wl_back_edge_bb i = b"
proof -
  obtain x e discr where t: "terminator_at mir h = Some (Term_SwitchInt discr (static_if 0 x e))"
    and b: "live_reach (body_succ mir h) (body_skip mir h) [e] b"
    and R: "\<forall>c. live_reach (body_succ mir h) (body_skip mir h) [e] c \<longrightarrow> c \<notin> R"
    using at unfolding while_loop_at_def by blast
  have e: "e < length (basic_blocks mir)"
    using switch_target_in_range [OF wf t] by (simp add: static_if_def)
  obtain r where r: "collect_body_blocks_ordered mir e h = Some r"
    "\<forall>b\<in>set r. b < length (basic_blocks mir)"
    using collect_body_total [OF wf e] by blast
  obtain ls where ls: "find_iter_carry_locals mir r = Some ls" using find_iter_carry_total [OF r(2)] by blast
  have "b \<in> set r" "\<not> list_ex (\<lambda>c. c \<in> R) r"
    using collect_body_facts(3) [OF r(1)] b R by (auto simp: list_ex_iff)
  moreover have "bool_cases (static_if 0 x e) = Some x" "otherwise (static_if 0 x e) = Some e"
    by (simp_all add: bool_cases_def static_if_def switch_iter_def otherwise_def)
  ultimately show ?thesis
    using t r(1) ls by (auto simp: try_build_while_loop_info_def)
qed

lemma while_loop_wf_at:
  assumes "while_loop_wf mir R i"
  shows "while_loop_at mir R (wl_header_bb i) (wl_back_edge_bb i)"
  using assms unfolding while_loop_wf_def loop_shape_def while_loop_at_def by blast

section \<open>Example bodies\<close>

definition ex_i64 :: "u128 \<Rightarrow> operand" where
  "ex_i64 v = Op_Constant (MC_Val (CV_Scalar (Scalar_Int \<lparr>si_data = v, si_size = 8\<rparr>)) (Ty_Int I64))"

text \<open>\<open>while _1 < 10 { _3 = (_4 as Some).0; _1 = _1 + _3 }\<close>, both a while loop and a range loop.\<close>

definition ex_loop :: body where
  "ex_loop = \<lparr>basic_blocks =
      [ex_block [] (Term_Goto 1),
       ex_block [Stmt_Assign (local_place 2) (Rv_BinaryOp BinOp_Lt (Op_Copy (local_place 1)) (ex_i64 10))]
         (Term_SwitchInt (Op_Move (local_place 2)) (static_if 0 3 2)),
       ex_block [Stmt_Assign (local_place 3)
                   (Rv_Use (Op_Copy \<lparr>p_local = 4, p_projection = [Proj_Downcast None 1, Proj_Field 0 (Ty_Int I64)]\<rparr>)),
                 Stmt_Assign (local_place 1)
                   (Rv_BinaryOp BinOp_Add (Op_Copy (local_place 1)) (Op_Copy (local_place 3)))]
         (Term_Goto 1),
       ex_block [] Term_Return],
    local_decls = [Ty_Tuple [], Ty_Int I64, Ty_Bool, Ty_Int I64, Ty_Int I64], arg_count = 1\<rparr>"

text \<open>\<open>while _1 { if _2 { } else { _3 = 7 }; _4 = _3 }\<close>: block 3 is the arm that assigns \<open>_3\<close>.\<close>

definition ex_carry :: body where
  "ex_carry = \<lparr>basic_blocks =
      [ex_block [] (Term_Goto 1),
       ex_block [] (Term_SwitchInt (Op_Copy (local_place 1)) (static_if 0 5 2)),
       ex_block [] (Term_SwitchInt (Op_Copy (local_place 2)) (static_if 0 3 4)),
       ex_block [Stmt_Assign (local_place 3) (Rv_Use (ex_i64 7))] (Term_Goto 4),
       ex_block [Stmt_Assign (local_place 4) (Rv_Use (Op_Copy (local_place 3)))] (Term_Goto 1),
       ex_block [] Term_Return],
    local_decls = [Ty_Tuple [], Ty_Bool, Ty_Bool, Ty_Int I64, Ty_Int I64], arg_count = 2\<rparr>"

lemmas loop_defs = detect_while_loop_def detect_range_loop_def back_edges_def back_edge_of_def
  try_build_while_loop_info_def try_build_range_loop_info_def detect_header_def lt_header_def
  mk_lt_header_def call_header_def mk_range_loop_def try_detect_convergent_option_switch_def
  goto_target_def bool_cases_def option_cases_def static_if_def switch_iter_def otherwise_def
lemmas body_defs = collect_body_blocks_ordered_def body_targets_def all_targets_def
lemmas carry_defs = find_iter_carry_locals_def ordered_candidates_def block_assigns_def push_new_def
  local_used_in_stmt_def local_assigned_in_stmt_def term_uses_def term_assigns_def
lemmas bound_defs = find_lt_locals_in_stmts_def lt_operands_def lt_bound_def assigned_rvalue_def
  find_copy_source_in_stmts_def copy_source_def try_const_operand_as_i64_def find_induction_local_in_bbs_def
  stmts_of_bbs_def induction_of_stmt_def is_downcast_def
lemmas loop_ex_wf_defs = body_wf_def ex_defs ex_i64_def terminator_wf_def static_if_def
  switch_targets_wf_def mk_successors_def

lemma ex_loop_wf: "body_wf ex_loop"
  by (simp add: loop_ex_wf_defs ex_loop_def)

lemma ex_carry_wf: "body_wf ex_carry"
  by (simp add: loop_ex_wf_defs ex_carry_def)

lemma ex_loop_while:
  "detect_while_loop ex_loop {} = Some [\<lparr>wl_header_bb = 1, wl_body_entry_bb = 2, wl_body_bbs = [2],
     wl_back_edge_bb = 2, wl_exit_bb = 3, wl_iter_carry_locals = [1]\<rparr>]"
  by (simp add: loop_defs body_defs carry_defs ex_loop_def ex_defs ex_i64_def block_defs)

lemma ex_carry_while:
  "detect_while_loop ex_carry {} = Some [\<lparr>wl_header_bb = 1, wl_body_entry_bb = 2,
     wl_body_bbs = [2, 3, 4], wl_back_edge_bb = 4, wl_exit_bb = 5, wl_iter_carry_locals = []\<rparr>]"
  by (simp add: loop_defs body_defs carry_defs ex_carry_def ex_defs ex_i64_def block_defs)

lemma ex_loop_range:
  "detect_range_loop ex_ix ex_loop = Some [\<lparr>rl_header_bb = 1, rl_body_entry_bb = 2,
     rl_body_bbs = [2], rl_back_edge_bb = 2, rl_exit_bb = 3, rl_counter_local = 1,
     rl_bound_local = None, rl_bound_const = Some 10, rl_induction_local = 3,
     rl_iter_carry_locals = [1], rl_switch_bb = None, rl_next_result_local = None,
     rl_extra_loop_region_bbs = []\<rparr>]"
  by (simp add: loop_defs body_defs carry_defs bound_defs ex_loop_def ex_defs ex_i64_def block_defs
      to_bits_unchecked_def)

lemma ex_loop_params: "params_resolved ex_ix ex_loop"
  by (auto simp: params_resolved_def all_statements_def ex_loop_def ex_defs ex_i64_def
      lt_operands_def assigned_rvalue_def split: if_splits)

section \<open>Properties\<close>







text \<open>C14. On a well-formed body whose generic bounds are known the detection of range loops does not
  panic, and every reported loop is well formed: it has a back edge to its header, its body is the set
  of blocks reachable without the header, it has one bound, and the result of \<open>Range::next\<close> is not
  carried.\<close>

theorem detect_range_loop_correct:
  assumes "body_wf mir" "params_resolved ix mir"
  shows "\<exists>infos. detect_range_loop ix mir = Some infos \<and> (\<forall>i\<in>set infos. range_loop_wf mir i)"
proof -
  let ?f = "\<lambda>(h, b). try_build_range_loop_info ix mir h b"
  obtain es where es: "back_edges mir = Some es" using back_edges_total [OF assms(1)] by blast
  have "\<exists>y. ?f e = Some y" if e: "e \<in> set es" for e
  proof -
    have "fst e < length (basic_blocks mir)"
      using back_edge_header_in_range [OF es, of "fst e" "snd e"] e by simp
    from try_build_range_total [OF assms this, of "snd e"] show ?thesis by (auto simp: case_prod_beta)
  qed
  then obtain infos where infos: "push_infos ?f es = Some infos" using push_infos_total by blast
  then have "detect_range_loop ix mir = Some infos" using es by (simp add: detect_range_loop_def)
  moreover have "range_loop_wf mir i" if i: "i \<in> set infos" for i
  proof -
    obtain h b where hb: "(h, b) \<in> set es" "try_build_range_loop_info ix mir h b = Some (Some i)"
      using push_infos_mem [OF infos i] by auto
    show ?thesis by (rule try_build_range_wf [OF hb(2) back_edges_mem [OF es hb(1)]])
  qed
  ultimately show ?thesis by blast
qed

theorem detect_range_loop_correct_witness:
  "body_wf ex_loop \<and> params_resolved ex_ix ex_loop \<and>
   (\<exists>i. detect_range_loop ex_ix ex_loop = Some [i] \<and> range_loop_wf ex_loop i)"
  using detect_range_loop_correct [OF ex_loop_wf ex_loop_params] ex_loop_range ex_loop_wf ex_loop_params
  by simp


end
