(* ===== verification/Triton_Phi.thy ===== *)
theory Triton_Phi
  imports Triton_Loops Rust_Str
begin

text \<open>
  Block arguments at join blocks (\<open>compute_phi_join_locals\<close> of \<open>triton/mod.rs\<close> and
  \<open>is_option_ty\<close> of \<open>triton/types.rs\<close>). A join block gets an argument for every local that is
  assigned on the chain of blocks behind each of its predecessors; the computation is repeated
  until the number of arguments no longer changes, because the arguments of an inner join count
  as assignments for an outer one.

  Every hash table has an iteration order of its own, so the order is an argument: \<open>iter k S\<close>
  lists the elements of the table \<open>k\<close> with the contents \<open>S\<close>. \<open>None\<close> is a panic, or a loop that is
  not finished with the given fuel.
\<close>

section \<open>Types of locals\<close>

fun is_option_ty :: "(def_id \<Rightarrow> rstr) \<Rightarrow> ty \<Rightarrow> bool" where
  "is_option_ty def_path_str (Ty_Adt adt_def _) =
     (let adt_path = def_path_str (adt_did adt_def) in
      adt_path = lit ''core::option::Option'' \<or> adt_path = lit ''std::option::Option'' \<or>
      adt_path = lit ''Option'' \<or> suffix (lit ''::Option'') adt_path)"
| "is_option_ty def_path_str _ = False"

definition is_tuple_ty :: "ty \<Rightarrow> bool" where
  "is_tuple_ty t = (case t of Ty_Tuple _ \<Rightarrow> True | _ \<Rightarrow> False)"

section \<open>The graph without loop regions\<close>

text \<open>A context of the analysis: the parameters that all its parts share.\<close>

record phi_ctx =
  px_mir :: body
  px_reachable :: "basic_block set"
  px_loop_region :: "basic_block set"
  px_def_path_str :: "def_id \<Rightarrow> rstr"
  px_iter :: "nat list \<Rightarrow> nat set \<Rightarrow> nat list"

definition kept :: "phi_ctx \<Rightarrow> basic_block \<Rightarrow> bool" where
  "kept px b \<longleftrightarrow> b \<in> px_reachable px \<and> b \<notin> px_loop_region px"

text \<open>The predecessor map; a block without an entry has the empty set.\<close>

type_synonym pred_map = "basic_block \<Rightarrow> basic_block set"

definition edge :: "phi_ctx \<Rightarrow> basic_block \<Rightarrow> basic_block \<Rightarrow> bool" where
  "edge px a b \<longleftrightarrow> kept px a \<and> kept px b \<and>
     (case terminator_at (px_mir px) a of Some t \<Rightarrow> b \<in> set (successors t) | None \<Rightarrow> False)"

definition build_pred_map :: "phi_ctx \<Rightarrow> pred_map option" where
  "build_pred_map px =
     (if \<forall>bb\<in>px_reachable px. kept px bb \<longrightarrow> terminator_at (px_mir px) bb \<noteq> None
      then Some (\<lambda>b. {a \<in> px_reachable px. edge px a b})
      else None)"

definition succ_count :: "phi_ctx \<Rightarrow> basic_block \<Rightarrow> nat option" where
  "succ_count px b = do {
     t \<leftarrow> terminator_at (px_mir px) b;
     Some (length (filter (kept px) (successors t))) }"

definition preds_vec :: "phi_ctx \<Rightarrow> pred_map \<Rightarrow> basic_block \<Rightarrow> basic_block list" where
  "preds_vec px pm b = filter (kept px) (px_iter px [b] (pm b))"

definition stmt_assigns :: "statement \<Rightarrow> local list" where
  "stmt_assigns s =
     (case s of
        Stmt_Assign place _ \<Rightarrow> if p_projection place = [] then [p_local place] else []
      | _ \<Rightarrow> [])"

definition assigned_at :: "phi_ctx \<Rightarrow> basic_block \<Rightarrow> local set option" where
  "assigned_at px b = do {
     ss \<leftarrow> statements_at (px_mir px) b;
     Some (set (concat (map stmt_assigns ss))) }"

section \<open>Locals of a chain\<close>

text \<open>Backwards from a branch block, through single predecessors.\<close>

primrec ancestor_locals :: "nat \<Rightarrow> phi_ctx \<Rightarrow> pred_map \<Rightarrow> basic_block \<Rightarrow> local set option" where
  "ancestor_locals 0 px pm ancestor = None"
| "ancestor_locals (Suc fuel) px pm ancestor =
     (case preds_vec px pm ancestor of
        [prev] \<Rightarrow> do {
          ls \<leftarrow> assigned_at px prev;
          prev_succ_count \<leftarrow> succ_count px prev;
          if prev_succ_count \<noteq> 1 then Some ls
          else do {
            rest \<leftarrow> ancestor_locals fuel px pm prev;
            Some (ls \<union> rest) } }
      | _ \<Rightarrow> Some {})"

type_synonym phi_map = "basic_block \<rightharpoonup> local list"

definition vec_of :: "phi_map \<Rightarrow> basic_block \<Rightarrow> local list" where
  "vec_of m b = (case m b of Some ls \<Rightarrow> ls | None \<Rightarrow> [])"

function chain_locals ::
    "phi_ctx \<Rightarrow> pred_map \<Rightarrow> basic_block set \<Rightarrow> phi_map \<Rightarrow> basic_block set \<Rightarrow> basic_block \<Rightarrow>
     local set option" where
  "chain_locals px pm join_preds known_phis visited current =
     (if current \<in> visited then Some {}
      else case assigned_at px current of
        None \<Rightarrow> None
      | Some ls \<Rightarrow>
          (case succ_count px current of
             None \<Rightarrow> None
           | Some n \<Rightarrow>
               if n \<noteq> 1 then
                 map_option (\<lambda>anc. ls \<union> anc)
                   (ancestor_locals (Suc (length (basic_blocks (px_mir px)))) px pm current)
               else (case preds_vec px pm current of
                   [prev] \<Rightarrow>
                     if prev \<in> join_preds then Some ls
                     else map_option (\<lambda>rest. ls \<union> rest)
                       (chain_locals px pm join_preds known_phis (insert current visited) prev)
                 | _ \<Rightarrow> Some (ls \<union> set (vec_of known_phis current)))))"
  by pat_completeness auto
termination
proof (relation "measure (\<lambda>(px, pm, jp, known, visited, current).
    card ({..<length (basic_blocks (px_mir px))} - visited))", goal_cases)
  case (2 px pm jp known visited current ls n prev qs)
  then have "current < length (basic_blocks (px_mir px))"
    by (auto simp: succ_count_def bind_eq_Some_conv intro: terminator_at_in_range)
  from card_diff_insert_less [OF this 2(1)] show ?case
    by (simp del: Diff_insert card_Diff_insert)
qed auto

declare chain_locals.simps [simp del]

section \<open>One round\<close>

text \<open>The last loop over the candidates; the index into the declarations may panic.\<close>

fun retain_phis :: "phi_ctx \<Rightarrow> (local \<Rightarrow> nat) \<Rightarrow> nat \<Rightarrow> local list \<Rightarrow> local list option" where
  "retain_phis px chain_count n [] = Some []"
| "retain_phis px chain_count n (l # ls) =
     (if chain_count l < n then retain_phis px chain_count n ls
      else do {
        raw_ty \<leftarrow> vec_index (local_decls (px_mir px)) l;
        rest \<leftarrow> retain_phis px chain_count n ls;
        Some (if is_option_ty (px_def_path_str px) raw_ty \<or> is_tuple_ty raw_ty then rest
              else l # rest) })"

definition join_phis ::
    "phi_ctx \<Rightarrow> pred_map \<Rightarrow> nat \<Rightarrow> phi_map \<Rightarrow> basic_block \<Rightarrow> local list option" where
  "join_phis px pm round known_phis join_bb = do {
     chains \<leftarrow> those (map (\<lambda>p. map_option (px_iter px [round, join_bb, p])
                 (chain_locals px pm (pm join_bb) known_phis {} p)) (px_iter px [join_bb] (pm join_bb)));
     retain_phis px (count_list (concat chains)) (card (pm join_bb)) (fold push_new (concat chains) []) }"

definition is_join :: "phi_ctx \<Rightarrow> pred_map \<Rightarrow> basic_block \<Rightarrow> bool" where
  "is_join px pm b \<longleftrightarrow> b \<in> px_reachable px \<and> 2 \<le> card (pm b)"

definition phi_round :: "phi_ctx \<Rightarrow> pred_map \<Rightarrow> nat \<Rightarrow> phi_map \<Rightarrow> phi_map option" where
  "phi_round px pm round known_phis =
     (if \<exists>j\<in>px_reachable px. is_join px pm j \<and> join_phis px pm round known_phis j = None then None
      else Some (\<lambda>j. if is_join px pm j then
                      (case join_phis px pm round known_phis j of
                         Some (l # ls) \<Rightarrow> Some (l # ls)
                       | _ \<Rightarrow> None)
                    else None))"

section \<open>The fixpoint\<close>

definition phi_total :: "phi_ctx \<Rightarrow> phi_map \<Rightarrow> nat" where
  "phi_total px m = (\<Sum>j\<in>px_reachable px. length (vec_of m j))"

primrec phi_fixpoint :: "nat \<Rightarrow> phi_ctx \<Rightarrow> pred_map \<Rightarrow> nat \<Rightarrow> phi_map \<Rightarrow> phi_map option" where
  "phi_fixpoint 0 px pm round result = None"
| "phi_fixpoint (Suc fuel) px pm round result = do {
     new_result \<leftarrow> phi_round px pm round result;
     if phi_total px new_result = phi_total px result then Some new_result
     else phi_fixpoint fuel px pm (Suc round) new_result }"

definition compute_phi_join_locals :: "nat \<Rightarrow> phi_ctx \<Rightarrow> phi_map option" where
  "compute_phi_join_locals fuel px = do {
     pm \<leftarrow> build_pred_map px;
     phi_fixpoint fuel px pm 0 Map.empty }"

end
