(* ===== verification/Triton_Phi_Props.thy ===== *)
theory Triton_Phi_Props
  imports Triton_Phi Triton_Loop_Props
begin

text \<open>
  Correctness of the block arguments of join blocks: the nested loops of
  \<open>compute_phi_join_locals\<close> end without a panic, the result is the least solution of its defining
  equation whatever the iteration order of the hash tables is, and a local that becomes an
  argument is assigned on every path to the join. An argument of the kernel that one arm of a
  branch reassigns does not become a block argument.
\<close>

section \<open>Well-formed contexts\<close>

definition hash_order :: "(nat list \<Rightarrow> nat set \<Rightarrow> nat list) \<Rightarrow> bool" where
  "hash_order iter \<longleftrightarrow> (\<forall>k S. finite S \<longrightarrow> distinct (iter k S) \<and> set (iter k S) = S)"

definition phi_wf :: "phi_ctx \<Rightarrow> bool" where
  "phi_wf px \<longleftrightarrow> body_wf (px_mir px) \<and>
     px_reachable px \<subseteq> {..<length (basic_blocks (px_mir px))} \<and> hash_order (px_iter px) \<and>
     (\<forall>b\<in>px_reachable px. \<forall>S. assigned_at px b = Some S \<longrightarrow>
        S \<subseteq> {..<length (local_decls (px_mir px))})"

definition preds :: "phi_ctx \<Rightarrow> pred_map" where
  "preds px b = {a \<in> px_reachable px. edge px a b}"

lemma phi_wf_finite: "phi_wf px \<Longrightarrow> finite (px_reachable px)"
  unfolding phi_wf_def using finite_subset by blast

lemma finite_preds: "phi_wf px \<Longrightarrow> finite (preds px b)"
  using phi_wf_finite by (simp add: preds_def)

lemma phi_wf_in_range: "phi_wf px \<Longrightarrow> b \<in> px_reachable px \<Longrightarrow> b < length (basic_blocks (px_mir px))"
  by (auto simp: phi_wf_def)

lemma phi_wf_terminator: "phi_wf px \<Longrightarrow> b \<in> px_reachable px \<Longrightarrow> \<exists>t. terminator_at (px_mir px) b = Some t"
  using phi_wf_in_range body_wf_terminator by (metis phi_wf_def)

lemma build_pred_map_wf: "phi_wf px \<Longrightarrow> build_pred_map px = Some (preds px)"
  using phi_wf_terminator by (fastforce simp: build_pred_map_def preds_def)

lemma preds_kept: "a \<in> preds px b \<Longrightarrow> kept px a \<and> kept px b \<and> a \<in> px_reachable px \<and> b \<in> px_reachable px"
  by (auto simp: preds_def edge_def kept_def)

lemma iter_preds:
  assumes "phi_wf px"
  shows "distinct (px_iter px k (preds px b))" "set (px_iter px k (preds px b)) = preds px b"
  using assms finite_preds [OF assms] by (auto simp: phi_wf_def hash_order_def)

lemma preds_vec_wf:
  assumes "phi_wf px"
  shows "distinct (preds_vec px (preds px) b)" "set (preds_vec px (preds px) b) = preds px b"
  using iter_preds [OF assms] preds_kept by (auto simp: preds_vec_def)

lemma preds_vec_single: "phi_wf px \<Longrightarrow> preds_vec px (preds px) b = [p] \<Longrightarrow> preds px b = {p}"
  using preds_vec_wf(2) [of px b] by simp

lemma succ_count_wf: "phi_wf px \<Longrightarrow> b \<in> px_reachable px \<Longrightarrow> \<exists>n. succ_count px b = Some n"
  using phi_wf_terminator by (fastforce simp: succ_count_def)

lemma assigned_at_wf:
  assumes "phi_wf px" "b \<in> px_reachable px"
  shows "\<exists>S. assigned_at px b = Some S \<and> S \<subseteq> {..<length (local_decls (px_mir px))}"
proof -
  obtain S where "assigned_at px b = Some S"
    using phi_wf_in_range [OF assms] by (simp add: assigned_at_def statements_at_def block_at_def)
  then show ?thesis using assms unfolding phi_wf_def by blast
qed

lemma edge_unique:
  assumes "succ_count px p = Some 1" "edge px p y" "edge px p z"
  shows "y = z"
proof -
  obtain t where t: "terminator_at (px_mir px) p = Some t" "length (filter (kept px) (successors t)) = 1"
    using assms(1) by (auto simp: succ_count_def bind_eq_Some_conv)
  then obtain w where "filter (kept px) (successors t) = [w]" by (auto simp: length_Suc_conv)
  then have "set (filter (kept px) (successors t)) = {w}" by simp
  moreover have "y \<in> set (filter (kept px) (successors t))" "z \<in> set (filter (kept px) (successors t))"
    using assms(2,3) t(1) by (simp_all add: edge_def)
  ultimately show ?thesis by auto
qed

section \<open>The trace behind a branch ends\<close>

text \<open>The blocks the inner loop has passed, the newest first. Only the first of them is a branch, and
  each of the others has the one before as its only successor, so none repeats.\<close>

inductive anc_trace :: "phi_ctx \<Rightarrow> basic_block list \<Rightarrow> bool" for px where
  trace_start: "succ_count px a \<noteq> Some 1 \<Longrightarrow> anc_trace px [a]"
| trace_step: "anc_trace px (a # xs) \<Longrightarrow> edge px p a \<Longrightarrow> succ_count px p = Some 1 \<Longrightarrow>
     p \<notin> set (a # xs) \<Longrightarrow> anc_trace px (p # a # xs)"

lemma anc_trace_distinct: "anc_trace px xs \<Longrightarrow> distinct xs"
  by (induction rule: anc_trace.induct) auto

lemma anc_trace_next: "anc_trace px xs \<Longrightarrow> p \<in> set xs \<Longrightarrow> succ_count px p = Some 1 \<Longrightarrow> \<exists>y\<in>set (tl xs). edge px p y"
  by (induction rule: anc_trace.induct) auto

lemma anc_trace_fresh:
  assumes "anc_trace px (a # xs)" "edge px p a" "succ_count px p = Some 1"
  shows "p \<notin> set (a # xs)"
proof
  assume "p \<in> set (a # xs)"
  then obtain y where "y \<in> set xs" "edge px p y" using anc_trace_next [OF assms(1) _ assms(3)] by auto
  moreover from this have "y = a" using edge_unique [OF assms(3) _ assms(2)] by blast
  ultimately show False using anc_trace_distinct [OF assms(1)] by auto
qed

lemma ancestor_locals_total:
  assumes "phi_wf px" "anc_trace px (a # xs)" "set (a # xs) \<subseteq> {..<length (basic_blocks (px_mir px))}"
    and "length (basic_blocks (px_mir px)) < fuel + length (a # xs)"
  shows "\<exists>S. ancestor_locals fuel px (preds px) a = Some S \<and> S \<subseteq> {..<length (local_decls (px_mir px))}"
  using assms(2-)
proof (induction fuel arbitrary: a xs)
  case 0
  have "length (a # xs) = card (set (a # xs))"
    using anc_trace_distinct [OF 0(1)] distinct_card by metis
  also have "\<dots> \<le> card {..<length (basic_blocks (px_mir px))}" using 0(2) by (intro card_mono) auto
  finally show ?case using 0(3) by simp
next
  case (Suc fuel)
  show ?case
  proof (cases "\<exists>p. preds_vec px (preds px) a = [p]")
    case True
    then obtain p where pv: "preds_vec px (preds px) a = [p]" ..
    then have pa: "p \<in> preds px a" using preds_vec_single [OF assms(1)] by blast
    then have p: "p \<in> px_reachable px" "edge px p a" by (auto simp: preds_def)
    obtain n S where nS: "succ_count px p = Some n" "assigned_at px p = Some S"
      "S \<subseteq> {..<length (local_decls (px_mir px))}"
      using succ_count_wf [OF assms(1) p(1)] assigned_at_wf [OF assms(1) p(1)] by blast
    show ?thesis
    proof (cases "n = 1")
      case True
      with nS have "anc_trace px (p # a # xs)"
        using trace_step [OF Suc.prems(1) p(2)] anc_trace_fresh [OF Suc.prems(1) p(2)] by blast
      then obtain S' where "ancestor_locals fuel px (preds px) p = Some S'"
        "S' \<subseteq> {..<length (local_decls (px_mir px))}"
        using Suc.IH [of p "a # xs"] Suc.prems phi_wf_in_range [OF assms(1) p(1)] by auto
      with nS pv True show ?thesis by simp
    qed (use nS pv in simp)
  next
    case False
    then have "ancestor_locals (Suc fuel) px (preds px) a = Some {}" by (auto split: list.split)
    then show ?thesis by simp
  qed
qed

section \<open>Chains\<close>

lemma chain_locals_total:
  assumes "phi_wf px" "\<forall>b. set (vec_of known b) \<subseteq> D" "{..<length (local_decls (px_mir px))} \<subseteq> D"
    and "current \<in> px_reachable px"
  shows "\<exists>S. chain_locals px (preds px) jp known visited current = Some S \<and> S \<subseteq> D"
  using assms
proof (induction px "preds px" jp known visited current rule: chain_locals.induct)
  case (1 px jp known visited current)
  obtain n ls where nls: "succ_count px current = Some n" "assigned_at px current = Some ls" "ls \<subseteq> D"
    using succ_count_wf [OF 1(2,5)] assigned_at_wf [OF 1(2,5)] 1(4) by blast
  consider (seen) "current \<in> visited" | (branch) "current \<notin> visited" "n \<noteq> 1"
    | (single) p where "current \<notin> visited" "n = 1" "preds_vec px (preds px) current = [p]"
    | (join) "current \<notin> visited" "n = 1" "\<nexists>p. preds_vec px (preds px) current = [p]" by blast
  then show ?case
  proof cases
    case branch
    have "\<exists>S. ancestor_locals (Suc (length (basic_blocks (px_mir px)))) px (preds px) current = Some S \<and>
        S \<subseteq> {..<length (local_decls (px_mir px))}"
      using branch nls(1) phi_wf_in_range [OF 1(2,5)]
      by (intro ancestor_locals_total [OF 1(2) trace_start]) auto
    with branch nls 1(4) show ?thesis by (subst chain_locals.simps) auto
  next
    case (single p)
    then have p: "p \<in> px_reachable px" using preds_vec_single [OF 1(2)] preds_kept by blast
    show ?thesis
    proof (cases "p \<in> jp")
      case False
      then have "\<exists>S. chain_locals px (preds px) jp known (insert current visited) p = Some S \<and> S \<subseteq> D"
        using 1(1) [OF single(1) nls(2,1)] single 1(2-4) p by simp
      with single nls False show ?thesis by (subst chain_locals.simps) auto
    qed (use single nls in \<open>subst chain_locals.simps; simp\<close>)
  next
    case join
    then have "chain_locals px (preds px) jp known visited current = Some (ls \<union> set (vec_of known current))"
      using nls by (subst chain_locals.simps) (auto split: list.split)
    then show ?thesis using nls(3) 1(3) by blast
  qed (simp add: chain_locals.simps)
qed

definition map_le :: "phi_map \<Rightarrow> phi_map \<Rightarrow> bool" where
  "map_le m m' \<longleftrightarrow> (\<forall>j. set (vec_of m j) \<subseteq> set (vec_of m' j))"

lemma chain_locals_mono:
  assumes "chain_locals px pm jp known visited current = Some S" "map_le known known'"
  shows "\<exists>S'. chain_locals px pm jp known' visited current = Some S' \<and> S \<subseteq> S'"
  using assms
proof (induction px pm jp known visited current arbitrary: S rule: chain_locals.induct)
  case (1 px pm jp known visited current)
  note unf = chain_locals.simps [of px pm jp _ visited current]
  consider (seen) "current \<in> visited"
    | (live) ls n where "current \<notin> visited" "assigned_at px current = Some ls" "succ_count px current = Some n"
    using 1(2) by (auto simp: unf split: if_splits option.splits)
  then show ?case
  proof cases
    case (live ls n)
    consider (branch) "n \<noteq> 1" | (single) p where "n = 1" "preds_vec px pm current = [p]"
      | (join) "n = 1" "\<nexists>p. preds_vec px pm current = [p]" by blast
    then show ?thesis
    proof cases
      case (single p)
      show ?thesis
      proof (cases "p \<in> jp")
        case False
        then obtain R where "chain_locals px pm jp known (insert current visited) p = Some R" "S = ls \<union> R"
          using 1(2) live single by (auto simp: unf)
        then show ?thesis using 1(1) [OF live] 1(3) live single False by (fastforce simp: unf)
      qed (use 1(2) live single in \<open>simp add: unf\<close>)
    next
      case join
      then have "chain_locals px pm jp m visited current = Some (ls \<union> set (vec_of m current))" for m
        using live by (auto simp: unf split: list.split)
      then show ?thesis using 1(2,3) by (auto simp: map_le_def)
    qed (use 1(2) live in \<open>auto simp: unf simp del: ancestor_locals.simps\<close>)
  qed (use 1(2) in \<open>simp add: unf\<close>)
qed

section \<open>One round\<close>

definition good_ty :: "phi_ctx \<Rightarrow> local \<Rightarrow> bool" where
  "good_ty px l \<longleftrightarrow>
     \<not> is_option_ty (px_def_path_str px) (local_decls (px_mir px) ! l) \<and>
     \<not> is_tuple_ty (local_decls (px_mir px) ! l)"

definition chain_set :: "phi_ctx \<Rightarrow> phi_map \<Rightarrow> basic_block \<Rightarrow> basic_block \<Rightarrow> local set" where
  "chain_set px known j p = (case chain_locals px (preds px) (preds px j) known {} p of Some S \<Rightarrow> S | None \<Rightarrow> {})"

text \<open>The locals that become arguments of a block, given the arguments of the others.\<close>

definition phi_set :: "phi_ctx \<Rightarrow> phi_map \<Rightarrow> basic_block \<Rightarrow> local set" where
  "phi_set px known j =
     (if is_join px (preds px) j
      then {l. good_ty px l \<and> (\<forall>p\<in>preds px j. l \<in> chain_set px known j p)} else {})"

lemma retain_phis_filter:
  assumes "\<forall>l\<in>set ls. l < length (local_decls (px_mir px))"
  shows "retain_phis px c n ls = Some (filter (\<lambda>l. n \<le> c l \<and> good_ty px l) ls)"
  using assms by (induction ls) (auto simp: good_ty_def)

lemma distinct_count_list: "distinct xs \<Longrightarrow> count_list xs x = (if x \<in> set xs then 1 else 0)"
  by (induction xs) auto

lemma count_list_concat:
  assumes "\<forall>p\<in>set ps. distinct (f p)"
  shows "count_list (concat (map f ps)) l = length (filter (\<lambda>p. l \<in> set (f p)) ps)"
  using assms by (induction ps) (auto simp: distinct_count_list)

lemma filter_all_length: "length ps \<le> length (filter P ps) \<longleftrightarrow> (\<forall>p\<in>set ps. P p)"
  using length_filter_le [of P ps] by (metis filter_id_conv le_antisym length_filter_conv_card
      length_filter_less order_less_irrefl)

lemma those_map_eq_Some: "(\<And>x. x \<in> set xs \<Longrightarrow> f x = Some (g x)) \<Longrightarrow> those (map f xs) = Some (map g xs)"
  by (induction xs) auto

lemma phi_set_bounded:
  assumes "phi_wf px" "\<forall>b. set (vec_of known b) \<subseteq> {..<length (local_decls (px_mir px))}"
  shows "phi_set px known j \<subseteq> {..<length (local_decls (px_mir px))}"
proof
  fix l assume l: "l \<in> phi_set px known j"
  then have "preds px j \<noteq> {}" by (auto simp: phi_set_def is_join_def split: if_splits)
  then obtain p where p: "p \<in> preds px j" by blast
  then have "\<exists>S. chain_locals px (preds px) (preds px j) known {} p = Some S \<and>
      S \<subseteq> {..<length (local_decls (px_mir px))}"
    using chain_locals_total [OF assms order_refl] preds_kept by blast
  moreover have "l \<in> chain_set px known j p" using l p by (simp add: phi_set_def split: if_splits)
  ultimately show "l \<in> {..<length (local_decls (px_mir px))}" by (auto simp: chain_set_def)
qed

lemma join_phis_spec:
  assumes wf: "phi_wf px" and b: "\<forall>b. set (vec_of known b) \<subseteq> {..<length (local_decls (px_mir px))}"
    and j: "is_join px (preds px) j"
  shows "\<exists>ls. join_phis px (preds px) r known j = Some ls \<and> distinct ls \<and> set ls = phi_set px known j"
proof -
  let ?D = "{..<length (local_decls (px_mir px))}" and ?C = "chain_set px known j"
  let ?ps = "px_iter px [j] (preds px j)"
  let ?f = "\<lambda>p. px_iter px [r, j, p] (?C p)"
  have chain: "chain_locals px (preds px) (preds px j) known {} p = Some (?C p) \<and> ?C p \<subseteq> ?D"
    if "p \<in> preds px j" for p
    using chain_locals_total [OF wf b order_refl, of p "preds px j" "{}"] preds_kept [OF that]
    by (auto simp: chain_set_def)
  note ps = iter_preds [OF wf, of "[j]" j]
  have f: "distinct (?f p)" "set (?f p) = ?C p" if "p \<in> preds px j" for p
    using chain [OF that] wf finite_subset [OF _ finite_lessThan]
    by (auto simp: phi_wf_def hash_order_def)
  have th: "those (map (\<lambda>p. map_option (px_iter px [r, j, p])
      (chain_locals px (preds px) (preds px j) known {} p)) ?ps) = Some (map ?f ?ps)"
    by (rule those_map_eq_Some) (use chain ps(2) in simp)
  have count: "card (preds px j) \<le> count_list (concat (map ?f ?ps)) l \<longleftrightarrow> (\<forall>p\<in>preds px j. l \<in> ?C p)" for l
  proof -
    have "count_list (concat (map ?f ?ps)) l = length (filter (\<lambda>p. l \<in> set (?f p)) ?ps)"
      by (rule count_list_concat) (use f ps(2) in blast)
    moreover have "card (preds px j) = length ?ps" using ps distinct_card by metis
    ultimately show ?thesis using filter_all_length [of ?ps "\<lambda>p. l \<in> set (?f p)"] f(2) ps(2) by simp
  qed
  have cand: "set (fold push_new (concat (map ?f ?ps)) []) = (\<Union>p\<in>preds px j. ?C p)"
    using f(2) ps(2) by (simp add: set_push_new)
  have "preds px j \<noteq> {}" using j by (auto simp: is_join_def)
  then have "set (filter (\<lambda>l. card (preds px j) \<le> count_list (concat (map ?f ?ps)) l \<and> good_ty px l)
      (fold push_new (concat (map ?f ?ps)) [])) = phi_set px known j"
    unfolding set_filter cand count phi_set_def using j by auto
  moreover have "\<forall>l\<in>set (fold push_new (concat (map ?f ?ps)) []). l < length (local_decls (px_mir px))"
    using cand chain by blast
  ultimately show ?thesis
    unfolding join_phis_def using th retain_phis_filter
    by (auto intro!: distinct_filter distinct_push_new)
qed

text \<open>A map whose vectors are sets of declared locals.\<close>

definition map_ok :: "phi_ctx \<Rightarrow> phi_map \<Rightarrow> bool" where
  "map_ok px m \<longleftrightarrow> (\<forall>j. distinct (vec_of m j) \<and> set (vec_of m j) \<subseteq> {..<length (local_decls (px_mir px))} \<and>
     (j \<notin> px_reachable px \<longrightarrow> vec_of m j = []))"

lemma phi_round_spec:
  assumes "phi_wf px" "map_ok px m"
  shows "\<exists>m'. phi_round px (preds px) r m = Some m' \<and> map_ok px m' \<and>
    (\<forall>j. set (vec_of m' j) = phi_set px m j)"
proof -
  have b: "\<forall>b. set (vec_of m b) \<subseteq> {..<length (local_decls (px_mir px))}"
    using assms(2) by (simp add: map_ok_def)
  note join = join_phis_spec [OF assms(1) b, of _ r]
  define m' where "m' = (\<lambda>j. if is_join px (preds px) j then
      (case join_phis px (preds px) r m j of Some (l # ls) \<Rightarrow> Some (l # ls) | _ \<Rightarrow> None) else None)"
  have "phi_round px (preds px) r m = Some m'"
    unfolding phi_round_def m'_def using join by fastforce
  moreover have vec: "distinct (vec_of m' j) \<and> set (vec_of m' j) = phi_set px m j" for j
  proof (cases "is_join px (preds px) j")
    case True
    then obtain ls where ls: "join_phis px (preds px) r m j = Some ls" "distinct ls" "set ls = phi_set px m j"
      using join by blast
    then have "vec_of m' j = ls" using True by (cases ls) (simp_all add: m'_def vec_of_def)
    then show ?thesis using ls by simp
  qed (simp add: m'_def vec_of_def phi_set_def)
  moreover have "map_ok px m'"
  proof -
    have "vec_of m' j = []" if "j \<notin> px_reachable px" for j
      using that by (simp add: vec_of_def m'_def is_join_def)
    then show ?thesis using vec phi_set_bounded [OF assms(1) b] by (simp add: map_ok_def)
  qed
  ultimately show ?thesis by blast
qed

lemma phi_set_mono:
  assumes "phi_wf px" "map_le m m'"
  shows "phi_set px m j \<subseteq> phi_set px m' j"
proof -
  have "chain_set px m j p \<subseteq> chain_set px m' j p" for p
    using chain_locals_mono [OF _ assms(2)]
    by (fastforce simp: chain_set_def split: option.splits)
  then show ?thesis by (auto simp: phi_set_def)
qed

section \<open>The fixpoint\<close>

lemma phi_total_mono:
  assumes "phi_wf px" "map_ok px m" "map_ok px m'" "map_le m m'"
  shows "phi_total px m \<le> phi_total px m'"
    and "phi_total px m' = phi_total px m \<Longrightarrow> set (vec_of m' j) = set (vec_of m j)"
proof -
  have len: "length (vec_of m j) = card (set (vec_of m j))" "length (vec_of m' j) = card (set (vec_of m' j))" for j
    using assms(2,3) by (simp_all add: map_ok_def distinct_card)
  have le: "length (vec_of m j) \<le> length (vec_of m' j)" for j
    unfolding len using assms(4) by (intro card_mono) (simp_all add: map_le_def)
  show "phi_total px m \<le> phi_total px m'" unfolding phi_total_def by (intro sum_mono le)
  show "set (vec_of m' j) = set (vec_of m j)" if eq: "phi_total px m' = phi_total px m"
  proof (cases "j \<in> px_reachable px")
    case True
    have "length (vec_of m j) = length (vec_of m' j)"
      using sum_mono_inv [OF eq [symmetric, unfolded phi_total_def] le True phi_wf_finite [OF assms(1)]] .
    then show ?thesis
      using card_subset_eq [of "set (vec_of m' j)" "set (vec_of m j)"] assms(4) len
      by (simp add: map_le_def)
  qed (use assms(2,3) in \<open>simp add: map_ok_def\<close>)
qed

lemma phi_total_bound:
  assumes "phi_wf px" "map_ok px m"
  shows "phi_total px m \<le> card (px_reachable px) * length (local_decls (px_mir px))"
proof -
  have "length (vec_of m j) \<le> length (local_decls (px_mir px))" for j
  proof -
    have "length (vec_of m j) = card (set (vec_of m j))" using assms(2) by (simp add: map_ok_def distinct_card)
    also have "\<dots> \<le> card {..<length (local_decls (px_mir px))}"
      using assms(2) by (intro card_mono) (simp_all add: map_ok_def)
    finally show ?thesis by simp
  qed
  then have "phi_total px m \<le> of_nat (card (px_reachable px)) * length (local_decls (px_mir px))"
    unfolding phi_total_def by (intro sum_bounded_above) simp
  then show ?thesis by simp
qed

lemma phi_fixpoint_least:
  assumes wf: "phi_wf px" and "map_ok px m" "\<forall>j. set (vec_of m j) \<subseteq> phi_set px m j"
    and "card (px_reachable px) * length (local_decls (px_mir px)) < fuel + phi_total px m"
  shows "\<exists>res. phi_fixpoint fuel px (preds px) r m = Some res \<and> map_ok px res \<and>
    (\<forall>j. set (vec_of res j) = phi_set px res j) \<and>
    (\<forall>m'. map_le m m' \<and> (\<forall>j. phi_set px m' j \<subseteq> set (vec_of m' j)) \<longrightarrow> map_le res m')"
  using assms(2-)
proof (induction fuel arbitrary: m r)
  case 0
  then show ?case using phi_total_bound [OF wf 0(1)] by simp
next
  case (Suc fuel)
  obtain n where n: "phi_round px (preds px) r m = Some n" "map_ok px n"
    "\<forall>j. set (vec_of n j) = phi_set px m j" using phi_round_spec [OF wf Suc.prems(1)] by blast
  then have le: "map_le m n" using Suc.prems(2) by (simp add: map_le_def)
  have below: "map_le n m'" if "map_le m m'" "\<forall>j. phi_set px m' j \<subseteq> set (vec_of m' j)" for m'
    using n(3) phi_set_mono [OF wf that(1)] that(2) unfolding map_le_def by blast
  show ?case
  proof (cases "phi_total px n = phi_total px m")
    case True
    then have eq: "set (vec_of n j) = set (vec_of m j)" for j
      using phi_total_mono(2) [OF wf Suc.prems(1) n(2) le] by blast
    have "phi_set px n j = phi_set px m j" for j
      using eq phi_set_mono [OF wf, of m n] phi_set_mono [OF wf, of n m] by (simp add: map_le_def subset_antisym)
    then show ?thesis using n True below by auto
  next
    case False
    have "\<forall>j. set (vec_of n j) \<subseteq> phi_set px n j" using n(3) phi_set_mono [OF wf le] by blast
    moreover have "card (px_reachable px) * length (local_decls (px_mir px)) < fuel + phi_total px n"
      using Suc.prems(3) False phi_total_mono(1) [OF wf Suc.prems(1) n(2) le] by linarith
    ultimately obtain res where "phi_fixpoint fuel px (preds px) (Suc r) n = Some res" "map_ok px res"
      "\<forall>j. set (vec_of res j) = phi_set px res j"
      "\<forall>m'. map_le n m' \<and> (\<forall>j. phi_set px m' j \<subseteq> set (vec_of m' j)) \<longrightarrow> map_le res m'"
      using Suc.IH [OF n(2)] by blast
    then show ?thesis using n(1) False below by auto
  qed
qed

lemma compute_phi_result:
  assumes "phi_wf px" and "card (px_reachable px) * length (local_decls (px_mir px)) < fuel"
  shows "\<exists>res. compute_phi_join_locals fuel px = Some res \<and>
     (\<forall>j. distinct (vec_of res j) \<and> set (vec_of res j) = phi_set px res j) \<and>
     (\<forall>m. (\<forall>j. phi_set px m j \<subseteq> set (vec_of m j)) \<longrightarrow> map_le res m)"
proof -
  have ok: "map_ok px Map.empty" "map_le Map.empty m" for m
    by (simp_all add: map_ok_def map_le_def vec_of_def)
  have "card (px_reachable px) * length (local_decls (px_mir px)) < fuel + phi_total px Map.empty"
    using assms(2) by simp
  from phi_fixpoint_least [OF assms(1) ok(1) _ this, of 0] obtain res where
    "phi_fixpoint fuel px (preds px) 0 Map.empty = Some res" "map_ok px res"
    "\<forall>j. set (vec_of res j) = phi_set px res j"
    "\<forall>m'. map_le Map.empty m' \<and> (\<forall>j. phi_set px m' j \<subseteq> set (vec_of m' j)) \<longrightarrow> map_le res m'"
    by (auto simp: vec_of_def)
  then show ?thesis
    using ok(2) build_pred_map_wf [OF assms(1)] by (auto simp: compute_phi_join_locals_def map_ok_def)
qed

section \<open>Paths to a join\<close>

text \<open>Paths of the graph without loop regions that start at a block without predecessors.\<close>

inductive entry_path :: "phi_ctx \<Rightarrow> basic_block list \<Rightarrow> bool" for px where
  entry_start: "preds px b = {} \<Longrightarrow> entry_path px [b]"
| entry_step: "entry_path px xs \<Longrightarrow> last xs \<in> preds px b \<Longrightarrow> entry_path px (xs @ [b])"

definition assigned_on :: "phi_ctx \<Rightarrow> basic_block list \<Rightarrow> local \<Rightarrow> bool" where
  "assigned_on px xs l \<longleftrightarrow> (\<exists>b\<in>set xs. \<exists>S. assigned_at px b = Some S \<and> l \<in> S)"

lemma entry_path_nonempty: "entry_path px xs \<Longrightarrow> xs \<noteq> []"
  by (induction rule: entry_path.induct) auto

lemma entry_path_pred:
  assumes "entry_path px (xs @ [b])" "preds px b \<noteq> {}"
  obtains ys p where "xs = ys @ [p]" "p \<in> preds px b" "entry_path px (ys @ [p])"
proof -
  from assms(1) show thesis
  proof (cases rule: entry_path.cases)
    case (entry_step zs c)
    then have "zs = xs" "c = b" by simp_all
    moreover have "xs = butlast xs @ [last xs]" using entry_step entry_path_nonempty calculation by fastforce
    ultimately show thesis using that [of "butlast xs" "last xs"] entry_step by simp
  qed (use assms(2) in simp)
qed

lemma assigned_on_append: "assigned_on px (xs @ ys) l \<longleftrightarrow> assigned_on px xs l \<or> assigned_on px ys l"
  by (auto simp: assigned_on_def)

lemma ancestor_locals_assigned:
  assumes "phi_wf px" "ancestor_locals fuel px (preds px) b = Some S" "l \<in> S" "entry_path px (xs @ [b])"
  shows "assigned_on px xs l"
  using assms(2-)
proof (induction fuel arbitrary: b S xs)
  case (Suc fuel)
  show ?case
  proof (cases "\<exists>p. preds_vec px (preds px) b = [p]")
    case True
    then obtain p where p: "preds_vec px (preds px) b = [p]" "preds px b = {p}"
      using preds_vec_single [OF assms(1)] by blast
    obtain ys where ys: "xs = ys @ [p]" "entry_path px (ys @ [p])"
      using entry_path_pred [OF Suc.prems(3)] p(2) by (metis insert_not_empty singletonD)
    obtain ls n where ls: "assigned_at px p = Some ls" "succ_count px p = Some n"
      using Suc.prems(1) p(1) by (auto simp: bind_eq_Some_conv)
    show ?thesis
    proof (cases "l \<in> ls")
      case True
      then show ?thesis using ls(1) ys(1) by (auto simp: assigned_on_def)
    next
      case False
      then obtain R where "ancestor_locals fuel px (preds px) p = Some R" "l \<in> R"
        using Suc.prems(1,2) p(1) ls by (auto simp: bind_eq_Some_conv split: if_splits)
      then show ?thesis using Suc.IH ys by (simp add: assigned_on_append)
    qed
  next
    case False
    then have "ancestor_locals (Suc fuel) px (preds px) b = Some {}" by (auto split: list.split)
    then show ?thesis using Suc.prems(1,2) by simp
  qed
qed simp

text \<open>A map is sound when its locals are assigned on every path to their block.\<close>

definition sound_phis :: "phi_ctx \<Rightarrow> phi_map \<Rightarrow> bool" where
  "sound_phis px m \<longleftrightarrow> (\<forall>j l xs. l \<in> set (vec_of m j) \<longrightarrow> entry_path px (xs @ [j]) \<longrightarrow> assigned_on px xs l)"

lemma chain_locals_assigned:
  assumes "phi_wf px" "sound_phis px known"
    and "chain_locals px (preds px) jp known visited b = Some S" "l \<in> S" "entry_path px (xs @ [b])"
  shows "assigned_on px (xs @ [b]) l"
  using assms
proof (induction px "preds px" jp known visited b arbitrary: S xs rule: chain_locals.induct)
  case (1 px jp known visited b)
  note unf = chain_locals.simps [of px "preds px" jp known visited b]
  obtain ls n where live: "b \<notin> visited" "assigned_at px b = Some ls" "succ_count px b = Some n"
    using 1(4,5) by (auto simp: unf split: if_splits option.splits)
  show ?case
  proof (cases "l \<in> ls")
    case True
    then show ?thesis using live(2) by (auto simp: assigned_on_def)
  next
    case out: False
    consider (branch) "n \<noteq> 1" | (single) p where "n = 1" "preds_vec px (preds px) b = [p]"
      | (join) "n = 1" "\<nexists>p. preds_vec px (preds px) b = [p]" by blast
    then have "assigned_on px xs l"
    proof cases
      case branch
      then have "\<exists>A. ancestor_locals (Suc (length (basic_blocks (px_mir px)))) px (preds px) b = Some A \<and> l \<in> A"
        using 1(4,5) live out by (auto simp: unf simp del: ancestor_locals.simps)
      then show ?thesis using ancestor_locals_assigned [OF 1(2) _ _ 1(6)] by blast
    next
      case (single p)
      then have "preds px b = {p}" using preds_vec_single [OF 1(2)] by blast
      then obtain ys where ys: "xs = ys @ [p]" "entry_path px (ys @ [p])"
        using entry_path_pred [OF 1(6)] by (metis insert_not_empty singletonD)
      obtain R where "p \<notin> jp" "chain_locals px (preds px) jp known (insert b visited) p = Some R" "l \<in> R"
        using 1(4,5) live single out by (auto simp: unf split: if_splits)
      then show ?thesis using 1(1) [OF live] single 1(2,3) ys by simp
    next
      case join
      then have "chain_locals px (preds px) jp known visited b = Some (ls \<union> set (vec_of known b))"
        using live by (auto simp: unf split: list.split)
      then show ?thesis using 1(3-6) out by (auto simp: sound_phis_def)
    qed
    then show ?thesis by (simp add: assigned_on_append)
  qed
qed

lemma phi_set_assigned:
  assumes "phi_wf px" "sound_phis px m" "l \<in> phi_set px m j" "entry_path px (xs @ [j])"
  shows "assigned_on px xs l"
proof -
  have "preds px j \<noteq> {}" using assms(3) by (auto simp: phi_set_def is_join_def split: if_splits)
  from entry_path_pred [OF assms(4) this] obtain ys p where
    xs: "xs = ys @ [p]" "p \<in> preds px j" "entry_path px (ys @ [p])" .
  then have "l \<in> chain_set px m j p" using assms(3) by (simp add: phi_set_def split: if_splits)
  then obtain S where "chain_locals px (preds px) (preds px j) m {} p = Some S" "l \<in> S"
    by (auto simp: chain_set_def split: option.splits)
  then show ?thesis using chain_locals_assigned [OF assms(1,2)] xs by simp
qed

lemma phi_fixpoint_sound:
  assumes "phi_wf px" "map_ok px m" "sound_phis px m" "phi_fixpoint fuel px (preds px) r m = Some res"
  shows "sound_phis px res"
  using assms(2-)
proof (induction fuel arbitrary: m r)
  case (Suc fuel)
  obtain n where n: "phi_round px (preds px) r m = Some n" "map_ok px n"
    "\<forall>j. set (vec_of n j) = phi_set px m j" using phi_round_spec [OF assms(1) Suc.prems(1)] by blast
  then have "sound_phis px n"
    using phi_set_assigned [OF assms(1) Suc.prems(2)] by (auto simp: sound_phis_def)
  then show ?case using Suc n by (auto split: if_splits)
qed simp

section \<open>Example bodies\<close>

definition ex_px :: "body \<Rightarrow> basic_block set \<Rightarrow> phi_ctx" where
  "ex_px mir R = \<lparr>px_mir = mir, px_reachable = R, px_loop_region = {},
     px_def_path_str = (\<lambda>_. []), px_iter = (\<lambda>_. sorted_list_of_set)\<rparr>"

text \<open>\<open>if _1 { _2 = 8 } else { _2 = 7 }\<close>.\<close>

definition ex_join :: body where
  "ex_join = \<lparr>basic_blocks =
      [ex_block [] (Term_SwitchInt (Op_Copy (local_place 1)) (static_if 0 1 2)),
       ex_block [Stmt_Assign (local_place 2) (Rv_Use (ex_i32 7))] (Term_Goto 3),
       ex_block [Stmt_Assign (local_place 2) (Rv_Use (ex_i32 8))] (Term_Goto 3),
       ex_block [] Term_Return],
    local_decls = [Ty_Tuple [], Ty_Bool, Ty_Int I32], arg_count = 1\<rparr>"

text \<open>\<open>if _2 { _1 = 7 }; _3 = _1\<close>, where \<open>_1\<close> and \<open>_2\<close> are arguments.\<close>

definition ex_param :: body where
  "ex_param = \<lparr>basic_blocks =
      [ex_block [] (Term_SwitchInt (Op_Copy (local_place 2)) (static_if 0 2 1)),
       ex_block [Stmt_Assign (local_place 1) (Rv_Use (ex_i32 7))] (Term_Goto 2),
       ex_block [Stmt_Assign (local_place 3) (Rv_Use (Op_Copy (local_place 1)))] Term_Return],
    local_decls = [Ty_Tuple [], Ty_Int I32, Ty_Bool, Ty_Int I32], arg_count = 2\<rparr>"

lemmas phi_ex_defs = ex_px_def ex_join_def ex_param_def ex_defs block_defs assigned_at_def stmt_assigns_def

lemma filter_insert: "{a. (a = x \<or> Q a) \<and> P a} = (if P x then insert x {a. Q a \<and> P a} else {a. Q a \<and> P a})"
  by auto

lemma filter_single: "{a. a = x \<and> P a} = (if P x then {x} else {})"
  by auto

lemma ex_hash_order: "hash_order (\<lambda>_. sorted_list_of_set)" by (simp add: hash_order_def)

lemma ex_join_wf: "phi_wf (ex_px ex_join {0, 1, 2, 3})"
  unfolding phi_wf_def
proof (intro conjI)
  show "body_wf (px_mir (ex_px ex_join {0, 1, 2, 3}))"
    by (simp add: body_wf_def terminator_wf_def static_if_def switch_targets_wf_def mk_successors_def phi_ex_defs)
  show "\<forall>b\<in>px_reachable (ex_px ex_join {0, 1, 2, 3}). \<forall>S. assigned_at (ex_px ex_join {0, 1, 2, 3}) b = Some S \<longrightarrow>
      S \<subseteq> {..<length (local_decls (px_mir (ex_px ex_join {0, 1, 2, 3})))}"
    by (simp add: phi_ex_defs)
qed (auto simp: phi_ex_defs ex_hash_order)

lemma ex_param_wf: "phi_wf (ex_px ex_param {0, 1, 2})"
  unfolding phi_wf_def
proof (intro conjI)
  show "body_wf (px_mir (ex_px ex_param {0, 1, 2}))"
    by (simp add: body_wf_def terminator_wf_def static_if_def switch_targets_wf_def mk_successors_def phi_ex_defs)
  show "\<forall>b\<in>px_reachable (ex_px ex_param {0, 1, 2}). \<forall>S. assigned_at (ex_px ex_param {0, 1, 2}) b = Some S \<longrightarrow>
      S \<subseteq> {..<length (local_decls (px_mir (ex_px ex_param {0, 1, 2})))}"
    by (simp add: phi_ex_defs)
qed (auto simp: phi_ex_defs ex_hash_order)

lemma ex_param_preds:
  "preds (ex_px ex_param {0, 1, 2}) 0 = {}" "preds (ex_px ex_param {0, 1, 2}) (Suc 0) = {0}" "preds (ex_px ex_param {0, 1, 2}) 2 = {0, 1}"
  by (simp_all add: preds_def edge_def kept_def phi_ex_defs static_if_def mk_successors_def
      filter_insert filter_single)

lemma ex_join_preds: "preds (ex_px ex_join {0, 1, 2, 3}) 0 = {}" "preds (ex_px ex_join {0, 1, 2, 3}) (Suc 0) = {0}"
    "preds (ex_px ex_join {0, 1, 2, 3}) 2 = {0}" "preds (ex_px ex_join {0, 1, 2, 3}) 3 = {1, 2}"
  by (simp_all add: preds_def edge_def kept_def phi_ex_defs static_if_def mk_successors_def
      filter_insert filter_single)

abbreviation ex_join_px :: phi_ctx where "ex_join_px \<equiv> ex_px ex_join {0, 1, 2, 3}"
abbreviation ex_param_px :: phi_ctx where "ex_param_px \<equiv> ex_px ex_param {0, 1, 2}"

lemma ex_blocks:
  "assigned_at ex_join_px 0 = Some {}" "assigned_at ex_join_px (Suc 0) = Some {2}"
  "assigned_at ex_join_px 2 = Some {2}" "succ_count ex_join_px 0 = Some 2"
  "succ_count ex_join_px (Suc 0) = Some 1" "succ_count ex_join_px 2 = Some 1"
  "assigned_at ex_param_px 0 = Some {}" "assigned_at ex_param_px (Suc 0) = Some {1}"
  "succ_count ex_param_px 0 = Some 2"
  by (simp_all add: phi_ex_defs succ_count_def kept_def static_if_def mk_successors_def)

lemma ex_preds_vec:
  "preds_vec ex_join_px (preds ex_join_px) 0 = []" "preds_vec ex_join_px (preds ex_join_px) (Suc 0) = [0]"
  "preds_vec ex_join_px (preds ex_join_px) 2 = [0]" "preds_vec ex_param_px (preds ex_param_px) 0 = []"
  using ex_join_preds ex_param_preds by (simp_all add: preds_vec_def phi_ex_defs kept_def)

lemma ex_join_phi_set: "phi_set ex_join_px m 3 = {2}"
proof -
  have "chain_set ex_join_px m 3 (Suc 0) = {2}" "chain_set ex_join_px m 3 2 = {2}"
    using ex_blocks ex_preds_vec ex_join_preds by (simp_all add: chain_set_def chain_locals.simps)
  moreover have "is_join ex_join_px (preds ex_join_px) 3" "good_ty ex_join_px 2"
    using ex_join_preds by (simp_all add: is_join_def good_ty_def is_tuple_ty_def phi_ex_defs)
  ultimately show ?thesis using ex_join_preds(4) by (auto simp: phi_set_def)
qed

lemma ex_param_phi_set: "phi_set ex_param_px m 2 = {}"
proof -
  have "chain_set ex_param_px m 2 0 = {}"
    using ex_blocks ex_preds_vec by (simp add: chain_set_def chain_locals.simps)
  then show ?thesis using ex_param_preds(3) by (auto simp: phi_set_def)
qed

section \<open>Properties\<close>

text \<open>C25. On a well-formed body, and for every iteration order of the hash tables, the computation of
  the block arguments ends without a panic after at most as many rounds as there are pairs of
  blocks and locals. The result is the least map in which a join block has the locals, neither
  options nor tuples, that are assigned on the chain behind each predecessor.\<close>

theorem compute_phi_join_locals_least:
  assumes "phi_wf px" and "card (px_reachable px) * length (local_decls (px_mir px)) < fuel"
  shows "\<exists>res. compute_phi_join_locals fuel px = Some res \<and>
     (\<forall>j. distinct (vec_of res j) \<and> set (vec_of res j) = phi_set px res j) \<and>
     (\<forall>m. (\<forall>j. phi_set px m j \<subseteq> set (vec_of m j)) \<longrightarrow> map_le res m)"
  using compute_phi_result [OF assms] .

theorem compute_phi_join_locals_least_witness:
  "\<exists>res. compute_phi_join_locals 13 ex_join_px = Some res \<and> set (vec_of res 3) = {2}"
  using compute_phi_join_locals_least [OF ex_join_wf, of 13] ex_join_phi_set
  by (auto simp: ex_px_def ex_join_def)




end
