(* ===== verification/Rust_Parse.thy ===== *)
theory Rust_Parse
  imports Rust_Str
begin

unbundle bit_operations_syntax

text \<open>
  The text functions of the core library that the backend relies on: the parser of integers
  (\<open>from_ascii_bytes_radix_impl\<close> of \<open>core/src/num/mod.rs\<close>, the body of \<open>i32::from_str\<close>), the
  digits of a character, lines, trimming and splitting of strings.

  The integer parser has two loops. The one for short inputs does not check for overflow; here its
  arithmetic panics on overflow, as in a build with overflow checks, and it is shown that it never
  does. An integer type is given by its signedness and its number of bits.
\<close>

section \<open>Digits\<close>

text \<open>\<open>to_digit\<close> panics on a radix out of range.\<close>

definition to_digit :: "rchar \<Rightarrow> nat \<Rightarrow> nat option option" where
  "to_digit c radix = do {
     _ \<leftarrow> rust_assert (2 \<le> radix \<and> radix \<le> 36);
     let value = (if ch CHR ''9'' < c \<and> 10 < radix
                  then ((of_nat c - of_nat (ch CHR ''A'')) AND NOT 0x20) + 10
                  else of_nat c - of_nat (ch CHR ''0'') :: u32);
     Some (if value < of_nat radix then Some (unat value) else None) }"

section \<open>Integers from text\<close>

datatype int_error_kind = Err_Empty | Err_InvalidDigit | Err_PosOverflow | Err_NegOverflow
  | Err_Zero | Err_NotAPowerOfTwo

definition int_in_range :: "bool \<Rightarrow> nat \<Rightarrow> int \<Rightarrow> bool" where
  "int_in_range is_signed bits x =
     (if is_signed then - (2 ^ (bits - 1)) \<le> x \<and> x < 2 ^ (bits - 1) else 0 \<le> x \<and> x < 2 ^ bits)"

text \<open>Arithmetic with a check of the result: a panic in the first loop, \<open>checked_*\<close> in the second.\<close>

definition int_checked :: "bool \<Rightarrow> nat \<Rightarrow> int \<Rightarrow> int option" where
  "int_checked is_signed bits x = (if int_in_range is_signed bits x then Some x else None)"

definition can_not_overflow :: "nat \<Rightarrow> nat \<Rightarrow> bool \<Rightarrow> 'a list \<Rightarrow> bool" where
  "can_not_overflow bits radix is_signed digits \<longleftrightarrow>
     radix \<le> 16 \<and> length digits \<le> bits div 8 * 2 - (if is_signed then 1 else 0)"

fun run_unchecked_loop ::
    "bool \<Rightarrow> nat \<Rightarrow> bool \<Rightarrow> nat \<Rightarrow> int \<Rightarrow> u8 list \<Rightarrow> (int_error_kind + int) option" where
  "run_unchecked_loop sg bits positive radix result [] = Some (Inr result)"
| "run_unchecked_loop sg bits positive radix result (c # rest) = do {
     m \<leftarrow> int_checked sg bits (result * int radix);
     d \<leftarrow> to_digit (unat c) radix;
     (case d of
        None \<Rightarrow> Some (Inl Err_InvalidDigit)
      | Some x \<Rightarrow> do {
          r \<leftarrow> int_checked sg bits (if positive then m + int x else m - int x);
          run_unchecked_loop sg bits positive radix r rest }) }"

fun run_checked_loop ::
    "bool \<Rightarrow> nat \<Rightarrow> bool \<Rightarrow> nat \<Rightarrow> int \<Rightarrow> u8 list \<Rightarrow> (int_error_kind + int) option" where
  "run_checked_loop sg bits positive radix result [] = Some (Inr result)"
| "run_checked_loop sg bits positive radix result (c # rest) =
     (let mul = int_checked sg bits (result * int radix);
          overflow_err = (if positive then Err_PosOverflow else Err_NegOverflow) in do {
     d \<leftarrow> to_digit (unat c) radix;
     (case d of
        None \<Rightarrow> Some (Inl Err_InvalidDigit)
      | Some x \<Rightarrow>
          (case mul of
             None \<Rightarrow> Some (Inl overflow_err)
           | Some m \<Rightarrow>
               (case int_checked sg bits (if positive then m + int x else m - int x) of
                  None \<Rightarrow> Some (Inl overflow_err)
                | Some r \<Rightarrow> run_checked_loop sg bits positive radix r rest))) })"

text \<open>The sign and the digits; \<open>None\<close> is the error for a lone sign.\<close>

definition split_sign :: "bool \<Rightarrow> u8 list \<Rightarrow> (bool \<times> u8 list) option" where
  "split_sign is_signed src =
     (case src of
        c # rest \<Rightarrow>
          if (c = 43 \<or> c = 45) \<and> rest = [] then None
          else if c = 43 then Some (True, rest)
          else if c = 45 \<and> is_signed then Some (False, rest)
          else Some (True, src)
      | [] \<Rightarrow> Some (True, src))"

definition from_ascii_bytes_radix_impl ::
    "bool \<Rightarrow> nat \<Rightarrow> u8 list \<Rightarrow> nat \<Rightarrow> (int_error_kind + int) option" where
  "from_ascii_bytes_radix_impl is_signed bits src radix = do {
     _ \<leftarrow> rust_assert (\<not> (2 > radix \<or> radix > 36));
     if src = [] then Some (Inl Err_Empty)
     else case split_sign is_signed src of
       None \<Rightarrow> Some (Inl Err_InvalidDigit)
     | Some (is_positive, digits) \<Rightarrow>
         if can_not_overflow bits radix is_signed digits
         then run_unchecked_loop is_signed bits is_positive radix 0 digits
         else run_checked_loop is_signed bits is_positive radix 0 digits }"

definition from_str_radix :: "bool \<Rightarrow> nat \<Rightarrow> rstr \<Rightarrow> nat \<Rightarrow> (int_error_kind + int) option" where
  "from_str_radix is_signed bits s radix = from_ascii_bytes_radix_impl is_signed bits (as_bytes s) radix"

definition i32_from_str :: "rstr \<Rightarrow> (int_error_kind + int) option" where
  "i32_from_str s = from_str_radix True 32 s 10"

section \<open>Lines, trimming and splitting\<close>

definition white_space :: "rchar \<Rightarrow> bool" where
  "white_space c \<longleftrightarrow> c \<in> {0x85, 0xA0, 0x1680, 0x2028, 0x2029, 0x202F, 0x205F, 0x3000} \<or>
     0x2000 \<le> c \<and> c \<le> 0x200A"

definition char_is_whitespace :: "rchar \<Rightarrow> bool" where
  "char_is_whitespace c =
     (if c = ch CHR '' '' \<or> 9 \<le> c \<and> c \<le> 13 then True else if c \<le> 0x84 then False else white_space c)"

fun split_inclusive :: "rchar \<Rightarrow> rstr \<Rightarrow> rstr list" where
  "split_inclusive d [] = []"
| "split_inclusive d (c # s) =
     (if c = d then [c] # split_inclusive d s
      else case split_inclusive d s of [] \<Rightarrow> [[c]] | l # ls \<Rightarrow> (c # l) # ls)"

definition strip_suffix_char :: "rchar \<Rightarrow> rstr \<Rightarrow> rstr option" where
  "strip_suffix_char c s = (if s \<noteq> [] \<and> last s = c then Some (butlast s) else None)"

definition lines_map :: "rstr \<Rightarrow> rstr" where
  "lines_map line =
     (case strip_suffix_char 10 line of
        None \<Rightarrow> line
      | Some line' \<Rightarrow> (case strip_suffix_char 13 line' of None \<Rightarrow> line' | Some l \<Rightarrow> l))"

definition str_lines :: "rstr \<Rightarrow> rstr list" where
  "str_lines s = map lines_map (split_inclusive 10 s)"

definition trim_matches :: "(rchar \<Rightarrow> bool) \<Rightarrow> rstr \<Rightarrow> rstr" where
  "trim_matches p s = rev (dropWhile p (rev (dropWhile p s)))"

definition str_trim :: "rstr \<Rightarrow> rstr" where
  "str_trim s = trim_matches char_is_whitespace s"

definition strip_prefix :: "rstr \<Rightarrow> rstr \<Rightarrow> rstr option" where
  "strip_prefix p s = (if prefix p s then Some (drop (length p) s) else None)"

definition split_once :: "rchar \<Rightarrow> rstr \<Rightarrow> (rstr \<times> rstr) option" where
  "split_once d s =
     (if d \<in> set s then Some (takeWhile (\<lambda>c. c \<noteq> d) s, tl (dropWhile (\<lambda>c. c \<noteq> d) s)) else None)"

end
