(* ===== verification/Rust_Parse_Props.thy ===== *)
theory Rust_Parse_Props
  imports Rust_Parse
begin

text \<open>
  Correctness of the integer parser: it accepts exactly the signed digit strings whose value the
  type can hold, the fast loop agrees with the checked one on the inputs it is used for, and
  decimal output is read back.
\<close>

section \<open>Digits\<close>

definition digit_value :: "nat \<Rightarrow> nat \<Rightarrow> nat option" where
  "digit_value radix c =
     (let v = (if 48 \<le> c \<and> c \<le> 57 then c - 48 else if 65 \<le> c \<and> c \<le> 90 then c - 55
               else if 97 \<le> c \<and> c \<le> 122 then c - 87 else 36) in
      if v < radix then Some v else None)"

lemma and_not_32:
  assumes "n < 2 ^ 32"
  shows "(of_nat n AND NOT 32 :: u32) = of_nat (n - (if odd (n div 32) then 32 else 0))"
proof -
  have b: "bit (of_nat n :: u32) 5 \<longleftrightarrow> odd (n div 32)"
  proof -
    have "bit (unat (of_nat n :: u32)) 5 \<longleftrightarrow> bit (of_nat n :: u32) 5" by (simp add: bit_unsigned_iff)
    moreover have "bit n 5 \<longleftrightarrow> odd (n div 32)" by (simp add: bit_iff_odd)
    ultimately show ?thesis using unat_of_nat_less [of n, where 'a = 32] assms by simp
  qed
  have ge: "32 \<le> n" if "odd (n div 32)"
    using that by (metis div_less even_zero not_le)
  have "(of_nat n AND NOT 32 :: u32) = unset_bit 5 (of_nat n)"
    by (simp add: unset_bit_eq_and_not)
  also have "\<dots> = of_nat n - of_bool (odd (n div 32)) * 2 ^ 5"
    by (simp only: unset_bit_eq b)
  finally show ?thesis using ge by (simp add: of_nat_diff)
qed

lemma to_digit_value:
  assumes "c < 256" "2 \<le> radix" "radix \<le> 36"
  shows "to_digit c radix = Some (digit_value radix c)"
proof -
  have less: "w < of_nat radix \<longleftrightarrow> unat w < radix" for w :: u32
    using assms(3) by (simp add: word_less_nat_alt unat_of_nat)
  consider (digit) "48 \<le> c" "c \<le> 57" | (low) "c < 48" | (high) "58 \<le> c" "10 < radix"
    | (out) "58 \<le> c" "radix \<le> 10" by linarith
  then show ?thesis
  proof cases
    case digit
    then have "unat (of_nat c - 48 :: u32) = unat (of_nat (c - 48) :: u32)" by (simp add: of_nat_diff)
    also have "\<dots> = c - 48" using assms(1) by (intro unat_of_nat_less) simp
    finally show ?thesis
      using digit assms by (simp add: to_digit_def digit_value_def less Let_def)
  next
    case low
    have "unat (of_nat c - 48 :: u32) = 2 ^ 32 + c - 48"
      using low by (simp add: unat_sub_if' unat_of_nat)
    then show ?thesis
      using low assms by (simp add: to_digit_def digit_value_def less Let_def)
  next
    case out
    then have "unat (of_nat c - 48 :: u32) = unat (of_nat (c - 48) :: u32)" by (simp add: of_nat_diff)
    also have "\<dots> = c - 48" using assms(1) by (intro unat_of_nat_less) simp
    finally show ?thesis
      using out assms by (auto simp: to_digit_def digit_value_def less Let_def)
  next
    case high
    have val: "to_digit c radix = Some (if v < radix then Some v else None)"
      if "((of_nat c - 65) AND NOT 0x20) + 10 = (of_nat v :: u32)" "v < 2 ^ 32" for v
      using high assms that by (simp add: to_digit_def less unat_of_nat_less Let_def)
    show ?thesis
    proof (cases "65 \<le> c")
      case True
      then have "(of_nat c - 65 :: u32) = of_nat (c - 65)" by (simp add: of_nat_diff)
      then have "((of_nat c - 65) AND NOT 0x20) + 10 =
          (of_nat (c - 65 - (if odd ((c - 65) div 32) then 32 else 0) + 10) :: u32)"
        using and_not_32 [of "c - 65"] assms(1) by simp
      from val [OF this] have "to_digit c radix =
          Some (let v = c - 65 - (if odd ((c - 65) div 32) then 32 else 0) + 10 in if v < radix then Some v else None)"
        using assms(1) by simp
      moreover have "(c - 65) div 32 = (if c < 97 then 0 else if c < 129 then 1 else if c < 161 then 2
          else if c < 193 then 3 else if c < 225 then 4 else 5)" using True assms(1) by auto
      ultimately show ?thesis using True assms high by (auto simp: digit_value_def Let_def)
    next
      case False
      then have "c = 58 \<or> c = 59 \<or> c = 60 \<or> c = 61 \<or> c = 62 \<or> c = 63 \<or> c = 64"
        using high by linarith
      then show ?thesis using high assms by (auto simp: to_digit_def digit_value_def less Let_def)
    qed
  qed
qed

section \<open>The loops\<close>

text \<open>The digits of a byte string, and their value from the left on top of a start value.\<close>

definition digits_of :: "nat \<Rightarrow> u8 list \<Rightarrow> nat list option" where
  "digits_of radix bs = those (map (digit_value radix \<circ> unat) bs)"

definition horner :: "nat \<Rightarrow> nat \<Rightarrow> nat list \<Rightarrow> nat" where
  "horner radix a xs = foldl (\<lambda>r x. r * radix + x) a xs"

lemma digits_of_simps [simp]:
  "digits_of radix [] = Some []"
  "digits_of radix (b # bs) = (case digit_value radix (unat b) of
     None \<Rightarrow> None | Some x \<Rightarrow> map_option ((#) x) (digits_of radix bs))"
  by (simp_all add: digits_of_def split: option.split)

lemma horner_simps [simp]:
  "horner radix a [] = a"
  "horner radix a (x # xs) = horner radix (a * radix + x) xs"
  by (simp_all add: horner_def)

lemma horner_ge: "1 \<le> radix \<Longrightarrow> a \<le> horner radix a xs"
proof (induction xs arbitrary: a)
  case (Cons x xs)
  have "a \<le> a * radix + x" using Cons.prems by (metis le_add1 mult.commute mult_le_mono1 nat_mult_1 order_trans)
  also have "\<dots> \<le> horner radix (a * radix + x) xs" by (rule Cons.IH [OF Cons.prems])
  finally show ?case by simp
qed simp

lemma digit_value_less: "digit_value radix c = Some x \<Longrightarrow> x < radix"
  by (auto simp: digit_value_def Let_def split: if_splits)

lemma to_digit_byte: "2 \<le> radix \<Longrightarrow> radix \<le> 36 \<Longrightarrow> to_digit (unat (c :: u8)) radix = Some (digit_value radix (unat c))"
  using unsigned_less [of c, where ?'a = nat] by (intro to_digit_value) simp_all

text \<open>A sign and a number: \<open>sgn_int p a\<close> is \<open>a\<close> or \<open>- a\<close>.\<close>

definition sgn_int :: "bool \<Rightarrow> nat \<Rightarrow> int" where
  "sgn_int positive a = (if positive then int a else - int a)"

lemma sgn_int_0 [simp]: "sgn_int p 0 = 0"
  by (simp add: sgn_int_def)

lemma in_range_mono:
  assumes "int_in_range sg bits (sgn_int p b)" "a \<le> b"
  shows "int_in_range sg bits (sgn_int p a)"
proof -
  have "(0 :: int) < 2 ^ (bits - 1)" "(0 :: int) < 2 ^ bits" "int a \<le> int b" using assms(2) by simp_all
  then show ?thesis using assms(1) unfolding int_in_range_def sgn_int_def by (auto split: if_splits)
qed

lemma step_sgn_int:
  "sgn_int p a * int radix = sgn_int p (a * radix)"
  "(if p then sgn_int p m + int x else sgn_int p m - int x) = sgn_int p (m + x)"
  "sgn_int True m + int x = sgn_int True (m + x)"
  "sgn_int False m - int x = sgn_int False (m + x)"
  by (simp_all add: sgn_int_def)

lemma run_checked_loop_iff:
  assumes "2 \<le> radix" "radix \<le> 36" "int_in_range sg bits (sgn_int p a)"
  shows "\<exists>y. run_checked_loop sg bits p radix (sgn_int p a) bs = Some y \<and>
    (\<forall>v. y = Inr v \<longleftrightarrow> (\<exists>xs. digits_of radix bs = Some xs \<and> v = sgn_int p (horner radix a xs) \<and> int_in_range sg bits v))"
  using assms(3)
proof (induction bs arbitrary: a)
  case (Cons c bs)
  note dig = to_digit_byte [OF assms(1,2), of c]
  show ?case
  proof (cases "digit_value radix (unat c)")
    case None
    then show ?thesis using dig by simp
  next
    case (Some x)
    have ge: "a * radix + x \<le> horner radix (a * radix + x) xs" for xs
      by (rule horner_ge) (use assms in simp)
    show ?thesis
    proof (cases "int_in_range sg bits (sgn_int p (a * radix + x))")
      case True
      then have "int_in_range sg bits (sgn_int p (a * radix))" by (rule in_range_mono) simp
      then have "run_checked_loop sg bits p radix (sgn_int p a) (c # bs) =
          run_checked_loop sg bits p radix (sgn_int p (a * radix + x)) bs"
        using Some dig True by (simp add: step_sgn_int int_checked_def)
      moreover obtain y where "run_checked_loop sg bits p radix (sgn_int p (a * radix + x)) bs = Some y"
        "\<And>v. y = Inr v \<longleftrightarrow> (\<exists>xs. digits_of radix bs = Some xs \<and>
           v = sgn_int p (horner radix (a * radix + x) xs) \<and> int_in_range sg bits v)"
        using Cons.IH [OF True] by blast
      ultimately show ?thesis using Some by (intro exI [of _ y]) auto
    next
      case False
      then have "run_checked_loop sg bits p radix (sgn_int p a) (c # bs) =
          Some (Inl (if p then Err_PosOverflow else Err_NegOverflow))"
        using Some dig by (cases p) (simp_all add: step_sgn_int int_checked_def)
      moreover have "\<not> int_in_range sg bits (sgn_int p (horner radix (a * radix + x) xs))" for xs
        using False in_range_mono [OF _ ge] by blast
      ultimately show ?thesis using Some by auto
    qed
  qed
qed auto

text \<open>The loop without overflow checks agrees with the other one while every number with that many
  digits fits.\<close>

lemma run_unchecked_eq_checked:
  assumes "2 \<le> radix" "radix \<le> 36" "a < radix ^ k"
    and "\<And>b. b < radix ^ (k + length bs) \<Longrightarrow> int_in_range sg bits (sgn_int p b)"
  shows "run_unchecked_loop sg bits p radix (sgn_int p a) bs = run_checked_loop sg bits p radix (sgn_int p a) bs"
  using assms(3-)
proof (induction bs arbitrary: a k)
  case (Cons c bs)
  note dig = to_digit_byte [OF assms(1,2), of c]
  have next_less: "a * radix + x < radix ^ Suc k" if "x < radix" for x
  proof -
    have "a * radix + x < (a + 1) * radix" using that by simp
    also have "\<dots> \<le> radix ^ k * radix" using Cons.prems(1) by (intro mult_le_mono1) simp
    finally show ?thesis by (simp add: mult.commute)
  qed
  have pow: "radix ^ Suc k \<le> radix ^ (k + length (c # bs))" using assms(1) by (intro power_increasing) auto
  have mul: "int_in_range sg bits (sgn_int p (a * radix))"
    using less_le_trans [OF next_less pow, of 0] assms(1) by (intro Cons.prems(2)) simp
  show ?case
  proof (cases "digit_value radix (unat c)")
    case None
    then show ?thesis using dig mul by (simp add: step_sgn_int int_checked_def)
  next
    case (Some x)
    note less = next_less [OF digit_value_less [OF Some]]
    have "int_in_range sg bits (sgn_int p (a * radix + x))"
      using less pow by (intro Cons.prems(2)) linarith
    then show ?thesis
      using Cons.IH [OF less] Cons.prems(2) dig mul Some by (simp add: step_sgn_int int_checked_def)
  qed
qed simp

lemma can_not_overflow_fits:
  assumes "can_not_overflow bits radix sg ds" "8 dvd bits" "8 \<le> bits" "p \<or> sg" "b < radix ^ length ds"
  shows "int_in_range sg bits (sgn_int p b)"
proof -
  obtain m where m: "bits = 8 * m" "1 \<le> m" using assms(2,3) by fastforce
  have "b < radix ^ length ds" by (rule assms(5))
  also have "\<dots> \<le> 16 ^ length ds" using assms(1) by (intro power_mono) (simp_all add: can_not_overflow_def)
  also have "\<dots> = 2 ^ (4 * length ds)" by (simp add: power_mult)
  finally have b: "int b < 2 ^ (4 * length ds)" by (metis of_nat_less_iff of_nat_numeral of_nat_power)
  show ?thesis
  proof (cases sg)
    case True
    then have "length ds + 1 \<le> m * 2" using assms(1) m by (auto simp: can_not_overflow_def)
    then have "4 * length ds \<le> bits - 1" using m(1) by simp
    then have "(2 :: int) ^ (4 * length ds) \<le> 2 ^ (bits - 1)" by (intro power_increasing) simp_all
    with b have "int b < 2 ^ (bits - 1)" "0 \<le> int b" by linarith+
    then show ?thesis unfolding int_in_range_def sgn_int_def using True
      by (simp only: if_True split: if_split) (intro conjI impI TrueI; linarith)
  next
    case False
    then have "4 * length ds \<le> bits" using assms(1) m by (simp add: can_not_overflow_def)
    then have "(2 :: int) ^ (4 * length ds) \<le> 2 ^ bits" by (intro power_increasing) simp_all
    with b have "int b < 2 ^ bits" "0 \<le> int b" by linarith+
    then show ?thesis unfolding int_in_range_def sgn_int_def using False assms(4) by simp
  qed
qed

section \<open>The grammar of integers\<close>

definition int_literal :: "bool \<Rightarrow> nat \<Rightarrow> u8 list \<Rightarrow> int \<Rightarrow> bool" where
  "int_literal sg radix bs v \<longleftrightarrow>
     (\<exists>p ds xs. (p \<and> (bs = ds \<or> bs = 43 # ds) \<or> \<not> p \<and> sg \<and> bs = 45 # ds) \<and> ds \<noteq> [] \<and>
        digits_of radix ds = Some xs \<and> v = sgn_int p (horner radix 0 xs))"

lemma sign_no_digit: "digits_of radix (43 # ds) = None" "digits_of radix (45 # ds) = None" if "radix \<le> 36"
  using that by (simp_all add: digit_value_def)

lemma int_literal_split:
  assumes "radix \<le> 36" "bs \<noteq> []"
  shows "int_literal sg radix bs v \<longleftrightarrow>
    (\<exists>p ds xs. split_sign sg bs = Some (p, ds) \<and> digits_of radix ds = Some xs \<and> v = sgn_int p (horner radix 0 xs))"
proof -
  obtain c rest where bs: "bs = c # rest" using assms(2) by (cases bs) auto
  show ?thesis
  proof (cases "c = 43 \<or> c = 45")
    case True
    then show ?thesis
      using bs sign_no_digit [OF assms(1)]
      by (cases "rest = []") (auto simp: int_literal_def split_sign_def simp del: digits_of_simps)
  next
    case False
    then show ?thesis
      using bs by (auto simp: int_literal_def split_sign_def simp del: digits_of_simps)
  qed
qed

lemma split_sign_positive: "split_sign sg bs = Some (p, ds) \<Longrightarrow> p \<or> sg"
  by (auto simp: split_sign_def split: list.splits if_splits)

lemma int_in_range_0: "int_in_range sg bits (sgn_int p 0)"
  by (simp add: int_in_range_def sgn_int_def)

lemma from_ascii_bytes_iff:
  assumes "2 \<le> radix" "radix \<le> 36" "8 dvd bits" "8 \<le> bits"
  shows "\<exists>y. from_ascii_bytes_radix_impl sg bits src radix = Some y \<and>
    (\<forall>v. y = Inr v \<longleftrightarrow> int_literal sg radix src v \<and> int_in_range sg bits v)"
proof (cases "src = []")
  case True
  then show ?thesis using assms by (simp add: from_ascii_bytes_radix_impl_def int_literal_def)
next
  case False
  note lit = int_literal_split [OF assms(2) False, of sg]
  show ?thesis
  proof (cases "split_sign sg src")
    case None
    then show ?thesis using assms False lit by (simp add: from_ascii_bytes_radix_impl_def)
  next
    case (Some pd)
    then obtain p ds where pd: "split_sign sg src = Some (p, ds)" by (cases pd) auto
    have "run_unchecked_loop sg bits p radix 0 ds = run_checked_loop sg bits p radix 0 ds"
      if "can_not_overflow bits radix sg ds"
      using assms can_not_overflow_fits [OF that assms(3,4) split_sign_positive [OF pd]]
        run_unchecked_eq_checked [of radix 0 0 ds sg bits p] by simp
    then have "from_ascii_bytes_radix_impl sg bits src radix = run_checked_loop sg bits p radix 0 ds"
      using assms False pd by (simp add: from_ascii_bytes_radix_impl_def)
    then show ?thesis
      using run_checked_loop_iff [OF assms(1,2) int_in_range_0, of sg bits p ds] lit pd by auto
  qed
qed

section \<open>Decimal output\<close>

text \<open>Decimal notation, as \<open>std::to_string\<close> prints an integer.\<close>

fun dec_nat :: "nat \<Rightarrow> rstr" where
  "dec_nat n = (if n < 10 then [48 + n] else dec_nat (n div 10) @ [48 + n mod 10])"

declare dec_nat.simps [simp del]

definition to_string :: "int \<Rightarrow> rstr" where
  "to_string v = (if v < 0 then 45 # dec_nat (nat (- v)) else dec_nat (nat v))"

lemma dec_nat_chars: "c \<in> set (dec_nat n) \<Longrightarrow> 48 \<le> c \<and> c \<le> 57"
proof (induction n rule: dec_nat.induct)
  case (1 n)
  show ?case
  proof (cases "n < 10")
    case True
    then show ?thesis using 1(2) by (simp add: dec_nat.simps [of n])
  next
    case False
    then have "c \<in> set (dec_nat (n div 10)) \<or> c = 48 + n mod 10"
      using 1(2) by (auto simp: dec_nat.simps [of n])
    then show ?thesis
    proof
      assume "c = 48 + n mod 10"
      then show ?thesis using mod_less_divisor [of 10 n] by linarith
    qed (use 1(1) [OF False] in blast)
  qed
qed

lemma dec_nat_nonempty: "dec_nat n \<noteq> []"
  by (simp add: dec_nat.simps [of n])

lemma as_bytes_ascii: "\<forall>c\<in>set s. c < 128 \<Longrightarrow> as_bytes s = map of_nat s"
  by (induction s) (simp_all add: encode_utf8_ascii)

lemma as_bytes_append: "as_bytes (s @ t) = as_bytes s @ as_bytes t"
  by (simp add: as_bytes_def)

lemma digits_of_append:
  "digits_of radix (as @ bs) = (case digits_of radix as of
     None \<Rightarrow> None | Some xs \<Rightarrow> map_option ((@) xs) (digits_of radix bs))"
  by (induction as; cases "digits_of radix bs") (auto split: option.splits)

lemma horner_append: "horner radix a (xs @ ys) = horner radix (horner radix a xs) ys"
  by (simp add: horner_def)

lemma digits_of_dec_digit: "x < 10 \<Longrightarrow> digits_of 10 (as_bytes [48 + x]) = Some [x]"
  by (simp add: encode_utf8_ascii digit_value_def unat_of_nat_less flip: of_nat_add)

lemma digits_of_dec_nat: "\<exists>xs. digits_of 10 (as_bytes (dec_nat n)) = Some xs \<and> horner 10 0 xs = n"
proof (induction n rule: dec_nat.induct)
  case (1 n)
  show ?case
  proof (cases "n < 10")
    case True
    then have "dec_nat n = [48 + n]" by (simp add: dec_nat.simps [of n])
    then show ?thesis using digits_of_dec_digit [OF True] by (metis horner_simps add_0 mult_0)
  next
    case False
    then have n: "as_bytes (dec_nat n) = as_bytes (dec_nat (n div 10)) @ as_bytes [48 + n mod 10]"
      by (simp add: dec_nat.simps [of n] as_bytes_append)
    obtain xs where "digits_of 10 (as_bytes (dec_nat (n div 10))) = Some xs" "horner 10 0 xs = n div 10"
      using 1 False by blast
    then show ?thesis
      unfolding n digits_of_append using digits_of_dec_digit [of "n mod 10"] by (auto simp: horner_append)
  qed
qed

lemma as_bytes_Nil_iff [simp]: "as_bytes s = [] \<longleftrightarrow> s = []"
  by (metis length_0_conv length_as_bytes str_len_0_iff)

lemma int_literal_to_string: "int_literal True 10 (as_bytes (to_string v)) v"
proof -
  obtain xs where xs: "digits_of 10 (as_bytes (dec_nat (nat \<bar>v\<bar>))) = Some xs" "horner 10 0 xs = nat \<bar>v\<bar>"
    using digits_of_dec_nat by blast
  have "as_bytes (to_string v) = (if v < 0 then 45 # as_bytes (dec_nat (nat \<bar>v\<bar>)) else as_bytes (dec_nat (nat \<bar>v\<bar>)))"
    by (simp add: to_string_def encode_utf8_ascii)
  moreover have "v = sgn_int (\<not> v < 0) (horner 10 0 xs)" using xs(2) by (simp add: sgn_int_def)
  ultimately show ?thesis
    unfolding int_literal_def using xs(1) dec_nat_nonempty [of "nat \<bar>v\<bar>"]
    by (intro exI [of _ "\<not> v < 0"] exI [of _ "as_bytes (dec_nat (nat \<bar>v\<bar>))"] exI [of _ xs]) simp
qed

lemma i32_from_str_to_string:
  assumes "int_in_range True 32 v"
  shows "i32_from_str (to_string v) = Some (Inr v)"
  using from_ascii_bytes_iff [of 10 32 True "as_bytes (to_string v)"] int_literal_to_string assms
  by (auto simp: i32_from_str_def from_str_radix_def)

section \<open>Properties\<close>

text \<open>C28. The integer parser of the core library never panics for a radix between 2 and 36. It
  returns a value exactly for an optional sign (a minus only in signed types) followed by at least
  one digit of the radix, when the type can hold the value; the fast loop without overflow checks,
  used for short inputs, does not overflow.\<close>

theorem from_str_radix_correct:
  assumes "2 \<le> radix" "radix \<le> 36" "8 dvd bits" "8 \<le> bits"
  shows "\<exists>y. from_str_radix sg bits s radix = Some y \<and>
    (\<forall>v. y = Inr v \<longleftrightarrow> int_literal sg radix (as_bytes s) v \<and> int_in_range sg bits v)"
  unfolding from_str_radix_def by (rule from_ascii_bytes_iff [OF assms])

theorem from_str_radix_correct_witness:
  "\<exists>y. from_str_radix True 32 (lit ''-7f'') 16 = Some y \<and>
    (\<forall>v. y = Inr v \<longleftrightarrow> int_literal True 16 (as_bytes (lit ''-7f'')) v \<and> int_in_range True 32 v)"
  by (rule from_str_radix_correct) simp_all

end
