(* ===== verification/Kernel_Meta.thy ===== *)
theory Kernel_Meta
  imports Rust_Parse_Props
begin

text \<open>
  The channel between the C++ backend and the compiler driver: \<open>CudaBackend::makeASM\<close> appends the
  metadata of a kernel to the PTX text as comments (\<open>CudaBackend.cpp\<close>), and
  \<open>KernelMetadata::parse\<close> (\<open>mlir/module.rs\<close>) reads them back from the text. An \<open>i32\<close> is an integer
  here; that the fields stay in the range of the type is a property.
\<close>

section \<open>The metadata\<close>

record kernel_metadata =
  km_name :: rstr
  km_num_warps :: int
  km_num_ctas :: int
  km_shared :: int
  km_tmem_size :: int
  km_global_scratch_size :: int
  km_global_scratch_align :: int
  km_profile_scratch_size :: int
  km_profile_scratch_align :: int

definition meta_init :: kernel_metadata where
  "meta_init = \<lparr>km_name = [], km_num_warps = 0, km_num_ctas = 1, km_shared = 0, km_tmem_size = 0,
     km_global_scratch_size = 0, km_global_scratch_align = 1, km_profile_scratch_size = 0,
     km_profile_scratch_align = 1\<rparr>"

section \<open>The reader\<close>

text \<open>\<open>val.parse().unwrap_or(d)\<close>.\<close>

definition parse_or :: "int \<Rightarrow> rstr \<Rightarrow> int option" where
  "parse_or d val = do {
     r \<leftarrow> i32_from_str val;
     Some (case r of Inr x \<Rightarrow> x | Inl _ \<Rightarrow> d) }"

definition set_key :: "kernel_metadata \<Rightarrow> rstr \<Rightarrow> rstr \<Rightarrow> kernel_metadata option" where
  "set_key meta key val =
     (if key = lit ''name'' then Some (meta\<lparr>km_name := val\<rparr>)
      else if key = lit ''num_warps'' then map_option (\<lambda>x. meta\<lparr>km_num_warps := x\<rparr>) (parse_or 0 val)
      else if key = lit ''num_ctas'' then map_option (\<lambda>x. meta\<lparr>km_num_ctas := x\<rparr>) (parse_or 1 val)
      else if key = lit ''shared'' then map_option (\<lambda>x. meta\<lparr>km_shared := x\<rparr>) (parse_or 0 val)
      else if key = lit ''tmem_size'' then map_option (\<lambda>x. meta\<lparr>km_tmem_size := x\<rparr>) (parse_or 0 val)
      else if key = lit ''global_scratch_size'' then
        map_option (\<lambda>x. meta\<lparr>km_global_scratch_size := x\<rparr>) (parse_or 0 val)
      else if key = lit ''global_scratch_align'' then
        map_option (\<lambda>x. meta\<lparr>km_global_scratch_align := x\<rparr>) (parse_or 1 val)
      else if key = lit ''profile_scratch_size'' then
        map_option (\<lambda>x. meta\<lparr>km_profile_scratch_size := x\<rparr>) (parse_or 0 val)
      else if key = lit ''profile_scratch_align'' then
        map_option (\<lambda>x. meta\<lparr>km_profile_scratch_align := x\<rparr>) (parse_or 1 val)
      else Some meta)"

definition meta_line :: "kernel_metadata \<Rightarrow> rstr \<Rightarrow> kernel_metadata option" where
  "meta_line meta line =
     (case strip_prefix (lit ''// meta:'') (str_trim line) of
        None \<Rightarrow> Some meta
      | Some rest \<Rightarrow>
          (case split_once (ch CHR ''='') rest of
             None \<Rightarrow> Some meta
           | Some (key, val) \<Rightarrow> set_key meta key val))"

fun meta_lines :: "kernel_metadata \<Rightarrow> rstr list \<Rightarrow> kernel_metadata option" where
  "meta_lines meta [] = Some meta"
| "meta_lines meta (l # ls) = do { m \<leftarrow> meta_line meta l; meta_lines m ls }"

definition kernel_metadata_parse :: "rstr \<Rightarrow> kernel_metadata option" where
  "kernel_metadata_parse ptx = meta_lines meta_init (str_lines ptx)"

section \<open>The writer\<close>

definition meta_entry :: "string \<Rightarrow> rstr \<Rightarrow> rstr" where
  "meta_entry key val = lit ''// meta:'' @ lit key @ lit ''='' @ val @ [10]"

definition append_metadata :: "rstr \<Rightarrow> kernel_metadata \<Rightarrow> rstr" where
  "append_metadata ptx m =
     ptx @ [10] @ lit ''// --- triton-metadata ---'' @ [10] @
     meta_entry ''name'' (km_name m) @
     meta_entry ''num_warps'' (to_string (km_num_warps m)) @
     meta_entry ''num_ctas'' (to_string (km_num_ctas m)) @
     meta_entry ''shared'' (to_string (km_shared m)) @
     meta_entry ''tmem_size'' (to_string (km_tmem_size m)) @
     meta_entry ''global_scratch_size'' (to_string (km_global_scratch_size m)) @
     meta_entry ''global_scratch_align'' (to_string (km_global_scratch_align m)) @
     meta_entry ''profile_scratch_size'' (to_string (km_profile_scratch_size m)) @
     meta_entry ''profile_scratch_align'' (to_string (km_profile_scratch_align m))"

text \<open>Kernel names match the regular expression \<open>[a-zA-Z_][a-zA-Z0-9_]*\<close>; the other fields are
  32-bit integers.\<close>

definition name_char :: "rchar \<Rightarrow> bool" where
  "name_char c \<longleftrightarrow> 65 \<le> c \<and> c \<le> 90 \<or> c = 95 \<or> 97 \<le> c \<and> c \<le> 122 \<or> 48 \<le> c \<and> c \<le> 57"

definition meta_ints :: "kernel_metadata \<Rightarrow> int list" where
  "meta_ints m = [km_num_warps m, km_num_ctas m, km_shared m, km_tmem_size m, km_global_scratch_size m,
     km_global_scratch_align m, km_profile_scratch_size m, km_profile_scratch_align m]"

definition meta_wf :: "kernel_metadata \<Rightarrow> bool" where
  "meta_wf m \<longleftrightarrow> km_name m \<noteq> [] \<and> list_all name_char (km_name m) \<and>
     list_all (int_in_range True 32) (meta_ints m)"

section \<open>Lines\<close>

lemma split_inclusive_append:
  "split_inclusive d (s @ d # t) = split_inclusive d (s @ [d]) @ split_inclusive d t"
proof (induction s)
  case (Cons c s)
  have "split_inclusive d (s @ [d]) \<noteq> []" by (cases s) (simp_all split: list.split)
  then show ?case using Cons by (cases "split_inclusive d (s @ [d])") auto
qed simp

lemma split_inclusive_line: "d \<notin> set l \<Longrightarrow> split_inclusive d (l @ [d]) = [l @ [d]]"
  by (induction l) auto

lemma str_lines_append: "str_lines (s @ 10 # t) = str_lines (s @ [10]) @ str_lines t"
  using split_inclusive_append [of 10 s t] by (simp add: str_lines_def)

lemma str_lines_line:
  assumes "10 \<notin> set l" "l = [] \<or> last l \<noteq> 13"
  shows "str_lines (l @ 10 # t) = l # str_lines t"
proof -
  have "lines_map (l @ [10]) = l" using assms(2) by (auto simp: lines_map_def strip_suffix_char_def)
  then show ?thesis
    using str_lines_append [of l t] split_inclusive_line [OF assms(1)] by (simp add: str_lines_def)
qed

lemma meta_lines_append:
  "meta_lines m (xs @ ys) = (case meta_lines m xs of None \<Rightarrow> None | Some m' \<Rightarrow> meta_lines m' ys)"
proof (induction xs arbitrary: m)
  case (Cons x xs)
  then show ?case by (cases "meta_line m x") simp_all
qed simp

lemma trim_id:
  assumes "s \<noteq> []" "\<not> char_is_whitespace (hd s)" "\<not> char_is_whitespace (last s)"
  shows "str_trim s = s"
proof -
  have "dropWhile char_is_whitespace s = s" using assms(1,2) by (cases s) auto
  moreover have "dropWhile char_is_whitespace (rev s) = rev s"
    using assms(1,3) by (metis dropWhile_eq_self_iff hd_rev)
  ultimately show ?thesis by (simp add: str_trim_def trim_matches_def)
qed

section \<open>One entry\<close>

lemma parse_or_total: "\<exists>x. parse_or d v = Some x \<and> (int_in_range True 32 d \<longrightarrow> int_in_range True 32 x)"
proof -
  obtain y where y: "i32_from_str v = Some y" "\<And>x. y = Inr x \<Longrightarrow> int_in_range True 32 x"
    using from_ascii_bytes_iff [of 10 32 True "as_bytes v"] by (auto simp: i32_from_str_def from_str_radix_def)
  then show ?thesis by (cases y) (auto simp: parse_or_def)
qed

lemma parse_or_to_string: "int_in_range True 32 v \<Longrightarrow> parse_or d (to_string v) = Some v"
  by (simp add: parse_or_def i32_from_str_to_string)

text \<open>The fields stay in the range of the type.\<close>

lemma set_key_total:
  assumes "list_all (int_in_range True 32) (meta_ints m)"
  shows "\<exists>m'. set_key m key val = Some m' \<and> list_all (int_in_range True 32) (meta_ints m')"
proof -
  obtain a b where a: "parse_or 0 val = Some a" "int_in_range True 32 a"
    and b: "parse_or 1 val = Some b" "int_in_range True 32 b"
    using parse_or_total [of 0 val] parse_or_total [of 1 val] by (auto simp: int_in_range_def)
  show ?thesis using assms a b by (simp add: set_key_def meta_ints_def)
qed

lemma meta_line_total:
  assumes "list_all (int_in_range True 32) (meta_ints m)"
  shows "\<exists>m'. meta_line m l = Some m' \<and> list_all (int_in_range True 32) (meta_ints m')"
  using assms set_key_total [OF assms] by (auto simp: meta_line_def split: option.split)

lemma meta_lines_total:
  "list_all (int_in_range True 32) (meta_ints m) \<Longrightarrow>
   \<exists>m'. meta_lines m ls = Some m' \<and> list_all (int_in_range True 32) (meta_ints m')"
proof (induction ls arbitrary: m)
  case (Cons l ls)
  then show ?case using meta_line_total [OF Cons.prems, of l] by auto
qed simp

lemma meta_init_ints: "list_all (int_in_range True 32) (meta_ints meta_init)"
  by (simp add: meta_ints_def meta_init_def int_in_range_def)

section \<open>Reading what was written\<close>

definition value_char :: "rchar \<Rightarrow> bool" where
  "value_char c \<longleftrightarrow> name_char c \<or> c = 45"

lemma value_char_facts:
  assumes "value_char c"
  shows "c \<noteq> 10" "c \<noteq> 13" "c \<noteq> ch CHR ''=''" "\<not> char_is_whitespace c"
proof -
  have "c = 45 \<or> 48 \<le> c \<and> c \<le> 57 \<or> 65 \<le> c \<and> c \<le> 90 \<or> c = 95 \<or> 97 \<le> c \<and> c \<le> 122"
    using assms by (auto simp: value_char_def name_char_def)
  then show "c \<noteq> 10" "c \<noteq> 13" "c \<noteq> ch CHR ''=''" "\<not> char_is_whitespace c"
    by (auto simp: char_is_whitespace_def)
qed

lemma to_string_chars: "c \<in> set (to_string v) \<Longrightarrow> value_char c"
  using dec_nat_chars by (fastforce simp: to_string_def value_char_def name_char_def split: if_splits)

lemma to_string_nonempty: "to_string v \<noteq> []"
  by (simp add: to_string_def dec_nat_nonempty)

lemma split_once_first: "d \<notin> set k \<Longrightarrow> split_once d (k @ d # v) = Some (k, v)"
  by (simp add: split_once_def takeWhile_append2 dropWhile_append2)
     (metis (mono_tags, lifting) append_Nil2 takeWhile.simps(2) takeWhile_append2 dropWhile_append2 dropWhile.simps(2) list.sel(3))

lemma meta_entry_line:
  assumes "v \<noteq> []" "\<forall>c\<in>set v. value_char c" "\<forall>c\<in>set (lit key). value_char c"
  shows "meta_line m (lit ''// meta:'' @ lit key @ lit ''='' @ v) = set_key m (lit key) v"
proof -
  have "str_trim (lit ''// meta:'' @ lit key @ lit ''='' @ v) = lit ''// meta:'' @ lit key @ lit ''='' @ v"
    using assms value_char_facts(4) [of "last v"] by (intro trim_id) (simp_all add: char_is_whitespace_def)
  moreover have "ch CHR ''='' \<notin> set (lit key)" using assms(3) value_char_facts(3) by blast
  then have "split_once (ch CHR ''='') (lit key @ lit ''='' @ v) = Some (lit key, v)"
    using split_once_first by simp
  ultimately show ?thesis by (simp add: meta_line_def strip_prefix_def del: set_map)
qed

lemma meta_entry_lines:
  assumes "v \<noteq> []" "\<forall>c\<in>set v. value_char c" "\<forall>c\<in>set (lit key). value_char c"
  shows "meta_lines m (str_lines (meta_entry key v @ t)) =
    (case set_key m (lit key) v of None \<Rightarrow> None | Some m' \<Rightarrow> meta_lines m' (str_lines t))"
proof -
  let ?l = "lit ''// meta:'' @ lit key @ lit ''='' @ v"
  have "10 \<notin> set ?l" using assms(2,3) value_char_facts(1) by auto
  moreover have "last ?l \<noteq> 13" using assms(1,2) value_char_facts(2) [of "last v"] by simp
  ultimately have "str_lines (?l @ 10 # t) = ?l # str_lines t" by (intro str_lines_line) simp_all
  then have "str_lines (meta_entry key v @ t) = ?l # str_lines t" by (simp add: meta_entry_def)
  then show ?thesis using meta_entry_line [OF assms, of m] by (simp split: option.split)
qed

lemma lit_eq_iff: "lit s = lit t \<longleftrightarrow> s = t"
  by (simp add: inj_map_eq_map inj_def)

text \<open>A sequence of entries sets its keys in order.\<close>

fun set_keys :: "kernel_metadata \<Rightarrow> (string \<times> rstr) list \<Rightarrow> kernel_metadata option" where
  "set_keys m [] = Some m"
| "set_keys m ((k, v) # kvs) = do { m' \<leftarrow> set_key m (lit k) v; set_keys m' kvs }"

definition entry_ok :: "string \<times> rstr \<Rightarrow> bool" where
  "entry_ok e \<longleftrightarrow> snd e \<noteq> [] \<and> list_all value_char (snd e) \<and> list_all value_char (lit (fst e))"

lemma entries_set_keys:
  "list_all entry_ok kvs \<Longrightarrow>
   meta_lines m (str_lines (concat (map (\<lambda>(k, v). meta_entry k v) kvs))) = set_keys m kvs"
proof (induction kvs arbitrary: m)
  case (Cons e kvs)
  obtain k v where e: "e = (k, v)" by (cases e)
  then have "v \<noteq> []" "\<forall>c\<in>set v. value_char c" "\<forall>c\<in>set (lit k). value_char c"
    using Cons.prems by (simp_all add: entry_ok_def list_all_iff)
  from meta_entry_lines [OF this] show ?case
    using Cons e by (simp split: option.split Option.bind_split)
qed (simp add: str_lines_def)

lemma entry_ok_int: "list_all value_char (lit k) \<Longrightarrow> entry_ok (k, to_string v)"
  using to_string_chars to_string_nonempty by (auto simp: entry_ok_def list_all_iff)

lemma set_key_simps:
  "set_key m (lit ''name'') v = Some (m\<lparr>km_name := v\<rparr>)"
  "set_key m (lit ''num_warps'') v = map_option (\<lambda>x. m\<lparr>km_num_warps := x\<rparr>) (parse_or 0 v)"
  "set_key m (lit ''num_ctas'') v = map_option (\<lambda>x. m\<lparr>km_num_ctas := x\<rparr>) (parse_or 1 v)"
  "set_key m (lit ''shared'') v = map_option (\<lambda>x. m\<lparr>km_shared := x\<rparr>) (parse_or 0 v)"
  "set_key m (lit ''tmem_size'') v = map_option (\<lambda>x. m\<lparr>km_tmem_size := x\<rparr>) (parse_or 0 v)"
  "set_key m (lit ''global_scratch_size'') v =
     map_option (\<lambda>x. m\<lparr>km_global_scratch_size := x\<rparr>) (parse_or 0 v)"
  "set_key m (lit ''global_scratch_align'') v =
     map_option (\<lambda>x. m\<lparr>km_global_scratch_align := x\<rparr>) (parse_or 1 v)"
  "set_key m (lit ''profile_scratch_size'') v =
     map_option (\<lambda>x. m\<lparr>km_profile_scratch_size := x\<rparr>) (parse_or 0 v)"
  "set_key m (lit ''profile_scratch_align'') v =
     map_option (\<lambda>x. m\<lparr>km_profile_scratch_align := x\<rparr>) (parse_or 1 v)"
  unfolding set_key_def lit_eq_iff by simp_all

definition meta_kvs :: "kernel_metadata \<Rightarrow> (string \<times> rstr) list" where
  "meta_kvs m = [(''name'', km_name m), (''num_warps'', to_string (km_num_warps m)),
     (''num_ctas'', to_string (km_num_ctas m)), (''shared'', to_string (km_shared m)),
     (''tmem_size'', to_string (km_tmem_size m)),
     (''global_scratch_size'', to_string (km_global_scratch_size m)),
     (''global_scratch_align'', to_string (km_global_scratch_align m)),
     (''profile_scratch_size'', to_string (km_profile_scratch_size m)),
     (''profile_scratch_align'', to_string (km_profile_scratch_align m))]"

lemma append_metadata_kvs:
  "append_metadata ptx m = ptx @ 10 # lit ''// --- triton-metadata ---'' @ 10 #
     concat (map (\<lambda>(k, v). meta_entry k v) (meta_kvs m))"
  unfolding append_metadata_def meta_kvs_def by simp

lemma meta_kvs_ok:
  assumes "meta_wf m"
  shows "list_all entry_ok (meta_kvs m)"
proof -
  have "entry_ok (''name'', km_name m)"
    using assms by (auto simp: meta_wf_def entry_ok_def list_all_iff value_char_def name_char_def)
  then show ?thesis
    by (simp add: meta_kvs_def entry_ok_int value_char_def name_char_def)
qed

lemma set_keys_kvs:
  assumes "meta_wf m"
  shows "set_keys m0 (meta_kvs m) = Some m"
proof -
  have "int_in_range True 32 v" if "v \<in> set (meta_ints m)" for v
    using assms that by (simp add: meta_wf_def list_all_iff)
  then have "parse_or d (to_string v) = Some v" if "v \<in> set (meta_ints m)" for v d
    using that parse_or_to_string by blast
  then have *: "parse_or d (to_string (km_num_warps m)) = Some (km_num_warps m)"
    "parse_or d (to_string (km_num_ctas m)) = Some (km_num_ctas m)"
    "parse_or d (to_string (km_shared m)) = Some (km_shared m)"
    "parse_or d (to_string (km_tmem_size m)) = Some (km_tmem_size m)"
    "parse_or d (to_string (km_global_scratch_size m)) = Some (km_global_scratch_size m)"
    "parse_or d (to_string (km_global_scratch_align m)) = Some (km_global_scratch_align m)"
    "parse_or d (to_string (km_profile_scratch_size m)) = Some (km_profile_scratch_size m)"
    "parse_or d (to_string (km_profile_scratch_align m)) = Some (km_profile_scratch_align m)" for d
    by (simp_all add: meta_ints_def)
  show ?thesis
    unfolding meta_kvs_def set_keys.simps set_key_simps * option.map Option.bind.simps by simp
qed

text \<open>The banner line is ignored.\<close>

lemma banner_line: "meta_line m (lit ''// --- triton-metadata ---'') = Some m"
proof -
  have "str_trim (lit ''// --- triton-metadata ---'') = lit ''// --- triton-metadata ---''"
    by (intro trim_id) (simp_all add: char_is_whitespace_def)
  then show ?thesis by (simp add: meta_line_def strip_prefix_def)
qed

definition ex_meta :: kernel_metadata where
  "ex_meta = \<lparr>km_name = lit ''add_kernel'', km_num_warps = 4, km_num_ctas = 1, km_shared = 49152,
     km_tmem_size = 0, km_global_scratch_size = 0, km_global_scratch_align = 1,
     km_profile_scratch_size = 0, km_profile_scratch_align = 1\<rparr>"

lemma ex_meta_wf: "meta_wf ex_meta"
  by (simp add: meta_wf_def ex_meta_def name_char_def meta_ints_def int_in_range_def)

section \<open>Properties\<close>

text \<open>C29. Reading back the metadata of a kernel gives what the C++ backend wrote, whatever the PTX
  text before it contains.\<close>

theorem kernel_metadata_roundtrip:
  assumes "meta_wf m"
  shows "kernel_metadata_parse (append_metadata ptx m) = Some m"
proof -
  obtain m0 where m0: "meta_lines meta_init (str_lines (ptx @ [10])) = Some m0"
    using meta_lines_total [OF meta_init_ints] by blast
  define es where "es = concat (map (\<lambda>(k, v). meta_entry k v) (meta_kvs m))"
  define banner where "banner = lit ''// --- triton-metadata ---''"
  have "str_lines (banner @ 10 # es) = banner # str_lines es"
    unfolding banner_def by (rule str_lines_line) simp_all
  moreover have "meta_line m0 banner = Some m0" unfolding banner_def by (rule banner_line)
  moreover have "meta_lines m0 (str_lines es) = Some m"
    unfolding es_def entries_set_keys [OF meta_kvs_ok [OF assms]] by (rule set_keys_kvs [OF assms])
  moreover have "append_metadata ptx m = ptx @ 10 # banner @ 10 # es"
    unfolding append_metadata_kvs es_def banner_def ..
  ultimately show ?thesis
    using m0 str_lines_append [of ptx "banner @ 10 # es"]
    by (simp add: kernel_metadata_parse_def meta_lines_append)
qed

theorem kernel_metadata_roundtrip_witness:
  "meta_wf ex_meta \<and> kernel_metadata_parse (append_metadata (lit ''.version 8.0'') ex_meta) = Some ex_meta"
  using kernel_metadata_roundtrip [OF ex_meta_wf] ex_meta_wf by simp

text \<open>Reading metadata does not panic on any text, and every number it returns is in the range
  of its type.\<close>

theorem kernel_metadata_parse_typed:
  "\<exists>m. kernel_metadata_parse ptx = Some m \<and> list_all (int_in_range True 32) (meta_ints m)"
  unfolding kernel_metadata_parse_def by (rule meta_lines_total [OF meta_init_ints])

end
