(* ===== verification/Kernel_Target.thy ===== *)
theory Kernel_Target
  imports Rust_Parse_Props
begin

text \<open>
  Resolution of the Triton target from the session (\<open>mlir/target.rs\<close>, the version functions of
  \<open>mlir/module.rs\<close>) and the compile options passed over the foreign interface
  (\<open>rustc_mlir/src/ffi.rs\<close>).

  A null pointer is \<open>None\<close> and a pointer to a C string is \<open>Some\<close> of its contents. A fatal
  diagnostic is the left summand of the result; the outer \<open>None\<close> is a panic. What the session and
  the environment give is a record: the architecture, the value of \<open>llvm_util::target_cpu\<close>, the LLVM
  triple, the features that \<open>global_llvm_features\<close> lists, the variable \<open>TEENYC_PTX_VERSION\<close>, and
  whether tracing is enabled.
\<close>

section \<open>Compile options\<close>

datatype target_backend = Backend_Cuda | Backend_Rocm | Backend_Riscv

record optional_i32 =
  oi_has_value :: bool
  oi_value :: int

definition optional_i32_none :: optional_i32 where
  "optional_i32_none = \<lparr>oi_has_value = False, oi_value = 0\<rparr>"

definition optional_i32_some :: "int \<Rightarrow> optional_i32" where
  "optional_i32_some v = \<lparr>oi_has_value = True, oi_value = v\<rparr>"

record optional_bool =
  ob_has_value :: bool
  ob_value :: bool

definition optional_bool_none :: optional_bool where
  "optional_bool_none = \<lparr>ob_has_value = False, ob_value = False\<rparr>"

record dim3 =
  dim_x :: int
  dim_y :: int
  dim_z :: int

type_synonym cstr_ptr = "rstr option"
type_synonym cstr_array = "rstr list option"

record cuda_compile_options =
  cu_num_warps :: int
  cu_num_ctas :: int
  cu_num_stages :: int
  cu_capability :: int
  cu_maxnreg :: optional_i32
  cu_cluster_dims :: dim3
  cu_ptx_version :: optional_i32
  cu_ptx_options :: cstr_ptr
  cu_ir_override :: cstr_ptr
  cu_enable_fp_fusion :: bool
  cu_launch_cooperative_grid :: bool
  cu_launch_pdl :: bool
  cu_supported_fp8_dtypes :: cstr_array
  cu_supported_fp8_dtypes_len :: nat
  cu_deprecated_fp8_dot_operand_dtypes :: cstr_array
  cu_deprecated_fp8_dot_operand_dtypes_len :: nat
  cu_default_dot_input_precision :: cstr_ptr
  cu_allowed_dot_input_precisions :: cstr_array
  cu_allowed_dot_input_precisions_len :: nat
  cu_max_num_imprecise_acc_default :: optional_bool
  cu_extern_lib_keys :: cstr_array
  cu_extern_lib_values :: cstr_array
  cu_extern_libs_len :: nat
  cu_debug :: bool
  cu_backend_name :: cstr_ptr
  cu_sanitize_overflow :: bool
  cu_arch :: cstr_ptr
  cu_dump_enabled :: bool
  cu_enable_experimental_consan :: bool
  cu_instrumentation :: bool
  cu_disable_line_info :: bool
  cu_enable_reflect_ftz :: bool
  cu_dump_ir_extract_di_local_variables :: bool

definition cuda_default :: cuda_compile_options where
  "cuda_default = \<lparr>cu_num_warps = 4, cu_num_ctas = 1, cu_num_stages = 3, cu_capability = 90,
     cu_maxnreg = optional_i32_none, cu_cluster_dims = \<lparr>dim_x = 1, dim_y = 1, dim_z = 1\<rparr>,
     cu_ptx_version = optional_i32_some 87, cu_ptx_options = None, cu_ir_override = None,
     cu_enable_fp_fusion = True, cu_launch_cooperative_grid = False, cu_launch_pdl = False,
     cu_supported_fp8_dtypes = None, cu_supported_fp8_dtypes_len = 0,
     cu_deprecated_fp8_dot_operand_dtypes = None, cu_deprecated_fp8_dot_operand_dtypes_len = 0,
     cu_default_dot_input_precision = None, cu_allowed_dot_input_precisions = None,
     cu_allowed_dot_input_precisions_len = 0, cu_max_num_imprecise_acc_default = optional_bool_none,
     cu_extern_lib_keys = None, cu_extern_lib_values = None, cu_extern_libs_len = 0,
     cu_debug = False, cu_backend_name = None, cu_sanitize_overflow = True, cu_arch = None,
     cu_dump_enabled = False, cu_enable_experimental_consan = False, cu_instrumentation = False,
     cu_disable_line_info = False, cu_enable_reflect_ftz = False,
     cu_dump_ir_extract_di_local_variables = False\<rparr>"

record riscv_compile_options =
  rv_target_triple :: cstr_ptr
  rv_cpu :: cstr_ptr
  rv_features :: cstr_ptr
  rv_debug :: bool

definition riscv_default :: riscv_compile_options where
  "riscv_default = \<lparr>rv_target_triple = None, rv_cpu = None, rv_features = None, rv_debug = False\<rparr>"

text \<open>The member of the union that was written last.\<close>

datatype compile_options_data = Data_Cuda cuda_compile_options | Data_Riscv riscv_compile_options

record compile_options =
  co_backend :: target_backend
  co_data :: compile_options_data

definition default_cuda :: compile_options where
  "default_cuda = \<lparr>co_backend = Backend_Cuda, co_data = Data_Cuda cuda_default\<rparr>"

definition default_riscv :: compile_options where
  "default_riscv = \<lparr>co_backend = Backend_Riscv, co_data = Data_Riscv riscv_default\<rparr>"

section \<open>Sessions\<close>

datatype arch = AArch64 | AmdGpu | Arm | Arm64EC | Avr | Bpf | CSky | Hexagon | LoongArch32
  | LoongArch64 | M68k | Mips | Mips32r6 | Mips64 | Mips64r6 | Msp430 | Nvptx64 | PowerPC
  | PowerPC64 | RiscV32 | RiscV64 | S390x | Sparc | Sparc64 | SpirV | Wasm32 | Wasm64 | X86
  | X86_64 | Xtensa | Arch_Other rstr

record session =
  sess_arch :: arch
  sess_target_cpu :: rstr
  sess_llvm_target :: rstr
  sess_llvm_features :: "rstr list"
  sess_ptx_version_var :: "rstr option"
  sess_trace :: bool

datatype fatal =
    Fatal_Unsupported_Arch arch
  | Fatal_Invalid_Cuda_Cpu rstr
  | Fatal_Empty_Riscv_Cpu
  | Fatal_Nul_In_Cpu rstr
  | Fatal_Nul_In_Features

section \<open>CUDA\<close>

definition default_ptx_version_for_capability :: "int \<Rightarrow> int" where
  "default_ptx_version_for_capability capability =
     (if capability = 75 then 63
      else if capability = 80 then 70
      else if capability = 86 then 71
      else if capability = 87 then 74
      else if capability = 88 then 90
      else if capability = 89 then 78
      else if capability = 90 then 80
      else if capability = 100 then 86
      else if capability = 101 then 86
      else if capability = 103 then 88
      else if capability = 107 then 86
      else if capability = 110 then 90
      else if capability = 120 then 87
      else if capability = 121 then 88
      else 80)"

definition resolve_ptx_version :: "rstr option \<Rightarrow> int \<Rightarrow> int option" where
  "resolve_ptx_version var capability =
     (case var of
        None \<Rightarrow> Some (default_ptx_version_for_capability capability)
      | Some v \<Rightarrow> do {
          r \<leftarrow> i32_from_str v;
          Some (case r of Inr parsed \<Rightarrow> parsed
                | Inl _ \<Rightarrow> default_ptx_version_for_capability capability) })"

definition parse_cuda_capability :: "rstr \<Rightarrow> (fatal + int) option" where
  "parse_cuda_capability cpu =
     (case strip_prefix (lit ''sm_'') cpu of
        None \<Rightarrow> Some (Inl (Fatal_Invalid_Cuda_Cpu cpu))
      | Some digits \<Rightarrow>
          let digits' = (case strip_suffix_char (ch CHR ''a'') digits of Some d \<Rightarrow> d | None \<Rightarrow> digits) in do {
            r \<leftarrow> i32_from_str digits';
            Some (case r of Inr v \<Rightarrow> Inr v | Inl _ \<Rightarrow> Inl (Fatal_Invalid_Cuda_Cpu cpu)) })"

definition resolve_cuda :: "session \<Rightarrow> (fatal + compile_options) option" where
  "resolve_cuda sess = do {
     r \<leftarrow> parse_cuda_capability (sess_target_cpu sess);
     (case r of
        Inl msg \<Rightarrow> Some (Inl msg)
      | Inr capability \<Rightarrow> do {
          ptx \<leftarrow> resolve_ptx_version (sess_ptx_version_var sess) capability;
          Some (Inr (default_cuda\<lparr>co_data := Data_Cuda (cuda_default\<lparr>cu_capability := capability,
            cu_ptx_version := optional_i32_some ptx, cu_debug := sess_trace sess\<rparr>)\<rparr>)) }) }"

section \<open>RISC-V\<close>

definition cstring_new :: "rstr \<Rightarrow> rstr option" where
  "cstring_new s = (if 0 \<in> set (as_bytes s) then None else Some s)"

definition str_join :: "rstr \<Rightarrow> rstr list \<Rightarrow> rstr" where
  "str_join sep xs = concat (case xs of [] \<Rightarrow> [] | x # xs \<Rightarrow> x # map (\<lambda>y. sep @ y) xs)"

definition resolve_riscv :: "session \<Rightarrow> fatal + compile_options \<times> rstr list" where
  "resolve_riscv sess =
     (let cpu = sess_target_cpu sess in
      if cpu = [] then Inl Fatal_Empty_Riscv_Cpu
      else case cstring_new cpu of
        None \<Rightarrow> Inl (Fatal_Nul_In_Cpu cpu)
      | Some cpu_c \<Rightarrow>
          let triple_c = cstring_new (sess_llvm_target sess) in
          (case cstring_new (str_join (lit '','') (sess_llvm_features sess)) of
             None \<Rightarrow> Inl Fatal_Nul_In_Features
           | Some features_c \<Rightarrow>
               Inr (default_riscv\<lparr>co_data := Data_Riscv (riscv_default\<lparr>rv_cpu := Some cpu_c,
                      rv_features := Some features_c,
                      rv_target_triple := (case triple_c of Some t \<Rightarrow> Some t | None \<Rightarrow> rv_target_triple riscv_default),
                      rv_debug := sess_trace sess\<rparr>)\<rparr>,
                    [cpu_c, features_c] @ (case triple_c of Some t \<Rightarrow> [t] | None \<Rightarrow> []))))"

definition resolve :: "session \<Rightarrow> (fatal + compile_options \<times> rstr \<times> rstr list) option" where
  "resolve sess =
     (case sess_arch sess of
        Nvptx64 \<Rightarrow> do {
          r \<leftarrow> resolve_cuda sess;
          Some (case r of Inl e \<Rightarrow> Inl e | Inr options \<Rightarrow> Inr (options, lit ''cuda'', [])) }
      | RiscV32 \<Rightarrow> Some (map_sum id (\<lambda>(options, keep). (options, lit ''riscv'', keep)) (resolve_riscv sess))
      | RiscV64 \<Rightarrow> Some (map_sum id (\<lambda>(options, keep). (options, lit ''riscv'', keep)) (resolve_riscv sess))
      | other \<Rightarrow> Some (Inl (Fatal_Unsupported_Arch other)))"

section \<open>Invariants of the options\<close>

text \<open>Only the member of the union that the tag names may be read, and every string a pointer refers
  to must be kept alive by the caller.\<close>

definition ptr_strings :: "compile_options \<Rightarrow> rstr set" where
  "ptr_strings o' = (case co_data o' of
       Data_Cuda c \<Rightarrow> set_option (cu_ptx_options c) \<union> set_option (cu_ir_override c) \<union>
         set_option (cu_default_dot_input_precision c) \<union> set_option (cu_backend_name c) \<union>
         set_option (cu_arch c) \<union>
         \<Union> (set ` (set_option (cu_supported_fp8_dtypes c) \<union>
           set_option (cu_deprecated_fp8_dot_operand_dtypes c) \<union>
           set_option (cu_allowed_dot_input_precisions c) \<union> set_option (cu_extern_lib_keys c) \<union>
           set_option (cu_extern_lib_values c)))
     | Data_Riscv r \<Rightarrow> set_option (rv_target_triple r) \<union> set_option (rv_cpu r) \<union> set_option (rv_features r))"

definition tag_matches :: "compile_options \<Rightarrow> rstr \<Rightarrow> bool" where
  "tag_matches o' name \<longleftrightarrow> (case co_data o' of
       Data_Cuda _ \<Rightarrow> co_backend o' = Backend_Cuda \<and> name = lit ''cuda''
     | Data_Riscv _ \<Rightarrow> co_backend o' = Backend_Riscv \<and> name = lit ''riscv'')"

definition is_cstring :: "rstr \<Rightarrow> bool" where
  "is_cstring s \<longleftrightarrow> 0 \<notin> set (as_bytes s)"

lemma i32_from_str_total:
  "\<exists>y. i32_from_str s = Some y \<and>
     (\<forall>v. y = Inr v \<longleftrightarrow> int_literal True 10 (as_bytes s) v \<and> int_in_range True 32 v)"
  using from_ascii_bytes_iff [of 10 32 True "as_bytes s"] by (simp add: i32_from_str_def from_str_radix_def)

lemma parse_cuda_capability_total: "\<exists>r. parse_cuda_capability cpu = Some r"
proof (cases "strip_prefix (lit ''sm_'') cpu")
  case (Some ds)
  let ?ds = "case strip_suffix_char (ch CHR ''a'') ds of Some d \<Rightarrow> d | None \<Rightarrow> ds"
  obtain y where "i32_from_str ?ds = Some y" using i32_from_str_total by blast
  then show ?thesis using Some unfolding parse_cuda_capability_def Let_def by simp
qed (simp add: parse_cuda_capability_def)

lemma resolve_ptx_version_total: "\<exists>p. resolve_ptx_version var c = Some p"
proof (cases var)
  case (Some v)
  obtain y where "i32_from_str v = Some y" using i32_from_str_total by blast
  then show ?thesis using Some by (simp add: resolve_ptx_version_def)
qed (simp add: resolve_ptx_version_def)

lemma resolve_cuda_total:
  "\<exists>r. resolve_cuda sess = Some r \<and> (\<forall>o'. r = Inr o' \<longrightarrow> tag_matches o' (lit ''cuda'') \<and> ptr_strings o' = {})"
proof -
  obtain r where r: "parse_cuda_capability (sess_target_cpu sess) = Some r"
    using parse_cuda_capability_total by blast
  obtain p where "\<And>c. resolve_ptx_version (sess_ptx_version_var sess) c = Some (p c)"
    using resolve_ptx_version_total by metis
  then show ?thesis
    using r by (cases r) (auto simp: resolve_cuda_def tag_matches_def ptr_strings_def default_cuda_def cuda_default_def)
qed

lemma resolve_riscv_safe:
  assumes "resolve_riscv sess = Inr (o', keep)"
  shows "tag_matches o' (lit ''riscv'')" "ptr_strings o' \<subseteq> set keep" "\<forall>s\<in>set keep. is_cstring s"
  using assms
  by (auto simp: resolve_riscv_def Let_def tag_matches_def ptr_strings_def default_riscv_def riscv_default_def
      cstring_new_def is_cstring_def split: if_splits option.splits)

lemma no_decimal_a: "\<not> int_literal sg 10 (as_bytes (s @ [97])) v"
proof
  assume "int_literal sg 10 (as_bytes (s @ [97])) v"
  then obtain ds xs where ds: "as_bytes (s @ [97]) = ds \<or> as_bytes (s @ [97]) = 43 # ds \<or> as_bytes (s @ [97]) = 45 # ds"
    "ds \<noteq> []" "digits_of 10 ds = Some xs" unfolding int_literal_def by blast
  have last: "as_bytes (s @ [97]) = as_bytes s @ [97]" by (simp add: as_bytes_append encode_utf8_ascii)
  obtain cs where cs: "ds = cs @ [97]"
    using ds(1,2) unfolding last by (auto simp: append_eq_Cons_conv)
  have "digits_of 10 [97] = None" by (simp add: digit_value_def)
  then have "digits_of 10 ds = None" unfolding cs digits_of_append by (simp split: option.split)
  then show False using ds(3) by simp
qed

lemma i32_from_str_iff:
  "i32_from_str s = Some (Inr v) \<longleftrightarrow> int_literal True 10 (as_bytes s) v \<and> int_in_range True 32 v"
proof -
  obtain y where "i32_from_str s = Some y"
    "\<And>v. y = Inr v \<longleftrightarrow> int_literal True 10 (as_bytes s) v \<and> int_in_range True 32 v"
    using i32_from_str_total by blast
  then show ?thesis by simp
qed

lemma parse_cuda_capability_iff:
  "parse_cuda_capability cpu = Some (Inr v) \<longleftrightarrow>
     (\<exists>ds. (cpu = lit ''sm_'' @ ds \<or> cpu = lit ''sm_'' @ ds @ lit ''a'') \<and>
        int_literal True 10 (as_bytes ds) v \<and> int_in_range True 32 v)"
proof (cases "strip_prefix (lit ''sm_'') cpu")
  case None
  then have "\<nexists>t. cpu = lit ''sm_'' @ t" by (auto simp: strip_prefix_def prefix_def split: if_splits)
  then show ?thesis using None by (auto simp: parse_cuda_capability_def)
next
  case (Some t)
  then have cpu: "cpu = lit ''sm_'' @ t" by (auto simp: strip_prefix_def prefix_def split: if_splits)
  have res: "parse_cuda_capability cpu = Some (Inr v) \<longleftrightarrow>
      i32_from_str (case strip_suffix_char (ch CHR ''a'') t of Some d \<Rightarrow> d | None \<Rightarrow> t) = Some (Inr v)"
  proof -
    let ?d = "case strip_suffix_char (ch CHR ''a'') t of Some d \<Rightarrow> d | None \<Rightarrow> t"
    obtain y where "i32_from_str ?d = Some y" using i32_from_str_total by blast
    then show ?thesis unfolding parse_cuda_capability_def Some option.case Let_def by (cases y) simp_all
  qed
  show ?thesis
  proof (cases "t \<noteq> [] \<and> last t = 97")
    case True
    then obtain d where d: "t = d @ [97]" by (metis append_butlast_last_id)
    then show ?thesis
      using res no_decimal_a [of True d v] cpu by (auto simp: strip_suffix_char_def i32_from_str_iff)
  next
    case False
    then have "\<nexists>d. t = d @ [97]" by auto
    then show ?thesis using res False cpu by (auto simp: strip_suffix_char_def i32_from_str_iff)
  qed
qed

section \<open>Properties\<close>

text \<open>C30. Resolving the target never panics. When it succeeds, the tag of the options names the member
  of the union that was set and the backend that is asked for, and every string a pointer of the
  options refers to is a C string that the caller keeps alive; otherwise there is a fatal diagnostic.\<close>

theorem resolve_safe:
  "\<exists>r. resolve sess = Some r \<and>
     (\<forall>o' name keep. r = Inr (o', name, keep) \<longrightarrow>
        tag_matches o' name \<and> ptr_strings o' \<subseteq> set keep \<and> (\<forall>s\<in>set keep. is_cstring s))"
proof -
  obtain c where c: "resolve_cuda sess = Some c"
    "\<forall>o'. c = Inr o' \<longrightarrow> tag_matches o' (lit ''cuda'') \<and> ptr_strings o' = {}"
    using resolve_cuda_total by blast
  note riscv = resolve_riscv_safe [of sess]
  show ?thesis
  proof (cases "sess_arch sess \<in> {RiscV32, RiscV64}")
    case True
    then have r: "resolve sess = Some (map_sum id (\<lambda>(o', k). (o', lit ''riscv'', k)) (resolve_riscv sess))"
      by (auto simp: resolve_def)
    show ?thesis
    proof (cases "resolve_riscv sess")
      case (Inr ok)
      then show ?thesis using r riscv [of "fst ok" "snd ok"] by (auto simp: case_prod_beta)
    qed (use r in simp)
  next
    case False
    then show ?thesis using c by (cases "sess_arch sess"; cases c) (auto simp: resolve_def)
  qed
qed

definition ex_sess :: session where
  "ex_sess = \<lparr>sess_arch = RiscV64, sess_target_cpu = lit ''spacemit-k3'', sess_llvm_target = lit ''riscv64'',
     sess_llvm_features = [lit ''+m'', lit ''+v''], sess_ptx_version_var = None, sess_trace = False\<rparr>"

theorem resolve_safe_witness:
  "\<exists>o' keep. resolve ex_sess = Some (Inr (o', lit ''riscv'', keep)) \<and> ptr_strings o' \<subseteq> set keep"
  using resolve_safe [of ex_sess]
  by (simp add: resolve_def ex_sess_def resolve_riscv_def Let_def cstring_new_def encode_utf8_ascii str_join_def)

text \<open>A value of \<open>-C target-cpu\<close> is accepted for CUDA exactly when it is \<open>sm_\<close>, a decimal 32-bit
  integer and optionally \<open>a\<close>, and the integer is the capability.\<close>

theorem parse_cuda_capability_exact:
  "parse_cuda_capability cpu = Some (Inr v) \<longleftrightarrow>
     (\<exists>ds. (cpu = lit ''sm_'' @ ds \<or> cpu = lit ''sm_'' @ ds @ lit ''a'') \<and>
        int_literal True 10 (as_bytes ds) v \<and> int_in_range True 32 v)"
  by (rule parse_cuda_capability_iff)

text \<open>The integer may have a sign, so \<open>sm_-90a\<close> is accepted, although the comment admits only the
  shape \<open>sm_<NN>[a]\<close>; the PTX version is then the default of an unknown architecture.\<close>

theorem parse_cuda_capability_negative:
  "parse_cuda_capability (lit ''sm_-90a'') = Some (Inr (- 90)) \<and>
   resolve_ptx_version None (- 90) = Some 80"
proof
  have "to_string (- 90) = lit ''-90''" by (simp add: to_string_def dec_nat.simps)
  then have "int_literal True 10 (as_bytes (lit ''-90'')) (- 90)"
    using int_literal_to_string [of "- 90"] by simp
  moreover have "lit ''sm_-90a'' = lit ''sm_'' @ lit ''-90'' @ lit ''a''" by simp
  ultimately show "parse_cuda_capability (lit ''sm_-90a'') = Some (Inr (- 90))"
    unfolding parse_cuda_capability_iff
    by (intro exI [of _ "lit ''-90''"]) (simp add: int_in_range_def)
qed (simp add: resolve_ptx_version_def default_ptx_version_for_capability_def)

end
