(* ===== verification/Index_Set.thy ===== *)
theory Index_Set
  imports Prelude
begin

text \<open>
  Sets of indices below a domain size. The compiler has several implementations of them in
  \<open>rustc_index\<close>; this theory has what they share: the bounds of ranges, the interface of a set
  type, and the specification it is compared with.

  The interface is a record of operations, since clients hold several sets and call the operations
  in any order. \<open>set_run\<close> executes a sequence of such calls on registers that hold sets;
  \<open>spec_run\<close> does the same on mathematical sets. The locale \<open>index_set\<close> states what each operation
  promises and shows that no sequence of calls can tell an implementation from the specification.

  The index type is \<open>usize\<close>, as a natural number.
\<close>

section \<open>Ranges\<close>

datatype bound = Included nat | Excluded nat | Unbounded

type_synonym range = "bound \<times> bound"

text \<open>The indices below \<open>d\<close> that a range means.\<close>

fun above :: "bound \<Rightarrow> nat \<Rightarrow> bool" where
  "above (Included s) i = (s \<le> i)"
| "above (Excluded s) i = (s < i)"
| "above Unbounded i = True"

fun below :: "bound \<Rightarrow> nat \<Rightarrow> bool" where
  "below (Included e) i = (i \<le> e)"
| "below (Excluded e) i = (i < e)"
| "below Unbounded i = True"

definition range_set :: "nat \<Rightarrow> range \<Rightarrow> nat set" where
  "range_set d r = {i. i < d \<and> above (fst r) i \<and> below (snd r) i}"

text \<open>Ranges that a caller may pass for a domain of size \<open>d\<close>: the last index is in the domain.\<close>

definition range_ok :: "nat \<Rightarrow> range \<Rightarrow> bool" where
  "range_ok d g \<longleftrightarrow>
     (case fst g of Included s \<Rightarrow> s < 2 ^ 32 | Excluded s \<Rightarrow> s < 2 ^ 32 - 1 | Unbounded \<Rightarrow> True) \<and>
     (case snd g of Included e \<Rightarrow> e < d | Excluded e \<Rightarrow> e \<le> d | Unbounded \<Rightarrow> 0 < d)"

definition max_of :: "nat set \<Rightarrow> nat option" where
  "max_of S = (if S = {} then None else Some (Max S))"

lemma max_of_eqI:
  assumes "m \<in> S" "\<And>i. i \<in> S \<Longrightarrow> i \<le> m"
  shows "max_of S = Some m"
proof -
  have "finite S" using assms(2) finite_nat_set_iff_bounded_le by blast
  then have "Max S = m" using assms by (intro Max_eqI) auto
  then show ?thesis using assms(1) by (auto simp: max_of_def)
qed

definition min_of :: "nat set \<Rightarrow> nat option" where
  "min_of S = (if S = {} then None else Some (LEAST i. i \<in> S))"

lemma min_of_eqI:
  assumes "m \<in> S" "\<And>i. i \<in> S \<Longrightarrow> m \<le> i"
  shows "min_of S = Some m"
proof -
  have "(LEAST i. i \<in> S) = m" using assms by (intro Least_equality) auto
  then show ?thesis using assms(1) by (auto simp: min_of_def)
qed

section \<open>The operations\<close>

record 's set_impl =
  im_contains :: "'s \<Rightarrow> nat \<Rightarrow> bool option"
  im_is_empty :: "'s \<Rightarrow> bool"
  im_superset :: "'s \<Rightarrow> 's \<Rightarrow> bool option"
  im_last_set_in :: "'s \<Rightarrow> range \<Rightarrow> nat option option"
  im_insert :: "'s \<Rightarrow> nat \<Rightarrow> ('s \<times> bool) option"
  im_insert_range :: "'s \<Rightarrow> range \<Rightarrow> 's option"
  im_insert_all :: "'s \<Rightarrow> 's option"
  im_clear :: "'s \<Rightarrow> 's"
  im_union :: "'s \<Rightarrow> 's \<Rightarrow> ('s \<times> bool) option"

text \<open>A call names the registers of its receiver and of its argument.\<close>

datatype set_op =
    Op_contains nat nat
  | Op_is_empty nat
  | Op_superset nat nat
  | Op_last_set_in nat range
  | Op_insert nat nat
  | Op_insert_range nat range
  | Op_insert_all nat
  | Op_clear nat
  | Op_union nat nat

datatype answer = No_Answer | Flag bool | Found "nat option"

fun set_step :: "'s set_impl \<Rightarrow> set_op \<Rightarrow> 's list \<Rightarrow> ('s list \<times> answer) option" where
  "set_step im (Op_contains r x) ss = map_option (\<lambda>b. (ss, Flag b)) (im_contains im (ss ! r) x)"
| "set_step im (Op_is_empty r) ss = Some (ss, Flag (im_is_empty im (ss ! r)))"
| "set_step im (Op_superset r q) ss = map_option (\<lambda>b. (ss, Flag b)) (im_superset im (ss ! r) (ss ! q))"
| "set_step im (Op_last_set_in r g) ss = map_option (\<lambda>m. (ss, Found m)) (im_last_set_in im (ss ! r) g)"
| "set_step im (Op_insert r x) ss = map_option (\<lambda>(s, b). (ss[r := s], Flag b)) (im_insert im (ss ! r) x)"
| "set_step im (Op_insert_range r g) ss = map_option (\<lambda>s. (ss[r := s], No_Answer)) (im_insert_range im (ss ! r) g)"
| "set_step im (Op_insert_all r) ss = map_option (\<lambda>s. (ss[r := s], No_Answer)) (im_insert_all im (ss ! r))"
| "set_step im (Op_clear r) ss = Some (ss[r := im_clear im (ss ! r)], No_Answer)"
| "set_step im (Op_union r q) ss =
     map_option (\<lambda>(s, b). (ss[r := s], No_Answer)) (im_union im (ss ! r) (ss ! q))"

fun set_run :: "'s set_impl \<Rightarrow> set_op list \<Rightarrow> 's list \<Rightarrow> ('s list \<times> answer list) option" where
  "set_run im [] ss = Some (ss, [])"
| "set_run im (p # ps) ss = do {
     (ss', a) \<leftarrow> set_step im p ss;
     (ss'', as) \<leftarrow> set_run im ps ss';
     Some (ss'', a # as) }"

section \<open>The specification\<close>

fun spec_step :: "nat \<Rightarrow> set_op \<Rightarrow> nat set list \<Rightarrow> nat set list \<times> answer" where
  "spec_step d (Op_contains r x) ss = (ss, Flag (x \<in> ss ! r))"
| "spec_step d (Op_is_empty r) ss = (ss, Flag (ss ! r = {}))"
| "spec_step d (Op_superset r q) ss = (ss, Flag (ss ! q \<subseteq> ss ! r))"
| "spec_step d (Op_last_set_in r g) ss = (ss, Found (max_of (ss ! r \<inter> range_set d g)))"
| "spec_step d (Op_insert r x) ss = (ss[r := insert x (ss ! r)], Flag (x \<notin> ss ! r))"
| "spec_step d (Op_insert_range r g) ss = (ss[r := ss ! r \<union> range_set d g], No_Answer)"
| "spec_step d (Op_insert_all r) ss = (ss[r := {..<d}], No_Answer)"
| "spec_step d (Op_clear r) ss = (ss[r := {}], No_Answer)"
| "spec_step d (Op_union r q) ss = (ss[r := ss ! r \<union> ss ! q], No_Answer)"

fun spec_run :: "nat \<Rightarrow> set_op list \<Rightarrow> nat set list \<Rightarrow> nat set list \<times> answer list" where
  "spec_run d [] ss = (ss, [])"
| "spec_run d (p # ps) ss =
     (let (ss', a) = spec_step d p ss; (ss'', as) = spec_run d ps ss' in (ss'', a # as))"

lemma spec_step_length: "length (fst (spec_step d p ss)) = length ss"
  by (cases p) simp_all

text \<open>Calls that a program with \<open>n\<close> sets over a domain of size \<open>d\<close> may make. A set is never united
  with itself, which the borrow checker excludes.\<close>

fun op_ok :: "nat \<Rightarrow> nat \<Rightarrow> set_op \<Rightarrow> bool" where
  "op_ok d n (Op_contains r x) \<longleftrightarrow> r < n \<and> x < d"
| "op_ok d n (Op_is_empty r) \<longleftrightarrow> r < n"
| "op_ok d n (Op_superset r q) \<longleftrightarrow> r < n \<and> q < n"
| "op_ok d n (Op_last_set_in r g) \<longleftrightarrow> r < n \<and> range_ok d g"
| "op_ok d n (Op_insert r x) \<longleftrightarrow> r < n \<and> x < d"
| "op_ok d n (Op_insert_range r g) \<longleftrightarrow> r < n \<and> range_ok d g"
| "op_ok d n (Op_insert_all r) \<longleftrightarrow> r < n"
| "op_ok d n (Op_clear r) \<longleftrightarrow> r < n"
| "op_ok d n (Op_union r q) \<longleftrightarrow> r < n \<and> q < n \<and> r \<noteq> q"

section \<open>The contract\<close>

locale index_set =
  fixes impl :: "'s set_impl"
    and inv :: "nat \<Rightarrow> 's \<Rightarrow> bool"
    and elems :: "'s \<Rightarrow> nat set"
  assumes contains: "inv d s \<Longrightarrow> x < d \<Longrightarrow> im_contains impl s x = Some (x \<in> elems s)"
    and is_empty: "inv d s \<Longrightarrow> im_is_empty impl s \<longleftrightarrow> elems s = {}"
    and superset: "inv d s \<Longrightarrow> inv d t \<Longrightarrow> im_superset impl s t = Some (elems t \<subseteq> elems s)"
    and last_set_in: "inv d s \<Longrightarrow> range_ok d g \<Longrightarrow>
      im_last_set_in impl s g = Some (max_of (elems s \<inter> range_set d g))"
    and insert: "inv d s \<Longrightarrow> x < d \<Longrightarrow> \<exists>s'. im_insert impl s x = Some (s', x \<notin> elems s) \<and>
      inv d s' \<and> elems s' = Set.insert x (elems s)"
    and insert_range: "inv d s \<Longrightarrow> range_ok d g \<Longrightarrow> \<exists>s'. im_insert_range impl s g = Some s' \<and>
      inv d s' \<and> elems s' = elems s \<union> range_set d g"
    and insert_all: "inv d s \<Longrightarrow> \<exists>s'. im_insert_all impl s = Some s' \<and> inv d s' \<and> elems s' = {..<d}"
    and clear: "inv d s \<Longrightarrow> inv d (im_clear impl s) \<and> elems (im_clear impl s) = {}"
    and union: "inv d s \<Longrightarrow> inv d t \<Longrightarrow> \<exists>s' b. im_union impl s t = Some (s', b) \<and>
      inv d s' \<and> elems s' = elems s \<union> elems t"
begin

lemma regs_update:
  "list_all (inv d) ss \<Longrightarrow> inv d s \<Longrightarrow> list_all (inv d) (ss[r := s])"
  by (auto simp: list_all_iff dest!: set_update_subset_insert [THEN subsetD])

lemma reg: "list_all (inv d) ss \<Longrightarrow> r < length ss \<Longrightarrow> inv d (ss ! r)"
  by (simp add: list_all_length)

lemma step_refines:
  assumes "list_all (inv d) ss" "op_ok d (length ss) p"
  shows "\<exists>ss' a. set_step impl p ss = Some (ss', a) \<and> list_all (inv d) ss' \<and>
    spec_step d p (map elems ss) = (map elems ss', a)"
proof (cases p)
  case (Op_insert r x)
  with assms insert [OF reg [of d ss r], of x] show ?thesis
    by (auto simp: regs_update map_update)
next
  case (Op_insert_range r g)
  with assms insert_range [OF reg [of d ss r], of g] show ?thesis
    by (auto simp: regs_update map_update)
next
  case (Op_insert_all r)
  with assms insert_all [OF reg [of d ss r]] show ?thesis
    by (auto simp: regs_update map_update)
next
  case (Op_union r q)
  with assms union [OF reg [of d ss r] reg [of d ss q]] show ?thesis
    by (auto simp: regs_update map_update)
next
  case (Op_clear r)
  with assms clear [OF reg [of d ss r]] show ?thesis
    by (auto simp: regs_update map_update)
next
  case (Op_superset r q)
  with assms superset [OF reg [of d ss r] reg [of d ss q]] show ?thesis by auto
next
  case (Op_contains r x)
  with assms contains [OF reg [of d ss r]] show ?thesis by auto
next
  case (Op_is_empty r)
  with assms is_empty [OF reg [of d ss r]] show ?thesis by auto
next
  case (Op_last_set_in r g)
  with assms last_set_in [OF reg [of d ss r]] show ?thesis by auto
qed

lemma run_refines:
  assumes "list_all (inv d) ss" "list_all (op_ok d (length ss)) ps"
  shows "\<exists>ss' as. set_run impl ps ss = Some (ss', as) \<and> list_all (inv d) ss' \<and>
    spec_run d ps (map elems ss) = (map elems ss', as)"
  using assms
proof (induction ps arbitrary: ss)
  case (Cons p ps)
  then obtain ss1 a where s: "set_step impl p ss = Some (ss1, a)" "list_all (inv d) ss1"
    "spec_step d p (map elems ss) = (map elems ss1, a)"
    using step_refines [of d ss p] by auto
  have "length ss1 = length ss"
    using spec_step_length [of d p "map elems ss"] s(3) by simp
  then obtain ss2 as where "set_run impl ps ss1 = Some (ss2, as)" "list_all (inv d) ss2"
    "spec_run d ps (map elems ss1) = (map elems ss2, as)"
    using Cons.IH [OF s(2)] Cons.prems(2) by auto
  with s show ?case by simp
qed simp

end

text \<open>Implementations whose \<open>union\<close> says truly whether the receiver has changed.\<close>

locale index_set_changed = index_set impl inv elems
  for impl :: "'s set_impl" and inv elems +
  assumes union_changed: "inv d s \<Longrightarrow> inv d t \<Longrightarrow> im_union impl s t = Some (s', b) \<Longrightarrow>
    b \<longleftrightarrow> elems s' \<noteq> elems s"
begin

lemma union_flag:
  assumes "inv d s" "inv d t"
  shows "\<exists>s'. im_union impl s t = Some (s', \<not> elems t \<subseteq> elems s) \<and> inv d s' \<and> elems s' = elems s \<union> elems t"
proof -
  obtain s' b where u: "im_union impl s t = Some (s', b)" "inv d s'" "elems s' = elems s \<union> elems t"
    using union [OF assms] by blast
  have "b \<longleftrightarrow> \<not> elems t \<subseteq> elems s" using union_changed [OF assms u(1)] u(3) by blast
  with u show ?thesis by blast
qed

end

end
