(* ===== verification/Rust_Search.thy ===== *)
theory Rust_Search
  imports Prelude
begin

text \<open>
  Binary search of the core library: \<open>binary_search_by\<close> and \<open>partition_point\<close>
  (\<open>core/src/slice/mod.rs\<close>). The comparison is a function of the caller and may panic. The search
  reads the slice without bounds checks, so a read out of range, which is undefined behaviour in the
  source, is a panic here too: that the search returns says that every read was in range.
\<close>

section \<open>Orderings\<close>

datatype ordering = Less | Equal | Greater

text \<open>The order of the discriminants.\<close>

instantiation ordering :: linorder
begin

definition less_eq_ordering :: "ordering \<Rightarrow> ordering \<Rightarrow> bool" where
  "less_eq_ordering a b \<longleftrightarrow> a = Less \<or> b = Greater \<or> a = b"

definition less_ordering :: "ordering \<Rightarrow> ordering \<Rightarrow> bool" where
  "less_ordering a b \<longleftrightarrow> a \<le> b \<and> \<not> b \<le> (a :: ordering)"

instance
proof
  fix x y z :: ordering
  show "x < y \<longleftrightarrow> x \<le> y \<and> \<not> y \<le> x" by (rule less_ordering_def)
  show "x \<le> x" by (simp add: less_eq_ordering_def)
  show "x \<le> y \<Longrightarrow> y \<le> z \<Longrightarrow> x \<le> z" by (auto simp: less_eq_ordering_def)
  show "x \<le> y \<Longrightarrow> y \<le> x \<Longrightarrow> x = y" by (auto simp: less_eq_ordering_def)
  show "x \<le> y \<or> y \<le> x" by (cases x; cases y) (auto simp: less_eq_ordering_def)
qed

end

lemma ordering_le_simps [simp]: "Less \<le> a" "a \<le> Greater" "a \<le> Less \<longleftrightarrow> a = Less" "Greater \<le> a \<longleftrightarrow> a = Greater"
  by (auto simp: less_eq_ordering_def)

section \<open>The search\<close>

function bsearch_loop :: "('a \<Rightarrow> ordering option) \<Rightarrow> 'a list \<Rightarrow> nat \<Rightarrow> nat \<Rightarrow> nat option" where
  "bsearch_loop f xs base sz =
     (if 1 < sz then
        let half = sz div 2; mid = base + half in do {
          x \<leftarrow> vec_index xs mid;
          cmp \<leftarrow> f x;
          bsearch_loop f xs (if cmp = Greater then base else mid) (sz - half) }
      else Some base)"
  by pat_completeness auto

termination
  by (relation "measure (\<lambda>(f, xs, base, sz). sz)") auto

declare bsearch_loop.simps [simp del]

text \<open>\<open>Ok\<close> is the right summand of the result.\<close>

definition binary_search_by :: "('a \<Rightarrow> ordering option) \<Rightarrow> 'a list \<Rightarrow> (nat + nat) option" where
  "binary_search_by f xs =
     (let sz = length xs in
      if sz = 0 then Some (Inl 0)
      else do {
        base \<leftarrow> bsearch_loop f xs 0 sz;
        x \<leftarrow> vec_index xs base;
        cmp \<leftarrow> f x;
        Some (if cmp = Equal then Inr base else Inl (base + (if cmp = Less then 1 else 0))) })"

definition partition_point :: "('a \<Rightarrow> bool option) \<Rightarrow> 'a list \<Rightarrow> nat option" where
  "partition_point pred xs = do {
     r \<leftarrow> binary_search_by (\<lambda>x. map_option (\<lambda>b. if b then Less else Greater) (pred x)) xs;
     Some (case r of Inr i \<Rightarrow> i | Inl i \<Rightarrow> i) }"

section \<open>Correctness\<close>

text \<open>The loop keeps the answer between the base and the base plus the size.\<close>

definition bracket :: "('a \<Rightarrow> ordering) \<Rightarrow> 'a list \<Rightarrow> nat \<Rightarrow> nat \<Rightarrow> bool" where
  "bracket g xs base sz \<longleftrightarrow> 0 < sz \<and> base + sz \<le> length xs \<and>
     (\<forall>j. base + sz \<le> j \<and> j < length xs \<longrightarrow> g (xs ! j) = Greater) \<and>
     (base = 0 \<or> g (xs ! base) \<noteq> Greater)"

lemma sorted_le_nth: "sorted (map g xs) \<Longrightarrow> i \<le> j \<Longrightarrow> j < length xs \<Longrightarrow> g (xs ! i) \<le> g (xs ! j)"
  using sorted_nth_mono [of "map g xs" i j] by simp

lemma bracket_step:
  assumes "bracket g xs base sz" "sorted (map g xs)" "1 < sz"
  shows "bracket g xs (if g (xs ! (base + sz div 2)) = Greater then base else base + sz div 2)
           (sz - sz div 2)"
proof (cases "g (xs ! (base + sz div 2)) = Greater")
  case True
  have "g (xs ! j) = Greater" if "base + (sz - sz div 2) \<le> j" "j < length xs" for j
  proof -
    have "base + sz div 2 \<le> j" using that by linarith
    from sorted_le_nth [OF assms(2) this that(2)] show ?thesis using True by simp
  qed
  with True assms(1,3) show ?thesis by (auto simp: bracket_def)
next
  case False
  have "base + sz div 2 + (sz - sz div 2) = base + sz" by simp
  with False assms(1,3) show ?thesis by (auto simp: bracket_def)
qed

lemma bsearch_loop_bracket:
  assumes "bracket g xs base sz" "sorted (map g xs)" "\<And>x. x \<in> set xs \<Longrightarrow> f x = Some (g x)"
  shows "\<exists>b. bsearch_loop f xs base sz = Some b \<and> bracket g xs b 1"
  using assms
proof (induction f xs base sz rule: bsearch_loop.induct)
  case (1 f xs base sz)
  show ?case
  proof (cases "1 < sz")
    case True
    define mid where "mid = base + sz div 2"
    have mid: "mid < length xs" using 1(2) True by (auto simp: bracket_def mid_def)
    then have f: "f (xs ! mid) = Some (g (xs ! mid))" using 1(4) by simp
    have "\<exists>b. bsearch_loop f xs (if g (xs ! mid) = Greater then base else mid) (sz - sz div 2) = Some b \<and>
        bracket g xs b 1"
    proof (rule 1(1) [OF True refl mid_def, of "xs ! mid"])
      show "bracket g xs (if g (xs ! mid) = Greater then base else mid) (sz - sz div 2)"
        unfolding mid_def by (rule bracket_step [OF 1(2,3) True])
    qed (use mid f 1(3,4) in auto)
    then show ?thesis using True mid f
      by (subst bsearch_loop.simps) (simp add: Let_def flip: mid_def split: if_splits)
  next
    case False
    then have "sz = 1" using 1(2) by (simp add: bracket_def)
    then show ?thesis using 1(2) by (subst bsearch_loop.simps) simp
  qed
qed

lemma binary_search_by_result:
  assumes f: "\<And>x. x \<in> set xs \<Longrightarrow> f x = Some (g x)" and sorted: "sorted (map g xs)"
  shows "\<exists>r. binary_search_by f xs = Some r \<and>
    (case r of
       Inr i \<Rightarrow> i < length xs \<and> g (xs ! i) = Equal
     | Inl i \<Rightarrow> i \<le> length xs \<and> (\<forall>j<i. g (xs ! j) = Less) \<and>
                (\<forall>j. i \<le> j \<and> j < length xs \<longrightarrow> g (xs ! j) = Greater))"
proof (cases "xs = []")
  case True
  then show ?thesis by (simp add: binary_search_by_def)
next
  case False
  then have "bracket g xs 0 (length xs)" by (auto simp: bracket_def)
  from bsearch_loop_bracket [OF this sorted, of f] f obtain b
    where b: "bsearch_loop f xs 0 (length xs) = Some b" "bracket g xs b 1" by auto
  then have len: "b < length xs" by (simp add: bracket_def)
  then have fb: "f (xs ! b) = Some (g (xs ! b))" using f by simp
  have less: "g (xs ! j) = Less" if "g (xs ! b) = Less" "j \<le> b" for j
    using sorted_le_nth [OF sorted that(2) len] that(1) by simp
  show ?thesis
  proof (cases "g (xs ! b)")
    case Greater
    then have "b = 0" using b(2) by (simp add: bracket_def)
    moreover have "g (xs ! j) = Greater" if "j < length xs" for j
      using b(2) Greater \<open>b = 0\<close> that by (cases j) (auto simp: bracket_def)
    ultimately show ?thesis using b(1) len fb Greater False by (simp add: binary_search_by_def)
  qed (use b len fb False less in \<open>auto simp: binary_search_by_def bracket_def\<close>)
qed

lemma partition_point_split:
  assumes pred: "\<And>x. x \<in> set xs \<Longrightarrow> pred x = Some (P x)"
    and part: "\<And>i j. i \<le> j \<Longrightarrow> j < length xs \<Longrightarrow> P (xs ! j) \<Longrightarrow> P (xs ! i)"
  shows "\<exists>ys zs. xs = ys @ zs \<and> partition_point pred xs = Some (length ys) \<and>
    (\<forall>y\<in>set ys. P y) \<and> (\<forall>z\<in>set zs. \<not> P z)"
proof -
  define g where "g = (\<lambda>x. if P x then Less else Greater)"
  have "sorted (map g xs)" unfolding sorted_iff_nth_mono using part by (auto simp: g_def)
  from binary_search_by_result [OF _ this, of "\<lambda>x. map_option (\<lambda>b. if b then Less else Greater) (pred x)"]
  obtain r where r: "binary_search_by (\<lambda>x. map_option (\<lambda>b. if b then Less else Greater) (pred x)) xs = Some r"
    and spec: "case r of Inr i \<Rightarrow> i < length xs \<and> g (xs ! i) = Equal
      | Inl i \<Rightarrow> i \<le> length xs \<and> (\<forall>j<i. g (xs ! j) = Less) \<and>
                 (\<forall>j. i \<le> j \<and> j < length xs \<longrightarrow> g (xs ! j) = Greater)"
    using pred by (auto simp: g_def)
  then obtain i where i: "r = Inl i" by (cases r) (auto simp: g_def split: if_splits)
  have "i \<le> length xs" "\<forall>j<i. P (xs ! j)" "\<forall>j. i \<le> j \<and> j < length xs \<longrightarrow> \<not> P (xs ! j)"
    using spec i by (auto simp: g_def split: if_splits)
  then have "\<forall>y\<in>set (take i xs). P y" "\<forall>z\<in>set (drop i xs). \<not> P z" "length (take i xs) = i"
    by (auto simp: in_set_conv_nth)
  then show ?thesis using r i
    by (intro exI [of _ "take i xs"] exI [of _ "drop i xs"]) (simp add: partition_point_def)
qed

section \<open>Properties\<close>

text \<open>C31. Binary search returns, without a read out of range, on every slice that the comparison
  sorts: with the index of an equal element, or with the only place where one could be inserted.\<close>

theorem binary_search_by_correct:
  assumes "\<And>x. x \<in> set xs \<Longrightarrow> f x = Some (g x)" and "sorted (map g xs)"
  shows "\<exists>r. binary_search_by f xs = Some r \<and>
    (case r of
       Inr i \<Rightarrow> i < length xs \<and> g (xs ! i) = Equal
     | Inl i \<Rightarrow> i \<le> length xs \<and> (\<forall>j<i. g (xs ! j) = Less) \<and>
                (\<forall>j. i \<le> j \<and> j < length xs \<longrightarrow> g (xs ! j) = Greater))"
  using assms by (rule binary_search_by_result)

definition cmp_to :: "nat \<Rightarrow> nat \<Rightarrow> ordering" where
  "cmp_to k x = (if x < k then Less else if x = k then Equal else Greater)"

theorem binary_search_by_correct_witness:
  "\<exists>r. binary_search_by (\<lambda>x. Some (cmp_to 4 x)) [1, 3, 5, 7, 9] = Some r \<and> r = Inl 2"
proof -
  have "sorted (map (cmp_to 4) [1, 3, 5, 7, 9])" by (simp add: cmp_to_def)
  from binary_search_by_correct [of "[1, 3, 5, 7, 9]" "\<lambda>x. Some (cmp_to 4 x)" "cmp_to 4", OF _ this]
  have "\<exists>r. binary_search_by (\<lambda>x. Some (cmp_to 4 x)) [1, 3, 5, 7, 9] = Some r" by blast
  moreover have "binary_search_by (\<lambda>x. Some (cmp_to 4 x)) [1, 3, 5, 7, 9] = Some (Inl 2)"
    by (simp add: binary_search_by_def bsearch_loop.simps cmp_to_def)
  ultimately show ?thesis by simp
qed

end
