(* ===== verification/Interval_Set.thy ===== *)
theory Interval_Set
  imports Index_Set Rust_Search
begin

text \<open>
  The interval sets of \<open>rustc_index/src/interval.rs\<close>: \<open>IntervalSet\<close>, a sorted vector of inclusive
  intervals, and \<open>SparseIntervalMatrix\<close>, a vector of them. The bounds are \<open>u32\<close> in the source. They
  are natural numbers here, with the truncation of \<open>as u32\<close> and the panic of an overflowing increment
  written out. The debug assertions are checked, as in a debug build: a failing one is a panic.
\<close>

section \<open>Bounds\<close>

definition as_u32 :: "nat \<Rightarrow> nat" where
  "as_u32 n = n mod 2 ^ 32"

text \<open>\<open>n + 1\<close> at the type \<open>u32\<close>.\<close>

definition u32_inc :: "nat \<Rightarrow> nat option" where
  "u32_inc n = (if n + 1 < 2 ^ 32 then Some (n + 1) else None)"

definition inclusive_start :: "range \<Rightarrow> nat option" where
  "inclusive_start rng =
     (case fst rng of
        Included start \<Rightarrow> Some (as_u32 start)
      | Excluded start \<Rightarrow> u32_inc (as_u32 start)
      | Unbounded \<Rightarrow> Some 0)"

definition inclusive_end :: "nat \<Rightarrow> range \<Rightarrow> nat option" where
  "inclusive_end domain rng =
     (case snd rng of
        Included end' \<Rightarrow> Some (as_u32 end')
      | Excluded end' \<Rightarrow> if end' = 0 then None else Some (as_u32 (end' - 1))
      | Unbounded \<Rightarrow> if domain = 0 then None else Some (as_u32 (domain - 1)))"

section \<open>Interval sets\<close>

record interval_set =
  iv_map :: "(nat \<times> nat) list"
  iv_domain :: nat

definition interval_new :: "nat \<Rightarrow> interval_set" where
  "interval_new domain = \<lparr>iv_map = [], iv_domain = domain\<rparr>"

definition interval_clear :: "interval_set \<Rightarrow> interval_set" where
  "interval_clear s = s\<lparr>iv_map := []\<rparr>"

text \<open>The intervals as half-open ranges.\<close>

definition iter_intervals :: "interval_set \<Rightarrow> (nat \<times> nat) list" where
  "iter_intervals s = map (\<lambda>(start, end'). (start, end' + 1)) (iv_map s)"

definition interval_iter :: "interval_set \<Rightarrow> nat list" where
  "interval_iter s = concat (map (\<lambda>(start, end'). [start..<end']) (iter_intervals s))"

fun check_loop :: "nat \<Rightarrow> nat option \<Rightarrow> (nat \<times> nat) list \<Rightarrow> bool option" where
  "check_loop domain current [] =
     Some (case current of None \<Rightarrow> True | Some x \<Rightarrow> x < as_u32 domain)"
| "check_loop domain current ((start, end') # rest) =
     (if start > end' then Some False
      else case current of
        None \<Rightarrow> check_loop domain (Some end') rest
      | Some x \<Rightarrow> do {
          x1 \<leftarrow> u32_inc x;
          if x1 \<ge> start then Some False else check_loop domain (Some end') rest })"

definition check_invariants :: "interval_set \<Rightarrow> bool option" where
  "check_invariants s = check_loop (iv_domain s) None (iv_map s)"

text \<open>\<open>debug_assert!(self.check_invariants())\<close>.\<close>

definition checked_set :: "interval_set \<Rightarrow> interval_set option" where
  "checked_set s = do { b \<leftarrow> check_invariants s; _ \<leftarrow> rust_assert b; Some s }"

text \<open>\<open>Vec::insert\<close> and \<open>Vec::drain\<close> with the range \<open>left..right\<close>.\<close>

definition vec_insert :: "nat \<Rightarrow> 'a \<Rightarrow> 'a list \<Rightarrow> 'a list option" where
  "vec_insert i x xs = (if i \<le> length xs then Some (take i xs @ x # drop i xs) else None)"

definition vec_drain :: "nat \<Rightarrow> nat \<Rightarrow> 'a list \<Rightarrow> 'a list option" where
  "vec_drain left right xs =
     (if left \<le> right \<and> right \<le> length xs then Some (take left xs @ drop right xs) else None)"

text \<open>The branch of \<open>insert_range\<close> that extends intervals to the left.\<close>

definition extend_left ::
    "(nat \<times> nat) list \<Rightarrow> nat \<Rightarrow> nat \<Rightarrow> nat \<Rightarrow> nat \<Rightarrow> ((nat \<times> nat) list \<times> bool) option" where
  "extend_left m start end' right prev_end = do {
     left \<leftarrow> partition_point (\<lambda>l. do { e \<leftarrow> u32_inc (snd l); Some (e < start) }) m;
     x \<leftarrow> vec_index m left;
     let m' = m[right := (min (fst x) start, max prev_end end')];
     m'' \<leftarrow> (if left \<noteq> right then vec_drain left right m' else Some m');
     Some (m'', True) }"

definition insert_into ::
    "(nat \<times> nat) list \<Rightarrow> nat \<Rightarrow> nat \<Rightarrow> ((nat \<times> nat) list \<times> bool) option" where
  "insert_into m start end' = do {
     next \<leftarrow> partition_point (\<lambda>r. do { e \<leftarrow> u32_inc end'; Some (fst r \<le> e) }) m;
     if next = 0 then
       (if m = [] then Some ([(start, end')], True)
        else map_option (\<lambda>m'. (m', True)) (vec_insert next (start, end') m))
     else do {
       let right = next - 1;
       (prev_start, prev_end) \<leftarrow> vec_index m right;
       prev_next \<leftarrow> u32_inc prev_end;
       if prev_next \<ge> start then
         (if start < prev_start then extend_left m start end' right prev_end
          else if end' > prev_end then Some (m[right := (prev_start, end')], True)
          else Some (m, False))
       else map_option (\<lambda>m'. (m', True)) (vec_insert (right + 1) (start, end') m) } }"

definition interval_insert_range :: "interval_set \<Rightarrow> range \<Rightarrow> (interval_set \<times> bool) option" where
  "interval_insert_range s rng = do {
     start \<leftarrow> inclusive_start rng;
     (case inclusive_end (iv_domain s) rng of
        None \<Rightarrow> Some (s, False)
      | Some end' \<Rightarrow>
          if start > end' then Some (s, False)
          else do {
            (m, result) \<leftarrow> insert_into (iv_map s) start end';
            s' \<leftarrow> checked_set (s\<lparr>iv_map := m\<rparr>);
            Some (s', result) }) }"

definition interval_insert :: "interval_set \<Rightarrow> nat \<Rightarrow> (interval_set \<times> bool) option" where
  "interval_insert s point = interval_insert_range s (Included point, Included point)"

definition interval_append :: "interval_set \<Rightarrow> nat \<Rightarrow> interval_set option" where
  "interval_append s pt =
     (let point = as_u32 pt; m = iv_map s in do {
        m' \<leftarrow> (if m \<noteq> [] then
                let (last_start, last_end) = last m in do {
                  _ \<leftarrow> rust_assert (last_end \<le> point);
                  if point = last_end then Some m
                  else do {
                    e \<leftarrow> u32_inc last_end;
                    Some (if point = e then butlast m @ [(last_start, point)] else m @ [(point, point)]) } }
              else Some [(point, point)]);
        checked_set (s\<lparr>iv_map := m'\<rparr>) })"

definition interval_append_range :: "interval_set \<Rightarrow> range \<Rightarrow> interval_set option" where
  "interval_append_range s rng = do {
     start \<leftarrow> inclusive_start rng;
     (case inclusive_end (iv_domain s) rng of
        None \<Rightarrow> Some s
      | Some end' \<Rightarrow>
          if start > end' then Some s
          else let m = iv_map s in do {
            m' \<leftarrow> (if m \<noteq> [] then
                    let (last_start, last_end) = last m in do {
                      _ \<leftarrow> rust_assert (last_end \<le> start);
                      e \<leftarrow> u32_inc last_end;
                      Some (if start \<le> e then butlast m @ [(last_start, end')] else m @ [(start, end')]) }
                  else Some [(start, end')]);
            checked_set (s\<lparr>iv_map := m'\<rparr>) }) }"

definition interval_contains :: "interval_set \<Rightarrow> nat \<Rightarrow> bool option" where
  "interval_contains s n = (let needle = as_u32 n in do {
     p \<leftarrow> partition_point (\<lambda>r. Some (fst r \<le> needle)) (iv_map s);
     if p = 0 then Some False
     else do {
       (prev_start, prev_end) \<leftarrow> vec_index (iv_map s) (p - 1);
       Some (needle \<le> prev_end) } })"

text \<open>The closure of \<open>superset\<close>; the state of \<open>superset\<close> is the interval saved from the last round
  and what the iterator over the larger set still yields.\<close>

definition sup_test :: "nat \<times> nat \<Rightarrow> nat \<times> nat \<Rightarrow> bool option" where
  "sup_test sp sub =
     (if snd sp < fst sub then None
      else if snd sp \<ge> snd sub \<and> fst sp \<le> fst sub then Some True
      else Some False)"

fun sup_find :: "nat \<times> nat \<Rightarrow> (nat \<times> nat) list \<Rightarrow> (bool \<times> nat \<times> nat \<times> (nat \<times> nat) list) option" where
  "sup_find sub [] = None"
| "sup_find sub (sp # rest) =
     (case sup_test sp sub of
        None \<Rightarrow> sup_find sub rest
      | Some b \<Rightarrow> Some (b, fst sp, snd sp, rest))"

fun superset_loop :: "(nat \<times> nat) option \<Rightarrow> (nat \<times> nat) list \<Rightarrow> (nat \<times> nat) list \<Rightarrow> bool" where
  "superset_loop current rest [] = True"
| "superset_loop current rest (sub # subs) =
     (case Option.bind current (\<lambda>sp. sup_test sp sub) of
        Some b \<Rightarrow> b \<and> superset_loop current rest subs
      | None \<Rightarrow>
          (case sup_find sub rest of
             None \<Rightarrow> False
           | Some (b, s, e, rest') \<Rightarrow> b \<and> superset_loop (Some (s, e)) rest' subs))"

definition interval_superset :: "interval_set \<Rightarrow> interval_set \<Rightarrow> bool" where
  "interval_superset s other = superset_loop None (iter_intervals s) (iter_intervals other)"

fun disjoint_loop :: "(nat \<times> nat) list \<Rightarrow> (nat \<times> nat) list \<Rightarrow> bool" where
  "disjoint_loop [] os = True"
| "disjoint_loop (c # ss) [] = True"
| "disjoint_loop (c # ss) (o' # os) =
     (if snd c \<le> fst o' then disjoint_loop ss (o' # os)
      else if snd o' \<le> fst c then disjoint_loop (c # ss) os
      else False)"

definition interval_disjoint :: "interval_set \<Rightarrow> interval_set \<Rightarrow> bool" where
  "interval_disjoint s other = disjoint_loop (iter_intervals s) (iter_intervals other)"

definition interval_is_empty :: "interval_set \<Rightarrow> bool" where
  "interval_is_empty s \<longleftrightarrow> iv_map s = []"

definition first_unset_in :: "interval_set \<Rightarrow> range \<Rightarrow> nat option option" where
  "first_unset_in s rng = do {
     start \<leftarrow> inclusive_start rng;
     (case inclusive_end (iv_domain s) rng of
        None \<Rightarrow> Some None
      | Some end' \<Rightarrow>
          if start > end' then Some None
          else do {
            p \<leftarrow> partition_point (\<lambda>r. Some (fst r \<le> start)) (iv_map s);
            if p = 0 then Some (Some start)
            else do {
              (prev_start, prev_end) \<leftarrow> vec_index (iv_map s) (p - 1);
              Some (if start > prev_end then Some start
                    else if prev_end < end' then Some (prev_end + 1)
                    else None) } }) }"

definition interval_last_set_in :: "interval_set \<Rightarrow> range \<Rightarrow> nat option option" where
  "interval_last_set_in s rng = do {
     start \<leftarrow> inclusive_start rng;
     (case inclusive_end (iv_domain s) rng of
        None \<Rightarrow> Some None
      | Some end' \<Rightarrow>
          if start > end' then Some None
          else do {
            p \<leftarrow> partition_point (\<lambda>r. Some (fst r \<le> end')) (iv_map s);
            if p = 0 then Some None
            else do {
              (prev_start, prev_end) \<leftarrow> vec_index (iv_map s) (p - 1);
              Some (if start \<le> prev_end then Some (min prev_end end') else None) } }) }"

text \<open>\<open>end.try_into().unwrap()\<close> panics when the last index does not fit.\<close>

definition interval_insert_all :: "interval_set \<Rightarrow> interval_set option" where
  "interval_insert_all s =
     (let s' = interval_clear s in
      if iv_domain s' = 0 then checked_set s'
      else do {
        _ \<leftarrow> rust_assert (iv_domain s' - 1 < 2 ^ 32);
        checked_set (s'\<lparr>iv_map := [(0, iv_domain s' - 1)]\<rparr>) })"

fun union_loop :: "interval_set \<Rightarrow> bool \<Rightarrow> (nat \<times> nat) list \<Rightarrow> (interval_set \<times> bool) option" where
  "union_loop s did_insert [] = Some (s, did_insert)"
| "union_loop s did_insert ((start, end') # rest) = do {
     (s', b) \<leftarrow> interval_insert_range s (Included start, Excluded end');
     union_loop s' (did_insert \<or> b) rest }"

function interval_union :: "interval_set \<Rightarrow> interval_set \<Rightarrow> (interval_set \<times> bool) option" where
  "interval_union s other =
     (if iv_domain s \<noteq> iv_domain other then None
      else if length (iv_map s) < length (iv_map other) then
        interval_union (s\<lparr>iv_map := iv_map other\<rparr>) s
      else do {
        (s', did_insert) \<leftarrow> union_loop s False (iter_intervals other);
        s'' \<leftarrow> checked_set s';
        Some (s'', did_insert) })"
  by pat_completeness auto

termination
  by (relation "measure (\<lambda>(s, other). if length (iv_map s) < length (iv_map other) then 1 else 0)") auto

declare interval_union.simps [simp del]

section \<open>Matrices\<close>

record interval_matrix =
  mx_rows :: "interval_set list"
  mx_column_size :: nat

definition matrix_new :: "nat \<Rightarrow> interval_matrix" where
  "matrix_new column_size = \<lparr>mx_rows = [], mx_column_size = column_size\<rparr>"

definition matrix_row :: "interval_matrix \<Rightarrow> nat \<Rightarrow> interval_set option" where
  "matrix_row m row = (if row < length (mx_rows m) then Some (mx_rows m ! row) else None)"

text \<open>The rows up to the given one exist afterwards; new ones are empty.\<close>

definition ensure_row :: "interval_matrix \<Rightarrow> nat \<Rightarrow> interval_matrix" where
  "ensure_row m row =
     m\<lparr>mx_rows := mx_rows m @
        replicate (Suc row - length (mx_rows m)) (interval_new (mx_column_size m))\<rparr>"

definition update_row :: "interval_matrix \<Rightarrow> nat \<Rightarrow> interval_set \<Rightarrow> interval_matrix" where
  "update_row m row s = m\<lparr>mx_rows := (mx_rows m)[row := s]\<rparr>"

definition union_row :: "interval_matrix \<Rightarrow> nat \<Rightarrow> interval_set \<Rightarrow> (interval_matrix \<times> bool) option" where
  "union_row m row from' = (let m' = ensure_row m row in
     map_option (\<lambda>(s, b). (update_row m' row s, b)) (interval_union (mx_rows m' ! row) from'))"

definition union_rows :: "interval_matrix \<Rightarrow> nat \<Rightarrow> nat \<Rightarrow> (interval_matrix \<times> bool) option" where
  "union_rows m read write =
     (if read = write \<or> matrix_row m read = None then Some (m, False)
      else let m' = ensure_row m write in
        map_option (\<lambda>(s, b). (update_row m' write s, b))
          (interval_union (mx_rows m' ! write) (mx_rows m' ! read)))"

definition insert_all_into_row :: "interval_matrix \<Rightarrow> nat \<Rightarrow> interval_matrix option" where
  "insert_all_into_row m row = (let m' = ensure_row m row in
     map_option (update_row m' row) (interval_insert_all (mx_rows m' ! row)))"

definition matrix_insert_range :: "interval_matrix \<Rightarrow> nat \<Rightarrow> range \<Rightarrow> interval_matrix option" where
  "matrix_insert_range m row rng = (let m' = ensure_row m row in
     map_option (\<lambda>(s, b). update_row m' row s) (interval_insert_range (mx_rows m' ! row) rng))"

definition matrix_insert :: "interval_matrix \<Rightarrow> nat \<Rightarrow> nat \<Rightarrow> (interval_matrix \<times> bool) option" where
  "matrix_insert m row point = (let m' = ensure_row m row in
     map_option (\<lambda>(s, b). (update_row m' row s, b)) (interval_insert (mx_rows m' ! row) point))"

definition matrix_append :: "interval_matrix \<Rightarrow> nat \<Rightarrow> nat \<Rightarrow> interval_matrix option" where
  "matrix_append m row point = (let m' = ensure_row m row in
     map_option (update_row m' row) (interval_append (mx_rows m' ! row) point))"

definition matrix_append_range :: "interval_matrix \<Rightarrow> nat \<Rightarrow> range \<Rightarrow> interval_matrix option" where
  "matrix_append_range m row rng = (let m' = ensure_row m row in
     map_option (update_row m' row) (interval_append_range (mx_rows m' ! row) rng))"

definition matrix_contains :: "interval_matrix \<Rightarrow> nat \<Rightarrow> nat \<Rightarrow> bool option" where
  "matrix_contains m row point =
     (case matrix_row m row of None \<Rightarrow> Some False | Some r \<Rightarrow> interval_contains r point)"

end
