(* ===== verification/Interval_Props.thy ===== *)
theory Interval_Props
  imports Interval_Set
begin

text \<open>
  Interval sets implement sets of indices: the invariant that the source describes (sorted,
  non-adjacent intervals) is kept, every operation has its meaning on the set of covered points, and
  an interpretation of the contract of index sets gives the refinement for sequences of calls.
\<close>

section \<open>The invariant and the points\<close>

definition ivs :: "(nat \<times> nat) list \<Rightarrow> bool" where
  "ivs m \<longleftrightarrow> sorted_wrt (\<lambda>x y. snd x + 1 < fst y) m \<and> (\<forall>r\<in>set m. fst r \<le> snd r)"

definition cover :: "(nat \<times> nat) list \<Rightarrow> nat set" where
  "cover m = {x. \<exists>r\<in>set m. fst r \<le> x \<and> x \<le> snd r}"

definition interval_elems :: "interval_set \<Rightarrow> nat set" where
  "interval_elems s = cover (iv_map s)"

definition interval_inv :: "nat \<Rightarrow> interval_set \<Rightarrow> bool" where
  "interval_inv d s \<longleftrightarrow> iv_domain s = d \<and> d < 2 ^ 32 \<and> ivs (iv_map s) \<and> interval_elems s \<subseteq> {..<d}"

lemma cover_simps [simp]:
  "cover [] = {}"
  "cover (r # m) = {fst r..snd r} \<union> cover m"
  "cover (m @ n) = cover m \<union> cover n"
  by (auto simp: cover_def)

lemma ivs_append: "ivs (m @ n) \<longleftrightarrow> ivs m \<and> ivs n \<and> (\<forall>x\<in>set m. \<forall>y\<in>set n. snd x + 1 < fst y)"
  by (auto simp: ivs_def sorted_wrt_append)

lemma ivs_simps [simp]:
  "ivs []"
  "ivs (r # m) \<longleftrightarrow> fst r \<le> snd r \<and> ivs m \<and> (\<forall>y\<in>set m. snd r + 1 < fst y)"
  by (auto simp: ivs_def)

lemma ivs_le: "ivs m \<Longrightarrow> r \<in> set m \<Longrightarrow> fst r \<le> snd r"
  by (simp add: ivs_def)

lemma cover_bound: "ivs m \<Longrightarrow> r \<in> set m \<Longrightarrow> cover m \<subseteq> {..<d} \<Longrightarrow> snd r < d"
  using ivs_le [of m r] by (auto simp: cover_def subset_iff)

lemma cover_empty_iff: "ivs m \<Longrightarrow> cover m = {} \<longleftrightarrow> m = []"
  by (cases m) auto

lemma ivs_nth_gap: "ivs m \<Longrightarrow> i < j \<Longrightarrow> j < length m \<Longrightarrow> snd (m ! i) + 1 < fst (m ! j)"
  by (simp add: ivs_def sorted_wrt_iff_nth_less)

lemma ivs_mono:
  assumes "ivs m" "i \<le> j" "j < length m"
  shows "fst (m ! i) \<le> fst (m ! j)" "snd (m ! i) \<le> snd (m ! j)"
  using assms ivs_nth_gap [of m i j] ivs_le [of m "m ! i"] ivs_le [of m "m ! j"]
  by (cases "i = j"; simp)+

section \<open>Assertions and bounds\<close>

lemma as_u32_id [simp]: "n < 2 ^ 32 \<Longrightarrow> as_u32 n = n"
  by (simp add: as_u32_def)

lemma u32_inc_id [simp]: "n + 1 < 2 ^ 32 \<Longrightarrow> u32_inc n = Some (n + 1)"
  by (simp add: u32_inc_def)

lemma check_loop_ivs:
  assumes "ivs m" "cover m \<subseteq> {..<d}" "d < 2 ^ 32"
    "\<And>x. cur = Some x \<Longrightarrow> x < d \<and> (\<forall>r\<in>set m. x + 1 < fst r)"
  shows "check_loop d cur m = Some True"
  using assms
proof (induction d cur m rule: check_loop.induct)
  case (1 domain current)
  then show ?case by (auto split: option.split)
next
  case (2 domain current start end' rest)
  then have "end' < domain" using cover_bound [of "(start, end') # rest" "(start, end')" domain] by simp
  then have IH: "check_loop domain (Some end') rest = Some True" if "current = None \<or> (\<exists>x. current = Some x)"
    using 2 by (cases current) auto
  show ?case
  proof (cases current)
    case None
    then show ?thesis using 2(3) IH by simp
  next
    case (Some x)
    then have "x < domain" "x + 1 < start" using 2(6) [of x] by auto
    then show ?thesis using Some 2(3,5) IH by simp
  qed
qed

lemma checked_set_ivs: "interval_inv d s \<Longrightarrow> checked_set s = Some s"
  using check_loop_ivs [of "iv_map s" d None]
  by (simp add: checked_set_def check_invariants_def interval_inv_def interval_elems_def)

lemma range_bounds:
  assumes "range_ok d g" "d < 2 ^ 32"
  shows "\<exists>s. inclusive_start g = Some s \<and>
    (case inclusive_end d g of
       None \<Rightarrow> range_set d g = {}
     | Some e \<Rightarrow> e < d \<and> range_set d g = {s..e})"
proof -
  define s where "s = (case fst g of Included s \<Rightarrow> s | Excluded s \<Rightarrow> s + 1 | Unbounded \<Rightarrow> 0)"
  have s: "inclusive_start g = Some s" "\<And>i. above (fst g) i \<longleftrightarrow> s \<le> i"
    using assms by (auto simp: s_def inclusive_start_def range_ok_def split: bound.split)
  define n where "n = (case snd g of Included e \<Rightarrow> e + 1 | Excluded e \<Rightarrow> e | Unbounded \<Rightarrow> d)"
  have n: "n \<le> d" "\<And>i. i < d \<Longrightarrow> below (snd g) i \<longleftrightarrow> i < n"
    using assms(1) by (auto simp: n_def range_ok_def split: bound.splits)
  then have "as_u32 (n - 1) = n - 1" using assms(2) by (intro as_u32_id) linarith
  then have e: "inclusive_end d g = (if n = 0 then None else Some (n - 1))"
    by (auto simp: n_def inclusive_end_def split: bound.split)
  have "range_set d g = {i. s \<le> i \<and> i < n}" using s n by (auto simp: range_set_def)
  moreover have "{i. s \<le> i \<and> i < n} = {s..n - 1}" if "n \<noteq> 0" using that by auto
  ultimately show ?thesis using s(1) e n(1) by (cases "n = 0") simp_all
qed

lemma range_cases:
  assumes "range_ok d g" "d < 2 ^ 32"
  obtains (empty) start where "inclusive_start g = Some start"
      "inclusive_end d g = None \<or> (\<exists>e. inclusive_end d g = Some e \<and> e < start)" "range_set d g = {}"
  | (full) start e where "inclusive_start g = Some start" "inclusive_end d g = Some e" "start \<le> e" "e < d"
      "range_set d g = {start..e}"
proof -
  obtain start where start: "inclusive_start g = Some start"
    and e: "case inclusive_end d g of None \<Rightarrow> range_set d g = {} | Some e \<Rightarrow> e < d \<and> range_set d g = {start..e}"
    using range_bounds [OF assms] by blast
  show thesis
  proof (cases "inclusive_end d g")
    case None
    then show ?thesis using empty start e by simp
  next
    case (Some e')
    then show ?thesis using empty [OF start] full [OF start Some] e by (cases "start \<le> e'") auto
  qed
qed

section \<open>Searching the intervals\<close>

lemma partition_fst:
  assumes "ivs m"
  shows "\<exists>xs ys. m = xs @ ys \<and> partition_point (\<lambda>r. Some (fst r \<le> k)) m = Some (length xs) \<and>
    (\<forall>r\<in>set xs. fst r \<le> k) \<and> (\<forall>r\<in>set ys. k < fst r)"
  using partition_point_split [of m "\<lambda>r. Some (fst r \<le> k)" "\<lambda>r. fst r \<le> k"] ivs_mono(1) [OF assms]
  by (force simp: not_le)

lemma partition_snd:
  assumes "ivs m" "\<And>r. r \<in> set m \<Longrightarrow> snd r + 1 < 2 ^ 32"
  shows "\<exists>xs ys. m = xs @ ys \<and>
    partition_point (\<lambda>l. do { e \<leftarrow> u32_inc (snd l); Some (e < k) }) m = Some (length xs) \<and>
    (\<forall>r\<in>set xs. snd r + 1 < k) \<and> (\<forall>r\<in>set ys. k \<le> snd r + 1)"
  using partition_point_split [of m "\<lambda>l. do { e \<leftarrow> u32_inc (snd l); Some (e < k) }" "\<lambda>r. snd r + 1 < k"]
    ivs_mono(2) [OF assms(1)] assms(2)
  by (force simp: not_less)

section \<open>Insertion\<close>

lemma merge_cover:
  assumes ok: "ivs (L @ M @ R)" and M: "M \<noteq> []" and le: "start \<le> end'"
    and hd: "start \<le> snd (hd M) + 1" and last: "fst (last M) \<le> end' + 1"
  shows "{min (fst (hd M)) start..max (snd (last M)) end'} = cover M \<union> {start..end'}"
proof -
  have M_ok: "ivs M" using ok by (simp add: ivs_append)
  have bounds: "fst (hd M) \<le> fst r" "snd r \<le> snd (last M)" if "r \<in> set M" for r
  proof -
    obtain i where i: "i < length M" "r = M ! i" using \<open>r \<in> set M\<close> by (auto simp: in_set_conv_nth)
    show "fst (hd M) \<le> fst r" using ivs_mono(1) [OF M_ok, of 0 i] i M by (simp add: hd_conv_nth)
    show "snd r \<le> snd (last M)"
      using ivs_mono(2) [OF M_ok, of i "length M - 1"] i M by (simp add: last_conv_nth)
  qed
  have hd_in: "hd M \<in> set M" and last_in: "last M \<in> set M" using M by simp_all
  have "x \<in> cover M \<union> {start..end'}"
    if "min (fst (hd M)) start \<le> x" "x \<le> max (snd (last M)) end'" for x
  proof -
    consider "x < start" | "start \<le> x" "x \<le> end'" | "end' < x" by linarith
    then show ?thesis
    proof cases
      case 1
      then show ?thesis using that(1) hd hd_in by (auto simp: cover_def intro!: bexI [of _ "hd M"])
    next
      case 3
      then show ?thesis using that(2) last last_in by (auto simp: cover_def intro!: bexI [of _ "last M"])
    qed auto
  qed
  moreover have "min (fst (hd M)) start \<le> x \<and> x \<le> max (snd (last M)) end'"
    if "x \<in> cover M \<union> {start..end'}" for x
    using that bounds by (fastforce simp: cover_def)
  ultimately show ?thesis unfolding set_eq_iff atLeastAtMost_iff by blast
qed

lemma merge_ivs:
  assumes ok: "ivs (L @ M @ R)" and M: "M \<noteq> []" and le: "start \<le> end'"
    and L: "\<forall>r\<in>set L. snd r + 1 < start" and R: "\<forall>r\<in>set R. end' + 1 < fst r"
  shows "ivs (L @ (min (fst (hd M)) start, max (snd (last M)) end') # R)"
proof -
  have "hd M \<in> set M" "last M \<in> set M" using M by simp_all
  then show ?thesis using ok le L R by (auto simp: ivs_append max_def)
qed

lemma extend_left_result:
  assumes ok: "ivs (ys @ p # R)" and small: "\<And>r. r \<in> set (ys @ p # R) \<Longrightarrow> snd r + 1 < 2 ^ 32"
    and touch: "start \<le> snd p + 1"
  shows "\<exists>L N. ys = L @ N \<and> (\<forall>r\<in>set L. snd r + 1 < start) \<and> start \<le> snd (hd (N @ [p])) + 1 \<and>
    extend_left (ys @ p # R) start end' (length ys) (snd p) =
      Some (L @ (min (fst (hd (N @ [p]))) start, max (snd p) end') # R, True)"
proof -
  obtain L zs where m: "ys @ p # R = L @ zs"
    and pp: "partition_point (\<lambda>l. do { e \<leftarrow> u32_inc (snd l); Some (e < start) }) (ys @ p # R) = Some (length L)"
    and L: "\<forall>r\<in>set L. snd r + 1 < start" and zs: "\<forall>r\<in>set zs. start \<le> snd r + 1"
    using partition_snd [OF ok small] by blast
  have "p \<notin> set L" using L touch by auto
  then obtain N where N: "ys = L @ N" "zs = N @ p # R"
    using m by (auto simp: append_eq_append_conv2 Cons_eq_append_conv)
  have "hd (N @ [p]) \<in> set zs" using N by (cases N) auto
  moreover have "(ys @ p # R) ! length L = hd (N @ [p])" using N by (cases N) (auto simp: nth_append)
  moreover have "vec_drain (length L) (length ys) (ys @ x # R) = Some (L @ x # R)" for x
    using N by (simp add: vec_drain_def)
  ultimately have "extend_left (ys @ p # R) start end' (length ys) (snd p) =
      Some (L @ (min (fst (hd (N @ [p]))) start, max (snd p) end') # R, True)"
    using pp N by (auto simp: extend_left_def Let_def list_update_append)
  then show ?thesis using N L zs \<open>hd (N @ [p]) \<in> set zs\<close> by blast
qed

text \<open>The situation of \<open>insert_into\<close> when an interval \<open>p\<close> starts at or before the place after the
  inserted one: the intervals \<open>ys\<close> before it and \<open>R\<close> behind it.\<close>

definition around :: "(nat \<times> nat) list \<Rightarrow> nat \<times> nat \<Rightarrow> (nat \<times> nat) list \<Rightarrow> nat \<Rightarrow> nat \<Rightarrow> bool" where
  "around ys p R start end' \<longleftrightarrow> ivs (ys @ p # R) \<and> start \<le> end' \<and> fst p \<le> end' + 1 \<and>
     (\<forall>r\<in>set R. end' + 1 < fst r)"

lemma around_not_covered:
  assumes "around ys p R start end'" "fst p \<le> x + 1" "x \<le> end' + 1" "x < fst p \<or> snd p < x"
  shows "x \<notin> cover (ys @ p # R)"
  using assms by (force simp: around_def ivs_append cover_def)

lemma insert_into_around:
  assumes "around ys p R start end'" "\<And>r. r \<in> set (ys @ p # R) \<Longrightarrow> snd r + 1 < 2 ^ 32"
    and next': "partition_point (\<lambda>r. do { e \<leftarrow> u32_inc end'; Some (fst r \<le> e) }) (ys @ p # R) = Some (Suc (length ys))"
  shows "insert_into (ys @ p # R) start end' =
        (if snd p + 1 \<ge> start then
           (if start < fst p then extend_left (ys @ p # R) start end' (length ys) (snd p)
            else if end' > snd p then Some (ys @ (fst p, end') # R, True)
            else Some (ys @ p # R, False))
         else Some (ys @ p # (start, end') # R, True))"
proof -
  have "u32_inc (snd p) = Some (snd p + 1)" using assms(2) [of p] by simp
  then show ?thesis using next'
    by (simp add: insert_into_def split_beta vec_insert_def list_update_append)
qed

lemma extend_left_correct:
  assumes ar: "around ys p R start end'" and small: "\<And>r. r \<in> set (ys @ p # R) \<Longrightarrow> snd r + 1 < 2 ^ 32"
    and left: "start < fst p"
  shows "\<exists>m'. extend_left (ys @ p # R) start end' (length ys) (snd p) = Some (m', True) \<and> ivs m' \<and>
    cover m' = cover (ys @ p # R) \<union> {start..end'} \<and> \<not> {start..end'} \<subseteq> cover (ys @ p # R)"
proof -
  have ok: "ivs (ys @ p # R)" and le: "start \<le> end'" and p: "fst p \<le> end' + 1"
    and R: "\<forall>r\<in>set R. end' + 1 < fst r" using ar by (auto simp: around_def)
  have "start \<le> snd p + 1" using ivs_le [OF ok, of p] left by simp
  from extend_left_result [OF ok small this] obtain L N
    where N: "ys = L @ N" "\<forall>r\<in>set L. snd r + 1 < start" "start \<le> snd (hd (N @ [p])) + 1"
      and eq: "extend_left (ys @ p # R) start end' (length ys) (snd p) =
        Some (L @ (min (fst (hd (N @ [p]))) start, max (snd p) end') # R, True)" by metis
  have ok': "ivs (L @ (N @ [p]) @ R)" using ok N by simp
  have "ivs (L @ (min (fst (hd (N @ [p]))) start, max (snd p) end') # R)"
    using merge_ivs [OF ok' _ le N(2) R] by simp
  moreover have "{min (fst (hd (N @ [p]))) start..max (snd p) end'} = cover (N @ [p]) \<union> {start..end'}"
    using merge_cover [OF ok' _ le N(3)] p by simp
  then have "cover (L @ (min (fst (hd (N @ [p]))) start, max (snd p) end') # R) =
      cover (ys @ p # R) \<union> {start..end'}"
    using N by auto
  moreover have "fst p - 1 \<notin> cover (ys @ p # R)"
    using around_not_covered [OF ar, of "fst p - 1"] left p by auto
  then have "\<not> {start..end'} \<subseteq> cover (ys @ p # R)"
    using left p by (auto simp: subset_iff intro!: exI [of _ "fst p - 1"])
  ultimately show ?thesis using eq by blast
qed

lemma extend_right_correct:
  assumes ar: "around ys p R start end'" and right: "start \<le> snd p + 1" "fst p \<le> start" "snd p < end'"
  shows "ivs (ys @ (fst p, end') # R)"
    "cover (ys @ (fst p, end') # R) = cover (ys @ p # R) \<union> {start..end'}"
    "\<not> {start..end'} \<subseteq> cover (ys @ p # R)"
proof -
  show "ivs (ys @ (fst p, end') # R)" using ar right by (auto simp: around_def ivs_append)
  have "{fst p..end'} = {fst p..snd p} \<union> {start..end'}" using right by auto
  then show "cover (ys @ (fst p, end') # R) = cover (ys @ p # R) \<union> {start..end'}" by auto
  have "snd p + 1 \<notin> cover (ys @ p # R)"
    using around_not_covered [OF ar, of "snd p + 1"] right by auto
  then show "\<not> {start..end'} \<subseteq> cover (ys @ p # R)"
    using right by (auto simp: subset_iff intro!: exI [of _ "snd p + 1"])
qed

lemma gap_correct:
  assumes ar: "around ys p R start end'" and gap: "snd p + 1 < start"
  shows "ivs (ys @ p # (start, end') # R)" "start \<notin> cover (ys @ p # R)"
proof -
  have "fst p \<le> snd p" using ar by (auto simp: around_def ivs_append)
  with ar gap show "ivs (ys @ p # (start, end') # R)" by (auto simp: around_def ivs_append)
  show "start \<notin> cover (ys @ p # R)"
    using around_not_covered [OF ar, of start] ar gap \<open>fst p \<le> snd p\<close> by (simp add: around_def)
qed

lemma insert_into_correct:
  assumes ok: "ivs m" and le: "start \<le> end'" and small: "end' + 1 < 2 ^ 32"
    "\<And>r. r \<in> set m \<Longrightarrow> snd r + 1 < 2 ^ 32"
  shows "\<exists>m'. insert_into m start end' = Some (m', \<not> {start..end'} \<subseteq> cover m) \<and> ivs m' \<and>
    cover m' = cover m \<union> {start..end'}"
proof -
  obtain xs R where m: "m = xs @ R"
    and pp: "partition_point (\<lambda>r. Some (fst r \<le> end' + 1)) m = Some (length xs)"
    and xs: "\<forall>r\<in>set xs. fst r \<le> end' + 1" and R: "\<forall>r\<in>set R. end' + 1 < fst r"
    using partition_fst [OF ok, of "end' + 1"] by blast
  have next': "partition_point (\<lambda>r. do { e \<leftarrow> u32_inc end'; Some (fst r \<le> e) }) m = Some (length xs)"
    using pp small(1) by simp
  show ?thesis
  proof (cases xs rule: rev_cases)
    case Nil
    then have "insert_into m start end' = Some ((start, end') # R, True)"
      using next' m by (auto simp: insert_into_def vec_insert_def)
    moreover have "start \<notin> cover m" using R le m Nil by (force simp: cover_def)
    ultimately show ?thesis using m Nil ok le R by (auto simp: ivs_append)
  next
    case (snoc ys p)
    then have m': "m = ys @ p # R" using m by simp
    have ar: "around ys p R start end'" using ok le R xs m' snoc by (auto simp: around_def)
    have into: "insert_into m start end' =
        (if snd p + 1 \<ge> start then
           (if start < fst p then extend_left m start end' (length ys) (snd p)
            else if end' > snd p then Some (ys @ (fst p, end') # R, True)
            else Some (m, False))
         else Some (ys @ p # (start, end') # R, True))"
      using insert_into_around [OF ar] small(2) next' m' snoc by simp
    consider (left) "start \<le> snd p + 1" "start < fst p" | (right) "start \<le> snd p + 1" "fst p \<le> start" "snd p < end'"
      | (inside) "start \<le> snd p + 1" "fst p \<le> start" "end' \<le> snd p" | (gap) "snd p + 1 < start" by linarith
    then show ?thesis
    proof cases
      case left
      then show ?thesis using into extend_left_correct [OF ar _ left(2)] small(2) m' by force
    next
      case right
      then show ?thesis using into extend_right_correct [OF ar right] m' by auto
    next
      case inside
      then have "{start..end'} \<subseteq> cover m" using m' by auto
      then show ?thesis using into inside ok by auto
    next
      case gap
      then show ?thesis using into gap_correct [OF ar gap] m' le by auto
    qed
  qed
qed

section \<open>The operations on sets\<close>

lemma interval_invD:
  assumes "interval_inv d s"
  shows "iv_domain s = d" "d < 2 ^ 32" "ivs (iv_map s)" "cover (iv_map s) \<subseteq> {..<d}"
    "\<And>r. r \<in> set (iv_map s) \<Longrightarrow> snd r < d"
  using assms cover_bound [of "iv_map s" _ d] by (auto simp: interval_inv_def interval_elems_def)

lemma interval_inv_update:
  assumes "interval_inv d s" "ivs m" "cover m \<subseteq> {..<d}"
  shows "interval_inv d (s\<lparr>iv_map := m\<rparr>)" "interval_elems (s\<lparr>iv_map := m\<rparr>) = cover m"
  using assms by (simp_all add: interval_inv_def interval_elems_def)

lemma interval_new_inv: "d < 2 ^ 32 \<Longrightarrow> interval_inv d (interval_new d) \<and> interval_elems (interval_new d) = {}"
  by (simp add: interval_inv_def interval_elems_def interval_new_def)

lemma insert_range_correct:
  assumes inv: "interval_inv d s" and g: "range_ok d g"
  shows "\<exists>s'. interval_insert_range s g = Some (s', \<not> range_set d g \<subseteq> interval_elems s) \<and>
    interval_inv d s' \<and> interval_elems s' = interval_elems s \<union> range_set d g"
proof -
  note s = interval_invD [OF inv]
  from g s(2) show ?thesis
  proof (cases rule: range_cases)
    case (full start e)
    have "\<And>r. r \<in> set (iv_map s) \<Longrightarrow> snd r + 1 < 2 ^ 32" "e + 1 < 2 ^ 32"
      using s(2,5) full(4) by fastforce+
    then obtain m' where m': "insert_into (iv_map s) start e = Some (m', \<not> {start..e} \<subseteq> cover (iv_map s))"
      "ivs m'" "cover m' = cover (iv_map s) \<union> {start..e}"
      using insert_into_correct [OF s(3) full(3)] by blast
    have "cover m' \<subseteq> {..<d}" using m'(3) s(4) full(4) by auto
    from interval_inv_update [OF inv m'(2) this] show ?thesis
      using m' full s(1) checked_set_ivs
      by (auto simp: interval_insert_range_def interval_elems_def)
  qed (use s(1) inv in \<open>auto simp: interval_insert_range_def\<close>)
qed

lemma interval_insert_correct:
  assumes "interval_inv d s" "x < d"
  shows "\<exists>s'. interval_insert s x = Some (s', x \<notin> interval_elems s) \<and> interval_inv d s' \<and>
    interval_elems s' = insert x (interval_elems s)"
proof -
  have "range_ok d (Included x, Included x)" "range_set d (Included x, Included x) = {x}"
    using assms interval_invD(2) [OF assms(1)] by (auto simp: range_ok_def range_set_def)
  with insert_range_correct [OF assms(1)] show ?thesis by (fastforce simp: interval_insert_def)
qed

text \<open>The interval that starts last among those that start at or before a point.\<close>

lemma partition_prev:
  assumes "ivs m"
  obtains (none) "partition_point (\<lambda>r. Some (fst r \<le> k)) m = Some 0" "\<forall>r\<in>set m. k < fst r"
  | (prev) xs p ys where "partition_point (\<lambda>r. Some (fst r \<le> k)) m = Some (Suc (length xs))"
      "m = xs @ p # ys" "fst p \<le> k" "fst p \<le> snd p" "\<forall>r\<in>set ys. k < fst r" "\<forall>r\<in>set xs. snd r + 1 < fst p"
proof -
  obtain zs ys where z: "m = zs @ ys" "partition_point (\<lambda>r. Some (fst r \<le> k)) m = Some (length zs)"
    "\<forall>r\<in>set zs. fst r \<le> k" "\<forall>r\<in>set ys. k < fst r"
    using partition_fst [OF assms] by blast
  show thesis
  proof (cases zs rule: rev_cases)
    case Nil
    then show ?thesis using none z by simp
  next
    case (snoc xs p)
    then show ?thesis using prev [of xs p ys] z assms by (auto simp: ivs_append)
  qed
qed

lemma interval_contains_correct:
  assumes "interval_inv d s" "x < d"
  shows "interval_contains s x = Some (x \<in> interval_elems s)"
proof -
  note s = interval_invD [OF assms(1)]
  have x: "as_u32 x = x" using assms(2) s(2) by simp
  from s(3) show ?thesis
  proof (cases rule: partition_prev [where k = x])
    case none
    then have "x \<notin> interval_elems s" by (auto simp: interval_elems_def cover_def)
    then show ?thesis using none x by (simp add: interval_contains_def)
  next
    case (prev xs p ys)
    then have "x \<in> interval_elems s \<longleftrightarrow> x \<le> snd p" by (fastforce simp: interval_elems_def cover_def)
    then show ?thesis using prev x by (simp add: interval_contains_def split_beta)
  qed
qed

lemma interval_last_set_in_correct:
  assumes "interval_inv d s" "range_ok d g"
  shows "interval_last_set_in s g = Some (max_of (interval_elems s \<inter> range_set d g))"
proof -
  note s = interval_invD [OF assms(1)]
  from assms(2) s(2) show ?thesis
  proof (cases rule: range_cases)
    case (full start e)
    from s(3) show ?thesis
    proof (cases rule: partition_prev [where k = e])
      case none
      then have "interval_elems s \<inter> range_set d g = {}" using full by (fastforce simp: interval_elems_def cover_def)
      then show ?thesis using none full s(1) by (simp add: interval_last_set_in_def max_of_def)
    next
      case (prev xs p ys)
      show ?thesis
      proof (cases "start \<le> snd p")
        case True
        then have "max_of (interval_elems s \<inter> range_set d g) = Some (min (snd p) e)"
          using full prev by (intro max_of_eqI) (auto simp: interval_elems_def cover_def)
        then show ?thesis using True prev full s(1) by (simp add: interval_last_set_in_def split_beta)
      next
        case False
        then have "interval_elems s \<inter> range_set d g = {}"
          using prev full by (fastforce simp: interval_elems_def cover_def)
        then show ?thesis using False prev full s(1)
          by (simp add: interval_last_set_in_def max_of_def split_beta)
      qed
    qed
  qed (use s(1) in \<open>auto simp: interval_last_set_in_def max_of_def\<close>)
qed

lemma first_unset_in_correct:
  assumes "interval_inv d s" "range_ok d g"
  shows "first_unset_in s g = Some (min_of (range_set d g - interval_elems s))"
proof -
  note s = interval_invD [OF assms(1)]
  from assms(2) s(2) show ?thesis
  proof (cases rule: range_cases)
    case (full start e)
    from s(3) show ?thesis
    proof (cases rule: partition_prev [where k = start])
      case none
      then have "min_of (range_set d g - interval_elems s) = Some start"
        using full by (intro min_of_eqI) (auto simp: interval_elems_def cover_def)
      then show ?thesis using none full s(1) by (simp add: first_unset_in_def)
    next
      case (prev xs p ys)
      have xs: "snd r < fst p" if "r \<in> set xs" for r using prev(6) that by auto
      have ys: "snd p + 1 < fst r" if "r \<in> set ys" for r using s(3) prev(2) that by (auto simp: ivs_append)
      consider "snd p < start" | "start \<le> snd p" "snd p < e" | "start \<le> snd p" "e \<le> snd p" by linarith
      then have "min_of (range_set d g - interval_elems s) =
          (if snd p < start then Some start else if snd p < e then Some (snd p + 1) else None)"
      proof cases
        case 1
        then have "min_of (range_set d g - interval_elems s) = Some start"
          using full prev xs by (intro min_of_eqI) (fastforce simp: interval_elems_def cover_def)+
        then show ?thesis using 1 by simp
      next
        case 2
        then have "min_of (range_set d g - interval_elems s) = Some (snd p + 1)"
          using full prev xs ys by (intro min_of_eqI) (fastforce simp: interval_elems_def cover_def not_le)+
        then show ?thesis using 2 by simp
      next
        case 3
        then have "range_set d g - interval_elems s = {}"
          using full prev by (auto simp: interval_elems_def cover_def)
        then show ?thesis using 3 by (simp add: min_of_def)
      qed
      then show ?thesis using prev full s(1) by (simp add: first_unset_in_def split_beta)
    qed
  qed (use s(1) in \<open>auto simp: first_unset_in_def min_of_def\<close>)
qed

section \<open>Comparisons\<close>

text \<open>Half-open intervals, as \<open>iter_intervals\<close> yields them.\<close>

definition hivs :: "(nat \<times> nat) list \<Rightarrow> bool" where
  "hivs m \<longleftrightarrow> sorted_wrt (\<lambda>x y. snd x < fst y) m \<and> (\<forall>r\<in>set m. fst r < snd r)"

definition hcover :: "(nat \<times> nat) list \<Rightarrow> nat set" where
  "hcover m = {x. \<exists>r\<in>set m. fst r \<le> x \<and> x < snd r}"

lemma h_simps [simp]:
  "hcover [] = {}" "hcover (r # m) = {fst r..<snd r} \<union> hcover m"
  "hivs []" "hivs (r # m) \<longleftrightarrow> fst r < snd r \<and> hivs m \<and> (\<forall>y\<in>set m. snd r < fst y)"
  by (auto simp: hcover_def hivs_def)

lemma iter_intervals_h:
  "interval_inv d s \<Longrightarrow> hivs (iter_intervals s)" "hcover (iter_intervals s) = interval_elems s"
  by (auto simp: iter_intervals_def interval_inv_def interval_elems_def hcover_def cover_def hivs_def ivs_def
      sorted_wrt_map less_Suc_eq_le split_beta)

lemma hcover_ge: "hivs (r # m) \<Longrightarrow> x \<in> hcover m \<Longrightarrow> snd r < x"
  by (auto simp: hcover_def)

text \<open>What the closure of \<open>superset\<close> decides about the first interval.\<close>

lemma sup_test_None:
  assumes "sup_test sp sub = None" "hivs (sp # m)" "hivs (sub # n)"
  shows "hcover (sub # n) \<subseteq> hcover (sp # m) \<longleftrightarrow> hcover (sub # n) \<subseteq> hcover m"
proof -
  have "snd sp < x" if "x \<in> hcover (sub # n)" for x
    using assms hcover_ge [OF assms(3)] that by (fastforce simp: sup_test_def split: if_splits)
  then show ?thesis by fastforce
qed

lemma sup_test_False:
  assumes "sup_test sp sub = Some False" "hivs (sp # m)" "hivs (sub # n)"
  shows "\<not> hcover (sub # n) \<subseteq> hcover (sp # m)"
proof -
  have *: "fst sub \<le> snd sp" "snd sp < snd sub \<or> fst sub < fst sp"
    using assms(1) by (auto simp: sup_test_def split: if_splits)
  let ?x = "if fst sub < fst sp then fst sub else snd sp"
  have "?x \<notin> hcover m" using hcover_ge [OF assms(2), of ?x] assms(2) by auto
  then have "?x \<notin> hcover (sp # m)" by simp
  moreover have "?x \<in> hcover (sub # n)" using * assms(3) by auto
  ultimately show ?thesis by blast
qed

lemma sup_test_True:
  assumes "sup_test sp sub = Some True"
  shows "hcover (sub # n) \<subseteq> hcover (sp # m) \<longleftrightarrow> hcover n \<subseteq> hcover (sp # m)"
  using assms by (auto simp: sup_test_def split: if_splits)

lemma sup_find_correct:
  assumes "hivs m" "hivs (sub # n)"
  shows "case sup_find sub m of
      None \<Rightarrow> \<not> hcover (sub # n) \<subseteq> hcover m
    | Some (b, s, e, rest) \<Rightarrow> hivs ((s, e) # rest) \<and>
        (hcover (sub # n) \<subseteq> hcover m \<longleftrightarrow> b \<and> hcover n \<subseteq> hcover ((s, e) # rest))"
  using assms
proof (induction m)
  case (Cons sp m)
  show ?case
  proof (cases "sup_test sp sub")
    case None
    then show ?thesis using Cons sup_test_None [OF None Cons.prems] by (auto split: option.splits)
  next
    case (Some b)
    then show ?thesis using Cons.prems sup_test_True [of sp sub n m] sup_test_False [of sp sub m n]
      by (cases b) auto
  qed
qed auto

lemma superset_loop_correct:
  assumes "hivs (case cur of None \<Rightarrow> m | Some c \<Rightarrow> c # m)" "hivs n"
  shows "superset_loop cur m n \<longleftrightarrow> hcover n \<subseteq> hcover (case cur of None \<Rightarrow> m | Some c \<Rightarrow> c # m)"
  using assms
proof (induction cur m n rule: superset_loop.induct)
  case (2 current m sub subs)
  have n: "hivs subs" using 2(4) by simp
  show ?case
  proof (cases "Option.bind current (\<lambda>sp. sup_test sp sub)")
    case None
    have m: "hivs m" using 2(3) by (cases current) auto
    have skip: "hcover (sub # subs) \<subseteq> hcover (case current of None \<Rightarrow> m | Some c \<Rightarrow> c # m) \<longleftrightarrow>
        hcover (sub # subs) \<subseteq> hcover m"
      using None 2(3,4) sup_test_None [of _ sub m subs] by (cases current) auto
    show ?thesis
    proof (cases "sup_find sub m")
      case None': None
      then show ?thesis using None skip sup_find_correct [OF m 2(4)] by simp
    next
      case (Some r)
      obtain b s e rest where r: "r = (b, s, e, rest)" by (cases r)
      then have "superset_loop (Some (s, e)) rest subs \<longleftrightarrow> hcover subs \<subseteq> hcover ((s, e) # rest)"
        using 2(1) [OF None Some, of b "(s, e, rest)" s "(e, rest)" e rest] n sup_find_correct [OF m 2(4)] Some
        by simp
      then show ?thesis using None Some r skip sup_find_correct [OF m 2(4)] by simp
    qed
  next
    case (Some b)
    then obtain c where c: "current = Some c" "sup_test c sub = Some b" by (cases current) auto
    show ?thesis
    proof (cases b)
      case True
      then show ?thesis using 2(2) [OF Some] 2(3) n c sup_test_True [of c sub subs m] by simp
    next
      case False
      then show ?thesis using c 2(3,4) sup_test_False [of c sub m subs] by simp
    qed
  qed
qed simp

lemma disjoint_loop_correct:
  "hivs m \<Longrightarrow> hivs n \<Longrightarrow> disjoint_loop m n \<longleftrightarrow> hcover m \<inter> hcover n = {}"
proof (induction m n rule: disjoint_loop.induct)
  case (3 c m r n)
  consider (left) "snd c \<le> fst r" | (right) "\<not> snd c \<le> fst r" "snd r \<le> fst c"
    | (overlap) "fst r < snd c" "fst c < snd r" by linarith
  then show ?case
  proof cases
    case left
    have "x \<ge> snd c" if "x \<in> hcover (r # n)" for x
      using left hcover_ge [OF 3(4), of x] that 3(4) by auto
    then have "{fst c..<snd c} \<inter> hcover (r # n) = {}" by force
    then show ?thesis using 3(1) [OF left] 3(3,4) left by (simp add: Int_Un_distrib2)
  next
    case right
    have "x \<ge> snd r" if "x \<in> hcover (c # m)" for x
      using right hcover_ge [OF 3(3), of x] that 3(3) by auto
    then have "{fst r..<snd r} \<inter> hcover (c # m) = {}" by force
    then show ?thesis using 3(2) [OF right] 3(3,4) right by (simp add: Int_Un_distrib Int_commute)
  next
    case overlap
    have "max (fst c) (fst r) \<in> {fst c..<snd c} \<inter> {fst r..<snd r}" using overlap 3(3,4) by auto
    then have "max (fst c) (fst r) \<in> hcover (c # m) \<inter> hcover (r # n)" by simp
    then show ?thesis using overlap by (auto simp del: h_simps)
  qed
qed auto

section \<open>Whole sets\<close>

lemma interval_insert_all_correct:
  assumes "interval_inv d s"
  shows "\<exists>s'. interval_insert_all s = Some s' \<and> interval_inv d s' \<and> interval_elems s' = {..<d}"
proof -
  note s = interval_invD [OF assms]
  define m :: "(nat \<times> nat) list" where "m = (if d = 0 then [] else [(0, d - 1)])"
  have m: "ivs m" "cover m = {..<d}" by (auto simp: m_def)
  from interval_inv_update [OF assms m(1)] m(2) checked_set_ivs [of d "s\<lparr>iv_map := m\<rparr>"] s(1,2)
  show ?thesis by (auto simp: interval_insert_all_def interval_clear_def Let_def m_def split: if_splits)
qed

lemma union_loop_correct:
  assumes "interval_inv d s" "hivs m" "hcover m \<subseteq> {..<d}"
  shows "\<exists>s'. union_loop s did m = Some (s', did \<or> \<not> hcover m \<subseteq> interval_elems s) \<and> interval_inv d s' \<and>
    interval_elems s' = interval_elems s \<union> hcover m"
  using assms
proof (induction m arbitrary: s did)
  case (Cons r m)
  let ?g = "(Included (fst r), Excluded (snd r))"
  have "snd r - 1 \<in> hcover (r # m)" and "fst r < snd r" using Cons.prems(2) by auto
  then have r: "fst r < snd r" "snd r - 1 < d" using Cons.prems(3) by blast+
  have g: "range_ok d ?g" "range_set d ?g = {fst r..<snd r}"
    using r interval_invD(2) [OF Cons.prems(1)] by (auto simp: range_ok_def range_set_def)
  obtain s1 where s1: "interval_insert_range s ?g = Some (s1, \<not> {fst r..<snd r} \<subseteq> interval_elems s)"
    "interval_inv d s1" "interval_elems s1 = interval_elems s \<union> {fst r..<snd r}"
    using insert_range_correct [OF Cons.prems(1) g(1)] g(2) by auto
  obtain s2 where s2: "union_loop s1 (did \<or> \<not> {fst r..<snd r} \<subseteq> interval_elems s) m =
      Some (s2, (did \<or> \<not> {fst r..<snd r} \<subseteq> interval_elems s) \<or> \<not> hcover m \<subseteq> interval_elems s1)"
    "interval_inv d s2" "interval_elems s2 = interval_elems s1 \<union> hcover m"
    using Cons.IH [OF s1(2), of "did \<or> \<not> {fst r..<snd r} \<subseteq> interval_elems s"] Cons.prems(2,3) by auto
  have "hcover m \<inter> {fst r..<snd r} = {}" using hcover_ge [OF Cons.prems(2)] by force
  then have "hcover m \<subseteq> interval_elems s1 \<longleftrightarrow> hcover m \<subseteq> interval_elems s" using s1(3) by blast
  with s1 s2 show ?case by (cases r) auto
qed auto

text \<open>The flag of \<open>union\<close> speaks about the set with fewer intervals.\<close>

lemma interval_union_correct:
  assumes "interval_inv d s" "interval_inv d t"
  shows "\<exists>s'. interval_union s t = Some (s', if length (iv_map s) < length (iv_map t)
        then \<not> interval_elems s \<subseteq> interval_elems t else \<not> interval_elems t \<subseteq> interval_elems s) \<and>
    interval_inv d s' \<and> interval_elems s' = interval_elems s \<union> interval_elems t"
proof -
  have step: "\<exists>s'. interval_union a b = Some (s', \<not> interval_elems b \<subseteq> interval_elems a) \<and> interval_inv d s' \<and>
      interval_elems s' = interval_elems a \<union> interval_elems b"
    if a: "interval_inv d a" and b: "interval_inv d b" and len: "\<not> length (iv_map a) < length (iv_map b)" for a b
  proof -
    obtain s' where "union_loop a False (iter_intervals b) = Some (s', \<not> interval_elems b \<subseteq> interval_elems a)"
      "interval_inv d s'" "interval_elems s' = interval_elems a \<union> interval_elems b"
      using union_loop_correct [OF a iter_intervals_h(1) [OF b], of False] interval_invD(4) [OF b]
      by (auto simp: iter_intervals_h interval_elems_def)
    then show ?thesis using len interval_invD(1) [OF a] interval_invD(1) [OF b]
      by (subst interval_union.simps) (simp add: checked_set_ivs)
  qed
  note s = interval_invD [OF assms(1)] and t = interval_invD [OF assms(2)]
  show ?thesis
  proof (cases "length (iv_map s) < length (iv_map t)")
    case True
    let ?s = "s\<lparr>iv_map := iv_map t\<rparr>"
    have "interval_inv d ?s" "interval_elems ?s = interval_elems t"
      using interval_inv_update [OF assms(1) t(3,4)] by (simp_all add: interval_elems_def)
    moreover have "interval_union s t = interval_union ?s s"
      using True s(1) t(1) by (subst interval_union.simps) simp
    ultimately show ?thesis using step [OF _ assms(1), of ?s] True by (auto simp: Un_commute)
  qed (use step [OF assms] in auto)
qed

definition interval_impl :: "interval_set set_impl" where
  "interval_impl = \<lparr>im_contains = interval_contains, im_is_empty = interval_is_empty,
     im_superset = (\<lambda>s t. Some (interval_superset s t)), im_last_set_in = interval_last_set_in,
     im_insert = interval_insert, im_insert_range = (\<lambda>s g. map_option fst (interval_insert_range s g)),
     im_insert_all = interval_insert_all, im_clear = interval_clear, im_union = interval_union\<rparr>"

interpretation interval: index_set interval_impl interval_inv interval_elems
proof
  fix d and s t :: interval_set and x g
  assume s: "interval_inv d s"
  show "x < d \<Longrightarrow> im_contains interval_impl s x = Some (x \<in> interval_elems s)"
    using interval_contains_correct [OF s] by (simp add: interval_impl_def)
  show "im_is_empty interval_impl s = (interval_elems s = {})"
    using cover_empty_iff interval_invD(3) [OF s]
    by (simp add: interval_impl_def interval_is_empty_def interval_elems_def)
  show "range_ok d g \<Longrightarrow> im_last_set_in interval_impl s g = Some (max_of (interval_elems s \<inter> range_set d g))"
    using interval_last_set_in_correct [OF s] by (simp add: interval_impl_def)
  show "x < d \<Longrightarrow> \<exists>s'. im_insert interval_impl s x = Some (s', x \<notin> interval_elems s) \<and>
      interval_inv d s' \<and> interval_elems s' = insert x (interval_elems s)"
    using interval_insert_correct [OF s] by (simp add: interval_impl_def)
  show "range_ok d g \<Longrightarrow> \<exists>s'. im_insert_range interval_impl s g = Some s' \<and> interval_inv d s' \<and>
      interval_elems s' = interval_elems s \<union> range_set d g"
    using insert_range_correct [OF s] by (fastforce simp: interval_impl_def)
  show "\<exists>s'. im_insert_all interval_impl s = Some s' \<and> interval_inv d s' \<and> interval_elems s' = {..<d}"
    using interval_insert_all_correct [OF s] by (simp add: interval_impl_def)
  show "interval_inv d (im_clear interval_impl s) \<and> interval_elems (im_clear interval_impl s) = {}"
    using s by (simp add: interval_impl_def interval_clear_def interval_inv_def interval_elems_def)
  assume t: "interval_inv d t"
  show "im_superset interval_impl s t = Some (interval_elems t \<subseteq> interval_elems s)"
    using superset_loop_correct [of "iter_intervals s" None "iter_intervals t"] s t
    by (simp add: interval_impl_def interval_superset_def iter_intervals_h)
  show "\<exists>s' b. im_union interval_impl s t = Some (s', b) \<and> interval_inv d s' \<and>
      interval_elems s' = interval_elems s \<union> interval_elems t"
    using interval_union_correct [OF s t] by (auto simp: interval_impl_def)
qed

end
