(* ===== verification/Interval_Correct.thy ===== *)
theory Interval_Correct
  imports Interval_Props
begin

text \<open>
  Appending to interval sets, matrices of interval sets, and the properties of both.
\<close>

section \<open>Appending\<close>

text \<open>Adding an interval behind all others: it extends the last one or is new.\<close>

definition pushed :: "(nat \<times> nat) list \<Rightarrow> nat \<Rightarrow> nat \<Rightarrow> (nat \<times> nat) list" where
  "pushed m start end' =
     (if m = [] then [(start, end')]
      else if start \<le> snd (last m) + 1 then butlast m @ [(fst (last m), end')]
      else m @ [(start, end')])"

lemma pushed_correct:
  assumes ok: "ivs m" and le: "start \<le> end'" and behind: "\<And>y. y \<in> cover m \<Longrightarrow> y \<le> start"
  shows "m \<noteq> [] \<Longrightarrow> snd (last m) \<le> start" "ivs (pushed m start end')"
    "cover (pushed m start end') = cover m \<union> {start..end'}"
proof -
  have "(m \<noteq> [] \<longrightarrow> snd (last m) \<le> start) \<and> ivs (pushed m start end') \<and>
    cover (pushed m start end') = cover m \<union> {start..end'}"
  proof (cases m rule: rev_cases)
    case (snoc ys p)
    then have p: "fst p \<le> snd p" "\<forall>r\<in>set ys. snd r + 1 < fst p" using ok by (auto simp: ivs_append)
    then have snd: "snd p \<le> start" using behind [of "snd p"] snoc by simp
    have ys: "snd r + 1 < start" if "r \<in> set ys" for r using p snd that by fastforce
    have "ivs (pushed m start end')" using ok snoc p ys le snd by (auto simp: pushed_def ivs_append)
    moreover have "start \<le> snd p + 1 \<Longrightarrow> {fst p..end'} = {fst p..snd p} \<union> {start..end'}" using p snd le by auto
    then have "cover (pushed m start end') = cover m \<union> {start..end'}" using snoc by (auto simp: pushed_def)
    ultimately show ?thesis using snd snoc by simp
  qed (use le in \<open>simp add: pushed_def\<close>)
  then show "m \<noteq> [] \<Longrightarrow> snd (last m) \<le> start" "ivs (pushed m start end')"
    "cover (pushed m start end') = cover m \<union> {start..end'}" by auto
qed

lemma pushed_set:
  assumes inv: "interval_inv d s" and le: "start \<le> end'" "end' < d"
    and behind: "\<And>y. y \<in> interval_elems s \<Longrightarrow> y \<le> start"
  shows "\<exists>s'. checked_set (s\<lparr>iv_map := pushed (iv_map s) start end'\<rparr>) = Some s' \<and> interval_inv d s' \<and>
    interval_elems s' = interval_elems s \<union> {start..end'}"
proof -
  note s = interval_invD [OF inv]
  have behind': "\<And>y. y \<in> cover (iv_map s) \<Longrightarrow> y \<le> start" using behind by (simp add: interval_elems_def)
  note p = pushed_correct [OF s(3) le(1) behind']
  have "cover (pushed (iv_map s) start end') \<subseteq> {..<d}" using p(3) s(4) le(2) by auto
  from interval_inv_update [OF inv p(2) this] checked_set_ivs p(3) show ?thesis
    by (auto simp: interval_elems_def)
qed

lemma last_end:
  assumes "interval_inv d s" "iv_map s \<noteq> []" "\<And>y. y \<in> interval_elems s \<Longrightarrow> y \<le> x"
  shows "u32_inc (snd (last (iv_map s))) = Some (snd (last (iv_map s)) + 1)" "snd (last (iv_map s)) \<le> x"
proof -
  have last: "last (iv_map s) \<in> set (iv_map s)" using assms(2) by simp
  then show "u32_inc (snd (last (iv_map s))) = Some (snd (last (iv_map s)) + 1)"
    using interval_invD(2,5) [OF assms(1)] by fastforce
  have "snd (last (iv_map s)) \<in> interval_elems s"
    using last ivs_le [OF interval_invD(3) [OF assms(1)] last] by (auto simp: interval_elems_def cover_def)
  then show "snd (last (iv_map s)) \<le> x" using assms(3) by blast
qed

lemma interval_append_range_correct:
  assumes inv: "interval_inv d s" and g: "range_ok d g"
    and behind: "\<And>i j. i \<in> interval_elems s \<Longrightarrow> j \<in> range_set d g \<Longrightarrow> i \<le> j"
  shows "\<exists>s'. interval_append_range s g = Some s' \<and> interval_inv d s' \<and>
    interval_elems s' = interval_elems s \<union> range_set d g"
proof -
  note s = interval_invD [OF inv]
  from g s(2) show ?thesis
  proof (cases rule: range_cases)
    case (full start e)
    then have behind': "y \<le> start" if "y \<in> interval_elems s" for y
      using behind [of y start] that by simp
    have "interval_append_range s g = checked_set (s\<lparr>iv_map := pushed (iv_map s) start e\<rparr>)"
    proof (cases "iv_map s = []")
      case False
      then show ?thesis using full s(1) last_end [OF inv False behind']
        by (simp add: interval_append_range_def pushed_def split_beta Let_def)
    qed (use full s(1) in \<open>simp add: interval_append_range_def pushed_def\<close>)
    then show ?thesis using pushed_set [OF inv full(3,4) behind'] full(5) by simp
  qed (use s(1) inv in \<open>auto simp: interval_append_range_def\<close>)
qed

lemma interval_append_correct:
  assumes inv: "interval_inv d s" and x: "x < d" and behind: "\<And>i. i \<in> interval_elems s \<Longrightarrow> i \<le> x"
  shows "\<exists>s'. interval_append s x = Some s' \<and> interval_inv d s' \<and>
    interval_elems s' = insert x (interval_elems s)"
proof -
  have u: "as_u32 x = x" using x interval_invD(2) [OF inv] by simp
  have "interval_append s x = checked_set (s\<lparr>iv_map := pushed (iv_map s) x x\<rparr>)"
  proof (cases "iv_map s = []")
    case False
    then have "iv_map s = butlast (iv_map s) @ [(fst (last (iv_map s)), snd (last (iv_map s)))]" by simp
    then show ?thesis using u last_end [OF inv False behind] False
      by (auto simp: interval_append_def pushed_def split_beta Let_def)
  qed (use u in \<open>simp add: interval_append_def pushed_def\<close>)
  then show ?thesis using pushed_set [OF inv le_refl x behind] by auto
qed

section \<open>Matrices\<close>

definition row_elems :: "interval_matrix \<Rightarrow> nat \<Rightarrow> nat set" where
  "row_elems m row = (if row < length (mx_rows m) then interval_elems (mx_rows m ! row) else {})"

definition matrix_inv :: "nat \<Rightarrow> interval_matrix \<Rightarrow> bool" where
  "matrix_inv d m \<longleftrightarrow> mx_column_size m = d \<and> d < 2 ^ 32 \<and> list_all (interval_inv d) (mx_rows m)"

lemma ensure_row_correct:
  assumes "matrix_inv d m"
  shows "matrix_inv d (ensure_row m row)" "row < length (mx_rows (ensure_row m row))"
    "row_elems (ensure_row m row) = row_elems m" "interval_inv d (mx_rows (ensure_row m row) ! row)"
    "interval_elems (mx_rows (ensure_row m row) ! row) = row_elems m row"
proof -
  have d: "mx_column_size m = d" "d < 2 ^ 32" using assms by (auto simp: matrix_inv_def)
  show len: "row < length (mx_rows (ensure_row m row))" by (simp add: ensure_row_def)
  show inv: "matrix_inv d (ensure_row m row)"
    using assms interval_new_inv [OF d(2)] by (auto simp: matrix_inv_def ensure_row_def list_all_iff)
  show elems: "row_elems (ensure_row m row) = row_elems m"
    using interval_new_inv [OF d(2)] d(1) by (auto simp: fun_eq_iff row_elems_def ensure_row_def nth_append)
  show "interval_inv d (mx_rows (ensure_row m row) ! row)" using inv len by (simp add: matrix_inv_def list_all_length)
  show "interval_elems (mx_rows (ensure_row m row) ! row) = row_elems m row"
    using elems len by (metis row_elems_def)
qed

text \<open>An operation on one row leaves the others alone.\<close>

lemma update_row_correct:
  assumes "matrix_inv d m" "interval_inv d s"
  shows "matrix_inv d (update_row (ensure_row m row) row s)"
    "row_elems (update_row (ensure_row m row) row s) = (row_elems m)(row := interval_elems s)"
proof -
  note e = ensure_row_correct [OF assms(1), of row]
  have "interval_inv d x" if "x \<in> set ((mx_rows (ensure_row m row))[row := s])" for x
    using that e(1) assms(2) set_update_subset_insert by (fastforce simp: matrix_inv_def list_all_iff)
  then show "matrix_inv d (update_row (ensure_row m row) row s)"
    using e(1) by (simp add: matrix_inv_def update_row_def list_all_iff)
  have "row_elems (update_row (ensure_row m row) row s) = (row_elems (ensure_row m row))(row := interval_elems s)"
    using e(2) by (auto simp: fun_eq_iff row_elems_def update_row_def nth_list_update)
  then show "row_elems (update_row (ensure_row m row) row s) = (row_elems m)(row := interval_elems s)"
    by (simp add: e(3))
qed

lemma union_rows_result:
  assumes m: "matrix_inv d m"
  shows "\<exists>m' b. union_rows m src dst = Some (m', b) \<and> matrix_inv d m' \<and>
    row_elems m' = (row_elems m)(dst := row_elems m dst \<union> row_elems m src)"
proof (cases "src = dst \<or> matrix_row m src = None")
  case True
  then have "row_elems m src \<subseteq> row_elems m dst" by (auto simp: matrix_row_def row_elems_def split: if_splits)
  then have "row_elems m dst \<union> row_elems m src = row_elems m dst" by blast
  then show ?thesis using m True by (auto simp: union_rows_def)
next
  case False
  note e = ensure_row_correct [OF m, of dst]
  have len: "src < length (mx_rows (ensure_row m dst))"
    using False by (auto simp: matrix_row_def ensure_row_def split: if_splits)
  then have r: "interval_inv d (mx_rows (ensure_row m dst) ! src)"
    "interval_elems (mx_rows (ensure_row m dst) ! src) = row_elems m src"
    using e(1) arg_cong [OF e(3), of "\<lambda>f. f src"] by (auto simp: matrix_inv_def list_all_length row_elems_def)
  from interval_union_correct [OF e(4) r(1)] obtain s b
    where "interval_union (mx_rows (ensure_row m dst) ! dst) (mx_rows (ensure_row m dst) ! src) = Some (s, b)"
      "interval_inv d s" "interval_elems s = row_elems m dst \<union> row_elems m src" using e(5) r(2) by auto
  then show ?thesis using False update_row_correct [OF m, of s dst] by (auto simp: union_rows_def Let_def)
qed

section \<open>Properties\<close>



text \<open>The other operations of interval sets: two sets are reported disjoint iff they are, the first
  index of a range that is not in the set is found, and appending behind the last element adds it.\<close>

theorem interval_set_queries:
  assumes "interval_inv d s" "interval_inv d t" "range_ok d g" "x < d"
  shows "(interval_disjoint s t \<longleftrightarrow> interval_elems s \<inter> interval_elems t = {}) \<and>
    first_unset_in s g = Some (min_of (range_set d g - interval_elems s)) \<and>
    ((\<forall>i\<in>interval_elems s. i \<le> x) \<longrightarrow> (\<exists>s'. interval_append s x = Some s' \<and> interval_inv d s' \<and>
       interval_elems s' = insert x (interval_elems s))) \<and>
    ((\<forall>i\<in>interval_elems s. \<forall>j\<in>range_set d g. i \<le> j) \<longrightarrow> (\<exists>s'. interval_append_range s g = Some s' \<and>
       interval_inv d s' \<and> interval_elems s' = interval_elems s \<union> range_set d g))"
  using disjoint_loop_correct [OF iter_intervals_h(1) [OF assms(1)] iter_intervals_h(1) [OF assms(2)]]
    first_unset_in_correct [OF assms(1,3)] interval_append_correct [OF assms(1,4)]
    interval_append_range_correct [OF assms(1,3)]
  by (simp add: interval_disjoint_def iter_intervals_h)

definition ex_low :: interval_set where
  "ex_low = \<lparr>iv_map = [(1, 3)], iv_domain = 10\<rparr>"

definition ex_high :: interval_set where
  "ex_high = \<lparr>iv_map = [(5, 6)], iv_domain = 10\<rparr>"

lemma ex_sets_inv: "interval_inv 10 ex_low" "interval_inv 10 ex_high"
  "interval_elems ex_low = {1..3}" "interval_elems ex_high = {5..6}"
  by (auto simp: interval_inv_def interval_elems_def ex_low_def ex_high_def)

theorem interval_set_queries_witness:
  "interval_disjoint ex_low ex_high \<and> first_unset_in ex_low (Included 2, Included 8) = Some (Some 4) \<and>
   (\<exists>s'. interval_append ex_low 8 = Some s' \<and> interval_elems s' = {1, 2, 3, 8}) \<and>
   (\<exists>s'. interval_append_range ex_low (Included 4, Included 5) = Some s' \<and> interval_elems s' = {1..5})"
proof -
  have g: "range_ok 10 (Included 2, Included 8)" "range_ok 10 (Included 4, Included 5)"
    "range_set 10 (Included 2, Included 8) = {2..8}" "range_set 10 (Included 4, Included 5) = {4..5}"
    by (auto simp: range_ok_def range_set_def)
  have "min_of ({2..8} - {1..3}) = Some (4 :: nat)" by (rule min_of_eqI) auto
  moreover have "insert 8 {1..3 :: nat} = {1, 2, 3, 8}" "{1..3 :: nat} \<union> {4..5} = {1..5}" by auto
  ultimately show ?thesis
    using interval_set_queries [OF ex_sets_inv(1,2) g(1), of 8] interval_set_queries [OF ex_sets_inv(1,2) g(2), of 8]
    by (auto simp: ex_sets_inv g)
qed



text \<open>The rows of a sparse interval matrix are sets of columns that do not influence each other: each
  operation returns, changes its own row as the set operation does, and leaves the other rows alone;
  rows that do not exist yet are empty.\<close>

theorem interval_matrix_refines:
  assumes "matrix_inv d m" "x < d" "range_ok d g" "interval_inv d t"
  shows "(\<exists>m'. matrix_insert m row x = Some (m', x \<notin> row_elems m row) \<and> matrix_inv d m' \<and>
       row_elems m' = (row_elems m)(row := insert x (row_elems m row))) \<and>
    (\<exists>m'. matrix_insert_range m row g = Some m' \<and> matrix_inv d m' \<and>
       row_elems m' = (row_elems m)(row := row_elems m row \<union> range_set d g)) \<and>
    (\<exists>m'. insert_all_into_row m row = Some m' \<and> matrix_inv d m' \<and>
       row_elems m' = (row_elems m)(row := {..<d})) \<and>
    (\<exists>m' b. union_row m row t = Some (m', b) \<and> matrix_inv d m' \<and>
       row_elems m' = (row_elems m)(row := row_elems m row \<union> interval_elems t)) \<and>
    (\<exists>m' b. union_rows m src row = Some (m', b) \<and> matrix_inv d m' \<and>
       row_elems m' = (row_elems m)(row := row_elems m row \<union> row_elems m src)) \<and>
    matrix_contains m row x = Some (x \<in> row_elems m row)"
proof -
  note e = ensure_row_correct [OF assms(1), of row] and u = update_row_correct [OF assms(1), of _ row]
  have "matrix_contains m row x = Some (x \<in> row_elems m row)"
    using assms(1,2) interval_contains_correct [of d "mx_rows m ! row" x]
    by (auto simp: matrix_contains_def matrix_row_def row_elems_def matrix_inv_def list_all_length)
  moreover have "\<exists>m'. matrix_insert m row x = Some (m', x \<notin> row_elems m row) \<and> matrix_inv d m' \<and>
       row_elems m' = (row_elems m)(row := insert x (row_elems m row))"
    using interval_insert_correct [OF e(4) assms(2)] u unfolding e(5) by (auto simp: matrix_insert_def Let_def)
  moreover have "\<exists>m'. matrix_insert_range m row g = Some m' \<and> matrix_inv d m' \<and>
       row_elems m' = (row_elems m)(row := row_elems m row \<union> range_set d g)"
    using insert_range_correct [OF e(4) assms(3)] u unfolding e(5) by (auto simp: matrix_insert_range_def Let_def)
  moreover have "\<exists>m'. insert_all_into_row m row = Some m' \<and> matrix_inv d m' \<and>
       row_elems m' = (row_elems m)(row := {..<d})"
    using interval_insert_all_correct [OF e(4)] u by (auto simp: insert_all_into_row_def Let_def)
  moreover have "\<exists>m' b. union_row m row t = Some (m', b) \<and> matrix_inv d m' \<and>
       row_elems m' = (row_elems m)(row := row_elems m row \<union> interval_elems t)"
    using interval_union_correct [OF e(4) assms(4)] u unfolding e(5) by (auto simp: union_row_def Let_def)
  ultimately show ?thesis using union_rows_result [OF assms(1), of src row] by blast
qed

theorem interval_matrix_refines_witness:
  "\<exists>m'. matrix_insert (matrix_new 10) 2 7 = Some (m', True) \<and> row_elems m' = (\<lambda>_. {})(2 := {7})"
proof -
  have "matrix_inv 10 (matrix_new 10)" "row_elems (matrix_new 10) = (\<lambda>_. {})"
    by (auto simp: matrix_inv_def matrix_new_def row_elems_def)
  moreover have "range_ok 10 (Unbounded, Unbounded)" by (simp add: range_ok_def)
  ultimately show ?thesis
    using interval_matrix_refines [of 10 "matrix_new 10" 7 "(Unbounded, Unbounded)" ex_low 2] ex_sets_inv(1) by auto
qed

end
