(* ===== verification/Dense_Bit_Set.thy ===== *)
theory Dense_Bit_Set
  imports Index_Set
begin

unbundle bit_operations_syntax

text \<open>
  The dense bit sets of \<open>rustc_index/src/bit_set.rs\<close>: \<open>DenseBitSet\<close>, a vector of 64-bit words,
  its iterator \<open>BitIter\<close>, and \<open>GrowableBitSet\<close>, which grows with the elements inserted. A word is a \<open>64 word\<close>; indexing out of range, a failing assertion and an underflowing
  subtraction of masks are panics.
\<close>

section \<open>Words\<close>

definition WORD_BITS :: nat where
  "WORD_BITS = 64"

text \<open>The bit counting methods of \<open>u64\<close>.\<close>

definition trailing_zeros :: "u64 \<Rightarrow> nat" where
  "trailing_zeros w = length (takeWhile (\<lambda>i. \<not> bit w i) [0..<64])"

definition leading_zeros :: "u64 \<Rightarrow> nat" where
  "leading_zeros w = length (takeWhile (\<lambda>i. \<not> bit w (63 - i)) [0..<64])"

definition word_count_ones :: "u64 \<Rightarrow> nat" where
  "word_count_ones w = length (filter (bit w) [0..<64])"

definition num_words :: "nat \<Rightarrow> nat" where
  "num_words domain_size = (domain_size + (WORD_BITS - 1)) div WORD_BITS"

definition word_index_and_mask :: "nat \<Rightarrow> nat \<times> u64" where
  "word_index_and_mask elem = (elem div WORD_BITS, push_bit (elem mod WORD_BITS) 1)"

definition max_bit :: "u64 \<Rightarrow> nat" where
  "max_bit w = WORD_BITS - 1 - leading_zeros w"

definition count_ones :: "u64 list \<Rightarrow> nat" where
  "count_ones words = sum_list (map word_count_ones words)"

definition clear_excess_bits_in_final_word :: "nat \<Rightarrow> u64 list \<Rightarrow> u64 list option" where
  "clear_excess_bits_in_final_word domain_size words =
     (let num_bits_in_final_word = domain_size mod WORD_BITS in
      if num_bits_in_final_word > 0 then do {
        mask \<leftarrow> checked_sub (push_bit num_bits_in_final_word 1) 1;
        _ \<leftarrow> rust_assert (words \<noteq> []);
        Some (words[length words - 1 := last words AND mask]) }
      else Some words)"

text \<open>The masks of the indices from a bit on, up to a bit, and between two bits.\<close>

definition mask_from :: "u64 \<Rightarrow> u64 option" where
  "mask_from start_mask = do { x \<leftarrow> checked_sub start_mask 1; Some (NOT x) }"

definition mask_upto :: "u64 \<Rightarrow> u64 option" where
  "mask_upto end_mask = do { x \<leftarrow> checked_sub end_mask 1; Some (end_mask OR x) }"

definition mask_between :: "u64 \<Rightarrow> u64 \<Rightarrow> u64 option" where
  "mask_between start_mask end_mask = do { x \<leftarrow> checked_sub end_mask start_mask; Some (end_mask OR x) }"

text \<open>\<open>words[i] = w\<close> and \<open>words[i] |= m\<close>.\<close>

definition vec_set :: "nat \<Rightarrow> 'a \<Rightarrow> 'a list \<Rightarrow> 'a list option" where
  "vec_set i x xs = (if i < length xs then Some (xs[i := x]) else None)"

definition or_word :: "nat \<Rightarrow> u64 \<Rightarrow> u64 list \<Rightarrow> u64 list option" where
  "or_word i m words = do { w \<leftarrow> vec_index words i; vec_set i (w OR m) words }"

fun update_words_loop :: "(u64 \<Rightarrow> u64 \<Rightarrow> u64) \<Rightarrow> u64 \<Rightarrow> u64 list \<Rightarrow> u64 list \<Rightarrow> u64 list \<times> u64" where
  "update_words_loop op' changed (old_val # lhs) (rhs_val # rhs) =
     (let new_val = op' old_val rhs_val;
          (words, c) = update_words_loop op' (changed OR (old_val XOR new_val)) lhs rhs
      in (new_val # words, c))"
| "update_words_loop op' changed lhs rhs = (lhs, changed)"

definition update_words :: "(u64 \<Rightarrow> u64 \<Rightarrow> u64) \<Rightarrow> u64 list \<Rightarrow> u64 list \<Rightarrow> (u64 list \<times> bool) option" where
  "update_words op' lhs rhs = do {
     _ \<leftarrow> rust_assert (length lhs = length rhs);
     let (words, changed) = update_words_loop op' 0 lhs rhs;
     Some (words, changed \<noteq> 0) }"

section \<open>Dense sets\<close>

record dense_bit_set =
  db_domain_size :: nat
  db_words :: "u64 list"

definition inclusive_start_end :: "range \<Rightarrow> nat \<Rightarrow> (nat \<times> nat) option option" where
  "inclusive_start_end rng domain =
     (let start = (case fst rng of Included s \<Rightarrow> s | Excluded s \<Rightarrow> s + 1 | Unbounded \<Rightarrow> 0);
          check = (\<lambda>end'. do {
            _ \<leftarrow> rust_assert (end' < domain);
            Some (if start > end' then None else Some (start, end')) })
      in case snd rng of
           Included e \<Rightarrow> check e
         | Excluded e \<Rightarrow> if e = 0 then Some None else check (e - 1)
         | Unbounded \<Rightarrow> if domain = 0 then None else check (domain - 1))"

definition new_empty :: "nat \<Rightarrow> dense_bit_set" where
  "new_empty domain_size = \<lparr>db_domain_size = domain_size, db_words = replicate (num_words domain_size) 0\<rparr>"

definition clear_excess_bits :: "dense_bit_set \<Rightarrow> dense_bit_set option" where
  "clear_excess_bits s =
     map_option (\<lambda>ws. s\<lparr>db_words := ws\<rparr>) (clear_excess_bits_in_final_word (db_domain_size s) (db_words s))"

definition new_filled :: "nat \<Rightarrow> dense_bit_set option" where
  "new_filled domain_size =
     clear_excess_bits \<lparr>db_domain_size = domain_size, db_words = replicate (num_words domain_size) (NOT 0)\<rparr>"

definition dense_clear :: "dense_bit_set \<Rightarrow> dense_bit_set" where
  "dense_clear s = s\<lparr>db_words := replicate (length (db_words s)) 0\<rparr>"

definition dense_count :: "dense_bit_set \<Rightarrow> nat" where
  "dense_count s = count_ones (db_words s)"

definition dense_contains :: "dense_bit_set \<Rightarrow> nat \<Rightarrow> bool option" where
  "dense_contains s elem = do {
     _ \<leftarrow> rust_assert (elem < db_domain_size s);
     let (word_index, mask) = word_index_and_mask elem;
     w \<leftarrow> vec_index (db_words s) word_index;
     Some (w AND mask \<noteq> 0) }"

definition dense_superset :: "dense_bit_set \<Rightarrow> dense_bit_set \<Rightarrow> bool option" where
  "dense_superset s other = do {
     _ \<leftarrow> rust_assert (db_domain_size s = db_domain_size other);
     Some (list_all (\<lambda>(a, b). a AND b = b) (zip (db_words s) (db_words other))) }"

definition dense_is_empty :: "dense_bit_set \<Rightarrow> bool" where
  "dense_is_empty s = list_all (\<lambda>a. a = 0) (db_words s)"

definition dense_insert :: "dense_bit_set \<Rightarrow> nat \<Rightarrow> (dense_bit_set \<times> bool) option" where
  "dense_insert s elem = do {
     _ \<leftarrow> rust_assert (elem < db_domain_size s);
     let (word_index, mask) = word_index_and_mask elem;
     word \<leftarrow> vec_index (db_words s) word_index;
     let new_word = word OR mask;
     Some (s\<lparr>db_words := (db_words s)[word_index := new_word]\<rparr>, new_word \<noteq> word) }"

fun fill_words :: "nat list \<Rightarrow> u64 list \<Rightarrow> u64 list option" where
  "fill_words [] words = Some words"
| "fill_words (i # is') words = do { words' \<leftarrow> vec_set i (NOT 0) words; fill_words is' words' }"

definition insert_range_words :: "nat \<Rightarrow> nat \<Rightarrow> u64 list \<Rightarrow> u64 list option" where
  "insert_range_words start end' words =
     (let (start_word_index, start_mask) = word_index_and_mask start;
          (end_word_index, end_mask) = word_index_and_mask end' in do {
      words1 \<leftarrow> fill_words [start_word_index + 1..<end_word_index] words;
      if start_word_index \<noteq> end_word_index then do {
        m1 \<leftarrow> mask_from start_mask;
        words2 \<leftarrow> or_word start_word_index m1 words1;
        m2 \<leftarrow> mask_upto end_mask;
        or_word end_word_index m2 words2 }
      else do {
        m \<leftarrow> mask_between start_mask end_mask;
        or_word start_word_index m words1 } })"

definition dense_insert_range :: "dense_bit_set \<Rightarrow> range \<Rightarrow> dense_bit_set option" where
  "dense_insert_range s elems = do {
     r \<leftarrow> inclusive_start_end elems (db_domain_size s);
     (case r of
        None \<Rightarrow> Some s
      | Some (start, end') \<Rightarrow>
          map_option (\<lambda>ws. s\<lparr>db_words := ws\<rparr>) (insert_range_words start end' (db_words s))) }"

definition dense_insert_all :: "dense_bit_set \<Rightarrow> dense_bit_set option" where
  "dense_insert_all s = clear_excess_bits (s\<lparr>db_words := replicate (length (db_words s)) (NOT 0)\<rparr>)"

definition dense_contains_any :: "dense_bit_set \<Rightarrow> range \<Rightarrow> bool option" where
  "dense_contains_any s elems = do {
     r \<leftarrow> inclusive_start_end elems (db_domain_size s);
     (case r of
        None \<Rightarrow> Some False
      | Some (start, end') \<Rightarrow>
          let (start_word_index, start_mask) = word_index_and_mask start;
              (end_word_index, end_mask) = word_index_and_mask end' in
          if start_word_index = end_word_index then do {
            w \<leftarrow> vec_index (db_words s) start_word_index;
            m \<leftarrow> mask_between start_mask end_mask;
            Some (w AND m \<noteq> 0) }
          else do {
            w \<leftarrow> vec_index (db_words s) start_word_index;
            m \<leftarrow> mask_from start_mask;
            if w AND m \<noteq> 0 then Some True
            else if start_word_index + 1 \<le> end_word_index then do {
              _ \<leftarrow> rust_assert (end_word_index \<le> length (db_words s));
              if list_ex (\<lambda>w. w \<noteq> 0) (drop (start_word_index + 1) (take end_word_index (db_words s)))
              then Some True
              else do {
                e \<leftarrow> vec_index (db_words s) end_word_index;
                m' \<leftarrow> mask_upto end_mask;
                Some (e AND m' \<noteq> 0) } }
            else Some False }) }"

definition dense_remove :: "dense_bit_set \<Rightarrow> nat \<Rightarrow> (dense_bit_set \<times> bool) option" where
  "dense_remove s elem = do {
     _ \<leftarrow> rust_assert (elem < db_domain_size s);
     let (word_index, mask) = word_index_and_mask elem;
     word \<leftarrow> vec_index (db_words s) word_index;
     let new_word = word AND NOT mask;
     Some (s\<lparr>db_words := (db_words s)[word_index := new_word]\<rparr>, new_word \<noteq> word) }"

text \<open>The loop of \<open>first_set_at_or_after\<close>: the current word and those behind it.\<close>

fun first_set_loop :: "nat \<Rightarrow> u64 \<Rightarrow> u64 list \<Rightarrow> nat option" where
  "first_set_loop word_index word rest =
     (if word \<noteq> 0 then Some (WORD_BITS * word_index + trailing_zeros word)
      else case rest of
        [] \<Rightarrow> None
      | w # rest' \<Rightarrow> first_set_loop (word_index + 1) w rest')"

declare first_set_loop.simps [simp del]

definition first_set_at_or_after :: "dense_bit_set \<Rightarrow> nat \<Rightarrow> nat option option" where
  "first_set_at_or_after s elem = do {
     _ \<leftarrow> rust_assert (elem < db_domain_size s);
     let (word_index, mask) = word_index_and_mask elem;
     w \<leftarrow> vec_index (db_words s) word_index;
     m \<leftarrow> mask_from mask;
     Some (first_set_loop word_index (w AND m) (drop (word_index + 1) (db_words s))) }"

text \<open>\<open>Iterator::rposition\<close> on a slice.\<close>

fun rposition :: "('a \<Rightarrow> bool) \<Rightarrow> 'a list \<Rightarrow> nat option" where
  "rposition P [] = None"
| "rposition P (x # xs) =
     (case rposition P xs of Some i \<Rightarrow> Some (Suc i) | None \<Rightarrow> if P x then Some 0 else None)"

definition dense_last_set_in :: "dense_bit_set \<Rightarrow> range \<Rightarrow> nat option option" where
  "dense_last_set_in s rng = do {
     r \<leftarrow> inclusive_start_end rng (db_domain_size s);
     (case r of
        None \<Rightarrow> Some None
      | Some (start, end') \<Rightarrow>
          let (start_word_index, _) = word_index_and_mask start;
              (end_word_index, end_mask) = word_index_and_mask end' in do {
            w \<leftarrow> vec_index (db_words s) end_word_index;
            m \<leftarrow> mask_upto end_mask;
            let end_word = w AND m;
            let pos = max_bit end_word + WORD_BITS * end_word_index;
            if end_word \<noteq> 0 \<and> start \<le> pos then Some (Some pos)
            else do {
              _ \<leftarrow> rust_assert (start_word_index \<le> end_word_index \<and> end_word_index \<le> length (db_words s));
              (case rposition (\<lambda>w. w \<noteq> 0) (drop start_word_index (take end_word_index (db_words s))) of
                 None \<Rightarrow> Some None
               | Some offset \<Rightarrow> do {
                   let word_idx = start_word_index + offset;
                   start_word \<leftarrow> vec_index (db_words s) word_idx;
                   let pos = max_bit start_word + WORD_BITS * word_idx;
                   Some (if start \<le> pos then Some pos else None) }) } }) }"

definition dense_relation ::
    "(u64 \<Rightarrow> u64 \<Rightarrow> u64) \<Rightarrow> dense_bit_set \<Rightarrow> dense_bit_set \<Rightarrow> (dense_bit_set \<times> bool) option" where
  "dense_relation op' s other = do {
     _ \<leftarrow> rust_assert (db_domain_size s = db_domain_size other);
     map_option (\<lambda>(ws, changed). (s\<lparr>db_words := ws\<rparr>, changed)) (update_words op' (db_words s) (db_words other)) }"

definition dense_union :: "dense_bit_set \<Rightarrow> dense_bit_set \<Rightarrow> (dense_bit_set \<times> bool) option" where
  "dense_union = dense_relation (\<lambda>a b. a OR b)"

definition dense_subtract :: "dense_bit_set \<Rightarrow> dense_bit_set \<Rightarrow> (dense_bit_set \<times> bool) option" where
  "dense_subtract = dense_relation (\<lambda>a b. a AND NOT b)"

definition dense_intersect :: "dense_bit_set \<Rightarrow> dense_bit_set \<Rightarrow> (dense_bit_set \<times> bool) option" where
  "dense_intersect = dense_relation (\<lambda>a b. a AND b)"

definition union_not :: "dense_bit_set \<Rightarrow> dense_bit_set \<Rightarrow> dense_bit_set option" where
  "union_not s other = do {
     (s', _) \<leftarrow> dense_relation (\<lambda>a b. a OR NOT b) s other;
     clear_excess_bits s' }"

section \<open>Iteration\<close>

record bit_iter =
  it_word :: u64
  it_offset :: u64
  it_iter :: "u64 list"

definition bit_iter_new :: "u64 list \<Rightarrow> bit_iter" where
  "bit_iter_new words = \<lparr>it_word = 0, it_offset = - 1 - of_nat (WORD_BITS - 1), it_iter = words\<rparr>"

text \<open>\<open>next\<close>: the iterator moves to the next word until one has a bit set. The sum of the position and
  the offset panics when it overflows.\<close>

function bit_iter_next :: "bit_iter \<Rightarrow> (nat option \<times> bit_iter) option" where
  "bit_iter_next it =
     (if it_word it \<noteq> 0 then
        let bit_pos = trailing_zeros (it_word it) in do {
          i \<leftarrow> checked_add (of_nat bit_pos) (it_offset it);
          Some (Some (unat i), it\<lparr>it_word := it_word it XOR push_bit bit_pos 1\<rparr>) }
      else case it_iter it of
        [] \<Rightarrow> Some (None, it)
      | w # rest \<Rightarrow>
          bit_iter_next \<lparr>it_word = w, it_offset = it_offset it + of_nat WORD_BITS, it_iter = rest\<rparr>)"
  by pat_completeness auto

termination
  by (relation "measure (\<lambda>it. length (it_iter it))") auto

declare bit_iter_next.simps [simp del]

text \<open>What a loop over the iterator sees, with a bound on the number of rounds.\<close>

primrec bit_iter_collect :: "nat \<Rightarrow> bit_iter \<Rightarrow> nat list option" where
  "bit_iter_collect 0 it = None"
| "bit_iter_collect (Suc fuel) it = do {
     (x, it') \<leftarrow> bit_iter_next it;
     (case x of
        None \<Rightarrow> Some []
      | Some i \<Rightarrow> map_option (\<lambda>is'. i # is') (bit_iter_collect fuel it')) }"

definition dense_iter :: "dense_bit_set \<Rightarrow> bit_iter" where
  "dense_iter s = bit_iter_new (db_words s)"

section \<open>Growable sets\<close>

definition ensure :: "dense_bit_set \<Rightarrow> nat \<Rightarrow> dense_bit_set" where
  "ensure s min_domain_size =
     (let s1 = (if db_domain_size s < min_domain_size then s\<lparr>db_domain_size := min_domain_size\<rparr> else s);
          min_num_words = num_words min_domain_size in
      if length (db_words s1) < min_num_words then
        s1\<lparr>db_words := db_words s1 @ replicate (min_num_words - length (db_words s1)) 0\<rparr>
      else s1)"

definition growable_insert :: "dense_bit_set \<Rightarrow> nat \<Rightarrow> (dense_bit_set \<times> bool) option" where
  "growable_insert s elem = dense_insert (ensure s (elem + 1)) elem"

definition growable_remove :: "dense_bit_set \<Rightarrow> nat \<Rightarrow> (dense_bit_set \<times> bool) option" where
  "growable_remove s elem = dense_remove (ensure s (elem + 1)) elem"

definition growable_insert_range :: "dense_bit_set \<Rightarrow> nat \<Rightarrow> nat \<Rightarrow> dense_bit_set option" where
  "growable_insert_range s start end' =
     dense_insert_range (ensure s end') (Included start, Excluded end')"

definition growable_contains :: "dense_bit_set \<Rightarrow> nat \<Rightarrow> bool" where
  "growable_contains s elem =
     (let (word_index, mask) = word_index_and_mask elem in
      word_index < length (db_words s) \<and> db_words s ! word_index AND mask \<noteq> 0)"

definition growable_contains_any :: "dense_bit_set \<Rightarrow> nat \<Rightarrow> nat \<Rightarrow> bool option" where
  "growable_contains_any s start end' =
     (if start < db_domain_size s
      then dense_contains_any s (Included start, Excluded (min end' (db_domain_size s)))
      else Some False)"

end
