(* ===== verification/Chunked_Bit_Set.thy ===== *)
theory Chunked_Bit_Set
  imports Dense_Bit_Set
begin

unbundle bit_operations_syntax

text \<open>
  The chunked bit sets of \<open>rustc_index/src/bit_set.rs\<close>: \<open>ChunkedBitSet\<close>, whose chunks of 2048 bits are all zeros, all
  ones, or words with a count of their ones, and \<open>MixedBitSet\<close>, which is dense or chunked by the size of the domain.
  Sizes and counts of chunks have 16 bits. The words of a chunk are shared and copied on a write, so they are values
  here.
\<close>

section \<open>Chunks\<close>

type_synonym chunk_size = "16 word"

definition CHUNK_WORDS :: nat where "CHUNK_WORDS = 32"
definition CHUNK_BITS :: nat where "CHUNK_BITS = CHUNK_WORDS * WORD_BITS"

datatype chunk =
    Zeros chunk_size
  | Ones chunk_size
  | Mixed chunk_size chunk_size "u64 list"

definition chunk_index :: "nat \<Rightarrow> nat" where
  "chunk_index elem = elem div CHUNK_BITS"

definition chunk_word_index_and_mask :: "nat \<Rightarrow> nat \<times> u64" where
  "chunk_word_index_and_mask elem = word_index_and_mask (elem mod CHUNK_BITS)"

text \<open>\<open>words[..n]\<close>, read and written; a slice behind the end is a panic.\<close>

definition prefix_slice :: "nat \<Rightarrow> 'a list \<Rightarrow> 'a list option" where
  "prefix_slice n xs = (if n \<le> length xs then Some (take n xs) else None)"

definition set_prefix :: "'a list \<Rightarrow> 'a list \<Rightarrow> 'a list" where
  "set_prefix ys xs = ys @ drop (length ys) xs"

text \<open>\<open>as_chunks\<close>: subchunks of eight words, and the tail.\<close>

function as_chunks :: "nat \<Rightarrow> 'a list \<Rightarrow> 'a list list \<times> 'a list" where
  "as_chunks n xs =
     (if n = 0 \<or> length xs < n then ([], xs)
      else let (cs, tl) = as_chunks n (drop n xs) in (take n xs # cs, tl))"
  by pat_completeness auto

termination
  by (relation "measure (\<lambda>(_, xs). length xs)") auto

declare as_chunks.simps [simp del]

definition would_modify_subchunk :: "(u64 \<Rightarrow> u64 \<Rightarrow> u64) \<Rightarrow> u64 list \<Rightarrow> u64 list \<Rightarrow> bool" where
  "would_modify_subchunk op' lhs_chunk rhs_chunk = (snd (update_words_loop op' 0 lhs_chunk rhs_chunk) \<noteq> 0)"

definition would_modify_words :: "(u64 \<Rightarrow> u64 \<Rightarrow> u64) \<Rightarrow> u64 list \<Rightarrow> u64 list \<Rightarrow> bool option" where
  "would_modify_words op' lhs rhs = do {
     _ \<leftarrow> rust_assert (length lhs = length rhs);
     let (lhs_chunks, lhs_tail) = as_chunks 8 lhs;
     let (rhs_chunks, rhs_tail) = as_chunks 8 rhs;
     Some (list_ex (\<lambda>(l, r). would_modify_subchunk op' l r) (zip lhs_chunks rhs_chunks) \<or>
           would_modify_subchunk op' lhs_tail rhs_tail) }"

definition and_word :: "nat \<Rightarrow> u64 \<Rightarrow> u64 list \<Rightarrow> u64 list option" where
  "and_word i m words = do { w \<leftarrow> vec_index words i; vec_set i (w AND m) words }"

fun chunk_count :: "chunk \<Rightarrow> nat" where
  "chunk_count (Zeros _) = 0"
| "chunk_count (Ones n) = unat n"
| "chunk_count (Mixed _ ones_count _) = unat ones_count"

definition chunk_contains :: "chunk \<Rightarrow> nat \<Rightarrow> bool option" where
  "chunk_contains c elem =
     (case c of
        Zeros _ \<Rightarrow> Some False
      | Ones _ \<Rightarrow> Some True
      | Mixed _ _ words \<Rightarrow>
          (let (word_index, mask) = chunk_word_index_and_mask elem in
           map_option (\<lambda>w. w AND mask \<noteq> 0) (vec_index words word_index)))"

definition chunk_insert :: "chunk \<Rightarrow> nat \<Rightarrow> (chunk \<times> bool) option" where
  "chunk_insert c elem =
     (let (word_index, mask) = chunk_word_index_and_mask elem in
      case c of
        Zeros n \<Rightarrow>
          if n > 1 then do {
            words \<leftarrow> or_word word_index mask (replicate CHUNK_WORDS 0);
            Some (Mixed n 1 words, True) }
          else Some (Ones n, True)
      | Ones n \<Rightarrow> Some (c, False)
      | Mixed n ones_count words \<Rightarrow> do {
          w \<leftarrow> vec_index words word_index;
          if w AND mask = 0 then do {
            ones' \<leftarrow> checked_add ones_count 1;
            if ones' < n then do {
              words' \<leftarrow> or_word word_index mask words;
              Some (Mixed n ones' words', True) }
            else Some (Ones n, True) }
          else Some (c, False) })"

definition chunk_remove :: "chunk \<Rightarrow> nat \<Rightarrow> (chunk \<times> bool) option" where
  "chunk_remove c elem =
     (let (word_index, mask) = chunk_word_index_and_mask elem in
      case c of
        Zeros n \<Rightarrow> Some (c, False)
      | Ones n \<Rightarrow>
          if n > 1 then do {
            let used = num_words (unat n);
            _ \<leftarrow> rust_assert (used \<le> CHUNK_WORDS);
            filled \<leftarrow> clear_excess_bits_in_final_word (unat n) (replicate used (NOT 0));
            words \<leftarrow> and_word word_index (NOT mask) (set_prefix filled (replicate CHUNK_WORDS 0));
            ones_count \<leftarrow> checked_sub n 1;
            Some (Mixed n ones_count words, True) }
          else Some (Zeros n, True)
      | Mixed n ones_count words \<Rightarrow> do {
          w \<leftarrow> vec_index words word_index;
          if w AND mask \<noteq> 0 then do {
            ones' \<leftarrow> checked_sub ones_count 1;
            if ones' > 0 then do {
              words' \<leftarrow> and_word word_index (NOT mask) words;
              Some (Mixed n ones' words', True) }
            else Some (Zeros n, True) }
          else Some (c, False) })"

section \<open>Relations between chunks\<close>

text \<open>Two chunks with words: nothing if the operation would change nothing, or the result with its count.\<close>

definition mixed_relation ::
    "(u64 \<Rightarrow> u64 \<Rightarrow> u64) \<Rightarrow> (chunk_size \<Rightarrow> chunk_size \<Rightarrow> chunk option) \<Rightarrow> chunk_size \<Rightarrow> chunk_size \<Rightarrow> u64 list \<Rightarrow> u64 list \<Rightarrow>
     (chunk \<times> bool) option" where
  "mixed_relation op' full n ones_count words other_words = do {
     let used = num_words (unat n);
     mine \<leftarrow> prefix_slice used words;
     theirs \<leftarrow> prefix_slice used other_words;
     modifies \<leftarrow> would_modify_words op' mine theirs;
     if \<not> modifies then Some (Mixed n ones_count words, False)
     else do {
       (words', has_changed) \<leftarrow> update_words op' mine theirs;
       _ \<leftarrow> rust_assert has_changed;
       let ones' = of_nat (count_ones words');
       Some (case full n ones' of Some c \<Rightarrow> c | None \<Rightarrow> Mixed n ones' (set_prefix words' words), True) } }"

definition chunk_union :: "chunk \<Rightarrow> chunk \<Rightarrow> (chunk \<times> bool) option" where
  "chunk_union c other =
     (case (c, other) of
        (_, Zeros _) \<Rightarrow> Some (c, False)
      | (Ones _, _) \<Rightarrow> Some (c, False)
      | (Zeros _, _) \<Rightarrow> Some (other, True)
      | (Mixed _ _ _, Ones _) \<Rightarrow> Some (other, True)
      | (Mixed n ones_count words, Mixed _ _ other_words) \<Rightarrow> do {
          mine \<leftarrow> prefix_slice (num_words (unat n)) words;
          theirs \<leftarrow> prefix_slice (num_words (unat n)) other_words;
          if mine = theirs then Some (c, False)
          else mixed_relation (\<lambda>a b. a OR b) (\<lambda>n ones'. if ones' = n then Some (Ones n) else None) n ones_count words other_words })"

definition chunk_subtract :: "chunk \<Rightarrow> chunk \<Rightarrow> (chunk \<times> bool) option" where
  "chunk_subtract c other =
     (case (c, other) of
        (Zeros _, _) \<Rightarrow> Some (c, False)
      | (_, Zeros _) \<Rightarrow> Some (c, False)
      | (Ones n, Ones _) \<Rightarrow> Some (Zeros n, True)
      | (Mixed n _ _, Ones _) \<Rightarrow> Some (Zeros n, True)
      | (Ones n, Mixed _ other_ones other_words) \<Rightarrow> do {
          let used = num_words (unat n);
          _ \<leftarrow> rust_assert (0 < used \<and> used \<le> CHUNK_WORDS);
          theirs \<leftarrow> prefix_slice used other_words;
          inverted \<leftarrow> clear_excess_bits_in_final_word (unat n) (map (\<lambda>w. NOT w) theirs);
          ones_count \<leftarrow> checked_sub n other_ones;
          _ \<leftarrow> rust_assert (ones_count = of_nat (count_ones inverted));
          Some (Mixed n ones_count (set_prefix inverted other_words), True) }
      | (Mixed n ones_count words, Mixed _ _ other_words) \<Rightarrow>
          mixed_relation (\<lambda>a b. a AND NOT b) (\<lambda>n ones'. if ones' = 0 then Some (Zeros n) else None) n ones_count words other_words)"

definition chunk_intersect :: "chunk \<Rightarrow> chunk \<Rightarrow> (chunk \<times> bool) option" where
  "chunk_intersect c other =
     (case (c, other) of
        (Zeros _, _) \<Rightarrow> Some (c, False)
      | (_, Ones _) \<Rightarrow> Some (c, False)
      | (Ones _, _) \<Rightarrow> Some (other, True)
      | (Mixed _ _ _, Zeros _) \<Rightarrow> Some (other, True)
      | (Mixed n ones_count words, Mixed _ _ other_words) \<Rightarrow>
          mixed_relation (\<lambda>a b. a AND b) (\<lambda>n ones'. if ones' = 0 then Some (Zeros n) else None) n ones_count words other_words)"

section \<open>Chunked sets\<close>

record chunked_bit_set =
  cb_domain_size :: nat
  cb_chunks :: "chunk list"

definition chunked_new :: "nat \<Rightarrow> bool \<Rightarrow> chunked_bit_set" where
  "chunked_new domain_size is_empty =
     \<lparr>cb_domain_size = domain_size, cb_chunks =
       (if domain_size = 0 then []
        else
          let num_chunks = (domain_size + (CHUNK_BITS - 1)) div CHUNK_BITS;
              last_chunk_domain_size = (if domain_size mod CHUNK_BITS = 0 then CHUNK_BITS else domain_size mod CHUNK_BITS);
              mk = (if is_empty then Zeros else Ones) in
          (replicate num_chunks (mk (of_nat CHUNK_BITS)))[num_chunks - 1 := mk (of_nat last_chunk_domain_size)])\<rparr>"

definition chunked_new_empty :: "nat \<Rightarrow> chunked_bit_set" where
  "chunked_new_empty domain_size = chunked_new domain_size True"

definition chunked_new_filled :: "nat \<Rightarrow> chunked_bit_set" where
  "chunked_new_filled domain_size = chunked_new domain_size False"

definition chunked_clear :: "chunked_bit_set \<Rightarrow> chunked_bit_set" where
  "chunked_clear s = chunked_new_empty (cb_domain_size s)"

definition chunked_insert_all :: "chunked_bit_set \<Rightarrow> chunked_bit_set" where
  "chunked_insert_all s = chunked_new_filled (cb_domain_size s)"

definition chunked_count :: "chunked_bit_set \<Rightarrow> nat" where
  "chunked_count s = sum_list (map chunk_count (cb_chunks s))"

fun is_zeros :: "chunk \<Rightarrow> bool" where
  "is_zeros (Zeros _) = True"
| "is_zeros _ = False"

definition chunked_is_empty :: "chunked_bit_set \<Rightarrow> bool" where
  "chunked_is_empty s = list_all is_zeros (cb_chunks s)"

definition chunked_contains :: "chunked_bit_set \<Rightarrow> nat \<Rightarrow> bool option" where
  "chunked_contains s elem = do {
     _ \<leftarrow> rust_assert (elem < cb_domain_size s);
     c \<leftarrow> vec_index (cb_chunks s) (chunk_index elem);
     chunk_contains c elem }"

definition chunked_update ::
    "(chunk \<Rightarrow> nat \<Rightarrow> (chunk \<times> bool) option) \<Rightarrow> chunked_bit_set \<Rightarrow> nat \<Rightarrow> (chunked_bit_set \<times> bool) option" where
  "chunked_update f s elem = do {
     _ \<leftarrow> rust_assert (elem < cb_domain_size s);
     c \<leftarrow> vec_index (cb_chunks s) (chunk_index elem);
     (c', changed) \<leftarrow> f c elem;
     Some (s\<lparr>cb_chunks := (cb_chunks s)[chunk_index elem := c']\<rparr>, changed) }"

definition chunked_insert :: "chunked_bit_set \<Rightarrow> nat \<Rightarrow> (chunked_bit_set \<times> bool) option" where
  "chunked_insert = chunked_update chunk_insert"

definition chunked_remove :: "chunked_bit_set \<Rightarrow> nat \<Rightarrow> (chunked_bit_set \<times> bool) option" where
  "chunked_remove = chunked_update chunk_remove"

fun relate_chunks ::
    "(chunk \<Rightarrow> chunk \<Rightarrow> (chunk \<times> bool) option) \<Rightarrow> bool \<Rightarrow> chunk list \<Rightarrow> chunk list \<Rightarrow> (chunk list \<times> bool) option" where
  "relate_chunks f changed (c # cs) (d # ds) = do {
     (c', b) \<leftarrow> f c d;
     (cs', changed') \<leftarrow> relate_chunks f (changed \<or> b) cs ds;
     Some (c' # cs', changed') }"
| "relate_chunks f changed cs ds = Some (cs, changed)"

definition chunked_relation ::
    "(chunk \<Rightarrow> chunk \<Rightarrow> (chunk \<times> bool) option) \<Rightarrow> chunked_bit_set \<Rightarrow> chunked_bit_set \<Rightarrow> (chunked_bit_set \<times> bool) option" where
  "chunked_relation f s other = do {
     _ \<leftarrow> rust_assert (cb_domain_size s = cb_domain_size other);
     (cs, changed) \<leftarrow> relate_chunks f False (cb_chunks s) (cb_chunks other);
     Some (s\<lparr>cb_chunks := cs\<rparr>, changed) }"

definition chunked_union :: "chunked_bit_set \<Rightarrow> chunked_bit_set \<Rightarrow> (chunked_bit_set \<times> bool) option" where
  "chunked_union = chunked_relation chunk_union"

definition chunked_subtract :: "chunked_bit_set \<Rightarrow> chunked_bit_set \<Rightarrow> (chunked_bit_set \<times> bool) option" where
  "chunked_subtract = chunked_relation chunk_subtract"

definition chunked_intersect :: "chunked_bit_set \<Rightarrow> chunked_bit_set \<Rightarrow> (chunked_bit_set \<times> bool) option" where
  "chunked_intersect = chunked_relation chunk_intersect"

text \<open>\<open>clone_from\<close>: the set becomes a copy of another of its domain.\<close>

definition chunked_clone_from :: "chunked_bit_set \<Rightarrow> chunked_bit_set \<Rightarrow> chunked_bit_set option" where
  "chunked_clone_from s other = do {
     _ \<leftarrow> rust_assert (cb_domain_size s = cb_domain_size other);
     _ \<leftarrow> rust_assert (length (cb_chunks s) = length (cb_chunks other));
     Some (s\<lparr>cb_chunks := cb_chunks other\<rparr>) }"

definition dense_clone_from :: "dense_bit_set \<Rightarrow> dense_bit_set \<Rightarrow> dense_bit_set" where
  "dense_clone_from s other = s\<lparr>db_domain_size := db_domain_size other, db_words := db_words other\<rparr>"

section \<open>Iteration over chunks\<close>

datatype chunk_iter = Iter_Zeros | Iter_Ones nat nat | Iter_Mixed bit_iter | Iter_Finished

definition chunk_iter_at :: "chunked_bit_set \<Rightarrow> nat \<Rightarrow> chunk_iter option" where
  "chunk_iter_at s index =
     (if index < length (cb_chunks s) then
        (case cb_chunks s ! index of
           Zeros _ \<Rightarrow> Some Iter_Zeros
         | Ones n \<Rightarrow> Some (Iter_Ones 0 (unat n))
         | Mixed n _ words \<Rightarrow> do { used \<leftarrow> prefix_slice (num_words (unat n)) words; Some (Iter_Mixed (bit_iter_new used)) })
      else Some Iter_Finished)"

record chunked_bit_iter =
  ci_bit_set :: chunked_bit_set
  ci_chunk_index :: nat
  ci_chunk_iter :: chunk_iter

definition chunked_iter :: "chunked_bit_set \<Rightarrow> chunked_bit_iter option" where
  "chunked_iter s =
     map_option (\<lambda>it. \<lparr>ci_bit_set = s, ci_chunk_index = 0, ci_chunk_iter = it\<rparr>) (chunk_iter_at s 0)"

text \<open>The next offset in the current chunk, if there is one.\<close>

fun chunk_iter_next :: "chunk_iter \<Rightarrow> (nat option \<times> chunk_iter) option" where
  "chunk_iter_next (Iter_Ones start end') =
     Some (if start < end' then (Some start, Iter_Ones (start + 1) end') else (None, Iter_Ones start end'))"
| "chunk_iter_next (Iter_Mixed it) = map_option (\<lambda>(x, it'). (x, Iter_Mixed it')) (bit_iter_next it)"
| "chunk_iter_next it = Some (None, it)"

function chunked_iter_next :: "chunked_bit_iter \<Rightarrow> (nat option \<times> chunked_bit_iter) option" where
  "chunked_iter_next it =
     (if ci_chunk_iter it = Iter_Finished then Some (None, it)
      else
        (case chunk_iter_next (ci_chunk_iter it) of
           None \<Rightarrow> None
         | Some (Some i, c) \<Rightarrow> Some (Some (i + ci_chunk_index it * CHUNK_BITS), it\<lparr>ci_chunk_iter := c\<rparr>)
         | Some (None, _) \<Rightarrow>
             (case chunk_iter_at (ci_bit_set it) (ci_chunk_index it + 1) of
                None \<Rightarrow> None
              | Some c \<Rightarrow> chunked_iter_next (it\<lparr>ci_chunk_index := ci_chunk_index it + 1, ci_chunk_iter := c\<rparr>))))"
  by pat_completeness auto

termination
proof (relation "measure (\<lambda>it. if ci_chunk_iter it = Iter_Finished then 0
    else Suc (length (cb_chunks (ci_bit_set it)) - ci_chunk_index it))")
qed (auto simp: chunk_iter_at_def split: if_splits)

declare chunked_iter_next.simps [simp del]

section \<open>Mixed sets\<close>

datatype mixed_bit_set = Small dense_bit_set | Large chunked_bit_set

definition mixed_new_empty :: "nat \<Rightarrow> mixed_bit_set" where
  "mixed_new_empty domain_size =
     (if domain_size \<le> CHUNK_BITS then Small (new_empty domain_size) else Large (chunked_new_empty domain_size))"

fun mixed_is_empty :: "mixed_bit_set \<Rightarrow> bool" where
  "mixed_is_empty (Small s) = dense_is_empty s"
| "mixed_is_empty (Large s) = chunked_is_empty s"

fun mixed_contains :: "mixed_bit_set \<Rightarrow> nat \<Rightarrow> bool option" where
  "mixed_contains (Small s) elem = dense_contains s elem"
| "mixed_contains (Large s) elem = chunked_contains s elem"

fun mixed_insert :: "mixed_bit_set \<Rightarrow> nat \<Rightarrow> (mixed_bit_set \<times> bool) option" where
  "mixed_insert (Small s) elem = map_option (map_prod Small id) (dense_insert s elem)"
| "mixed_insert (Large s) elem = map_option (map_prod Large id) (chunked_insert s elem)"

fun mixed_remove :: "mixed_bit_set \<Rightarrow> nat \<Rightarrow> (mixed_bit_set \<times> bool) option" where
  "mixed_remove (Small s) elem = map_option (map_prod Small id) (dense_remove s elem)"
| "mixed_remove (Large s) elem = map_option (map_prod Large id) (chunked_remove s elem)"

fun mixed_insert_all :: "mixed_bit_set \<Rightarrow> mixed_bit_set option" where
  "mixed_insert_all (Small s) = map_option Small (dense_insert_all s)"
| "mixed_insert_all (Large s) = Some (Large (chunked_insert_all s))"

fun mixed_clear :: "mixed_bit_set \<Rightarrow> mixed_bit_set" where
  "mixed_clear (Small s) = Small (dense_clear s)"
| "mixed_clear (Large s) = Large (chunked_clear s)"

text \<open>Sets of different kinds do not mix: their domains differ.\<close>

fun mixed_union :: "mixed_bit_set \<Rightarrow> mixed_bit_set \<Rightarrow> (mixed_bit_set \<times> bool) option" where
  "mixed_union (Small s) (Small t) = map_option (map_prod Small id) (dense_union s t)"
| "mixed_union (Large s) (Large t) = map_option (map_prod Large id) (chunked_union s t)"
| "mixed_union _ _ = None"

fun mixed_subtract :: "mixed_bit_set \<Rightarrow> mixed_bit_set \<Rightarrow> (mixed_bit_set \<times> bool) option" where
  "mixed_subtract (Small s) (Small t) = map_option (map_prod Small id) (dense_subtract s t)"
| "mixed_subtract (Large s) (Large t) = map_option (map_prod Large id) (chunked_subtract s t)"
| "mixed_subtract _ _ = None"

text \<open>\<open>intersect\<close> is not implemented: it always panics.\<close>

definition mixed_intersect :: "mixed_bit_set \<Rightarrow> mixed_bit_set \<Rightarrow> (mixed_bit_set \<times> bool) option" where
  "mixed_intersect s other = None"

fun mixed_clone_from :: "mixed_bit_set \<Rightarrow> mixed_bit_set \<Rightarrow> mixed_bit_set option" where
  "mixed_clone_from (Small s) (Small t) = Some (Small (dense_clone_from s t))"
| "mixed_clone_from (Large s) (Large t) = map_option Large (chunked_clone_from s t)"
| "mixed_clone_from _ _ = None"

datatype mixed_bit_iter = Small_Iter bit_iter | Large_Iter chunked_bit_iter

fun mixed_iter :: "mixed_bit_set \<Rightarrow> mixed_bit_iter option" where
  "mixed_iter (Small s) = Some (Small_Iter (dense_iter s))"
| "mixed_iter (Large s) = map_option Large_Iter (chunked_iter s)"

fun mixed_iter_next :: "mixed_bit_iter \<Rightarrow> (nat option \<times> mixed_bit_iter) option" where
  "mixed_iter_next (Small_Iter it) = map_option (map_prod id Small_Iter) (bit_iter_next it)"
| "mixed_iter_next (Large_Iter it) = map_option (map_prod id Large_Iter) (chunked_iter_next it)"

end
