(* ===== verification/Dense_Props.thy ===== *)
theory Dense_Props
  imports Dense_Bit_Set
begin

unbundle bit_operations_syntax

text \<open>
  Dense bit sets implement sets of indices. The elements are the positions of the bits that are set;
  the invariant says that there are as many words as the domain needs and that no bit behind the
  domain is set.
\<close>

section \<open>Masks\<close>

lemma bit_one_mask [simp]: "k < 64 \<Longrightarrow> bit (2 ^ k :: u64) i \<longleftrightarrow> i = k"
  by (auto simp: bit_exp_iff)

lemma u64_eqI: "(\<And>i. i < 64 \<Longrightarrow> bit a i \<longleftrightarrow> bit b i) \<Longrightarrow> a = (b :: u64)"
  by (rule bit_word_eqI) simp

lemma u64_eq_iff: "a = (b :: u64) \<longleftrightarrow> (\<forall>i<64. bit a i \<longleftrightarrow> bit b i)"
  using u64_eqI by blast

lemma and_mask_zero: "k < 64 \<Longrightarrow> (w :: u64) AND 2 ^ k = 0 \<longleftrightarrow> \<not> bit w k"
  by (auto simp: u64_eq_iff bit_and_iff)

lemma unat_exp: "k < 64 \<Longrightarrow> unat (2 ^ k :: u64) = 2 ^ k"
  using unat_of_nat_less [of "2 ^ k", where 'a = 64] power_strict_increasing [of k 64 "2 :: nat"] by simp

lemma exp_sub_one: "k < 64 \<Longrightarrow> checked_sub (2 ^ k :: u64) 1 = Some (mask k)"
  by (simp add: checked_sub_def word_le_nat_alt unat_exp mask_eq_exp_minus_1)

lemma mask_from_bits: "k < 64 \<Longrightarrow> \<exists>m. mask_from (push_bit k 1) = Some m \<and> (\<forall>i<64. bit m i \<longleftrightarrow> k \<le> i)"
  by (auto simp: mask_from_def exp_sub_one bit_not_iff bit_mask_iff)

lemma mask_upto_bits: "k < 64 \<Longrightarrow> \<exists>m. mask_upto (push_bit k 1) = Some m \<and> (\<forall>i<64. bit m i \<longleftrightarrow> i \<le> k)"
  by (auto simp: mask_upto_def exp_sub_one bit_or_iff bit_mask_iff)

lemma mask_between_bits:
  assumes "a \<le> b" "b < 64"
  shows "\<exists>m. mask_between (push_bit a 1) (push_bit b 1) = Some m \<and> (\<forall>i<64. bit m i \<longleftrightarrow> a \<le> i \<and> i \<le> b)"
proof -
  have le: "(2 ^ a :: u64) \<le> 2 ^ b"
    using assms by (simp add: word_le_nat_alt unat_exp)
  have "(2 ^ b - 2 ^ a :: u64) = push_bit a (mask (b - a))"
    using assms by (simp add: push_bit_eq_mult mask_eq_exp_minus_1 algebra_simps flip: power_add)
  then show ?thesis using le assms
    by (auto simp: mask_between_def checked_sub_def bit_or_iff bit_push_bit_iff bit_mask_iff)
qed

section \<open>Counting bits\<close>

lemma word_nonzero: "w \<noteq> (0 :: u64) \<longleftrightarrow> (\<exists>i<64. bit w i)"
  by (auto simp: bit_eq_iff dest: bit_imp_le_length)

lemma takeWhile_first:
  assumes "i < n" "P i"
  defines "k \<equiv> length (takeWhile (\<lambda>i. \<not> P i) [0..<n])"
  shows "k < n" "P k" "\<And>j. j < k \<Longrightarrow> \<not> P j"
proof -
  have "k \<noteq> n" using assms(1,2) unfolding k_def
    by (metis atLeastLessThan_iff length_upt minus_nat.diff_0 set_upt takeWhile_eq_all_conv takeWhile_eq_take take_all_iff order.refl zero_le)
  moreover have "k \<le> n" unfolding k_def using length_takeWhile_le [of _ "[0..<n]"] by simp
  ultimately show k: "k < n" by simp
  then show "P k" using nth_length_takeWhile [of "\<lambda>i. \<not> P i" "[0..<n]"] by (simp add: k_def)
  show "\<not> P j" if "j < k" for j
    using nth_mem [of j "takeWhile (\<lambda>i. \<not> P i) [0..<n]"] takeWhile_nth [of j "\<lambda>i. \<not> P i" "[0..<n]"] that k
    by (auto simp: k_def dest: set_takeWhileD)
qed

lemma trailing_zeros_first:
  assumes "w \<noteq> 0"
  shows "trailing_zeros w < 64" "bit w (trailing_zeros w)" "\<And>j. j < trailing_zeros w \<Longrightarrow> \<not> bit w j"
proof -
  obtain i where "i < 64" "bit w i" using assms word_nonzero by blast
  from takeWhile_first [of i 64 "bit w", OF this]
  show "trailing_zeros w < 64" "bit w (trailing_zeros w)" "\<And>j. j < trailing_zeros w \<Longrightarrow> \<not> bit w j"
    by (simp_all add: trailing_zeros_def)
qed

lemma max_bit_last:
  assumes "w \<noteq> 0"
  shows "max_bit w < 64" "bit w (max_bit w)" "\<And>j. bit w j \<Longrightarrow> j \<le> max_bit w"
proof -
  obtain i where i: "i < 64" "bit w i" using assms word_nonzero by blast
  then have "63 - i < 64" "bit w (63 - (63 - i))" by simp_all
  note l = takeWhile_first [of "63 - i" 64 "\<lambda>i. bit w (63 - i)", OF this, folded leading_zeros_def]
  show "max_bit w < 64" "bit w (max_bit w)" using l(1,2) by (simp_all add: max_bit_def WORD_BITS_def)
  show "j \<le> max_bit w" if "bit w j" for j
  proof (rule ccontr)
    assume "\<not> j \<le> max_bit w"
    moreover have "j < 64" using bit_imp_le_length [OF that] by simp
    ultimately have "63 - j < leading_zeros w" using l(1) by (simp add: max_bit_def WORD_BITS_def)
    from l(3) [OF this] \<open>j < 64\<close> that show False by simp
  qed
qed

section \<open>Elements\<close>

definition bits :: "u64 list \<Rightarrow> nat set" where
  "bits ws = {i. i div 64 < length ws \<and> bit (ws ! (i div 64)) (i mod 64)}"

definition dense_elems :: "dense_bit_set \<Rightarrow> nat set" where
  "dense_elems s = bits (db_words s)"

definition dense_inv :: "nat \<Rightarrow> dense_bit_set \<Rightarrow> bool" where
  "dense_inv d s \<longleftrightarrow> db_domain_size s = d \<and> length (db_words s) = num_words d \<and> dense_elems s \<subseteq> {..<d}"

lemma dense_invD:
  assumes "dense_inv d s"
  shows "db_domain_size s = d" "length (db_words s) = num_words d" "bits (db_words s) \<subseteq> {..<d}"
  using assms by (auto simp: dense_inv_def dense_elems_def)

lemma index_word: "i < d \<Longrightarrow> i div 64 < num_words d"
  unfolding num_words_def WORD_BITS_def by simp

lemma word_index_and_mask_eq [simp]: "word_index_and_mask i = (i div 64, 2 ^ (i mod 64))"
  by (simp add: word_index_and_mask_def WORD_BITS_def)

lemma mem_bits_update:
  "k < length ws \<Longrightarrow> i \<in> bits (ws[k := w]) \<longleftrightarrow> (if i div 64 = k then bit w (i mod 64) else i \<in> bits ws)"
  by (auto simp: bits_def nth_list_update)

lemma mem_bits: "i div 64 < length ws \<Longrightarrow> i \<in> bits ws \<longleftrightarrow> bit (ws ! (i div 64)) (i mod 64)"
  by (simp add: bits_def)

lemma bits_replicate: "bits (replicate n 0) = {}" "bits (replicate n (NOT 0)) = {i. i div 64 < n}"
  by (auto simp: bits_def bit_not_iff)

lemma dense_inv_update:
  assumes "dense_inv d s" "length ws = length (db_words s)" "bits ws \<subseteq> {..<d}"
  shows "dense_inv d (s\<lparr>db_words := ws\<rparr>)" "dense_elems (s\<lparr>db_words := ws\<rparr>) = bits ws"
  using assms by (simp_all add: dense_inv_def dense_elems_def)

lemma le_iff_div_mod: "(a :: nat) \<le> b \<longleftrightarrow> a div 64 < b div 64 \<or> a div 64 = b div 64 \<and> a mod 64 \<le> b mod 64"
proof -
  have "a = 64 * (a div 64) + a mod 64" "b = 64 * (b div 64) + b mod 64" "a mod 64 < 64" "b mod 64 < 64" by simp_all
  then show ?thesis by linarith
qed

lemma lex_between: "(a :: nat) < e \<Longrightarrow>
    (a < x \<or> a = x \<and> P) \<and> (x < e \<or> x = e \<and> Q) \<longleftrightarrow> x = a \<and> P \<or> a < x \<and> x < e \<or> x = e \<and> Q"
  by auto

lemma div_mod_eqI: "a div 64 = b div 64 \<Longrightarrow> a mod 64 = b mod 64 \<Longrightarrow> a = (b :: nat)"
  by (metis div_mult_mod_eq)

text \<open>Words are equal when they hold the same elements.\<close>

lemma bits_eq_iff: "length ws = length vs \<Longrightarrow> bits ws = bits vs \<longleftrightarrow> ws = vs"
proof
  assume len: "length ws = length vs" and eq: "bits ws = bits vs"
  have "ws ! k = vs ! k" if k: "k < length ws" for k
  proof (rule u64_eqI)
    fix i :: nat assume "i < 64"
    then have "64 * k + i \<in> bits ws \<longleftrightarrow> bit (ws ! k) i" "64 * k + i \<in> bits vs \<longleftrightarrow> bit (vs ! k) i"
      using k len by (simp_all add: bits_def)
    then show "bit (ws ! k) i \<longleftrightarrow> bit (vs ! k) i" using eq by simp
  qed
  then show "ws = vs" using len by (simp add: nth_equalityI)
qed simp

section \<open>Elements one by one\<close>

lemma dense_contains_correct:
  assumes "dense_inv d s" "x < d"
  shows "dense_contains s x = Some (x \<in> dense_elems s)"
  using dense_invD [OF assms(1)] index_word [OF assms(2)] assms(2)
  by (simp add: dense_contains_def dense_elems_def mem_bits and_mask_zero)

lemma dense_insert_correct:
  assumes inv: "dense_inv d s" and x: "x < d"
  shows "\<exists>s'. dense_insert s x = Some (s', x \<notin> dense_elems s) \<and> dense_inv d s' \<and>
    dense_elems s' = insert x (dense_elems s)"
proof -
  note s = dense_invD [OF inv]
  define ws where "ws = (db_words s)[x div 64 := db_words s ! (x div 64) OR 2 ^ (x mod 64)]"
  have k: "x div 64 < length (db_words s)" using index_word [OF x] s by simp
  have ws: "bits ws = insert x (bits (db_words s))"
    using k by (auto simp: ws_def mem_bits_update mem_bits bit_or_iff split: if_splits intro: div_mod_eqI)
  then have "bits ws \<subseteq> {..<d}" using s(3) x by auto
  note ws' = dense_inv_update [OF inv _ this]
  have "db_words s ! (x div 64) OR 2 ^ (x mod 64) \<noteq> db_words s ! (x div 64) \<longleftrightarrow> x \<notin> dense_elems s"
    using k by (auto simp: dense_elems_def mem_bits u64_eq_iff bit_or_iff intro!: exI [of _ "x mod 64"])
  then show ?thesis using s x k ws ws' by (simp add: dense_insert_def ws_def dense_elems_def)
qed

lemma dense_remove_correct:
  assumes inv: "dense_inv d s" and x: "x < d"
  shows "\<exists>s'. dense_remove s x = Some (s', x \<in> dense_elems s) \<and> dense_inv d s' \<and>
    dense_elems s' = dense_elems s - {x}"
proof -
  note s = dense_invD [OF inv]
  define ws where "ws = (db_words s)[x div 64 := db_words s ! (x div 64) AND NOT (2 ^ (x mod 64))]"
  have k: "x div 64 < length (db_words s)" using index_word [OF x] s by simp
  have ws: "bits ws = bits (db_words s) - {x}"
    using k by (auto simp: ws_def mem_bits_update mem_bits bit_and_iff bit_not_iff split: if_splits dest: div_mod_eqI)
  then have "bits ws \<subseteq> {..<d}" using s(3) by auto
  note ws' = dense_inv_update [OF inv _ this]
  have "db_words s ! (x div 64) AND NOT (2 ^ (x mod 64)) \<noteq> db_words s ! (x div 64) \<longleftrightarrow> x \<in> dense_elems s"
    using k by (auto simp: dense_elems_def mem_bits u64_eq_iff bit_and_iff bit_not_iff intro!: exI [of _ "x mod 64"])
  then show ?thesis using s x k ws ws' by (simp add: dense_remove_def ws_def dense_elems_def)
qed

section \<open>Ranges\<close>

lemma start_end_cases:
  assumes "range_ok d g"
  obtains (empty) "inclusive_start_end g d = Some None" "range_set d g = {}"
  | (full) s e where "inclusive_start_end g d = Some (Some (s, e))" "s \<le> e" "e < d" "range_set d g = {s..e}"
proof -
  define s where "s = (case fst g of Included s \<Rightarrow> s | Excluded s \<Rightarrow> s + 1 | Unbounded \<Rightarrow> 0)"
  have s: "\<And>i. above (fst g) i \<longleftrightarrow> s \<le> i" by (auto simp: s_def split: bound.split)
  define n where "n = (case snd g of Included e \<Rightarrow> e + 1 | Excluded e \<Rightarrow> e | Unbounded \<Rightarrow> d)"
  have n: "n \<le> d" "\<And>i. i < d \<Longrightarrow> below (snd g) i \<longleftrightarrow> i < n"
    using assms by (auto simp: n_def range_ok_def split: bound.splits)
  have e: "inclusive_start_end g d = Some (if n = 0 \<or> s > n - 1 then None else Some (s, n - 1))"
    using assms by (auto simp: s_def n_def inclusive_start_end_def range_ok_def Let_def rust_assert_def split: bound.splits)
  have r: "range_set d g = {i. s \<le> i \<and> i < n}" using s n by (auto simp: range_set_def)
  show thesis
  proof (cases "n = 0 \<or> s > n - 1")
    case True
    then have "range_set d g = {}" unfolding r by auto
    then show ?thesis using empty e True by simp
  next
    case False
    then have "{i. s \<le> i \<and> i < n} = {s..n - 1}" "n - 1 < d" using n(1) by auto
    then show ?thesis using full [of s "n - 1"] False e r by simp
  qed
qed

lemma fill_words_correct:
  assumes "\<forall>i\<in>set is'. i < length ws"
  shows "\<exists>vs. fill_words is' ws = Some vs \<and> length vs = length ws \<and>
    (\<forall>i. i \<in> bits vs \<longleftrightarrow> i \<in> bits ws \<or> i div 64 \<in> set is')"
  using assms
proof (induction is' arbitrary: ws)
  case (Cons k is')
  then have k: "k < length ws" by simp
  obtain vs where "fill_words is' (ws[k := NOT 0]) = Some vs" "length vs = length ws"
    "\<forall>i. i \<in> bits vs \<longleftrightarrow> i \<in> bits (ws[k := NOT 0]) \<or> i div 64 \<in> set is'"
    using Cons.IH [of "ws[k := NOT 0]"] Cons.prems by auto
  then show ?case using k by (auto simp: vec_set_def mem_bits_update bit_not_iff)
qed simp

lemma or_word_correct:
  assumes "k < length ws" "\<forall>i<64. bit m i \<longleftrightarrow> P i"
  shows "\<exists>vs. or_word k m ws = Some vs \<and> length vs = length ws \<and>
    (\<forall>i. i \<in> bits vs \<longleftrightarrow> i \<in> bits ws \<or> i div 64 = k \<and> P (i mod 64))"
  using assms by (auto simp: or_word_def vec_set_def mem_bits_update mem_bits bit_or_iff)

lemma insert_range_words_correct:
  assumes le: "start \<le> end'" and len: "end' div 64 < length ws"
  shows "\<exists>vs. insert_range_words start end' ws = Some vs \<and> length vs = length ws \<and>
    bits vs = bits ws \<union> {start..end'}"
proof -
  let ?s = "start div 64" and ?e = "end' div 64"
  have se: "?s \<le> ?e" using le by (rule div_le_mono)
  obtain ws1 where ws1: "fill_words [?s + 1..<?e] ws = Some ws1" "length ws1 = length ws"
    "\<And>i. i \<in> bits ws1 \<longleftrightarrow> i \<in> bits ws \<or> ?s < i div 64 \<and> i div 64 < ?e"
    using fill_words_correct [of "[?s + 1..<?e]" ws] len by (auto simp: Suc_le_eq)
  show ?thesis
  proof (cases "?s = ?e")
    case True
    then have "start mod 64 \<le> end' mod 64" using le by (simp add: le_iff_div_mod [of start])
    then obtain m where m: "mask_between (2 ^ (start mod 64)) (2 ^ (end' mod 64)) = Some m"
      "\<forall>i<64. bit m i \<longleftrightarrow> start mod 64 \<le> i \<and> i \<le> end' mod 64"
      using mask_between_bits [of "start mod 64" "end' mod 64"] by auto
    with or_word_correct [of ?s ws1, OF _ m(2)] ws1 True len show ?thesis
      by (auto simp: insert_range_words_def le_iff_div_mod [of start] le_iff_div_mod [of _ end'])
  next
    case False
    obtain m1 m2 where m: "mask_from (2 ^ (start mod 64)) = Some m1" "\<forall>i<64. bit m1 i \<longleftrightarrow> start mod 64 \<le> i"
      "mask_upto (2 ^ (end' mod 64)) = Some m2" "\<forall>i<64. bit m2 i \<longleftrightarrow> i \<le> end' mod 64"
      using mask_from_bits [of "start mod 64"] mask_upto_bits [of "end' mod 64"] by auto
    obtain ws2 where ws2: "or_word ?s m1 ws1 = Some ws2" "length ws2 = length ws"
      "\<And>i. i \<in> bits ws2 \<longleftrightarrow> i \<in> bits ws1 \<or> i div 64 = ?s \<and> start mod 64 \<le> i mod 64"
      using or_word_correct [of ?s ws1, OF _ m(2)] ws1(2) len se by auto
    obtain ws3 where ws3: "or_word ?e m2 ws2 = Some ws3" "length ws3 = length ws"
      "\<And>i. i \<in> bits ws3 \<longleftrightarrow> i \<in> bits ws2 \<or> i div 64 = ?e \<and> i mod 64 \<le> end' mod 64"
      using or_word_correct [of ?e ws2, OF _ m(4)] ws2(2) len by auto
    have "bits ws3 = bits ws \<union> {start..end'}"
      using False se by (auto simp: ws1(3) ws2(3) ws3(3) le_iff_div_mod [of start] le_iff_div_mod [of _ end'])
    then show ?thesis using False ws1(1) ws2(1) ws3(1,2) m(1,3) by (simp add: insert_range_words_def)
  qed
qed

lemma dense_insert_range_correct:
  assumes inv: "dense_inv d s" and g: "range_ok d g"
  shows "\<exists>s'. dense_insert_range s g = Some s' \<and> dense_inv d s' \<and> dense_elems s' = dense_elems s \<union> range_set d g"
proof -
  note s = dense_invD [OF inv]
  from g show ?thesis
  proof (cases rule: start_end_cases)
    case (full a e)
    have "e div 64 < length (db_words s)" using index_word [OF full(3)] s(2) by simp
    from insert_range_words_correct [OF full(2) this] obtain ws
      where ws: "insert_range_words a e (db_words s) = Some ws" "length ws = length (db_words s)"
        "bits ws = bits (db_words s) \<union> {a..e}" by blast
    have "bits ws \<subseteq> {..<d}" using ws(3) s(3) full(3) by auto
    from dense_inv_update [OF inv ws(2) this] show ?thesis
      using ws full s(1) by (simp add: dense_insert_range_def dense_elems_def)
  qed (use inv s in \<open>simp add: dense_insert_range_def\<close>)
qed

section \<open>Searches\<close>

lemma and_nonzero: "(w :: u64) AND m \<noteq> 0 \<longleftrightarrow> (\<exists>i<64. bit w i \<and> bit m i)"
  by (auto simp: u64_eq_iff bit_and_iff)

lemma word_any:
  assumes "k < length ws"
  shows "(\<exists>i<64. bit (ws ! k) i \<and> P i) \<longleftrightarrow> (\<exists>x\<in>bits ws. x div 64 = k \<and> P (x mod 64))"
proof
  assume "\<exists>i<64. bit (ws ! k) i \<and> P i"
  then obtain i where "i < 64" "bit (ws ! k) i" "P i" by blast
  then have "64 * k + i \<in> bits ws" "(64 * k + i) div 64 = k" "(64 * k + i) mod 64 = i"
    using assms by (simp_all add: bits_def)
  then show "\<exists>x\<in>bits ws. x div 64 = k \<and> P (x mod 64)" using \<open>P i\<close> by metis
next
  assume "\<exists>x\<in>bits ws. x div 64 = k \<and> P (x mod 64)"
  then obtain x where "x \<in> bits ws" "x div 64 = k" "P (x mod 64)" by blast
  then show "\<exists>i<64. bit (ws ! k) i \<and> P i" by (intro exI [of _ "x mod 64"]) (auto simp: bits_def)
qed

lemma words_any:
  assumes "b \<le> length ws"
  shows "list_ex (\<lambda>w. w \<noteq> 0) (drop a (take b ws)) \<longleftrightarrow> (\<exists>x\<in>bits ws. a \<le> x div 64 \<and> x div 64 < b)"
proof -
  have "list_ex (\<lambda>w. w \<noteq> 0) (drop a (take b ws)) \<longleftrightarrow> (\<exists>k. a \<le> k \<and> k < b \<and> ws ! k \<noteq> 0)"
  proof
    assume "\<exists>k. a \<le> k \<and> k < b \<and> ws ! k \<noteq> 0"
    then obtain k where "a \<le> k" "k < b" "ws ! k \<noteq> 0" by blast
    then show "list_ex (\<lambda>w. w \<noteq> 0) (drop a (take b ws))"
      using assms by (auto simp: list_ex_length intro!: exI [of _ "k - a"])
  next
    assume "list_ex (\<lambda>w. w \<noteq> 0) (drop a (take b ws))"
    then obtain n where "n < b - a" "ws ! (a + n) \<noteq> 0" using assms by (auto simp: list_ex_length)
    then show "\<exists>k. a \<le> k \<and> k < b \<and> ws ! k \<noteq> 0" by (intro exI [of _ "a + n"]) simp
  qed
  also have "\<dots> \<longleftrightarrow> (\<exists>x\<in>bits ws. a \<le> x div 64 \<and> x div 64 < b)"
  proof -
    have "ws ! k \<noteq> 0 \<longleftrightarrow> (\<exists>x\<in>bits ws. x div 64 = k)" if "k < b" for k
      using word_any [of k ws "\<lambda>_. True"] assms that by (simp add: word_nonzero)
    then show ?thesis by blast
  qed
  finally show ?thesis .
qed

lemma dense_contains_any_correct:
  assumes inv: "dense_inv d s" and g: "range_ok d g"
  shows "dense_contains_any s g = Some (dense_elems s \<inter> range_set d g \<noteq> {})"
proof -
  note s = dense_invD [OF inv]
  from g show ?thesis
  proof (cases rule: start_end_cases)
    case (full a e)
    let ?a = "a div 64" and ?e = "e div 64"
    have len: "?e < length (db_words s)" using index_word [OF full(3)] s(2) by simp
    have ae: "?a \<le> ?e" using full(2) by (rule div_le_mono)
    obtain m1 m2 where m: "mask_from (2 ^ (a mod 64)) = Some m1" "\<forall>i<64. bit m1 i \<longleftrightarrow> a mod 64 \<le> i"
      "mask_upto (2 ^ (e mod 64)) = Some m2" "\<forall>i<64. bit m2 i \<longleftrightarrow> i \<le> e mod 64"
      using mask_from_bits [of "a mod 64"] mask_upto_bits [of "e mod 64"] by auto
    have range: "dense_elems s \<inter> range_set d g \<noteq> {} \<longleftrightarrow> (\<exists>x\<in>bits (db_words s). a \<le> x \<and> x \<le> e)"
      by (auto simp: full(4) dense_elems_def)
    show ?thesis
    proof (cases "?a = ?e")
      case True
      then have "a mod 64 \<le> e mod 64" using full(2) by (simp add: le_iff_div_mod [of a])
      then obtain m where m: "mask_between (2 ^ (a mod 64)) (2 ^ (e mod 64)) = Some m"
        "\<forall>i<64. bit m i \<longleftrightarrow> a mod 64 \<le> i \<and> i \<le> e mod 64"
        using mask_between_bits [of "a mod 64" "e mod 64"] by auto
      have "db_words s ! ?a AND m \<noteq> 0 \<longleftrightarrow> (\<exists>i<64. bit (db_words s ! ?a) i \<and> (a mod 64 \<le> i \<and> i \<le> e mod 64))"
        using m(2) by (auto simp: and_nonzero)
      also have "\<dots> \<longleftrightarrow> dense_elems s \<inter> range_set d g \<noteq> {}"
      proof -
        have "a \<le> x \<and> x \<le> e \<longleftrightarrow> x div 64 = ?a \<and> a mod 64 \<le> x mod 64 \<and> x mod 64 \<le> e mod 64" for x
          using True by (auto simp: le_iff_div_mod [of a] le_iff_div_mod [of _ e])
        then show ?thesis using True len unfolding range by (subst word_any) simp_all
      qed
      finally show ?thesis using full(1) s(1) True len m(1) by (simp add: dense_contains_any_def)
    next
      case False
      have first: "db_words s ! ?a AND m1 \<noteq> 0 \<longleftrightarrow> (\<exists>x\<in>bits (db_words s). x div 64 = ?a \<and> a mod 64 \<le> x mod 64)"
        using m(2) word_any [of ?a "db_words s" "\<lambda>i. a mod 64 \<le> i"] ae len by (auto simp: and_nonzero)
      have last: "db_words s ! ?e AND m2 \<noteq> 0 \<longleftrightarrow> (\<exists>x\<in>bits (db_words s). x div 64 = ?e \<and> x mod 64 \<le> e mod 64)"
        using m(4) word_any [of ?e "db_words s" "\<lambda>i. i \<le> e mod 64"] len by (auto simp: and_nonzero)
      have mid: "list_ex (\<lambda>w. w \<noteq> 0) (drop (?a + 1) (take ?e (db_words s))) \<longleftrightarrow>
          (\<exists>x\<in>bits (db_words s). ?a < x div 64 \<and> x div 64 < ?e)"
        using words_any [of ?e "db_words s" "?a + 1"] len by (simp add: Suc_le_eq)
      have "dense_contains_any s g = Some (db_words s ! ?a AND m1 \<noteq> 0 \<or>
          list_ex (\<lambda>w. w \<noteq> 0) (drop (?a + 1) (take ?e (db_words s))) \<or> db_words s ! ?e AND m2 \<noteq> 0)"
        using full(1) s(1) False ae len m(1,3) by (simp add: dense_contains_any_def)
      moreover have "a \<le> x \<and> x \<le> e \<longleftrightarrow> x div 64 = ?a \<and> a mod 64 \<le> x mod 64 \<or>
          ?a < x div 64 \<and> x div 64 < ?e \<or> x div 64 = ?e \<and> x mod 64 \<le> e mod 64" for x
        using False ae unfolding le_iff_div_mod [of a] le_iff_div_mod [of _ e] by (intro lex_between) simp
      ultimately show ?thesis unfolding first mid last range by (simp add: bex_disj_distrib)
    qed
  qed (use s(1) in \<open>simp add: dense_contains_any_def\<close>)
qed

lemma bits_Cons: "bits (v # vs) = {i. i < 64 \<and> bit v i} \<union> (\<lambda>i. 64 + i) ` bits vs" (is "_ = ?r")
proof (rule set_eqI)
  fix i show "i \<in> bits (v # vs) \<longleftrightarrow> i \<in> ?r"
  proof (cases "i < 64")
    case False
    then obtain j where j: "i = 64 + j" by (metis le_iff_add not_less)
    then have "i div 64 = Suc (j div 64)" by simp
    then show ?thesis using j by (auto simp: bits_def)
  qed (auto simp: bits_def)
qed

lemma first_set_loop_correct:
  "first_set_loop k w rest = min_of ((\<lambda>i. 64 * k + i) ` {i. i < 64 \<and> bit w i} \<union> (\<lambda>i. 64 * (k + 1) + i) ` bits rest)"
proof (induction k w rest rule: first_set_loop.induct)
  case (1 k w rest)
  show ?case
  proof (cases "w = 0")
    case True
    show ?thesis
    proof (cases rest)
      case Nil
      then show ?thesis using True by (subst first_set_loop.simps) (simp add: min_of_def bits_def)
    next
      case (Cons v vs)
      show ?thesis using 1 [OF _ Cons] True Cons
        by (subst first_set_loop.simps) (simp add: bits_Cons image_Un image_image algebra_simps)
    qed
  next
    case False
    have "min_of ((\<lambda>i. 64 * k + i) ` {i. i < 64 \<and> bit w i} \<union> (\<lambda>i. 64 * (k + 1) + i) ` bits rest) =
        Some (64 * k + trailing_zeros w)"
      using trailing_zeros_first [OF False] by (intro min_of_eqI) (auto simp: not_less intro: leI)
    then show ?thesis using False by (subst first_set_loop.simps) (simp add: WORD_BITS_def)
  qed
qed

end
