(* ===== verification/Dense_Correct.thy ===== *)
theory Dense_Correct
  imports Dense_Props
begin

unbundle bit_operations_syntax

text \<open>
  The remaining operations of dense bit sets: searches, relations between sets, counting and iteration,
  growing, and the interpretation of the contract of index sets.
\<close>

section \<open>First and last elements\<close>

lemma bits_drop: "x \<in> (\<lambda>i. 64 * n + i) ` bits (drop n ws) \<longleftrightarrow> x \<in> bits ws \<and> n \<le> x div 64"
proof
  assume "x \<in> bits ws \<and> n \<le> x div 64"
  then have x: "x div 64 < length ws" "bit (ws ! (x div 64)) (x mod 64)" "n \<le> x div 64" by (auto simp: bits_def)
  then obtain j where j: "x = 64 * n + j" by (metis le_iff_add less_eq_div_iff_mult_less_eq mult.commute zero_less_numeral)
  then have "x div 64 = n + j div 64" "x mod 64 = j mod 64" by simp_all
  with x j show "x \<in> (\<lambda>i. 64 * n + i) ` bits (drop n ws)" by (auto simp: bits_def)
qed (auto simp: bits_def)

lemma first_set_correct:
  assumes "dense_inv d s" "x < d"
  shows "first_set_at_or_after s x = Some (min_of {i \<in> dense_elems s. x \<le> i})"
proof -
  note s = dense_invD [OF assms(1)]
  let ?k = "x div 64" and ?ws = "db_words s"
  have k: "?k < length ?ws" using index_word [OF assms(2)] s(2) by simp
  obtain m where m: "mask_from (2 ^ (x mod 64)) = Some m" "\<forall>i<64. bit m i \<longleftrightarrow> x mod 64 \<le> i"
    using mask_from_bits [of "x mod 64"] by auto
  have "(\<lambda>i. 64 * ?k + i) ` {i. i < 64 \<and> bit (?ws ! ?k AND m) i} = {i \<in> bits ?ws. i div 64 = ?k \<and> x mod 64 \<le> i mod 64}"
    (is "?l = ?r")
  proof (rule set_eqI)
    fix i show "i \<in> ?l \<longleftrightarrow> i \<in> ?r"
    proof
      assume i: "i \<in> ?r"
      then have "i = 64 * ?k + i mod 64" by (metis (mono_tags, lifting) mem_Collect_eq mult_div_mod_eq)
      with i m(2) show "i \<in> ?l" by (auto simp: bits_def bit_and_iff intro!: image_eqI [of _ _ "i mod 64"])
    qed (use k m(2) in \<open>auto simp: bits_def bit_and_iff\<close>)
  qed
  then have "(\<lambda>i. 64 * ?k + i) ` {i. i < 64 \<and> bit (?ws ! ?k AND m) i} \<union> (\<lambda>i. 64 * (?k + 1) + i) ` bits (drop (?k + 1) ?ws) =
      {i \<in> dense_elems s. x \<le> i}"
    using bits_drop [of _ "?k + 1" ?ws] by (auto simp: dense_elems_def le_iff_div_mod [of x])
  then show ?thesis using s(1) assms(2) k m(1) first_set_loop_correct [of ?k "?ws ! ?k AND m"]
    by (simp add: first_set_at_or_after_def)
qed

lemma rposition_correct:
  "case rposition P xs of
     None \<Rightarrow> \<forall>x\<in>set xs. \<not> P x
   | Some i \<Rightarrow> i < length xs \<and> P (xs ! i) \<and> (\<forall>j. i < j \<and> j < length xs \<longrightarrow> \<not> P (xs ! j))"
proof (induction xs)
  case (Cons x xs)
  show ?case
  proof (cases "rposition P xs")
    case None
    then show ?thesis using Cons by (auto simp: nth_Cons split: nat.splits)
  next
    case (Some i)
    then show ?thesis using Cons by (auto simp: nth_Cons split: nat.splits)
  qed
qed simp

lemma max_bit_word:
  assumes "k < length ws" "v \<noteq> 0" "\<forall>i<64. bit v i \<longleftrightarrow> bit (ws ! k) i \<and> P i"
  shows "max_bit v + 64 * k \<in> bits ws" "P (max_bit v)" "(max_bit v + 64 * k) div 64 = k"
    "(max_bit v + 64 * k) mod 64 = max_bit v"
    "\<And>x. x \<in> bits ws \<Longrightarrow> x div 64 = k \<Longrightarrow> P (x mod 64) \<Longrightarrow> x \<le> max_bit v + 64 * k"
proof -
  note m = max_bit_last [OF assms(2)]
  show dm: "(max_bit v + 64 * k) div 64 = k" "(max_bit v + 64 * k) mod 64 = max_bit v" using m(1) by simp_all
  show "P (max_bit v)" using m(1,2) assms(3) by blast
  show "max_bit v + 64 * k \<in> bits ws" using m(1,2) assms(1,3) dm by (simp add: bits_def)
  show "x \<le> max_bit v + 64 * k" if "x \<in> bits ws" "x div 64 = k" "P (x mod 64)" for x
    using m(3) [of "x mod 64"] assms(3) that dm by (simp add: le_iff_div_mod [of x] bits_def)
qed

text \<open>The search through the words before the last one.\<close>

lemma last_word_search:
  assumes "b \<le> length ws"
  shows "case rposition (\<lambda>w. w \<noteq> 0) (drop a (take b ws)) of
      None \<Rightarrow> \<forall>x\<in>bits ws. \<not> (a \<le> x div 64 \<and> x div 64 < b)
    | Some i \<Rightarrow> a + i < b \<and> ws ! (a + i) \<noteq> 0 \<and> (\<forall>x\<in>bits ws. a \<le> x div 64 \<and> x div 64 < b \<longrightarrow> x div 64 \<le> a + i)"
proof -
  let ?xs = "drop a (take b ws)"
  have nth: "?xs ! j = ws ! (a + j)" if "j < length ?xs" for j using that assms by simp
  have len: "length ?xs = b - a" using assms by simp
  have nz: "j < length ?xs \<and> ?xs ! j \<noteq> 0" if "x \<in> bits ws" "a \<le> x div 64" "x div 64 < b" "j = x div 64 - a" for x j
    using that assms by (auto simp: bits_def)
  show ?thesis
  proof (cases "rposition (\<lambda>w. w \<noteq> 0) ?xs")
    case None
    then have "\<forall>w\<in>set ?xs. w = 0" using rposition_correct [of ?xs "\<lambda>w. w \<noteq> 0"] by simp
    then have "\<forall>x\<in>bits ws. \<not> (a \<le> x div 64 \<and> x div 64 < b)" using nz by (metis nth_mem)
    then show ?thesis using None by simp
  next
    case (Some i)
    then have i: "i < length ?xs" "?xs ! i \<noteq> 0" "\<And>j. i < j \<Longrightarrow> j < length ?xs \<Longrightarrow> ?xs ! j = 0"
      using rposition_correct [of ?xs "\<lambda>w. w \<noteq> 0"] by auto
    have "x div 64 \<le> a + i" if "x \<in> bits ws" "a \<le> x div 64" "x div 64 < b" for x
      using nz [OF that refl] i(3) [of "x div 64 - a"] by linarith
    then show ?thesis using Some i(1,2) len nth [of i] by simp
  qed
qed

definition scan_before :: "u64 list \<Rightarrow> nat \<Rightarrow> nat \<Rightarrow> nat option" where
  "scan_before ws a e =
     (case rposition (\<lambda>w. w \<noteq> 0) (drop (a div 64) (take (e div 64) ws)) of
        None \<Rightarrow> None
      | Some i \<Rightarrow> let pos = max_bit (ws ! (a div 64 + i)) + 64 * (a div 64 + i) in
          if a \<le> pos then Some pos else None)"

lemma last_in_end_word:
  assumes len: "e div 64 < length ws" and ae: "a \<le> e" and nz: "v \<noteq> 0"
    and v: "\<forall>i<64. bit v i \<longleftrightarrow> bit (ws ! (e div 64)) i \<and> i \<le> e mod 64"
  shows "max_of (bits ws \<inter> {a..e}) =
    (if a \<le> max_bit v + 64 * (e div 64) then Some (max_bit v + 64 * (e div 64)) else scan_before ws a e)"
proof -
  note mb = max_bit_word [OF len nz v]
  have le: "x \<le> max_bit v + 64 * (e div 64)" if "x \<in> bits ws" "x \<le> e" for x
    using that mb(5) [of x] mb(3,4) by (auto simp: le_iff_div_mod [of x])
  show ?thesis
  proof (cases "a \<le> max_bit v + 64 * (e div 64)")
    case True
    have "max_bit v + 64 * (e div 64) \<le> e" using mb(2,3,4) by (simp add: le_iff_div_mod [of _ e])
    then have "max_of (bits ws \<inter> {a..e}) = Some (max_bit v + 64 * (e div 64))"
      using mb(1) True le by (intro max_of_eqI) auto
    then show ?thesis using True by simp
  next
    case False
    then have "e div 64 \<le> a div 64" using mb(3) div_le_mono [of "max_bit v + 64 * (e div 64)" a 64] by simp
    then have "scan_before ws a e = None" by (simp add: scan_before_def)
    moreover have "bits ws \<inter> {a..e} = {}" using le False by force
    ultimately show ?thesis using False by (simp add: max_of_def)
  qed
qed

lemma last_before_end_word:
  assumes len: "e div 64 < length ws"
    and v: "\<forall>i<64. \<not> (bit (ws ! (e div 64)) i \<and> i \<le> e mod 64)"
  shows "max_of (bits ws \<inter> {a..e}) = scan_before ws a e"
proof -
  have before: "a div 64 \<le> x div 64 \<and> x div 64 < e div 64" if "x \<in> bits ws" "a \<le> x" "x \<le> e" for x
  proof -
    have "\<not> (x div 64 = e div 64 \<and> x mod 64 \<le> e mod 64)" using v that(1) by (auto simp: bits_def)
    then show ?thesis using that by (auto simp: le_iff_div_mod [of x] intro: div_le_mono)
  qed
  show ?thesis
  proof (cases "rposition (\<lambda>w. w \<noteq> 0) (drop (a div 64) (take (e div 64) ws))")
    case None
    then have "bits ws \<inter> {a..e} = {}" using last_word_search [of "e div 64" ws "a div 64"] before len by force
    then show ?thesis using None by (simp add: max_of_def scan_before_def)
  next
    case (Some i)
    let ?k = "a div 64 + i" let ?pos = "max_bit (ws ! ?k) + 64 * ?k"
    have k: "?k < e div 64" "ws ! ?k \<noteq> 0" "\<And>x. x \<in> bits ws \<Longrightarrow> a \<le> x \<Longrightarrow> x \<le> e \<Longrightarrow> x div 64 \<le> ?k"
      using last_word_search [of "e div 64" ws "a div 64"] Some before len by auto
    have "?k < length ws" using k(1) len by simp
    note mb = max_bit_word [OF this k(2), of "\<lambda>_. True"]
    have le: "x \<le> ?pos" if "x \<in> bits ws" "a \<le> x" "x \<le> e" for x
    proof (cases "x div 64 = ?k")
      case False
      then show ?thesis using k(3) [OF that] mb(3) by (simp add: le_iff_div_mod [of x])
    qed (use mb(5) that in simp)
    have "?pos \<le> e" using k(1) mb(3) by (simp add: le_iff_div_mod [of _ e])
    moreover have "?pos \<in> bits ws" using mb(1) by simp
    moreover have "bits ws \<inter> {a..e} = {}" if "\<not> a \<le> ?pos" using le that by force
    ultimately have "max_of (bits ws \<inter> {a..e}) = (if a \<le> ?pos then Some ?pos else None)"
      using max_of_eqI [of ?pos "bits ws \<inter> {a..e}"] le by (simp add: max_of_def)
    then show ?thesis using Some by (simp add: scan_before_def)
  qed
qed

lemma dense_last_set_in_correct:
  assumes inv: "dense_inv d s" and g: "range_ok d g"
  shows "dense_last_set_in s g = Some (max_of (dense_elems s \<inter> range_set d g))"
proof -
  note s = dense_invD [OF inv]
  from g show ?thesis
  proof (cases rule: start_end_cases)
    case (full a e)
    let ?ws = "db_words s"
    have len: "e div 64 < length ?ws" using index_word [OF full(3)] s(2) by simp
    have ae: "a div 64 \<le> e div 64" using full(2) by (rule div_le_mono)
    obtain m where m: "mask_upto (2 ^ (e mod 64)) = Some m" "\<forall>i<64. bit m i \<longleftrightarrow> i \<le> e mod 64"
      using mask_upto_bits [of "e mod 64"] by auto
    define v where "v = ?ws ! (e div 64) AND m"
    have v: "\<forall>i<64. bit v i \<longleftrightarrow> bit (?ws ! (e div 64)) i \<and> i \<le> e mod 64" using m(2) by (simp add: v_def bit_and_iff)
    have run: "dense_last_set_in s g =
        Some (if v \<noteq> 0 \<and> a \<le> max_bit v + 64 * (e div 64) then Some (max_bit v + 64 * (e div 64)) else scan_before ?ws a e)"
      using full(1) s(1) len ae m(1) last_word_search [of "e div 64" ?ws "a div 64"]
      by (auto simp: dense_last_set_in_def scan_before_def WORD_BITS_def Let_def v_def split: option.splits)
    have elems: "dense_elems s \<inter> range_set d g = bits ?ws \<inter> {a..e}" by (simp add: dense_elems_def full(4))
    show ?thesis
    proof (cases "v = 0")
      case False
      then show ?thesis unfolding run elems using last_in_end_word [OF len full(2) False v] by simp
    next
      case True
      then have "\<forall>i<64. \<not> (bit (?ws ! (e div 64)) i \<and> i \<le> e mod 64)" using v by simp
      from last_before_end_word [OF len this] True show ?thesis unfolding run elems by simp
    qed
  qed (use s(1) in \<open>simp add: dense_last_set_in_def max_of_def\<close>)
qed

section \<open>Relations between sets\<close>

lemma update_words_loop_eq:
  "length l = length r \<Longrightarrow> fst (update_words_loop f c l r) = map2 f l r \<and>
    (snd (update_words_loop f c l r) = 0 \<longleftrightarrow> c = 0 \<and> map2 f l r = l)"
proof (induction l r arbitrary: c rule: list_induct2)
  case (Cons x xs y ys)
  have "c OR (x XOR f x y) = 0 \<longleftrightarrow> c = 0 \<and> f x y = x"
    by (auto simp: u64_eq_iff bit_or_iff bit_xor_iff)
  then show ?case using Cons.IH [of "c OR (x XOR f x y)"] by (auto simp: Let_def split_beta)
qed simp

lemma mem_bits_map2:
  assumes "length ws = length vs" "\<And>a b i. i < 64 \<Longrightarrow> bit (f a b) i \<longleftrightarrow> P (bit a i) (bit b i)"
  shows "i \<in> bits (map2 f ws vs) \<longleftrightarrow> i div 64 < length ws \<and> P (i \<in> bits ws) (i \<in> bits vs)"
  using assms by (auto simp: bits_def)

lemma dense_relation_run:
  assumes s: "dense_inv d s" and t: "dense_inv d t"
  shows "dense_relation f s t =
    Some (s\<lparr>db_words := map2 f (db_words s) (db_words t)\<rparr>, map2 f (db_words s) (db_words t) \<noteq> db_words s)"
  using dense_invD [OF s] dense_invD [OF t] update_words_loop_eq [of "db_words s" "db_words t" f 0]
  by (simp add: dense_relation_def update_words_def split_beta)

lemma dense_relation_correct:
  assumes s: "dense_inv d s" and t: "dense_inv d t"
    and f: "\<And>a b i. i < 64 \<Longrightarrow> bit (f a b) i \<longleftrightarrow> P (bit a i) (bit b i)" and P: "\<not> P False False"
  shows "\<exists>s' b. dense_relation f s t = Some (s', b) \<and> dense_inv d s' \<and>
    dense_elems s' = {i. P (i \<in> dense_elems s) (i \<in> dense_elems t)} \<and> (b \<longleftrightarrow> dense_elems s' \<noteq> dense_elems s)"
proof -
  define ws where "ws = map2 f (db_words s) (db_words t)"
  have len: "length (db_words s) = length (db_words t)" using dense_invD(2) [OF s] dense_invD(2) [OF t] by simp
  have idx: "i div 64 < length (db_words s)" if "i \<in> bits (db_words s) \<or> i \<in> bits (db_words t)" for i
    using that len by (auto simp: bits_def)
  have ws: "bits ws = {i. P (i \<in> bits (db_words s)) (i \<in> bits (db_words t))}"
  proof (rule set_eqI)
    fix i
    show "i \<in> bits ws \<longleftrightarrow> i \<in> {i. P (i \<in> bits (db_words s)) (i \<in> bits (db_words t))}"
      using mem_bits_map2 [OF len, of f P i, OF f] idx [of i] P
      by (cases "i \<in> bits (db_words s)"; cases "i \<in> bits (db_words t)") (simp_all add: ws_def)
  qed
  have "i \<in> bits (db_words s) \<or> i \<in> bits (db_words t)" if "i \<in> bits ws" for i
    using that P unfolding ws by (cases "i \<in> bits (db_words s)"; cases "i \<in> bits (db_words t)") simp_all
  then have "bits ws \<subseteq> {..<d}" using dense_invD(3) [OF s] dense_invD(3) [OF t] by blast
  moreover have "length ws = length (db_words s)" using len by (simp add: ws_def)
  ultimately have inv: "dense_inv d (s\<lparr>db_words := ws\<rparr>)" "dense_elems (s\<lparr>db_words := ws\<rparr>) = bits ws"
    using dense_inv_update [OF s] by auto
  have "ws \<noteq> db_words s \<longleftrightarrow> bits ws \<noteq> bits (db_words s)"
    using bits_eq_iff [OF \<open>length ws = length (db_words s)\<close>] by blast
  then show ?thesis using dense_relation_run [OF s t, of f] inv ws by (simp add: ws_def [symmetric] dense_elems_def)
qed

lemma dense_union_correct:
  assumes "dense_inv d s" "dense_inv d t"
  shows "\<exists>s' b. dense_union s t = Some (s', b) \<and> dense_inv d s' \<and> dense_elems s' = dense_elems s \<union> dense_elems t \<and>
    (b \<longleftrightarrow> dense_elems s' \<noteq> dense_elems s)"
  using dense_relation_correct [OF assms, of "\<lambda>a b. a OR b" "\<lambda>a b. a \<or> b"]
  by (simp add: dense_union_def bit_or_iff Un_def)

lemma dense_subtract_correct:
  assumes "dense_inv d s" "dense_inv d t"
  shows "\<exists>s' b. dense_subtract s t = Some (s', b) \<and> dense_inv d s' \<and> dense_elems s' = dense_elems s - dense_elems t \<and>
    (b \<longleftrightarrow> dense_elems s' \<noteq> dense_elems s)"
  using dense_relation_correct [OF assms, of "\<lambda>a b. a AND NOT b" "\<lambda>a b. a \<and> \<not> b"]
  by (simp add: dense_subtract_def bit_and_iff bit_not_iff set_diff_eq)

lemma dense_intersect_correct:
  assumes "dense_inv d s" "dense_inv d t"
  shows "\<exists>s' b. dense_intersect s t = Some (s', b) \<and> dense_inv d s' \<and> dense_elems s' = dense_elems s \<inter> dense_elems t \<and>
    (b \<longleftrightarrow> dense_elems s' \<noteq> dense_elems s)"
  using dense_relation_correct [OF assms, of "\<lambda>a b. a AND b" "\<lambda>a b. a \<and> b"]
  by (simp add: dense_intersect_def bit_and_iff Int_def)

section \<open>Whole sets\<close>

lemma new_empty_inv: "dense_inv d (new_empty d) \<and> dense_elems (new_empty d) = {}"
  by (simp add: dense_inv_def dense_elems_def new_empty_def bits_replicate)

lemma less_iff_div_mod: "(a :: nat) < b \<longleftrightarrow> a div 64 < b div 64 \<or> a div 64 = b div 64 \<and> a mod 64 < b mod 64"
  using le_iff_div_mod [of b a] by auto

lemma num_words_eq: "num_words d = d div 64 + (if d mod 64 = 0 then 0 else 1)"
proof -
  define q r where "q = d div 64" and "r = d mod 64"
  have d: "d = 64 * q + r" "r < 64" by (simp_all add: q_def r_def)
  have "(64 * q + r + 63) div 64 = q + (r + 63) div 64" by (simp add: div_mult_self3 add.assoc)
  moreover have "(r + 63) div 64 = (if r = 0 then 0 else 1)" using d(2) by auto
  ultimately show ?thesis by (simp add: num_words_def WORD_BITS_def d(1)) (simp add: d(2))
qed

lemma clear_excess_correct:
  assumes "length ws = num_words d"
  shows "\<exists>vs. clear_excess_bits_in_final_word d ws = Some vs \<and> length vs = length ws \<and> bits vs = bits ws \<inter> {..<d}"
proof (cases "d mod 64 = 0")
  case True
  then have "length ws = d div 64" using assms by (simp add: num_words_eq)
  then have "bits ws \<subseteq> {..<d}" using True by (auto simp: bits_def less_iff_div_mod [of _ d])
  then show ?thesis using True by (auto simp: clear_excess_bits_in_final_word_def WORD_BITS_def)
next
  case False
  then have len: "length ws = Suc (d div 64)" using assms by (simp add: num_words_eq)
  then have ne: "ws \<noteq> []" by auto
  define vs where "vs = ws[d div 64 := ws ! (d div 64) AND mask (d mod 64)]"
  have run: "clear_excess_bits_in_final_word d ws = Some vs"
    using False len ne exp_sub_one [of "d mod 64"]
    by (simp add: clear_excess_bits_in_final_word_def WORD_BITS_def vs_def last_conv_nth)
  have "i \<in> bits vs \<longleftrightarrow> i \<in> bits ws \<inter> {..<d}" for i
  proof (cases "i div 64 = d div 64")
    case True
    have "i < d \<longleftrightarrow> i mod 64 < d mod 64" using True less_iff_div_mod [of i d] by simp
    moreover have "i \<in> bits vs \<longleftrightarrow> bit (ws ! (d div 64) AND mask (d mod 64)) (i mod 64)"
      using True len by (simp add: vs_def mem_bits_update)
    moreover have "i \<in> bits ws \<longleftrightarrow> bit (ws ! (d div 64)) (i mod 64)" using True len by (simp add: mem_bits)
    ultimately show ?thesis by (auto simp: bit_and_iff bit_mask_iff)
  next
    case neq: False
    have "i div 64 < d div 64" if "i \<in> bits ws" using that neq len by (auto simp: bits_def)
    moreover have "i \<in> bits vs \<longleftrightarrow> i \<in> bits ws" using neq len by (simp add: vs_def mem_bits_update)
    ultimately show ?thesis using less_iff_div_mod [of i d] by blast
  qed
  then show ?thesis using run len by (auto simp: vs_def)
qed

lemma clear_excess_bits_correct:
  assumes "db_domain_size s = d" "length (db_words s) = num_words d"
  shows "\<exists>s'. clear_excess_bits s = Some s' \<and> dense_inv d s' \<and> dense_elems s' = bits (db_words s) \<inter> {..<d}"
  using clear_excess_correct [OF assms(2)] assms
  by (auto simp: clear_excess_bits_def dense_inv_def dense_elems_def)

lemma bits_full: "bits (replicate (num_words d) (NOT 0)) \<inter> {..<d} = {..<d}"
  unfolding bits_replicate using index_word by auto

lemma dense_insert_all_correct:
  assumes "dense_inv d s"
  shows "\<exists>s'. dense_insert_all s = Some s' \<and> dense_inv d s' \<and> dense_elems s' = {..<d}"
  using clear_excess_bits_correct [of "s\<lparr>db_words := replicate (length (db_words s)) (NOT 0)\<rparr>" d]
    dense_invD [OF assms] bits_full [of d] by (simp add: dense_insert_all_def)

lemma new_filled_correct: "\<exists>s'. new_filled d = Some s' \<and> dense_inv d s' \<and> dense_elems s' = {..<d}"
  using clear_excess_bits_correct [of "\<lparr>db_domain_size = d, db_words = replicate (num_words d) (NOT 0)\<rparr>" d]
    bits_full [of d] by (simp add: new_filled_def)

lemma union_not_correct:
  assumes s: "dense_inv d s" and t: "dense_inv d t"
  shows "\<exists>s'. union_not s t = Some s' \<and> dense_inv d s' \<and> dense_elems s' = dense_elems s \<union> ({..<d} - dense_elems t)"
proof -
  let ?ws = "map2 (\<lambda>a b. a OR NOT b) (db_words s) (db_words t)"
  have len: "length (db_words s) = length (db_words t)" "length (db_words s) = num_words d"
    using dense_invD(2) [OF s] dense_invD(2) [OF t] by simp_all
  have mem: "i \<in> bits ?ws \<longleftrightarrow> i div 64 < length (db_words s) \<and> (i \<in> bits (db_words s) \<or> i \<notin> bits (db_words t))" for i
    using mem_bits_map2 [OF len(1), of "\<lambda>a b. a OR NOT b" "\<lambda>a b. a \<or> \<not> b"] by (simp add: bit_or_iff bit_not_iff)
  have "bits ?ws \<inter> {..<d} = dense_elems s \<union> ({..<d} - dense_elems t)"
    using mem index_word [of _ d] len dense_invD(3) [OF s] by (auto simp: dense_elems_def)
  then show ?thesis
    using clear_excess_bits_correct [of "s\<lparr>db_words := ?ws\<rparr>" d] dense_relation_run [OF s t] dense_invD(1) [OF s] len
    by (simp add: union_not_def)
qed

lemma dense_superset_correct:
  assumes s: "dense_inv d s" and t: "dense_inv d t"
  shows "dense_superset s t = Some (dense_elems t \<subseteq> dense_elems s)"
proof -
  have len: "length (db_words s) = length (db_words t)" using dense_invD(2) [OF s] dense_invD(2) [OF t] by simp
  have "list_all (\<lambda>(a, b). a AND b = b) (zip (db_words s) (db_words t)) \<longleftrightarrow>
      map2 (\<lambda>a b. a AND b) (db_words s) (db_words t) = db_words t"
    using len by (auto simp: list_all_length list_eq_iff_nth_eq)
  also have "\<dots> \<longleftrightarrow> bits (map2 (\<lambda>a b. a AND b) (db_words s) (db_words t)) = bits (db_words t)"
    using len bits_eq_iff [of "map2 (\<lambda>a b. a AND b) (db_words s) (db_words t)" "db_words t"] by simp
  also have "\<dots> \<longleftrightarrow> dense_elems t \<subseteq> dense_elems s"
    using mem_bits_map2 [OF len, of "\<lambda>a b. a AND b" "\<lambda>a b. a \<and> b"] len
    by (auto simp: bit_and_iff dense_elems_def bits_def [of "db_words t"])
  finally show ?thesis using dense_invD(1) [OF s] dense_invD(1) [OF t] by (simp add: dense_superset_def)
qed

lemma dense_is_empty_correct:
  shows "dense_is_empty s \<longleftrightarrow> dense_elems s = {}"
proof -
  have "dense_is_empty s \<longleftrightarrow> db_words s = replicate (length (db_words s)) 0"
    by (auto simp: dense_is_empty_def list_all_length list_eq_iff_nth_eq)
  also have "\<dots> \<longleftrightarrow> bits (db_words s) = bits (replicate (length (db_words s)) 0)"
    using bits_eq_iff [of "db_words s" "replicate (length (db_words s)) 0"] by simp
  finally show ?thesis by (simp add: bits_replicate dense_elems_def)
qed

lemma dense_clear_correct: "dense_inv d s \<Longrightarrow> dense_inv d (dense_clear s) \<and> dense_elems (dense_clear s) = {}"
  by (simp add: dense_inv_def dense_elems_def dense_clear_def bits_replicate)

definition dense_impl :: "dense_bit_set set_impl" where
  "dense_impl = \<lparr>im_contains = dense_contains, im_is_empty = dense_is_empty, im_superset = dense_superset,
     im_last_set_in = dense_last_set_in, im_insert = dense_insert, im_insert_range = dense_insert_range,
     im_insert_all = dense_insert_all, im_clear = dense_clear, im_union = dense_union\<rparr>"

interpretation dense: index_set_changed dense_impl dense_inv dense_elems
  by unfold_locales (auto simp: dense_impl_def dense_contains_correct dense_is_empty_correct dense_superset_correct
    dense_last_set_in_correct dense_insert_correct dense_insert_range_correct dense_insert_all_correct dense_clear_correct
    dest: dense_union_correct)

end
