(* ===== verification/Dense_Iter.thy ===== *)
theory Dense_Iter
  imports Dense_Correct
begin

unbundle bit_operations_syntax

text \<open>
  Counting and iterating over dense bit sets, sets that grow, and the properties of dense bit sets.
\<close>

section \<open>Counting\<close>

lemma word_count_ones_card: "word_count_ones w = card {i. i < 64 \<and> bit w i}"
proof -
  have "set (filter (bit w) [0..<64]) = {i. i < 64 \<and> bit w i}" by auto
  then show ?thesis using distinct_card [of "filter (bit w) [0..<64]"] by (simp add: word_count_ones_def)
qed

lemma finite_bits: "finite (bits ws)"
proof (rule finite_subset)
  show "bits ws \<subseteq> {..<64 * length ws}" by (auto simp: bits_def)
qed simp

lemma count_ones_card: "count_ones ws = card (bits ws)"
proof (induction ws)
  case Nil
  then show ?case by (simp add: count_ones_def bits_def)
next
  case (Cons w ws)
  have "card (bits (w # ws)) = card {i. i < 64 \<and> bit w i} + card ((\<lambda>i. 64 + i) ` bits ws)"
    unfolding bits_Cons by (rule card_Un_disjoint) (auto simp: finite_bits)
  also have "card ((\<lambda>i. 64 + i) ` bits ws) = card (bits ws)" by (rule card_image) (simp add: inj_on_def)
  finally show ?case using Cons by (simp add: count_ones_def word_count_ones_card)
qed

section \<open>Iteration\<close>

text \<open>What is left of an iteration that has the word \<open>w\<close> with index \<open>k\<close> and then \<open>rest\<close>.\<close>

definition iter_rem :: "nat \<Rightarrow> u64 \<Rightarrow> u64 list \<Rightarrow> nat set" where
  "iter_rem k w rest = (\<lambda>i. 64 * k + i) ` {i. i < 64 \<and> bit w i} \<union> (\<lambda>i. 64 * (k + 1) + i) ` bits rest"

lemma min_of_Min: "finite S \<Longrightarrow> S \<noteq> {} \<Longrightarrow> min_of S = Some (Min S)"
  by (rule min_of_eqI) auto

lemma iter_rem_zero: "iter_rem k 0 (w # rest) = iter_rem (k + 1) w rest"
  by (simp add: iter_rem_def bits_Cons image_Un image_image algebra_simps)

lemma iter_rem_finite: "finite (iter_rem k w rest)"
  by (simp add: iter_rem_def finite_bits)

lemma iter_rem_clear:
  assumes "w \<noteq> 0"
  shows "iter_rem k (w XOR 2 ^ trailing_zeros w) rest = iter_rem k w rest - {64 * k + trailing_zeros w}"
    "min_of (iter_rem k w rest) = Some (64 * k + trailing_zeros w)"
proof -
  note t = trailing_zeros_first [OF assms]
  have "{i. i < 64 \<and> bit (w XOR 2 ^ trailing_zeros w) i} = {i. i < 64 \<and> bit w i} - {trailing_zeros w}"
    using t(1,2) by (auto simp: bit_xor_iff)
  moreover have "64 * k + trailing_zeros w \<notin> (\<lambda>i. 64 * (k + 1) + i) ` bits rest" using t(1) by auto
  ultimately show "iter_rem k (w XOR 2 ^ trailing_zeros w) rest = iter_rem k w rest - {64 * k + trailing_zeros w}"
    by (auto simp: iter_rem_def)
  show "min_of (iter_rem k w rest) = Some (64 * k + trailing_zeros w)"
    using t by (intro min_of_eqI) (auto simp: iter_rem_def not_less intro: leI)
qed

text \<open>The states of an iterator over words with fewer than \<open>2\<^sup>64\<close> bits.\<close>

definition iter_at :: "nat \<Rightarrow> bit_iter \<Rightarrow> bool" where
  "iter_at k it \<longleftrightarrow> it_offset it = of_nat (64 * k) \<and> 64 * (k + 1 + length (it_iter it)) < 2 ^ 64"

lemma checked_add_u64:
  "m + n < 2 ^ 64 \<Longrightarrow> checked_add (of_nat m) (of_nat n) = Some (of_nat (m + n) :: u64)"
  using checked_add_of_nat [where 'a = 64, of m n] by simp

lemma unat_u64: "n < 2 ^ 64 \<Longrightarrow> unat (of_nat n :: u64) = n"
  using unat_of_nat_less [where 'a = 64, of n] by simp

lemma bit_iter_next_correct:
  assumes "iter_at k it"
  shows "\<exists>it' k'. bit_iter_next it = Some (min_of (iter_rem k (it_word it) (it_iter it)), it') \<and>
    (iter_rem k (it_word it) (it_iter it) \<noteq> {} \<longrightarrow> iter_at k' it' \<and>
      iter_rem k' (it_word it') (it_iter it') =
        iter_rem k (it_word it) (it_iter it) - {Min (iter_rem k (it_word it) (it_iter it))})"
  using assms
proof (induction it arbitrary: k rule: bit_iter_next.induct)
  case (1 it)
  show ?case
  proof (cases "it_word it = 0")
    case True
    show ?thesis
    proof (cases "it_iter it")
      case Nil
      then show ?thesis using True by (subst bit_iter_next.simps) (simp add: iter_rem_def bits_def min_of_def)
    next
      case (Cons w rest)
      let ?it = "\<lparr>it_word = w, it_offset = it_offset it + of_nat WORD_BITS, it_iter = rest\<rparr>"
      have "iter_at (k + 1) ?it" using 1(2) Cons by (simp add: iter_at_def WORD_BITS_def algebra_simps)
      from 1(1) [OF _ Cons this] True Cons show ?thesis
        by (subst bit_iter_next.simps) (simp add: iter_rem_zero)
    qed
  next
    case False
    note t = trailing_zeros_first [OF False] and c = iter_rem_clear [OF False, of k "it_iter it"]
    let ?n = "trailing_zeros (it_word it) + 64 * k"
    let ?it = "it\<lparr>it_word := it_word it XOR 2 ^ trailing_zeros (it_word it)\<rparr>"
    have n: "?n < 2 ^ 64" and off: "it_offset it = of_nat (64 * k)" using 1(2) t(1) by (simp_all add: iter_at_def)
    have "bit_iter_next it = Some (Some ?n, ?it)"
      using False checked_add_u64 [OF n] unat_u64 [OF n] unfolding bit_iter_next.simps [of it] off
      by (simp add: Let_def del: of_nat_add of_nat_mult)
    moreover have "Min (iter_rem k (it_word it) (it_iter it)) = 64 * k + trailing_zeros (it_word it)"
      using c(2) min_of_Min [OF iter_rem_finite, of k "it_word it" "it_iter it"] by (auto simp: min_of_def split: if_splits)
    ultimately show ?thesis using c 1(2) by (intro exI [of _ ?it] exI [of _ k]) (simp add: iter_at_def add.commute)
  qed
qed

lemma bit_iter_collect_correct:
  assumes "iter_at k it" "card (iter_rem k (it_word it) (it_iter it)) < fuel"
  shows "bit_iter_collect fuel it = Some (sorted_list_of_set (iter_rem k (it_word it) (it_iter it)))"
  using assms
proof (induction fuel arbitrary: k it)
  case (Suc fuel)
  let ?R = "iter_rem k (it_word it) (it_iter it)"
  obtain it' k' where n: "bit_iter_next it = Some (min_of ?R, it')"
    "?R \<noteq> {} \<longrightarrow> iter_at k' it' \<and> iter_rem k' (it_word it') (it_iter it') = ?R - {Min ?R}"
    using bit_iter_next_correct [OF Suc.prems(1)] by blast
  show ?case
  proof (cases "?R = {}")
    case True
    then show ?thesis using n by (simp add: min_of_def)
  next
    case False
    have m: "min_of ?R = Some (Min ?R)" using False min_of_Min [OF iter_rem_finite] by blast
    have "card (?R - {Min ?R}) < card ?R" using False iter_rem_finite by (intro card_Diff1_less) auto
    then have "card (?R - {Min ?R}) < fuel" using Suc.prems(2) by linarith
    then have "bit_iter_collect fuel it' = Some (sorted_list_of_set (?R - {Min ?R}))"
      using Suc.IH [of k' it'] n(2) False by simp
    then show ?thesis using n(1) m sorted_list_of_set_nonempty [OF iter_rem_finite False] by simp
  qed
qed simp

lemma dense_iter_correct:
  assumes "64 * (length ws + 1) < 2 ^ 64" "card (bits ws) < fuel"
  shows "bit_iter_collect fuel (bit_iter_new ws) = Some (sorted_list_of_set (bits ws))"
proof (cases ws)
  case Nil
  obtain f where "fuel = Suc f" using assms(2) by (cases fuel) auto
  then show ?thesis using Nil bit_iter_next.simps [of "bit_iter_new []"] by (simp add: bit_iter_new_def bits_def)
next
  case (Cons w rest)
  let ?it = "\<lparr>it_word = w, it_offset = 0, it_iter = rest\<rparr>"
  have off: "- 1 - of_nat (WORD_BITS - 1) + of_nat WORD_BITS = (0 :: u64)" by (simp add: WORD_BITS_def)
  have "bit_iter_next (bit_iter_new ws) = bit_iter_next ?it"
    using bit_iter_next.simps [of "bit_iter_new ws"] unfolding bit_iter_new_def Cons
    by (simp only: bit_iter.simps off list.case if_False simp_thms)
  then have "bit_iter_collect fuel (bit_iter_new ws) = bit_iter_collect fuel ?it"
    by (cases fuel) simp_all
  moreover have "iter_at 0 ?it" using assms(1) Cons by (simp add: iter_at_def)
  moreover have "iter_rem 0 w rest = bits ws" using Cons by (simp add: iter_rem_def bits_Cons)
  ultimately show ?thesis using bit_iter_collect_correct [of 0 ?it fuel] assms(2) by simp
qed

section \<open>Sets that grow\<close>

definition growable_inv :: "dense_bit_set \<Rightarrow> bool" where
  "growable_inv s \<longleftrightarrow> dense_inv (db_domain_size s) s"

lemma num_words_mono: "a \<le> b \<Longrightarrow> num_words a \<le> num_words b"
  by (simp add: num_words_def div_le_mono)

lemma bits_append_zeros: "bits (ws @ replicate n 0) = bits ws"
proof (rule set_eqI)
  fix i show "i \<in> bits (ws @ replicate n 0) \<longleftrightarrow> i \<in> bits ws"
    by (cases "i div 64 < length ws") (auto simp: bits_def nth_append)
qed

lemma ensure_correct:
  assumes "growable_inv s"
  shows "dense_inv (max (db_domain_size s) m) (ensure s m)" "dense_elems (ensure s m) = dense_elems s"
proof -
  note s = dense_invD [OF assms [unfolded growable_inv_def]]
  have "num_words (max (db_domain_size s) m) = max (num_words (db_domain_size s)) (num_words m)"
    using num_words_mono [of "db_domain_size s" m] num_words_mono [of m "db_domain_size s"]
    by (cases "db_domain_size s \<le> m") (simp_all add: max_def)
  then show "dense_inv (max (db_domain_size s) m) (ensure s m)"
    using s by (auto simp: dense_inv_def dense_elems_def ensure_def Let_def bits_append_zeros)
  show "dense_elems (ensure s m) = dense_elems s"
    by (simp add: dense_elems_def ensure_def Let_def bits_append_zeros)
qed

lemma growable_inv_of: "dense_inv d s \<Longrightarrow> growable_inv s"
  using dense_invD(1) by (simp add: growable_inv_def)

lemma growable_insert_correct:
  assumes "growable_inv s"
  shows "\<exists>s'. growable_insert s x = Some (s', x \<notin> dense_elems s) \<and> growable_inv s' \<and>
    dense_elems s' = insert x (dense_elems s)"
  using dense_insert_correct [OF ensure_correct(1) [OF assms, of "x + 1"], of x] ensure_correct(2) [OF assms]
  by (fastforce simp: growable_insert_def intro: growable_inv_of)

lemma growable_remove_correct:
  assumes "growable_inv s"
  shows "\<exists>s'. growable_remove s x = Some (s', x \<in> dense_elems s) \<and> growable_inv s' \<and>
    dense_elems s' = dense_elems s - {x}"
  using dense_remove_correct [OF ensure_correct(1) [OF assms, of "x + 1"], of x] ensure_correct(2) [OF assms]
  by (fastforce simp: growable_remove_def intro: growable_inv_of)

lemma growable_insert_range_correct:
  assumes "growable_inv s" "a < 2 ^ 32"
  shows "\<exists>s'. growable_insert_range s a b = Some s' \<and> growable_inv s' \<and> dense_elems s' = dense_elems s \<union> {a..<b}"
proof -
  let ?d = "max (db_domain_size s) b"
  have "range_ok ?d (Included a, Excluded b)" "range_set ?d (Included a, Excluded b) = {a..<b}"
    using assms(2) by (auto simp: range_ok_def range_set_def)
  with dense_insert_range_correct [OF ensure_correct(1) [OF assms(1), of b]] ensure_correct(2) [OF assms(1)]
  show ?thesis by (fastforce simp: growable_insert_range_def intro: growable_inv_of)
qed

lemma growable_contains_correct: "growable_contains s x \<longleftrightarrow> x \<in> dense_elems s"
  by (simp add: growable_contains_def dense_elems_def bits_def and_mask_zero)

lemma growable_contains_any_correct:
  assumes "growable_inv s" "a < 2 ^ 32"
  shows "growable_contains_any s a b = Some (dense_elems s \<inter> {a..<b} \<noteq> {})"
proof -
  let ?d = "db_domain_size s" and ?b = "min b (db_domain_size s)"
  have elems: "dense_elems s \<subseteq> {..<?d}"
    using dense_invD(3) [OF assms(1) [unfolded growable_inv_def]] by (simp add: dense_elems_def)
  show ?thesis
  proof (cases "a < ?d")
    case True
    have "range_ok ?d (Included a, Excluded ?b)" "range_set ?d (Included a, Excluded ?b) = {a..<?b}"
      using assms(2) by (auto simp: range_ok_def range_set_def)
    moreover have "dense_elems s \<inter> {a..<?b} = dense_elems s \<inter> {a..<b}" using elems by auto
    ultimately show ?thesis
      using True dense_contains_any_correct [OF assms(1) [unfolded growable_inv_def]]
      by (simp add: growable_contains_any_def)
  next
    case False
    then have "dense_elems s \<inter> {a..<b} = {}" using elems by auto
    then show ?thesis using False by (simp add: growable_contains_any_def)
  qed
qed

section \<open>Properties\<close>



text \<open>The relations between dense bit sets of one domain do not panic and keep the invariant, in
  particular that no bit behind the domain is set; \<open>union\<close>, \<open>subtract\<close> and \<open>intersect\<close> return whether the set
  has changed, and \<open>union_not\<close> adds the complement of the other set within the domain.\<close>

theorem dense_relations:
  assumes "dense_inv d s" "dense_inv d t"
  shows "(\<exists>s' b. dense_union s t = Some (s', b) \<and> dense_inv d s' \<and> dense_elems s' = dense_elems s \<union> dense_elems t \<and>
       (b \<longleftrightarrow> dense_elems s' \<noteq> dense_elems s)) \<and>
    (\<exists>s' b. dense_subtract s t = Some (s', b) \<and> dense_inv d s' \<and> dense_elems s' = dense_elems s - dense_elems t \<and>
       (b \<longleftrightarrow> dense_elems s' \<noteq> dense_elems s)) \<and>
    (\<exists>s' b. dense_intersect s t = Some (s', b) \<and> dense_inv d s' \<and> dense_elems s' = dense_elems s \<inter> dense_elems t \<and>
       (b \<longleftrightarrow> dense_elems s' \<noteq> dense_elems s)) \<and>
    (\<exists>s'. union_not s t = Some s' \<and> dense_inv d s' \<and> dense_elems s' = dense_elems s \<union> ({..<d} - dense_elems t))"
  using dense_union_correct [OF assms] dense_subtract_correct [OF assms] dense_intersect_correct [OF assms]
    union_not_correct [OF assms] by blast

theorem dense_relations_witness:
  "\<exists>s'. union_not (new_empty 70) (new_empty 70) = Some s' \<and> dense_elems s' = {..<70}"
  using dense_relations [of 70 "new_empty 70" "new_empty 70"] new_empty_inv [of 70] by auto

text \<open>Iterating over a dense bit set yields its elements in increasing order, each once, and ends; \<open>count\<close> is
  the number of elements, and \<open>first_set_at_or_after\<close> and \<open>contains_any\<close> find what they look for.\<close>

theorem dense_iteration:
  assumes "dense_inv d s" "d + 128 < 2 ^ 64" "d < fuel" "x < d" "range_ok d g"
  shows "bit_iter_collect fuel (dense_iter s) = Some (sorted_list_of_set (dense_elems s)) \<and>
    dense_count s = card (dense_elems s) \<and>
    first_set_at_or_after s x = Some (min_of {i \<in> dense_elems s. x \<le> i}) \<and>
    dense_contains_any s g = Some (dense_elems s \<inter> range_set d g \<noteq> {})"
proof -
  note s = dense_invD [OF assms(1)]
  have "64 * num_words d \<le> d + 63" by (simp add: num_words_def WORD_BITS_def)
  then have len: "64 * (length (db_words s) + 1) < 2 ^ 64" using s(2) assms(2) by simp
  have "card (bits (db_words s)) \<le> card {..<d}" using s(3) by (intro card_mono) auto
  then have "card (bits (db_words s)) < fuel" using assms(3) by simp
  from dense_iter_correct [OF len this] first_set_correct [OF assms(1,4)] dense_contains_any_correct [OF assms(1,5)]
  show ?thesis by (simp add: dense_iter_def dense_elems_def dense_count_def count_ones_card)
qed

theorem dense_iteration_witness:
  "\<exists>s b. dense_insert (new_empty 100) 70 = Some (s, b) \<and> bit_iter_collect 101 (dense_iter s) = Some [70] \<and>
    dense_count s = 1 \<and> first_set_at_or_after s 5 = Some (Some 70)"
proof -
  obtain s where s: "dense_insert (new_empty 100) 70 = Some (s, True)" "dense_inv 100 s" "dense_elems s = {70}"
    using dense_insert_correct [of 100 "new_empty 100" 70] new_empty_inv [of 100] by auto
  have "range_ok 100 (Unbounded, Unbounded)" by (simp add: range_ok_def)
  from dense_iteration [OF s(2) _ _ _ this, of 101 5] s(3)
  have "bit_iter_collect 101 (dense_iter s) = Some [70]" "dense_count s = 1"
    "first_set_at_or_after s 5 = Some (min_of {i \<in> {70}. 5 \<le> i})" by simp_all
  moreover have "min_of {i \<in> {70 :: nat}. 5 \<le> i} = Some 70" by (rule min_of_eqI) auto
  ultimately show ?thesis using s(1) by metis
qed

text \<open>A growable bit set accepts every index: insertion, removal and insertion of a range grow the words as
  needed without changing the other elements, and membership may be asked behind the end.\<close>

theorem growable_bit_set_correct:
  assumes "growable_inv s" "a < 2 ^ 32"
  shows "(\<exists>s'. growable_insert s x = Some (s', x \<notin> dense_elems s) \<and> growable_inv s' \<and>
       dense_elems s' = insert x (dense_elems s)) \<and>
    (\<exists>s'. growable_remove s x = Some (s', x \<in> dense_elems s) \<and> growable_inv s' \<and>
       dense_elems s' = dense_elems s - {x}) \<and>
    (\<exists>s'. growable_insert_range s a b = Some s' \<and> growable_inv s' \<and> dense_elems s' = dense_elems s \<union> {a..<b}) \<and>
    (growable_contains s x \<longleftrightarrow> x \<in> dense_elems s) \<and>
    growable_contains_any s a b = Some (dense_elems s \<inter> {a..<b} \<noteq> {})"
  using growable_insert_correct [OF assms(1)] growable_remove_correct [OF assms(1)]
    growable_insert_range_correct [OF assms] growable_contains_correct growable_contains_any_correct [OF assms] by blast

theorem growable_bit_set_correct_witness:
  "\<exists>s'. growable_insert (new_empty 0) 1000 = Some (s', True) \<and> growable_contains s' 1000 \<and>
    \<not> growable_contains s' 7"
proof -
  have "growable_inv (new_empty 0)" "dense_elems (new_empty 0) = {}"
    using new_empty_inv [of 0] by (auto simp: growable_inv_of)
  with growable_bit_set_correct [of "new_empty 0" 0 1000 0] obtain s'
    where s': "growable_insert (new_empty 0) 1000 = Some (s', True)" "growable_inv s'" "dense_elems s' = {1000}" by auto
  with growable_bit_set_correct [OF s'(2), of 0 1000 0] growable_bit_set_correct [OF s'(2), of 0 7 0]
  show ?thesis by auto
qed

end
