(* ===== verification/Chunked_Props.thy ===== *)
theory Chunked_Props
  imports Chunked_Bit_Set Dense_Iter
begin

unbundle bit_operations_syntax

text \<open>
  Chunks as sets of offsets: the invariant of a chunk, and that every operation on chunks keeps it, computes the
  operation on sets, and says truly whether the chunk has changed.
\<close>

section \<open>Words of a chunk\<close>

lemma chunk_consts [simp]: "CHUNK_WORDS = 32" "CHUNK_BITS = 2048"
  by (simp_all add: CHUNK_WORDS_def CHUNK_BITS_def WORD_BITS_def)

lemma chunk_word_index_and_mask_eq [simp]:
  "chunk_word_index_and_mask x = (x mod 2048 div 64, 2 ^ (x mod 2048 mod 64))"
  by (simp add: chunk_word_index_and_mask_def)

lemma chunk_word_in_range [simp]: "x mod 2048 div 64 < (32 :: nat)"
  by (simp add: div_less_iff_less_mult)

lemma num_words_chunk: "n \<le> 2048 \<Longrightarrow> num_words n \<le> 32"
  using num_words_mono [of n 2048] by (simp add: num_words_def WORD_BITS_def)

lemma bits_append: "i \<in> bits (ws @ vs) \<longleftrightarrow> i \<in> bits ws \<or> 64 * length ws \<le> i \<and> i - 64 * length ws \<in> bits vs"
proof (cases "i div 64 < length ws")
  case True
  then have "i < 64 * length ws" by (simp add: div_less_iff_less_mult mult.commute)
  then show ?thesis using True by (simp add: bits_def nth_append)
next
  case False
  then have "64 * length ws \<le> i" by (simp add: not_less less_eq_div_iff_mult_less_eq mult.commute)
  then obtain j where j: "i = j + 64 * length ws" by (metis le_add_diff_inverse2)
  have "i div 64 = j div 64 + length ws" "i mod 64 = j mod 64" using j by simp_all
  then show ?thesis using False j by (auto simp: bits_def nth_append)
qed

lemma bits_take_used:
  assumes "bits ws \<subseteq> {..<n}"
  shows "bits (take (num_words n) ws) = bits ws"
proof (rule set_eqI)
  fix i
  have "i div 64 < num_words n" if "i \<in> bits ws" using that assms index_word by blast
  then show "i \<in> bits (take (num_words n) ws) \<longleftrightarrow> i \<in> bits ws" by (auto simp: bits_def)
qed

lemma bits_set_prefix:
  assumes "bits ws \<subseteq> {..<n}" "length vs = num_words n"
  shows "bits (set_prefix vs ws) = bits vs"
proof -
  have "x \<notin> bits (drop (num_words n) ws)" for x
  proof
    assume "x \<in> bits (drop (num_words n) ws)"
    then have "64 * num_words n + x \<in> bits ws \<and> num_words n \<le> (64 * num_words n + x) div 64" using bits_drop by blast
    then show False using assms(1) index_word [of "64 * num_words n + x" n] by auto
  qed
  then show ?thesis using assms(2) by (auto simp: set_prefix_def bits_append)
qed

lemma length_set_prefix: "length vs \<le> length ws \<Longrightarrow> length (set_prefix vs ws) = length ws"
  by (simp add: set_prefix_def)

lemma and_word_correct:
  assumes "x div 64 < length ws"
  shows "\<exists>vs. and_word (x div 64) (NOT (2 ^ (x mod 64))) ws = Some vs \<and> length vs = length ws \<and> bits vs = bits ws - {x}"
proof -
  have "i \<in> bits (ws[x div 64 := ws ! (x div 64) AND NOT (2 ^ (x mod 64))]) \<longleftrightarrow> i \<in> bits ws - {x}" for i
    using assms div_mod_eqI [of i x] by (auto simp: mem_bits_update mem_bits bit_and_iff bit_not_iff)
  then show ?thesis using assms by (auto simp: and_word_def vec_set_def)
qed

lemma or_word_insert:
  assumes "x div 64 < length ws"
  shows "\<exists>vs. or_word (x div 64) (2 ^ (x mod 64)) ws = Some vs \<and> length vs = length ws \<and> bits vs = insert x (bits ws)"
proof -
  obtain vs where "or_word (x div 64) (2 ^ (x mod 64)) ws = Some vs" "length vs = length ws"
    "\<And>i. i \<in> bits vs \<longleftrightarrow> i \<in> bits ws \<or> i div 64 = x div 64 \<and> i mod 64 = x mod 64"
    using or_word_correct [OF assms, of "2 ^ (x mod 64)" "\<lambda>i. i = x mod 64"] by auto
  moreover from this have "bits vs = insert x (bits ws)" using div_mod_eqI by blast
  ultimately show ?thesis by blast
qed

section \<open>Searching for changes\<close>

lemma would_modify_subchunk_eq: "length l = length r \<Longrightarrow> would_modify_subchunk f l r \<longleftrightarrow> map2 f l r \<noteq> l"
  using update_words_loop_eq [of l r f 0] by (simp add: would_modify_subchunk_def)

lemma map2_split:
  "length l = length r \<Longrightarrow> map2 f l r = map2 f (take n l) (take n r) @ map2 f (drop n l) (drop n r)"
  by (metis append_take_drop_id length_take map_append zip_append)

lemma as_chunks_modify:
  assumes "length l = length r" "0 < n"
  shows "list_ex (\<lambda>(l, r). would_modify_subchunk f l r) (zip (fst (as_chunks n l)) (fst (as_chunks n r))) \<or>
      would_modify_subchunk f (snd (as_chunks n l)) (snd (as_chunks n r)) \<longleftrightarrow> map2 f l r \<noteq> l"
  using assms
proof (induction n l arbitrary: r rule: as_chunks.induct)
  case (1 n l)
  show ?case
  proof (cases "length l < n")
    case True
    then show ?thesis
      using 1(2) would_modify_subchunk_eq [of l r f] as_chunks.simps [of n l] as_chunks.simps [of n r] by simp
  next
    case False
    then have unfold: "as_chunks n l = (take n l # fst (as_chunks n (drop n l)), snd (as_chunks n (drop n l)))"
      "as_chunks n r = (take n r # fst (as_chunks n (drop n r)), snd (as_chunks n (drop n r)))"
      using 1(2,3) as_chunks.simps [of n l] as_chunks.simps [of n r] by (simp_all add: case_prod_beta)
    have "map2 f l r = l \<longleftrightarrow> map2 f (take n l) (take n r) = take n l \<and> map2 f (drop n l) (drop n r) = drop n l"
    proof -
      have "map2 f l r = take n l @ drop n l \<longleftrightarrow>
          map2 f (take n l) (take n r) = take n l \<and> map2 f (drop n l) (drop n r) = drop n l"
        unfolding map2_split [OF 1(2), of f n] by (rule append_eq_append_conv) (use 1(2) in simp)
      then show ?thesis by simp
    qed
    moreover have "would_modify_subchunk f (take n l) (take n r) \<longleftrightarrow> map2 f (take n l) (take n r) \<noteq> take n l"
      using 1(2) by (intro would_modify_subchunk_eq) simp
    ultimately show ?thesis
      using 1(1) [of "drop n r"] 1(2,3) False unfold by auto
  qed
qed

lemma would_modify_words_eq: "length l = length r \<Longrightarrow> would_modify_words f l r = Some (map2 f l r \<noteq> l)"
  using as_chunks_modify [of l r 8 f] by (simp add: would_modify_words_def case_prod_beta)

lemma update_words_eq: "length l = length r \<Longrightarrow> update_words f l r = Some (map2 f l r, map2 f l r \<noteq> l)"
  using update_words_loop_eq [of l r f 0] by (simp add: update_words_def case_prod_beta)

section \<open>Chunks\<close>

fun chunk_elems :: "chunk \<Rightarrow> nat set" where
  "chunk_elems (Zeros _) = {}"
| "chunk_elems (Ones n) = {..<unat n}"
| "chunk_elems (Mixed _ _ ws) = bits ws"

text \<open>A chunk for \<open>n\<close> elements; one with words is neither empty nor full, and its count is right.\<close>

fun chunk_inv :: "nat \<Rightarrow> chunk \<Rightarrow> bool" where
  "chunk_inv n (Zeros k) \<longleftrightarrow> unat k = n"
| "chunk_inv n (Ones k) \<longleftrightarrow> unat k = n"
| "chunk_inv n (Mixed k ones_count ws) \<longleftrightarrow>
     unat k = n \<and> length ws = 32 \<and> bits ws \<subseteq> {..<n} \<and> unat ones_count = card (bits ws) \<and> 0 < card (bits ws) \<and> card (bits ws) < n"

lemma chunk_elems_bounded: "chunk_inv n c \<Longrightarrow> chunk_elems c \<subseteq> {..<n}"
  by (cases c) auto

lemma chunk_count_card: "chunk_inv n c \<Longrightarrow> chunk_count c = card (chunk_elems c)"
  by (cases c) auto

lemma chunk_contains_correct:
  assumes "chunk_inv n c" "x mod 2048 < n" "n \<le> 2048"
  shows "chunk_contains c x = Some (x mod 2048 \<in> chunk_elems c)"
proof (cases c)
  case (Mixed k oc ws)
  have "x mod 2048 div 64 < length ws" using assms(1) Mixed by simp
  then show ?thesis using Mixed and_mask_zero [of "x mod 2048 mod 64" "ws ! (x mod 2048 div 64)"]
    by (simp add: chunk_contains_def mem_bits)
qed (use assms in \<open>auto simp: chunk_contains_def\<close>)

lemma zeros_words: "length (replicate 32 (0 :: u64)) = 32" "bits (replicate 32 0) = {}"
  using bits_replicate by simp_all

lemma unat_one_u16: "unat (1 :: chunk_size) = 1"
  by simp

text \<open>What an update of a chunk to the elements \<open>S\<close> returns.\<close>

definition chunk_updated :: "nat \<Rightarrow> chunk \<Rightarrow> nat set \<Rightarrow> (chunk \<times> bool) option \<Rightarrow> bool" where
  "chunk_updated n c S r \<longleftrightarrow> (\<exists>c'. r = Some (c', S \<noteq> chunk_elems c) \<and> chunk_inv n c' \<and> chunk_elems c' = S)"

lemma chunk_insert_mixed:
  assumes inv: "chunk_inv n (Mixed k oc ws)" and e: "x mod 2048 < n" and n: "n \<le> 2048"
  shows "chunk_updated n (Mixed k oc ws) (insert (x mod 2048) (bits ws)) (chunk_insert (Mixed k oc ws) x)"
proof -
  let ?e = "x mod 2048"
  have i: "unat k = n" "length ws = 32" "bits ws \<subseteq> {..<n}" "unat oc = card (bits ws)" "0 < card (bits ws)" "card (bits ws) < n"
    using inv by simp_all
  have idx: "?e div 64 < length ws" using i(2) by simp
  have mask: "ws ! (?e div 64) AND 2 ^ (?e mod 64) = 0 \<longleftrightarrow> ?e \<notin> bits ws"
    using idx and_mask_zero [of "?e mod 64" "ws ! (?e div 64)"] by (simp add: mem_bits)
  show ?thesis
  proof (cases "?e \<in> bits ws")
    case True
    then show ?thesis using inv idx mask by (auto simp: chunk_insert_def chunk_updated_def insert_absorb)
  next
    case False
    obtain vs where vs: "or_word (?e div 64) (2 ^ (?e mod 64)) ws = Some vs" "length vs = length ws" "bits vs = insert ?e (bits ws)"
      using or_word_insert [OF idx] by blast
    have add: "checked_add oc 1 = Some (oc + 1)" "unat (oc + 1) = card (bits ws) + 1"
      using i(4,6) n by (simp_all add: checked_add_def unat_word_ariths)
    have card: "card (insert ?e (bits ws)) = card (bits ws) + 1" using False finite_bits by simp
    have less: "oc + 1 < k \<longleftrightarrow> card (bits ws) + 1 < n" using add(2) i(1) by (simp add: word_less_nat_alt)
    have full: "insert ?e (bits ws) = {..<n}" if "\<not> card (bits ws) + 1 < n"
      using that card i(3,6) e by (intro card_subset_eq) auto
    show ?thesis
      using False idx mask add vs card less full i e by (auto simp: chunk_insert_def chunk_updated_def)
  qed
qed

lemma chunk_insert_correct:
  assumes inv: "chunk_inv n c" and e: "x mod 2048 < n" and n: "n \<le> 2048"
  shows "chunk_updated n c (insert (x mod 2048) (chunk_elems c)) (chunk_insert c x)"
proof (cases c)
  case (Zeros k)
  then have k: "unat k = n" "1 < k \<longleftrightarrow> 1 < n" using inv by (simp_all add: word_less_nat_alt)
  obtain ws where ws: "or_word (x mod 2048 div 64) (2 ^ (x mod 2048 mod 64)) (replicate 32 0) = Some ws" "length ws = 32"
    "bits ws = {x mod 2048}"
    using or_word_insert [of "x mod 2048" "replicate 32 0"] zeros_words by auto
  show ?thesis
  proof (cases "1 < n")
    case True
    then show ?thesis using Zeros k ws e by (simp add: chunk_insert_def chunk_updated_def)
  next
    case False
    then have "n = 1" "x mod 2048 = 0" using e by simp_all
    then show ?thesis using Zeros k by (auto simp: chunk_insert_def chunk_updated_def)
  qed
next
  case (Ones k)
  then show ?thesis using inv e by (auto simp: chunk_insert_def chunk_updated_def insert_absorb)
next
  case (Mixed k oc ws)
  then show ?thesis using chunk_insert_mixed [of n k oc ws x] assms by simp
qed

lemma bits_filled:
  assumes "n \<le> 2048"
  obtains ws where "clear_excess_bits_in_final_word n (replicate (num_words n) (NOT 0)) = Some ws" "length ws = num_words n"
    "length (set_prefix ws (replicate 32 0)) = 32" "bits (set_prefix ws (replicate 32 0)) = {..<n}"
proof -
  obtain ws where ws: "clear_excess_bits_in_final_word n (replicate (num_words n) (NOT 0)) = Some ws" "length ws = num_words n"
    "bits ws = {..<n}"
    using clear_excess_correct [of "replicate (num_words n) (NOT 0)" n] bits_full [of n] by auto
  have "bits (set_prefix ws (replicate 32 0)) = bits ws"
    using ws(2) zeros_words by (intro bits_set_prefix [of _ n]) simp_all
  then show ?thesis using that ws num_words_chunk [OF assms] by (simp add: length_set_prefix)
qed

lemma chunk_remove_mixed:
  assumes inv: "chunk_inv n (Mixed k oc ws)" and e: "x mod 2048 < n" and n: "n \<le> 2048"
  shows "chunk_updated n (Mixed k oc ws) (bits ws - {x mod 2048}) (chunk_remove (Mixed k oc ws) x)"
proof -
  let ?e = "x mod 2048"
  have i: "unat k = n" "length ws = 32" "bits ws \<subseteq> {..<n}" "unat oc = card (bits ws)" "0 < card (bits ws)" "card (bits ws) < n"
    using inv by simp_all
  have idx: "?e div 64 < length ws" using i(2) by simp
  have mask: "ws ! (?e div 64) AND 2 ^ (?e mod 64) = 0 \<longleftrightarrow> ?e \<notin> bits ws"
    using idx and_mask_zero [of "?e mod 64" "ws ! (?e div 64)"] by (simp add: mem_bits)
  show ?thesis
  proof (cases "?e \<in> bits ws")
    case False
    then show ?thesis using inv idx mask by (auto simp: chunk_remove_def chunk_updated_def)
  next
    case True
    obtain vs where vs: "and_word (?e div 64) (NOT (2 ^ (?e mod 64))) ws = Some vs" "length vs = length ws" "bits vs = bits ws - {?e}"
      using and_word_correct [OF idx] by blast
    have sub: "checked_sub oc 1 = Some (oc - 1)" "unat (oc - 1) = card (bits ws) - 1"
      using i(4,5) by (simp_all add: checked_sub_def word_le_nat_alt unat_sub_if')
    have card: "card (bits ws - {?e}) = card (bits ws) - 1" using True finite_bits by simp
    have pos: "0 < oc - 1 \<longleftrightarrow> 0 < card (bits ws) - 1" using sub(2) by (simp add: word_less_nat_alt)
    have empty: "bits ws - {?e} = {}" if "\<not> 0 < card (bits ws) - 1"
      using that card finite_bits [of ws] by (metis card_0_eq finite_Diff not_gr_zero)
    show ?thesis
      using True idx mask sub vs card pos empty i by (auto simp: chunk_remove_def chunk_updated_def)
  qed
qed

lemma chunk_remove_correct:
  assumes inv: "chunk_inv n c" and e: "x mod 2048 < n" and n: "n \<le> 2048"
  shows "chunk_updated n c (chunk_elems c - {x mod 2048}) (chunk_remove c x)"
proof (cases c)
  case (Zeros k)
  then show ?thesis using inv by (simp add: chunk_remove_def chunk_updated_def)
next
  case (Ones k)
  let ?e = "x mod 2048"
  have k: "unat k = n" "1 < k \<longleftrightarrow> 1 < n" using inv Ones by (simp_all add: word_less_nat_alt)
  obtain ws where ws: "clear_excess_bits_in_final_word n (replicate (num_words n) (NOT 0)) = Some ws"
    "length (set_prefix ws (replicate 32 0)) = 32" "bits (set_prefix ws (replicate 32 0)) = {..<n}"
    using bits_filled [OF n] by blast
  obtain vs where vs: "and_word (?e div 64) (NOT (2 ^ (?e mod 64))) (set_prefix ws (replicate 32 0)) = Some vs" "length vs = 32"
    "bits vs = {..<n} - {?e}"
    using and_word_correct [of ?e "set_prefix ws (replicate 32 0)"] ws(2,3) by auto
  have ne: "{..<n} - {?e} \<noteq> {..<n}" using e by auto
  show ?thesis
  proof (cases "1 < n")
    case True
    have "checked_sub k 1 = Some (k - 1)" "unat (k - 1) = n - 1"
      using True k by (simp_all add: checked_sub_def word_le_nat_alt unat_sub_if')
    then show ?thesis
      using Ones True k ws(1) vs ne e num_words_chunk [OF n] by (simp add: chunk_remove_def chunk_updated_def)
  next
    case False
    then have "n = 1" "?e = 0" using e by simp_all
    then show ?thesis using Ones k by (auto simp: chunk_remove_def chunk_updated_def)
  qed
next
  case (Mixed k oc ws)
  then show ?thesis using chunk_remove_mixed [of n k oc ws x] assms by simp
qed

section \<open>Relations\<close>

lemma chunk_size_eq: "unat k = n \<Longrightarrow> unat l = n \<Longrightarrow> k = (l :: chunk_size)"
  by (metis word_unat_eq_iff)

lemma unat_count: "card S \<le> 2048 \<Longrightarrow> unat (of_nat (card S) :: chunk_size) = card S"
  by (simp add: unat_of_nat_less)

lemma mixed_relation_correct:
  assumes c: "chunk_inv n (Mixed k oc ws)" and d: "chunk_inv n (Mixed k' oc' vs)" and n: "n \<le> 2048"
    and f: "\<And>a b i. i < 64 \<Longrightarrow> bit (f a b) i \<longleftrightarrow> P (bit a i) (bit b i)" "\<not> P False False"
    and S: "S = {i. P (i \<in> bits ws) (i \<in> bits vs)}"
    and full: "case full k (of_nat (card S)) of Some c' \<Rightarrow> chunk_inv n c' \<and> chunk_elems c' = S | None \<Rightarrow> 0 < card S \<and> card S < n"
  shows "chunk_updated n (Mixed k oc ws) S (mixed_relation f full k oc ws vs)"
proof -
  let ?u = "num_words n"
  let ?l = "take ?u ws" and ?r = "take ?u vs"
  have i: "unat k = n" "length ws = 32" "length vs = 32" "bits ws \<subseteq> {..<n}" "bits vs \<subseteq> {..<n}" using c d by simp_all
  have u: "?u \<le> 32" using num_words_chunk [OF n] .
  have bl: "bits ?l = bits ws" "bits ?r = bits vs" using bits_take_used i(4,5) by blast+
  have len: "length ?l = length ?r" "length ?l = ?u" using i u by simp_all
  have bounded: "S \<subseteq> {..<n}"
  proof
    fix x assume "x \<in> S"
    then have "x \<in> bits ws \<or> x \<in> bits vs" using S f(2) by (metis (full_types) mem_Collect_eq)
    then show "x \<in> {..<n}" using i(4,5) by blast
  qed
  have m: "bits (map2 f ?l ?r) = S"
  proof (rule set_eqI)
    fix x
    have "x div 64 < length ?l" if "x \<in> S" using that bounded index_word len(2) by (metis lessThan_iff subsetD)
    then show "x \<in> bits (map2 f ?l ?r) \<longleftrightarrow> x \<in> S"
      using mem_bits_map2 [OF len(1), where f = f and P = P and i = x] f(1) S bl by auto
  qed
  have eq: "map2 f ?l ?r = ?l \<longleftrightarrow> S = bits ws" using bits_eq_iff [of "map2 f ?l ?r" ?l] len m bl(1) by simp
  have pre: "prefix_slice ?u ws = Some ?l" "prefix_slice ?u vs = Some ?r" using i u by (simp_all add: prefix_slice_def)
  show ?thesis
  proof (cases "S = bits ws")
    case True
    then show ?thesis using c eq i(1) pre would_modify_words_eq [OF len(1)]
      by (simp add: mixed_relation_def chunk_updated_def)
  next
    case False
    let ?ws = "set_prefix (map2 f ?l ?r) ws"
    have r: "mixed_relation f full k oc ws vs =
        Some (case full k (of_nat (card S)) of Some c' \<Rightarrow> c' | None \<Rightarrow> Mixed k (of_nat (card S)) ?ws, True)"
      using False eq i(1) pre would_modify_words_eq [OF len(1)] update_words_eq [OF len(1)] m
      by (simp add: mixed_relation_def count_ones_card Let_def split: option.split)
    have "bits ?ws = S" "length ?ws = 32"
      using bits_set_prefix [OF i(4), of "map2 f ?l ?r"] length_set_prefix [of "map2 f ?l ?r" ws] len m i(2) u by simp_all
    moreover have "card S \<le> 2048" using card_mono [OF _ bounded] n by simp
    ultimately show ?thesis using r full False i(1) bounded
      by (auto simp: chunk_updated_def unat_count split: option.splits)
  qed
qed

text \<open>A union of words that fills the chunk makes it a chunk of ones; an operation that removes elements may leave a
  chunk of zeros.\<close>

lemma mixed_union_correct:
  assumes c: "chunk_inv n (Mixed k oc ws)" and d: "chunk_inv n (Mixed k' oc' vs)" and n: "n \<le> 2048"
  shows "chunk_updated n (Mixed k oc ws) (bits ws \<union> bits vs)
    (mixed_relation (\<lambda>a b. a OR b) (\<lambda>n ones'. if ones' = n then Some (Ones n) else None) k oc ws vs)"
proof -
  define S where "S = bits ws \<union> bits vs"
  have b: "S \<subseteq> {..<n}" "finite S" "bits ws \<subseteq> S" "unat k = n" "0 < card (bits ws)" using c d finite_bits by (auto simp: S_def)
  then have card: "card S \<le> n" "0 < card S" using card_mono [of "{..<n}" S] card_mono [of S "bits ws"] by auto
  have "case (if of_nat (card S) = k then Some (Ones k) else None) of
      Some c' \<Rightarrow> chunk_inv n c' \<and> chunk_elems c' = S | None \<Rightarrow> 0 < card S \<and> card S < n"
  proof (cases "card S = n")
    case True
    then have "S = {..<n}" using b(1) by (intro card_subset_eq) auto
    moreover have "of_nat (card S) = k" by (simp add: True flip: b(4))
    ultimately show ?thesis using b(4) by simp
  next
    case False
    then have "of_nat (card S) \<noteq> k" using card(1) n b(4) unat_count [of S] by auto
    then show ?thesis using False card by simp
  qed
  moreover have "S = {i. i \<in> bits ws \<or> i \<in> bits vs}" by (auto simp: S_def)
  ultimately show ?thesis
    unfolding S_def [symmetric] by (intro mixed_relation_correct [OF c d n, where P = "(\<or>)"]) (simp_all add: bit_or_iff)
qed

lemma mixed_removal_correct:
  assumes c: "chunk_inv n (Mixed k oc ws)" and d: "chunk_inv n (Mixed k' oc' vs)" and n: "n \<le> 2048"
    and f: "\<And>a b i. i < 64 \<Longrightarrow> bit (f a b) i \<longleftrightarrow> P (bit a i) (bit b i)" and P: "\<And>b. \<not> P False b"
    and S: "S = {i. P (i \<in> bits ws) (i \<in> bits vs)}"
  shows "chunk_updated n (Mixed k oc ws) S
    (mixed_relation f (\<lambda>n ones'. if ones' = 0 then Some (Zeros n) else None) k oc ws vs)"
proof -
  have sub: "S \<subseteq> bits ws"
  proof
    fix x assume "x \<in> S"
    then have "P (x \<in> bits ws) (x \<in> bits vs)" by (simp add: S)
    then show "x \<in> bits ws" using P by (cases "x \<in> bits ws") auto
  qed
  have i: "unat k = n" "card (bits ws) < n" using c by simp_all
  have card: "card S < n" "finite S" using card_mono [OF finite_bits sub] i(2) finite_subset [OF sub finite_bits] by simp_all
  have "unat (of_nat (card S) :: chunk_size) = card S" using card(1) n by (intro unat_count) simp
  then have "of_nat (card S) = (0 :: chunk_size) \<longleftrightarrow> S = {}" using card(2) by (metis card_0_eq unat_eq_zero)
  then have "case (if of_nat (card S) = (0 :: chunk_size) then Some (Zeros k) else None) of
      Some c' \<Rightarrow> chunk_inv n c' \<and> chunk_elems c' = S | None \<Rightarrow> 0 < card S \<and> card S < n"
    using card i(1) by (cases "S = {}") (simp_all add: card_gt_0_iff)
  then show ?thesis by (intro mixed_relation_correct [OF c d n f P S]) simp_all
qed

lemma chunk_union_correct:
  assumes c: "chunk_inv n c" and d: "chunk_inv n d" and n: "n \<le> 2048" and pos: "0 < n"
  shows "chunk_updated n c (chunk_elems c \<union> chunk_elems d) (chunk_union c d)"
proof (cases c)
  case (Mixed k oc ws)
  show ?thesis
  proof (cases d)
    case d': (Mixed k' oc' vs)
    show ?thesis
    proof (cases "take (num_words n) ws = take (num_words n) vs")
      case True
      then have "bits ws = bits vs" using c d Mixed d' bits_take_used by (metis chunk_inv.simps(3))
      then show ?thesis using Mixed d' c d True num_words_chunk [OF n]
        by (simp add: chunk_union_def chunk_updated_def prefix_slice_def)
    next
      case False
      then show ?thesis using mixed_union_correct [OF c [unfolded Mixed] d [unfolded d'] n] Mixed d' c d num_words_chunk [OF n]
        by (simp add: chunk_union_def prefix_slice_def)
    qed
  next
    case (Ones k')
    have "bits ws \<subseteq> {..<n}" "card (bits ws) < n" using c Mixed by simp_all
    then have "bits ws \<union> {..<n} = {..<n}" "bits ws \<noteq> {..<n}" by auto
    then show ?thesis using c d Mixed Ones by (auto simp: chunk_union_def chunk_updated_def)
  qed (use c Mixed in \<open>auto simp: chunk_union_def chunk_updated_def\<close>)
next
  case (Ones k)
  then have "chunk_elems c \<union> chunk_elems d = chunk_elems c" using c chunk_elems_bounded [OF d] by auto
  then show ?thesis using Ones c by (cases d) (simp_all add: chunk_union_def chunk_updated_def)
next
  case (Zeros k)
  show ?thesis
  proof (cases d)
    case d': (Mixed k' oc' vs)
    then have "bits vs \<noteq> {}" using d by auto
    then show ?thesis using Zeros d' d by (simp add: chunk_union_def chunk_updated_def)
  next
    case (Ones k')
    then show ?thesis using Zeros c d pos by (auto simp: chunk_union_def chunk_updated_def lessThan_empty_iff)
  qed (use c Zeros in \<open>auto simp: chunk_union_def chunk_updated_def\<close>)
qed

lemma chunk_subtract_ones:
  assumes d: "chunk_inv n (Mixed k' oc vs)" and k: "unat k = n" and n: "n \<le> 2048" and pos: "0 < n"
  shows "chunk_updated n (Ones k) ({..<n} - bits vs) (chunk_subtract (Ones k) (Mixed k' oc vs))"
proof -
  let ?r = "take (num_words n) vs"
  have i: "length vs = 32" "bits vs \<subseteq> {..<n}" "unat oc = card (bits vs)" "0 < card (bits vs)" "card (bits vs) < n"
    using d by simp_all
  have u: "num_words n \<le> 32" "0 < num_words n" using num_words_chunk [OF n] index_word [of 0 n] pos by simp_all
  have len: "length (map (\<lambda>w. NOT w) ?r) = num_words n" using i(1) u(1) by simp
  have "x \<in> bits (map (\<lambda>w. NOT w) ?r) \<longleftrightarrow> x \<notin> bits vs" if "x < n" for x
  proof -
    have "x div 64 < num_words n" "x div 64 < length ?r" using index_word [OF that] len by simp_all
    then have "x \<in> bits (map (\<lambda>w. NOT w) ?r) \<longleftrightarrow> x \<notin> bits ?r" by (simp add: mem_bits bit_not_iff)
    then show ?thesis using bits_take_used [OF i(2)] by simp
  qed
  then obtain ws where ws: "clear_excess_bits_in_final_word n (map (\<lambda>w. NOT w) ?r) = Some ws" "length ws = num_words n"
    "bits ws = {..<n} - bits vs"
    using clear_excess_correct [OF len] len by auto
  have card: "card ({..<n} - bits vs) = n - card (bits vs)" using i(2) finite_bits by (simp add: card_Diff_subset)
  have sub: "checked_sub k oc = Some (k - oc)" "unat (k - oc) = n - card (bits vs)"
    using i(3,5) k by (simp_all add: checked_sub_def word_le_nat_alt unat_sub_if')
  have "unat (of_nat (count_ones ws) :: chunk_size) = n - card (bits vs)"
    using ws(3) card n by (simp add: count_ones_card unat_of_nat_less)
  then have "k - oc = of_nat (count_ones ws)" using sub(2) chunk_size_eq by metis
  moreover have "bits (set_prefix ws vs) = {..<n} - bits vs" "length (set_prefix ws vs) = 32"
    using bits_set_prefix [OF i(2) ws(2)] length_set_prefix [of ws vs] ws i(1) u(1) by simp_all
  moreover have "{..<n} - bits vs \<noteq> {..<n}" using i(2) card i(4) pos by (metis card_lessThan diff_less less_irrefl)
  ultimately show ?thesis
    using k ws(1) sub u i card by (auto simp: chunk_subtract_def chunk_updated_def prefix_slice_def)
qed

lemma chunk_subtract_correct:
  assumes c: "chunk_inv n c" and d: "chunk_inv n d" and n: "n \<le> 2048" and pos: "0 < n"
  shows "chunk_updated n c (chunk_elems c - chunk_elems d) (chunk_subtract c d)"
proof (cases c)
  case (Mixed k oc ws)
  show ?thesis
  proof (cases d)
    case d': (Mixed k' oc' vs)
    have "bits ws - bits vs = {i. i \<in> bits ws \<and> i \<notin> bits vs}" by auto
    then show ?thesis
      using mixed_removal_correct [OF c [unfolded Mixed] d [unfolded d'] n, of "\<lambda>a b. a AND NOT b" "\<lambda>a b. a \<and> \<not> b"] Mixed d'
      by (simp add: chunk_subtract_def bit_and_iff bit_not_iff)
  next
    case (Ones k')
    have "bits ws \<subseteq> {..<n}" "bits ws \<noteq> {}" using c Mixed by auto
    then show ?thesis using c d Mixed Ones by (auto simp: chunk_subtract_def chunk_updated_def)
  qed (use c Mixed in \<open>auto simp: chunk_subtract_def chunk_updated_def\<close>)
next
  case (Ones k)
  show ?thesis
  proof (cases d)
    case d': (Mixed k' oc' vs)
    then show ?thesis using chunk_subtract_ones [OF d [unfolded d'] _ n pos, of k] Ones c by simp
  qed (use c d pos Ones in \<open>auto simp: chunk_subtract_def chunk_updated_def lessThan_empty_iff\<close>)
next
  case (Zeros k)
  then show ?thesis using c by (cases d) (simp_all add: chunk_subtract_def chunk_updated_def)
qed

lemma chunk_intersect_correct:
  assumes c: "chunk_inv n c" and d: "chunk_inv n d" and n: "n \<le> 2048" and pos: "0 < n"
  shows "chunk_updated n c (chunk_elems c \<inter> chunk_elems d) (chunk_intersect c d)"
proof (cases c)
  case (Mixed k oc ws)
  show ?thesis
  proof (cases d)
    case d': (Mixed k' oc' vs)
    have "bits ws \<inter> bits vs = {i. i \<in> bits ws \<and> i \<in> bits vs}" by auto
    then show ?thesis
      using mixed_removal_correct [OF c [unfolded Mixed] d [unfolded d'] n, of "\<lambda>a b. a AND b" "\<lambda>a b. a \<and> b"] Mixed d'
      by (simp add: chunk_intersect_def bit_and_iff)
  next
    case (Ones k')
    have "bits ws \<inter> {..<n} = bits ws" using c Mixed by auto
    then show ?thesis using c d Mixed Ones by (simp add: chunk_intersect_def chunk_updated_def)
  next
    case (Zeros k')
    have "bits ws \<noteq> {}" using c Mixed by auto
    then show ?thesis using c d Mixed Zeros by (simp add: chunk_intersect_def chunk_updated_def)
  qed
next
  case (Ones k)
  show ?thesis
  proof (cases d)
    case d': (Mixed k' oc' vs)
    have "{..<n} \<inter> bits vs = bits vs" "bits vs \<noteq> {..<n}" using d d' by auto
    then show ?thesis using c d Ones d' by (simp add: chunk_intersect_def chunk_updated_def)
  qed (use c d pos Ones in \<open>auto simp: chunk_intersect_def chunk_updated_def lessThan_empty_iff\<close>)
next
  case (Zeros k)
  then show ?thesis using c by (cases d) (simp_all add: chunk_intersect_def chunk_updated_def)
qed

end
