(* ===== verification/Chunked_Set.thy ===== *)
theory Chunked_Set
  imports Chunked_Props
begin

text \<open>
  Chunked sets as sets of indices: which indices a list of chunks holds, the invariant of \<open>ChunkedBitSet\<close>, and that
  its operations compute those on sets and say truly whether the set has changed.
\<close>

section \<open>The elements\<close>

definition chunked_elems :: "chunked_bit_set \<Rightarrow> nat set" where
  "chunked_elems s =
     {i. i div 2048 < length (cb_chunks s) \<and> i mod 2048 \<in> chunk_elems (cb_chunks s ! (i div 2048))}"

text \<open>The size of a chunk: only the last one may have fewer than 2048 elements.\<close>

definition chunk_len :: "nat \<Rightarrow> nat \<Rightarrow> nat" where
  "chunk_len d k = min 2048 (d - 2048 * k)"

definition chunked_inv :: "nat \<Rightarrow> chunked_bit_set \<Rightarrow> bool" where
  "chunked_inv d s \<longleftrightarrow>
     cb_domain_size s = d \<and> length (cb_chunks s) = (d + 2047) div 2048 \<and>
     (\<forall>k < length (cb_chunks s). chunk_inv (chunk_len d k) (cb_chunks s ! k))"

lemma chunk_len_le: "chunk_len d k \<le> 2048"
  by (simp add: chunk_len_def)

lemma chunk_len_pos: "k < (d + 2047) div 2048 \<Longrightarrow> 0 < chunk_len d k"
  by (simp add: chunk_len_def)

lemma index_chunk:
  assumes "x < d"
  shows "x div 2048 < (d + 2047) div 2048" "x mod 2048 < chunk_len d (x div 2048)"
proof -
  show "x div 2048 < (d + 2047) div 2048" using assms by linarith
  have "x = 2048 * (x div 2048) + x mod 2048" by simp
  then have "x mod 2048 < d - 2048 * (x div 2048)" using assms by linarith
  then show "x mod 2048 < chunk_len d (x div 2048)" by (simp add: chunk_len_def)
qed

lemma chunked_inv_simps:
  assumes "chunked_inv d s"
  shows "cb_domain_size s = d" "length (cb_chunks s) = (d + 2047) div 2048"
    "k < (d + 2047) div 2048 \<Longrightarrow> chunk_inv (chunk_len d k) (cb_chunks s ! k)"
  using assms by (simp_all add: chunked_inv_def)

lemma mem_chunk_small: "chunked_inv d s \<Longrightarrow> k < (d + 2047) div 2048 \<Longrightarrow> e \<in> chunk_elems (cb_chunks s ! k) \<Longrightarrow> e < 2048"
  using chunk_elems_bounded [OF chunked_inv_simps(3)] chunk_len_le [of d k] by fastforce

lemma chunked_elems_bounded: "chunked_inv d s \<Longrightarrow> chunked_elems s \<subseteq> {..<d}"
proof
  fix i assume s: "chunked_inv d s" and "i \<in> chunked_elems s"
  then have "i div 2048 < (d + 2047) div 2048" "i mod 2048 \<in> chunk_elems (cb_chunks s ! (i div 2048))"
    using chunked_inv_simps(2) [OF s] by (simp_all add: chunked_elems_def)
  then have "i mod 2048 < chunk_len d (i div 2048)" using chunk_elems_bounded [OF chunked_inv_simps(3) [OF s]] by auto
  then have "i mod 2048 < d - 2048 * (i div 2048)" by (simp add: chunk_len_def)
  then have "2048 * (i div 2048) + i mod 2048 < d" by linarith
  then show "i \<in> {..<d}" by (simp only: mult_div_mod_eq lessThan_iff)
qed

text \<open>The elements of a chunk are those of the set from its offset on.\<close>

lemma mem_chunk:
  assumes "chunked_inv d s" "k < (d + 2047) div 2048"
  shows "e \<in> chunk_elems (cb_chunks s ! k) \<longleftrightarrow> e < 2048 \<and> 2048 * k + e \<in> chunked_elems s"
  using assms mem_chunk_small [OF assms, of e] chunked_inv_simps(2) [OF assms(1)] by (auto simp: chunked_elems_def)

lemma chunked_elems_eqI:
  assumes s: "chunked_inv d s" and S: "S \<subseteq> {..<d}"
    and eq: "\<And>k e. k < (d + 2047) div 2048 \<Longrightarrow> e < 2048 \<Longrightarrow> e \<in> chunk_elems (cb_chunks s ! k) \<longleftrightarrow> 2048 * k + e \<in> S"
  shows "chunked_elems s = S"
proof (rule set_eqI)
  fix i
  show "i \<in> chunked_elems s \<longleftrightarrow> i \<in> S"
  proof (cases "i < d")
    case True
    then have "i div 2048 < (d + 2047) div 2048" using index_chunk by blast
    then show ?thesis using eq [of "i div 2048" "i mod 2048"] chunked_inv_simps(2) [OF s] by (simp add: chunked_elems_def)
  next
    case False
    then show ?thesis using S chunked_elems_bounded [OF s] by auto
  qed
qed

section \<open>New sets\<close>

lemma chunks_div_ceil: "(d + 2047) div 2048 = d div 2048 + (if d mod 2048 = 0 then 0 else 1)" for d :: nat
proof -
  have "(d + 2047) div 2048 = d div 2048 + (d mod 2048 + 2047) div 2048" using div_add1_eq [of d 2047 2048] by simp
  moreover have "(d mod 2048 + 2047) div 2048 = 1" if "d mod 2048 \<noteq> 0"
    using that by (intro div_nat_eqI) (simp_all add: Suc_le_eq)
  ultimately show ?thesis by simp
qed

lemma chunked_new_chunk:
  assumes k: "k < (d + 2047) div 2048"
  shows "length (cb_chunks (chunked_new d b)) = (d + 2047) div 2048"
    "\<exists>n. cb_chunks (chunked_new d b) ! k = (if b then Zeros n else Ones n) \<and> unat n = chunk_len d k"
proof -
  let ?m = "(d + 2047) div 2048"
  have pos: "d \<noteq> 0" using k by (cases d) simp_all
  show "length (cb_chunks (chunked_new d b)) = ?m" using pos by (simp add: chunked_new_def Let_def)
  define last where "last = (if d mod 2048 = 0 then 2048 else d mod 2048)"
  have chunks: "cb_chunks (chunked_new d b) ! k = (if b then Zeros else Ones) (of_nat (if k = ?m - 1 then last else 2048))"
    using pos k by (auto simp: chunked_new_def Let_def last_def nth_list_update)
  have size: "(if k = ?m - 1 then last else 2048) = chunk_len d k"
  proof (cases "k = ?m - 1")
    case True
    have "d = 2048 * (d div 2048) + d mod 2048" by simp
    then have "d - 2048 * k = last" using True k unfolding last_def chunks_div_ceil
      by (auto simp: minus_mult_div_eq_mod split: if_splits)
    then show ?thesis using True by (simp add: chunk_len_def last_def)
  next
    case False
    then have "2048 * k + 2048 \<le> d" using k by linarith
    then show ?thesis using False by (simp add: chunk_len_def)
  qed
  have "unat (of_nat (chunk_len d k) :: chunk_size) = chunk_len d k"
    using chunk_len_le [of d k] by (simp add: unat_of_nat_less)
  then show "\<exists>n. cb_chunks (chunked_new d b) ! k = (if b then Zeros n else Ones n) \<and> unat n = chunk_len d k"
    unfolding chunks size by (cases b) auto
qed

lemma chunked_new_correct:
  "chunked_inv d (chunked_new d b)" "chunked_elems (chunked_new d b) = (if b then {} else {..<d})"
proof -
  let ?s = "chunked_new d b"
  have len: "length (cb_chunks ?s) = (d + 2047) div 2048"
  proof (cases "d = 0")
    case False
    then show ?thesis using chunked_new_chunk(1) [of 0 d b] by simp
  qed (simp add: chunked_new_def)
  have chunk: "chunk_inv (chunk_len d k) (cb_chunks ?s ! k)"
    "chunk_elems (cb_chunks ?s ! k) = (if b then {} else {..<chunk_len d k})"
    if "k < (d + 2047) div 2048" for k
    using chunked_new_chunk(2) [OF that, of b] by (auto split: if_splits)
  have "cb_domain_size ?s = d" by (simp add: chunked_new_def)
  then show inv: "chunked_inv d ?s" using len chunk(1) by (simp add: chunked_inv_def)
  show "chunked_elems ?s = (if b then {} else {..<d})"
  proof (rule chunked_elems_eqI [OF inv])
    fix k e :: nat
    assume "k < (d + 2047) div 2048" "e < 2048"
    then show "e \<in> chunk_elems (cb_chunks ?s ! k) \<longleftrightarrow> 2048 * k + e \<in> (if b then {} else {..<d})"
      using chunk(2) [of k] by (auto simp: chunk_len_def)
  qed auto
qed

section \<open>Operations on elements\<close>

lemma chunked_contains_correct:
  assumes s: "chunked_inv d s" and x: "x < d"
  shows "chunked_contains s x = Some (x \<in> chunked_elems s)"
proof -
  note i = index_chunk [OF x]
  have "chunk_contains (cb_chunks s ! (x div 2048)) x = Some (x mod 2048 \<in> chunk_elems (cb_chunks s ! (x div 2048)))"
    using chunk_contains_correct [OF chunked_inv_simps(3) [OF s i(1)] i(2) chunk_len_le] .
  then show ?thesis
    using i x chunked_inv_simps [OF s] by (simp add: chunked_contains_def chunk_index_def chunked_elems_def)
qed

lemma chunked_is_empty_correct:
  assumes s: "chunked_inv d s"
  shows "chunked_is_empty s \<longleftrightarrow> chunked_elems s = {}"
proof -
  have zeros: "is_zeros (cb_chunks s ! k) \<longleftrightarrow> chunk_elems (cb_chunks s ! k) = {}" if "k < (d + 2047) div 2048" for k
    using chunked_inv_simps(3) [OF s that] chunk_len_pos [OF that]
    by (cases "cb_chunks s ! k") (auto simp: lessThan_empty_iff)
  have "chunked_elems s = {} \<longleftrightarrow> (\<forall>k < (d + 2047) div 2048. chunk_elems (cb_chunks s ! k) = {})"
  proof
    assume "chunked_elems s = {}"
    then show "\<forall>k < (d + 2047) div 2048. chunk_elems (cb_chunks s ! k) = {}" using mem_chunk [OF s] by blast
  qed (use chunked_inv_simps(2) [OF s] in \<open>auto simp: chunked_elems_def\<close>)
  then show ?thesis using zeros chunked_inv_simps(2) [OF s] by (simp add: chunked_is_empty_def list_all_length)
qed

text \<open>What an update of a set to the elements \<open>S\<close> returns.\<close>

definition chunked_updated :: "nat \<Rightarrow> chunked_bit_set \<Rightarrow> nat set \<Rightarrow> (chunked_bit_set \<times> bool) option \<Rightarrow> bool" where
  "chunked_updated d s S r \<longleftrightarrow> (\<exists>s'. r = Some (s', S \<noteq> chunked_elems s) \<and> chunked_inv d s' \<and> chunked_elems s' = S)"

lemma chunked_update_correct:
  assumes s: "chunked_inv d s" and x: "x < d" and S: "S \<subseteq> {..<d}"
    and same: "\<And>i. i \<noteq> x \<Longrightarrow> i \<in> S \<longleftrightarrow> i \<in> chunked_elems s"
    and c: "chunk_updated (chunk_len d (x div 2048)) (cb_chunks s ! (x div 2048))
      {e. e < 2048 \<and> 2048 * (x div 2048) + e \<in> S} (f (cb_chunks s ! (x div 2048)) x)"
  shows "chunked_updated d s S (chunked_update f s x)"
proof -
  let ?k = "x div 2048" and ?cs = "cb_chunks s"
  let ?E = "{e. e < 2048 \<and> 2048 * ?k + e \<in> S}"
  note k = index_chunk(1) [OF x] and len = chunked_inv_simps(2) [OF s]
  obtain c' where c': "f (?cs ! ?k) x = Some (c', ?E \<noteq> chunk_elems (?cs ! ?k))" "chunk_inv (chunk_len d ?k) c'" "chunk_elems c' = ?E"
    using c by (auto simp: chunk_updated_def)
  let ?s' = "s\<lparr>cb_chunks := ?cs[?k := c']\<rparr>"
  have flag: "?E = chunk_elems (?cs ! ?k) \<longleftrightarrow> S = chunked_elems s"
  proof
    assume eq: "?E = chunk_elems (?cs ! ?k)"
    have "x \<in> S \<longleftrightarrow> x mod 2048 \<in> ?E" by simp
    also have "\<dots> \<longleftrightarrow> x \<in> chunked_elems s" using k len by (simp add: eq chunked_elems_def)
    finally have "i \<in> S \<longleftrightarrow> i \<in> chunked_elems s" for i using same [of i] by (cases "i = x") simp_all
    then show "S = chunked_elems s" by blast
  next
    assume "S = chunked_elems s"
    then show "?E = chunk_elems (?cs ! ?k)" using mem_chunk [OF s k] by blast
  qed
  have "chunk_inv (chunk_len d j) (?cs[?k := c'] ! j)" if "j < (d + 2047) div 2048" for j
    using chunked_inv_simps(3) [OF s that] c'(2) len that by (cases "j = ?k") simp_all
  then have inv: "chunked_inv d ?s'" using s by (simp add: chunked_inv_def)
  have "chunked_elems ?s' = S"
  proof (rule chunked_elems_eqI [OF inv S])
    fix j e :: nat
    assume j: "j < (d + 2047) div 2048" "e < 2048"
    show "e \<in> chunk_elems (cb_chunks ?s' ! j) \<longleftrightarrow> 2048 * j + e \<in> S"
    proof (cases "j = ?k")
      case True
      then show ?thesis using c'(3) k len j(2) by simp
    next
      case False
      then have "2048 * j + e \<noteq> x" using j(2) by auto
      then show ?thesis using False mem_chunk [OF s j(1), of e] same [of "2048 * j + e"] j(2) by simp
    qed
  qed
  then show ?thesis
    using inv flag c'(1) k len x chunked_inv_simps(1) [OF s]
    by (simp add: chunked_updated_def chunked_update_def chunk_index_def)
qed

lemma chunk_slice:
  assumes "chunked_inv d s" "x < d"
  shows "{e. e < 2048 \<and> 2048 * (x div 2048) + e \<in> insert x (chunked_elems s)} =
      insert (x mod 2048) (chunk_elems (cb_chunks s ! (x div 2048)))"
    "{e. e < 2048 \<and> 2048 * (x div 2048) + e \<in> chunked_elems s - {x}} =
      chunk_elems (cb_chunks s ! (x div 2048)) - {x mod 2048}"
proof -
  have *: "2048 * (x div 2048) + e = x \<longleftrightarrow> e = x mod 2048" for e
    by (metis add_left_cancel mult_div_mod_eq)
  show "{e. e < 2048 \<and> 2048 * (x div 2048) + e \<in> insert x (chunked_elems s)} =
      insert (x mod 2048) (chunk_elems (cb_chunks s ! (x div 2048)))"
    using * mem_chunk [OF assms(1) index_chunk(1) [OF assms(2)]] by auto
  show "{e. e < 2048 \<and> 2048 * (x div 2048) + e \<in> chunked_elems s - {x}} =
      chunk_elems (cb_chunks s ! (x div 2048)) - {x mod 2048}"
    using * mem_chunk [OF assms(1) index_chunk(1) [OF assms(2)]] by auto
qed

lemma chunked_insert_correct:
  assumes s: "chunked_inv d s" and x: "x < d"
  shows "chunked_updated d s (insert x (chunked_elems s)) (chunked_insert s x)"
  unfolding chunked_insert_def
proof (rule chunked_update_correct [OF s x])
  show "chunk_updated (chunk_len d (x div 2048)) (cb_chunks s ! (x div 2048))
      {e. e < 2048 \<and> 2048 * (x div 2048) + e \<in> insert x (chunked_elems s)} (chunk_insert (cb_chunks s ! (x div 2048)) x)"
    unfolding chunk_slice(1) [OF s x]
    by (rule chunk_insert_correct [OF chunked_inv_simps(3) [OF s] index_chunk(2) [OF x] chunk_len_le])
      (rule index_chunk(1) [OF x])
qed (use chunked_elems_bounded [OF s] x in auto)

lemma chunked_remove_correct:
  assumes s: "chunked_inv d s" and x: "x < d"
  shows "chunked_updated d s (chunked_elems s - {x}) (chunked_remove s x)"
  unfolding chunked_remove_def
proof (rule chunked_update_correct [OF s x])
  show "chunk_updated (chunk_len d (x div 2048)) (cb_chunks s ! (x div 2048))
      {e. e < 2048 \<and> 2048 * (x div 2048) + e \<in> chunked_elems s - {x}} (chunk_remove (cb_chunks s ! (x div 2048)) x)"
    unfolding chunk_slice(2) [OF s x]
    by (rule chunk_remove_correct [OF chunked_inv_simps(3) [OF s] index_chunk(2) [OF x] chunk_len_le])
      (rule index_chunk(1) [OF x])
qed (use chunked_elems_bounded [OF s] x in auto)

section \<open>Operations on two sets\<close>

lemma relate_chunks_correct:
  assumes "length cs = length ds"
    "\<And>k. k < length cs \<Longrightarrow> chunk_updated (n k) (cs ! k) (g (chunk_elems (cs ! k)) (chunk_elems (ds ! k))) (f (cs ! k) (ds ! k))"
  shows "\<exists>cs'. relate_chunks f b cs ds =
      Some (cs', b \<or> (\<exists>k < length cs. g (chunk_elems (cs ! k)) (chunk_elems (ds ! k)) \<noteq> chunk_elems (cs ! k))) \<and>
    length cs' = length cs \<and>
    (\<forall>k < length cs. chunk_inv (n k) (cs' ! k) \<and> chunk_elems (cs' ! k) = g (chunk_elems (cs ! k)) (chunk_elems (ds ! k)))"
  using assms
proof (induction cs ds arbitrary: n b rule: list_induct2')
  case (4 c cs d ds)
  let ?b = "g (chunk_elems c) (chunk_elems d) \<noteq> chunk_elems c"
  obtain c' where c': "f c d = Some (c', ?b)" "chunk_inv (n 0) c'" "chunk_elems c' = g (chunk_elems c) (chunk_elems d)"
    using 4(3) [of 0] by (auto simp: chunk_updated_def)
  obtain cs' where cs': "relate_chunks f (b \<or> ?b) cs ds =
      Some (cs', (b \<or> ?b) \<or> (\<exists>k < length cs. g (chunk_elems (cs ! k)) (chunk_elems (ds ! k)) \<noteq> chunk_elems (cs ! k)))"
    "length cs' = length cs"
    "\<forall>k < length cs. chunk_inv (n (Suc k)) (cs' ! k) \<and> chunk_elems (cs' ! k) = g (chunk_elems (cs ! k)) (chunk_elems (ds ! k))"
    using 4(1) [of "\<lambda>k. n (Suc k)" "b \<or> ?b"] 4(2) 4(3) [of "Suc _"] by auto
  have "relate_chunks f b (c # cs) (d # ds) = Some (c' # cs',
      b \<or> (\<exists>k < length (c # cs). g (chunk_elems ((c # cs) ! k)) (chunk_elems ((d # ds) ! k)) \<noteq> chunk_elems ((c # cs) ! k)))"
    using c'(1) cs'(1) by (simp add: Ex_less_Suc2)
  moreover have "\<forall>k < length (c # cs). chunk_inv (n k) ((c' # cs') ! k) \<and>
      chunk_elems ((c' # cs') ! k) = g (chunk_elems ((c # cs) ! k)) (chunk_elems ((d # ds) ! k))"
    using c'(2,3) cs'(3) by (simp add: All_less_Suc2)
  ultimately show ?case using cs'(2) by auto
qed simp_all

lemma chunked_relation_correct:
  assumes s: "chunked_inv d s" and t: "chunked_inv d t"
    and f: "\<And>n c c'. chunk_inv n c \<Longrightarrow> chunk_inv n c' \<Longrightarrow> n \<le> 2048 \<Longrightarrow> 0 < n \<Longrightarrow>
      chunk_updated n c (g (chunk_elems c) (chunk_elems c')) (f c c')"
    and g: "\<And>A B i. i \<in> g A B \<longleftrightarrow> P (i \<in> A) (i \<in> B)" "\<not> P False False"
  shows "chunked_updated d s (g (chunked_elems s) (chunked_elems t)) (chunked_relation f s t)"
proof -
  let ?m = "(d + 2047) div 2048" and ?cs = "cb_chunks s" and ?ds = "cb_chunks t"
  let ?S = "g (chunked_elems s) (chunked_elems t)"
  note len = chunked_inv_simps(2) [OF s] chunked_inv_simps(2) [OF t]
  have slice: "e \<in> g (chunk_elems (?cs ! k)) (chunk_elems (?ds ! k)) \<longleftrightarrow> e < 2048 \<and> 2048 * k + e \<in> ?S" if "k < ?m" for k e
    using mem_chunk [OF s that] mem_chunk [OF t that] g by (cases "e < 2048") auto
  have upd: "chunk_updated (chunk_len d k) (?cs ! k) (g (chunk_elems (?cs ! k)) (chunk_elems (?ds ! k))) (f (?cs ! k) (?ds ! k))"
    if "k < length ?cs" for k
    using that len by (intro f chunked_inv_simps(3) [OF s] chunked_inv_simps(3) [OF t] chunk_len_le chunk_len_pos) simp_all
  obtain cs' where cs': "relate_chunks f False ?cs ?ds =
      Some (cs', \<exists>k < ?m. g (chunk_elems (?cs ! k)) (chunk_elems (?ds ! k)) \<noteq> chunk_elems (?cs ! k))" "length cs' = ?m"
    "\<forall>k < ?m. chunk_inv (chunk_len d k) (cs' ! k) \<and> chunk_elems (cs' ! k) = g (chunk_elems (?cs ! k)) (chunk_elems (?ds ! k))"
    using relate_chunks_correct [of ?cs ?ds "chunk_len d" g f False] upd len by auto
  let ?s' = "s\<lparr>cb_chunks := cs'\<rparr>"
  have inv: "chunked_inv d ?s'" using s cs' by (simp add: chunked_inv_def)
  have S: "?S \<subseteq> {..<d}"
  proof
    fix i assume "i \<in> ?S"
    then have "i \<in> chunked_elems s \<or> i \<in> chunked_elems t" using g by (metis (full_types))
    then show "i \<in> {..<d}" using chunked_elems_bounded [OF s] chunked_elems_bounded [OF t] by blast
  qed
  have elems: "chunked_elems ?s' = ?S" using cs'(3) slice by (intro chunked_elems_eqI [OF inv S]) simp
  have "(\<exists>k < ?m. g (chunk_elems (?cs ! k)) (chunk_elems (?ds ! k)) \<noteq> chunk_elems (?cs ! k)) \<longleftrightarrow> ?S \<noteq> chunked_elems s"
  proof -
    have "(\<forall>k < ?m. g (chunk_elems (?cs ! k)) (chunk_elems (?ds ! k)) = chunk_elems (?cs ! k)) \<longleftrightarrow> ?S = chunked_elems s"
    proof
      assume "\<forall>k < ?m. g (chunk_elems (?cs ! k)) (chunk_elems (?ds ! k)) = chunk_elems (?cs ! k)"
      then have "chunked_elems s = ?S" using slice by (intro chunked_elems_eqI [OF s S]) blast
      then show "?S = chunked_elems s" by simp
    next
      assume "?S = chunked_elems s"
      then show "\<forall>k < ?m. g (chunk_elems (?cs ! k)) (chunk_elems (?ds ! k)) = chunk_elems (?cs ! k)"
        using slice mem_chunk [OF s] by blast
    qed
    then show ?thesis by blast
  qed
  then show ?thesis
    using inv elems cs'(1) chunked_inv_simps(1) [OF s] chunked_inv_simps(1) [OF t]
    by (simp add: chunked_updated_def chunked_relation_def)
qed

lemma chunked_union_correct:
  "chunked_inv d s \<Longrightarrow> chunked_inv d t \<Longrightarrow> chunked_updated d s (chunked_elems s \<union> chunked_elems t) (chunked_union s t)"
  unfolding chunked_union_def
  by (rule chunked_relation_correct [where P = "\<lambda>a b. a \<or> b"]) (simp_all add: chunk_union_correct)

lemma chunked_subtract_correct:
  "chunked_inv d s \<Longrightarrow> chunked_inv d t \<Longrightarrow> chunked_updated d s (chunked_elems s - chunked_elems t) (chunked_subtract s t)"
  unfolding chunked_subtract_def
  by (rule chunked_relation_correct [where P = "\<lambda>a b. a \<and> \<not> b"]) (simp_all add: chunk_subtract_correct)

lemma chunked_intersect_correct:
  "chunked_inv d s \<Longrightarrow> chunked_inv d t \<Longrightarrow> chunked_updated d s (chunked_elems s \<inter> chunked_elems t) (chunked_intersect s t)"
  unfolding chunked_intersect_def
  by (rule chunked_relation_correct [where P = "\<lambda>a b. a \<and> b"]) (simp_all add: chunk_intersect_correct)

end
