(* ===== verification/Bit_Relations.thy ===== *)
theory Bit_Relations
  imports Prelude
begin

text \<open>
  The operations that data-flow analyses use on their states: the bit sets of \<open>rustc_index\<close> with insertion and removal
  of elements, the relations of the trait \<open>BitRelations\<close> and \<open>clone_from\<close>. Dense, chunked and mixed sets provide them.

  The interface is a record of operations; \<open>bs_run\<close> makes a sequence of calls on registers that hold sets, \<open>bs_spec\<close>
  makes it on mathematical sets, and the locale \<open>bit_set\<close> shows that no sequence of calls distinguishes the two.
\<close>

section \<open>The operations\<close>

record 's bs_impl =
  bs_contains :: "'s \<Rightarrow> nat \<Rightarrow> bool option"
  bs_is_empty :: "'s \<Rightarrow> bool"
  bs_insert :: "'s \<Rightarrow> nat \<Rightarrow> ('s \<times> bool) option"
  bs_remove :: "'s \<Rightarrow> nat \<Rightarrow> ('s \<times> bool) option"
  bs_insert_all :: "'s \<Rightarrow> 's option"
  bs_clear :: "'s \<Rightarrow> 's"
  bs_union :: "'s \<Rightarrow> 's \<Rightarrow> ('s \<times> bool) option"
  bs_subtract :: "'s \<Rightarrow> 's \<Rightarrow> ('s \<times> bool) option"
  bs_clone_from :: "'s \<Rightarrow> 's \<Rightarrow> 's option"

text \<open>Calls, with the registers of the receiver and of the argument; a call may return a flag.\<close>

datatype bs_op =
    Bs_contains nat nat
  | Bs_is_empty nat
  | Bs_insert nat nat
  | Bs_remove nat nat
  | Bs_insert_all nat
  | Bs_clear nat
  | Bs_union nat nat
  | Bs_subtract nat nat
  | Bs_clone_from nat nat

definition changed_reg :: "nat \<Rightarrow> 's list \<Rightarrow> ('s \<times> bool) option \<Rightarrow> ('s list \<times> bool option) option" where
  "changed_reg r ss = map_option (\<lambda>(s, b). (ss[r := s], Some b))"

fun bs_step :: "'s bs_impl \<Rightarrow> bs_op \<Rightarrow> 's list \<Rightarrow> ('s list \<times> bool option) option" where
  "bs_step im (Bs_contains r x) ss = map_option (\<lambda>b. (ss, Some b)) (bs_contains im (ss ! r) x)"
| "bs_step im (Bs_is_empty r) ss = Some (ss, Some (bs_is_empty im (ss ! r)))"
| "bs_step im (Bs_insert r x) ss = changed_reg r ss (bs_insert im (ss ! r) x)"
| "bs_step im (Bs_remove r x) ss = changed_reg r ss (bs_remove im (ss ! r) x)"
| "bs_step im (Bs_insert_all r) ss = map_option (\<lambda>s. (ss[r := s], None)) (bs_insert_all im (ss ! r))"
| "bs_step im (Bs_clear r) ss = Some (ss[r := bs_clear im (ss ! r)], None)"
| "bs_step im (Bs_union r q) ss = changed_reg r ss (bs_union im (ss ! r) (ss ! q))"
| "bs_step im (Bs_subtract r q) ss = changed_reg r ss (bs_subtract im (ss ! r) (ss ! q))"
| "bs_step im (Bs_clone_from r q) ss = map_option (\<lambda>s. (ss[r := s], None)) (bs_clone_from im (ss ! r) (ss ! q))"

fun bs_run :: "'s bs_impl \<Rightarrow> bs_op list \<Rightarrow> 's list \<Rightarrow> ('s list \<times> bool option list) option" where
  "bs_run im [] ss = Some (ss, [])"
| "bs_run im (p # ps) ss = do {
     (ss', a) \<leftarrow> bs_step im p ss;
     (ss'', as) \<leftarrow> bs_run im ps ss';
     Some (ss'', a # as) }"

section \<open>The specification\<close>

text \<open>A set becomes \<open>S\<close>; the answer is whether this changes it.\<close>

definition set_reg :: "nat \<Rightarrow> nat set \<Rightarrow> nat set list \<Rightarrow> nat set list \<times> bool option" where
  "set_reg r S ss = (ss[r := S], Some (S \<noteq> ss ! r))"

fun bs_spec_step :: "nat \<Rightarrow> bs_op \<Rightarrow> nat set list \<Rightarrow> nat set list \<times> bool option" where
  "bs_spec_step d (Bs_contains r x) ss = (ss, Some (x \<in> ss ! r))"
| "bs_spec_step d (Bs_is_empty r) ss = (ss, Some (ss ! r = {}))"
| "bs_spec_step d (Bs_insert r x) ss = set_reg r (insert x (ss ! r)) ss"
| "bs_spec_step d (Bs_remove r x) ss = set_reg r (ss ! r - {x}) ss"
| "bs_spec_step d (Bs_insert_all r) ss = (ss[r := {..<d}], None)"
| "bs_spec_step d (Bs_clear r) ss = (ss[r := {}], None)"
| "bs_spec_step d (Bs_union r q) ss = set_reg r (ss ! r \<union> ss ! q) ss"
| "bs_spec_step d (Bs_subtract r q) ss = set_reg r (ss ! r - ss ! q) ss"
| "bs_spec_step d (Bs_clone_from r q) ss = (ss[r := ss ! q], None)"

fun bs_spec :: "nat \<Rightarrow> bs_op list \<Rightarrow> nat set list \<Rightarrow> nat set list \<times> bool option list" where
  "bs_spec d [] ss = (ss, [])"
| "bs_spec d (p # ps) ss =
     (let (ss', a) = bs_spec_step d p ss; (ss'', as) = bs_spec d ps ss' in (ss'', a # as))"

lemma bs_spec_step_length: "length (fst (bs_spec_step d p ss)) = length ss"
  by (cases p) (simp_all add: set_reg_def)

text \<open>The calls a program with \<open>n\<close> sets over a domain of size \<open>d\<close> may make; a set is borrowed mutably once.\<close>

fun bs_ok :: "nat \<Rightarrow> nat \<Rightarrow> bs_op \<Rightarrow> bool" where
  "bs_ok d n (Bs_contains r x) \<longleftrightarrow> r < n \<and> x < d"
| "bs_ok d n (Bs_is_empty r) \<longleftrightarrow> r < n"
| "bs_ok d n (Bs_insert r x) \<longleftrightarrow> r < n \<and> x < d"
| "bs_ok d n (Bs_remove r x) \<longleftrightarrow> r < n \<and> x < d"
| "bs_ok d n (Bs_insert_all r) \<longleftrightarrow> r < n"
| "bs_ok d n (Bs_clear r) \<longleftrightarrow> r < n"
| "bs_ok d n (Bs_union r q) \<longleftrightarrow> r < n \<and> q < n \<and> r \<noteq> q"
| "bs_ok d n (Bs_subtract r q) \<longleftrightarrow> r < n \<and> q < n \<and> r \<noteq> q"
| "bs_ok d n (Bs_clone_from r q) \<longleftrightarrow> r < n \<and> q < n \<and> r \<noteq> q"

section \<open>The contract\<close>

text \<open>What an update of \<open>s\<close> to the elements \<open>S\<close> returns: a valid set of them, and whether they differ.\<close>

definition bs_updated ::
    "(nat \<Rightarrow> 's \<Rightarrow> bool) \<Rightarrow> ('s \<Rightarrow> nat set) \<Rightarrow> nat \<Rightarrow> 's \<Rightarrow> nat set \<Rightarrow> ('s \<times> bool) option \<Rightarrow> bool" where
  "bs_updated valid elems d s S r \<longleftrightarrow> (\<exists>s'. r = Some (s', S \<noteq> elems s) \<and> valid d s' \<and> elems s' = S)"

locale bit_set =
  fixes impl :: "'s bs_impl"
    and inv :: "nat \<Rightarrow> 's \<Rightarrow> bool"
    and elems :: "'s \<Rightarrow> nat set"
  assumes contains: "inv d s \<Longrightarrow> x < d \<Longrightarrow> bs_contains impl s x = Some (x \<in> elems s)"
    and is_empty: "inv d s \<Longrightarrow> bs_is_empty impl s \<longleftrightarrow> elems s = {}"
    and insert: "inv d s \<Longrightarrow> x < d \<Longrightarrow> bs_updated inv elems d s (Set.insert x (elems s)) (bs_insert impl s x)"
    and remove: "inv d s \<Longrightarrow> x < d \<Longrightarrow> bs_updated inv elems d s (elems s - {x}) (bs_remove impl s x)"
    and insert_all: "inv d s \<Longrightarrow> \<exists>s'. bs_insert_all impl s = Some s' \<and> inv d s' \<and> elems s' = {..<d}"
    and clear: "inv d s \<Longrightarrow> inv d (bs_clear impl s) \<and> elems (bs_clear impl s) = {}"
    and union: "inv d s \<Longrightarrow> inv d t \<Longrightarrow> bs_updated inv elems d s (elems s \<union> elems t) (bs_union impl s t)"
    and subtract: "inv d s \<Longrightarrow> inv d t \<Longrightarrow> bs_updated inv elems d s (elems s - elems t) (bs_subtract impl s t)"
    and clone_from: "inv d s \<Longrightarrow> inv d t \<Longrightarrow> \<exists>s'. bs_clone_from impl s t = Some s' \<and> inv d s' \<and> elems s' = elems t"
begin

lemma regs_update:
  "list_all (inv d) ss \<Longrightarrow> inv d s \<Longrightarrow> list_all (inv d) (ss[r := s])"
  by (auto simp: list_all_iff dest!: set_update_subset_insert [THEN subsetD])

lemma reg: "list_all (inv d) ss \<Longrightarrow> r < length ss \<Longrightarrow> inv d (ss ! r)"
  by (simp add: list_all_length)

lemma changed_reg_refines:
  assumes "list_all (inv d) ss" "r < length ss" "bs_updated inv elems d (ss ! r) S res"
  shows "\<exists>ss' a. changed_reg r ss res = Some (ss', a) \<and> list_all (inv d) ss' \<and> set_reg r S (map elems ss) = (map elems ss', a)"
  using assms by (auto simp: bs_updated_def changed_reg_def set_reg_def regs_update map_update)

lemma step_refines:
  assumes "list_all (inv d) ss" "bs_ok d (length ss) p"
  shows "\<exists>ss' a. bs_step impl p ss = Some (ss', a) \<and> list_all (inv d) ss' \<and>
    bs_spec_step d p (map elems ss) = (map elems ss', a)"
proof (cases p)
  case (Bs_contains r x)
  with assms contains [OF reg [of d ss r]] show ?thesis by auto
next
  case (Bs_is_empty r)
  with assms is_empty [OF reg [of d ss r]] show ?thesis by auto
next
  case (Bs_insert r x)
  with assms changed_reg_refines [OF _ _ insert [OF reg [of d ss r]]] show ?thesis by simp
next
  case (Bs_remove r x)
  with assms changed_reg_refines [OF _ _ remove [OF reg [of d ss r]]] show ?thesis by simp
next
  case (Bs_insert_all r)
  with assms insert_all [OF reg [of d ss r]] show ?thesis by (auto simp: regs_update map_update)
next
  case (Bs_clear r)
  with assms clear [OF reg [of d ss r]] show ?thesis by (auto simp: regs_update map_update)
next
  case (Bs_union r q)
  with assms changed_reg_refines [OF _ _ union [OF reg [of d ss r] reg [of d ss q]]] show ?thesis by simp
next
  case (Bs_subtract r q)
  with assms changed_reg_refines [OF _ _ subtract [OF reg [of d ss r] reg [of d ss q]]] show ?thesis by simp
next
  case (Bs_clone_from r q)
  with assms clone_from [OF reg [of d ss r] reg [of d ss q]] show ?thesis by (auto simp: regs_update map_update)
qed

lemma run_refines:
  assumes "list_all (inv d) ss" "list_all (bs_ok d (length ss)) ps"
  shows "\<exists>ss' as. bs_run impl ps ss = Some (ss', as) \<and> list_all (inv d) ss' \<and> bs_spec d ps (map elems ss) = (map elems ss', as)"
  using assms
proof (induction ps arbitrary: ss)
  case (Cons p ps)
  then obtain ss1 a where s: "bs_step impl p ss = Some (ss1, a)" "list_all (inv d) ss1"
    "bs_spec_step d p (map elems ss) = (map elems ss1, a)"
    using step_refines [of d ss p] by auto
  have "length ss1 = length ss" using bs_spec_step_length [of d p "map elems ss"] s(3) by simp
  then obtain ss2 as where "bs_run impl ps ss1 = Some (ss2, as)" "list_all (inv d) ss2"
    "bs_spec d ps (map elems ss1) = (map elems ss2, as)"
    using Cons.IH [OF s(2)] Cons.prems(2) by auto
  with s show ?case by simp
qed simp

end

end
