(* ===== verification/Mixed_Set.thy ===== *)
theory Mixed_Set
  imports Chunked_Set Bit_Relations
begin

text \<open>
  Dense, chunked and mixed bit sets provide the operations of \<open>Bit_Relations\<close>, and meet its contract; so a program
  cannot tell which representation it uses.
\<close>

section \<open>Dense sets\<close>

definition dense_bs :: "dense_bit_set bs_impl" where
  "dense_bs = \<lparr>bs_contains = dense_contains, bs_is_empty = dense_is_empty, bs_insert = dense_insert, bs_remove = dense_remove,
     bs_insert_all = dense_insert_all, bs_clear = dense_clear, bs_union = dense_union, bs_subtract = dense_subtract,
     bs_clone_from = (\<lambda>s t. Some (dense_clone_from s t))\<rparr>"

lemma dense_clone_from_correct:
  "dense_inv d t \<Longrightarrow> dense_inv d (dense_clone_from s t) \<and> dense_elems (dense_clone_from s t) = dense_elems t"
  by (simp add: dense_clone_from_def dense_inv_def dense_elems_def)

lemma dense_insert_updated:
  "dense_inv d s \<Longrightarrow> x < d \<Longrightarrow> bs_updated dense_inv dense_elems d s (insert x (dense_elems s)) (dense_insert s x)"
  using dense_insert_correct [of d s x] by (cases "x \<in> dense_elems s") (auto simp: bs_updated_def insert_absorb)

lemma dense_remove_updated:
  "dense_inv d s \<Longrightarrow> x < d \<Longrightarrow> bs_updated dense_inv dense_elems d s (dense_elems s - {x}) (dense_remove s x)"
  using dense_remove_correct [of d s x] by (cases "x \<in> dense_elems s") (auto simp: bs_updated_def)

interpretation dense_bits: bit_set dense_bs dense_inv dense_elems
proof unfold_locales
  fix d and s t :: dense_bit_set
  assume st: "dense_inv d s" "dense_inv d t"
  show "bs_updated dense_inv dense_elems d s (dense_elems s \<union> dense_elems t) (bs_union dense_bs s t)"
    using dense_union_correct [OF st] by (auto simp: bs_updated_def dense_bs_def)
  show "bs_updated dense_inv dense_elems d s (dense_elems s - dense_elems t) (bs_subtract dense_bs s t)"
    using dense_subtract_correct [OF st] by (auto simp: bs_updated_def dense_bs_def)
qed (simp_all add: dense_bs_def dense_contains_correct dense_is_empty_correct dense_insert_updated dense_remove_updated
    dense_insert_all_correct dense_clear_correct dense_clone_from_correct)

section \<open>Chunked sets\<close>

definition chunked_bs :: "chunked_bit_set bs_impl" where
  "chunked_bs = \<lparr>bs_contains = chunked_contains, bs_is_empty = chunked_is_empty, bs_insert = chunked_insert,
     bs_remove = chunked_remove, bs_insert_all = (\<lambda>s. Some (chunked_insert_all s)), bs_clear = chunked_clear,
     bs_union = chunked_union, bs_subtract = chunked_subtract, bs_clone_from = chunked_clone_from\<rparr>"

lemma chunked_updated_bs: "chunked_updated = bs_updated chunked_inv chunked_elems"
  by (simp add: fun_eq_iff chunked_updated_def bs_updated_def)

lemma chunked_clear_correct:
  "chunked_inv d s \<Longrightarrow> chunked_inv d (chunked_clear s) \<and> chunked_elems (chunked_clear s) = {}"
  by (simp add: chunked_clear_def chunked_new_empty_def chunked_inv_simps(1) chunked_new_correct)

lemma chunked_insert_all_correct:
  "chunked_inv d s \<Longrightarrow> chunked_inv d (chunked_insert_all s) \<and> chunked_elems (chunked_insert_all s) = {..<d}"
  by (simp add: chunked_insert_all_def chunked_new_filled_def chunked_inv_simps(1) chunked_new_correct)

lemma chunked_clone_from_correct:
  "chunked_inv d s \<Longrightarrow> chunked_inv d t \<Longrightarrow>
    \<exists>s'. chunked_clone_from s t = Some s' \<and> chunked_inv d s' \<and> chunked_elems s' = chunked_elems t"
  by (simp add: chunked_clone_from_def chunked_inv_def chunked_elems_def)

interpretation chunked_bits: bit_set chunked_bs chunked_inv chunked_elems
  by unfold_locales (simp_all add: chunked_bs_def chunked_updated_bs [symmetric] chunked_contains_correct
    chunked_is_empty_correct chunked_insert_correct chunked_remove_correct chunked_insert_all_correct chunked_clear_correct
    chunked_union_correct chunked_subtract_correct chunked_clone_from_correct)

section \<open>Mixed sets\<close>

definition mixed_bs :: "mixed_bit_set bs_impl" where
  "mixed_bs = \<lparr>bs_contains = mixed_contains, bs_is_empty = mixed_is_empty, bs_insert = mixed_insert,
     bs_remove = mixed_remove, bs_insert_all = mixed_insert_all, bs_clear = mixed_clear,
     bs_union = mixed_union, bs_subtract = mixed_subtract, bs_clone_from = mixed_clone_from\<rparr>"

fun mixed_elems :: "mixed_bit_set \<Rightarrow> nat set" where
  "mixed_elems (Small s) = dense_elems s"
| "mixed_elems (Large s) = chunked_elems s"

text \<open>Small domains, up to one chunk, have dense sets.\<close>

fun mixed_inv :: "nat \<Rightarrow> mixed_bit_set \<Rightarrow> bool" where
  "mixed_inv d (Small s) \<longleftrightarrow> d \<le> 2048 \<and> dense_inv d s"
| "mixed_inv d (Large s) \<longleftrightarrow> 2048 < d \<and> chunked_inv d s"

lemma mixed_new_empty_correct: "mixed_inv d (mixed_new_empty d)" "mixed_elems (mixed_new_empty d) = {}"
  using new_empty_inv [of d] chunked_new_correct [of d True] by (simp_all add: mixed_new_empty_def chunked_new_empty_def)

lemma mixed_updated:
  "d \<le> 2048 \<Longrightarrow> bs_updated dense_inv dense_elems d s S r \<Longrightarrow>
    bs_updated mixed_inv mixed_elems d (Small s) S (map_option (map_prod Small id) r)"
  "2048 < d \<Longrightarrow> bs_updated chunked_inv chunked_elems d t S q \<Longrightarrow>
    bs_updated mixed_inv mixed_elems d (Large t) S (map_option (map_prod Large id) q)"
  by (auto simp: bs_updated_def)

lemma mixed_cases:
  assumes "mixed_inv d s" "mixed_inv d t"
  obtains (Small) a b where "s = Small a" "t = Small b" "d \<le> 2048" "dense_inv d a" "dense_inv d b"
  | (Large) a b where "s = Large a" "t = Large b" "2048 < d" "chunked_inv d a" "chunked_inv d b"
  using assms by (cases s; cases t) auto

lemma mixed_insert_updated:
  "mixed_inv d s \<Longrightarrow> x < d \<Longrightarrow> bs_updated mixed_inv mixed_elems d s (insert x (mixed_elems s)) (mixed_insert s x)"
  using dense_bits.insert [of d _ x] chunked_bits.insert [of d _ x]
  by (cases s) (simp_all add: mixed_updated dense_bs_def chunked_bs_def)

lemma mixed_remove_updated:
  "mixed_inv d s \<Longrightarrow> x < d \<Longrightarrow> bs_updated mixed_inv mixed_elems d s (mixed_elems s - {x}) (mixed_remove s x)"
  using dense_bits.remove [of d _ x] chunked_bits.remove [of d _ x]
  by (cases s) (simp_all add: mixed_updated dense_bs_def chunked_bs_def)

lemma mixed_union_updated:
  assumes "mixed_inv d s" "mixed_inv d t"
  shows "bs_updated mixed_inv mixed_elems d s (mixed_elems s \<union> mixed_elems t) (mixed_union s t)"
  using assms
  by (cases rule: mixed_cases) (use dense_bits.union [of d] chunked_bits.union [of d] in
    \<open>simp_all add: mixed_updated dense_bs_def chunked_bs_def\<close>)

lemma mixed_subtract_updated:
  assumes "mixed_inv d s" "mixed_inv d t"
  shows "bs_updated mixed_inv mixed_elems d s (mixed_elems s - mixed_elems t) (mixed_subtract s t)"
  using assms
  by (cases rule: mixed_cases) (use dense_bits.subtract [of d] chunked_bits.subtract [of d] in
    \<open>simp_all add: mixed_updated dense_bs_def chunked_bs_def\<close>)

lemma mixed_clone_from_correct:
  assumes "mixed_inv d s" "mixed_inv d t"
  shows "\<exists>s'. mixed_clone_from s t = Some s' \<and> mixed_inv d s' \<and> mixed_elems s' = mixed_elems t"
  using assms by (cases rule: mixed_cases) (auto simp: dense_clone_from_correct dest: chunked_clone_from_correct)

interpretation mixed_bits: bit_set mixed_bs mixed_inv mixed_elems
proof unfold_locales
  fix d x and s t :: mixed_bit_set
  assume s: "mixed_inv d s"
  show "x < d \<Longrightarrow> bs_contains mixed_bs s x = Some (x \<in> mixed_elems s)"
    using s by (cases s) (auto simp: mixed_bs_def intro: dense_contains_correct chunked_contains_correct)
  show "bs_is_empty mixed_bs s \<longleftrightarrow> mixed_elems s = {}"
    using s by (cases s) (auto simp: mixed_bs_def dense_is_empty_correct dest: chunked_is_empty_correct)
  show "\<exists>s'. bs_insert_all mixed_bs s = Some s' \<and> mixed_inv d s' \<and> mixed_elems s' = {..<d}"
    using s by (cases s) (auto simp: mixed_bs_def chunked_insert_all_correct dest: dense_insert_all_correct)
  show "mixed_inv d (bs_clear mixed_bs s) \<and> mixed_elems (bs_clear mixed_bs s) = {}"
    using s by (cases s) (auto simp: mixed_bs_def dest: dense_clear_correct chunked_clear_correct)
qed (simp_all add: mixed_bs_def mixed_insert_updated mixed_remove_updated mixed_union_updated mixed_subtract_updated
    mixed_clone_from_correct)

section \<open>Properties\<close>



end
