(* ===== verification/Sparse_Matrix.thy ===== *)
theory Sparse_Matrix
  imports Dense_Iter
begin

text \<open>
  \<open>SparseBitMatrix\<close> of \<open>rustc_index/src/bit_set.rs\<close>: a vector of rows that are dense bit sets once something is inserted
  into them. A row that does not exist is empty.
\<close>

record sparse_bit_matrix =
  sm_num_columns :: nat
  sm_rows :: "dense_bit_set option list"

definition sparse_new :: "nat \<Rightarrow> sparse_bit_matrix" where
  "sparse_new num_columns = \<lparr>sm_num_columns = num_columns, sm_rows = []\<rparr>"

text \<open>\<open>get_or_insert_with\<close>: the rows before a new one have no set.\<close>

definition sparse_ensure_row :: "sparse_bit_matrix \<Rightarrow> nat \<Rightarrow> sparse_bit_matrix \<times> dense_bit_set" where
  "sparse_ensure_row m row =
     (let rows = sm_rows m @ replicate (Suc row - length (sm_rows m)) None in
      case rows ! row of
        Some s \<Rightarrow> (m\<lparr>sm_rows := rows\<rparr>, s)
      | None \<Rightarrow> let s = new_empty (sm_num_columns m) in (m\<lparr>sm_rows := rows[row := Some s]\<rparr>, s))"

definition sparse_row :: "sparse_bit_matrix \<Rightarrow> nat \<Rightarrow> dense_bit_set option" where
  "sparse_row m row = (if row < length (sm_rows m) then sm_rows m ! row else None)"

definition set_sparse_row :: "nat \<Rightarrow> dense_bit_set \<Rightarrow> sparse_bit_matrix \<Rightarrow> sparse_bit_matrix" where
  "set_sparse_row row s m = m\<lparr>sm_rows := (sm_rows m)[row := Some s]\<rparr>"

text \<open>An operation on the row, which is created first, or on the row if it exists.\<close>

definition on_ensured_row ::
    "(dense_bit_set \<Rightarrow> (dense_bit_set \<times> bool) option) \<Rightarrow> sparse_bit_matrix \<Rightarrow> nat \<Rightarrow> (sparse_bit_matrix \<times> bool) option" where
  "on_ensured_row f m row =
     (let (m', s) = sparse_ensure_row m row in map_option (\<lambda>(s', b). (set_sparse_row row s' m', b)) (f s))"

definition on_existing_row ::
    "(dense_bit_set \<Rightarrow> (dense_bit_set \<times> bool) option) \<Rightarrow> sparse_bit_matrix \<Rightarrow> nat \<Rightarrow> (sparse_bit_matrix \<times> bool) option" where
  "on_existing_row f m row =
     (case sparse_row m row of
        Some s \<Rightarrow> map_option (\<lambda>(s', b). (set_sparse_row row s' m, b)) (f s)
      | None \<Rightarrow> Some (m, False))"

definition sparse_insert :: "sparse_bit_matrix \<Rightarrow> nat \<Rightarrow> nat \<Rightarrow> (sparse_bit_matrix \<times> bool) option" where
  "sparse_insert m row column = on_ensured_row (\<lambda>s. dense_insert s column) m row"

definition sparse_remove :: "sparse_bit_matrix \<Rightarrow> nat \<Rightarrow> nat \<Rightarrow> (sparse_bit_matrix \<times> bool) option" where
  "sparse_remove m row column = on_existing_row (\<lambda>s. dense_remove s column) m row"

definition sparse_clear :: "sparse_bit_matrix \<Rightarrow> nat \<Rightarrow> sparse_bit_matrix" where
  "sparse_clear m row =
     (case sparse_row m row of Some s \<Rightarrow> set_sparse_row row (dense_clear s) m | None \<Rightarrow> m)"

definition sparse_contains :: "sparse_bit_matrix \<Rightarrow> nat \<Rightarrow> nat \<Rightarrow> bool option" where
  "sparse_contains m row column =
     (case sparse_row m row of Some s \<Rightarrow> dense_contains s column | None \<Rightarrow> Some False)"

definition sparse_union_rows :: "sparse_bit_matrix \<Rightarrow> nat \<Rightarrow> nat \<Rightarrow> (sparse_bit_matrix \<times> bool) option" where
  "sparse_union_rows m read_row write_row =
     (if read_row = write_row \<or> sparse_row m read_row = None then Some (m, False)
      else
        let (m', _) = sparse_ensure_row m write_row in
        (case (sparse_row m' read_row, sparse_row m' write_row) of
           (Some r, Some w) \<Rightarrow> map_option (\<lambda>(s', b). (set_sparse_row write_row s' m', b)) (dense_union w r)
         | _ \<Rightarrow> None))"

definition sparse_insert_all_into_row :: "sparse_bit_matrix \<Rightarrow> nat \<Rightarrow> sparse_bit_matrix option" where
  "sparse_insert_all_into_row m row =
     (let (m', s) = sparse_ensure_row m row in map_option (\<lambda>s'. set_sparse_row row s' m') (dense_insert_all s))"

definition sparse_intersect_row :: "sparse_bit_matrix \<Rightarrow> nat \<Rightarrow> dense_bit_set \<Rightarrow> (sparse_bit_matrix \<times> bool) option" where
  "sparse_intersect_row m row t = on_existing_row (\<lambda>s. dense_intersect s t) m row"

definition sparse_subtract_row :: "sparse_bit_matrix \<Rightarrow> nat \<Rightarrow> dense_bit_set \<Rightarrow> (sparse_bit_matrix \<times> bool) option" where
  "sparse_subtract_row m row t = on_existing_row (\<lambda>s. dense_subtract s t) m row"

definition sparse_union_row :: "sparse_bit_matrix \<Rightarrow> nat \<Rightarrow> dense_bit_set \<Rightarrow> (sparse_bit_matrix \<times> bool) option" where
  "sparse_union_row m row t = on_ensured_row (\<lambda>s. dense_union s t) m row"

section \<open>Rows as sets\<close>

definition sparse_elems :: "sparse_bit_matrix \<Rightarrow> nat \<Rightarrow> nat set" where
  "sparse_elems m row = (case sparse_row m row of Some s \<Rightarrow> dense_elems s | None \<Rightarrow> {})"

definition sparse_inv :: "nat \<Rightarrow> sparse_bit_matrix \<Rightarrow> bool" where
  "sparse_inv c m \<longleftrightarrow> sm_num_columns m = c \<and> (\<forall>row s. sparse_row m row = Some s \<longrightarrow> dense_inv c s)"

lemma sparse_row_set:
  "row < length (sm_rows m) \<Longrightarrow> sparse_row (set_sparse_row row s m) r = (if r = row then Some s else sparse_row m r)"
  by (simp add: sparse_row_def set_sparse_row_def)

lemma set_sparse_row_correct:
  assumes "sparse_inv c m" "row < length (sm_rows m)" "dense_inv c s"
  shows "sparse_inv c (set_sparse_row row s m)" "sparse_elems (set_sparse_row row s m) = (sparse_elems m)(row := dense_elems s)"
proof -
  have "sm_num_columns (set_sparse_row row s m) = sm_num_columns m" by (simp add: set_sparse_row_def)
  then show "sparse_inv c (set_sparse_row row s m)" using assms by (auto simp: sparse_inv_def sparse_row_set split: if_splits)
  show "sparse_elems (set_sparse_row row s m) = (sparse_elems m)(row := dense_elems s)"
    using assms(2) by (simp add: sparse_row_set sparse_elems_def fun_eq_iff)
qed

lemma sparse_ensure_row_row:
  assumes "sparse_ensure_row m row = (m', s)"
  shows "row < length (sm_rows m')" "sm_num_columns m' = sm_num_columns m"
    "sparse_row m' r = (if r = row then Some s else sparse_row m r)"
    "s = (case sparse_row m row of Some s' \<Rightarrow> s' | None \<Rightarrow> new_empty (sm_num_columns m))"
proof -
  let ?rows = "sm_rows m @ replicate (Suc row - length (sm_rows m)) None"
  have len: "row < length ?rows" by simp
  have ext: "(if r < length ?rows then ?rows ! r else None) = sparse_row m r" for r
    by (auto simp: sparse_row_def nth_append)
  have at: "?rows ! row = sparse_row m row" using ext [of row] len by simp
  have m': "m' = m\<lparr>sm_rows := ?rows[row := Some s]\<rparr>"
    and s: "s = (case sparse_row m row of Some s' \<Rightarrow> s' | None \<Rightarrow> new_empty (sm_num_columns m))"
  proof -
    have "?rows[row := Some s'] = ?rows" if "?rows ! row = Some s'" for s' using that list_update_id [of ?rows row] by simp
    then show "m' = m\<lparr>sm_rows := ?rows[row := Some s]\<rparr>" "s = (case sparse_row m row of Some s' \<Rightarrow> s' | None \<Rightarrow> new_empty (sm_num_columns m))"
      using assms at by (cases "sparse_row m row"; simp add: sparse_ensure_row_def Let_def)+
  qed
  show "s = (case sparse_row m row of Some s' \<Rightarrow> s' | None \<Rightarrow> new_empty (sm_num_columns m))" by (rule s)
  show "row < length (sm_rows m')" "sm_num_columns m' = sm_num_columns m" using len m' by simp_all
  show "sparse_row m' r = (if r = row then Some s else sparse_row m r)"
    using ext [of r] len m' unfolding sparse_row_def [of m'] by (auto split: if_splits)
qed

lemma sparse_ensure_row_correct:
  assumes m: "sparse_inv c m" and e: "sparse_ensure_row m row = (m', s)"
  shows "sparse_inv c m'" "sparse_elems m' = sparse_elems m" "dense_inv c s" "dense_elems s = sparse_elems m row"
proof -
  note r = sparse_ensure_row_row [OF e]
  show s: "dense_inv c s" "dense_elems s = sparse_elems m row"
    using m r(4) new_empty_inv [of c] by (auto simp: sparse_inv_def sparse_elems_def split: option.splits)
  show "sparse_inv c m'" using m r(2,3) s(1) by (auto simp: sparse_inv_def)
  show "sparse_elems m' = sparse_elems m" using r(3) s(2) by (auto simp: fun_eq_iff sparse_elems_def)
qed

text \<open>What an operation returns that sets a row to the elements \<open>S\<close>.\<close>

definition sparse_updated :: "nat \<Rightarrow> sparse_bit_matrix \<Rightarrow> nat \<Rightarrow> nat set \<Rightarrow> (sparse_bit_matrix \<times> bool) option \<Rightarrow> bool" where
  "sparse_updated c m row S res \<longleftrightarrow>
     (\<exists>m'. res = Some (m', S \<noteq> sparse_elems m row) \<and> sparse_inv c m' \<and> sparse_elems m' = (sparse_elems m)(row := S))"

lemma on_ensured_row_correct:
  assumes m: "sparse_inv c m"
    and f: "\<And>s. dense_inv c s \<Longrightarrow> \<exists>s' b. f s = Some (s', b) \<and> dense_inv c s' \<and> dense_elems s' = g (dense_elems s) \<and>
      (b \<longleftrightarrow> dense_elems s' \<noteq> dense_elems s)"
  shows "sparse_updated c m row (g (sparse_elems m row)) (on_ensured_row f m row)"
proof -
  obtain m' s where e: "sparse_ensure_row m row = (m', s)" by fastforce
  note c = sparse_ensure_row_correct [OF m e] and r = sparse_ensure_row_row(1) [OF e]
  obtain s' b where s': "f s = Some (s', b)" "dense_inv c s'" "dense_elems s' = g (sparse_elems m row)"
    "b \<longleftrightarrow> g (sparse_elems m row) \<noteq> sparse_elems m row" using f [OF c(3)] c(4) by auto
  then show ?thesis
    using set_sparse_row_correct [OF c(1) r s'(2)] c(2) e by (auto simp: sparse_updated_def on_ensured_row_def)
qed

lemma on_existing_row_correct:
  assumes m: "sparse_inv c m" and empty: "g {} = {}"
    and f: "\<And>s. dense_inv c s \<Longrightarrow> \<exists>s' b. f s = Some (s', b) \<and> dense_inv c s' \<and> dense_elems s' = g (dense_elems s) \<and>
      (b \<longleftrightarrow> dense_elems s' \<noteq> dense_elems s)"
  shows "sparse_updated c m row (g (sparse_elems m row)) (on_existing_row f m row)"
proof (cases "sparse_row m row")
  case None
  then have "sparse_elems m row = {}" by (simp add: sparse_elems_def)
  then show ?thesis using None m empty by (auto simp: sparse_updated_def on_existing_row_def fun_eq_iff)
next
  case (Some s)
  then have s: "dense_inv c s" "dense_elems s = sparse_elems m row" "row < length (sm_rows m)"
    using m by (auto simp: sparse_inv_def sparse_elems_def sparse_row_def split: if_splits)
  obtain s' b where s': "f s = Some (s', b)" "dense_inv c s'" "dense_elems s' = g (sparse_elems m row)"
    "b \<longleftrightarrow> g (sparse_elems m row) \<noteq> sparse_elems m row" using f [OF s(1)] s(2) by auto
  then show ?thesis
    using set_sparse_row_correct [OF m s(3) s'(2)] Some by (auto simp: sparse_updated_def on_existing_row_def)
qed

lemma sparse_insert_correct:
  assumes "sparse_inv c m" "x < c"
  shows "sparse_updated c m row (insert x (sparse_elems m row)) (sparse_insert m row x)"
  unfolding sparse_insert_def
  by (rule on_ensured_row_correct [OF assms(1)]) (use dense_insert_correct [OF _ assms(2)] in \<open>fastforce simp: insert_absorb\<close>)

lemma sparse_remove_correct:
  assumes "sparse_inv c m" "x < c"
  shows "sparse_updated c m row (sparse_elems m row - {x}) (sparse_remove m row x)"
  unfolding sparse_remove_def
  by (rule on_existing_row_correct [OF assms(1), where g = "\<lambda>S. S - {x}"])
    (use dense_remove_correct [OF _ assms(2)] in fastforce)+

lemma sparse_relations_correct:
  assumes "sparse_inv c m" "dense_inv c t"
  shows "sparse_updated c m row (sparse_elems m row \<union> dense_elems t) (sparse_union_row m row t)"
    "sparse_updated c m row (sparse_elems m row - dense_elems t) (sparse_subtract_row m row t)"
    "sparse_updated c m row (sparse_elems m row \<inter> dense_elems t) (sparse_intersect_row m row t)"
  unfolding sparse_union_row_def sparse_subtract_row_def sparse_intersect_row_def
  by (rule on_ensured_row_correct [OF assms(1), where g = "\<lambda>S. S \<union> dense_elems t"] dense_union_correct [OF _ assms(2)]
    on_existing_row_correct [OF assms(1), where g = "\<lambda>S. S - dense_elems t"] dense_subtract_correct [OF _ assms(2)]
    on_existing_row_correct [OF assms(1), where g = "\<lambda>S. S \<inter> dense_elems t"] dense_intersect_correct [OF _ assms(2)]
    | simp)+

lemma sparse_contains_correct:
  "sparse_inv c m \<Longrightarrow> x < c \<Longrightarrow> sparse_contains m row x = Some (x \<in> sparse_elems m row)"
  using dense_contains_correct [of c _ x] by (auto simp: sparse_contains_def sparse_elems_def sparse_inv_def split: option.split)

lemma sparse_union_rows_correct:
  assumes m: "sparse_inv c m"
  shows "sparse_updated c m w (sparse_elems m w \<union> sparse_elems m r) (sparse_union_rows m r w)"
proof (cases "r = w \<or> sparse_row m r = None")
  case True
  then have "sparse_elems m w \<union> sparse_elems m r = sparse_elems m w" by (auto simp: sparse_elems_def)
  then show ?thesis using True m by (auto simp: sparse_updated_def sparse_union_rows_def)
next
  case False
  obtain m' s where e: "sparse_ensure_row m w = (m', s)" by fastforce
  note c = sparse_ensure_row_correct [OF m e] and rows = sparse_ensure_row_row [OF e]
  obtain t where t: "sparse_row m r = Some t" "dense_inv c t" "dense_elems t = sparse_elems m r"
    using False m by (auto simp: sparse_inv_def sparse_elems_def)
  obtain s' b where s': "dense_union s t = Some (s', b)" "dense_inv c s'" "dense_elems s' = sparse_elems m w \<union> sparse_elems m r"
    "b \<longleftrightarrow> dense_elems s' \<noteq> sparse_elems m w"
    using dense_union_correct [OF c(3) t(2)] c(4) t(3) by auto
  have "sparse_union_rows m r w = Some (set_sparse_row w s' m', b)"
    using False e t(1) rows(3) s'(1) by (simp add: sparse_union_rows_def)
  then show ?thesis using set_sparse_row_correct [OF c(1) rows(1) s'(2)] c(2) s'(3,4) by (simp add: sparse_updated_def)
qed

end
