(* ===== verification/Bit_Matrix.thy ===== *)
theory Bit_Matrix
  imports Dense_Iter
begin

unbundle bit_operations_syntax

text \<open>
  \<open>BitMatrix\<close> of \<open>rustc_index/src/bit_set.rs\<close>: the rows of a matrix stand one behind the other in one vector of words,
  and operations on two rows read and write that vector. The theory also shows that each row behaves as a dense bit set
  of its own.
\<close>

section \<open>The matrix\<close>

record bit_matrix =
  bm_num_rows :: nat
  bm_num_columns :: nat
  bm_words :: "u64 list"

definition bit_matrix_new :: "nat \<Rightarrow> nat \<Rightarrow> bit_matrix" where
  "bit_matrix_new num_rows num_columns =
     \<lparr>bm_num_rows = num_rows, bm_num_columns = num_columns, bm_words = replicate (num_rows * num_words num_columns) 0\<rparr>"

definition from_row_n :: "dense_bit_set \<Rightarrow> nat \<Rightarrow> bit_matrix option" where
  "from_row_n row num_rows = do {
     let num_columns = db_domain_size row;
     _ \<leftarrow> rust_assert (num_words num_columns = length (db_words row));
     Some \<lparr>bm_num_rows = num_rows, bm_num_columns = num_columns, bm_words = concat (replicate num_rows (db_words row))\<rparr> }"

definition bit_matrix_range :: "bit_matrix \<Rightarrow> nat \<Rightarrow> nat \<times> nat" where
  "bit_matrix_range m row =
     (let words_per_row = num_words (bm_num_columns m); start = row * words_per_row in (start, start + words_per_row))"

text \<open>\<open>words[start..end]\<close>, read and written back.\<close>

definition slice_range :: "nat \<Rightarrow> nat \<Rightarrow> 'a list \<Rightarrow> 'a list option" where
  "slice_range start end' xs = (if start \<le> end' \<and> end' \<le> length xs then Some (drop start (take end' xs)) else None)"

definition put_slice :: "nat \<Rightarrow> 'a list \<Rightarrow> 'a list \<Rightarrow> 'a list" where
  "put_slice start ys xs = take start xs @ ys @ drop (start + length ys) xs"

definition bit_matrix_insert :: "bit_matrix \<Rightarrow> nat \<Rightarrow> nat \<Rightarrow> (bit_matrix \<times> bool) option" where
  "bit_matrix_insert m row column = do {
     _ \<leftarrow> rust_assert (row < bm_num_rows m \<and> column < bm_num_columns m);
     let (start, _) = bit_matrix_range m row;
     let (word_index, mask) = word_index_and_mask column;
     word \<leftarrow> vec_index (bm_words m) (start + word_index);
     let new_word = word OR mask;
     words \<leftarrow> vec_set (start + word_index) new_word (bm_words m);
     Some (m\<lparr>bm_words := words\<rparr>, word \<noteq> new_word) }"

definition bit_matrix_contains :: "bit_matrix \<Rightarrow> nat \<Rightarrow> nat \<Rightarrow> bool option" where
  "bit_matrix_contains m row column = do {
     _ \<leftarrow> rust_assert (row < bm_num_rows m \<and> column < bm_num_columns m);
     let (start, _) = bit_matrix_range m row;
     let (word_index, mask) = word_index_and_mask column;
     w \<leftarrow> vec_index (bm_words m) (start + word_index);
     Some (w AND mask \<noteq> 0) }"

text \<open>The bits of a word, from the lowest one until the rest is zero.\<close>

fun push_bits :: "nat \<Rightarrow> nat list \<Rightarrow> u64 \<Rightarrow> nat list" where
  "push_bits base [] v = []"
| "push_bits base (b # bs) v =
     (if v = 0 then []
      else (if v AND 1 \<noteq> 0 then [base * WORD_BITS + b] else []) @ push_bits base bs (drop_bit 1 v))"

fun intersect_rows_loop :: "u64 list \<Rightarrow> nat \<Rightarrow> (nat \<times> nat) list \<Rightarrow> nat list option" where
  "intersect_rows_loop words base [] = Some []"
| "intersect_rows_loop words base ((i, j) # ps) = do {
     a \<leftarrow> vec_index words i;
     b \<leftarrow> vec_index words j;
     rest \<leftarrow> intersect_rows_loop words (base + 1) ps;
     Some (push_bits base [0..<WORD_BITS] (a AND b) @ rest) }"

definition intersect_rows :: "bit_matrix \<Rightarrow> nat \<Rightarrow> nat \<Rightarrow> nat list option" where
  "intersect_rows m row1 row2 = do {
     _ \<leftarrow> rust_assert (row1 < bm_num_rows m \<and> row2 < bm_num_rows m);
     let (row1_start, row1_end) = bit_matrix_range m row1;
     let (row2_start, row2_end) = bit_matrix_range m row2;
     intersect_rows_loop (bm_words m) 0 (zip [row1_start..<row1_end] [row2_start..<row2_end]) }"

fun union_rows_loop :: "u64 \<Rightarrow> (nat \<times> nat) list \<Rightarrow> u64 list \<Rightarrow> (u64 list \<times> u64) option" where
  "union_rows_loop changed [] words = Some (words, changed)"
| "union_rows_loop changed ((read_index, write_index) # ps) words = do {
     word \<leftarrow> vec_index words write_index;
     r \<leftarrow> vec_index words read_index;
     let new_word = word OR r;
     words' \<leftarrow> vec_set write_index new_word words;
     union_rows_loop (changed OR (word XOR new_word)) ps words' }"

definition bit_matrix_union_rows :: "bit_matrix \<Rightarrow> nat \<Rightarrow> nat \<Rightarrow> (bit_matrix \<times> bool) option" where
  "bit_matrix_union_rows m read_row write_row = do {
     _ \<leftarrow> rust_assert (read_row < bm_num_rows m \<and> write_row < bm_num_rows m);
     let (read_start, read_end) = bit_matrix_range m read_row;
     let (write_start, write_end) = bit_matrix_range m write_row;
     (words, changed) \<leftarrow> union_rows_loop 0 (zip [read_start..<read_end] [write_start..<write_end]) (bm_words m);
     Some (m\<lparr>bm_words := words\<rparr>, changed \<noteq> 0) }"

definition union_row_with :: "bit_matrix \<Rightarrow> dense_bit_set \<Rightarrow> nat \<Rightarrow> (bit_matrix \<times> bool) option" where
  "union_row_with m with_set write_row = do {
     _ \<leftarrow> rust_assert (write_row < bm_num_rows m);
     _ \<leftarrow> rust_assert (db_domain_size with_set = bm_num_columns m);
     let (write_start, write_end) = bit_matrix_range m write_row;
     mine \<leftarrow> slice_range write_start write_end (bm_words m);
     (words, changed) \<leftarrow> update_words (\<lambda>a b. a OR b) mine (db_words with_set);
     Some (m\<lparr>bm_words := put_slice write_start words (bm_words m)\<rparr>, changed) }"

definition bit_matrix_insert_all :: "bit_matrix \<Rightarrow> nat \<Rightarrow> bit_matrix option" where
  "bit_matrix_insert_all m row = do {
     _ \<leftarrow> rust_assert (row < bm_num_rows m);
     let (start, end') = bit_matrix_range m row;
     filled \<leftarrow> fill_words [start..<end'] (bm_words m);
     prefix \<leftarrow> slice_range 0 end' filled;
     cleared \<leftarrow> clear_excess_bits_in_final_word (bm_num_columns m) prefix;
     Some (m\<lparr>bm_words := put_slice 0 cleared filled\<rparr>) }"

definition bit_matrix_iter :: "bit_matrix \<Rightarrow> nat \<Rightarrow> bit_iter option" where
  "bit_matrix_iter m row = do {
     _ \<leftarrow> rust_assert (row < bm_num_rows m);
     let (start, end') = bit_matrix_range m row;
     words \<leftarrow> slice_range start end' (bm_words m);
     Some (bit_iter_new words) }"

definition bit_matrix_count :: "bit_matrix \<Rightarrow> nat \<Rightarrow> nat option" where
  "bit_matrix_count m row = do {
     let (start, end') = bit_matrix_range m row;
     words \<leftarrow> slice_range start end' (bm_words m);
     Some (count_ones words) }"

section \<open>Rows\<close>

definition row_words :: "bit_matrix \<Rightarrow> nat \<Rightarrow> u64 list" where
  "row_words m row =
     take (num_words (bm_num_columns m)) (drop (row * num_words (bm_num_columns m)) (bm_words m))"

text \<open>The row as a dense bit set.\<close>

definition matrix_row_set :: "bit_matrix \<Rightarrow> nat \<Rightarrow> dense_bit_set" where
  "matrix_row_set m row = \<lparr>db_domain_size = bm_num_columns m, db_words = row_words m row\<rparr>"

definition bm_inv :: "nat \<Rightarrow> nat \<Rightarrow> bit_matrix \<Rightarrow> bool" where
  "bm_inv n c m \<longleftrightarrow> bm_num_rows m = n \<and> bm_num_columns m = c \<and> length (bm_words m) = n * num_words c \<and>
     (\<forall>r < n. dense_inv c (matrix_row_set m r))"

definition bm_rows :: "bit_matrix \<Rightarrow> nat set list" where
  "bm_rows m = map (\<lambda>r. dense_elems (matrix_row_set m r)) [0..<bm_num_rows m]"

lemma row_end: "r < n \<Longrightarrow> r * w + w \<le> n * (w :: nat)"
  by (metis Suc_leI mult_Suc mult_le_mono1 add.commute)

lemma length_row_words: "length (bm_words m) = n * num_words (bm_num_columns m) \<Longrightarrow> r < n \<Longrightarrow>
    length (row_words m r) = num_words (bm_num_columns m)"
  using row_end [of r n "num_words (bm_num_columns m)"] by (simp add: row_words_def)

lemma put_slice_length: "start + length ys \<le> length xs \<Longrightarrow> length (put_slice start ys xs) = length xs"
  by (simp add: put_slice_def)

lemma put_slice_nth:
  "start + length ys \<le> length xs \<Longrightarrow> k < length xs \<Longrightarrow>
    put_slice start ys xs ! k = (if start \<le> k \<and> k < start + length ys then ys ! (k - start) else xs ! k)"
  by (auto simp: put_slice_def nth_append)

lemma put_slice_update:
  assumes "a + w \<le> length xs" "i < w"
  shows "put_slice a ((take w (drop a xs))[i := x]) xs = xs[a + i := x]"
proof (rule nth_equalityI)
  let ?ys = "(take w (drop a xs))[i := x]"
  have len: "length ?ys = w" using assms by simp
  show "length (put_slice a ?ys xs) = length (xs[a + i := x])" using put_slice_length [of a ?ys xs] assms len by simp
  fix k
  assume "k < length (put_slice a ?ys xs)"
  then have k: "k < length xs" using put_slice_length [of a ?ys xs] assms len by simp
  show "put_slice a ?ys xs ! k = xs[a + i := x] ! k"
    using put_slice_nth [of a ?ys xs k] k assms len by (auto simp: nth_list_update)
qed

text \<open>Replacing the words of one row keeps the others.\<close>

lemma rows_apart: "q \<noteq> r \<Longrightarrow> q * w + w \<le> r * w \<or> r * w + w \<le> q * (w :: nat)"
  by (cases "q < r") (use row_end [of q r w] row_end [of r q w] in auto)

lemma slice_put_slice:
  assumes "length ys = w" "length xs = n * w" "r < n" "q < n"
  shows "take w (drop (q * w) (put_slice (r * w) ys xs)) = (if q = r then ys else take w (drop (q * w) xs))"
proof -
  have l: "r * w + w \<le> length xs" "q * w + w \<le> length xs" using assms row_end by metis+
  show ?thesis
  proof (cases "q = r")
    case True
    then show ?thesis using assms(1) l by (simp add: put_slice_def)
  next
    case False
    have "put_slice (r * w) ys xs ! (q * w + i) = xs ! (q * w + i)" if "i < w" for i
      using rows_apart [OF False, of w] that assms(1) l by (auto simp: put_slice_def nth_append)
    then show ?thesis
      using False l assms(1) put_slice_length [of "r * w" ys xs] by (auto simp: list_eq_iff_nth_eq)
  qed
qed

lemma bm_invD:
  assumes "bm_inv n c m"
  shows "bm_num_rows m = n" "bm_num_columns m = c" "length (bm_words m) = n * num_words c" "length (bm_rows m) = n"
    "r < n \<Longrightarrow> dense_inv c (matrix_row_set m r)" "r < n \<Longrightarrow> bm_rows m ! r = dense_elems (matrix_row_set m r)"
    "r < n \<Longrightarrow> length (row_words m r) = num_words c" "r < n \<Longrightarrow> bm_rows m ! r = bits (row_words m r)"
proof -
  show "bm_num_rows m = n" "bm_num_columns m = c" "length (bm_words m) = n * num_words c" "length (bm_rows m) = n"
    using assms by (simp_all add: bm_inv_def bm_rows_def)
  show "r < n \<Longrightarrow> dense_inv c (matrix_row_set m r)" "r < n \<Longrightarrow> bm_rows m ! r = dense_elems (matrix_row_set m r)"
    "r < n \<Longrightarrow> bm_rows m ! r = bits (row_words m r)"
    using assms by (auto simp: bm_inv_def bm_rows_def dense_elems_def matrix_row_set_def)
  show "r < n \<Longrightarrow> length (row_words m r) = num_words c"
    using assms length_row_words [of m n r] by (simp add: bm_inv_def)
qed

lemma bm_put_row:
  assumes m: "bm_inv n c m" and r: "r < n" and ys: "dense_inv c \<lparr>db_domain_size = c, db_words = ys\<rparr>"
  shows "bm_inv n c (m\<lparr>bm_words := put_slice (r * num_words c) ys (bm_words m)\<rparr>)"
    "bm_rows (m\<lparr>bm_words := put_slice (r * num_words c) ys (bm_words m)\<rparr>) = (bm_rows m)[r := bits ys]"
proof -
  let ?w = "num_words c"
  let ?m = "m\<lparr>bm_words := put_slice (r * ?w) ys (bm_words m)\<rparr>"
  note dims = bm_invD(1-3) [OF m]
  have len: "length ys = ?w" using dense_invD(2) [OF ys] by simp
  have row: "matrix_row_set ?m p = (if p = r then \<lparr>db_domain_size = c, db_words = ys\<rparr> else matrix_row_set m p)" if "p < n" for p
    using slice_put_slice [OF len dims(3) r that] dims by (simp add: matrix_row_set_def row_words_def)
  have "length (bm_words ?m) = n * ?w"
    using put_slice_length [of "r * ?w" ys "bm_words m"] row_end [OF r, of ?w] len dims(3) by simp
  then show "bm_inv n c ?m" using m row ys dims by (simp add: bm_inv_def)
  show "bm_rows ?m = (bm_rows m)[r := bits ys]"
    using row dims r by (auto simp: bm_rows_def list_eq_iff_nth_eq nth_list_update dense_elems_def)
qed

text \<open>A row as it is, with other words.\<close>

lemma row_inv_words:
  assumes "bm_inv n c m" "r < n"
  shows "matrix_row_set m r = \<lparr>db_domain_size = c, db_words = row_words m r\<rparr>"
  using bm_invD(2) [OF assms(1)] by (simp add: matrix_row_set_def)

lemma dense_words_only: "dense_inv c s \<Longrightarrow> dense_inv c \<lparr>db_domain_size = c, db_words = db_words s\<rparr>"
  by (simp add: dense_inv_def dense_elems_def)

section \<open>Operations on one row\<close>

lemma row_word:
  assumes m: "bm_inv n c m" and r: "r < n" and i: "i < num_words c"
  shows "r * num_words c + i < length (bm_words m)" "bm_words m ! (r * num_words c + i) = row_words m r ! i"
    "(bm_words m)[r * num_words c + i := x] = put_slice (r * num_words c) ((row_words m r)[i := x]) (bm_words m)"
proof -
  let ?w = "num_words c" and ?ws = "bm_words m"
  note dims = bm_invD(2,3) [OF m] and e = row_end [OF r, of ?w]
  show idx: "r * ?w + i < length ?ws" using e i dims by linarith
  have "r * ?w \<le> length ?ws" using e dims by linarith
  then show "?ws ! (r * ?w + i) = row_words m r ! i" using i dims by (simp add: row_words_def)
  show "?ws[r * ?w + i := x] = put_slice (r * ?w) ((row_words m r)[i := x]) ?ws"
    using put_slice_update [of "r * ?w" ?w ?ws i x] e i dims by (simp add: row_words_def)
qed

lemma bit_matrix_contains_correct:
  assumes m: "bm_inv n c m" and r: "r < n" and x: "x < c"
  shows "bit_matrix_contains m r x = Some (x \<in> bm_rows m ! r)"
proof -
  have i: "x div 64 < num_words c" using index_word [OF x] .
  have "dense_contains (matrix_row_set m r) x = Some (x \<in> bm_rows m ! r)"
    using dense_contains_correct [OF bm_invD(5) [OF m r] x] bm_invD(6) [OF m r] by simp
  then show ?thesis
    using row_word(1,2) [OF m r i] bm_invD(1,2,7) [OF m] r x i
    by (simp add: bit_matrix_contains_def bit_matrix_range_def Let_def dense_contains_def matrix_row_set_def)
qed

lemma bit_matrix_insert_correct:
  assumes m: "bm_inv n c m" and r: "r < n" and x: "x < c"
  shows "\<exists>m'. bit_matrix_insert m r x = Some (m', x \<notin> bm_rows m ! r) \<and> bm_inv n c m' \<and>
    bm_rows m' = (bm_rows m)[r := insert x (bm_rows m ! r)]"
proof -
  let ?i = "x div 64"
  have i: "?i < num_words c" using index_word [OF x] .
  obtain s' where s': "dense_insert (matrix_row_set m r) x = Some (s', x \<notin> bm_rows m ! r)" "dense_inv c s'"
    "dense_elems s' = insert x (bm_rows m ! r)"
    using dense_insert_correct [OF bm_invD(5) [OF m r] x] bm_invD(6) [OF m r] by auto
  have ws: "db_words s' = (row_words m r)[?i := row_words m r ! ?i OR 2 ^ (x mod 64)]"
    and flag: "x \<notin> bm_rows m ! r \<longleftrightarrow> row_words m r ! ?i OR 2 ^ (x mod 64) \<noteq> row_words m r ! ?i"
    using s'(1) bm_invD(2,7) [OF m] r x i by (auto simp: dense_insert_def matrix_row_set_def Let_def)
  note put = bm_put_row [OF m r dense_words_only [OF s'(2)]]
  have "bit_matrix_insert m r x = Some (m\<lparr>bm_words := put_slice (r * num_words c) (db_words s') (bm_words m)\<rparr>, x \<notin> bm_rows m ! r)"
    using row_word [OF m r i] bm_invD(1,2) [OF m] r x unfolding flag ws
    by (auto simp: bit_matrix_insert_def bit_matrix_range_def Let_def vec_set_def)
  then show ?thesis using put s'(3) by (simp add: dense_elems_def)
qed

lemma slice_row: "bm_inv n c m \<Longrightarrow> r < n \<Longrightarrow> slice_range (r * num_words c) (r * num_words c + num_words c) (bm_words m) = Some (row_words m r)"
  using row_end [of r n "num_words c"] bm_invD(2,3) [of n c m] by (simp add: slice_range_def row_words_def take_drop add.commute)

lemma bit_matrix_count_correct:
  assumes m: "bm_inv n c m" and r: "r < n"
  shows "bit_matrix_count m r = Some (card (bm_rows m ! r))"
  using slice_row [OF m r] bm_invD(2,8) [OF m] r
  by (simp add: bit_matrix_count_def bit_matrix_range_def Let_def count_ones_card)

lemma bit_matrix_iter_correct:
  assumes m: "bm_inv n c m" and r: "r < n" and c: "c + 128 < 2 ^ 64" and fuel: "c < fuel"
  shows "\<exists>it. bit_matrix_iter m r = Some it \<and> bit_iter_collect fuel it = Some (sorted_list_of_set (bm_rows m ! r))"
proof -
  have "bits (row_words m r) \<subseteq> {..<c}"
    using dense_invD(3) [OF bm_invD(5) [OF m r]] row_inv_words [OF m r] by (simp add: dense_elems_def)
  then have "card (bits (row_words m r)) \<le> c" using card_mono [of "{..<c}"] by force
  moreover have "64 * (length (row_words m r) + 1) < 2 ^ 64"
    using bm_invD(7) [OF m r] c by (simp add: num_words_def WORD_BITS_def)
  ultimately have "bit_iter_collect fuel (bit_iter_new (row_words m r)) = Some (sorted_list_of_set (bits (row_words m r)))"
    using dense_iter_correct [of "row_words m r" fuel] fuel by simp
  then show ?thesis
    using slice_row [OF m r] bm_invD(1,2,8) [OF m] r by (simp add: bit_matrix_iter_def bit_matrix_range_def Let_def)
qed

lemma bit_matrix_new_correct: "bm_inv n c (bit_matrix_new n c)" "bm_rows (bit_matrix_new n c) = replicate n {}"
proof -
  have "matrix_row_set (bit_matrix_new n c) r = new_empty c" if "r < n" for r
    using row_end [OF that, of "num_words c"]
    by (simp add: matrix_row_set_def new_empty_def row_words_def bit_matrix_new_def)
  then show "bm_inv n c (bit_matrix_new n c)" "bm_rows (bit_matrix_new n c) = replicate n {}"
    using new_empty_inv [of c] by (auto simp: bm_inv_def bm_rows_def list_eq_iff_nth_eq) (simp_all add: bit_matrix_new_def)
qed

end
