(* ===== verification/Transitive_Relation.thy ===== *)
theory Transitive_Relation
  imports Bit_Matrix
begin

text \<open>
  \<open>rustc_data_structures/src/transitive_relation.rs\<close>: relations given by edges, whose transitive closure is computed
  once, on a bit matrix, and then queried.

  The elements live in an \<open>IndexSet\<close> of the crate \<open>indexmap\<close>, which numbers them in the order of insertion. Its
  operations are a parameter, the record \<open>index_set_api\<close>, and \<open>index_set_laws\<close> states what its documentation promises.
  The edges are a hash set: a list without duplicates here, which is iterated in an order \<open>it\<close> that nothing is known of.
\<close>

section \<open>Index sets\<close>

record ('s, 'a) index_set_api =
  api_empty :: 's
  api_len :: "'s \<Rightarrow> nat"
  api_get_index_of :: "'s \<Rightarrow> 'a \<Rightarrow> nat option"
  api_insert_full :: "'s \<Rightarrow> 'a \<Rightarrow> 's \<times> nat"
  api_index :: "'s \<Rightarrow> nat \<Rightarrow> 'a option"

text \<open>\<open>els\<close> are the elements in their order. A new element comes last, one that is there keeps its index; indexing
  behind the end is a panic.\<close>

definition index_set_laws :: "('s, 'a) index_set_api \<Rightarrow> ('s \<Rightarrow> 'a list) \<Rightarrow> bool" where
  "index_set_laws api els \<longleftrightarrow>
     els (api_empty api) = [] \<and>
     (\<forall>s. api_len api s = length (els s)) \<and>
     (\<forall>s i. api_index api s i = vec_index (els s) i) \<and>
     (\<forall>s a i. api_get_index_of api s a = Some i \<longleftrightarrow> vec_index (els s) i = Some a) \<and>
     (\<forall>s a. els (fst (api_insert_full api s a)) = (if a \<in> set (els s) then els s else els s @ [a])) \<and>
     (\<forall>s a. vec_index (els (fst (api_insert_full api s a))) (snd (api_insert_full api s a)) = Some a)"

section \<open>The builder\<close>

type_synonym rel_edge = "nat \<times> nat"

record 's relation_builder =
  tb_elements :: 's
  tb_edges :: "rel_edge list"

definition builder_default :: "('s, 'a) index_set_api \<Rightarrow> 's relation_builder" where
  "builder_default api = \<lparr>tb_elements = api_empty api, tb_edges = []\<rparr>"

definition builder_is_empty :: "'s relation_builder \<Rightarrow> bool" where
  "builder_is_empty b = (tb_edges b = [])"

definition builder_index :: "('s, 'a) index_set_api \<Rightarrow> 's relation_builder \<Rightarrow> 'a \<Rightarrow> nat option" where
  "builder_index api b a = api_get_index_of api (tb_elements b) a"

definition add_index :: "('s, 'a) index_set_api \<Rightarrow> 's relation_builder \<Rightarrow> 'a \<Rightarrow> 's relation_builder \<times> nat" where
  "add_index api b a =
     (let (elements, index) = api_insert_full api (tb_elements b) a in (b\<lparr>tb_elements := elements\<rparr>, index))"

definition builder_add :: "('s, 'a) index_set_api \<Rightarrow> 's relation_builder \<Rightarrow> 'a \<Rightarrow> 'a \<Rightarrow> 's relation_builder" where
  "builder_add api b x y =
     (let (b1, s) = add_index api b x; (b2, t) = add_index api b1 y in
      b2\<lparr>tb_edges := List.insert (s, t) (tb_edges b2)\<rparr>)"

text \<open>\<open>maybe_map\<close>: the outer option is a panic, the inner one the result.\<close>

fun maybe_map_edges ::
    "('s, 'a) index_set_api \<Rightarrow> ('u, 'b) index_set_api \<Rightarrow> ('a \<Rightarrow> 'b option) \<Rightarrow> 's \<Rightarrow> rel_edge list \<Rightarrow> 'u relation_builder \<Rightarrow>
     'u relation_builder option option" where
  "maybe_map_edges api api' f elements [] result = Some (Some result)"
| "maybe_map_edges api api' f elements ((s, t) # es) result = do {
     x \<leftarrow> api_index api elements s;
     (case f x of
        None \<Rightarrow> Some None
      | Some x' \<Rightarrow> do {
          y \<leftarrow> api_index api elements t;
          (case f y of
             None \<Rightarrow> Some None
           | Some y' \<Rightarrow> maybe_map_edges api api' f elements es (builder_add api' result x' y')) }) }"

definition builder_maybe_map ::
    "('s, 'a) index_set_api \<Rightarrow> ('u, 'b) index_set_api \<Rightarrow> (rel_edge list \<Rightarrow> rel_edge list) \<Rightarrow> ('a \<Rightarrow> 'b option) \<Rightarrow>
     's relation_builder \<Rightarrow> 'u relation_builder option option" where
  "builder_maybe_map api api' it f b =
     maybe_map_edges api api' f (tb_elements b) (it (tb_edges b)) (builder_default api')"

section \<open>The closure\<close>

text \<open>One round over the edges, and rounds until nothing changes.\<close>

fun closure_pass :: "rel_edge list \<Rightarrow> bool \<Rightarrow> bit_matrix \<Rightarrow> (bit_matrix \<times> bool) option" where
  "closure_pass [] changed m = Some (m, changed)"
| "closure_pass ((s, t) # es) changed m = do {
     (m1, b1) \<leftarrow> bit_matrix_insert m s t;
     (m2, b2) \<leftarrow> bit_matrix_union_rows m1 t s;
     closure_pass es (changed \<or> b1 \<or> b2) m2 }"

partial_function (option) closure_loop :: "rel_edge list \<Rightarrow> bit_matrix \<Rightarrow> bit_matrix option" where
  "closure_loop es m =
     Option.bind (closure_pass es False m) (\<lambda>(m', changed). if changed then closure_loop es m' else Some m')"

record 's transitive_relation = "'s relation_builder" +
  tr_closure :: bit_matrix

definition freeze ::
    "('s, 'a) index_set_api \<Rightarrow> (rel_edge list \<Rightarrow> rel_edge list) \<Rightarrow> 's relation_builder \<Rightarrow> 's transitive_relation option" where
  "freeze api it b = do {
     let n = api_len api (tb_elements b);
     closure \<leftarrow> closure_loop (it (tb_edges b)) (bit_matrix_new n n);
     Some \<lparr>tb_elements = tb_elements b, tb_edges = tb_edges b, tr_closure = closure\<rparr> }"

definition relation_maybe_map ::
    "('s, 'a) index_set_api \<Rightarrow> ('u, 'b) index_set_api \<Rightarrow> (rel_edge list \<Rightarrow> rel_edge list) \<Rightarrow> ('a \<Rightarrow> 'b option) \<Rightarrow>
     's transitive_relation \<Rightarrow> 'u transitive_relation option option" where
  "relation_maybe_map api api' it f tr = do {
     r \<leftarrow> builder_maybe_map api api' it f \<lparr>tb_elements = tb_elements tr, tb_edges = tb_edges tr\<rparr>;
     (case r of None \<Rightarrow> Some None | Some b \<Rightarrow> map_option Some (freeze api' it b)) }"

definition relation_index :: "('s, 'a) index_set_api \<Rightarrow> 's transitive_relation \<Rightarrow> 'a \<Rightarrow> nat option" where
  "relation_index api tr a = api_get_index_of api (tb_elements tr) a"

section \<open>Queries\<close>

definition relation_contains :: "('s, 'a) index_set_api \<Rightarrow> 's transitive_relation \<Rightarrow> 'a \<Rightarrow> 'a \<Rightarrow> bool option" where
  "relation_contains api tr a b =
     (case (relation_index api tr a, relation_index api tr b) of
        (Some i, Some j) \<Rightarrow> bit_matrix_contains (tr_closure tr) i j
      | _ \<Rightarrow> Some False)"

text \<open>The elements of indices, collected; a row has at most as many elements as columns.\<close>

fun index_all :: "('s, 'a) index_set_api \<Rightarrow> 's \<Rightarrow> nat list \<Rightarrow> 'a list option" where
  "index_all api elements [] = Some []"
| "index_all api elements (i # is') = do {
     x \<leftarrow> api_index api elements i;
     xs \<leftarrow> index_all api elements is';
     Some (x # xs) }"

definition row_indices :: "bit_matrix \<Rightarrow> nat \<Rightarrow> nat list option" where
  "row_indices m row = do { it \<leftarrow> bit_matrix_iter m row; bit_iter_collect (bm_num_columns m + 1) it }"

definition reachable_from :: "('s, 'a) index_set_api \<Rightarrow> 's transitive_relation \<Rightarrow> 'a \<Rightarrow> 'a list option" where
  "reachable_from api tr a =
     (case relation_index api tr a of
        Some i \<Rightarrow> do { is' \<leftarrow> row_indices (tr_closure tr) i; index_all api (tb_elements tr) is' }
      | None \<Rightarrow> Some [])"

text \<open>The loops of \<open>pare_down\<close>: the inner one moves the candidates that stay over the dead ones.\<close>

function pare_inner :: "bit_matrix \<Rightarrow> nat \<Rightarrow> nat list \<Rightarrow> nat \<Rightarrow> nat \<Rightarrow> (nat list \<times> nat \<times> nat) option" where
  "pare_inner closure candidate_i candidates j dead =
     (if j < length candidates then
        Option.bind (bit_matrix_contains closure candidate_i (candidates ! j)) (\<lambda>reaches.
          if reaches then pare_inner closure candidate_i candidates (j + 1) (dead + 1)
          else if dead \<le> j then
            pare_inner closure candidate_i (candidates[j - dead := candidates ! j]) (j + 1) dead
          else None)
      else Some (candidates, j, dead))"
  by pat_completeness auto

termination
  by (relation "measure (\<lambda>(_, _, candidates, j, _). length candidates - j)") auto

partial_function (option) pare_outer :: "bit_matrix \<Rightarrow> nat list \<Rightarrow> nat \<Rightarrow> nat list option" where
  "pare_outer closure candidates i =
     (if i < length candidates then
        Option.bind (pare_inner closure (candidates ! i) candidates (i + 1) 0) (\<lambda>(candidates', j, dead).
          Option.bind (rust_assert (dead \<le> j)) (\<lambda>_. pare_outer closure (take (j - dead) candidates') (i + 1)))
      else Some candidates)"

definition pare_down :: "nat list \<Rightarrow> bit_matrix \<Rightarrow> nat list option" where
  "pare_down candidates closure = pare_outer closure candidates 0"

definition lub_indices :: "bit_matrix \<Rightarrow> nat \<Rightarrow> nat \<Rightarrow> nat list option" where
  "lub_indices closure a b = do {
     ab \<leftarrow> bit_matrix_contains closure a b;
     if ab then Some [b]
     else do {
       ba \<leftarrow> bit_matrix_contains closure b a;
       if ba then Some [a]
       else do {
         c1 \<leftarrow> intersect_rows closure a b;
         c2 \<leftarrow> pare_down c1 closure;
         pare_down (rev c2) closure } } }"

definition minimal_upper_bounds :: "('s, 'a) index_set_api \<Rightarrow> 's transitive_relation \<Rightarrow> 'a \<Rightarrow> 'a \<Rightarrow> 'a list option" where
  "minimal_upper_bounds api tr a b =
     (case (relation_index api tr a, relation_index api tr b) of
        (Some i, Some j) \<Rightarrow> do {
          let (i, j) = (if i > j then (j, i) else (i, j));
          lubs \<leftarrow> lub_indices (tr_closure tr) i j;
          index_all api (tb_elements tr) (rev lubs) }
      | _ \<Rightarrow> Some [])"

text \<open>The last two bounds are replaced by their own bounds until at most one is left. The bounds are kept in reverse
  here, so that the end of the vector is the head of the list.\<close>

partial_function (option) mutual_postdominator_loop ::
    "('s, 'a) index_set_api \<Rightarrow> 's transitive_relation \<Rightarrow> 'a list \<Rightarrow> 'a option option" where
  "mutual_postdominator_loop api tr mubs =
     (case mubs of
        [] \<Rightarrow> Some None
      | m # rest \<Rightarrow>
          (case rest of
             [] \<Rightarrow> Some (Some m)
           | n # rest' \<Rightarrow>
               Option.bind (minimal_upper_bounds api tr n m) (\<lambda>ubs. mutual_postdominator_loop api tr (rev ubs @ rest'))))"

definition mutual_immediate_postdominator :: "('s, 'a) index_set_api \<Rightarrow> 's transitive_relation \<Rightarrow> 'a list \<Rightarrow> 'a option option" where
  "mutual_immediate_postdominator api tr mubs = mutual_postdominator_loop api tr (rev mubs)"

definition postdom_upper_bound :: "('s, 'a) index_set_api \<Rightarrow> 's transitive_relation \<Rightarrow> 'a \<Rightarrow> 'a \<Rightarrow> 'a option option" where
  "postdom_upper_bound api tr a b = do {
     mubs \<leftarrow> minimal_upper_bounds api tr a b;
     mutual_immediate_postdominator api tr mubs }"

fun retain_not_reaching :: "bit_matrix \<Rightarrow> nat \<Rightarrow> nat list \<Rightarrow> nat list option" where
  "retain_not_reaching closure a [] = Some []"
| "retain_not_reaching closure a (e # es) = do {
     reaches \<leftarrow> bit_matrix_contains closure e a;
     rest \<leftarrow> retain_not_reaching closure a es;
     Some (if reaches then rest else e # rest) }"

definition parents :: "('s, 'a) index_set_api \<Rightarrow> 's transitive_relation \<Rightarrow> 'a \<Rightarrow> 'a list option" where
  "parents api tr a =
     (case relation_index api tr a of
        None \<Rightarrow> Some []
      | Some i \<Rightarrow> do {
          a1 \<leftarrow> intersect_rows (tr_closure tr) i i;
          a2 \<leftarrow> retain_not_reaching (tr_closure tr) i a1;
          a3 \<leftarrow> pare_down a2 (tr_closure tr);
          a4 \<leftarrow> pare_down (rev a3) (tr_closure tr);
          index_all api (tb_elements tr) (rev a4) })"

fun find_reaching :: "bit_matrix \<Rightarrow> nat \<Rightarrow> nat list \<Rightarrow> nat option option" where
  "find_reaching closure a [] = Some None"
| "find_reaching closure a (i # is') = do {
     reaches \<leftarrow> bit_matrix_contains closure i a;
     if reaches then Some (Some i) else find_reaching closure a is' }"

definition minimal_scc_representative :: "('s, 'a) index_set_api \<Rightarrow> 's transitive_relation \<Rightarrow> 'a \<Rightarrow> 'a option" where
  "minimal_scc_representative api tr a =
     (case relation_index api tr a of
        None \<Rightarrow> Some a
      | Some a_i \<Rightarrow> do {
          is' \<leftarrow> row_indices (tr_closure tr) a_i;
          r \<leftarrow> find_reaching (tr_closure tr) a_i is';
          (case r of None \<Rightarrow> Some a | Some i \<Rightarrow> api_index api (tb_elements tr) i) })"

fun base_edges :: "('s, 'a) index_set_api \<Rightarrow> 's \<Rightarrow> rel_edge list \<Rightarrow> ('a \<times> 'a) list option" where
  "base_edges api elements [] = Some []"
| "base_edges api elements ((s, t) # es) = do {
     x \<leftarrow> api_index api elements s;
     y \<leftarrow> api_index api elements t;
     rest \<leftarrow> base_edges api elements es;
     Some ((x, y) # rest) }"

declare pare_inner.simps [simp del]

end
