(* ===== verification/Matrix_Rows.thy ===== *)
theory Matrix_Rows
  imports Bit_Matrix
begin

unbundle bit_operations_syntax

text \<open>
  The operations of \<open>BitMatrix\<close> that take whole rows: they compute the operation on the sets of columns, also when a row
  is united with itself, and leave the other rows as they are.
\<close>

section \<open>Uniting rows\<close>

lemma take_Suc_slice: "a < length xs \<Longrightarrow> take (Suc n) (drop a xs) = xs ! a # take n (drop (Suc a) xs)"
  by (metis Cons_nth_drop_Suc take_Suc_Cons)

lemma put_slice_Cons: "a < length xs \<Longrightarrow> put_slice (Suc a) ys (xs[a := y]) = put_slice a (y # ys) xs"
  by (simp add: put_slice_def take_Suc_conv_app_nth)

lemma length_update_words_loop: "length (fst (update_words_loop f c xs ys)) = length xs"
  by (induction f c xs ys rule: update_words_loop.induct) (simp_all add: case_prod_beta Let_def)

lemma union_rows_loop_eq:
  assumes "rs + n \<le> length ws" "a + n \<le> length ws" "rs = a \<or> rs + n \<le> a \<or> a + n \<le> rs"
  shows "union_rows_loop c (zip [rs..<rs + n] [a..<a + n]) ws =
    (let (xs, c') = update_words_loop (\<lambda>a b. a OR b) c (take n (drop a ws)) (take n (drop rs ws))
     in Some (put_slice a xs ws, c'))"
  using assms
proof (induction n arbitrary: rs a ws c)
  case 0
  then show ?case by (simp add: put_slice_def)
next
  case (Suc n)
  have l: "rs < length ws" "a < length ws" using Suc.prems by simp_all
  let ?y = "ws ! a OR ws ! rs"
  let ?ws = "ws[a := ?y]"
  have "take n (drop (Suc rs) ?ws) = take n (drop (Suc rs) ws)"
  proof (cases "rs = a")
    case False
    then show ?thesis using Suc.prems by (auto simp: list_eq_iff_nth_eq nth_list_update)
  qed simp
  moreover have "take n (drop (Suc a) ?ws) = take n (drop (Suc a) ws)" by simp
  moreover have "union_rows_loop c' (zip [Suc rs..<Suc rs + n] [Suc a..<Suc a + n]) ?ws =
    (let (xs, c') = update_words_loop (\<lambda>a b. a OR b) c' (take n (drop (Suc a) ?ws)) (take n (drop (Suc rs) ?ws))
     in Some (put_slice (Suc a) xs ?ws, c'))" for c'
    using Suc.prems by (intro Suc.IH) auto
  moreover have "[rs..<rs + Suc n] = rs # [Suc rs..<Suc rs + n]" "[a..<a + Suc n] = a # [Suc a..<Suc a + n]"
    by (simp_all add: upt_conv_Cons)
  ultimately show ?case
    using l by (simp add: take_Suc_slice put_slice_Cons vec_set_def case_prod_beta Let_def)
qed

lemma union_words_row:
  assumes m: "bm_inv n c m" and r: "r < n" and t: "dense_inv c \<lparr>db_domain_size = c, db_words = vs\<rparr>"
  obtains xs where "update_words (\<lambda>a b. a OR b) (row_words m r) vs = Some (xs, bm_rows m ! r \<union> bits vs \<noteq> bm_rows m ! r)"
    "dense_inv c \<lparr>db_domain_size = c, db_words = xs\<rparr>" "bits xs = bm_rows m ! r \<union> bits vs"
proof -
  note row = bm_invD(5) [OF m r]
  obtain s' b where u: "dense_union (matrix_row_set m r) \<lparr>db_domain_size = c, db_words = vs\<rparr> = Some (s', b)" "dense_inv c s'"
    "dense_elems s' = bm_rows m ! r \<union> bits vs" "b \<longleftrightarrow> dense_elems s' \<noteq> bm_rows m ! r"
    using dense_union_correct [OF row t] bm_invD(6) [OF m r] by (auto simp: dense_elems_def)
  then have "update_words (\<lambda>a b. a OR b) (row_words m r) vs = Some (db_words s', b)"
    using bm_invD(2) [OF m] by (auto simp: dense_union_def dense_relation_def matrix_row_set_def)
  then show ?thesis using that u dense_words_only [OF u(2)] by (simp add: dense_elems_def)
qed

text \<open>What an operation returns that sets a row to the elements \<open>S\<close>.\<close>

definition row_updated :: "nat \<Rightarrow> nat \<Rightarrow> bit_matrix \<Rightarrow> nat \<Rightarrow> nat set \<Rightarrow> (bit_matrix \<times> bool) option \<Rightarrow> bool" where
  "row_updated n c m r S res \<longleftrightarrow>
     (\<exists>m'. res = Some (m', S \<noteq> bm_rows m ! r) \<and> bm_inv n c m' \<and> bm_rows m' = (bm_rows m)[r := S])"

lemma union_row_with_correct:
  assumes m: "bm_inv n c m" and r: "r < n" and t: "dense_inv c t"
  shows "row_updated n c m r (bm_rows m ! r \<union> dense_elems t) (union_row_with m t r)"
proof -
  obtain xs where xs: "update_words (\<lambda>a b. a OR b) (row_words m r) (db_words t) =
      Some (xs, bm_rows m ! r \<union> bits (db_words t) \<noteq> bm_rows m ! r)"
    "dense_inv c \<lparr>db_domain_size = c, db_words = xs\<rparr>" "bits xs = bm_rows m ! r \<union> bits (db_words t)"
    using union_words_row [OF m r dense_words_only [OF t]] .
  then show ?thesis
    using bm_put_row [OF m r xs(2)] slice_row [OF m r] bm_invD(1,2) [OF m] dense_invD(1) [OF t] r
    by (simp add: union_row_with_def row_updated_def bit_matrix_range_def Let_def dense_elems_def)
qed

lemma bit_matrix_union_rows_correct:
  assumes m: "bm_inv n c m" and q: "q < n" and r: "r < n"
  shows "row_updated n c m r (bm_rows m ! r \<union> bm_rows m ! q) (bit_matrix_union_rows m q r)"
proof -
  let ?w = "num_words c" and ?ws = "bm_words m"
  have rq: "dense_inv c \<lparr>db_domain_size = c, db_words = row_words m q\<rparr>" using bm_invD(5) [OF m q] row_inv_words [OF m q] by simp
  obtain xs where xs: "update_words (\<lambda>a b. a OR b) (row_words m r) (row_words m q) =
      Some (xs, bm_rows m ! r \<union> bits (row_words m q) \<noteq> bm_rows m ! r)"
    "dense_inv c \<lparr>db_domain_size = c, db_words = xs\<rparr>" "bits xs = bm_rows m ! r \<union> bits (row_words m q)"
    using union_words_row [OF m r rq] .
  obtain ch where ch: "update_words_loop (\<lambda>a b. a OR b) 0 (row_words m r) (row_words m q) = (xs, ch)"
    "ch \<noteq> 0 \<longleftrightarrow> bm_rows m ! r \<union> bits (row_words m q) \<noteq> bm_rows m ! r"
    using xs(1) bm_invD(7) [OF m] q r by (auto simp: update_words_def case_prod_beta prod_eq_iff)
  have "q * ?w = r * ?w \<or> q * ?w + ?w \<le> r * ?w \<or> r * ?w + ?w \<le> q * ?w" using rows_apart [of q r ?w] by auto
  then have "union_rows_loop 0 (zip [q * ?w..<q * ?w + ?w] [r * ?w..<r * ?w + ?w]) ?ws = Some (put_slice (r * ?w) xs ?ws, ch)"
    using union_rows_loop_eq [of "q * ?w" ?w ?ws "r * ?w" 0] row_end [OF q, of ?w] row_end [OF r, of ?w] bm_invD(2,3) [OF m] ch(1)
    by (simp add: row_words_def)
  then show ?thesis
    using bm_put_row [OF m r xs(2)] bm_invD(1,2) [OF m] bm_invD(8) [OF m q] ch(2) xs(3) q r
    by (simp add: bit_matrix_union_rows_def row_updated_def bit_matrix_range_def Let_def)
qed

lemma bit_matrix_insert_updated:
  assumes "bm_inv n c m" "r < n" "x < c"
  shows "row_updated n c m r (insert x (bm_rows m ! r)) (bit_matrix_insert m r x)"
  using bit_matrix_insert_correct [OF assms] by (cases "x \<in> bm_rows m ! r") (auto simp: row_updated_def insert_absorb)

section \<open>Filling a row\<close>

lemma fill_words_slice: "a + n \<le> length ws \<Longrightarrow> fill_words [a..<a + n] ws = Some (put_slice a (replicate n (NOT 0)) ws)"
proof (induction n arbitrary: a ws)
  case (Suc n)
  have "[a..<a + Suc n] = a # [Suc a..<Suc a + n]" by (simp add: upt_conv_Cons)
  then show ?case using Suc.IH [of "Suc a" "ws[a := NOT 0]"] Suc.prems by (simp add: vec_set_def put_slice_Cons)
qed (simp add: put_slice_def)

lemma update_last_append: "ys \<noteq> [] \<Longrightarrow> (xs @ ys)[length (xs @ ys) - 1 := v] = xs @ ys[length ys - 1 := v]"
  by (cases ys) (simp_all add: list_update_append)

lemma clear_excess_append:
  assumes "ys \<noteq> [] \<or> c mod 64 = 0" "clear_excess_bits_in_final_word c ys = Some zs"
  shows "clear_excess_bits_in_final_word c (xs @ ys) = Some (xs @ zs)"
proof (cases "c mod 64 = 0")
  case False
  then obtain v where v: "checked_sub (push_bit (c mod 64) 1 :: u64) 1 = Some v" "zs = ys[length ys - 1 := last ys AND v]" "ys \<noteq> []"
    using assms by (auto simp: clear_excess_bits_in_final_word_def WORD_BITS_def Let_def split: bind_splits)
  then show ?thesis
    using False update_last_append [of ys xs "last ys AND v"]
    by (simp add: clear_excess_bits_in_final_word_def WORD_BITS_def Let_def)
qed (use assms in \<open>simp add: clear_excess_bits_in_final_word_def WORD_BITS_def\<close>)

lemma bit_matrix_insert_all_correct:
  assumes m: "bm_inv n c m" and r: "r < n"
  shows "\<exists>m'. bit_matrix_insert_all m r = Some m' \<and> bm_inv n c m' \<and> bm_rows m' = (bm_rows m)[r := {..<c}]"
proof -
  let ?w = "num_words c" and ?ws = "bm_words m"
  have e: "r * ?w + ?w \<le> length ?ws" using row_end [OF r, of ?w] bm_invD(3) [OF m] by simp
  obtain s' where s': "new_filled c = Some s'" "dense_inv c s'" "dense_elems s' = {..<c}" using new_filled_correct by blast
  let ?xs = "db_words s'"
  have clear: "clear_excess_bits_in_final_word c (replicate ?w (NOT 0)) = Some ?xs"
    using s'(1) by (auto simp: new_filled_def clear_excess_bits_def)
  have len: "length ?xs = ?w" using dense_invD(2) [OF s'(2)] .
  have "replicate ?w (NOT 0) \<noteq> ([] :: u64 list) \<or> c mod 64 = 0" using index_word [of 0 c] by (cases "c = 0") auto
  then have "clear_excess_bits_in_final_word c (take (r * ?w) ?ws @ replicate ?w (NOT 0)) = Some (take (r * ?w) ?ws @ ?xs)"
    by (rule clear_excess_append [OF _ clear])
  moreover have "slice_range 0 (r * ?w + ?w) (put_slice (r * ?w) (replicate ?w (NOT 0)) ?ws) =
      Some (take (r * ?w) ?ws @ replicate ?w (NOT 0))"
    using e by (simp add: slice_range_def put_slice_def)
  moreover have "put_slice 0 (take (r * ?w) ?ws @ ?xs) (put_slice (r * ?w) (replicate ?w (NOT 0)) ?ws) = put_slice (r * ?w) ?xs ?ws"
    using e len by (simp add: put_slice_def)
  ultimately show ?thesis
    using bm_put_row [OF m r dense_words_only [OF s'(2)]] fill_words_slice [OF e] bm_invD(1,2) [OF m] s'(3) r
    by (simp add: bit_matrix_insert_all_def bit_matrix_range_def Let_def dense_elems_def)
qed

section \<open>Intersecting rows\<close>

lemma push_bits_eq: "push_bits base [k..<k + n] (drop_bit k v) = map (\<lambda>b. base * 64 + b) (filter (bit v) [k..<k + n])"
  if "k + n = 64"
  using that
proof (induction n arbitrary: k)
  case (Suc n)
  have upt: "[k..<k + Suc n] = k # [Suc k..<Suc k + n]" by (simp add: upt_conv_Cons)
  have one: "drop_bit k v AND 1 \<noteq> 0 \<longleftrightarrow> bit v k" by (simp add: and_one_eq bit_iff_odd_drop_bit mod2_eq_if)
  have rest: "push_bits base [Suc k..<Suc k + n] (drop_bit (Suc k) v) = map (\<lambda>b. base * 64 + b) (filter (bit v) [Suc k..<Suc k + n])"
    using Suc by simp
  show ?case
  proof (cases "drop_bit k v = 0")
    case True
    have "\<not> bit v i" if "k \<le> i" for i
    proof -
      have "bit v i = bit (drop_bit k v) (i - k)" using that by (simp add: bit_drop_bit_eq)
      then show ?thesis using True by simp
    qed
    then show ?thesis unfolding upt by (simp add: True)
  next
    case False
    have "drop_bit 1 (drop_bit k v) = drop_bit (Suc k) v" by (simp add: drop_bit_drop_bit)
    then show ?thesis using False one rest unfolding upt by (simp add: WORD_BITS_def)
  qed
qed simp

lemma sorted_list_filter: "finite S \<Longrightarrow> S \<subseteq> {..<k} \<Longrightarrow> filter (\<lambda>i. i \<in> S) [0..<k] = sorted_list_of_set S"
  by (rule sorted_distinct_set_unique) (auto simp: sorted_wrt_filter)

lemma push_bits_word: "push_bits base [0..<WORD_BITS] v = map (\<lambda>b. base * 64 + b) (filter (bit v) [0..<64])"
  using push_bits_eq [of 0 64 base v] by (simp add: WORD_BITS_def)

lemma intersect_loop_eq:
  assumes "a + n \<le> length ws" "b + n \<le> length ws"
  shows "intersect_rows_loop ws base (zip [a..<a + n] [b..<b + n]) =
    Some (map (\<lambda>i. base * 64 + i) (filter (\<lambda>i. i \<in> bits (take n (drop a ws)) \<inter> bits (take n (drop b ws))) [0..<64 * n]))"
  using assms
proof (induction n arbitrary: a b base)
  case (Suc n)
  have l: "a < length ws" "b < length ws" using Suc.prems by simp_all
  let ?A = "bits (take n (drop (Suc a) ws))" and ?B = "bits (take n (drop (Suc b) ws))"
  have upt: "[a..<a + Suc n] = a # [Suc a..<Suc a + n]" "[b..<b + Suc n] = b # [Suc b..<Suc b + n]"
    by (simp_all add: upt_conv_Cons)
  have cols: "[0..<64 * Suc n] = [0..<64] @ map (\<lambda>i. i + 64) [0..<64 * n]"
    using upt_add_eq_append [of 0 64 "64 * n"] map_add_upt [of 64 "64 * n"] by (simp add: add.commute)
  have low: "i \<in> bits (x # xs) \<longleftrightarrow> bit x i" if "i < 64" for x :: u64 and xs i using that by (simp add: bits_def)
  have "(i + 64) div 64 = Suc (i div 64)" for i :: nat by simp
  then have high: "i + 64 \<in> bits (x # xs) \<longleftrightarrow> i \<in> bits xs" for x :: u64 and xs i by (simp add: bits_def del: div_add_self1 div_add_self2)
  have "filter (bit (x AND y)) [0..<64] = filter (\<lambda>i. i \<in> bits (x # xs) \<inter> bits (y # ys)) [0..<64]" for x y :: u64 and xs ys
    by (rule filter_cong) (simp_all add: low bit_and_iff)
  then show ?case
    using Suc.IH [of "Suc a" "Suc b" "base + 1"] Suc.prems l unfolding upt cols
    by (simp add: take_Suc_slice push_bits_word high filter_map comp_def algebra_simps)
qed simp

lemma intersect_rows_correct:
  assumes m: "bm_inv n c m" and q: "q < n" and r: "r < n"
  shows "intersect_rows m q r = Some (sorted_list_of_set (bm_rows m ! q \<inter> bm_rows m ! r))"
proof -
  let ?w = "num_words c" and ?ws = "bm_words m"
  have "bits (row_words m p) \<subseteq> {..<64 * ?w}" if "p < n" for p
    using bm_invD(7) [OF m that] by (auto simp: bits_def less_mult_imp_div_less div_less_iff_less_mult mult.commute)
  then have "filter (\<lambda>i. i \<in> bits (row_words m q) \<inter> bits (row_words m r)) [0..<64 * ?w] =
      sorted_list_of_set (bits (row_words m q) \<inter> bits (row_words m r))"
    using q finite_bits by (intro sorted_list_filter) auto
  then show ?thesis
    using intersect_loop_eq [of "q * ?w" ?w ?ws "r * ?w" 0] row_end [OF q, of ?w] row_end [OF r, of ?w]
      bm_invD(1,2,3) [OF m] bm_invD(8) [OF m q] bm_invD(8) [OF m r] q r
    by (simp add: intersect_rows_def bit_matrix_range_def Let_def row_words_def)
qed

end
