(* ===== verification/Relation_Closure.thy ===== *)
theory Relation_Closure
  imports Transitive_Relation Matrix_Rows
begin

text \<open>
  The closure of \<open>TransitiveRelation\<close>: the rounds of \<open>freeze\<close> end, and the matrix they leave is the transitive closure of
  the edges; so the queries on elements answer for the closure of the pairs that were added.
\<close>

section \<open>Matrices as relations\<close>

definition bm_rel :: "bit_matrix \<Rightarrow> nat rel" where
  "bm_rel m = {(i, j). i < length (bm_rows m) \<and> j \<in> bm_rows m ! i}"

lemma bm_rel_bounded:
  assumes m: "bm_inv n c m"
  shows "bm_rel m \<subseteq> {..<n} \<times> {..<c}"
proof -
  have "bm_rows m ! i \<subseteq> {..<c}" if "i < n" for i
    using dense_invD(3) [OF bm_invD(5) [OF m that]] bm_invD(6) [OF m that] by (simp add: dense_elems_def)
  then show ?thesis using bm_invD(4) [OF m] by (auto simp: bm_rel_def)
qed

lemma bm_rel_row: "bm_inv n c m \<Longrightarrow> i < n \<Longrightarrow> j \<in> bm_rows m ! i \<longleftrightarrow> (i, j) \<in> bm_rel m"
  using bm_invD(4) [of n c m] by (simp add: bm_rel_def)

lemma row_updated_rel:
  assumes m: "bm_inv n c m" and r: "r < n" and u: "row_updated n c m r (bm_rows m ! r \<union> T) res"
  shows "\<exists>m'. res = Some (m', bm_rel m' \<noteq> bm_rel m) \<and> bm_inv n c m' \<and> bm_rel m' = bm_rel m \<union> {r} \<times> T"
proof -
  obtain m' where m': "res = Some (m', bm_rows m ! r \<union> T \<noteq> bm_rows m ! r)" "bm_inv n c m'"
    "bm_rows m' = (bm_rows m)[r := bm_rows m ! r \<union> T]"
    using u by (auto simp: row_updated_def)
  have rel: "bm_rel m' = bm_rel m \<union> {r} \<times> T"
    using m'(3) r bm_invD(4) [OF m] by (auto simp: bm_rel_def nth_list_update split: if_splits)
  have "bm_rows m ! r \<union> T \<noteq> bm_rows m ! r \<longleftrightarrow> bm_rel m' \<noteq> bm_rel m"
    unfolding rel using r bm_invD(4) [OF m] by (auto simp: bm_rel_def)
  then show ?thesis using m' rel by auto
qed

section \<open>Rounds\<close>

text \<open>What one edge adds to the closure.\<close>

definition edge_step :: "nat \<Rightarrow> nat \<Rightarrow> nat rel \<Rightarrow> nat rel" where
  "edge_step s t R = insert (s, t) R \<union> {(s, j) | j. (t, j) \<in> insert (s, t) R}"

lemma closure_edge:
  assumes m: "bm_inv n n m" and s: "s < n" and t: "t < n"
  obtains m1 m2 b1 b2 where "bit_matrix_insert m s t = Some (m1, b1)" "bit_matrix_union_rows m1 t s = Some (m2, b2)"
    "bm_inv n n m2" "bm_rel m2 = edge_step s t (bm_rel m)" "b1 \<or> b2 \<longleftrightarrow> bm_rel m2 \<noteq> bm_rel m"
proof -
  obtain m1 where m1: "bit_matrix_insert m s t = Some (m1, bm_rel m1 \<noteq> bm_rel m)" "bm_inv n n m1" "bm_rel m1 = bm_rel m \<union> {s} \<times> {t}"
    using row_updated_rel [OF m s, of "{t}" "bit_matrix_insert m s t"] bit_matrix_insert_updated [OF m s t] by auto
  obtain m2 where m2: "bit_matrix_union_rows m1 t s = Some (m2, bm_rel m2 \<noteq> bm_rel m1)" "bm_inv n n m2"
    "bm_rel m2 = bm_rel m1 \<union> {s} \<times> (bm_rows m1 ! t)"
    using row_updated_rel [OF m1(2) s, of "bm_rows m1 ! t" "bit_matrix_union_rows m1 t s"] bit_matrix_union_rows_correct [OF m1(2) t s] by auto
  have "bm_rel m2 = edge_step s t (bm_rel m)"
    using m1(3) m2(3) bm_rel_row [OF m1(2) t] by (auto simp: edge_step_def)
  moreover have "bm_rel m1 \<noteq> bm_rel m \<or> bm_rel m2 \<noteq> bm_rel m1 \<longleftrightarrow> bm_rel m2 \<noteq> bm_rel m" using m1(3) m2(3) by auto
  ultimately show ?thesis using that m1(1) m2(1,2) by blast
qed

lemma fold_step_mono: "R \<subseteq> fold (\<lambda>(s, t). edge_step s t) es R"
  by (induction es arbitrary: R) (auto simp: edge_step_def subset_iff)

lemma closure_pass_correct:
  assumes "bm_inv n n m" "set es \<subseteq> {..<n} \<times> {..<n}"
  shows "\<exists>m'. closure_pass es ch m = Some (m', ch \<or> bm_rel m' \<noteq> bm_rel m) \<and> bm_inv n n m' \<and>
    bm_rel m' = fold (\<lambda>(s, t). edge_step s t) es (bm_rel m)"
  using assms
proof (induction es arbitrary: m ch)
  case (Cons e es)
  obtain s t where e: "e = (s, t)" by (cases e)
  have s: "s < n" and t: "t < n" using Cons.prems(2) e by simp_all
  obtain m1 m2 b1 b2 where st: "bit_matrix_insert m s t = Some (m1, b1)" "bit_matrix_union_rows m1 t s = Some (m2, b2)"
    "bm_inv n n m2" "bm_rel m2 = edge_step s t (bm_rel m)" "b1 \<or> b2 \<longleftrightarrow> bm_rel m2 \<noteq> bm_rel m"
    using closure_edge [OF Cons.prems(1) s t] .
  obtain m' where m': "closure_pass es (ch \<or> b1 \<or> b2) m2 = Some (m', (ch \<or> b1 \<or> b2) \<or> bm_rel m' \<noteq> bm_rel m2)" "bm_inv n n m'"
    "bm_rel m' = fold (\<lambda>(s, t). edge_step s t) es (bm_rel m2)"
    using Cons.IH [OF st(3), of "ch \<or> b1 \<or> b2"] Cons.prems(2) by auto
  have "bm_rel m \<subseteq> bm_rel m2" "bm_rel m2 \<subseteq> bm_rel m'" using st(4) m'(3) fold_step_mono by (auto simp: edge_step_def)
  then have "(ch \<or> b1 \<or> b2) \<or> bm_rel m' \<noteq> bm_rel m2 \<longleftrightarrow> ch \<or> bm_rel m' \<noteq> bm_rel m" using st(5) by auto
  then show ?case using e st m' by auto
qed simp

lemma fold_step_sound: "set es \<subseteq> E \<Longrightarrow> R \<subseteq> E\<^sup>+ \<Longrightarrow> fold (\<lambda>(s, t). edge_step s t) es R \<subseteq> E\<^sup>+"
proof (induction es arbitrary: R)
  case (Cons e es)
  obtain s t where e: "e = (s, t)" by (cases e)
  have "(s, t) \<in> E" using Cons.prems(1) e by simp
  then have "edge_step s t R \<subseteq> E\<^sup>+" using Cons.prems(2) by (auto simp: edge_step_def intro: trancl_into_trancl2)
  then show ?case using Cons e by simp
qed simp

lemma fold_step_closed:
  assumes "fold (\<lambda>(s, t). edge_step s t) es R = R" "(s, t) \<in> set es"
  shows "(s, t) \<in> R" "(t, j) \<in> R \<Longrightarrow> (s, j) \<in> R"
proof -
  have "(s, t) \<in> R \<and> (\<forall>j. (t, j) \<in> R \<longrightarrow> (s, j) \<in> R)"
    using assms
  proof (induction es)
    case (Cons e es)
    obtain a b where e: "e = (a, b)" by (cases e)
    have "R \<subseteq> edge_step a b R" by (auto simp: edge_step_def)
    moreover have "edge_step a b R \<subseteq> R" using fold_step_mono [of "edge_step a b R" es] Cons.prems(1) e by simp
    ultimately have "edge_step a b R = R" by simp
    then show ?case using Cons e by (auto simp: edge_step_def)
  qed simp
  then show "(s, t) \<in> R" "(t, j) \<in> R \<Longrightarrow> (s, j) \<in> R" by simp_all
qed

lemma fold_step_fixpoint:
  assumes "fold (\<lambda>(s, t). edge_step s t) es R = R"
  shows "(set es)\<^sup>+ \<subseteq> R"
proof
  fix p assume "p \<in> (set es)\<^sup>+"
  then have "(fst p, snd p) \<in> (set es)\<^sup>+" by simp
  then have "(fst p, snd p) \<in> R"
    by (induction rule: converse_trancl_induct) (use fold_step_closed [OF assms] in auto)
  then show "p \<in> R" by simp
qed

lemma closure_loop_correct:
  assumes "bm_inv n n m" "set es \<subseteq> {..<n} \<times> {..<n}" "bm_rel m \<subseteq> (set es)\<^sup>+"
  shows "\<exists>m'. closure_loop es m = Some m' \<and> bm_inv n n m' \<and> bm_rel m' = (set es)\<^sup>+"
  using assms(1,3)
proof (induction "n * n - card (bm_rel m)" arbitrary: m rule: less_induct)
  case less
  obtain m' where m': "closure_pass es False m = Some (m', bm_rel m' \<noteq> bm_rel m)" "bm_inv n n m'"
    "bm_rel m' = fold (\<lambda>(s, t). edge_step s t) es (bm_rel m)"
    using closure_pass_correct [OF less.prems(1) assms(2), of False] by auto
  have sound: "bm_rel m' \<subseteq> (set es)\<^sup>+" using fold_step_sound [OF _ less.prems(2)] m'(3) by simp
  show ?case
  proof (cases "bm_rel m' = bm_rel m")
    case True
    then have "(set es)\<^sup>+ \<subseteq> bm_rel m'" using fold_step_fixpoint m'(3) by metis
    then show ?thesis using True m' sound closure_loop.simps [of es m] by auto
  next
    case False
    have "bm_rel m \<subset> bm_rel m'" using False fold_step_mono m'(3) by blast
    moreover have fin: "finite (bm_rel m')" using bm_rel_bounded [OF m'(2)] finite_subset by blast
    ultimately have "card (bm_rel m) < card (bm_rel m')" by (rule psubset_card_mono [rotated])
    moreover have "card (bm_rel m') \<le> n * n"
      using card_mono [OF _ bm_rel_bounded [OF m'(2)]] by (simp add: card_cartesian_product)
    ultimately have "n * n - card (bm_rel m') < n * n - card (bm_rel m)" by linarith
    then show ?thesis using less.hyps [OF _ m'(2) sound] False m'(1) closure_loop.simps [of es m] by auto
  qed
qed

section \<open>Elements\<close>

definition relation_pairs :: "'a list \<Rightarrow> rel_edge list \<Rightarrow> 'a rel" where
  "relation_pairs xs es = (\<lambda>(i, j). (xs ! i, xs ! j)) ` set es"

definition edges_ok :: "'a list \<Rightarrow> rel_edge list \<Rightarrow> bool" where
  "edges_ok xs es \<longleftrightarrow> set es \<subseteq> {..<length xs} \<times> {..<length xs}"

lemma index_set_lawsD:
  assumes "index_set_laws api els"
  shows "els (api_empty api) = []" "api_len api s = length (els s)" "api_index api s i = vec_index (els s) i"
    "api_get_index_of api s a = Some i \<longleftrightarrow> i < length (els s) \<and> els s ! i = a" "distinct (els s)"
    "api_insert_full api s a = (s', k) \<Longrightarrow>
      els s' = (if a \<in> set (els s) then els s else els s @ [a]) \<and> k < length (els s') \<and> els s' ! k = a"
proof -
  show "els (api_empty api) = []" "api_len api s = length (els s)" "api_index api s i = vec_index (els s) i"
    using assms by (simp_all add: index_set_laws_def)
  show idx: "api_get_index_of api s a = Some i \<longleftrightarrow> i < length (els s) \<and> els s ! i = a" for i a
    using assms by (simp add: index_set_laws_def vec_index_def)
  show "distinct (els s)" unfolding distinct_conv_nth
  proof (intro allI impI)
    fix i j assume "i < length (els s)" "j < length (els s)" "i \<noteq> j"
    then show "els s ! i \<noteq> els s ! j" using idx [of "els s ! i" i] idx [of "els s ! i" j] by auto
  qed
  show "api_insert_full api s a = (s', k) \<Longrightarrow>
      els s' = (if a \<in> set (els s) then els s else els s @ [a]) \<and> k < length (els s') \<and> els s' ! k = a"
    using assms unfolding index_set_laws_def vec_index_def
    by (metis (no_types, lifting) fst_conv snd_conv option.distinct(1) option.inject)
qed

lemma relation_pairs_append: "edges_ok xs es \<Longrightarrow> relation_pairs (xs @ ys) es = relation_pairs xs es"
  unfolding relation_pairs_def by (rule image_cong) (auto simp: edges_ok_def nth_append)

lemma add_index_correct:
  assumes "index_set_laws api els" "add_index api b a = (b', k)"
  shows "tb_edges b' = tb_edges b" "\<exists>ys. els (tb_elements b') = els (tb_elements b) @ ys"
    "k < length (els (tb_elements b'))" "els (tb_elements b') ! k = a"
  using index_set_lawsD(6) [OF assms(1), of "tb_elements b" a] assms(2)
  by (auto simp: add_index_def case_prod_beta Let_def prod_eq_iff)

lemma builder_add_correct:
  assumes laws: "index_set_laws api els" and ok: "edges_ok (els (tb_elements b)) (tb_edges b)"
  shows "edges_ok (els (tb_elements (builder_add api b x y))) (tb_edges (builder_add api b x y))"
    "relation_pairs (els (tb_elements (builder_add api b x y))) (tb_edges (builder_add api b x y)) =
      insert (x, y) (relation_pairs (els (tb_elements b)) (tb_edges b))"
proof -
  obtain b1 s where 1: "add_index api b x = (b1, s)" by fastforce
  obtain b2 t where 2: "add_index api b1 y = (b2, t)" by fastforce
  note a1 = add_index_correct [OF laws 1] and a2 = add_index_correct [OF laws 2]
  let ?xs = "els (tb_elements b2)"
  obtain ys where ys: "?xs = els (tb_elements b1) @ ys" using a2(2) by blast
  obtain zs where zs: "?xs = els (tb_elements b) @ zs" using a1(2) a2(2) by auto
  have s: "s < length ?xs" "?xs ! s = x" using a1(3,4) ys by (simp_all add: nth_append)
  have add: "builder_add api b x y = b2\<lparr>tb_edges := List.insert (s, t) (tb_edges b)\<rparr>"
    using 1 2 a1(1) a2(1) by (simp add: builder_add_def)
  have ok': "edges_ok ?xs (tb_edges b)" using ok zs by (fastforce simp: edges_ok_def)
  then show "edges_ok (els (tb_elements (builder_add api b x y))) (tb_edges (builder_add api b x y))"
    using s a2(3) unfolding add by (simp add: edges_ok_def)
  have "relation_pairs ?xs (tb_edges b) = relation_pairs (els (tb_elements b)) (tb_edges b)"
    using relation_pairs_append [OF ok] zs by simp
  then show "relation_pairs (els (tb_elements (builder_add api b x y))) (tb_edges (builder_add api b x y)) =
      insert (x, y) (relation_pairs (els (tb_elements b)) (tb_edges b))"
    using s a2(4) unfolding add by (simp add: relation_pairs_def)
qed

text \<open>The relation built by adding pairs one after the other.\<close>

definition add_all :: "('s, 'a) index_set_api \<Rightarrow> ('a \<times> 'a) list \<Rightarrow> 's relation_builder" where
  "add_all api ps = fold (\<lambda>(x, y) b. builder_add api b x y) ps (builder_default api)"

lemma add_all_correct:
  assumes laws: "index_set_laws api els"
  shows "edges_ok (els (tb_elements (add_all api ps))) (tb_edges (add_all api ps)) \<and>
    relation_pairs (els (tb_elements (add_all api ps))) (tb_edges (add_all api ps)) = set ps"
proof (induction ps rule: rev_induct)
  case Nil
  show ?case by (simp add: add_all_def builder_default_def edges_ok_def relation_pairs_def)
next
  case (snoc p ps)
  obtain x y where p: "p = (x, y)" by (cases p)
  have "add_all api (ps @ [p]) = builder_add api (add_all api ps) x y" by (simp add: add_all_def p)
  then show ?case using builder_add_correct [OF laws, of "add_all api ps" x y] snoc p by simp
qed

section \<open>Frozen relations\<close>

text \<open>The closure of \<open>tr\<close> is the transitive relation \<open>R\<close> on its elements.\<close>

definition frozen :: "('s \<Rightarrow> 'a list) \<Rightarrow> 's transitive_relation \<Rightarrow> 'a rel \<Rightarrow> bool" where
  "frozen els tr R \<longleftrightarrow>
     (let xs = els (tb_elements tr); n = length xs in
      bm_inv n n (tr_closure tr) \<and> (\<forall>i < n. \<forall>j < n. (i, j) \<in> bm_rel (tr_closure tr) \<longleftrightarrow> (xs ! i, xs ! j) \<in> R) \<and>
      R \<subseteq> set xs \<times> set xs \<and> trans R)"

lemma trancl_relation_pairs:
  assumes d: "distinct xs" and ok: "edges_ok xs es" and i: "i < length xs" and j: "j < length xs"
  shows "(xs ! i, xs ! j) \<in> (relation_pairs xs es)\<^sup>+ \<longleftrightarrow> (i, j) \<in> (set es)\<^sup>+"
proof
  assume "(i, j) \<in> (set es)\<^sup>+"
  then show "(xs ! i, xs ! j) \<in> (relation_pairs xs es)\<^sup>+"
    by (rule trancl_induct) (force simp: relation_pairs_def intro: trancl_into_trancl)+
next
  have one: "i < length xs \<and> k < length xs \<and> (i, k) \<in> set es"
    if "(xs ! i, y) \<in> relation_pairs xs es" "i < length xs" "y = xs ! k" "k < length xs" for i k y
    using that d ok by (auto simp: relation_pairs_def edges_ok_def nth_eq_iff_index_eq)
  have field: "\<exists>k < length xs. y = xs ! k" if "(x, y) \<in> relation_pairs xs es" for x y
    using that ok by (auto simp: relation_pairs_def edges_ok_def)
  have "\<exists>k < length xs. y = xs ! k \<and> (i, k) \<in> (set es)\<^sup>+" if "(xs ! i, y) \<in> (relation_pairs xs es)\<^sup>+" for y
    using that
  proof (induction rule: trancl_induct)
    case (base y)
    then show ?case using field [OF base] one [OF base i] by blast
  next
    case (step y z)
    then show ?case using field [OF step(2)] one by (metis trancl_into_trancl)
  qed
  moreover assume "(xs ! i, xs ! j) \<in> (relation_pairs xs es)\<^sup>+"
  ultimately obtain k where "k < length xs" "xs ! j = xs ! k" "(i, k) \<in> (set es)\<^sup>+" by blast
  then show "(i, j) \<in> (set es)\<^sup>+" using d j nth_eq_iff_index_eq by metis
qed

lemma freeze_correct:
  assumes laws: "index_set_laws api els" and order: "\<And>es. set (it es) = set es"
    and ok: "edges_ok (els (tb_elements b)) (tb_edges b)"
  shows "\<exists>tr. freeze api it b = Some tr \<and> frozen els tr ((relation_pairs (els (tb_elements b)) (tb_edges b))\<^sup>+)"
proof -
  let ?xs = "els (tb_elements b)" and ?es = "tb_edges b"
  let ?n = "length ?xs" and ?R = "(relation_pairs (els (tb_elements b)) (tb_edges b))\<^sup>+"
  have "bm_rel (bit_matrix_new ?n ?n) = {}" by (simp add: bm_rel_def bit_matrix_new_correct)
  then obtain m where m: "closure_loop (it ?es) (bit_matrix_new ?n ?n) = Some m" "bm_inv ?n ?n m" "bm_rel m = (set ?es)\<^sup>+"
    using closure_loop_correct [OF bit_matrix_new_correct(1), of "it ?es" ?n] ok order by (auto simp: edges_ok_def)
  have "relation_pairs ?xs ?es \<subseteq> set ?xs \<times> set ?xs" using ok by (auto simp: relation_pairs_def edges_ok_def)
  then have "?R \<subseteq> set ?xs \<times> set ?xs" by (rule trancl_subset_Sigma)
  then have "frozen els \<lparr>tb_elements = tb_elements b, tb_edges = ?es, tr_closure = m\<rparr> ?R"
    using m(2,3) trancl_relation_pairs [OF index_set_lawsD(5) [OF laws] ok] by (simp add: frozen_def)
  then show ?thesis using m(1) index_set_lawsD(2) [OF laws] by (auto simp: freeze_def)
qed

lemma frozenD:
  assumes "frozen els tr R"
  shows "bm_inv (length (els (tb_elements tr))) (length (els (tb_elements tr))) (tr_closure tr)" "trans R"
    "R \<subseteq> set (els (tb_elements tr)) \<times> set (els (tb_elements tr))"
    "i < length (els (tb_elements tr)) \<Longrightarrow> j < length (els (tb_elements tr)) \<Longrightarrow>
      (i, j) \<in> bm_rel (tr_closure tr) \<longleftrightarrow> (els (tb_elements tr) ! i, els (tb_elements tr) ! j) \<in> R"
  using assms by (simp_all add: frozen_def Let_def)

lemma closure_contains:
  assumes "frozen els tr R" "i < length (els (tb_elements tr))" "j < length (els (tb_elements tr))"
  shows "bit_matrix_contains (tr_closure tr) i j = Some ((els (tb_elements tr) ! i, els (tb_elements tr) ! j) \<in> R)"
  using bit_matrix_contains_correct [OF frozenD(1) [OF assms(1)] assms(2,3)] bm_rel_row [OF frozenD(1) [OF assms(1)] assms(2)]
    frozenD(4) [OF assms] by simp

lemma relation_index_cases:
  assumes "index_set_laws api els"
  obtains i where "relation_index api tr a = Some i" "i < length (els (tb_elements tr))" "els (tb_elements tr) ! i = a"
  | "relation_index api tr a = None" "a \<notin> set (els (tb_elements tr))"
proof (cases "a \<in> set (els (tb_elements tr))")
  case True
  then show ?thesis using that(1) index_set_lawsD(4) [OF assms] by (auto simp: in_set_conv_nth relation_index_def)
next
  case False
  then have "relation_index api tr a \<noteq> Some i" for i
    using index_set_lawsD(4) [OF assms, of "tb_elements tr" a i] by (auto simp: relation_index_def)
  then show ?thesis using that(2) False by (cases "relation_index api tr a") auto
qed

lemma relation_contains_correct:
  assumes laws: "index_set_laws api els" and tr: "frozen els tr R"
  shows "relation_contains api tr a b = Some ((a, b) \<in> R)"
  using frozenD(3) [OF tr]
  by (cases rule: relation_index_cases [OF laws, of tr a]; cases rule: relation_index_cases [OF laws, of tr b])
    (auto simp: relation_contains_def closure_contains [OF tr])

lemma index_all_correct:
  assumes "index_set_laws api els" "set is' \<subseteq> {..<length (els s)}"
  shows "index_all api s is' = Some (map (\<lambda>i. els s ! i) is')"
  using assms(2) by (induction is') (simp_all add: index_set_lawsD(3) [OF assms(1)])

end
