(* ===== verification/Relation_Bounds.thy ===== *)
theory Relation_Bounds
  imports Relation_Closure "HOL-Library.Multiset"
begin

text \<open>
  Upper bounds in a \<open>TransitiveRelation\<close>: the in-place loops of \<open>pare_down\<close> drop what an earlier candidate reaches,
  \<open>minimal_upper_bounds\<close> returns the minimal common bounds, and the search for a mutual postdominator ends.
\<close>

section \<open>Paring down\<close>

text \<open>The loops as a function on lists: every candidate removes those behind it that it reaches.\<close>

function pare :: "('b \<Rightarrow> 'b \<Rightarrow> bool) \<Rightarrow> 'b list \<Rightarrow> 'b list" where
  "pare r [] = []"
| "pare r (c # cs) = c # pare r (filter (\<lambda>d. \<not> r c d) cs)"
  by pat_completeness auto

termination
  by (relation "measure (\<lambda>(_, cs). length cs)") (auto simp: less_Suc_eq_le)

lemma pare_inner_correct:
  assumes "dead \<le> j" "j \<le> length cs" "\<And>d. d \<in> set (drop j cs) \<Longrightarrow> bit_matrix_contains m c d = Some (r d)"
  shows "\<exists>cs' dead'. pare_inner m c cs j dead = Some (cs', length cs, dead') \<and> dead' \<le> length cs \<and>
    take (length cs - dead') cs' = take (j - dead) cs @ filter (\<lambda>d. \<not> r d) (drop j cs)"
  using assms
proof (induction "length cs - j" arbitrary: cs j dead)
  case 0
  then show ?case by (auto simp: pare_inner.simps [of m c cs])
next
  case (Suc k)
  have j: "j < length cs" and drop: "drop j cs = cs ! j # drop (Suc j) cs"
    using Suc.hyps(2) by (simp_all add: Cons_nth_drop_Suc)
  have run: "bit_matrix_contains m c (cs ! j) = Some (r (cs ! j))" using Suc.prems(3) drop by simp
  show ?case
  proof (cases "r (cs ! j)")
    case True
    have "\<exists>cs' dead'. pare_inner m c cs (Suc j) (Suc dead) = Some (cs', length cs, dead') \<and> dead' \<le> length cs \<and>
        take (length cs - dead') cs' = take (Suc j - Suc dead) cs @ filter (\<lambda>d. \<not> r d) (drop (Suc j) cs)"
      using Suc.prems Suc.hyps(2) drop j by (intro Suc.hyps(1)) auto
    then show ?thesis using True run j drop by (simp add: pare_inner.simps [of m c cs j])
  next
    case False
    let ?cs = "cs[j - dead := cs ! j]"
    have tail: "drop (Suc j) ?cs = drop (Suc j) cs" by simp
    have head: "take (Suc j - dead) ?cs = take (j - dead) cs @ [cs ! j]"
      using Suc.prems(1) j by (simp add: Suc_diff_le take_Suc_conv_app_nth)
    have "\<exists>cs' dead'. pare_inner m c ?cs (Suc j) dead = Some (cs', length ?cs, dead') \<and> dead' \<le> length ?cs \<and>
        take (length ?cs - dead') cs' = take (Suc j - dead) ?cs @ filter (\<lambda>d. \<not> r d) (drop (Suc j) ?cs)"
      using Suc.prems Suc.hyps(2) drop j tail by (intro Suc.hyps(1)) auto
    then show ?thesis using False run j drop tail head Suc.prems(1) by (simp add: pare_inner.simps [of m c cs j])
  qed
qed

lemma pare_outer_correct:
  assumes "i \<le> length cs" "\<And>c d. c \<in> set cs \<Longrightarrow> d \<in> set cs \<Longrightarrow> bit_matrix_contains m c d = Some (r c d)"
  shows "pare_outer m cs i = Some (take i cs @ pare r (drop i cs))"
  using assms
proof (induction "length cs - i" arbitrary: cs i rule: less_induct)
  case less
  show ?case
  proof (cases "i < length cs")
    case False
    then show ?thesis using less.prems(1) pare_outer.simps [of m cs i] by simp
  next
    case True
    let ?c = "cs ! i" and ?rest = "filter (\<lambda>d. \<not> r (cs ! i) d) (drop (Suc i) cs)"
    have drop: "drop i cs = ?c # drop (Suc i) cs" using True by (simp add: Cons_nth_drop_Suc)
    have "bit_matrix_contains m ?c d = Some (r ?c d)" if "d \<in> set (drop (Suc i) cs)" for d
      using that True less.prems(2) by (meson in_set_dropD nth_mem)
    then obtain cs' dead where inner: "pare_inner m ?c cs (Suc i) 0 = Some (cs', length cs, dead)" "dead \<le> length cs"
      "take (length cs - dead) cs' = take (Suc i) cs @ ?rest"
      using pare_inner_correct [of 0 "Suc i" cs m ?c "r ?c"] True by auto
    let ?cs = "take (Suc i) cs @ ?rest"
    have len: "length ?rest \<le> length cs - Suc i" using length_filter_le [of _ "drop (Suc i) cs"] by (metis length_drop)
    have sub: "set ?cs \<subseteq> set cs" using set_take_subset [of "Suc i" cs] set_drop_subset [of "Suc i" cs] by auto
    have "pare_outer m ?cs (Suc i) = Some (take (Suc i) ?cs @ pare r (drop (Suc i) ?cs))"
      using True len sub less.prems(2) by (intro less.hyps) auto
    then have "pare_outer m ?cs (Suc i) = Some (take i cs @ pare r (drop i cs))"
      using True drop by (simp add: take_Suc_conv_app_nth)
    then show ?thesis using True inner by (simp add: pare_outer.simps [of m cs i])
  qed
qed

lemma pare_down_correct:
  "(\<And>c d. c \<in> set cs \<Longrightarrow> d \<in> set cs \<Longrightarrow> bit_matrix_contains m c d = Some (r c d)) \<Longrightarrow> pare_down cs m = Some (pare r cs)"
  using pare_outer_correct [of 0 cs m r] by (simp add: pare_down_def)

lemma set_pare: "set (pare r cs) \<subseteq> set cs"
  by (induction r cs rule: pare.induct) auto

lemma pare_sorted: "sorted_wrt P cs \<Longrightarrow> sorted_wrt P (pare r cs)"
proof (induction r cs rule: pare.induct)
  case (2 r c cs)
  then show ?case using set_pare [of r "filter (\<lambda>d. \<not> r c d) cs"] by (auto simp: sorted_wrt_filter)
qed simp

lemma pare_unreached: "sorted_wrt (\<lambda>c d. \<not> r c d) (pare r cs)"
proof (induction r cs rule: pare.induct)
  case (2 r c cs)
  then show ?case using set_pare [of r "filter (\<lambda>d. \<not> r c d) cs"] by auto
qed simp

lemma distinct_pare: "distinct cs \<Longrightarrow> distinct (pare r cs)"
proof (induction r cs rule: pare.induct)
  case (2 r c cs)
  then show ?case using set_pare [of r "filter (\<lambda>d. \<not> r c d) cs"] by auto
qed simp

lemma pare_covers: "d \<in> set cs \<Longrightarrow> d \<in> set (pare r cs) \<or> (\<exists>c \<in> set (pare r cs). r c d)"
  by (induction r cs rule: pare.induct) auto

lemma sorted_wrt_both: "sorted_wrt P xs \<Longrightarrow> sorted_wrt (\<lambda>a b. P b a) xs \<Longrightarrow> x \<in> set xs \<Longrightarrow> y \<in> set xs \<Longrightarrow> x \<noteq> y \<Longrightarrow> P x y"
  by (induction xs) auto

text \<open>Twice, forward and backward: no candidate left reaches another one, and each candidate is one that is left or is
  reached by one.\<close>

lemma pare_twice:
  assumes "distinct cs" "transp r"
  defines "M \<equiv> pare r (rev (pare r cs))"
  shows "set M \<subseteq> set cs" "distinct M" "x \<in> set M \<Longrightarrow> y \<in> set M \<Longrightarrow> x \<noteq> y \<Longrightarrow> \<not> r x y"
    "u \<in> set cs \<Longrightarrow> \<exists>x \<in> set M. x = u \<or> r x u"
proof -
  show "set M \<subseteq> set cs" using set_pare [of r cs] set_pare [of r "rev (pare r cs)"] by (auto simp: M_def)
  show "distinct M" using assms(1) by (simp add: M_def distinct_pare)
  have "sorted_wrt (\<lambda>a b. \<not> r b a) M"
    unfolding M_def using pare_unreached [of r cs] by (intro pare_sorted) (simp add: sorted_wrt_rev)
  moreover have "sorted_wrt (\<lambda>a b. \<not> r a b) M" unfolding M_def by (rule pare_unreached)
  ultimately show "x \<in> set M \<Longrightarrow> y \<in> set M \<Longrightarrow> x \<noteq> y \<Longrightarrow> \<not> r x y"
    using sorted_wrt_both [of "\<lambda>a b. \<not> r a b" M x y] by simp
  show "u \<in> set cs \<Longrightarrow> \<exists>x \<in> set M. x = u \<or> r x u"
    using pare_covers [of u cs r] pare_covers [of _ "rev (pare r cs)" r] transpD [OF assms(2)] unfolding M_def by (metis set_rev)
qed

section \<open>Minimal upper bounds\<close>

definition mub_spec :: "'a rel \<Rightarrow> 'a \<Rightarrow> 'a \<Rightarrow> 'a list \<Rightarrow> bool" where
  "mub_spec R a b M \<longleftrightarrow>
     (if (a, b) \<in> R \<or> (b, a) \<in> R then M = [b] \<and> (a, b) \<in> R \<or> M = [a] \<and> (b, a) \<in> R
      else distinct M \<and> (\<forall>x \<in> set M. (a, x) \<in> R \<and> (b, x) \<in> R) \<and> (\<forall>x \<in> set M. \<forall>y \<in> set M. x \<noteq> y \<longrightarrow> (x, y) \<notin> R) \<and>
        (\<forall>u. (a, u) \<in> R \<and> (b, u) \<in> R \<longrightarrow> (\<exists>x \<in> set M. x = u \<or> (x, u) \<in> R)))"

lemma lub_indices_correct:
  fixes els tr
  defines "xs \<equiv> els (tb_elements tr)"
  assumes tr: "frozen els tr R" and i: "i < length xs" and j: "j < length xs" and d: "distinct xs"
  shows "\<exists>M. lub_indices (tr_closure tr) i j = Some M \<and> set M \<subseteq> {..<length xs} \<and> mub_spec R (xs ! i) (xs ! j) (map ((!) xs) (rev M))"
proof -
  let ?m = "tr_closure tr" and ?r = "\<lambda>i j. (xs ! i, xs ! j) \<in> R"
  have contains: "bit_matrix_contains ?m i j = Some (?r i j)" if "i < length xs" "j < length xs" for i j
    using closure_contains [OF tr] that unfolding xs_def by blast
  show ?thesis
  proof (cases "?r i j \<or> ?r j i")
    case True
    then show ?thesis using i j contains by (auto simp: lub_indices_def mub_spec_def)
  next
    case False
    note inv = frozenD(1) [OF tr, folded xs_def]
    let ?C = "{k. k < length xs \<and> ?r i k \<and> ?r j k}"
    have "bm_rows ?m ! i \<inter> bm_rows ?m ! j = ?C"
      using bm_rel_row [OF inv i] bm_rel_row [OF inv j] bm_rel_bounded [OF inv] frozenD(4) [OF tr, folded xs_def] i j by blast
    then have c1: "intersect_rows ?m i j = Some (sorted_list_of_set ?C)" using intersect_rows_correct [OF inv i j] by simp
    let ?cs = "sorted_list_of_set ?C"
    have cs: "set ?cs = ?C" "distinct ?cs" by simp_all
    define M where "M = pare ?r (rev (pare ?r ?cs))"
    have "transp ?r" by (rule transpI) (rule transD [OF frozenD(2) [OF tr]])
    note pared = pare_twice [OF cs(2) this, folded M_def]
    have "pare_down ?cs ?m = Some (pare ?r ?cs)" using cs(1) contains by (intro pare_down_correct) simp
    moreover have "pare_down (rev (pare ?r ?cs)) ?m = Some M"
      unfolding M_def using set_pare [of ?r ?cs] cs(1) contains by (intro pare_down_correct) auto
    ultimately have run: "lub_indices ?m i j = Some M" using False i j contains c1 by (simp add: lub_indices_def)
    have M: "set M \<subseteq> ?C" using pared(1) cs(1) by simp
    have inj: "inj_on ((!) xs) (set M)"
    proof (rule inj_onI)
      fix k l assume "k \<in> set M" "l \<in> set M" "xs ! k = xs ! l"
      then show "k = l" using M d nth_eq_iff_index_eq [of xs k l] by blast
    qed
    have "\<exists>k \<in> set M. xs ! k = u \<or> (xs ! k, u) \<in> R" if u: "(xs ! i, u) \<in> R" "(xs ! j, u) \<in> R" for u
    proof -
      have "u \<in> set xs" using frozenD(3) [OF tr] u(1) unfolding xs_def by blast
      then obtain k where k: "k < length xs" "xs ! k = u" by (auto simp: in_set_conv_nth)
      then show ?thesis using pared(4) [where u = k] cs(1) u by auto
    qed
    moreover have "distinct (map ((!) xs) (rev M))" using inj pared(2) by (simp add: distinct_map)
    moreover have "(xs ! k, xs ! l) \<notin> R" if "k \<in> set M" "l \<in> set M" "xs ! k \<noteq> xs ! l" for k l
      using pared(3) [OF that(1,2)] that(3) by auto
    ultimately have "mub_spec R (xs ! i) (xs ! j) (map ((!) xs) (rev M))" using False M by (auto simp: mub_spec_def)
    then show ?thesis using run M by auto
  qed
qed

lemma mub_spec_commute: "mub_spec R a b M \<longleftrightarrow> mub_spec R b a M"
  by (auto simp: mub_spec_def)

lemma minimal_upper_bounds_spec:
  assumes laws: "index_set_laws api els" and tr: "frozen els tr R"
  shows "\<exists>M. minimal_upper_bounds api tr a b = Some M \<and> mub_spec R a b M"
proof -
  let ?xs = "els (tb_elements tr)"
  have unknown: "mub_spec R a b []" if "a \<notin> set ?xs \<or> b \<notin> set ?xs"
    using that frozenD(3) [OF tr] by (auto simp: mub_spec_def)
  have known: "\<exists>M. (lub_indices (tr_closure tr) i j \<bind> (\<lambda>l. index_all api (tb_elements tr) (rev l))) = Some M \<and> mub_spec R (?xs ! i) (?xs ! j) M"
    if "i < length ?xs" "j < length ?xs" for i j
    using lub_indices_correct [OF tr that index_set_lawsD(5) [OF laws]] index_all_correct [OF laws] by fastforce
  show ?thesis
  proof (cases rule: relation_index_cases [OF laws, of tr a]; cases rule: relation_index_cases [OF laws, of tr b])
    fix i j
    assume "relation_index api tr a = Some i" "i < length ?xs" "?xs ! i = a" "relation_index api tr b = Some j" "j < length ?xs" "?xs ! j = b"
    then show ?thesis
      using known [of i j] known [of j i] mub_spec_commute [of R a b] by (cases "j < i") (auto simp: minimal_upper_bounds_def)
  qed (use unknown in \<open>auto simp: minimal_upper_bounds_def\<close>)
qed

section \<open>Postdominators\<close>

text \<open>Strictly above: a bound replaced by bounds that are strictly above it makes the multiset smaller.\<close>

definition strictly_above :: "'a rel \<Rightarrow> 'a rel" where
  "strictly_above R = {(k, n). (n, k) \<in> R \<and> (k, n) \<notin> R}"

lemma wf_strictly_above:
  assumes "finite R" "trans R"
  shows "wf (strictly_above R)"
proof (rule finite_acyclic_wf)
  have "strictly_above R \<subseteq> R\<inverse>" by (auto simp: strictly_above_def)
  then show "finite (strictly_above R)" using assms(1) finite_subset finite_converse by blast
  have "trans (strictly_above R)" using assms(2) by (auto simp: strictly_above_def trans_def)
  then show "acyclic (strictly_above R)" by (auto simp: acyclic_def strictly_above_def trancl_id)
qed

lemma mubs_smaller:
  assumes "mub_spec R n m ubs" "trans R"
  shows "(mset (rev ubs @ rest), mset (m # n # rest)) \<in> mult (strictly_above R)"
proof (cases "(n, m) \<in> R \<or> (m, n) \<in> R")
  case True
  then have "ubs = [m] \<or> ubs = [n]" using assms(1) by (auto simp: mub_spec_def)
  then show ?thesis
    using one_step_implies_mult [of "{#n#}" "{#}" "strictly_above R" "mset rest + {#m#}"]
      one_step_implies_mult [of "{#m#}" "{#}" "strictly_above R" "mset rest + {#n#}"] by (auto simp: add_mset_commute)
next
  case False
  have above: "(n, k) \<in> R" "(m, k) \<in> R" if "k \<in> set ubs" for k using that assms(1) False by (simp_all add: mub_spec_def)
  have "(k, n) \<in> strictly_above R" if "k \<in> set ubs" for k
  proof -
    have "(k, n) \<notin> R" using transD [OF assms(2) above(2) [OF that]] False by blast
    then show ?thesis using above(1) [OF that] by (simp add: strictly_above_def)
  qed
  then have "(mset rest + mset ubs, mset rest + {#m, n#}) \<in> mult (strictly_above R)"
    by (intro one_step_implies_mult) auto
  then show ?thesis by (simp add: add.commute)
qed

lemma mub_spec_above: "mub_spec R n m ubs \<Longrightarrow> x \<in> set ubs \<Longrightarrow> x = n \<or> x = m \<or> (n, x) \<in> R"
  unfolding mub_spec_def by (metis empty_iff list.set(1) set_ConsD)

lemma mutual_postdominator_returns:
  assumes laws: "index_set_laws api els" and tr: "frozen els tr R"
    and P: "\<And>x y. P x \<Longrightarrow> (x, y) \<in> R \<Longrightarrow> P y" and mubs: "\<forall>x \<in> set mubs. P x"
  shows "\<exists>r. mutual_postdominator_loop api tr mubs = Some r \<and> (\<forall>x. r = Some x \<longrightarrow> P x)"
proof -
  have "finite R" using frozenD(3) [OF tr] finite_subset by blast
  then have wf: "wf (mult (strictly_above R))" by (intro wf_mult wf_strictly_above frozenD(2) [OF tr])
  show ?thesis
    using mubs
  proof (induction "mset mubs" arbitrary: mubs rule: wf_induct_rule [OF wf])
    case (1 mubs)
    note unfold = mutual_postdominator_loop.simps [of api tr mubs]
    show ?case
    proof (cases mubs)
      case (Cons m tl)
      show ?thesis
      proof (cases tl)
        case tl: (Cons n rest)
        obtain ubs where ubs: "minimal_upper_bounds api tr n m = Some ubs" "mub_spec R n m ubs"
          using minimal_upper_bounds_spec [OF laws tr] by blast
        have "\<forall>x \<in> set (rev ubs @ rest). P x"
          using "1.prems" Cons tl mub_spec_above [OF ubs(2)] P [of n] by auto
        then have "\<exists>r. mutual_postdominator_loop api tr (rev ubs @ rest) = Some r \<and> (\<forall>x. r = Some x \<longrightarrow> P x)"
          using "1.hyps" [OF mubs_smaller [OF ubs(2) frozenD(2) [OF tr], of rest, folded tl Cons]] by blast
        then show ?thesis using unfold ubs(1) Cons tl by simp
      qed (use unfold Cons "1.prems" in auto)
    qed (use unfold in simp)
  qed
qed

lemma postdom_upper_bound_returns:
  assumes laws: "index_set_laws api els" and tr: "frozen els tr R"
  shows "\<exists>r. postdom_upper_bound api tr a b = Some r \<and> (\<forall>x. r = Some x \<longrightarrow> (a, x) \<in> R\<^sup>= \<and> (b, x) \<in> R\<^sup>=)"
proof -
  obtain M where M: "minimal_upper_bounds api tr a b = Some M" "mub_spec R a b M"
    using minimal_upper_bounds_spec [OF laws tr] by blast
  let ?P = "\<lambda>x. (a, x) \<in> R\<^sup>= \<and> (b, x) \<in> R\<^sup>="
  have "(c, y) \<in> R\<^sup>=" if "(c, x) \<in> R\<^sup>=" "(x, y) \<in> R" for c x y
    using that transD [OF frozenD(2) [OF tr], of c x y] by auto
  then have P: "?P x \<Longrightarrow> (x, y) \<in> R \<Longrightarrow> ?P y" for x y by blast
  have "\<forall>x \<in> set (rev M). ?P x"
  proof (cases "(a, b) \<in> R \<or> (b, a) \<in> R")
    case True
    then have "M = [b] \<and> (a, b) \<in> R \<or> M = [a] \<and> (b, a) \<in> R" using M(2) by (simp add: mub_spec_def)
    then show ?thesis by auto
  next
    case False
    then show ?thesis using M(2) by (simp add: mub_spec_def)
  qed
  from mutual_postdominator_returns [where P = ?P, OF laws tr P this] show ?thesis
    using M(1) by (simp add: postdom_upper_bound_def mutual_immediate_postdominator_def)
qed

end
