(* ===== verification/Relation_Props.thy ===== *)
theory Relation_Props
  imports Relation_Bounds "HOL-Library.Dlist"
begin

text \<open>
  Properties of \<open>TransitiveRelation\<close>, on the pairs of elements that were added. The index set of the elements is any that
  does what \<open>indexmap\<close> documents, the order of the hash set is any order; \<open>dlist_api\<close> shows that such an index set exists.
\<close>

section \<open>An index set\<close>

fun list_index :: "'a \<Rightarrow> 'a list \<Rightarrow> nat option" where
  "list_index a [] = None"
| "list_index a (x # xs) = (if x = a then Some 0 else map_option Suc (list_index a xs))"

lemma list_index_iff: "distinct xs \<Longrightarrow> list_index a xs = Some i \<longleftrightarrow> i < length xs \<and> xs ! i = a"
proof (induction xs arbitrary: i)
  case (Cons x xs)
  then show ?case by (cases i) (auto dest: nth_mem)
qed simp

definition dlist_api :: "('a dlist, 'a) index_set_api" where
  "dlist_api = \<lparr>api_empty = Dlist [], api_len = (\<lambda>s. length (list_of_dlist s)),
     api_get_index_of = (\<lambda>s a. list_index a (list_of_dlist s)),
     api_insert_full = (\<lambda>s a. case list_index a (list_of_dlist s) of
        Some i \<Rightarrow> (s, i)
      | None \<Rightarrow> (Dlist (list_of_dlist s @ [a]), length (list_of_dlist s))),
     api_index = (\<lambda>s i. vec_index (list_of_dlist s) i)\<rparr>"

lemma list_index_None: "list_index a xs = None \<longleftrightarrow> a \<notin> set xs"
  by (induction xs) auto

lemma remdups_snoc: "a \<notin> set (list_of_dlist s) \<Longrightarrow> remdups (list_of_dlist s @ [a]) = list_of_dlist s @ [a]"
  by (simp add: distinct_remdups_id)

lemma dlist_insert_full:
  "list_of_dlist (fst (api_insert_full dlist_api s a)) =
    (if a \<in> set (list_of_dlist s) then list_of_dlist s else list_of_dlist s @ [a]) \<and>
  vec_index (list_of_dlist (fst (api_insert_full dlist_api s a))) (snd (api_insert_full dlist_api s a)) = Some a"
proof (cases "list_index a (list_of_dlist s)")
  case None
  then have "a \<notin> set (list_of_dlist s)" by (simp add: list_index_None)
  then show ?thesis using None by (simp add: dlist_api_def vec_index_def remdups_snoc)
next
  case (Some i)
  then have i: "i < length (list_of_dlist s)" "list_of_dlist s ! i = a" by (simp_all add: list_index_iff)
  then have "a \<in> set (list_of_dlist s)" using nth_mem by blast
  then show ?thesis using Some i by (simp add: dlist_api_def vec_index_def)
qed

lemma dlist_api_laws: "index_set_laws dlist_api list_of_dlist"
proof -
  have "list_of_dlist (api_empty dlist_api) = []" "\<And>s. api_len dlist_api s = length (list_of_dlist s)"
    "\<And>s i. api_index dlist_api s i = vec_index (list_of_dlist s) i"
    "\<And>s a i. api_get_index_of dlist_api s a = Some i \<longleftrightarrow> vec_index (list_of_dlist s) i = Some a"
    by (simp_all add: dlist_api_def list_index_iff vec_index_def)
  then show ?thesis
    using dlist_insert_full [THEN conjunct1] dlist_insert_full [THEN conjunct2]
    unfolding index_set_laws_def by (intro conjI allI) (simp_all only:)
qed

section \<open>Properties\<close>

text \<open>C34. A transitive relation built from pairs: computing the closure neither panics nor runs forever, whatever the
  order in which the hash set yields the edges, and afterwards \<open>contains\<close> answers for any two elements whether they are
  related by the transitive closure of the pairs that were added; elements that were never added are related to nothing.\<close>

theorem transitive_relation_correct:
  assumes "index_set_laws api els" "\<And>es. set (it es) = set es"
  shows "\<exists>tr. freeze api it (add_all api ps) = Some tr \<and> (\<forall>a b. relation_contains api tr a b = Some ((a, b) \<in> (set ps)\<^sup>+))"
  using freeze_correct [OF assms, of "add_all api ps"] add_all_correct [OF assms(1), of ps]
    relation_contains_correct [OF assms(1)] by force

theorem transitive_relation_correct_witness:
  "\<exists>tr. freeze dlist_api id (add_all dlist_api [(''b'', ''c''), (''a'', ''b''), (''c'', ''d'')]) = Some tr \<and>
    relation_contains dlist_api tr ''a'' ''d'' = Some True \<and> relation_contains dlist_api tr ''d'' ''d'' = Some False"
proof -
  let ?ps = "[(''b'', ''c''), (''a'', ''b''), (''c'', ''d'')]"
  have "(''a'', ''d'') \<in> (set ?ps)\<^sup>+"
    by (meson list.set_intros r_into_trancl trancl_trans)
  moreover have "(''d'', ''d'') \<notin> (set ?ps)\<^sup>+"
    using tranclD [of "''d''" "''d''" "set ?ps"] by auto
  ultimately show ?thesis
    using transitive_relation_correct [OF dlist_api_laws, of id ?ps] by auto
qed


lemma ex_pairs_trancl: "(set [(''a'', ''c''), (''b'', ''c'')])\<^sup>+ = {(''a'', ''c''), (''b'', ''c'')}"
  by (subst trancl_id) (auto simp: trans_def)


text \<open>C36. The search for a postdominating upper bound ends without a panic on every relation, cyclic ones included, although
  each round may replace two bounds by many; a bound it returns is above both elements or one of them itself.\<close>

theorem postdom_upper_bound_total:
  assumes "index_set_laws api els" "\<And>es. set (it es) = set es"
  shows "\<exists>tr. freeze api it (add_all api ps) = Some tr \<and>
    (\<forall>a b. \<exists>r. postdom_upper_bound api tr a b = Some r \<and>
      (\<forall>x. r = Some x \<longrightarrow> (a, x) \<in> ((set ps)\<^sup>+)\<^sup>= \<and> (b, x) \<in> ((set ps)\<^sup>+)\<^sup>=))"
proof -
  obtain tr where tr: "freeze api it (add_all api ps) = Some tr" "frozen els tr ((set ps)\<^sup>+)"
    using freeze_correct [OF assms, of "add_all api ps"] add_all_correct [OF assms(1), of ps] by auto
  then show ?thesis using postdom_upper_bound_returns [OF assms(1) tr(2)] by blast
qed

theorem postdom_upper_bound_total_witness:
  "\<exists>tr r. freeze dlist_api rev (add_all dlist_api [(''a'', ''c''), (''b'', ''c'')]) = Some tr \<and>
    postdom_upper_bound dlist_api tr ''a'' ''b'' = Some r \<and> (\<forall>x. r = Some x \<longrightarrow> x = ''c'')"
proof -
  obtain tr r where "freeze dlist_api rev (add_all dlist_api [(''a'', ''c''), (''b'', ''c'')]) = Some tr"
    "postdom_upper_bound dlist_api tr ''a'' ''b'' = Some r"
    "\<forall>x. r = Some x \<longrightarrow> (''a'', x) \<in> {(''a'', ''c''), (''b'', ''c'')}\<^sup>= \<and> (''b'', x) \<in> {(''a'', ''c''), (''b'', ''c'')}\<^sup>="
    using postdom_upper_bound_total [OF dlist_api_laws, of rev "[(''a'', ''c''), (''b'', ''c'')]"] unfolding ex_pairs_trancl by (meson set_rev)
  then show ?thesis by auto
qed

end
