(* ===== verification/Leb128.thy ===== *)
theory Leb128
  imports Prelude
begin

unbundle bit_operations_syntax

text \<open>
  The variable-length integers of crate metadata (\<open>rustc_serialize/src/leb128.rs\<close>). The source generates its
  functions by macros for several integer types; here they are polymorphic in the length of the word, and the signed
  ones read a word as a two's complement number.

  The writers store into a buffer of \<open>max_leb128_len\<close> bytes without bounds checks, so a store out of range, which
  is undefined behaviour in the source, is \<open>None\<close>. The readers take their bytes from a decoder that panics when it
  is exhausted; a shift by the width of the type or more is a panic too, as in a build with overflow checks.
\<close>

section \<open>Writers\<close>

definition max_leb128_len :: "nat \<Rightarrow> nat" where
  "max_leb128_len bits = (bits + 6) div 7"

text \<open>\<open>*out.get_unchecked_mut(i) = byte\<close>.\<close>

definition store_unchecked :: "u8 list \<Rightarrow> nat \<Rightarrow> u8 \<Rightarrow> u8 list option" where
  "store_unchecked out i byte = (if i < length out then Some (out[i := byte]) else None)"

function write_unsigned_loop :: "u8 list \<Rightarrow> nat \<Rightarrow> 'a::len word \<Rightarrow> (u8 list \<times> nat) option" where
  "write_unsigned_loop out i value =
     (if unat value < 0x80 then do {
        out' \<leftarrow> store_unchecked out i (ucast value);
        Some (out', i + 1) }
      else do {
        out' \<leftarrow> store_unchecked out i (ucast ((value AND 0x7f) OR 0x80));
        write_unsigned_loop out' (i + 1) (drop_bit 7 value) })"
  by pat_completeness auto

termination
  by (relation "measure (\<lambda>(out, i, value). unat value)") (auto simp: unat_drop_bit_eq simp flip: drop_bit_eq_div, simp add: drop_bit_eq_div)

declare write_unsigned_loop.simps [simp del]

definition write_unsigned_leb128 :: "u8 list \<Rightarrow> 'a::len word \<Rightarrow> (u8 list \<times> nat) option" where
  "write_unsigned_leb128 out value = write_unsigned_loop out 0 value"

text \<open>\<open>more\<close>: whether further bytes follow the byte, given what is left of the value.\<close>

definition signed_more :: "'a::len word \<Rightarrow> u8 \<Rightarrow> bool" where
  "signed_more value byte \<longleftrightarrow> \<not> (value = 0 \<and> byte AND 0x40 = 0 \<or> value = - 1 \<and> byte AND 0x40 \<noteq> 0)"

lemma and_0x7f: "(x :: int) AND 0x7f = x mod 128" "(n :: nat) AND 0x7f = n mod 128"
proof -
  show "(x :: int) AND 0x7f = x mod 128"
    using take_bit_eq_mask [of 7 x] by (simp add: take_bit_eq_mod mask_eq_exp_minus_1)
  show "(n :: nat) AND 0x7f = n mod 128"
    using take_bit_eq_mask [of 7 n] by (simp add: take_bit_eq_mod mask_eq_exp_minus_1)
qed

lemma bit_6: "bit (x :: int) 6 \<longleftrightarrow> 64 \<le> x mod 128"
proof -
  define q r where "q = x div 128" and "r = x mod 128"
  have x: "x = r + (2 * q) * 64" and r: "0 \<le> r" "r < 128" by (simp_all add: q_def r_def)
  have "x div 64 = 2 * q + r div 64" unfolding x by (rule div_mult_self1) simp
  moreover have "r div 64 = (if 64 \<le> r then 1 else 0)" using r by auto
  ultimately show ?thesis by (simp add: bit_iff_odd r_def)
qed

lemma byte_of_value: "(scast (value :: 'a::len word) AND 0x7f :: u8) = word_of_int (sint value mod 128)"
proof -
  have "(scast value AND 0x7f :: u8) = word_of_int (sint value) AND word_of_int 0x7f" by simp
  also have "\<dots> = word_of_int (sint value AND 0x7f)" by (rule of_int_and_eq [symmetric])
  finally show ?thesis by (simp only: and_0x7f)
qed

lemma byte_0x40: "(word_of_int (x mod 128) :: u8) AND 0x40 = 0 \<longleftrightarrow> x mod 128 < 64"
  using and_exp_eq_0_iff_not_bit [of "word_of_int (x mod 128) :: u8" 6] bit_6 [of "x mod 128"]
  by (simp add: bit_word_of_int_iff not_le)

lemma signed_more_iff:
  "signed_more (signed_drop_bit 7 value) (scast (value :: 'a::len word) AND 0x7f) \<longleftrightarrow>
     sint value < - 64 \<or> 64 \<le> sint value"
proof -
  define x where "x = sint value"
  have sint: "sint (signed_drop_bit 7 value) = x div 128"
    by (simp add: sint_signed_drop_bit_eq drop_bit_eq_div x_def)
  have "signed_drop_bit 7 value = 0 \<longleftrightarrow> x div 128 = 0" "signed_drop_bit 7 value = - 1 \<longleftrightarrow> x div 128 = - 1"
    using signed_word_eqI [of "signed_drop_bit 7 value" 0] signed_word_eqI [of "signed_drop_bit 7 value" "- 1"] sint
    by auto
  then have "signed_more (signed_drop_bit 7 value) (scast value AND 0x7f) \<longleftrightarrow>
      \<not> (x div 128 = 0 \<and> x mod 128 < 64 \<or> x div 128 = - 1 \<and> \<not> x mod 128 < 64)"
    by (simp add: signed_more_def byte_of_value byte_0x40 x_def)
  also have "\<dots> \<longleftrightarrow> x < - 64 \<or> 64 \<le> x"
  proof -
    have "x = 128 * (x div 128) + x mod 128" "0 \<le> x mod 128" "x mod 128 < 128" by simp_all
    then show ?thesis by linarith
  qed
  finally show ?thesis by (simp add: x_def)
qed

lemma div_128_less: "(x :: int) < - 64 \<or> 64 \<le> x \<Longrightarrow> nat \<bar>x div 128\<bar> < nat \<bar>x\<bar>"
proof -
  assume "x < - 64 \<or> 64 \<le> x"
  moreover have "x = 128 * (x div 128) + x mod 128" "0 \<le> x mod 128" "x mod 128 < 128" by simp_all
  ultimately have "\<bar>x div 128\<bar> < \<bar>x\<bar>" by linarith
  then show ?thesis by linarith
qed

function write_signed_loop :: "u8 list \<Rightarrow> nat \<Rightarrow> 'a::len word \<Rightarrow> (u8 list \<times> nat) option" where
  "write_signed_loop out i value =
     (let byte = scast value AND 0x7f;
          value' = signed_drop_bit 7 value;
          more = signed_more value' byte;
          byte' = (if more then byte OR 0x80 else byte) in do {
        out' \<leftarrow> store_unchecked out i byte';
        if \<not> more then Some (out', i + 1) else write_signed_loop out' (i + 1) value' })"
  by pat_completeness auto

termination
proof (relation "measure (\<lambda>(out, i, value). nat \<bar>sint value\<bar>)", goal_cases)
  case (2 out i v byte v' more byte' out')
  then have "sint v < - 64 \<or> 64 \<le> sint v" using signed_more_iff [of v] by simp
  moreover have "sint v' = sint v div 128"
    using 2(2) by (simp add: sint_signed_drop_bit_eq drop_bit_eq_div)
  ultimately show ?case using div_128_less [of "sint v"] by simp
qed simp

declare write_signed_loop.simps [simp del]

definition write_signed_leb128 :: "u8 list \<Rightarrow> 'a::len word \<Rightarrow> (u8 list \<times> nat) option" where
  "write_signed_leb128 out value = write_signed_loop out 0 value"

section \<open>Readers\<close>

definition shl_checked :: "'a::len word \<Rightarrow> nat \<Rightarrow> 'a word option" where
  "shl_checked w n = (if n < LENGTH('a) then Some (push_bit n w) else None)"

fun read_unsigned_loop :: "'a::len word \<Rightarrow> nat \<Rightarrow> u8 list \<Rightarrow> ('a word \<times> u8 list) option" where
  "read_unsigned_loop result shift [] = None"
| "read_unsigned_loop result shift (byte # decoder) =
     (if byte AND 0x80 = 0 then do {
        v \<leftarrow> shl_checked (ucast byte) shift;
        Some (result OR v, decoder) }
      else do {
        v \<leftarrow> shl_checked (ucast (byte AND 0x7F)) shift;
        read_unsigned_loop (result OR v) (shift + 7) decoder })"

definition read_unsigned_leb128 :: "u8 list \<Rightarrow> ('a::len word \<times> u8 list) option" where
  "read_unsigned_leb128 decoder =
     (case decoder of
        [] \<Rightarrow> None
      | byte # decoder' \<Rightarrow>
          if byte AND 0x80 = 0 then Some (ucast byte, decoder')
          else read_unsigned_loop (ucast (byte AND 0x7F)) 7 decoder')"

fun read_signed_loop :: "'a::len word \<Rightarrow> nat \<Rightarrow> u8 list \<Rightarrow> ('a word \<times> u8 list) option" where
  "read_signed_loop result shift [] = None"
| "read_signed_loop result shift (byte # decoder) = do {
     v \<leftarrow> shl_checked (ucast (byte AND 0x7F)) shift;
     let result' = result OR v;
     let shift' = shift + 7;
     if byte AND 0x80 = 0 then
       Some (if shift' < LENGTH('a) \<and> byte AND 0x40 \<noteq> 0 then result' OR push_bit shift' (NOT 0) else result', decoder)
     else read_signed_loop result' shift' decoder }"

definition read_signed_leb128 :: "u8 list \<Rightarrow> ('a::len word \<times> u8 list) option" where
  "read_signed_leb128 decoder = read_signed_loop 0 0 decoder"

end
