(* ===== verification/Leb128_Props.thy ===== *)
theory Leb128_Props
  imports Leb128
begin

unbundle bit_operations_syntax

text \<open>
  The encodings as functions from numbers to byte lists, the writers and readers related to them, and the
  properties: what is written is read back, and the buffer is always large enough.
\<close>

section \<open>The encodings\<close>

fun uleb :: "nat \<Rightarrow> u8 list" where
  "uleb n = (if n < 128 then [of_nat n] else (of_nat (n mod 128) OR 0x80) # uleb (n div 128))"

function sleb :: "int \<Rightarrow> u8 list" where
  "sleb x = (if - 64 \<le> x \<and> x < 64 then [word_of_int (x mod 128)]
     else (word_of_int (x mod 128) OR 0x80) # sleb (x div 128))"
  by pat_completeness auto

termination
  by (relation "measure (\<lambda>x. nat \<bar>x\<bar>)") (use div_128_less in auto)

declare uleb.simps [simp del] sleb.simps [simp del]

lemma uleb_length:
  "n < 2 ^ (7 * k) \<Longrightarrow> 0 < k \<Longrightarrow> length (uleb n) \<le> k"
proof (induction n arbitrary: k rule: uleb.induct)
  case (1 n)
  show ?case
  proof (cases "n < 128")
    case False
    then obtain j where k: "k = Suc j" "0 < j" using 1(2,3) by (cases k; cases "k - 1") auto
    have "n < 2 ^ (7 * j) * 128" using 1(2) unfolding k(1) by (simp add: power_add)
    then have "n div 128 < 2 ^ (7 * j)" by (rule less_mult_imp_div_less)
    then show ?thesis using 1(1) [OF False _ k(2)] False k by (subst uleb.simps) simp
  qed (use 1(3) in \<open>simp add: uleb.simps\<close>)
qed

lemma uleb_minimal: "length (uleb n) = Suc k \<Longrightarrow> 0 < k \<Longrightarrow> 128 ^ k \<le> n"
proof (induction n arbitrary: k rule: uleb.induct)
  case (1 n)
  show ?case
  proof (cases "n < 128")
    case False
    then have len: "length (uleb (n div 128)) = k" using 1(2) by (subst (asm) uleb.simps) simp
    obtain j where j: "k = Suc j" using 1(3) by (cases k) auto
    show ?thesis
    proof (cases "j = 0")
      case True
      then show ?thesis using False j by simp
    next
      case j0: False
      have "128 ^ j \<le> n div 128" using 1(1) [OF False, of j] len j j0 by simp
      then show ?thesis using j by (simp add: less_eq_div_iff_mult_less_eq mult.commute)
    qed
  qed (use 1(2,3) in \<open>simp add: uleb.simps\<close>)
qed

lemma sleb_length:
  "- (2 ^ (7 * k - 1)) \<le> x \<Longrightarrow> x < 2 ^ (7 * k - 1) \<Longrightarrow> 0 < k \<Longrightarrow> length (sleb x) \<le> k"
proof (induction x arbitrary: k rule: sleb.induct)
  case (1 x)
  show ?case
  proof (cases "- 64 \<le> x \<and> x < 64")
    case False
    then obtain j where k: "k = Suc j" "0 < j" using 1(2,3,4) by (cases k; cases "k - 1") auto
    have e: "(2 :: int) ^ (7 * k - 1) = 128 * 2 ^ (7 * j - 1)"
    proof -
      have "7 * k - 1 = 7 + (7 * j - 1)" using k by simp
      then show ?thesis by (simp only: power_add) simp
    qed
    have "- (2 ^ (7 * j - 1)) \<le> x div 128" "x div 128 < 2 ^ (7 * j - 1)"
      using 1(2,3) unfolding e by linarith+
    then show ?thesis using 1(1) [OF False _ _ k(2)] False k by (subst sleb.simps) auto
  qed (use 1(4) in \<open>simp add: sleb.simps\<close>)
qed

lemma sleb_minimal: "length (sleb x) = Suc (Suc k) \<Longrightarrow> x < - (64 * 128 ^ k) \<or> 64 * 128 ^ k \<le> x"
proof (induction x arbitrary: k rule: sleb.induct)
  case (1 x)
  show ?case
  proof (cases "- 64 \<le> x \<and> x < 64")
    case False
    then have len: "length (sleb (x div 128)) = Suc k" using 1(2) by (subst (asm) sleb.simps) (auto split: if_splits)
    show ?thesis
    proof (cases k)
      case 0
      then show ?thesis using False by auto
    next
      case (Suc j)
      have "x div 128 < - (64 * 128 ^ j) \<or> 64 * 128 ^ j \<le> x div 128" using 1(1) [OF False, of j] len Suc by simp
      then show ?thesis using Suc by (simp; linarith)
    qed
  qed (use 1(2) in \<open>simp add: sleb.simps\<close>)
qed

lemma uleb_pos: "0 < length (uleb n)"
  by (subst uleb.simps) simp

lemma sleb_pos: "0 < length (sleb x)"
  by (subst sleb.simps) simp

lemma pow7: "(2 :: nat) ^ 7 = 128" "(2 :: int) ^ 7 = 128"
  by simp_all

lemma unat_drop_7: "unat (drop_bit 7 v :: 'a::len word) = unat v div 128"
proof -
  have "unat (drop_bit 7 v) = drop_bit 7 (unat v)" by (rule unat_drop_bit_eq)
  then show ?thesis by (simp only: drop_bit_eq_div pow7)
qed

section \<open>The writers\<close>

lemma store_take_drop:
  "i < length out \<Longrightarrow> store_unchecked out i b = Some (take i out @ b # drop (i + 1) out)"
  by (simp add: store_unchecked_def upd_conv_take_nth_drop)

lemma unsigned_byte:
  assumes "7 < LENGTH('a)"
  shows "(ucast ((v AND 0x7f) OR 0x80 :: 'a::len word) :: u8) = of_nat (unat v mod 128) OR 0x80"
proof -
  have down: "is_down (ucast :: 'a word \<Rightarrow> u8)" using assms by (simp add: is_down)
  have "(ucast ((v AND 0x7f) OR 0x80 :: 'a word) :: u8) = ucast v AND ucast (0x7f :: 'a word) OR ucast (0x80 :: 'a word)"
    by (rule bit_word_eqI) (auto simp: bit_simps)
  also have "\<dots> = (of_nat (unat v) AND of_nat 0x7f) OR 0x80" using ucast_down_no [OF down] by simp
  also have "(of_nat (unat v) AND of_nat 0x7f :: u8) = of_nat (unat v AND 0x7f)" by (rule of_nat_and_eq [symmetric])
  finally show ?thesis by (simp only: and_0x7f)
qed

lemma write_unsigned_loop_uleb:
  fixes v :: "'a::len word"
  assumes "i + length (uleb (unat v)) \<le> length out"
  shows "write_unsigned_loop out i v =
    Some (take i out @ uleb (unat v) @ drop (i + length (uleb (unat v))) out, i + length (uleb (unat v)))"
  using assms
proof (induction out i v rule: write_unsigned_loop.induct)
  case (1 out i v)
  have i: "i < length out" using 1(2) by (subst (asm) uleb.simps) (auto split: if_splits)
  show ?case
  proof (cases "unat v < 128")
    case True
    then show ?thesis using i uleb.simps [of "unat v"]
      by (subst write_unsigned_loop.simps) (simp add: store_take_drop)
  next
    case False
    moreover have "unat v < 2 ^ LENGTH('a)" by (rule unsigned_less)
    ultimately have "(2 :: nat) ^ 7 < 2 ^ LENGTH('a)" unfolding pow7 by linarith
    then have "7 < LENGTH('a)" by (rule power_less_imp_less_exp [rotated]) simp
    note byte = unsigned_byte [OF this, of v]
    let ?b = "of_nat (unat v mod 128) OR 0x80 :: u8"
    let ?out = "take i out @ ?b # drop (i + 1) out"
    have u: "uleb (unat v) = ?b # uleb (unat (drop_bit 7 v))"
      using False by (subst uleb.simps) (simp add: unat_drop_7)
    have st: "store_unchecked out i (ucast ((v AND 0x7f) OR 0x80)) = Some ?out"
      unfolding byte by (rule store_take_drop [OF i])
    have len: "(i + 1) + length (uleb (unat (drop_bit 7 v))) \<le> length ?out" using 1(2) i u by simp
    have "write_unsigned_loop out i v = write_unsigned_loop ?out (i + 1) (drop_bit 7 v)"
      using False st by (subst write_unsigned_loop.simps) simp
    also have "\<dots> = Some (take (i + 1) ?out @ uleb (unat (drop_bit 7 v)) @
        drop (i + 1 + length (uleb (unat (drop_bit 7 v)))) ?out, i + 1 + length (uleb (unat (drop_bit 7 v))))"
      using 1(1) [OF False st len] .
    finally show ?thesis using i u by (simp add: min_absorb2 add.commute)
  qed
qed

lemma write_signed_loop_sleb:
  fixes v :: "'a::len word"
  assumes "i + length (sleb (sint v)) \<le> length out"
  shows "write_signed_loop out i v =
    Some (take i out @ sleb (sint v) @ drop (i + length (sleb (sint v))) out, i + length (sleb (sint v)))"
  using assms
proof (induction out i v rule: write_signed_loop.induct)
  case (1 out i v)
  have i: "i < length out" using 1(2) by (subst (asm) sleb.simps) (auto split: if_splits)
  show ?case
  proof (cases "sint v < - 64 \<or> 64 \<le> sint v")
    case False
    then show ?thesis using i sleb.simps [of "sint v"] signed_more_iff [of v]
      by (subst write_signed_loop.simps) (simp add: store_take_drop byte_of_value not_le not_less)
  next
    case True
    let ?b = "word_of_int (sint v mod 128) OR 0x80 :: u8"
    let ?out = "take i out @ ?b # drop (i + 1) out"
    have more: "signed_more (signed_drop_bit 7 v) (scast v AND 0x7f)" using True signed_more_iff [of v] by simp
    have s: "sleb (sint v) = ?b # sleb (sint (signed_drop_bit 7 v))"
      using True by (subst sleb.simps) (auto simp: sint_signed_drop_bit_eq drop_bit_eq_div)
    have st: "store_unchecked out i (scast v AND 0x7f OR 0x80) = Some ?out"
      unfolding byte_of_value by (rule store_take_drop [OF i])
    have len: "(i + 1) + length (sleb (sint (signed_drop_bit 7 v))) \<le> length ?out" using 1(2) i s by simp
    have "write_signed_loop out i v = write_signed_loop ?out (i + 1) (signed_drop_bit 7 v)"
      using more st by (subst write_signed_loop.simps) (simp add: Let_def)
    also have "\<dots> = Some (take (i + 1) ?out @ sleb (sint (signed_drop_bit 7 v)) @
        drop (i + 1 + length (sleb (sint (signed_drop_bit 7 v)))) ?out, i + 1 + length (sleb (sint (signed_drop_bit 7 v))))"
      using 1(1) [OF refl refl refl refl, of ?out] more st len by simp
    finally show ?thesis using i s by (simp add: min_absorb2 add.commute)
  qed
qed

section \<open>The readers\<close>

text \<open>A byte below 128, alone and with the mark that more bytes follow.\<close>

lemma low_byte:
  assumes "unat m < 128"
  shows "m AND 0x80 = (0 :: u8)" "m AND 0x7F = m" "(m OR 0x80) AND 0x80 \<noteq> 0" "(m OR 0x80) AND 0x7F = m"
proof -
  have "m AND 0x7F = of_nat (unat m) AND of_nat 0x7f" by simp
  also have "\<dots> = of_nat (unat m AND 0x7f)" by (rule of_nat_and_eq [symmetric])
  also have "unat m AND 0x7f = unat m" using assms by (simp add: and_0x7f)
  finally show m: "m AND 0x7F = m" by simp
  have "\<not> bit m 7" using arg_cong [OF m, of "\<lambda>w. bit w 7"] by (simp add: bit_and_iff)
  then show "m AND 0x80 = 0" using and_exp_eq_0_iff_not_bit [of m 7] by simp
  have "bit (m OR 0x80) 7" by (simp add: bit_or_iff)
  then show "(m OR 0x80) AND 0x80 \<noteq> 0" using and_exp_eq_0_iff_not_bit [of "m OR 0x80" 7] by simp
  have "(m OR 0x80) AND 0x7F = (m AND 0x7F) OR (0x80 AND 0x7F)" by (rule bit.conj_disj_distrib2)
  then show "(m OR 0x80) AND 0x7F = m" using m by simp
qed

lemma of_nat_split: "(of_nat n :: 'a::len word) = of_nat (n mod 128) OR push_bit 7 (of_nat (n div 128))"
proof -
  have "n mod 128 = take_bit 7 n" "n div 128 = drop_bit 7 n" by (simp_all add: take_bit_eq_mod drop_bit_eq_div)
  then show ?thesis by (auto simp: bit_simps intro!: bit_word_eqI)
qed

lemma of_int_split: "(word_of_int x :: 'a::len word) = word_of_int (x mod 128) OR push_bit 7 (word_of_int (x div 128))"
proof -
  have "x mod 128 = take_bit 7 x" "x div 128 = drop_bit 7 x" by (simp_all add: take_bit_eq_mod drop_bit_eq_div)
  then show ?thesis by (auto simp: bit_simps bit_word_of_int_iff intro!: bit_word_eqI)
qed

lemma read_unsigned_loop_uleb:
  fixes result :: "'a::len word"
  assumes "shift < LENGTH('a)" "n < 2 ^ (LENGTH('a) - shift)"
  shows "read_unsigned_loop result shift (uleb n @ rest) = Some (result OR push_bit shift (of_nat n), rest)"
  using assms
proof (induction n arbitrary: result shift rule: uleb.induct)
  case (1 n)
  have m: "unat (of_nat (n mod 128) :: u8) < 128" "(ucast (of_nat (n mod 128) :: u8) :: 'a word) = of_nat (n mod 128)"
    by (simp_all add: unat_of_nat unsigned_of_nat take_bit_eq_mod)
  show ?case
  proof (cases "n < 128")
    case True
    then show ?thesis using m low_byte [OF m(1)] 1(2) by (subst uleb.simps) (simp add: shl_checked_def)
  next
    case False
    have "(2 :: nat) ^ 7 < 2 ^ (LENGTH('a) - shift)" using False 1(3) by simp
    then have "7 < LENGTH('a) - shift" by (rule power_less_imp_less_exp [rotated]) simp
    then have sh: "shift + 7 < LENGTH('a)" by simp
    have "LENGTH('a) - shift = (LENGTH('a) - (shift + 7)) + 7" using sh by simp
    then have "(2 :: nat) ^ (LENGTH('a) - shift) = 2 ^ (LENGTH('a) - (shift + 7)) * 128"
      by (simp only: power_add pow7)
    then have "n < 2 ^ (LENGTH('a) - (shift + 7)) * 128" using 1(3) by linarith
    then have d: "n div 128 < 2 ^ (LENGTH('a) - (shift + 7))" by (rule less_mult_imp_div_less)
    have "read_unsigned_loop result shift (uleb n @ rest) =
        read_unsigned_loop (result OR push_bit shift (of_nat (n mod 128))) (shift + 7) (uleb (n div 128) @ rest)"
      using False m low_byte [OF m(1)] 1(2) by (subst uleb.simps) (simp add: shl_checked_def)
    also have "\<dots> = Some ((result OR push_bit shift (of_nat (n mod 128))) OR push_bit (shift + 7) (of_nat (n div 128)), rest)"
      using 1(1) [OF False sh d] .
    also have "\<dots> = Some (result OR push_bit shift (of_nat n), rest)"
      by (subst (3) of_nat_split) (simp add: push_bit_or or.assoc)
    finally show ?thesis .
  qed
qed

text \<open>The last byte of a signed number carries its sign in bit 6, which the reader extends.\<close>

lemma last_signed_byte:
  fixes result :: "'a::len word"
  assumes "- 64 \<le> x" "x < 64" "shift < LENGTH('a)"
  shows "read_signed_loop result shift ((word_of_int (x mod 128) :: u8) # rest) =
    Some (result OR push_bit shift (word_of_int x), rest)"
proof -
  let ?m = "word_of_int (x mod 128) :: u8"
  have m: "unat ?m < 128" "(ucast ?m :: 'a word) = word_of_int (x mod 128)"
    by (simp_all add: unsigned_of_int take_bit_eq_mod nat_less_iff)
  have x: "x = 128 * (x div 128) + x mod 128" "0 \<le> x mod 128" "x mod 128 < 128" by simp_all
  have dv: "x div 128 = (if x < 0 then - 1 else 0)" using assms x by (cases "x < 0") (simp; linarith)+
  have sign: "?m AND 0x40 \<noteq> 0 \<longleftrightarrow> x < 0"
    unfolding byte_0x40 using assms x(1) dv by (cases "x < 0") (simp; linarith)+
  have ext: "push_bit shift (word_of_int x :: 'a word) =
      push_bit shift (word_of_int (x mod 128)) OR (if x < 0 then push_bit (shift + 7) (- 1) else 0)"
    unfolding dv [symmetric] by (subst of_int_split) (simp add: push_bit_or dv)
  have "push_bit (shift + 7) (- 1 :: 'a word) = 0" if "\<not> shift + 7 < LENGTH('a)"
    using that by (intro bit_word_eqI) (simp add: bit_simps)
  then show ?thesis using sign low_byte [OF m(1)] m assms(3) unfolding ext
    by (auto simp: shl_checked_def or.assoc Let_def)
qed

lemma read_signed_loop_sleb:
  fixes result :: "'a::len word"
  assumes "shift < LENGTH('a)" "- (2 ^ (LENGTH('a) - shift - 1)) \<le> x" "x < 2 ^ (LENGTH('a) - shift - 1)"
  shows "read_signed_loop result shift (sleb x @ rest) = Some (result OR push_bit shift (word_of_int x), rest)"
  using assms
proof (induction x arbitrary: result shift rule: sleb.induct)
  case (1 x)
  show ?case
  proof (cases "- 64 \<le> x \<and> x < 64")
    case True
    then show ?thesis using last_signed_byte [of x shift result rest] 1(2) by (subst sleb.simps) simp
  next
    case False
    let ?m = "word_of_int (x mod 128) :: u8"
    have m: "unat ?m < 128" "(ucast ?m :: 'a word) = word_of_int (x mod 128)"
      by (simp_all add: unsigned_of_int take_bit_eq_mod nat_less_iff)
    have "(2 :: int) ^ 6 < 2 ^ (LENGTH('a) - shift - 1)" using False 1(3,4) by auto
    then have "6 < LENGTH('a) - shift - 1" by (rule power_less_imp_less_exp [rotated]) simp
    then have sh: "shift + 7 < LENGTH('a)" by simp
    have "LENGTH('a) - shift - 1 = (LENGTH('a) - (shift + 7) - 1) + 7" using sh by simp
    then have e: "(2 :: int) ^ (LENGTH('a) - shift - 1) = 2 ^ (LENGTH('a) - (shift + 7) - 1) * 128"
      by (simp only: power_add pow7)
    have d: "- (2 ^ (LENGTH('a) - (shift + 7) - 1)) \<le> x div 128" "x div 128 < 2 ^ (LENGTH('a) - (shift + 7) - 1)"
      using 1(3,4) unfolding e by linarith+
    have "read_signed_loop result shift (sleb x @ rest) =
        read_signed_loop (result OR push_bit shift (word_of_int (x mod 128))) (shift + 7) (sleb (x div 128) @ rest)"
      using False m low_byte [OF m(1)] 1(2) by (subst sleb.simps) (auto simp: shl_checked_def Let_def)
    also have "\<dots> = Some ((result OR push_bit shift (word_of_int (x mod 128))) OR
        push_bit (shift + 7) (word_of_int (x div 128)), rest)"
      using 1(1) [OF False sh d] .
    also have "\<dots> = Some (result OR push_bit shift (word_of_int x), rest)"
      by (subst (3) of_int_split) (simp add: push_bit_or or.assoc)
    finally show ?thesis .
  qed
qed

section \<open>Properties\<close>

lemma max_leb128_len_bits: "bits \<le> 7 * max_leb128_len bits" "0 < bits \<Longrightarrow> 0 < max_leb128_len bits"
  by (simp_all add: max_leb128_len_def)

lemma uleb_fits: "length (uleb (unat (v :: 'a::len word))) \<le> max_leb128_len LENGTH('a)"
proof (rule uleb_length)
  have "unat v < 2 ^ LENGTH('a)" by (rule unsigned_less)
  also have "\<dots> \<le> 2 ^ (7 * max_leb128_len LENGTH('a))"
    using max_leb128_len_bits(1) by (intro power_increasing) simp_all
  finally show "unat v < 2 ^ (7 * max_leb128_len LENGTH('a))" .
qed (simp add: max_leb128_len_bits)

lemma sleb_fits: "length (sleb (sint (v :: 'a::len word))) \<le> max_leb128_len LENGTH('a)"
proof (rule sleb_length)
  let ?k = "7 * max_leb128_len LENGTH('a) - 1"
  have "(2 :: int) ^ (LENGTH('a) - 1) \<le> 2 ^ ?k"
    using max_leb128_len_bits(1) [of "LENGTH('a)"] by (intro power_increasing) simp_all
  moreover have "- (2 ^ (LENGTH('a) - 1)) \<le> sint v" "sint v < 2 ^ (LENGTH('a) - 1)"
    by (rule sint_ge, rule sint_lt)
  ultimately show "- (2 ^ ?k) \<le> sint v" "sint v < 2 ^ ?k" by linarith+
qed (simp add: max_leb128_len_bits)

lemma write_unsigned_leb128_uleb:
  fixes v :: "'a::len word"
  assumes "max_leb128_len LENGTH('a) \<le> length out"
  shows "write_unsigned_leb128 out v =
    Some (uleb (unat v) @ drop (length (uleb (unat v))) out, length (uleb (unat v)))"
  using write_unsigned_loop_uleb [of 0 v out] assms uleb_fits [of v] by (simp add: write_unsigned_leb128_def)

lemma write_signed_leb128_sleb:
  fixes v :: "'a::len word"
  assumes "max_leb128_len LENGTH('a) \<le> length out"
  shows "write_signed_leb128 out v =
    Some (sleb (sint v) @ drop (length (sleb (sint v))) out, length (sleb (sint v)))"
  using write_signed_loop_sleb [of 0 v out] assms sleb_fits [of v] by (simp add: write_signed_leb128_def)

text \<open>The fast path for one byte is the loop's first turn.\<close>

lemma read_unsigned_leb128_loop: "read_unsigned_leb128 decoder = read_unsigned_loop (0 :: 'a::len word) 0 decoder"
  by (cases decoder) (simp_all add: read_unsigned_leb128_def shl_checked_def)

lemma read_unsigned_leb128_uleb: "read_unsigned_leb128 (uleb (unat v) @ rest) = Some (v :: 'a::len word, rest)"
  using read_unsigned_loop_uleb [of 0 "unat v" "0 :: 'a word" rest] unsigned_less [of v, where ?'a = nat]
  by (simp add: read_unsigned_leb128_loop)

lemma read_signed_leb128_sleb: "read_signed_leb128 (sleb (sint v) @ rest) = Some (v :: 'a::len word, rest)"
  using read_signed_loop_sleb [of 0 "sint v" "0 :: 'a word" rest] sint_ge [of v] sint_lt [of v]
  by (simp add: read_signed_leb128_def)

text \<open>
  C39. Round trip: whatever the width of the integer type and the bytes already in the buffer, the bytes that a
  writer stores into a buffer of \<open>max_leb128_len\<close> bytes are read back as the value written, and the decoder is left
  at the byte after them, both for the unsigned and for the signed (two's complement) encoding.
\<close>

theorem leb128_roundtrip:
  fixes v :: "'a::len word"
  assumes "length out = max_leb128_len LENGTH('a)"
  shows "\<exists>out1 n1 out2 n2.
    write_unsigned_leb128 out v = Some (out1, n1) \<and> read_unsigned_leb128 (take n1 out1 @ rest) = Some (v, rest) \<and>
    write_signed_leb128 out v = Some (out2, n2) \<and> read_signed_leb128 (take n2 out2 @ rest) = Some (v, rest)"
  using assms read_unsigned_leb128_uleb [of v rest] read_signed_leb128_sleb [of v rest]
  by (simp add: write_unsigned_leb128_uleb write_signed_leb128_sleb)

theorem leb128_roundtrip_witness:
  "\<exists>out1 n1 out2 n2.
    write_unsigned_leb128 (replicate 10 0) (624485 :: 64 word) = Some (out1, n1) \<and>
    read_unsigned_leb128 (take n1 out1 @ [7]) = Some (624485 :: 64 word, [7]) \<and>
    write_signed_leb128 (replicate 10 0) (624485 :: 64 word) = Some (out2, n2) \<and>
    read_signed_leb128 (take n2 out2 @ [7]) = Some (624485 :: 64 word, [7])"
  by (rule leb128_roundtrip) (simp add: max_leb128_len_def)

text \<open>
  C40. Bounds: the unchecked stores of the writers stay inside a buffer of \<open>max_leb128_len\<close> bytes (a store out of
  range would be \<open>None\<close>), what lies behind the encoding is left alone, and the encoding is the shortest one: two
  bytes or more are only used when the value needs them.
\<close>

theorem leb128_bounds:
  fixes v :: "'a::len word"
  assumes "length out = max_leb128_len LENGTH('a)"
  shows "\<exists>out1 n1 out2 n2.
    write_unsigned_leb128 out v = Some (out1, n1) \<and> 1 \<le> n1 \<and> n1 \<le> max_leb128_len LENGTH('a) \<and>
    length out1 = length out \<and> drop n1 out1 = drop n1 out \<and> (1 < n1 \<longrightarrow> 128 ^ (n1 - 1) \<le> unat v) \<and>
    write_signed_leb128 out v = Some (out2, n2) \<and> 1 \<le> n2 \<and> n2 \<le> max_leb128_len LENGTH('a) \<and>
    length out2 = length out \<and> drop n2 out2 = drop n2 out \<and>
    (1 < n2 \<longrightarrow> sint v < - (64 * 128 ^ (n2 - 2)) \<or> 64 * 128 ^ (n2 - 2) \<le> sint v)"
proof -
  have "128 ^ (length (uleb (unat v)) - 1) \<le> unat v" if "1 < length (uleb (unat v))"
    using that by (intro uleb_minimal) simp_all
  moreover have "sint v < - (64 * 128 ^ (length (sleb (sint v)) - 2)) \<or> 64 * 128 ^ (length (sleb (sint v)) - 2) \<le> sint v"
    if "1 < length (sleb (sint v))"
    using that by (intro sleb_minimal) simp
  ultimately show ?thesis
    using assms uleb_fits [of v] sleb_fits [of v] uleb_pos [of "unat v"] sleb_pos [of "sint v"]
    by (simp add: write_unsigned_leb128_uleb write_signed_leb128_sleb Suc_le_eq)
qed

theorem leb128_bounds_witness:
  "\<exists>out1 n1 out2 n2.
    write_unsigned_leb128 (replicate 5 9) (300 :: 32 word) = Some (out1, n1) \<and> 1 \<le> n1 \<and> n1 \<le> max_leb128_len LENGTH(32) \<and>
    length out1 = length (replicate 5 (9 :: u8)) \<and> drop n1 out1 = drop n1 (replicate 5 9) \<and>
    (1 < n1 \<longrightarrow> 128 ^ (n1 - 1) \<le> unat (300 :: 32 word)) \<and>
    write_signed_leb128 (replicate 5 9) (300 :: 32 word) = Some (out2, n2) \<and> 1 \<le> n2 \<and> n2 \<le> max_leb128_len LENGTH(32) \<and>
    length out2 = length (replicate 5 (9 :: u8)) \<and> drop n2 out2 = drop n2 (replicate 5 9) \<and>
    (1 < n2 \<longrightarrow> sint (300 :: 32 word) < - (64 * 128 ^ (n2 - 2)) \<or> 64 * 128 ^ (n2 - 2) \<le> sint (300 :: 32 word))"
  by (rule leb128_bounds) (simp add: max_leb128_len_def)

end
