(* ===== verification/Mlir_Ir.thy ===== *)
theory Mlir_Ir
  imports MIR_Syntax Rust_Str
begin

text \<open>
  What the code generator sees of the MLIR library: types, values, operations and blocks as data, and the results
  of fallible calls. A type of MLIR is determined by its constructor and parameters, so types are a datatype; a value
  is a number with a type, an operation its name with operands, attributes, results, successors and regions, and a
  block is a reference into the module. The parts of the library that compute (the inference of result types, the
  parsers of attributes and types, the printer of types) are a record of functions, an argument of the definitions that call them.

  \<open>'a res\<close> is the outcome of a function of the source that returns \<open>Result<T, MlirError>\<close> and may panic
  (\<open>rustc_codegen_llvm/src/mlir/errors.rs\<close>, \<open>rustc_mlir/src/errors.rs\<close>; the message texts of errors are left out).
\<close>

section \<open>Outcomes\<close>

datatype rm_error = RM_InvalidType | RM_IncompatibleTypes

datatype mlir_error = CodegenFailed | CreateOperation rm_error | InvalidScalar | InvalidType | IncompatibleTypes

datatype 'a res = Ok 'a | Err mlir_error | Panic

text \<open>The operator \<open>?\<close>.\<close>

fun bind_res :: "'a res \<Rightarrow> ('a \<Rightarrow> 'b res) \<Rightarrow> 'b res" where
  "bind_res (Ok x) k = k x"
| "bind_res (Err e) k = Err e"
| "bind_res Panic k = Panic"

lemma bind_res_Ok [simp]: "bind_res r k = Ok y \<longleftrightarrow> (\<exists>x. r = Ok x \<and> k x = Ok y)"
  by (cases r) auto

lemma bind_res_assoc: "bind_res (bind_res r f) g = bind_res r (\<lambda>x. bind_res (f x) g)"
  by (cases r) auto

lemma bind_res_cong [fundef_cong]:
  "r = r' \<Longrightarrow> (\<And>x. r' = Ok x \<Longrightarrow> k x = k' x) \<Longrightarrow> bind_res r k = bind_res r' k'"
  by (cases r') auto

text \<open>\<open>expect\<close> and \<open>unwrap\<close>; \<open>map_err\<close> of a builder's error.\<close>

definition expect :: "'a option \<Rightarrow> 'a res" where
  "expect x = (case x of Some y \<Rightarrow> Ok y | None \<Rightarrow> Panic)"

lemma expect_simps [simp]: "expect (Some y) = Ok y" "expect None = Panic"
  by (simp_all add: expect_def)

lemma expect_Ok [simp]: "expect x = Ok y \<longleftrightarrow> x = Some y"
  by (cases x) auto

definition debug_assert :: "bool \<Rightarrow> unit res" where
  "debug_assert b = (if b then Ok () else Panic)"

lemma debug_assert_simps [simp]: "debug_assert True = Ok ()" "debug_assert False = Panic"
  by (simp_all add: debug_assert_def)

text \<open>The elements of a list in order, stopping at the first failure: \<open>collect::<Result<Vec<_>, _>>\<close>, with the state
  of the module passed on.\<close>

fun map_res :: "('a \<Rightarrow> 's \<Rightarrow> ('b \<times> 's) res) \<Rightarrow> 'a list \<Rightarrow> 's \<Rightarrow> ('b list \<times> 's) res" where
  "map_res f [] s = Ok ([], s)"
| "map_res f (x # xs) s =
     bind_res (f x s) (\<lambda>(y, s'). bind_res (map_res f xs s') (\<lambda>(ys, s''). Ok (y # ys, s'')))"

section \<open>Types\<close>

datatype mlir_ty =
    MT_Integer nat
  | MT_F16
  | MT_F32
  | MT_F64
  | MT_Tensor "i64 list" mlir_ty
  | MT_Tuple "mlir_ty list"
  | MT_Pointer mlir_ty nat
  | MT_TensorDesc "i64 list" mlir_ty

fun is_integer :: "mlir_ty \<Rightarrow> bool" where
  "is_integer (MT_Integer _) = True"
| "is_integer _ = False"

fun is_tensor :: "mlir_ty \<Rightarrow> bool" where
  "is_tensor (MT_Tensor _ _) = True"
| "is_tensor _ = False"

fun is_float :: "mlir_ty \<Rightarrow> bool" where
  "is_float MT_F16 = True"
| "is_float MT_F32 = True"
| "is_float MT_F64 = True"
| "is_float _ = False"

text \<open>\<open>RankedTensorType::try_from\<close>, with the dimensions and the element type.\<close>

fun as_tensor :: "mlir_ty \<Rightarrow> (i64 list \<times> mlir_ty) option" where
  "as_tensor (MT_Tensor dims elem) = Some (dims, elem)"
| "as_tensor _ = None"

definition ranked :: "mlir_ty \<Rightarrow> (i64 list \<times> mlir_ty) res" where
  "ranked t = (case as_tensor t of Some x \<Rightarrow> Ok x | None \<Rightarrow> Err InvalidType)"

definition tensor_type :: "i64 list \<Rightarrow> mlir_ty \<Rightarrow> mlir_ty" where
  "tensor_type dimensions element_type = MT_Tensor dimensions element_type"

definition tensor_type_like :: "i64 list \<times> mlir_ty \<Rightarrow> mlir_ty \<Rightarrow> mlir_ty" where
  "tensor_type_like tensor v = MT_Tensor (fst tensor) v"

text \<open>Pointers into the global address space.\<close>

definition pointer_type :: "mlir_ty \<Rightarrow> mlir_ty" where
  "pointer_type pointee = MT_Pointer pointee 1"

section \<open>Values, operations and blocks\<close>

record mlir_value =
  v_id :: nat
  v_ty :: mlir_ty

text \<open>Attributes: integers and floats (as the bits of a 64-bit float) of a type, references to symbols, booleans,
  strings, arrays of 32-bit integers and the unit attribute. The attributes of an operation are listed in the order in
  which the builder adds them, without their names.\<close>

datatype mlir_attr =
    Attr_Int int mlir_ty
  | Attr_Float u64 mlir_ty
  | Attr_Symbol rstr
  | Attr_Bool bool
  | Attr_String rstr
  | Attr_I32Array "i32 list"
  | Attr_Unit

type_synonym block_ref = nat

record mlir_op =
  op_name :: string
  op_operands :: "mlir_value list"
  op_attrs :: "mlir_attr list"
  op_results :: "mlir_value list"
  op_successors :: "(block_ref \<times> mlir_value list) list"
  op_regions :: "block_ref list list"

record mlir_block =
  blk_args :: "mlir_value list"
  blk_ops :: "mlir_op list"

record mlir_module =
  mm_next :: nat
  mm_blocks :: "mlir_block list"

record mlir_lib =
  ml_infer :: "string \<Rightarrow> mlir_ty list \<Rightarrow> mlir_ty option"
  ml_parse_attr :: "rstr \<Rightarrow> mlir_attr option"
  ml_parse_type :: "rstr \<Rightarrow> mlir_ty option"
  ml_print_type :: "mlir_ty \<Rightarrow> rstr"

text \<open>\<open>append_operation\<close> on the block of a reference.\<close>

definition append_operation :: "block_ref \<Rightarrow> mlir_op \<Rightarrow> mlir_module \<Rightarrow> mlir_module" where
  "append_operation blk op1 m =
     m\<lparr>mm_blocks := (mm_blocks m)[blk := (mm_blocks m ! blk)\<lparr>blk_ops := blk_ops (mm_blocks m ! blk) @ [op1]\<rparr>]\<rparr>"

text \<open>An operation with one result, built and appended.\<close>

definition emit1 ::
    "block_ref \<Rightarrow> string \<Rightarrow> mlir_value list \<Rightarrow> mlir_attr list \<Rightarrow> mlir_ty \<Rightarrow> mlir_module \<Rightarrow> mlir_value \<times> mlir_module" where
  "emit1 blk nm operands attrs t m =
     (let v = \<lparr>v_id = mm_next m, v_ty = t\<rparr> in
      (v, append_operation blk
            \<lparr>op_name = nm, op_operands = operands, op_attrs = attrs, op_results = [v], op_successors = [],
             op_regions = []\<rparr> (m\<lparr>mm_next := mm_next m + 1\<rparr>)))"

text \<open>An operation whose result type the library infers from its operands.\<close>

definition emit_inferred ::
    "mlir_lib \<Rightarrow> block_ref \<Rightarrow> string \<Rightarrow> mlir_value list \<Rightarrow> mlir_module \<Rightarrow> (mlir_value \<times> mlir_module) res" where
  "emit_inferred lib blk nm operands m =
     bind_res (expect (ml_infer lib nm (map v_ty operands))) (\<lambda>t. Ok (emit1 blk nm operands [] t m))"

text \<open>Operations with any number of results, blocks with arguments. An operation that owns regions is built before
  the blocks of its regions and appended after them, so its results are numbered first.\<close>

fun new_values :: "mlir_ty list \<Rightarrow> mlir_module \<Rightarrow> mlir_value list \<times> mlir_module" where
  "new_values [] m = ([], m)"
| "new_values (t # ts) m =
     (let (vs, m') = new_values ts (m\<lparr>mm_next := mm_next m + 1\<rparr>) in (\<lparr>v_id = mm_next m, v_ty = t\<rparr> # vs, m'))"

definition new_block :: "mlir_ty list \<Rightarrow> mlir_module \<Rightarrow> block_ref \<times> mlir_value list \<times> mlir_module" where
  "new_block ts m =
     (let (vs, m') = new_values ts m in
      (length (mm_blocks m'), vs, m'\<lparr>mm_blocks := mm_blocks m' @ [\<lparr>blk_args = vs, blk_ops = []\<rparr>]\<rparr>))"

definition add_argument :: "block_ref \<Rightarrow> mlir_ty \<Rightarrow> mlir_module \<Rightarrow> mlir_value \<times> mlir_module" where
  "add_argument blk t m =
     (let v = \<lparr>v_id = mm_next m, v_ty = t\<rparr>; b = mm_blocks m ! blk in
      (v, m\<lparr>mm_next := mm_next m + 1, mm_blocks := (mm_blocks m)[blk := b\<lparr>blk_args := blk_args b @ [v]\<rparr>]\<rparr>))"

definition append_op ::
    "block_ref \<Rightarrow> string \<Rightarrow> mlir_value list \<Rightarrow> mlir_attr list \<Rightarrow> mlir_value list \<Rightarrow> block_ref list list \<Rightarrow> mlir_module \<Rightarrow> mlir_module" where
  "append_op blk nm operands attrs results regions m =
     append_operation blk
       \<lparr>op_name = nm, op_operands = operands, op_attrs = attrs, op_results = results, op_successors = [],
        op_regions = regions\<rparr> m"

text \<open>Branches: each successor with the values of its block arguments.\<close>

definition append_branch ::
    "block_ref \<Rightarrow> string \<Rightarrow> mlir_value list \<Rightarrow> (block_ref \<times> mlir_value list) list \<Rightarrow> mlir_module \<Rightarrow> mlir_module" where
  "append_branch blk nm operands succs m =
     append_operation blk
       \<lparr>op_name = nm, op_operands = operands, op_attrs = [], op_results = [], op_successors = succs, op_regions = []\<rparr> m"

end
