(* ===== verification/Type_Mapper.thy ===== *)
theory Type_Mapper
  imports Mlir_Ir Triton_Const
begin

text \<open>
  The mapping of Rust types to types of MLIR (\<open>TypeMapper\<close> in \<open>triton/types.rs\<close>). The mapping follows an alias to
  its normal form, so its recursion is not bounded by the type; the model has the depth of the stack as fuel, and a
  recursion that exceeds it is a panic. A type of the source that the mapper does not know (\<open>todo!\<close>) is a panic too.

  What the code generator asks the type context is the record \<open>codegen_ctx\<close>: printed paths of definitions,
  normalisation of types, layouts, memory of constants. They are queries into the rest of the compiler.
\<close>

record codegen_ctx =
  cc_inst :: instance_ctx
  cc_lib :: mlir_lib
  cc_stack :: nat
  cc_def_path_str :: "def_id \<Rightarrow> rstr"
  cc_adt_debug :: "adt_def \<Rightarrow> rstr"
  cc_adt_def :: "def_id \<Rightarrow> adt_def"
  cc_is_box :: "def_id \<Rightarrow> bool"
  cc_try_normalize :: "ty \<Rightarrow> ty option"
  cc_normalize :: "ty \<Rightarrow> ty"
  cc_field_ty :: "adt_def \<Rightarrow> generic_arg list \<Rightarrow> ty option"
  cc_pointer_size :: nat
  cc_const_eval :: "def_id \<Rightarrow> generic_arg list \<Rightarrow> nat option \<Rightarrow> const_value option"
  cc_is_memory :: "alloc_id \<Rightarrow> bool"
  cc_read_scalar :: "alloc_id \<Rightarrow> nat \<Rightarrow> nat \<Rightarrow> scalar option"
  cc_size_of :: "ty \<Rightarrow> nat option"
  cc_offsets :: "ty \<Rightarrow> nat list option option"
  cc_f32_to_f64 :: "u32 \<Rightarrow> u64"

section \<open>Definitions\<close>

fun collect_res :: "'a res list \<Rightarrow> 'a list res" where
  "collect_res [] = Ok []"
| "collect_res (r # rs) = bind_res r (\<lambda>x. bind_res (collect_res rs) (\<lambda>xs. Ok (x # xs)))"

fun create_int_type :: "int_ty \<Rightarrow> mlir_ty res" where
  "create_int_type Isize = Panic"
| "create_int_type I8 = Ok (MT_Integer 8)"
| "create_int_type I16 = Ok (MT_Integer 16)"
| "create_int_type I32 = Ok (MT_Integer 32)"
| "create_int_type I64 = Ok (MT_Integer 64)"
| "create_int_type I128 = Ok (MT_Integer 128)"

fun create_uint_type :: "uint_ty \<Rightarrow> mlir_ty res" where
  "create_uint_type Usize = Panic"
| "create_uint_type U8 = Ok (MT_Integer 8)"
| "create_uint_type U16 = Ok (MT_Integer 16)"
| "create_uint_type U32 = Ok (MT_Integer 32)"
| "create_uint_type U64 = Ok (MT_Integer 64)"
| "create_uint_type U128 = Ok (MT_Integer 128)"

fun create_float_type :: "float_ty \<Rightarrow> mlir_ty res" where
  "create_float_type F16 = Ok MT_F16"
| "create_float_type F32 = Ok MT_F32"
| "create_float_type F64 = Ok MT_F64"
| "create_float_type F128 = Panic"

definition create_bool_type :: mlir_ty where
  "create_bool_type = MT_Integer 1"

fun expect_ty :: "generic_arg \<Rightarrow> ty res" where
  "expect_ty (Arg_Type t) = Ok t"
| "expect_ty _ = Panic"

text \<open>\<open>i64::MIN\<close>, the mark of a dimension that is not known.\<close>

definition dynamic_dim :: i64 where
  "dynamic_dim = word_of_int (- (2 ^ 63))"

text \<open>The handlers of the library's own types take the mapping of their argument as a function.\<close>

definition one_type_arg :: "(ty \<Rightarrow> mlir_ty res) \<Rightarrow> generic_arg list \<Rightarrow> mlir_ty res" where
  "one_type_arg f args =
     bind_res (debug_assert (length args = 1)) (\<lambda>_.
     bind_res (expect (vec_index args 0)) (\<lambda>a.
     bind_res (expect_ty a) f))"

definition triton_tensor_handler :: "(ty \<Rightarrow> mlir_ty res) \<Rightarrow> generic_arg list \<Rightarrow> mlir_ty res" where
  "triton_tensor_handler f args = bind_res (one_type_arg f args) (\<lambda>t. Ok (tensor_type [dynamic_dim] t))"

definition triton_pointer_handler :: "(ty \<Rightarrow> mlir_ty res) \<Rightarrow> generic_arg list \<Rightarrow> mlir_ty res" where
  "triton_pointer_handler f args = bind_res (one_type_arg f args) (\<lambda>t. Ok (pointer_type t))"

definition triton_bool_handler :: "mlir_ty res" where
  "triton_bool_handler = Ok create_bool_type"

definition triton_program_axis_handler :: "mlir_ty res" where
  "triton_program_axis_handler = Ok (MT_Integer 32)"

definition map_adt_ty :: "codegen_ctx \<Rightarrow> (ty \<Rightarrow> mlir_ty res) \<Rightarrow> adt_def \<Rightarrow> generic_arg list \<Rightarrow> mlir_ty res" where
  "map_adt_ty cc f def args =
     (let nm = cc_def_path_str cc (adt_did def) in
      if nm = lit ''triton::llvm::triton::tensor::LlvmTensor'' then triton_tensor_handler f args
      else if nm = lit ''triton::llvm::triton::pointer::LlvmPointer'' then triton_pointer_handler f args
      else if nm = lit ''triton::llvm::triton::types::LlvmBool'' then triton_bool_handler
      else if nm = lit ''triton::Axis'' then triton_program_axis_handler
      else if adt_is_enum def then Ok (MT_Integer 32)
      else Panic)"

definition map_alias_ty :: "codegen_ctx \<Rightarrow> (ty \<Rightarrow> mlir_ty res) \<Rightarrow> ty \<Rightarrow> mlir_ty res" where
  "map_alias_ty cc f t = bind_res (expect (cc_try_normalize cc t)) f"

definition create_tuple_type :: "(ty \<Rightarrow> mlir_ty res) \<Rightarrow> ty list \<Rightarrow> mlir_ty res" where
  "create_tuple_type f tys = bind_res (collect_res (map f tys)) (\<lambda>types. Ok (MT_Tuple types))"

definition create_raw_ptr_type :: "(ty \<Rightarrow> mlir_ty res) \<Rightarrow> ty \<Rightarrow> mlir_ty res" where
  "create_raw_ptr_type f t = bind_res (f t) (\<lambda>t'. Ok (pointer_type t'))"

fun map_type_depth :: "codegen_ctx \<Rightarrow> nat \<Rightarrow> ty \<Rightarrow> mlir_ty res" where
  "map_type_depth cc 0 t = Panic"
| "map_type_depth cc (Suc n) t =
     (case t of
        Ty_Int i \<Rightarrow> create_int_type i
      | Ty_Uint u \<Rightarrow> create_uint_type u
      | Ty_Float f \<Rightarrow> create_float_type f
      | Ty_Bool \<Rightarrow> Ok create_bool_type
      | Ty_Array elem_ty _ \<Rightarrow> map_type_depth cc n elem_ty
      | Ty_Adt def args \<Rightarrow> map_adt_ty cc (map_type_depth cc n) def args
      | Ty_Str \<Rightarrow> Ok (MT_Integer 64)
      | Ty_RawPtr t' _ \<Rightarrow> create_raw_ptr_type (map_type_depth cc n) t'
      | Ty_Ref inner_ty _ \<Rightarrow>
          (case inner_ty of
             Ty_Slice _ \<Rightarrow> Ok (MT_Integer 64)
           | Ty_Str \<Rightarrow> Ok (MT_Integer 64)
           | _ \<Rightarrow> map_type_depth cc n inner_ty)
      | Ty_FnDef _ _ \<Rightarrow> Ok (MT_Integer 64)
      | Ty_FnPtr \<Rightarrow> Ok (MT_Integer 64)
      | Ty_Never \<Rightarrow> Ok (MT_Integer 64)
      | Ty_Tuple tys \<Rightarrow> create_tuple_type (map_type_depth cc n) tys
      | Ty_Alias _ _ \<Rightarrow> map_alias_ty cc (map_type_depth cc n) t
      | _ \<Rightarrow> Panic)"

definition map_type :: "codegen_ctx \<Rightarrow> ty \<Rightarrow> mlir_ty res" where
  "map_type cc t = map_type_depth cc (cc_stack cc) t"

section \<open>Properties\<close>

lemma collect_res_Ok: "collect_res rs = Ok xs \<longleftrightarrow> rs = map Ok xs"
  by (induction rs arbitrary: xs) auto

text \<open>A deeper stack does not change a result.\<close>

lemma map_type_depth_mono: "map_type_depth cc n t = Ok u \<Longrightarrow> n \<le> m \<Longrightarrow> map_type_depth cc m t = Ok u"
proof (induction n arbitrary: m t u)
  case (Suc n)
  obtain m' where m: "m = Suc m'" "n \<le> m'" using Suc.prems(2) by (cases m) auto
  have IH: "map_type_depth cc n t' = Ok u' \<Longrightarrow> map_type_depth cc m' t' = Ok u'" for t' u'
    using Suc.IH m(2) by blast
  have tup: "map (map_type_depth cc n) ts = map Ok us \<Longrightarrow> map (map_type_depth cc m') ts = map Ok us" for ts us
    using IH by (induction ts arbitrary: us) auto
  show ?case
    using Suc.prems(1) IH tup unfolding m(1)
    by (cases t) (auto split: ty.splits if_splits
        simp: map_adt_ty_def Let_def triton_tensor_handler_def triton_pointer_handler_def one_type_arg_def
          create_tuple_type_def create_raw_ptr_type_def map_alias_ty_def collect_res_Ok)
qed simp

end
