(* ===== verification/Arith_Build.thy ===== *)
theory Arith_Build
  imports Type_Mapper Rust_Parse_Props
begin

text \<open>
  The builders of arithmetic operations (\<open>rustc_mlir/src/shared/arith.rs\<close>, \<open>attr.rs\<close>, \<open>ub.rs\<close>, \<open>cf.rs\<close>) and of
  the operations that spread and broadcast tensors (\<open>rustc_mlir/src/triton/tensor.rs\<close>). Each builder is an
  operation appended to a block: the source builds it first and appends it in the next statement.
\<close>

section \<open>Integer constants\<close>

datatype mlir_int =
    Int_I1 u8 | Int_I8 u8 | Int_I16 "16 word" | Int_I32 u32 | Int_I64 u64 | Int_I128 u128 | Int_Isize u64
  | Int_U8 u8 | Int_U16 "16 word" | Int_U32 u32 | Int_U64 u64 | Int_U128 u128 | Int_Usize u64

text \<open>\<open>to_u8\<close> and its siblings panic unless the scalar has the size of the type.\<close>

definition to_uint :: "nat \<Rightarrow> scalar_int \<Rightarrow> 'a::len word res" where
  "to_uint bytes s = expect (map_option ucast (to_bits s bytes))"

fun from_scalar :: "ty \<Rightarrow> scalar_int \<Rightarrow> mlir_int res" where
  "from_scalar Ty_Bool s = bind_res (to_uint 1 s) (\<lambda>w. Ok (Int_I1 (and w 1)))"
| "from_scalar (Ty_Int I8) s = bind_res (to_uint 1 s) (\<lambda>w. Ok (Int_I8 w))"
| "from_scalar (Ty_Int I16) s = bind_res (to_uint 2 s) (\<lambda>w. Ok (Int_I16 w))"
| "from_scalar (Ty_Int I32) s = bind_res (to_uint 4 s) (\<lambda>w. Ok (Int_I32 w))"
| "from_scalar (Ty_Int I64) s = bind_res (to_uint 8 s) (\<lambda>w. Ok (Int_I64 w))"
| "from_scalar (Ty_Int I128) s = bind_res (to_uint 16 s) (\<lambda>w. Ok (Int_I128 w))"
| "from_scalar (Ty_Int Isize) s = bind_res (to_uint 8 s) (\<lambda>w. Ok (Int_Isize w))"
| "from_scalar (Ty_Uint U8) s = bind_res (to_uint 1 s) (\<lambda>w. Ok (Int_U8 w))"
| "from_scalar (Ty_Uint U16) s = bind_res (to_uint 2 s) (\<lambda>w. Ok (Int_U16 w))"
| "from_scalar (Ty_Uint U32) s = bind_res (to_uint 4 s) (\<lambda>w. Ok (Int_U32 w))"
| "from_scalar (Ty_Uint U64) s = bind_res (to_uint 8 s) (\<lambda>w. Ok (Int_U64 w))"
| "from_scalar (Ty_Uint U128) s = bind_res (to_uint 16 s) (\<lambda>w. Ok (Int_U128 w))"
| "from_scalar (Ty_Uint Usize) s = bind_res (to_uint 8 s) (\<lambda>w. Ok (Int_Usize w))"
| "from_scalar _ s = Err (CreateOperation RM_InvalidType)"

fun int_bits :: "mlir_int \<Rightarrow> nat" where
  "int_bits (Int_I1 _) = 1"
| "int_bits (Int_I8 _) = 8"
| "int_bits (Int_I16 _) = 16"
| "int_bits (Int_I32 _) = 32"
| "int_bits (Int_I64 _) = 64"
| "int_bits (Int_I128 _) = 128"
| "int_bits (Int_U8 _) = 8"
| "int_bits (Int_U16 _) = 16"
| "int_bits (Int_U32 _) = 32"
| "int_bits (Int_U64 _) = 64"
| "int_bits (Int_U128 _) = 128"
| "int_bits (Int_Isize _) = 64"
| "int_bits (Int_Usize _) = 64"

definition int_ty_of :: "mlir_int \<Rightarrow> mlir_ty" where
  "int_ty_of v = MT_Integer (int_bits v)"

text \<open>The number that a format string prints for a constant.\<close>

fun int_value :: "mlir_int \<Rightarrow> nat" where
  "int_value (Int_I1 w) = unat w"
| "int_value (Int_I8 w) = unat w"
| "int_value (Int_I16 w) = unat w"
| "int_value (Int_I32 w) = unat w"
| "int_value (Int_I64 w) = unat w"
| "int_value (Int_I128 w) = unat w"
| "int_value (Int_U8 w) = unat w"
| "int_value (Int_U16 w) = unat w"
| "int_value (Int_U32 w) = unat w"
| "int_value (Int_U64 w) = unat w"
| "int_value (Int_U128 w) = unat w"
| "int_value (Int_Isize w) = unat w"
| "int_value (Int_Usize w) = unat w"

definition attr_text :: "nat \<Rightarrow> nat \<Rightarrow> rstr" where
  "attr_text n bits = to_string (int n) @ lit '' : i'' @ to_string (int bits)"

definition int_attr :: "mlir_lib \<Rightarrow> mlir_int \<Rightarrow> mlir_attr res" where
  "int_attr lib v = expect (ml_parse_attr lib (attr_text (int_value v) (int_bits v)))"

definition create_constant :: "block_ref \<Rightarrow> mlir_attr \<Rightarrow> mlir_ty \<Rightarrow> mlir_module \<Rightarrow> mlir_value \<times> mlir_module" where
  "create_constant blk attr result_ty m = emit1 blk ''arith.constant'' [] [attr] result_ty m"

definition create_int_constant :: "mlir_lib \<Rightarrow> block_ref \<Rightarrow> mlir_int \<Rightarrow> mlir_module \<Rightarrow> (mlir_value \<times> mlir_module) res" where
  "create_int_constant lib blk v m =
     bind_res (int_attr lib v) (\<lambda>attr. Ok (create_constant blk attr (int_ty_of v) m))"

text \<open>The constructor of the library takes the type of the attribute for the result.\<close>

fun attr_ty :: "mlir_attr \<Rightarrow> mlir_ty" where
  "attr_ty (Attr_Int _ t) = t"
| "attr_ty (Attr_Float _ t) = t"

definition arith_constant :: "block_ref \<Rightarrow> mlir_attr \<Rightarrow> mlir_module \<Rightarrow> mlir_value \<times> mlir_module" where
  "arith_constant blk attr m = create_constant blk attr (attr_ty attr) m"

definition create_scalar_attr :: "mlir_lib \<Rightarrow> ty \<Rightarrow> scalar_int \<Rightarrow> (mlir_attr \<times> mlir_ty) res" where
  "create_scalar_attr lib t scalar =
     bind_res (from_scalar t scalar) (\<lambda>v. bind_res (int_attr lib v) (\<lambda>attr. Ok (attr, int_ty_of v)))"

section \<open>Arithmetic\<close>

datatype predicate = P_EQ | P_NE | P_SLT | P_SLE | P_SGT | P_SGE | P_ULT | P_ULE | P_UGT | P_UGE

fun predicate_code :: "predicate \<Rightarrow> int" where
  "predicate_code P_EQ = 0"
| "predicate_code P_NE = 1"
| "predicate_code P_SLT = 2"
| "predicate_code P_SLE = 3"
| "predicate_code P_SGT = 4"
| "predicate_code P_SGE = 5"
| "predicate_code P_ULT = 6"
| "predicate_code P_ULE = 7"
| "predicate_code P_UGT = 8"
| "predicate_code P_UGE = 9"

datatype fp_predicate = FP_OEQ | FP_OGT | FP_OGE | FP_OLT | FP_OLE | FP_ONE

fun fp_predicate_code :: "fp_predicate \<Rightarrow> int" where
  "fp_predicate_code FP_OEQ = 1"
| "fp_predicate_code FP_OGT = 2"
| "fp_predicate_code FP_OGE = 3"
| "fp_predicate_code FP_OLT = 4"
| "fp_predicate_code FP_OLE = 5"
| "fp_predicate_code FP_ONE = 6"

text \<open>The builder of an operation on two values whose result has the type the library infers.\<close>

definition create_binary ::
    "mlir_lib \<Rightarrow> string \<Rightarrow> block_ref \<Rightarrow> mlir_value \<Rightarrow> mlir_value \<Rightarrow> mlir_module \<Rightarrow> (mlir_value \<times> mlir_module) res" where
  "create_binary lib nm blk lhs rhs m = emit_inferred lib blk nm [lhs, rhs] m"

definition create_muli where
  "create_muli lib blk lhs rhs m =
     (if v_ty lhs \<noteq> v_ty rhs then Err (CreateOperation RM_IncompatibleTypes)
      else if \<not> is_integer (v_ty lhs) then Err (CreateOperation RM_InvalidType)
      else create_binary lib ''arith.muli'' blk lhs rhs m)"

definition create_muli_tensor where "create_muli_tensor lib = create_binary lib ''arith.muli''"
definition create_addi where "create_addi lib = create_binary lib ''arith.addi''"
definition create_addf where "create_addf lib = create_binary lib ''arith.addf''"
definition create_subi where "create_subi lib = create_binary lib ''arith.subi''"
definition create_subf where "create_subf lib = create_binary lib ''arith.subf''"
definition create_mulf where "create_mulf lib = create_binary lib ''arith.mulf''"
definition create_divsi where "create_divsi lib = create_binary lib ''arith.divsi''"
definition create_divf where "create_divf lib = create_binary lib ''arith.divf''"
definition create_remsi where "create_remsi lib = create_binary lib ''arith.remsi''"
definition create_shli where "create_shli lib = create_binary lib ''arith.shli''"
definition create_shrsi where "create_shrsi lib = create_binary lib ''arith.shrsi''"
definition create_shrui where "create_shrui lib = create_binary lib ''arith.shrui''"
definition create_andi where "create_andi lib = create_binary lib ''arith.andi''"
definition create_ori where "create_ori lib = create_binary lib ''arith.ori''"
definition create_xori where "create_xori lib = create_binary lib ''arith.xori''"

lemmas create_binary_defs =
  create_muli_tensor_def create_addi_def create_addf_def create_subi_def create_subf_def create_mulf_def
  create_divsi_def create_divf_def create_remsi_def create_shli_def create_shrsi_def create_shrui_def
  create_andi_def create_ori_def create_xori_def

definition create_negf :: "mlir_lib \<Rightarrow> block_ref \<Rightarrow> mlir_value \<Rightarrow> mlir_module \<Rightarrow> (mlir_value \<times> mlir_module) res" where
  "create_negf lib blk operand m = emit_inferred lib blk ''arith.negf'' [operand] m"

text \<open>Comparisons carry the number of their predicate as an attribute, parsed from its decimal text.\<close>

definition create_cmpi ::
    "mlir_lib \<Rightarrow> block_ref \<Rightarrow> predicate \<Rightarrow> mlir_value \<Rightarrow> mlir_value \<Rightarrow> mlir_ty \<Rightarrow> mlir_module \<Rightarrow> (mlir_value \<times> mlir_module) res" where
  "create_cmpi lib blk p lhs rhs result_ty m =
     bind_res (expect (ml_parse_attr lib (to_string (predicate_code p)))) (\<lambda>attr.
       Ok (emit1 blk ''arith.cmpi'' [lhs, rhs] [attr] result_ty m))"

definition create_cmpf ::
    "mlir_lib \<Rightarrow> block_ref \<Rightarrow> fp_predicate \<Rightarrow> mlir_value \<Rightarrow> mlir_value \<Rightarrow> mlir_ty \<Rightarrow> mlir_module \<Rightarrow> (mlir_value \<times> mlir_module) res" where
  "create_cmpf lib blk p lhs rhs result_ty m =
     bind_res (expect (ml_parse_attr lib (to_string (fp_predicate_code p)))) (\<lambda>attr.
       Ok (emit1 blk ''arith.cmpf'' [lhs, rhs] [attr] result_ty m))"

section \<open>Tensors, pointers and placeholders\<close>

definition splat :: "block_ref \<Rightarrow> mlir_value \<Rightarrow> mlir_ty \<Rightarrow> mlir_module \<Rightarrow> mlir_value \<times> mlir_module" where
  "splat blk src result_ty m = emit1 blk ''tt.splat'' [src] [] result_ty m"

definition broadcast :: "block_ref \<Rightarrow> mlir_value \<Rightarrow> mlir_ty \<Rightarrow> mlir_module \<Rightarrow> mlir_value \<times> mlir_module" where
  "broadcast blk src result_ty m = emit1 blk ''tt.broadcast'' [src] [] result_ty m"

definition int_to_ptr :: "block_ref \<Rightarrow> mlir_value \<Rightarrow> mlir_ty \<Rightarrow> mlir_module \<Rightarrow> mlir_value \<times> mlir_module" where
  "int_to_ptr blk src dest m = emit1 blk ''tt.int_to_ptr'' [src] [] dest m"

definition create_ub_poison :: "block_ref \<Rightarrow> mlir_ty \<Rightarrow> mlir_module \<Rightarrow> mlir_value \<times> mlir_module" where
  "create_ub_poison blk result_ty m = emit1 blk ''ub.poison'' [] [] result_ty m"

end
