(* ===== verification/Kernel_Build.thy ===== *)
theory Kernel_Build
  imports Arith_Build
begin

text \<open>
  The builders of the operations of the kernel library (\<open>rustc_mlir/src/triton/tensor.rs\<close> and \<open>program.rs\<close>), with the
  enumerations that they encode as 32-bit attributes. A builder of the source returns an operation that the caller
  appends in the next statement; here it appends the operation to a block. The builders of operations whose result type
  the library infers are \<open>emit_inferred\<close>.
\<close>

section \<open>Enumerations\<close>

datatype input_precision = TF32 | TF32x3 | IEEE | BF16x3 | BF16x6

fun input_precision_code :: "input_precision \<Rightarrow> int" where
  "input_precision_code TF32 = 0"
| "input_precision_code TF32x3 = 1"
| "input_precision_code IEEE = 2"
| "input_precision_code BF16x3 = 3"
| "input_precision_code BF16x6 = 4"

datatype scale_dot_elem_type = E4M3 | E5M2 | E2M3 | E3M2 | E2M1 | BF16 | FP16

fun scale_dot_elem_type_code :: "scale_dot_elem_type \<Rightarrow> int" where
  "scale_dot_elem_type_code E4M3 = 0"
| "scale_dot_elem_type_code E5M2 = 1"
| "scale_dot_elem_type_code E2M3 = 2"
| "scale_dot_elem_type_code E3M2 = 3"
| "scale_dot_elem_type_code E2M1 = 4"
| "scale_dot_elem_type_code BF16 = 5"
| "scale_dot_elem_type_code FP16 = 6"

datatype cache_modifier = Cache_None | Cache_Ca | Cache_Cg | Cache_Wb | Cache_Cs | Cache_Wt | Cache_Cv

fun cache_modifier_code :: "cache_modifier \<Rightarrow> int" where
  "cache_modifier_code Cache_None = 1"
| "cache_modifier_code Cache_Ca = 2"
| "cache_modifier_code Cache_Cg = 3"
| "cache_modifier_code Cache_Wb = 4"
| "cache_modifier_code Cache_Cs = 5"
| "cache_modifier_code Cache_Wt = 6"
| "cache_modifier_code Cache_Cv = 7"

datatype eviction_policy = Evict_Normal | Evict_First | Evict_Last

fun eviction_policy_code :: "eviction_policy \<Rightarrow> int" where
  "eviction_policy_code Evict_Normal = 1"
| "eviction_policy_code Evict_First = 2"
| "eviction_policy_code Evict_Last = 3"

datatype padding_option = PadZero | PadNan

fun padding_option_code :: "padding_option \<Rightarrow> int" where
  "padding_option_code PadZero = 1"
| "padding_option_code PadNan = 2"

datatype rounding_mode = RTZ | RTNE

fun rounding_mode_code :: "rounding_mode \<Rightarrow> int" where
  "rounding_mode_code RTZ = 0"
| "rounding_mode_code RTNE = 1"

datatype propagate_nan = Nan_None | Nan_All

fun propagate_nan_code :: "propagate_nan \<Rightarrow> int" where
  "propagate_nan_code Nan_None = 0"
| "propagate_nan_code Nan_All = 0xFFFF"

datatype rmw_op =
  Rmw_And | Rmw_Or | Rmw_Xor | Rmw_Add | Rmw_Fadd | Rmw_Max | Rmw_Min | Rmw_Umax | Rmw_Umin | Rmw_Xchg

fun rmw_op_code :: "rmw_op \<Rightarrow> int" where
  "rmw_op_code Rmw_And = 1"
| "rmw_op_code Rmw_Or = 2"
| "rmw_op_code Rmw_Xor = 3"
| "rmw_op_code Rmw_Add = 4"
| "rmw_op_code Rmw_Fadd = 5"
| "rmw_op_code Rmw_Max = 6"
| "rmw_op_code Rmw_Min = 7"
| "rmw_op_code Rmw_Umax = 8"
| "rmw_op_code Rmw_Umin = 9"
| "rmw_op_code Rmw_Xchg = 10"

datatype mem_semantic = Sem_Relaxed | Sem_Acquire | Sem_Release | Sem_AcquireRelease

fun mem_semantic_code :: "mem_semantic \<Rightarrow> int" where
  "mem_semantic_code Sem_Relaxed = 1"
| "mem_semantic_code Sem_Acquire = 2"
| "mem_semantic_code Sem_Release = 3"
| "mem_semantic_code Sem_AcquireRelease = 4"

datatype mem_sync_scope = Scope_Gpu | Scope_Cta | Scope_System

fun mem_sync_scope_code :: "mem_sync_scope \<Rightarrow> int" where
  "mem_sync_scope_code Scope_Gpu = 1"
| "mem_sync_scope_code Scope_Cta = 2"
| "mem_sync_scope_code Scope_System = 3"

datatype program_axis = Axis0 | Axis1 | Axis2

fun program_axis_code :: "program_axis \<Rightarrow> int" where
  "program_axis_code Axis0 = 0"
| "program_axis_code Axis1 = 1"
| "program_axis_code Axis2 = 2"

definition program_axis_from :: "i32 \<Rightarrow> program_axis res" where
  "program_axis_from v = (if v = 0 then Ok Axis0 else if v = 1 then Ok Axis1 else if v = 2 then Ok Axis2 else Panic)"

section \<open>Attributes and operands\<close>

definition attr_i32 :: "int \<Rightarrow> mlir_attr" where
  "attr_i32 n = Attr_Int n (MT_Integer 32)"

fun opt_values :: "'a option \<Rightarrow> 'a list" where
  "opt_values None = []"
| "opt_values (Some v) = [v]"

text \<open>The segment size of an optional operand.\<close>

definition seg_size :: "'a option \<Rightarrow> i32" where
  "seg_size x = (case x of Some _ \<Rightarrow> 1 | None \<Rightarrow> 0)"

text \<open>An operation without a result.\<close>

definition emit0 :: "block_ref \<Rightarrow> string \<Rightarrow> mlir_value list \<Rightarrow> mlir_attr list \<Rightarrow> mlir_module \<Rightarrow> mlir_module" where
  "emit0 blk nm operands attrs m = append_op blk nm operands attrs [] [] m"

text \<open>A subtraction of 32-bit integers and operations on 64-bit integers, which panic on overflow.\<close>

definition in_i64 :: "int \<Rightarrow> i64 option" where
  "in_i64 n = (if - (2 ^ 63) \<le> n \<and> n < 2 ^ 63 then Some (word_of_int n) else None)"

definition sub_i32 :: "i32 \<Rightarrow> i32 \<Rightarrow> i32 option" where
  "sub_i32 a b = (let n = sint a - sint b in if - (2 ^ 31) \<le> n \<and> n < 2 ^ 31 then Some (word_of_int n) else None)"

definition add_i64 :: "i64 \<Rightarrow> i64 \<Rightarrow> i64 option" where
  "add_i64 a b = in_i64 (sint a + sint b)"

definition mul_i64 :: "i64 \<Rightarrow> i64 \<Rightarrow> i64 option" where
  "mul_i64 a b = in_i64 (sint a * sint b)"

section \<open>Program identifiers and ranges\<close>

definition create_get_program_id :: "block_ref \<Rightarrow> program_axis \<Rightarrow> mlir_module \<Rightarrow> mlir_value \<times> mlir_module" where
  "create_get_program_id blk axis m = emit1 blk ''tt.get_program_id'' [] [attr_i32 (program_axis_code axis)] (MT_Integer 32) m"

definition create_get_num_programs :: "block_ref \<Rightarrow> program_axis \<Rightarrow> mlir_module \<Rightarrow> mlir_value \<times> mlir_module" where
  "create_get_num_programs blk axis m = emit1 blk ''tt.get_num_programs'' [] [attr_i32 (program_axis_code axis)] (MT_Integer 32) m"

definition make_range :: "block_ref \<Rightarrow> i32 \<Rightarrow> i32 \<Rightarrow> mlir_module \<Rightarrow> (mlir_value \<times> mlir_module) res" where
  "make_range blk start end' m =
     bind_res (expect (sub_i32 end' start)) (\<lambda>n.
       Ok (emit1 blk ''tt.make_range'' [] [attr_i32 (sint start), attr_i32 (sint end')]
             (tensor_type [scast n] (MT_Integer 32)) m))"

definition unsplat :: "block_ref \<Rightarrow> mlir_value \<Rightarrow> mlir_ty \<Rightarrow> mlir_module \<Rightarrow> mlir_value \<times> mlir_module" where
  "unsplat blk src result_ty m = emit1 blk ''tt.unsplat'' [src] [] result_ty m"

section \<open>Memory\<close>

definition add_ptr :: "block_ref \<Rightarrow> mlir_value \<Rightarrow> mlir_value \<Rightarrow> mlir_ty \<Rightarrow> mlir_module \<Rightarrow> mlir_value \<times> mlir_module" where
  "add_ptr blk ptr offset result_ty m = emit1 blk ''tt.addptr'' [ptr, offset] [] result_ty m"

definition load ::
    "block_ref \<Rightarrow> mlir_value \<Rightarrow> mlir_value option \<Rightarrow> mlir_value option \<Rightarrow> mlir_ty \<Rightarrow> cache_modifier \<Rightarrow> eviction_policy \<Rightarrow>
     bool \<Rightarrow> mlir_module \<Rightarrow> mlir_value \<times> mlir_module" where
  "load blk ptr mask' other result_ty cache evict is_volatile m =
     emit1 blk ''tt.load'' (ptr # opt_values mask' @ opt_values other)
       [Attr_I32Array [1, seg_size mask', seg_size other], attr_i32 (cache_modifier_code cache),
        attr_i32 (eviction_policy_code evict), Attr_Bool is_volatile] result_ty m"

definition store ::
    "block_ref \<Rightarrow> mlir_value \<Rightarrow> mlir_value \<Rightarrow> mlir_value option \<Rightarrow> cache_modifier \<Rightarrow> eviction_policy \<Rightarrow>
     mlir_module \<Rightarrow> mlir_module" where
  "store blk ptr v mask' cache evict m =
     emit0 blk ''tt.store'' (ptr # v # opt_values mask')
       [Attr_I32Array [1, 1, seg_size mask'], attr_i32 (cache_modifier_code cache), attr_i32 (eviction_policy_code evict)] m"

definition descriptor_gather ::
    "block_ref \<Rightarrow> mlir_value \<Rightarrow> mlir_value \<Rightarrow> mlir_value \<Rightarrow> mlir_ty \<Rightarrow> mlir_module \<Rightarrow> mlir_value \<times> mlir_module" where
  "descriptor_gather blk desc x_offsets y_offset result_ty m =
     emit1 blk ''tt.descriptor_gather'' [desc, x_offsets, y_offset] [] result_ty m"

definition descriptor_scatter ::
    "block_ref \<Rightarrow> mlir_value \<Rightarrow> mlir_value \<Rightarrow> mlir_value \<Rightarrow> mlir_value \<Rightarrow> mlir_module \<Rightarrow> mlir_module" where
  "descriptor_scatter blk desc x_offsets y_offset src m =
     emit0 blk ''tt.descriptor_scatter'' [desc, x_offsets, y_offset, src] [] m"

definition descriptor_load ::
    "block_ref \<Rightarrow> mlir_value \<Rightarrow> mlir_value list \<Rightarrow> mlir_ty \<Rightarrow> cache_modifier \<Rightarrow> eviction_policy \<Rightarrow> mlir_module \<Rightarrow>
     mlir_value \<times> mlir_module" where
  "descriptor_load blk desc indices result_ty cache evict m =
     emit1 blk ''tt.descriptor_load'' (desc # indices)
       [attr_i32 (cache_modifier_code cache), attr_i32 (eviction_policy_code evict)] result_ty m"

definition descriptor_store :: "block_ref \<Rightarrow> mlir_value \<Rightarrow> mlir_value \<Rightarrow> mlir_value list \<Rightarrow> mlir_module \<Rightarrow> mlir_module" where
  "descriptor_store blk desc src indices m = emit0 blk ''tt.descriptor_store'' (desc # src # indices) [] m"

definition advance :: "block_ref \<Rightarrow> mlir_value \<Rightarrow> mlir_value list \<Rightarrow> mlir_ty \<Rightarrow> mlir_module \<Rightarrow> mlir_value \<times> mlir_module" where
  "advance blk ptr offsets result_ty m = emit1 blk ''tt.advance'' (ptr # offsets) [] result_ty m"

definition make_tensor_ptr ::
    "block_ref \<Rightarrow> mlir_value \<Rightarrow> mlir_value list \<Rightarrow> mlir_value list \<Rightarrow> mlir_value list \<Rightarrow> i32 list \<Rightarrow> mlir_ty \<Rightarrow>
     mlir_module \<Rightarrow> (mlir_value \<times> mlir_module) res" where
  "make_tensor_ptr blk base shape strides offsets order result_ty m =
     bind_res (debug_assert (length shape = length strides)) (\<lambda>_.
     bind_res (debug_assert (length shape = length offsets)) (\<lambda>_.
       Ok (emit1 blk ''tt.make_tensor_ptr'' (base # shape @ strides @ offsets) [Attr_I32Array order] result_ty m)))"

definition make_tensor_descriptor ::
    "block_ref \<Rightarrow> mlir_value \<Rightarrow> mlir_value list \<Rightarrow> mlir_value list \<Rightarrow> padding_option \<Rightarrow> mlir_ty \<Rightarrow>
     mlir_module \<Rightarrow> (mlir_value \<times> mlir_module) res" where
  "make_tensor_descriptor blk base shape strides padding result_ty m =
     bind_res (debug_assert (length shape = length strides)) (\<lambda>_.
       Ok (emit1 blk ''tt.make_tensor_descriptor'' (base # shape @ strides)
             [attr_i32 (padding_option_code padding)] result_ty m))"

definition atomic_rmw ::
    "block_ref \<Rightarrow> mlir_value \<Rightarrow> mlir_value \<Rightarrow> mlir_value option \<Rightarrow> mlir_ty \<Rightarrow> rmw_op \<Rightarrow> mem_semantic \<Rightarrow> mem_sync_scope \<Rightarrow>
     mlir_module \<Rightarrow> mlir_value \<times> mlir_module" where
  "atomic_rmw blk ptr val mask' result_ty rmw sem scope m =
     emit1 blk ''tt.atomic_rmw'' (ptr # val # opt_values mask')
       [Attr_I32Array [1, 1, seg_size mask'], attr_i32 (rmw_op_code rmw), attr_i32 (mem_semantic_code sem),
        attr_i32 (mem_sync_scope_code scope)] result_ty m"

definition atomic_cas ::
    "block_ref \<Rightarrow> mlir_value \<Rightarrow> mlir_value \<Rightarrow> mlir_value \<Rightarrow> mlir_ty \<Rightarrow> mem_semantic \<Rightarrow> mem_sync_scope \<Rightarrow>
     mlir_module \<Rightarrow> mlir_value \<times> mlir_module" where
  "atomic_cas blk ptr cmp val result_ty sem scope m =
     emit1 blk ''tt.atomic_cas'' [ptr, cmp, val]
       [attr_i32 (mem_semantic_code sem), attr_i32 (mem_sync_scope_code scope)] result_ty m"

section \<open>Arithmetic\<close>

definition mulhiui :: "mlir_lib \<Rightarrow> block_ref \<Rightarrow> mlir_value \<Rightarrow> mlir_value \<Rightarrow> mlir_module \<Rightarrow> (mlir_value \<times> mlir_module) res" where
  "mulhiui lib blk x y m = emit_inferred lib blk ''tt.mulhiui'' [x, y] m"

definition precise_sqrt :: "mlir_lib \<Rightarrow> block_ref \<Rightarrow> mlir_value \<Rightarrow> mlir_module \<Rightarrow> (mlir_value \<times> mlir_module) res" where
  "precise_sqrt lib blk x m = emit_inferred lib blk ''tt.precise_sqrt'' [x] m"

definition precise_divf :: "mlir_lib \<Rightarrow> block_ref \<Rightarrow> mlir_value \<Rightarrow> mlir_value \<Rightarrow> mlir_module \<Rightarrow> (mlir_value \<times> mlir_module) res" where
  "precise_divf lib blk x y m = emit_inferred lib blk ''tt.precise_divf'' [x, y] m"

definition dot ::
    "block_ref \<Rightarrow> mlir_value \<Rightarrow> mlir_value \<Rightarrow> mlir_value \<Rightarrow> input_precision \<Rightarrow> i32 \<Rightarrow> mlir_module \<Rightarrow> mlir_value \<times> mlir_module" where
  "dot blk a b c precision max_num_imprecise_acc m =
     emit1 blk ''tt.dot'' [a, b, c]
       [attr_i32 (input_precision_code precision), attr_i32 (sint max_num_imprecise_acc)] (v_ty c) m"

definition dot_scaled ::
    "block_ref \<Rightarrow> mlir_value \<Rightarrow> mlir_value \<Rightarrow> mlir_value \<Rightarrow> mlir_value option \<Rightarrow> mlir_value option \<Rightarrow>
     scale_dot_elem_type \<Rightarrow> scale_dot_elem_type \<Rightarrow> bool \<Rightarrow> mlir_module \<Rightarrow> mlir_value \<times> mlir_module" where
  "dot_scaled blk a b c a_scale b_scale a_elem_type b_elem_type fast_math m =
     emit1 blk ''tt.dot_scaled'' ([a, b, c] @ opt_values a_scale @ opt_values b_scale)
       [Attr_I32Array [1, 1, 1, seg_size a_scale, seg_size b_scale], attr_i32 (scale_dot_elem_type_code a_elem_type),
        attr_i32 (scale_dot_elem_type_code b_elem_type), Attr_Bool fast_math] (v_ty c) m"

text \<open>\<open>maximumf\<close> and \<open>maxsi\<close> are not implemented; \<open>zeros_like\<close> only checks its argument.\<close>

definition maximumf :: "mlir_value \<Rightarrow> mlir_value \<Rightarrow> mlir_module \<Rightarrow> (mlir_value \<times> mlir_module) res" where
  "maximumf a b m = Panic"

definition maxsi :: "mlir_value \<Rightarrow> mlir_value \<Rightarrow> mlir_module \<Rightarrow> (mlir_value \<times> mlir_module) res" where
  "maxsi a b m = Panic"

definition zeros_like :: "mlir_value \<Rightarrow> mlir_module \<Rightarrow> (mlir_value \<times> mlir_module) res" where
  "zeros_like src m =
     (case as_tensor (v_ty src) of None \<Rightarrow> Err (CreateOperation RM_InvalidType) | Some _ \<Rightarrow> Panic)"

definition clampf ::
    "block_ref \<Rightarrow> mlir_value \<Rightarrow> mlir_value \<Rightarrow> mlir_value \<Rightarrow> propagate_nan \<Rightarrow> mlir_ty \<Rightarrow> mlir_module \<Rightarrow> mlir_value \<times> mlir_module" where
  "clampf blk x min' max' nan result_ty m =
     emit1 blk ''tt.clampf'' [x, min', max'] [attr_i32 (propagate_nan_code nan)] result_ty m"

definition fp_to_fp :: "block_ref \<Rightarrow> mlir_value \<Rightarrow> mlir_ty \<Rightarrow> rounding_mode option \<Rightarrow> mlir_module \<Rightarrow> mlir_value \<times> mlir_module" where
  "fp_to_fp blk src result_ty rounding m =
     emit1 blk ''tt.fp_to_fp'' [src] (map (\<lambda>r. attr_i32 (rounding_mode_code r)) (opt_values rounding)) result_ty m"

definition bitcast :: "block_ref \<Rightarrow> mlir_value \<Rightarrow> mlir_ty \<Rightarrow> mlir_module \<Rightarrow> mlir_value \<times> mlir_module" where
  "bitcast blk src result_ty m = emit1 blk ''tt.bitcast'' [src] [] result_ty m"

definition create_extsi :: "block_ref \<Rightarrow> mlir_value \<Rightarrow> mlir_ty \<Rightarrow> mlir_module \<Rightarrow> mlir_value \<times> mlir_module" where
  "create_extsi blk src result_ty m = emit1 blk ''arith.extsi'' [src] [] result_ty m"

definition extern_elementwise ::
    "block_ref \<Rightarrow> mlir_value list \<Rightarrow> rstr \<Rightarrow> rstr \<Rightarrow> rstr \<Rightarrow> bool \<Rightarrow> mlir_ty \<Rightarrow> mlir_module \<Rightarrow> mlir_value \<times> mlir_module" where
  "extern_elementwise blk srcs libname libpath symbol pure result_ty m =
     emit1 blk ''tt.extern_elementwise'' srcs
       [Attr_String libname, Attr_String libpath, Attr_String symbol, Attr_Bool pure] result_ty m"

definition elementwise_inline_asm ::
    "block_ref \<Rightarrow> rstr \<Rightarrow> rstr \<Rightarrow> bool \<Rightarrow> i32 \<Rightarrow> mlir_value list \<Rightarrow> mlir_ty list \<Rightarrow> mlir_module \<Rightarrow> mlir_value list \<times> mlir_module" where
  "elementwise_inline_asm blk asm_string constraints pure packed_element args result_types m =
     (let (vs, m1) = new_values result_types m in
      (vs, append_op blk ''tt.elementwise_inline_asm'' args
             [Attr_String asm_string, Attr_String constraints, Attr_Bool pure, attr_i32 (sint packed_element)] vs [] m1))"

section \<open>Shapes\<close>

definition split_op :: "block_ref \<Rightarrow> mlir_value \<Rightarrow> mlir_ty \<Rightarrow> mlir_module \<Rightarrow> mlir_value list \<times> mlir_module" where
  "split_op blk src out_type m =
     (let (vs, m1) = new_values [out_type, out_type] m in (vs, append_op blk ''tt.split'' [src] [] vs [] m1))"

definition join :: "block_ref \<Rightarrow> mlir_value \<Rightarrow> mlir_value \<Rightarrow> mlir_ty \<Rightarrow> mlir_module \<Rightarrow> mlir_value \<times> mlir_module" where
  "join blk lhs rhs result_ty m = emit1 blk ''tt.join'' [lhs, rhs] [] result_ty m"

definition reshape :: "block_ref \<Rightarrow> mlir_value \<Rightarrow> mlir_ty \<Rightarrow> bool \<Rightarrow> bool \<Rightarrow> mlir_module \<Rightarrow> mlir_value \<times> mlir_module" where
  "reshape blk src result_ty allow_reorder efficient_layout m =
     emit1 blk ''tt.reshape'' [src]
       ((if allow_reorder then [Attr_Unit] else []) @ (if efficient_layout then [Attr_Unit] else [])) result_ty m"

definition expand_dims :: "block_ref \<Rightarrow> mlir_value \<Rightarrow> i32 \<Rightarrow> mlir_ty \<Rightarrow> mlir_module \<Rightarrow> mlir_value \<times> mlir_module" where
  "expand_dims blk src axis result_ty m = emit1 blk ''tt.expand_dims'' [src] [attr_i32 (sint axis)] result_ty m"

definition trans_op :: "block_ref \<Rightarrow> mlir_value \<Rightarrow> i32 list \<Rightarrow> mlir_ty \<Rightarrow> mlir_module \<Rightarrow> mlir_value \<times> mlir_module" where
  "trans_op blk src order result_ty m = emit1 blk ''tt.trans'' [src] [Attr_I32Array order] result_ty m"

definition gather ::
    "block_ref \<Rightarrow> mlir_value \<Rightarrow> mlir_value \<Rightarrow> i32 \<Rightarrow> bool \<Rightarrow> mlir_ty \<Rightarrow> mlir_module \<Rightarrow> mlir_value \<times> mlir_module" where
  "gather blk src indices axis efficient_layout result_ty m =
     emit1 blk ''tt.gather'' [src, indices] (attr_i32 (sint axis) # (if efficient_layout then [Attr_Unit] else [])) result_ty m"

definition histogram :: "block_ref \<Rightarrow> mlir_value \<Rightarrow> mlir_value option \<Rightarrow> mlir_ty \<Rightarrow> mlir_module \<Rightarrow> mlir_value \<times> mlir_module" where
  "histogram blk src mask' result_ty m =
     emit1 blk ''tt.histogram'' (src # opt_values mask') [Attr_I32Array [1, seg_size mask']] result_ty m"

definition ptr_to_int :: "block_ref \<Rightarrow> mlir_value \<Rightarrow> mlir_ty \<Rightarrow> mlir_module \<Rightarrow> mlir_value \<times> mlir_module" where
  "ptr_to_int blk src dest m = emit1 blk ''tt.ptr_to_int'' [src] [] dest m"

definition return_op :: "block_ref \<Rightarrow> mlir_value list \<Rightarrow> mlir_module \<Rightarrow> mlir_module" where
  "return_op blk srcs m = emit0 blk ''tt.return'' srcs [] m"

section \<open>Operations with regions\<close>

definition reduce_return :: "block_ref \<Rightarrow> mlir_value list \<Rightarrow> mlir_module \<Rightarrow> mlir_module" where
  "reduce_return blk results m = emit0 blk ''tt.reduce.return'' results [] m"

definition scan_return :: "block_ref \<Rightarrow> mlir_value list \<Rightarrow> mlir_module \<Rightarrow> mlir_module" where
  "scan_return blk results m = emit0 blk ''tt.scan.return'' results [] m"

definition map_elementwise_return :: "block_ref \<Rightarrow> mlir_value list \<Rightarrow> mlir_module \<Rightarrow> mlir_module" where
  "map_elementwise_return blk results m = emit0 blk ''tt.map_elementwise.return'' results [] m"

definition reduce ::
    "block_ref \<Rightarrow> mlir_value list \<Rightarrow> mlir_ty list \<Rightarrow> i32 \<Rightarrow> block_ref \<Rightarrow> mlir_module \<Rightarrow> mlir_value list \<times> mlir_module" where
  "reduce blk srcs result_types axis combine_op m =
     (let (vs, m1) = new_values result_types m in
      (vs, append_op blk ''tt.reduce'' srcs [attr_i32 (sint axis)] vs [[combine_op]] m1))"

definition scan ::
    "block_ref \<Rightarrow> mlir_value list \<Rightarrow> mlir_ty list \<Rightarrow> i32 \<Rightarrow> bool \<Rightarrow> block_ref \<Rightarrow> mlir_module \<Rightarrow> mlir_value list \<times> mlir_module" where
  "scan blk srcs result_types axis reverse combine_op m =
     (let (vs, m1) = new_values result_types m in
      (vs, append_op blk ''tt.scan'' srcs [attr_i32 (sint axis), Attr_Bool reverse] vs [[combine_op]] m1))"

definition map_elementwise ::
    "block_ref \<Rightarrow> mlir_value list \<Rightarrow> mlir_ty list \<Rightarrow> i32 \<Rightarrow> block_ref \<Rightarrow> mlir_module \<Rightarrow> mlir_value list \<times> mlir_module" where
  "map_elementwise blk srcs result_types pack scalar_op m =
     (let (vs, m1) = new_values result_types m in
      (vs, append_op blk ''tt.map_elementwise'' srcs [attr_i32 (sint pack)] vs [[scalar_op]] m1))"

section \<open>Debugging\<close>

definition print_op :: "block_ref \<Rightarrow> rstr \<Rightarrow> bool \<Rightarrow> mlir_value list \<Rightarrow> i32 list \<Rightarrow> mlir_module \<Rightarrow> mlir_module" where
  "print_op blk prefix' hex args is_signed m =
     emit0 blk ''tt.print'' args [Attr_String prefix', Attr_Bool hex, Attr_I32Array is_signed] m"

definition assert_op :: "block_ref \<Rightarrow> mlir_value \<Rightarrow> rstr \<Rightarrow> mlir_module \<Rightarrow> mlir_module" where
  "assert_op blk condition message m = emit0 blk ''tt.assert'' [condition] [Attr_String message] m"

end
