(* ===== verification/Triton_Binops.thy ===== *)
theory Triton_Binops
  imports Arith_Build
begin

text \<open>
  Emission of operations on two values (\<open>triton/ops/binaryops.rs\<close>, and \<open>like_tensor\<close> of \<open>triton/mod.rs\<close>).
  Scalars are spread to the shape of a tensor operand, tensors of different shapes are broadcast to a common one.
\<close>

type_synonym emitted = "(mlir_value \<times> mlir_module) res"

section \<open>Shapes\<close>

definition like_tensor :: "block_ref \<Rightarrow> mlir_value \<Rightarrow> mlir_value \<Rightarrow> mlir_module \<Rightarrow> emitted" where
  "like_tensor blk tensor v m =
     bind_res (ranked (v_ty tensor)) (\<lambda>t. Ok (splat blk v (tensor_type_like t (v_ty v)) m))"

definition broadcast_dim :: "i64 \<Rightarrow> i64 \<Rightarrow> i64" where
  "broadcast_dim l r =
     (if l = r \<or> sint r < 0 then l else if sint l < 0 then r else if sint l \<le> sint r then r else l)"

definition broadcast_ok :: "i64 list \<Rightarrow> i64 list \<Rightarrow> bool" where
  "broadcast_ok dims target \<longleftrightarrow>
     list_all (\<lambda>(s, t). s = 1 \<or> s = t \<or> sint s < 0 \<or> sint t < 0) (zip dims target)"

definition do_broadcast ::
    "block_ref \<Rightarrow> i64 list \<Rightarrow> mlir_ty \<Rightarrow> mlir_value \<Rightarrow> i64 list \<Rightarrow> mlir_module \<Rightarrow> mlir_value \<times> mlir_module" where
  "do_broadcast blk bd result_ty v dims m = (if dims = bd then (v, m) else broadcast blk v result_ty m)"

definition maybe_broadcast_pair ::
    "block_ref \<Rightarrow> mlir_value \<Rightarrow> mlir_value \<Rightarrow> mlir_module \<Rightarrow> (mlir_value \<times> mlir_value) \<times> mlir_module" where
  "maybe_broadcast_pair blk lhs rhs m =
     (case (as_tensor (v_ty lhs), as_tensor (v_ty rhs)) of
        (Some (ld, elem), Some (rd, _)) \<Rightarrow>
          if ld = rd \<or> length ld \<noteq> length rd then ((lhs, rhs), m)
          else
            let bd = map2 broadcast_dim ld rd in
            if \<not> broadcast_ok ld bd \<or> \<not> broadcast_ok rd bd then ((lhs, rhs), m)
            else
              let result_ty = tensor_type bd elem;
                  (lhs', m1) = do_broadcast blk bd result_ty lhs ld m;
                  (rhs', m2) = do_broadcast blk bd result_ty rhs rd m1
              in ((lhs', rhs'), m2)
      | _ \<Rightarrow> ((lhs, rhs), m))"

text \<open>The first match of the binary operations: a scalar is spread to the shape of the other operand; what happens
  to two tensors is an argument.\<close>

definition match_shapes ::
    "(block_ref \<Rightarrow> mlir_value \<Rightarrow> mlir_value \<Rightarrow> mlir_module \<Rightarrow> (mlir_value \<times> mlir_value) \<times> mlir_module) \<Rightarrow>
     block_ref \<Rightarrow> mlir_value \<Rightarrow> mlir_value \<Rightarrow> mlir_module \<Rightarrow> ((mlir_value \<times> mlir_value) \<times> mlir_module) res" where
  "match_shapes both blk lhs rhs m =
     (case (is_tensor (v_ty lhs), is_tensor (v_ty rhs)) of
        (True, True) \<Rightarrow> Ok (both blk lhs rhs m)
      | (True, False) \<Rightarrow> bind_res (like_tensor blk lhs rhs m) (\<lambda>(r, m'). Ok ((lhs, r), m'))
      | (False, True) \<Rightarrow> bind_res (like_tensor blk rhs lhs m) (\<lambda>(l, m'). Ok ((l, rhs), m'))
      | (False, False) \<Rightarrow> Ok ((lhs, rhs), m))"

definition no_broadcast ::
    "block_ref \<Rightarrow> mlir_value \<Rightarrow> mlir_value \<Rightarrow> mlir_module \<Rightarrow> (mlir_value \<times> mlir_value) \<times> mlir_module" where
  "no_broadcast blk lhs rhs m = ((lhs, rhs), m)"

section \<open>Arithmetic\<close>

text \<open>
  The functions for addition, subtraction, multiplication and division are one function of their builders: for
  integer scalars, for integer tensors and for floats.
\<close>

type_synonym builder = "block_ref \<Rightarrow> mlir_value \<Rightarrow> mlir_value \<Rightarrow> mlir_module \<Rightarrow> emitted"

definition codegen_arith :: "builder \<Rightarrow> builder \<Rightarrow> builder \<Rightarrow> builder" where
  "codegen_arith int_op int_tensor_op float_op blk lhs rhs m =
     (if \<not> is_tensor (v_ty lhs) \<and> \<not> is_tensor (v_ty rhs) then
        (if is_integer (v_ty lhs) then int_op blk lhs rhs m else float_op blk lhs rhs m)
      else
        bind_res (match_shapes maybe_broadcast_pair blk lhs rhs m) (\<lambda>((lhs', rhs'), m').
        bind_res (ranked (v_ty lhs')) (\<lambda>(_, lhs_elem).
        bind_res (ranked (v_ty rhs')) (\<lambda>(_, rhs_elem).
          if is_integer lhs_elem \<and> is_integer rhs_elem then int_tensor_op blk lhs' rhs' m'
          else float_op blk lhs' rhs' m'))))"

definition codegen_mul :: "mlir_lib \<Rightarrow> builder" where
  "codegen_mul lib = codegen_arith (create_muli lib) (create_muli_tensor lib) (create_mulf lib)"

definition codegen_sub :: "mlir_lib \<Rightarrow> builder" where
  "codegen_sub lib = codegen_arith (create_subi lib) (create_subi lib) (create_subf lib)"

definition codegen_add :: "mlir_lib \<Rightarrow> builder" where
  "codegen_add lib = codegen_arith (create_addi lib) (create_addi lib) (create_addf lib)"

definition codegen_div :: "mlir_lib \<Rightarrow> builder" where
  "codegen_div lib = codegen_arith (create_divsi lib) (create_divsi lib) (create_divf lib)"

text \<open>Operations that are only there for integer scalars.\<close>

definition codegen_scalar_int :: "builder \<Rightarrow> builder" where
  "codegen_scalar_int int_op blk lhs rhs m =
     (if is_tensor (v_ty lhs) \<or> is_tensor (v_ty rhs) then Panic
      else if is_integer (v_ty lhs) then int_op blk lhs rhs m
      else Panic)"

definition codegen_rem :: "mlir_lib \<Rightarrow> builder" where
  "codegen_rem lib = codegen_scalar_int (create_remsi lib)"

definition codegen_shl :: "mlir_lib \<Rightarrow> builder" where
  "codegen_shl lib = codegen_scalar_int (create_shli lib)"

definition codegen_shr :: "mlir_lib \<Rightarrow> bool \<Rightarrow> builder" where
  "codegen_shr lib is_signed = codegen_scalar_int (if is_signed then create_shrsi lib else create_shrui lib)"

definition codegen_xor :: "mlir_lib \<Rightarrow> builder" where
  "codegen_xor lib = codegen_scalar_int (create_xori lib)"

text \<open>Conjunction and disjunction, which spread scalars but do not broadcast.\<close>

definition elem_ty :: "mlir_ty \<Rightarrow> mlir_ty" where
  "elem_ty t = (case as_tensor t of Some (_, e) \<Rightarrow> e | None \<Rightarrow> t)"

definition codegen_bitwise :: "builder \<Rightarrow> builder" where
  "codegen_bitwise int_op blk lhs rhs m =
     bind_res (match_shapes no_broadcast blk lhs rhs m) (\<lambda>((lhs', rhs'), m').
       if is_integer (elem_ty (v_ty lhs')) then int_op blk lhs' rhs' m' else Panic)"

definition codegen_and :: "mlir_lib \<Rightarrow> builder" where
  "codegen_and lib = codegen_bitwise (create_andi lib)"

definition codegen_or :: "mlir_lib \<Rightarrow> builder" where
  "codegen_or lib = codegen_bitwise (create_ori lib)"

section \<open>Comparisons\<close>

definition codegen_cmpi :: "mlir_lib \<Rightarrow> predicate \<Rightarrow> builder" where
  "codegen_cmpi lib p blk lhs rhs m =
     (if \<not> is_tensor (v_ty lhs) \<and> \<not> is_tensor (v_ty rhs) then create_cmpi lib blk p lhs rhs (MT_Integer 1) m
      else
        bind_res (match_shapes no_broadcast blk lhs rhs m) (\<lambda>((lhs', rhs'), m').
        bind_res (ranked (v_ty lhs')) (\<lambda>t.
          create_cmpi lib blk p lhs' rhs' (tensor_type_like t (MT_Integer 1)) m')))"

definition codegen_cmpf :: "mlir_lib \<Rightarrow> fp_predicate \<Rightarrow> builder" where
  "codegen_cmpf lib p blk lhs rhs m =
     (if \<not> is_tensor (v_ty lhs) \<and> \<not> is_tensor (v_ty rhs) then Panic
      else
        bind_res (match_shapes no_broadcast blk lhs rhs m) (\<lambda>((lhs', rhs'), m').
        bind_res (ranked (v_ty lhs')) (\<lambda>t.
          create_cmpf lib blk p lhs' rhs' (tensor_type_like t (MT_Integer 1)) m')))"

definition codegen_cmp :: "mlir_lib \<Rightarrow> fp_predicate \<Rightarrow> predicate \<Rightarrow> builder" where
  "codegen_cmp lib fp_pred int_pred blk lhs rhs m =
     (if is_float (elem_ty (v_ty lhs)) then codegen_cmpf lib fp_pred blk lhs rhs m
      else codegen_cmpi lib int_pred blk lhs rhs m)"

section \<open>Negation\<close>

text \<open>\<open>0 - x\<close> with a zero of the element type.\<close>

definition codegen_neg :: "mlir_lib \<Rightarrow> block_ref \<Rightarrow> mlir_value \<Rightarrow> mlir_module \<Rightarrow> emitted" where
  "codegen_neg lib blk x m =
     (let t = elem_ty (v_ty x);
          (zero, m') = arith_constant blk (if is_integer t then Attr_Int 0 t else Attr_Float 0 t) m
      in codegen_sub lib blk zero x m')"

section \<open>Binary operations of MIR\<close>

text \<open>The dispatch of \<open>codegen_binary_op\<close> on the operands' values; \<open>is_signed\<close> tells whether the type of the left operand is
  a signed integer type.\<close>

definition codegen_bin_op :: "mlir_lib \<Rightarrow> bin_op \<Rightarrow> bool \<Rightarrow> builder" where
  "codegen_bin_op lib bop is_signed =
     (case bop of
        BinOp_Add \<Rightarrow> codegen_add lib
      | BinOp_AddUnchecked \<Rightarrow> codegen_add lib
      | BinOp_Sub \<Rightarrow> codegen_sub lib
      | BinOp_SubUnchecked \<Rightarrow> codegen_sub lib
      | BinOp_Mul \<Rightarrow> codegen_mul lib
      | BinOp_MulUnchecked \<Rightarrow> codegen_mul lib
      | BinOp_Div \<Rightarrow> codegen_div lib
      | BinOp_Rem \<Rightarrow> codegen_rem lib
      | BinOp_BitXor \<Rightarrow> codegen_xor lib
      | BinOp_BitAnd \<Rightarrow> codegen_and lib
      | BinOp_BitOr \<Rightarrow> codegen_or lib
      | BinOp_Shl \<Rightarrow> codegen_shl lib
      | BinOp_ShlUnchecked \<Rightarrow> codegen_shl lib
      | BinOp_Shr \<Rightarrow> codegen_shr lib is_signed
      | BinOp_ShrUnchecked \<Rightarrow> codegen_shr lib is_signed
      | BinOp_Eq \<Rightarrow> codegen_cmpi lib P_EQ
      | BinOp_Lt \<Rightarrow> codegen_cmpi lib P_SLT
      | BinOp_Le \<Rightarrow> codegen_cmpi lib P_SLE
      | BinOp_Ne \<Rightarrow> codegen_cmpi lib P_NE
      | BinOp_Ge \<Rightarrow> codegen_cmpi lib P_SGE
      | BinOp_Gt \<Rightarrow> codegen_cmpi lib P_SGT
      | _ \<Rightarrow> (\<lambda>_ _ _ _. Panic))"

end
