(* ===== verification/MIR_Place_Ty.thy ===== *)
theory MIR_Place_Ty
  imports Type_Mapper
begin

text \<open>
  Types of places, operands and constants (\<open>PlaceTy\<close>, \<open>Place::ty\<close> and \<open>Operand::ty\<close> of
  \<open>rustc_middle/src/mir/statement.rs\<close>, \<open>Const::ty\<close> of \<open>mir/consts.rs\<close>, \<open>builtin_deref\<close> and \<open>builtin_index\<close> of
  \<open>ty/sty.rs\<close>). A projection that does not fit the type is a panic.
\<close>

record place_ty =
  pt_ty :: ty
  pt_variant_index :: "variant_idx option"

definition from_ty :: "ty \<Rightarrow> place_ty" where
  "from_ty t = \<lparr>pt_ty = t, pt_variant_index = None\<rparr>"

definition type_at :: "generic_arg list \<Rightarrow> nat \<Rightarrow> ty res" where
  "type_at args i = bind_res (expect (vec_index args i)) expect_ty"

definition boxed_ty :: "codegen_ctx \<Rightarrow> ty \<Rightarrow> ty option res" where
  "boxed_ty cc t =
     (case t of
        Ty_Adt def args \<Rightarrow>
          if cc_is_box cc (adt_did def) then bind_res (type_at args 0) (\<lambda>t'. Ok (Some t')) else Ok None
      | _ \<Rightarrow> Ok None)"

definition builtin_deref :: "codegen_ctx \<Rightarrow> bool \<Rightarrow> ty \<Rightarrow> ty option res" where
  "builtin_deref cc explicit t =
     bind_res (boxed_ty cc t) (\<lambda>b.
       case b of
         Some boxed \<Rightarrow> Ok (Some boxed)
       | None \<Rightarrow>
           Ok (case t of
                 Ty_Ref t' _ \<Rightarrow> Some t'
               | Ty_RawPtr t' _ \<Rightarrow> if explicit then Some t' else None
               | _ \<Rightarrow> None))"

fun builtin_index :: "ty \<Rightarrow> ty option" where
  "builtin_index (Ty_Array t _) = Some t"
| "builtin_index (Ty_Slice t) = Some t"
| "builtin_index _ = None"

text \<open>The length of an array type as a constant of type \<open>usize\<close>, and its value.\<close>

definition new_array :: "codegen_ctx \<Rightarrow> ty \<Rightarrow> u64 \<Rightarrow> ty" where
  "new_array cc inner n =
     Ty_Array inner (Const_Value (Ty_Uint Usize) (ValTree_Leaf \<lparr>si_data = ucast n, si_size = cc_pointer_size cc\<rparr>))"

definition try_to_target_usize :: "codegen_ctx \<Rightarrow> ty_const \<Rightarrow> u64 option res" where
  "try_to_target_usize cc c =
     (case c of
        Const_Value t v \<Rightarrow>
          if t \<noteq> Ty_Uint Usize then Ok None
          else (case value_try_to_leaf v of
              None \<Rightarrow> Ok None
            | Some s \<Rightarrow> bind_res (expect (to_bits s (cc_pointer_size cc))) (\<lambda>b. Ok (Some (ucast b))))
      | _ \<Rightarrow> Ok None)"

definition subslice_ty :: "codegen_ctx \<Rightarrow> u64 \<Rightarrow> u64 \<Rightarrow> bool \<Rightarrow> ty \<Rightarrow> ty res" where
  "subslice_ty cc start to_idx from_end t =
     (case t of
        Ty_Slice _ \<Rightarrow> Ok t
      | Ty_Array inner len \<Rightarrow>
          if \<not> from_end then bind_res (expect (checked_sub to_idx start)) (\<lambda>n. Ok (new_array cc inner n))
          else
            bind_res (try_to_target_usize cc len) (\<lambda>s.
            bind_res (expect s) (\<lambda>n.
            bind_res (expect (checked_sub n start)) (\<lambda>n1.
            bind_res (expect (checked_sub n1 to_idx)) (\<lambda>n2. Ok (new_array cc inner n2)))))
      | _ \<Rightarrow> Panic)"

fun is_field :: "projection_elem \<Rightarrow> bool" where
  "is_field (Proj_Field _ _) = True"
| "is_field _ = False"

definition projection_ty :: "codegen_ctx \<Rightarrow> projection_elem \<Rightarrow> place_ty \<Rightarrow> place_ty res" where
  "projection_ty cc e pt =
     (if pt_variant_index pt \<noteq> None \<and> \<not> is_field e then Panic
      else (case e of
          Proj_Deref \<Rightarrow>
            bind_res (builtin_deref cc True (pt_ty pt)) (\<lambda>d. bind_res (expect d) (\<lambda>t. Ok (from_ty t)))
        | Proj_Index _ \<Rightarrow> bind_res (expect (builtin_index (pt_ty pt))) (\<lambda>t. Ok (from_ty t))
        | Proj_ConstantIndex _ _ _ \<Rightarrow> bind_res (expect (builtin_index (pt_ty pt))) (\<lambda>t. Ok (from_ty t))
        | Proj_Subslice start to_idx from_end \<Rightarrow>
            bind_res (subslice_ty cc start to_idx from_end (pt_ty pt)) (\<lambda>t. Ok (from_ty t))
        | Proj_Downcast _ index \<Rightarrow> Ok \<lparr>pt_ty = pt_ty pt, pt_variant_index = Some index\<rparr>
        | Proj_Field _ fty \<Rightarrow> Ok (from_ty fty)
        | Proj_OpaqueCast t \<Rightarrow> Ok (from_ty t)
        | Proj_UnwrapUnsafeBinder t \<Rightarrow> Ok (from_ty t)))"

fun multi_projection_ty :: "codegen_ctx \<Rightarrow> projection_elem list \<Rightarrow> place_ty \<Rightarrow> place_ty res" where
  "multi_projection_ty cc [] pt = Ok pt"
| "multi_projection_ty cc (e # es) pt = bind_res (projection_ty cc e pt) (multi_projection_ty cc es)"

definition ty_of_place :: "codegen_ctx \<Rightarrow> body \<Rightarrow> place \<Rightarrow> ty res" where
  "ty_of_place cc mir p =
     bind_res (expect (vec_index (local_decls mir) (p_local p))) (\<lambda>t.
     bind_res (multi_projection_ty cc (p_projection p) (from_ty t)) (\<lambda>pt. Ok (pt_ty pt)))"

fun mir_const_ty :: "mir_const \<Rightarrow> ty" where
  "mir_const_ty (MC_Ty _ (Const_Value t _)) = t"
| "mir_const_ty (MC_Ty t _) = t"
| "mir_const_ty (MC_Val _ t) = t"
| "mir_const_ty (MC_Unevaluated _ _ _ t) = t"

fun operand_ty :: "codegen_ctx \<Rightarrow> body \<Rightarrow> operand \<Rightarrow> ty res" where
  "operand_ty cc mir (Op_Copy p) = ty_of_place cc mir p"
| "operand_ty cc mir (Op_Move p) = ty_of_place cc mir p"
| "operand_ty cc mir (Op_Constant c) = Ok (mir_const_ty c)"
| "operand_ty cc mir (Op_RuntimeChecks _) = Ok Ty_Bool"

lemma ty_of_bare_place: "l < length (local_decls mir) \<Longrightarrow> ty_of_place cc mir (local_place l) = Ok (local_decls mir ! l)"
  by (simp add: ty_of_place_def from_ty_def)

end
