(* ===== verification/Triton_Operand.thy ===== *)
theory Triton_Operand
  imports Triton_Binops MIR_Place_Ty Triton_Fold Triton_Phi
begin

text \<open>
  Emission of operands, constants and casts (\<open>codegen_operand\<close>, \<open>codegen_copy\<close>, \<open>codegen_constant_cast\<close>,
  \<open>codegen_cast\<close> and the functions they call in \<open>triton/mod.rs\<close>), and the state of the code generator. A local is
  kept in one of several tables: values of MLIR, options (whose presence is known at compile time), tuples, and
  arrays, pointers and slices of constants.
\<close>

section \<open>State\<close>

record codegen_state =
  ssa_values :: "local \<rightharpoonup> mlir_value"
  option_table :: "local \<rightharpoonup> mlir_value option"
  tuple_fields :: "local \<rightharpoonup> mlir_value list"
  const_arrays :: "local \<rightharpoonup> i64 list"
  ptr_to_const_array :: "local \<rightharpoonup> local"
  slice_shape :: "local \<rightharpoonup> i64 list"
  dyn_arrays :: "local \<rightharpoonup> mlir_value list"
  ptr_to_dyn_array :: "local \<rightharpoonup> local"
  slice_dyn_values :: "local \<rightharpoonup> mlir_value list"
  desc_block_shapes :: "local \<rightharpoonup> i64 list"
  loop_header_bb :: "basic_block option"
  loop_iter_carry_locals :: "local list"
  loop_body_bbs :: "basic_block set"
  loop_back_edge_bb :: "basic_block option"
  skip_bbs :: "basic_block set"
  const_disc_locals :: "local \<rightharpoonup> u64"
  phi_join_locals :: "basic_block \<rightharpoonup> local list"
  phi_block_args :: "basic_block \<times> local \<rightharpoonup> mlir_value"
  pre_join_ssa_values :: "basic_block \<times> local \<rightharpoonup> mlir_value"
  branch_snapshots :: "basic_block \<rightharpoonup> (local \<rightharpoonup> mlir_value)"

definition codegen_state_new :: codegen_state where
  "codegen_state_new =
     \<lparr>ssa_values = Map.empty, option_table = Map.empty, tuple_fields = Map.empty, const_arrays = Map.empty,
      ptr_to_const_array = Map.empty, slice_shape = Map.empty, dyn_arrays = Map.empty, ptr_to_dyn_array = Map.empty,
      slice_dyn_values = Map.empty, desc_block_shapes = Map.empty, loop_header_bb = None,
      loop_iter_carry_locals = [], loop_body_bbs = {}, loop_back_edge_bb = None, skip_bbs = {},
      const_disc_locals = Map.empty, phi_join_locals = Map.empty, phi_block_args = Map.empty,
      pre_join_ssa_values = Map.empty, branch_snapshots = Map.empty\<rparr>"

section \<open>Places\<close>

fun is_option_projection :: "projection_elem list \<Rightarrow> bool" where
  "is_option_projection [Proj_Downcast _ _, Proj_Field _ _] = True"
| "is_option_projection [Proj_Field _ _] = True"
| "is_option_projection _ = False"

fun single_field :: "projection_elem list \<Rightarrow> field_idx option" where
  "single_field [Proj_Field i _] = Some i"
| "single_field _ = None"

definition codegen_copy :: "codegen_state \<Rightarrow> place \<Rightarrow> mlir_value res" where
  "codegen_copy st p =
     (case (is_option_projection (p_projection p), option_table st (p_local p)) of
        (True, Some opt_val) \<Rightarrow> expect opt_val
      | (False, Some _) \<Rightarrow> Panic
      | (_, None) \<Rightarrow>
          (case (single_field (p_projection p), tuple_fields st (p_local p)) of
             (Some idx, Some vs) \<Rightarrow> expect (vec_index vs idx)
           | _ \<Rightarrow> expect (ssa_values st (p_local p))))"

section \<open>Constants\<close>

definition map_err :: "mlir_error \<Rightarrow> 'a res \<Rightarrow> 'a res" where
  "map_err e r = (case r of Err _ \<Rightarrow> Err e | _ \<Rightarrow> r)"

lemma map_err_Ok [simp]: "map_err e r = Ok x \<longleftrightarrow> r = Ok x"
  by (cases r) (auto simp: map_err_def)

definition codegen_scalar :: "mlir_lib \<Rightarrow> block_ref \<Rightarrow> ty \<Rightarrow> scalar \<Rightarrow> mlir_module \<Rightarrow> emitted" where
  "codegen_scalar lib blk t s m =
     (case s of
        Scalar_Int scalar_int \<Rightarrow>
          bind_res (create_scalar_attr lib t scalar_int) (\<lambda>(attr, ty). Ok (create_constant blk attr ty m))
      | Scalar_Ptr _ _ \<Rightarrow> Panic)"

definition codegen_param_value :: "mlir_lib \<Rightarrow> block_ref \<Rightarrow> ty \<Rightarrow> val_tree \<Rightarrow> mlir_module \<Rightarrow> emitted" where
  "codegen_param_value lib blk t v m =
     (case value_try_to_leaf v of
        Some s \<Rightarrow> codegen_scalar lib blk t (Scalar_Int s) m
      | None \<Rightarrow> Panic)"

definition codegen_param_const :: "codegen_ctx \<Rightarrow> block_ref \<Rightarrow> nat \<Rightarrow> mlir_module \<Rightarrow> emitted" where
  "codegen_param_const cc blk index m =
     bind_res (expect (const_at (inst_args (cc_inst cc)) index)) (\<lambda>c.
     bind_res (expect (to_value c)) (\<lambda>(t, v). codegen_param_value (cc_lib cc) blk t v m))"

definition enum_scalar :: "scalar_int \<Rightarrow> mlir_int res" where
  "enum_scalar s =
     (if si_size s = 1 then bind_res (to_uint 1 s) (\<lambda>w. Ok (Int_I8 w))
      else if si_size s = 2 then bind_res (to_uint 2 s) (\<lambda>w. Ok (Int_I16 w))
      else if si_size s = 4 then bind_res (to_uint 4 s) (\<lambda>w. Ok (Int_I32 w))
      else if si_size s = 8 then bind_res (to_uint 8 s) (\<lambda>w. Ok (Int_I64 w))
      else Panic)"

text \<open>The bits of a float constant as a 64-bit float.\<close>

definition float_const :: "codegen_ctx \<Rightarrow> float_ty \<Rightarrow> scalar_int \<Rightarrow> u64 res" where
  "float_const cc f s =
     (case f of
        F32 \<Rightarrow> bind_res (to_uint 4 s) (\<lambda>w. Ok (cc_f32_to_f64 cc w))
      | F64 \<Rightarrow> to_uint 8 s
      | _ \<Rightarrow> Panic)"

definition codegen_scalar_const_value :: "codegen_ctx \<Rightarrow> block_ref \<Rightarrow> ty \<Rightarrow> scalar \<Rightarrow> mlir_module \<Rightarrow> emitted" where
  "codegen_scalar_const_value cc blk t s m =
     (case s of
        Scalar_Ptr _ _ \<Rightarrow> Panic
      | Scalar_Int scalar_int \<Rightarrow>
          (case t of
             Ty_Uint _ \<Rightarrow>
               bind_res (map_err InvalidScalar (from_scalar t scalar_int)) (\<lambda>v. create_int_constant (cc_lib cc) blk v m)
           | Ty_Int _ \<Rightarrow>
               bind_res (map_err InvalidScalar (from_scalar t scalar_int)) (\<lambda>v. create_int_constant (cc_lib cc) blk v m)
           | Ty_Adt def args \<Rightarrow>
               bind_res
                 (if adt_is_enum def then enum_scalar scalar_int
                  else bind_res (expect (cc_field_ty cc def args)) (\<lambda>inner_ty.
                         map_err InvalidScalar (from_scalar inner_ty scalar_int)))
                 (\<lambda>v. create_int_constant (cc_lib cc) blk v m)
           | Ty_Bool \<Rightarrow>
               bind_res (to_uint 1 scalar_int) (\<lambda>w. Ok (arith_constant blk (Attr_Int (uint (w :: u8)) (MT_Integer 1)) m))
           | Ty_Float f \<Rightarrow>
               bind_res (float_const cc f scalar_int) (\<lambda>bits.
               bind_res (map_type cc t) (\<lambda>mt. Ok (arith_constant blk (Attr_Float bits mt) m)))
           | _ \<Rightarrow> Panic))"

text \<open>Constants without a scalar are a placeholder of 64 bits.\<close>

definition codegen_const_value :: "codegen_ctx \<Rightarrow> block_ref \<Rightarrow> const_value \<Rightarrow> ty \<Rightarrow> mlir_module \<Rightarrow> emitted" where
  "codegen_const_value cc blk cv t m =
     (case cv of
        CV_Scalar s \<Rightarrow> codegen_scalar_const_value cc blk t s m
      | CV_ZeroSized \<Rightarrow> create_int_constant (cc_lib cc) blk (Int_I64 0) m
      | CV_Slice _ _ \<Rightarrow> create_int_constant (cc_lib cc) blk (Int_I64 0) m
      | CV_Indirect _ _ \<Rightarrow> create_int_constant (cc_lib cc) blk (Int_I64 0) m)"

definition codegen_const_adt :: "codegen_ctx \<Rightarrow> block_ref \<Rightarrow> adt_def \<Rightarrow> mlir_value \<Rightarrow> generic_arg list \<Rightarrow> mlir_module \<Rightarrow> emitted" where
  "codegen_const_adt cc blk def v raw_list m =
     (let nm = cc_adt_debug cc def in
      if nm = lit ''triton::llvm::triton::tensor::Tensor'' then
        bind_res (type_at raw_list 0) (\<lambda>t.
        bind_res (map_type cc (cc_normalize cc t)) (\<lambda>mt.
          Ok (create_ub_poison blk (tensor_type [dynamic_dim] mt) m)))
      else if nm = lit ''triton::llvm::triton::pointer::Pointer'' then Ok (v, m)
      else if adt_is_enum def then Ok (v, m)
      else Panic)"

definition cast_constant :: "codegen_ctx \<Rightarrow> block_ref \<Rightarrow> ty \<Rightarrow> mlir_value \<times> mlir_module \<Rightarrow> emitted" where
  "cast_constant cc blk normalized_ty vm =
     (case normalized_ty of
        Ty_RawPtr _ _ \<Rightarrow>
          bind_res (debug_assert (is_integer (v_ty (fst vm)))) (\<lambda>_.
          bind_res (map_type cc normalized_ty) (\<lambda>ptr_ty. Ok (int_to_ptr blk (fst vm) ptr_ty (snd vm))))
      | Ty_Adt def args \<Rightarrow> codegen_const_adt cc blk def (fst vm) args (snd vm)
      | Ty_Int _ \<Rightarrow> Ok vm
      | Ty_Uint _ \<Rightarrow> Ok vm
      | Ty_Float _ \<Rightarrow> Ok vm
      | Ty_Bool \<Rightarrow> Ok vm
      | Ty_Ref _ _ \<Rightarrow> Ok vm
      | Ty_Str \<Rightarrow> Ok vm
      | Ty_FnPtr \<Rightarrow> Ok vm
      | Ty_FnDef _ _ \<Rightarrow> Ok vm
      | _ \<Rightarrow> Panic)"

definition codegen_constant_cast :: "codegen_ctx \<Rightarrow> block_ref \<Rightarrow> mir_const \<Rightarrow> ty \<Rightarrow> mlir_module \<Rightarrow> emitted" where
  "codegen_constant_cast cc blk c normalized_ty m =
     (case c of
        MC_Val cv t \<Rightarrow> bind_res (codegen_const_value cc blk cv t m) (cast_constant cc blk normalized_ty)
      | MC_Ty _ (Const_Param index) \<Rightarrow> codegen_param_const cc blk index m
      | _ \<Rightarrow> Panic)"

section \<open>Operands\<close>

definition codegen_operand :: "codegen_ctx \<Rightarrow> codegen_state \<Rightarrow> block_ref \<Rightarrow> operand \<Rightarrow> ty \<Rightarrow> mlir_module \<Rightarrow> emitted" where
  "codegen_operand cc st blk op1 normalized_ty m =
     (case op1 of
        Op_Copy p \<Rightarrow> bind_res (codegen_copy st p) (\<lambda>v. Ok (v, m))
      | Op_Move p \<Rightarrow> bind_res (codegen_copy st p) (\<lambda>v. Ok (v, m))
      | Op_Constant c \<Rightarrow> codegen_constant_cast cc blk c normalized_ty m
      | Op_RuntimeChecks _ \<Rightarrow> Panic)"

text \<open>The type of an operand after substitution of the instance's arguments.\<close>

definition operand_norm_ty :: "codegen_ctx \<Rightarrow> body \<Rightarrow> operand \<Rightarrow> ty res" where
  "operand_norm_ty cc mir op1 = bind_res (operand_ty cc mir op1) (\<lambda>t. Ok (cc_normalize cc t))"

definition option_entry :: "codegen_state \<Rightarrow> operand \<Rightarrow> mlir_value option res" where
  "option_entry st op1 =
     (case op1 of
        Op_Copy p \<Rightarrow> expect (option_table st (p_local p))
      | Op_Move p \<Rightarrow> expect (option_table st (p_local p))
      | Op_Constant _ \<Rightarrow> Ok None
      | Op_RuntimeChecks _ \<Rightarrow> Panic)"

definition codegen_option_operand ::
    "codegen_ctx \<Rightarrow> body \<Rightarrow> codegen_state \<Rightarrow> block_ref \<Rightarrow> operand \<Rightarrow> mlir_module \<Rightarrow> (mlir_value option \<times> mlir_module) res" where
  "codegen_option_operand cc mir st blk op1 m =
     bind_res (operand_norm_ty cc mir op1) (\<lambda>t.
       if is_option_ty (cc_def_path_str cc) t then bind_res (option_entry st op1) (\<lambda>inner. Ok (inner, m))
       else bind_res (codegen_operand cc st blk op1 t m) (\<lambda>(v, m'). Ok (Some v, m')))"

section \<open>Memory of constants\<close>

fun elem_size_bytes :: "ty \<Rightarrow> nat option" where
  "elem_size_bytes (Ty_Int I8) = Some 1"
| "elem_size_bytes (Ty_Uint U8) = Some 1"
| "elem_size_bytes (Ty_Int I16) = Some 2"
| "elem_size_bytes (Ty_Uint U16) = Some 2"
| "elem_size_bytes (Ty_Int I32) = Some 4"
| "elem_size_bytes (Ty_Uint U32) = Some 4"
| "elem_size_bytes (Ty_Int I64) = Some 8"
| "elem_size_bytes (Ty_Uint U64) = Some 8"
| "elem_size_bytes _ = None"

text \<open>\<open>to_i8\<close> to \<open>to_i64\<close>, widened to \<open>i64\<close>.\<close>

definition sign_extended :: "nat \<Rightarrow> scalar_int \<Rightarrow> i64 res" where
  "sign_extended bytes s =
     bind_res (expect (to_bits s bytes)) (\<lambda>b. Ok (word_of_int (signed_take_bit (8 * bytes - 1) (uint b))))"

fun const_location :: "const_value \<Rightarrow> (alloc_id \<times> nat) option" where
  "const_location (CV_Scalar (Scalar_Ptr alloc_id offset)) = Some (alloc_id, offset)"
| "const_location (CV_Indirect alloc_id offset) = Some (alloc_id, offset)"
| "const_location _ = None"

definition const_value_of :: "codegen_ctx \<Rightarrow> mir_const \<Rightarrow> const_value option" where
  "const_value_of cc c =
     (case c of
        MC_Val cv _ \<Rightarrow> Some cv
      | MC_Unevaluated def args promoted _ \<Rightarrow> cc_const_eval cc def args promoted
      | _ \<Rightarrow> None)"

text \<open>The elements from an index on; \<open>Ok None\<close> is the early return of the loop.\<close>

fun read_elems :: "codegen_ctx \<Rightarrow> alloc_id \<Rightarrow> nat \<Rightarrow> nat \<Rightarrow> nat list \<Rightarrow> i64 list option res" where
  "read_elems cc alloc_id base_offset bytes [] = Ok (Some [])"
| "read_elems cc alloc_id base_offset bytes (i # is) =
     (case cc_read_scalar cc alloc_id (base_offset + i * bytes) bytes of
        Some (Scalar_Int s) \<Rightarrow>
          bind_res (sign_extended bytes s) (\<lambda>v.
          bind_res (read_elems cc alloc_id base_offset bytes is) (\<lambda>r. Ok (map_option ((#) v) r)))
      | _ \<Rightarrow> Ok None)"

definition try_read_array_ref_const :: "codegen_ctx \<Rightarrow> ty \<Rightarrow> mir_const \<Rightarrow> i64 list option res" where
  "try_read_array_ref_const cc src_ty c =
     (case src_ty of
        Ty_Ref (Ty_Array et len_const) _ \<Rightarrow>
          if \<not> is_integral et then Ok None
          else (case elem_size_bytes et of
              None \<Rightarrow> Ok None
            | Some bytes \<Rightarrow>
                bind_res (try_to_target_usize cc len_const) (\<lambda>n.
                  case n of
                    None \<Rightarrow> Ok None
                  | Some n' \<Rightarrow>
                      (case Option.bind (const_value_of cc c) const_location of
                         None \<Rightarrow> Ok None
                       | Some (alloc_id, base_offset) \<Rightarrow>
                           if \<not> cc_is_memory cc alloc_id then Ok None
                           else read_elems cc alloc_id base_offset bytes [0..<unat n'])))
      | _ \<Rightarrow> Ok None)"

definition tuple_field ::
    "codegen_ctx \<Rightarrow> block_ref \<Rightarrow> alloc_id \<Rightarrow> nat \<Rightarrow> nat list \<Rightarrow> nat \<times> ty \<Rightarrow> mlir_module \<Rightarrow> emitted" where
  "tuple_field cc blk alloc_id base_offset offsets = (\<lambda>(field_idx, field_ty) m.
     let t = cc_normalize cc field_ty in
     case cc_size_of cc t of
       None \<Rightarrow> Err CodegenFailed
     | Some size' \<Rightarrow>
         bind_res (expect (vec_index offsets field_idx)) (\<lambda>off.
           case cc_read_scalar cc alloc_id (base_offset + off) size' of
             None \<Rightarrow> Err CodegenFailed
           | Some s \<Rightarrow> codegen_scalar (cc_lib cc) blk t s m))"

definition codegen_tuple_constant ::
    "codegen_ctx \<Rightarrow> block_ref \<Rightarrow> mir_const \<Rightarrow> ty list \<Rightarrow> mlir_module \<Rightarrow> (mlir_value list \<times> mlir_module) res" where
  "codegen_tuple_constant cc blk c elem_tys m =
     (case c of
        MC_Val (CV_Indirect alloc_id base_offset) t \<Rightarrow>
          if \<not> cc_is_memory cc alloc_id then Panic
          else (case cc_offsets cc t of
              None \<Rightarrow> Err CodegenFailed
            | Some None \<Rightarrow> Panic
            | Some (Some offsets) \<Rightarrow>
                map_res (tuple_field cc blk alloc_id base_offset offsets) (enumerate 0 elem_tys) m)
      | _ \<Rightarrow> Panic)"

section \<open>Casts\<close>

text \<open>Whether the printed type contains the name of a float type.\<close>

fun prints_float :: "mlir_ty \<Rightarrow> mlir_ty \<Rightarrow> bool" where
  "prints_float f (MT_Tensor _ e) = prints_float f e"
| "prints_float f (MT_Tuple ts) = list_ex (prints_float f) ts"
| "prints_float f (MT_Pointer e _) = prints_float f e"
| "prints_float f (MT_TensorDesc _ e) = prints_float f e"
| "prints_float f t = (t = f)"

definition float_bits :: "mlir_ty \<Rightarrow> nat" where
  "float_bits t =
     (if prints_float MT_F16 t then 16
      else if prints_float MT_F32 t then 32
      else if prints_float MT_F64 t then 64
      else 128)"

definition codegen_cast ::
    "codegen_ctx \<Rightarrow> codegen_state \<Rightarrow> block_ref \<Rightarrow> cast_kind \<Rightarrow> operand \<Rightarrow> ty \<Rightarrow> mlir_module \<Rightarrow> emitted" where
  "codegen_cast cc st blk kind op1 t m =
     (let normalized_ty = cc_normalize cc t in
      case kind of
        Cast_PointerWithExposedProvenance \<Rightarrow> codegen_operand cc st blk op1 normalized_ty m
      | Cast_PtrToPtr \<Rightarrow> codegen_operand cc st blk op1 normalized_ty m
      | Cast_IntToInt \<Rightarrow> codegen_operand cc st blk op1 normalized_ty m
      | Cast_IntToFloat \<Rightarrow>
          bind_res (codegen_operand cc st blk op1 normalized_ty m) (\<lambda>(src_val, m').
          bind_res (map_type cc normalized_ty) (\<lambda>dest_ty. Ok (emit1 blk ''arith.sitofp'' [src_val] [] dest_ty m')))
      | Cast_FloatToInt \<Rightarrow>
          bind_res (codegen_operand cc st blk op1 normalized_ty m) (\<lambda>(src_val, m').
          bind_res (map_type cc normalized_ty) (\<lambda>dest_ty. Ok (emit1 blk ''arith.fptosi'' [src_val] [] dest_ty m')))
      | Cast_FloatToFloat \<Rightarrow>
          bind_res (codegen_operand cc st blk op1 normalized_ty m) (\<lambda>(src_val, m').
          bind_res (map_type cc normalized_ty) (\<lambda>dest_ty.
            if v_ty src_val = dest_ty then Ok (src_val, m')
            else if float_bits dest_ty < float_bits (v_ty src_val)
            then Ok (emit1 blk ''arith.truncf'' [src_val] [] dest_ty m')
            else Ok (emit1 blk ''arith.extf'' [src_val] [] dest_ty m')))
      | Cast_PointerCoercion Unsize \<Rightarrow>
          bind_res (map_type cc normalized_ty) (\<lambda>mt. Ok (create_ub_poison blk mt m))
      | _ \<Rightarrow> Err CodegenFailed)"

end
