(* ===== verification/Triton_Stmt.thy ===== *)
theory Triton_Stmt
  imports Triton_Operand
begin

text \<open>
  Emission of statements (\<open>codegen_statement\<close>, \<open>codegen_assign\<close>, \<open>codegen_set_discriminant\<close> and the functions they
  call in \<open>triton/mod.rs\<close>) and of calls of arithmetic functions (\<open>triton/ops/binaryops.rs\<close>). An assignment goes to
  the table that the type of its right-hand side selects; the key is the local of the place, whatever its projection.
\<close>

type_synonym stmt_result = "(codegen_state \<times> mlir_module) res"

section \<open>Tables\<close>

definition set_ssa :: "local \<Rightarrow> mlir_value \<Rightarrow> codegen_state \<Rightarrow> codegen_state" where
  "set_ssa l v st = st\<lparr>ssa_values := (ssa_values st)(l \<mapsto> v)\<rparr>"

definition set_option_local :: "local \<Rightarrow> mlir_value option \<Rightarrow> codegen_state \<Rightarrow> codegen_state" where
  "set_option_local l v st = st\<lparr>option_table := (option_table st)(l \<mapsto> v)\<rparr>"

definition set_tuple :: "local \<Rightarrow> mlir_value list \<Rightarrow> codegen_state \<Rightarrow> codegen_state" where
  "set_tuple l vs st = st\<lparr>tuple_fields := (tuple_fields st)(l \<mapsto> vs)\<rparr>"

definition set_slice_shape :: "local \<Rightarrow> i64 list \<Rightarrow> codegen_state \<Rightarrow> codegen_state" where
  "set_slice_shape l shape st = st\<lparr>slice_shape := (slice_shape st)(l \<mapsto> shape)\<rparr>"

definition set_slice_dyn_values :: "local \<Rightarrow> mlir_value list \<Rightarrow> codegen_state \<Rightarrow> codegen_state" where
  "set_slice_dyn_values l vs st = st\<lparr>slice_dyn_values := (slice_dyn_values st)(l \<mapsto> vs)\<rparr>"

definition set_dyn_array :: "local \<Rightarrow> mlir_value list \<Rightarrow> codegen_state \<Rightarrow> codegen_state" where
  "set_dyn_array l vs st = st\<lparr>dyn_arrays := (dyn_arrays st)(l \<mapsto> vs)\<rparr>"

definition set_const_array :: "local \<Rightarrow> i64 list \<Rightarrow> codegen_state \<Rightarrow> codegen_state" where
  "set_const_array l vs st = st\<lparr>const_arrays := (const_arrays st)(l \<mapsto> vs)\<rparr>"

definition set_ptr_to_const_array :: "local \<Rightarrow> local \<Rightarrow> codegen_state \<Rightarrow> codegen_state" where
  "set_ptr_to_const_array l arr st = st\<lparr>ptr_to_const_array := (ptr_to_const_array st)(l \<mapsto> arr)\<rparr>"

definition set_ptr_to_dyn_array :: "local \<Rightarrow> local \<Rightarrow> codegen_state \<Rightarrow> codegen_state" where
  "set_ptr_to_dyn_array l arr st = st\<lparr>ptr_to_dyn_array := (ptr_to_dyn_array st)(l \<mapsto> arr)\<rparr>"

lemmas set_table_defs = set_ssa_def set_option_local_def set_tuple_def set_slice_shape_def set_slice_dyn_values_def
  set_dyn_array_def set_const_array_def set_ptr_to_const_array_def set_ptr_to_dyn_array_def

fun operand_place :: "operand \<Rightarrow> place option" where
  "operand_place (Op_Copy p) = Some p"
| "operand_place (Op_Move p) = Some p"
| "operand_place _ = None"

section \<open>Uses\<close>

text \<open>A copy of a local that is kept outside \<open>ssa_values\<close> copies its entry; the first table that has it decides.\<close>

definition copy_side_table :: "local \<Rightarrow> local \<Rightarrow> codegen_state \<Rightarrow> codegen_state option" where
  "copy_side_table dest src st =
     (case dyn_arrays st src of Some elems \<Rightarrow> Some (set_dyn_array dest elems st) | None \<Rightarrow>
     (case ptr_to_const_array st src of Some arr \<Rightarrow> Some (set_ptr_to_const_array dest arr st) | None \<Rightarrow>
     (case ptr_to_dyn_array st src of Some arr \<Rightarrow> Some (set_ptr_to_dyn_array dest arr st) | None \<Rightarrow>
     (case slice_dyn_values st src of Some vals \<Rightarrow> Some (set_slice_dyn_values dest vals st) | None \<Rightarrow>
     (case slice_shape st src of Some shape \<Rightarrow> Some (set_slice_shape dest shape st) | None \<Rightarrow>
     (case tuple_fields st src of Some vs \<Rightarrow> Some (set_tuple dest vs st) | None \<Rightarrow> None))))))"

definition assign_tuple_use ::
    "codegen_ctx \<Rightarrow> codegen_state \<Rightarrow> block_ref \<Rightarrow> local \<Rightarrow> operand \<Rightarrow> ty list \<Rightarrow> mlir_module \<Rightarrow> stmt_result" where
  "assign_tuple_use cc st blk dest op1 elem_tys m =
     bind_res
       (case op1 of
          Op_Copy src \<Rightarrow> bind_res (expect (tuple_fields st (p_local src))) (\<lambda>vs. Ok (vs, m))
        | Op_Move src \<Rightarrow> bind_res (expect (tuple_fields st (p_local src))) (\<lambda>vs. Ok (vs, m))
        | Op_Constant c \<Rightarrow> codegen_tuple_constant cc blk c elem_tys m
        | Op_RuntimeChecks _ \<Rightarrow> Panic)
       (\<lambda>(vs, m'). Ok (set_tuple dest vs st, m'))"

definition assign_plain_use ::
    "codegen_ctx \<Rightarrow> codegen_state \<Rightarrow> block_ref \<Rightarrow> local \<Rightarrow> operand \<Rightarrow> ty \<Rightarrow> mlir_module \<Rightarrow> stmt_result" where
  "assign_plain_use cc st blk dest op1 t m =
     bind_res (codegen_operand cc st blk op1 t m) (\<lambda>(v, m'). Ok (set_ssa dest v st, m'))"

definition assign_use ::
    "codegen_ctx \<Rightarrow> body \<Rightarrow> codegen_state \<Rightarrow> block_ref \<Rightarrow> local \<Rightarrow> operand \<Rightarrow> mlir_module \<Rightarrow> stmt_result" where
  "assign_use cc mir st blk dest op1 m =
     bind_res (operand_norm_ty cc mir op1) (\<lambda>t.
       if is_option_ty (cc_def_path_str cc) t then
         bind_res (option_entry st op1) (\<lambda>v. Ok (set_option_local dest v st, m))
       else (case t of
           Ty_Tuple elem_tys \<Rightarrow> assign_tuple_use cc st blk dest op1 elem_tys m
         | _ \<Rightarrow>
             (case Option.bind (bare_local op1) (\<lambda>src. copy_side_table dest src st) of
                Some st' \<Rightarrow> Ok (st', m)
              | None \<Rightarrow>
                  (case op1 of
                     Op_Constant c \<Rightarrow>
                       bind_res (try_read_array_ref_const cc (cc_normalize cc (mir_const_ty c)) c) (\<lambda>shape.
                         assign_plain_use cc
                           (case shape of Some s \<Rightarrow> set_slice_shape dest s st | None \<Rightarrow> st) blk dest op1 t m)
                   | _ \<Rightarrow> assign_plain_use cc st blk dest op1 t m))))"

section \<open>Casts\<close>

text \<open>The shape that a coercion from an array reference to a slice passes on.\<close>

definition unsize_tables :: "codegen_ctx \<Rightarrow> local \<Rightarrow> operand \<Rightarrow> codegen_state \<Rightarrow> codegen_state res" where
  "unsize_tables cc dest op1 st =
     (case op1 of
        Op_Constant c \<Rightarrow>
          bind_res (try_read_array_ref_const cc (cc_normalize cc (mir_const_ty c)) c) (\<lambda>shape.
            Ok (case shape of Some s \<Rightarrow> set_slice_shape dest s st | None \<Rightarrow> st))
      | _ \<Rightarrow>
          Ok (case bare_local op1 of
                None \<Rightarrow> st
              | Some src \<Rightarrow>
                  (let st1 = (case Option.bind (ptr_to_dyn_array st src) (dyn_arrays st) of
                                Some vals \<Rightarrow> set_slice_dyn_values dest vals st | None \<Rightarrow> st);
                       st2 = (case Option.bind (ptr_to_const_array st1 src) (const_arrays st1) of
                                Some shape \<Rightarrow> set_slice_shape dest shape st1 | None \<Rightarrow> st1)
                   in (case slice_shape st2 src of Some shape \<Rightarrow> set_slice_shape dest shape st2 | None \<Rightarrow> st2))))"

definition assign_plain_cast ::
    "codegen_ctx \<Rightarrow> codegen_state \<Rightarrow> block_ref \<Rightarrow> local \<Rightarrow> cast_kind \<Rightarrow> operand \<Rightarrow> ty \<Rightarrow> mlir_module \<Rightarrow> stmt_result" where
  "assign_plain_cast cc st blk dest kind op1 t m =
     bind_res (codegen_cast cc st blk kind op1 t m) (\<lambda>(v, m'). Ok (set_ssa dest v st, m'))"

definition assign_cast ::
    "codegen_ctx \<Rightarrow> codegen_state \<Rightarrow> block_ref \<Rightarrow> local \<Rightarrow> cast_kind \<Rightarrow> operand \<Rightarrow> ty \<Rightarrow> mlir_module \<Rightarrow> stmt_result" where
  "assign_cast cc st blk dest kind op1 t m =
     (case kind of
        Cast_PtrToPtr \<Rightarrow>
          (case Option.bind (operand_place op1) (\<lambda>p. ptr_to_const_array st (p_local p)) of
             Some arr \<Rightarrow> Ok (set_ptr_to_const_array dest arr st, m)
           | None \<Rightarrow> assign_plain_cast cc st blk dest kind op1 t m)
      | Cast_Transmute \<Rightarrow>
          (case Option.bind (operand_place op1) (\<lambda>p. slice_shape st (p_local p)) of
             Some shape \<Rightarrow> Ok (set_slice_shape dest shape st, m)
           | None \<Rightarrow> assign_plain_cast cc st blk dest kind op1 t m)
      | Cast_PointerCoercion Unsize \<Rightarrow>
          bind_res (unsize_tables cc dest op1 st) (\<lambda>st'. assign_plain_cast cc st' blk dest kind op1 t m)
      | _ \<Rightarrow> assign_plain_cast cc st blk dest kind op1 t m)"

section \<open>Aggregates\<close>

definition codegen_option_aggregate ::
    "codegen_ctx \<Rightarrow> body \<Rightarrow> codegen_state \<Rightarrow> block_ref \<Rightarrow> local \<Rightarrow> variant_idx \<Rightarrow> operand list \<Rightarrow> mlir_module \<Rightarrow> stmt_result" where
  "codegen_option_aggregate cc mir st blk dest variant_index index_vec m =
     (if variant_index = 0 then Ok (set_option_local dest None st, m)
      else
        bind_res (expect (vec_index index_vec 0)) (\<lambda>inner_op.
        bind_res (operand_norm_ty cc mir inner_op) (\<lambda>inner_ty.
        bind_res (codegen_operand cc st blk inner_op inner_ty m) (\<lambda>(v, m').
          Ok (set_option_local dest (Some v) st, m')))))"

definition agg_field :: "codegen_ctx \<Rightarrow> body \<Rightarrow> codegen_state \<Rightarrow> block_ref \<Rightarrow> operand \<Rightarrow> mlir_module \<Rightarrow> emitted" where
  "agg_field cc mir st blk op1 m =
     (case operand_place op1 of
        Some p \<Rightarrow> bind_res (codegen_copy st p) (\<lambda>v. Ok (v, m))
      | None \<Rightarrow> bind_res (operand_norm_ty cc mir op1) (\<lambda>t. codegen_operand cc st blk op1 t m))"

definition tuple_agg_field :: "codegen_state \<Rightarrow> operand \<Rightarrow> mlir_module \<Rightarrow> emitted" where
  "tuple_agg_field st op1 m =
     (case operand_place op1 of
        Some p \<Rightarrow> bind_res (codegen_copy st p) (\<lambda>v. Ok (v, m))
      | None \<Rightarrow> Panic)"

definition assign_tuple_aggregate :: "codegen_state \<Rightarrow> local \<Rightarrow> operand list \<Rightarrow> mlir_module \<Rightarrow> stmt_result" where
  "assign_tuple_aggregate st dest index_vec m =
     (let first = (case index_vec of op1 # _ \<Rightarrow> map_option p_local (operand_place op1) | [] \<Rightarrow> None) in
      case Option.bind (Option.bind first (ptr_to_const_array st)) (const_arrays st) of
        Some shape \<Rightarrow> Ok (set_slice_shape dest shape st, m)
      | None \<Rightarrow>
          (case Option.bind (Option.bind first (ptr_to_dyn_array st)) (dyn_arrays st) of
             Some vals \<Rightarrow> Ok (set_slice_dyn_values dest vals st, m)
           | None \<Rightarrow> bind_res (map_res (tuple_agg_field st) index_vec m) (\<lambda>(vs, m'). Ok (set_tuple dest vs st, m'))))"

text \<open>An element of a constant array: a literal, read by its size, or a local that folds to a number. One byte is read
  without sign.\<close>

definition const_elem :: "codegen_ctx \<Rightarrow> body \<Rightarrow> operand \<Rightarrow> i64 option res" where
  "const_elem cc mir op1 =
     (case to_scalar_int (cc_inst cc) op1 of
        None \<Rightarrow> Panic
      | Some (Inr s) \<Rightarrow>
          (if si_size s = 1 then bind_res (to_uint 1 s) (\<lambda>w. Ok (Some (ucast (w :: u8))))
           else if si_size s \<in> {2, 4, 8} then bind_res (sign_extended (si_size s) s) (\<lambda>w. Ok (Some w))
           else Panic)
      | Some (Inl _) \<Rightarrow>
          (case fold_operand_as_i32 (fold_local_as_i32 (cc_stack cc) (cc_inst cc) mir) (cc_inst cc) op1 of
             Some (Returned r) \<Rightarrow> Ok (map_option scast r)
           | _ \<Rightarrow> Panic))"

fun const_elems :: "codegen_ctx \<Rightarrow> body \<Rightarrow> operand list \<Rightarrow> i64 list option res" where
  "const_elems cc mir [] = Ok (Some [])"
| "const_elems cc mir (op1 # ops) =
     bind_res (const_elem cc mir op1) (\<lambda>e.
       case e of
         None \<Rightarrow> Ok None
       | Some v \<Rightarrow> bind_res (const_elems cc mir ops) (\<lambda>r. Ok (map_option ((#) v) r)))"

definition assign_array_aggregate ::
    "codegen_ctx \<Rightarrow> body \<Rightarrow> codegen_state \<Rightarrow> block_ref \<Rightarrow> local \<Rightarrow> operand list \<Rightarrow> mlir_module \<Rightarrow> stmt_result" where
  "assign_array_aggregate cc mir st blk dest index_vec m =
     bind_res (const_elems cc mir index_vec) (\<lambda>elems.
       case elems of
         Some vs \<Rightarrow> Ok (set_const_array dest vs st, m)
       | None \<Rightarrow> bind_res (map_res (agg_field cc mir st blk) index_vec m) (\<lambda>(vs, m'). Ok (set_dyn_array dest vs st, m')))"

definition codegen_create_tensor :: "codegen_ctx \<Rightarrow> body \<Rightarrow> block_ref \<Rightarrow> operand list \<Rightarrow> mlir_module \<Rightarrow> emitted" where
  "codegen_create_tensor cc mir blk index_vec m =
     bind_res (expect (vec_index index_vec 0)) (\<lambda>arg1.
     bind_res (operand_norm_ty cc mir arg1) (\<lambda>arg1_ty.
       case arg1_ty of
         Ty_RawPtr pointee_ty _ \<Rightarrow>
           bind_res (map_type cc pointee_ty) (\<lambda>t. Ok (create_ub_poison blk (tensor_type [dynamic_dim] t) m))
       | _ \<Rightarrow> Panic))"

definition codegen_create_pointer ::
    "codegen_ctx \<Rightarrow> body \<Rightarrow> codegen_state \<Rightarrow> block_ref \<Rightarrow> operand list \<Rightarrow> mlir_module \<Rightarrow> emitted" where
  "codegen_create_pointer cc mir st blk index_vec m =
     bind_res (expect (vec_index index_vec 0)) (\<lambda>arg1.
     bind_res (operand_norm_ty cc mir arg1) (\<lambda>arg1_ty. codegen_operand cc st blk arg1 arg1_ty m))"

definition codegen_aggregate_create ::
    "codegen_ctx \<Rightarrow> body \<Rightarrow> codegen_state \<Rightarrow> block_ref \<Rightarrow> aggregate_kind \<Rightarrow> operand list \<Rightarrow> mlir_module \<Rightarrow> emitted" where
  "codegen_aggregate_create cc mir st blk kind index_vec m =
     (case kind of
        Agg_Adt def_id _ _ \<Rightarrow>
          (let adt_name = cc_adt_debug cc (cc_adt_def cc def_id) in
           if adt_name = lit ''triton::llvm::triton::tensor::LlvmTensor'' then codegen_create_tensor cc mir blk index_vec m
           else if adt_name = lit ''triton::llvm::triton::pointer::LlvmPointer''
           then codegen_create_pointer cc mir st blk index_vec m
           else Panic)
      | _ \<Rightarrow> Panic)"

definition is_triton_type :: "codegen_ctx \<Rightarrow> def_id \<Rightarrow> bool" where
  "is_triton_type cc def_id \<longleftrightarrow>
     (let adt_name = cc_adt_debug cc (cc_adt_def cc def_id) in
      adt_name = lit ''triton::llvm::triton::tensor::LlvmTensor'' \<or>
      adt_name = lit ''triton::llvm::triton::pointer::LlvmPointer'')"

definition assign_aggregate ::
    "codegen_ctx \<Rightarrow> body \<Rightarrow> codegen_state \<Rightarrow> block_ref \<Rightarrow> place \<Rightarrow> aggregate_kind \<Rightarrow> operand list \<Rightarrow> mlir_module \<Rightarrow> stmt_result" where
  "assign_aggregate cc mir st blk p kind index_vec m =
     (let create = bind_res (codegen_aggregate_create cc mir st blk kind index_vec m)
                     (\<lambda>(v, m'). Ok (set_ssa (p_local p) v st, m')) in
      case kind of
        Agg_Adt def_id variant_index _ \<Rightarrow>
          bind_res (ty_of_place cc mir p) (\<lambda>t.
            if is_option_ty (cc_def_path_str cc) (cc_normalize cc t)
            then codegen_option_aggregate cc mir st blk (p_local p) variant_index index_vec m
            else if \<not> is_triton_type cc def_id then
              bind_res (map_res (agg_field cc mir st blk) index_vec m) (\<lambda>(vs, m'). Ok (set_tuple (p_local p) vs st, m'))
            else create)
      | Agg_Tuple \<Rightarrow> assign_tuple_aggregate st (p_local p) index_vec m
      | Agg_Array _ \<Rightarrow> assign_array_aggregate cc mir st blk (p_local p) index_vec m
      | _ \<Rightarrow> create)"

section \<open>References\<close>

definition assign_ref :: "codegen_state \<Rightarrow> local \<Rightarrow> place \<Rightarrow> mlir_module \<Rightarrow> stmt_result" where
  "assign_ref st dest src m =
     (if p_projection src \<noteq> [] then Panic
      else if const_arrays st (p_local src) \<noteq> None then Ok (set_ptr_to_const_array dest (p_local src) st, m)
      else if dyn_arrays st (p_local src) \<noteq> None then Ok (set_ptr_to_dyn_array dest (p_local src) st, m)
      else Panic)"

section \<open>Operators\<close>

definition codegen_binary_op ::
    "codegen_ctx \<Rightarrow> body \<Rightarrow> codegen_state \<Rightarrow> block_ref \<Rightarrow> bin_op \<Rightarrow> operand \<Rightarrow> operand \<Rightarrow> mlir_module \<Rightarrow> emitted" where
  "codegen_binary_op cc mir st blk bop lhs_op rhs_op m =
     bind_res (operand_norm_ty cc mir lhs_op) (\<lambda>lhs_ty.
     bind_res (operand_norm_ty cc mir rhs_op) (\<lambda>rhs_ty.
     bind_res (codegen_operand cc st blk lhs_op lhs_ty m) (\<lambda>(lhs, m1).
     bind_res (codegen_operand cc st blk rhs_op rhs_ty m1) (\<lambda>(rhs, m2).
       codegen_bin_op (cc_lib cc) bop (case lhs_ty of Ty_Int _ \<Rightarrow> True | _ \<Rightarrow> False) blk lhs rhs m2))))"

fun plain_op :: "bin_op \<Rightarrow> bin_op option" where
  "plain_op BinOp_AddWithOverflow = Some BinOp_Add"
| "plain_op BinOp_SubWithOverflow = Some BinOp_Sub"
| "plain_op BinOp_MulWithOverflow = Some BinOp_Mul"
| "plain_op _ = None"

text \<open>An operation with overflow gives the wrapped result and a flag that is always false.\<close>

definition assign_binary ::
    "codegen_ctx \<Rightarrow> body \<Rightarrow> codegen_state \<Rightarrow> block_ref \<Rightarrow> local \<Rightarrow> bin_op \<Rightarrow> operand \<Rightarrow> operand \<Rightarrow> mlir_module \<Rightarrow> stmt_result" where
  "assign_binary cc mir st blk dest bop lhs_op rhs_op m =
     (case plain_op bop of
        Some plain \<Rightarrow>
          bind_res (codegen_binary_op cc mir st blk plain lhs_op rhs_op m) (\<lambda>(v, m1).
            let (false_val, m2) = arith_constant blk (Attr_Int 0 (MT_Integer 1)) m1
            in Ok (set_tuple dest [v, false_val] st, m2))
      | None \<Rightarrow>
          bind_res (codegen_binary_op cc mir st blk bop lhs_op rhs_op m) (\<lambda>(v, m1). Ok (set_ssa dest v st, m1)))"

text \<open>Integer negation subtracts from a zero of 32 bits.\<close>

definition codegen_un_neg :: "mlir_lib \<Rightarrow> block_ref \<Rightarrow> mlir_value \<Rightarrow> mlir_module \<Rightarrow> emitted" where
  "codegen_un_neg lib blk v m =
     (if is_integer (v_ty v) then
        bind_res (create_int_constant lib blk (Int_I32 0) m) (\<lambda>(zero, m1). create_subi lib blk zero v m1)
      else create_negf lib blk v m)"

definition assign_unary ::
    "codegen_ctx \<Rightarrow> body \<Rightarrow> codegen_state \<Rightarrow> block_ref \<Rightarrow> local \<Rightarrow> un_op \<Rightarrow> operand \<Rightarrow> mlir_module \<Rightarrow> stmt_result" where
  "assign_unary cc mir st blk dest uop op1 m =
     bind_res (operand_norm_ty cc mir op1) (\<lambda>t.
     bind_res (codegen_operand cc st blk op1 t m) (\<lambda>(v, m1).
       case uop of
         UnOp_Neg \<Rightarrow> bind_res (codegen_un_neg (cc_lib cc) blk v m1) (\<lambda>(r, m2). Ok (set_ssa dest r st, m2))
       | _ \<Rightarrow> Panic))"

definition assign_discriminant ::
    "codegen_ctx \<Rightarrow> body \<Rightarrow> codegen_state \<Rightarrow> block_ref \<Rightarrow> local \<Rightarrow> place \<Rightarrow> mlir_module \<Rightarrow> stmt_result" where
  "assign_discriminant cc mir st blk dest src m =
     bind_res (ty_of_place cc mir src) (\<lambda>t.
       if is_option_ty (cc_def_path_str cc) (cc_normalize cc t) then
         bind_res (expect (option_table st (p_local src))) (\<lambda>entry.
         bind_res (create_int_constant (cc_lib cc) blk (Int_I8 (if entry = None then 0 else 1)) m) (\<lambda>(v, m').
           Ok (set_ssa dest v st, m')))
       else Panic)"

section \<open>Statements\<close>

definition codegen_assign ::
    "codegen_ctx \<Rightarrow> body \<Rightarrow> block_ref \<Rightarrow> place \<Rightarrow> rvalue \<Rightarrow> codegen_state \<Rightarrow> mlir_module \<Rightarrow> stmt_result" where
  "codegen_assign cc mir blk p rv st m =
     (case rv of
        Rv_Use op1 \<Rightarrow> assign_use cc mir st blk (p_local p) op1 m
      | Rv_Cast kind op1 t \<Rightarrow> assign_cast cc st blk (p_local p) kind op1 t m
      | Rv_Aggregate kind index_vec \<Rightarrow> assign_aggregate cc mir st blk p kind index_vec m
      | Rv_Ref _ src \<Rightarrow> assign_ref st (p_local p) src m
      | Rv_RawPtr _ src \<Rightarrow> assign_ref st (p_local p) src m
      | Rv_BinaryOp bop lhs rhs \<Rightarrow> assign_binary cc mir st blk (p_local p) bop lhs rhs m
      | Rv_UnaryOp uop op1 \<Rightarrow> assign_unary cc mir st blk (p_local p) uop op1 m
      | Rv_Discriminant src \<Rightarrow> assign_discriminant cc mir st blk (p_local p) src m
      | _ \<Rightarrow> Panic)"

definition codegen_set_discriminant ::
    "codegen_ctx \<Rightarrow> body \<Rightarrow> place \<Rightarrow> variant_idx \<Rightarrow> codegen_state \<Rightarrow> mlir_module \<Rightarrow> stmt_result" where
  "codegen_set_discriminant cc mir p variant_index st m =
     bind_res (ty_of_place cc mir p) (\<lambda>t.
       if is_option_ty (cc_def_path_str cc) (cc_normalize cc t) then
         (if variant_index = 0 then Ok (set_option_local (p_local p) None st, m)
          else
            bind_res (expect (ssa_values st (p_local p))) (\<lambda>inner.
              Ok (set_option_local (p_local p) (Some inner) (st\<lparr>ssa_values := (ssa_values st)(p_local p := None)\<rparr>), m)))
       else Panic)"

definition codegen_statement ::
    "codegen_ctx \<Rightarrow> body \<Rightarrow> block_ref \<Rightarrow> statement \<Rightarrow> codegen_state \<Rightarrow> mlir_module \<Rightarrow> stmt_result" where
  "codegen_statement cc mir blk s st m =
     (case s of
        Stmt_Assign p rv \<Rightarrow> codegen_assign cc mir blk p rv st m
      | Stmt_SetDiscriminant p variant_index \<Rightarrow> codegen_set_discriminant cc mir p variant_index st m
      | Stmt_Intrinsic _ \<Rightarrow> Panic
      | _ \<Rightarrow> Ok (st, m))"

fun codegen_statements ::
    "codegen_ctx \<Rightarrow> body \<Rightarrow> block_ref \<Rightarrow> statement list \<Rightarrow> codegen_state \<Rightarrow> mlir_module \<Rightarrow> stmt_result" where
  "codegen_statements cc mir blk [] st m = Ok (st, m)"
| "codegen_statements cc mir blk (s # ss) st m =
     bind_res (codegen_statement cc mir blk s st m) (\<lambda>(st', m'). codegen_statements cc mir blk ss st' m')"

end
