(* ===== verification/Kernel_Args.thy ===== *)
theory Kernel_Args
  imports Kernel_Build Triton_Stmt
begin

text \<open>
  What the handlers of calls share (\<open>triton/ops/triton/tensor.rs\<close>): evaluation of arguments, scalars and shapes that are
  known at compile time, the type of the destination, and the constants that several handlers emit. Arguments are
  indexed as a slice is, so a missing argument is a panic. Most handlers evaluate an argument with its declared type.
\<close>

section \<open>Handlers\<close>

text \<open>A match on the result of a call that goes on after an error; a panic is not caught.\<close>

fun catch_err :: "'a res \<Rightarrow> ('a \<Rightarrow> 'b res) \<Rightarrow> 'b res \<Rightarrow> 'b res" where
  "catch_err (Ok x) k other = k x"
| "catch_err (Err _) k other = other"
| "catch_err Panic k other = Panic"

lemma catch_err_Ok [simp]:
  "catch_err r k other = Ok y \<longleftrightarrow> (\<exists>x. r = Ok x \<and> k x = Ok y) \<or> (\<exists>e. r = Err e \<and> other = Ok y)"
  by (cases r) auto

type_synonym call_handler =
  "body \<Rightarrow> operand \<Rightarrow> rstr \<Rightarrow> operand list \<Rightarrow> place \<Rightarrow> block_ref \<Rightarrow> codegen_state \<Rightarrow> mlir_module \<Rightarrow>
   (mlir_value option \<times> codegen_state \<times> mlir_module) res"

text \<open>The wrappers pass the type of an operand as it is declared, without the substitution of the instance.\<close>

definition call_arg :: "codegen_ctx \<Rightarrow> body \<Rightarrow> block_ref \<Rightarrow> codegen_state \<Rightarrow> operand \<Rightarrow> mlir_module \<Rightarrow> emitted" where
  "call_arg cc mir blk st op1 m =
     bind_res (operand_ty cc mir op1) (\<lambda>t. codegen_operand cc st blk op1 t m)"

definition nth_arg :: "operand list \<Rightarrow> nat \<Rightarrow> operand res" where
  "nth_arg args i = expect (vec_index args i)"

definition eval_arg :: "codegen_ctx \<Rightarrow> body \<Rightarrow> block_ref \<Rightarrow> codegen_state \<Rightarrow> operand list \<Rightarrow> nat \<Rightarrow> mlir_module \<Rightarrow> emitted" where
  "eval_arg cc mir blk st args i m = bind_res (nth_arg args i) (\<lambda>op1. call_arg cc mir blk st op1 m)"

definition eval_option_arg ::
    "codegen_ctx \<Rightarrow> body \<Rightarrow> block_ref \<Rightarrow> codegen_state \<Rightarrow> operand list \<Rightarrow> nat \<Rightarrow> mlir_module \<Rightarrow> (mlir_value option \<times> mlir_module) res" where
  "eval_option_arg cc mir blk st args i m =
     bind_res (nth_arg args i) (\<lambda>op1. codegen_option_operand cc mir st blk op1 m)"

text \<open>The outcome of a handler: a value, or none.\<close>

definition give :: "codegen_state \<Rightarrow> mlir_value \<times> mlir_module \<Rightarrow> (mlir_value option \<times> codegen_state \<times> mlir_module) res" where
  "give st vm = Ok (Some (fst vm), st, snd vm)"

definition give_none :: "codegen_state \<Rightarrow> mlir_module \<Rightarrow> (mlir_value option \<times> codegen_state \<times> mlir_module) res" where
  "give_none st m = Ok (None, st, m)"

section \<open>Types\<close>

definition dest_ty :: "codegen_ctx \<Rightarrow> body \<Rightarrow> place \<Rightarrow> ty res" where
  "dest_ty cc mir dest = bind_res (ty_of_place cc mir dest) (\<lambda>t. Ok (cc_normalize cc t))"

definition dest_mlir_ty :: "codegen_ctx \<Rightarrow> body \<Rightarrow> place \<Rightarrow> mlir_ty res" where
  "dest_mlir_ty cc mir dest = bind_res (dest_ty cc mir dest) (map_type cc)"

definition elem_ty_from_type :: "mlir_ty \<Rightarrow> mlir_ty" where
  "elem_ty_from_type t = (case as_tensor t of Some (_, e) \<Rightarrow> e | None \<Rightarrow> t)"

definition elem_ty :: "mlir_value \<Rightarrow> mlir_ty" where
  "elem_ty v = elem_ty_from_type (v_ty v)"

definition choose_float_int_op :: "mlir_ty \<Rightarrow> string \<Rightarrow> string \<Rightarrow> string" where
  "choose_float_int_op t float_op int_op = (if is_integer t then int_op else float_op)"

text \<open>The placeholder of an operation that is not implemented.\<close>

definition codegen_ub_stub ::
    "codegen_ctx \<Rightarrow> body \<Rightarrow> place \<Rightarrow> block_ref \<Rightarrow> codegen_state \<Rightarrow> mlir_module \<Rightarrow> (mlir_value option \<times> codegen_state \<times> mlir_module) res" where
  "codegen_ub_stub cc mir dest blk st m =
     bind_res (dest_ty cc mir dest) (\<lambda>t.
       if t = Ty_Tuple [] then give_none st m
       else bind_res (map_type cc t) (\<lambda>result_ty. give st (create_ub_poison blk result_ty m)))"

definition stub_handler :: "codegen_ctx \<Rightarrow> call_handler" where
  "stub_handler cc mir func nm args dest blk st m = codegen_ub_stub cc mir dest blk st m"

section \<open>Scalars\<close>

definition scalar_int_arg :: "codegen_ctx \<Rightarrow> operand \<Rightarrow> scalar_int res" where
  "scalar_int_arg cc op1 =
     (case to_scalar_int (cc_inst cc) op1 of
        None \<Rightarrow> Panic
      | Some (Inl _) \<Rightarrow> Err InvalidScalar
      | Some (Inr s) \<Rightarrow> Ok s)"

text \<open>The forms \<open>.map(f).unwrap_or(d)\<close> and \<open>.ok().map(f).unwrap_or(d)\<close>: an error is the default, a panic stays one.\<close>

definition scalar_or :: "'a \<Rightarrow> codegen_ctx \<Rightarrow> (scalar_int \<Rightarrow> 'a res) \<Rightarrow> operand \<Rightarrow> 'a res" where
  "scalar_or d cc f op1 = catch_err (scalar_int_arg cc op1) f (Ok d)"

definition axis_or_0 :: "codegen_ctx \<Rightarrow> operand \<Rightarrow> i32 res" where
  "axis_or_0 cc = scalar_or 0 cc (\<lambda>s. expect (to_i32 s))"

text \<open>A boolean read by \<open>to_bits_unchecked\<close>, and one that must have one byte.\<close>

definition flag_bits :: "codegen_ctx \<Rightarrow> operand \<Rightarrow> bool res" where
  "flag_bits cc = scalar_or False cc (\<lambda>s. Ok (to_bits_unchecked s \<noteq> 0))"

definition flag_u8 :: "codegen_ctx \<Rightarrow> operand list \<Rightarrow> nat \<Rightarrow> bool res" where
  "flag_u8 cc args i =
     (case vec_index args i of
        None \<Rightarrow> Ok False
      | Some op1 \<Rightarrow> scalar_or False cc (\<lambda>s. bind_res (to_uint 1 s) (\<lambda>w. Ok ((w :: u8) \<noteq> 0))) op1)"

text \<open>The stack of the compiler bounds the folding; to exceed it is a panic.\<close>

definition eval_const_i32 :: "codegen_ctx \<Rightarrow> body \<Rightarrow> operand \<Rightarrow> i32 res" where
  "eval_const_i32 cc mir op1 =
     (case try_eval_const_i32 (cc_stack cc) (cc_inst cc) mir op1 of
        Some (Returned (Inr v)) \<Rightarrow> Ok v
      | Some (Returned (Inl _)) \<Rightarrow> Err InvalidScalar
      | _ \<Rightarrow> Panic)"

section \<open>Slices\<close>

definition place_local :: "operand \<Rightarrow> local option" where
  "place_local op1 = map_option p_local (operand_place op1)"

definition shape_from_slice_arg :: "codegen_state \<Rightarrow> operand \<Rightarrow> i64 list res" where
  "shape_from_slice_arg st op1 =
     (case Option.bind (place_local op1) (slice_shape st) of Some shape \<Rightarrow> Ok shape | None \<Rightarrow> Err CodegenFailed)"

definition shape_from_slice_arg_i32 :: "codegen_state \<Rightarrow> operand \<Rightarrow> i32 list res" where
  "shape_from_slice_arg_i32 st op1 = bind_res (shape_from_slice_arg st op1) (\<lambda>shape. Ok (map ucast shape))"

text \<open>The elements of a slice as values: those that are known only at run time, or constants of the static shape.\<close>

definition slice_values ::
    "(i64 \<Rightarrow> mlir_int) \<Rightarrow> mlir_lib \<Rightarrow> codegen_state \<Rightarrow> operand \<Rightarrow> block_ref \<Rightarrow> mlir_module \<Rightarrow> (mlir_value list \<times> mlir_module) res" where
  "slice_values con lib st op1 blk m =
     (case place_local op1 of
        None \<Rightarrow> Err CodegenFailed
      | Some l \<Rightarrow>
          (case slice_dyn_values st l of
             Some vals \<Rightarrow> Ok (vals, m)
           | None \<Rightarrow>
               (case slice_shape st l of
                  None \<Rightarrow> Err CodegenFailed
                | Some vals \<Rightarrow> map_res (\<lambda>v. create_int_constant lib blk (con v)) vals m)))"

definition slice_as_i64_values where
  "slice_as_i64_values = slice_values Int_I64"

definition slice_as_i32_values where
  "slice_as_i32_values = slice_values (\<lambda>v. Int_I32 (ucast v))"

section \<open>Constants\<close>

definition float_zero :: u64 where "float_zero = 0"
definition float_one :: u64 where "float_one = 0x3FF0000000000000"

text \<open>The zero of an element type; an integer zero has 32 bits whatever the type.\<close>

definition zero_const :: "mlir_lib \<Rightarrow> block_ref \<Rightarrow> mlir_ty \<Rightarrow> mlir_module \<Rightarrow> emitted" where
  "zero_const lib blk t m =
     (if is_integer t then create_int_constant lib blk (Int_I32 0) m
      else Ok (arith_constant blk (Attr_Float float_zero t) m))"

definition splat_zero :: "mlir_lib \<Rightarrow> block_ref \<Rightarrow> mlir_ty \<Rightarrow> mlir_ty \<Rightarrow> mlir_module \<Rightarrow> emitted" where
  "splat_zero lib blk t tensor_ty m =
     bind_res (zero_const lib blk t m) (\<lambda>(z, m1). Ok (splat blk z tensor_ty m1))"

definition splat_null :: "mlir_lib \<Rightarrow> block_ref \<Rightarrow> mlir_ty \<Rightarrow> mlir_ty \<Rightarrow> mlir_module \<Rightarrow> emitted" where
  "splat_null lib blk t tensor_ty m =
     bind_res (create_int_constant lib blk (Int_I64 0) m) (\<lambda>(null, m1).
       let (ptr, m2) = int_to_ptr blk null t m1 in Ok (splat blk ptr tensor_ty m2))"

definition zeros_of :: "mlir_lib \<Rightarrow> block_ref \<Rightarrow> mlir_ty \<Rightarrow> mlir_ty \<Rightarrow> mlir_module \<Rightarrow> emitted" where
  "zeros_of lib blk t tensor_ty m =
     (if \<not> is_integer t \<and> \<not> is_float t then splat_null lib blk t tensor_ty m else splat_zero lib blk t tensor_ty m)"

definition splat_scalar_const :: "block_ref \<Rightarrow> mlir_value \<Rightarrow> mlir_ty \<Rightarrow> mlir_module \<Rightarrow> mlir_value \<times> mlir_module" where
  "splat_scalar_const blk v result_ty m = (if is_tensor result_ty then splat blk v result_ty m else (v, m))"

end
