(* ===== verification/Kernel_Shape.thy ===== *)
theory Kernel_Shape
  imports Kernel_Args
begin

text \<open>
  Handlers of the kernel library that create tensors and change their shape or element type
  (\<open>triton/ops/triton/tensor.rs\<close>). Shapes come from the tables of constant slices. Several handlers return their
  argument unchanged when the shapes do not fit.
\<close>

section \<open>Slices of constants\<close>

text \<open>\<open>transmute\<close> of a pair of a pointer and a length hands the shape of the pair on to the destination.\<close>

definition transmute_tables :: "operand list \<Rightarrow> local \<Rightarrow> codegen_state \<Rightarrow> codegen_state" where
  "transmute_tables args dest st =
     (case args of
        [] \<Rightarrow> st
      | op1 # _ \<Rightarrow>
          (case place_local op1 of
             None \<Rightarrow> st
           | Some l \<Rightarrow>
               (case slice_shape st l of
                  Some shape \<Rightarrow> set_slice_shape dest shape st
                | None \<Rightarrow>
                    (case slice_dyn_values st l of
                       Some vals \<Rightarrow> set_slice_dyn_values dest vals st
                     | None \<Rightarrow> st))))"

definition codegen_transmute_slice :: "codegen_ctx \<Rightarrow> call_handler" where
  "codegen_transmute_slice cc mir func nm args dest blk st m = give_none (transmute_tables args (p_local dest) st) m"

section \<open>Constant tensors\<close>

definition zeros_shape :: "codegen_state \<Rightarrow> operand list \<Rightarrow> i64 list" where
  "zeros_shape st args =
     (case args of
        [] \<Rightarrow> [1]
      | op1 # _ \<Rightarrow> (case Option.bind (place_local op1) (slice_shape st) of Some shape \<Rightarrow> shape | None \<Rightarrow> [1]))"

definition codegen_zeros :: "codegen_ctx \<Rightarrow> call_handler" where
  "codegen_zeros cc mir func nm args dest blk st m =
     bind_res (dest_mlir_ty cc mir dest) (\<lambda>dest_mlir.
       let t = elem_ty_from_type dest_mlir in
       bind_res (zeros_of (cc_lib cc) blk t (tensor_type (zeros_shape st args) t) m) (give st))"

definition codegen_zeros_like :: "codegen_ctx \<Rightarrow> call_handler" where
  "codegen_zeros_like cc mir func nm args dest blk st m =
     bind_res (debug_assert (length args = 1)) (\<lambda>_.
     bind_res (eval_arg cc mir blk st args 0 m) (\<lambda>(tensor, m1).
     bind_res (ranked (v_ty tensor)) (\<lambda>(dims, t).
     bind_res (zeros_of (cc_lib cc) blk t (v_ty tensor) m1) (give st))))"

definition codegen_zeros_pointer_call :: "codegen_ctx \<Rightarrow> call_handler" where
  "codegen_zeros_pointer_call cc mir func nm args dest blk st m =
     (case args of
        [] \<Rightarrow> codegen_ub_stub cc mir dest blk st m
      | op1 # _ \<Rightarrow>
          catch_err (call_arg cc mir blk st op1 m)
            (\<lambda>(v, m1). bind_res (zeros_like v m1) (give st))
            (codegen_ub_stub cc mir dest blk st m))"

definition full_result_ty :: "codegen_state \<Rightarrow> operand \<Rightarrow> mlir_ty \<Rightarrow> mlir_ty" where
  "full_result_ty st op1 mapped_ty =
     (case Option.bind (place_local op1) (slice_shape st) of
        Some shape \<Rightarrow> tensor_type shape (elem_ty_from_type mapped_ty)
      | None \<Rightarrow> mapped_ty)"

definition codegen_full_call :: "codegen_ctx \<Rightarrow> call_handler" where
  "codegen_full_call cc mir func nm args dest blk st m =
     bind_res (eval_arg cc mir blk st args 1 m) (\<lambda>(v, m1).
     bind_res (dest_mlir_ty cc mir dest) (\<lambda>mapped_ty.
     bind_res (nth_arg args 0) (\<lambda>op0.
       give st (splat_scalar_const blk v (full_result_ty st op0 mapped_ty) m1))))"

section \<open>Concatenation and casts\<close>

fun add_dims :: "i64 list \<Rightarrow> i64 list \<Rightarrow> i64 list res" where
  "add_dims (l # ls) (r # rs) =
     bind_res (expect (add_i64 l r)) (\<lambda>d. bind_res (add_dims ls rs) (\<lambda>ds. Ok (d # ds)))"
| "add_dims _ _ = Ok []"

definition codegen_cat_call :: "codegen_ctx \<Rightarrow> call_handler" where
  "codegen_cat_call cc mir func nm args dest blk st m =
     bind_res (nth_arg args 0) (\<lambda>_.
     bind_res (nth_arg args 1) (\<lambda>_.
     bind_res (eval_arg cc mir blk st args 0 m) (\<lambda>(lhs, m1).
     bind_res (eval_arg cc mir blk st args 1 m1) (\<lambda>(rhs, m2).
     bind_res (ranked (v_ty lhs)) (\<lambda>(lhs_dims, t).
     bind_res (ranked (v_ty rhs)) (\<lambda>(rhs_dims, _).
     bind_res (add_dims lhs_dims rhs_dims) (\<lambda>dims.
       give st (emit1 blk ''tt.cat'' [lhs, rhs] [] (tensor_type dims t) m2))))))))"

text \<open>A destination with an unknown dimension gets the shape of the source.\<close>

definition cast_dest_ty :: "mlir_ty \<Rightarrow> mlir_ty \<Rightarrow> mlir_ty res" where
  "cast_dest_ty src_ty dest_mlir =
     (case as_tensor dest_mlir of
        Some (dims, dest_elem) \<Rightarrow>
          if dynamic_dim \<in> set dims
          then bind_res (ranked src_ty) (\<lambda>(src_dims, _). Ok (tensor_type src_dims dest_elem))
          else Ok dest_mlir
      | None \<Rightarrow> Ok dest_mlir)"

definition cast_op :: "mlir_ty \<Rightarrow> mlir_ty \<Rightarrow> string" where
  "cast_op src_elem dst_elem =
     (if is_float src_elem \<and> is_float dst_elem
      then if float_bits dst_elem < float_bits src_elem then ''arith.truncf'' else ''arith.extf''
      else if is_integer src_elem \<and> is_float dst_elem then ''arith.sitofp''
      else if is_float src_elem \<and> is_integer dst_elem then ''arith.fptosi''
      else ''arith.trunci'')"

definition codegen_cast_call :: "codegen_ctx \<Rightarrow> call_handler" where
  "codegen_cast_call cc mir func nm args dest blk st m =
     bind_res (eval_arg cc mir blk st args 0 m) (\<lambda>(src, m1).
     bind_res (dest_mlir_ty cc mir dest) (\<lambda>dest_mlir.
     bind_res (cast_dest_ty (v_ty src) dest_mlir) (\<lambda>t.
       if v_ty src = t then give st (src, m1)
       else give st (emit1 blk (cast_op (elem_ty src) (elem_ty_from_type t)) [src] [] t m1))))"

section \<open>Broadcasting\<close>

definition broadcast_unless :: "block_ref \<Rightarrow> bool \<Rightarrow> mlir_value \<Rightarrow> mlir_ty \<Rightarrow> mlir_module \<Rightarrow> mlir_value \<times> mlir_module" where
  "broadcast_unless blk same v t m = (if same then (v, m) else broadcast blk v t m)"

definition codegen_broadcast_call :: "codegen_ctx \<Rightarrow> call_handler" where
  "codegen_broadcast_call cc mir func nm args dest blk st m =
     bind_res (nth_arg args 0) (\<lambda>_.
     bind_res (nth_arg args 1) (\<lambda>_.
     bind_res (eval_arg cc mir blk st args 0 m) (\<lambda>(lhs, m1).
     bind_res (eval_arg cc mir blk st args 1 m1) (\<lambda>(rhs, m2).
     bind_res (ranked (v_ty lhs)) (\<lambda>(lhs_dims, t).
     bind_res (ranked (v_ty rhs)) (\<lambda>(rhs_dims, _).
       let dims = map (\<lambda>(l, r). broadcast_dim l r) (zip lhs_dims rhs_dims);
           result_ty = tensor_type dims t;
           (lhs_out, m3) = broadcast_unless blk (lhs_dims = dims) lhs result_ty m2;
           (rhs_out, m4) = broadcast_unless blk (rhs_dims = dims) rhs result_ty m3 in
       give_none (set_tuple (p_local dest) [lhs_out, rhs_out] st) m4))))))"

definition broadcast_valid :: "i64 list \<Rightarrow> i64 list \<Rightarrow> bool" where
  "broadcast_valid src_dims shape \<longleftrightarrow>
     length src_dims = length shape \<and>
     list_all (\<lambda>(s, t). s = 1 \<or> s = t \<or> s = dynamic_dim \<or> t = dynamic_dim) (zip src_dims shape)"

definition codegen_broadcast_to_call :: "codegen_ctx \<Rightarrow> call_handler" where
  "codegen_broadcast_to_call cc mir func nm args dest blk st m =
     bind_res (eval_arg cc mir blk st args 0 m) (\<lambda>(src, m1).
     bind_res (nth_arg args 1) (\<lambda>op1.
     bind_res (shape_from_slice_arg st op1) (\<lambda>shape.
     bind_res (ranked (v_ty src)) (\<lambda>(src_dims, t).
       if broadcast_valid src_dims shape then give st (broadcast blk src (tensor_type shape t) m1)
       else give st (src, m1)))))"

section \<open>Dimensions\<close>

text \<open>The position of a new dimension; \<open>Vec::insert\<close> panics behind the end.\<close>

definition expand_index :: "nat \<Rightarrow> i32 \<Rightarrow> int" where
  "expand_index rank axis = (if sint axis < 0 then int rank + sint axis + 1 else sint axis)"

definition insert_dim :: "i64 list \<Rightarrow> i32 \<Rightarrow> i64 list res" where
  "insert_dim dims axis =
     (let i = expand_index (length dims) axis in
      if 0 \<le> i \<and> i \<le> int (length dims) then Ok (take (nat i) dims @ 1 # drop (nat i) dims) else Panic)"

definition codegen_expand_dims_call :: "codegen_ctx \<Rightarrow> call_handler" where
  "codegen_expand_dims_call cc mir func nm args dest blk st m =
     bind_res (eval_arg cc mir blk st args 0 m) (\<lambda>(src, m1).
     bind_res (nth_arg args 1) (\<lambda>op1.
     bind_res (map_err CodegenFailed (scalar_int_arg cc op1)) (\<lambda>s.
     bind_res (expect (to_i32 s)) (\<lambda>axis.
       case as_tensor (v_ty src) of
         Some (src_dims, t) \<Rightarrow>
           bind_res (insert_dim src_dims axis) (\<lambda>dims. give st (expand_dims blk src axis (tensor_type dims t) m1))
       | None \<Rightarrow> give st (splat blk src (tensor_type [1] (v_ty src)) m1)))))"

definition permute_dim :: "i64 list \<Rightarrow> i32 \<Rightarrow> i64 res" where
  "permute_dim dims i = (if sint i < 0 then Panic else expect (vec_index dims (nat (sint i))))"

definition codegen_permute_call :: "codegen_ctx \<Rightarrow> call_handler" where
  "codegen_permute_call cc mir func nm args dest blk st m =
     bind_res (eval_arg cc mir blk st args 0 m) (\<lambda>(src, m1).
     bind_res (nth_arg args 1) (\<lambda>op1.
     bind_res (shape_from_slice_arg_i32 st op1) (\<lambda>order.
     bind_res (ranked (v_ty src)) (\<lambda>(src_dims, t).
       if length order \<noteq> length src_dims then give st (src, m1)
       else bind_res (collect_res (map (permute_dim src_dims) order)) (\<lambda>dims.
              give st (trans_op blk src order (tensor_type dims t) m1))))))"

definition codegen_trans_call :: "codegen_ctx \<Rightarrow> call_handler" where
  "codegen_trans_call cc = codegen_permute_call cc"

text \<open>The number of elements; a product that overflows is a panic.\<close>

definition numel :: "i64 list \<Rightarrow> i64 res" where
  "numel dims = expect (foldl (\<lambda>acc d. Option.bind acc (\<lambda>a. mul_i64 a d)) (Some 1) dims)"

definition numel_mismatch :: "i64 \<Rightarrow> i64 \<Rightarrow> bool" where
  "numel_mismatch src_numel dst_numel \<longleftrightarrow> src_numel \<noteq> dst_numel \<and> 0 < sint src_numel \<and> 0 < sint dst_numel"

definition reshape_to ::
    "block_ref \<Rightarrow> mlir_value \<Rightarrow> i64 list \<Rightarrow> bool \<Rightarrow> codegen_state \<Rightarrow> mlir_module \<Rightarrow> (mlir_value option \<times> codegen_state \<times> mlir_module) res" where
  "reshape_to blk src shape allow_reorder st m =
     bind_res (ranked (v_ty src)) (\<lambda>(src_dims, t).
     bind_res (numel src_dims) (\<lambda>src_numel.
     bind_res (numel shape) (\<lambda>dst_numel.
       if numel_mismatch src_numel dst_numel then give st (src, m)
       else give st (reshape blk src (tensor_type shape t) allow_reorder False m))))"

definition codegen_reshape_call :: "codegen_ctx \<Rightarrow> call_handler" where
  "codegen_reshape_call cc mir func nm args dest blk st m =
     bind_res (eval_arg cc mir blk st args 0 m) (\<lambda>(src, m1).
     bind_res (nth_arg args 1) (\<lambda>op1.
     bind_res (shape_from_slice_arg st op1) (\<lambda>shape.
     bind_res (flag_u8 cc args 2) (\<lambda>allow_reorder. reshape_to blk src shape allow_reorder st m1))))"

definition codegen_view_call :: "codegen_ctx \<Rightarrow> call_handler" where
  "codegen_view_call cc mir func nm args dest blk st m =
     bind_res (eval_arg cc mir blk st args 0 m) (\<lambda>(src, m1).
     bind_res (nth_arg args 1) (\<lambda>op1.
     bind_res (shape_from_slice_arg st op1) (\<lambda>shape. reshape_to blk src shape False st m1)))"

definition codegen_ravel_call :: "codegen_ctx \<Rightarrow> call_handler" where
  "codegen_ravel_call cc mir func nm args dest blk st m =
     bind_res (eval_arg cc mir blk st args 0 m) (\<lambda>(src, m1).
     bind_res (flag_u8 cc args 1) (\<lambda>allow_reorder.
     bind_res (ranked (v_ty src)) (\<lambda>(src_dims, t).
     bind_res (numel src_dims) (\<lambda>total.
       if length src_dims = 1 \<or> sint total < 0 then give st (src, m1)
       else give st (reshape blk src (tensor_type [total] t) allow_reorder False m1)))))"

section \<open>Joining and splitting\<close>

definition codegen_join_call :: "codegen_ctx \<Rightarrow> call_handler" where
  "codegen_join_call cc mir func nm args dest blk st m =
     bind_res (eval_arg cc mir blk st args 0 m) (\<lambda>(lhs, m1).
     bind_res (eval_arg cc mir blk st args 1 m1) (\<lambda>(rhs, m2).
     bind_res (ranked (v_ty lhs)) (\<lambda>(src_dims, t).
       give st (join blk lhs rhs (tensor_type (src_dims @ [2]) t) m2))))"

definition interleave_dims :: "i64 list \<Rightarrow> i64 list res" where
  "interleave_dims dims =
     bind_res (expect (mul_i64 2 (if dims = [] then 1 else last dims))) (\<lambda>n. Ok (butlast dims @ [n]))"

definition codegen_interleave_call :: "codegen_ctx \<Rightarrow> call_handler" where
  "codegen_interleave_call cc mir func nm args dest blk st m =
     bind_res (eval_arg cc mir blk st args 0 m) (\<lambda>(lhs, m1).
     bind_res (eval_arg cc mir blk st args 1 m1) (\<lambda>(rhs, m2).
     bind_res (ranked (v_ty lhs)) (\<lambda>(src_dims, t).
       let (joined, m3) = join blk lhs rhs (tensor_type (src_dims @ [2]) t) m2 in
       bind_res (interleave_dims src_dims) (\<lambda>dims.
         give st (reshape blk joined (tensor_type dims t) False False m3)))))"

definition codegen_split_call :: "codegen_ctx \<Rightarrow> call_handler" where
  "codegen_split_call cc mir func nm args dest blk st m =
     bind_res (eval_arg cc mir blk st args 0 m) (\<lambda>(src, m1).
     bind_res (ranked (v_ty src)) (\<lambda>(src_dims, t).
       if (if src_dims = [] then 0 else last src_dims) \<noteq> 2
       then give_none (set_tuple (p_local dest) [src, src] st) m1
       else let (vs, m2) = split_op blk src (tensor_type (butlast src_dims) t) m1 in
            give_none (set_tuple (p_local dest) vs st) m2))"

definition codegen_gather_call :: "codegen_ctx \<Rightarrow> call_handler" where
  "codegen_gather_call cc mir func nm args dest blk st m =
     bind_res (eval_arg cc mir blk st args 0 m) (\<lambda>(src, m1).
     bind_res (eval_arg cc mir blk st args 1 m1) (\<lambda>(indices, m2).
     bind_res (nth_arg args 2) (\<lambda>op2.
     bind_res (axis_or_0 cc op2) (\<lambda>axis.
     bind_res (dest_mlir_ty cc mir dest) (\<lambda>result_ty.
       give st (gather blk src indices axis False result_ty m2))))))"

text \<open>Hints for the compiler return their argument.\<close>

definition hint_handler :: "codegen_ctx \<Rightarrow> call_handler" where
  "hint_handler cc mir func nm args dest blk st m = bind_res (eval_arg cc mir blk st args 0 m) (give st)"

definition codegen_multiple_of_call :: "codegen_ctx \<Rightarrow> call_handler" where
  "codegen_multiple_of_call = hint_handler"

definition codegen_max_contiguous_call :: "codegen_ctx \<Rightarrow> call_handler" where
  "codegen_max_contiguous_call = hint_handler"

definition codegen_max_constancy_call :: "codegen_ctx \<Rightarrow> call_handler" where
  "codegen_max_constancy_call = hint_handler"

lemmas kernel_shape_defs =
  codegen_transmute_slice_def codegen_zeros_def codegen_zeros_like_def codegen_zeros_pointer_call_def
  codegen_full_call_def codegen_cat_call_def codegen_cast_call_def codegen_broadcast_call_def
  codegen_broadcast_to_call_def codegen_expand_dims_call_def codegen_permute_call_def codegen_trans_call_def
  reshape_to_def codegen_reshape_call_def codegen_view_call_def codegen_ravel_call_def codegen_join_call_def
  codegen_interleave_call_def codegen_split_call_def codegen_gather_call_def hint_handler_def
  codegen_multiple_of_call_def codegen_max_contiguous_call_def codegen_max_constancy_call_def

end
