(* ===== verification/Kernel_Memory.thy ===== *)
theory Kernel_Memory
  imports Kernel_Args Triton_Binops
begin

text \<open>
  Handlers of the kernel library that deal with program identifiers, ranges, pointers and memory
  (\<open>triton/ops/triton/program.rs\<close>, \<open>tensor.rs\<close>): loads and stores, block pointers, tensor descriptors, atomic operations.
\<close>

section \<open>Programs and ranges\<close>

definition codegen_program_id :: "codegen_ctx \<Rightarrow> call_handler" where
  "codegen_program_id cc mir func nm args dest blk st m =
     bind_res (debug_assert (length args = 1)) (\<lambda>_.
     bind_res (nth_arg args 0) (\<lambda>op1.
     bind_res (scalar_int_arg cc op1) (\<lambda>s.
     bind_res (program_axis_from (ucast (si_data s))) (\<lambda>axis.
       give st (create_get_program_id blk axis m)))))"

definition codegen_num_programs_call :: "codegen_ctx \<Rightarrow> call_handler" where
  "codegen_num_programs_call cc mir func nm args dest blk st m =
     bind_res (nth_arg args 0) (\<lambda>op1.
     bind_res (axis_or_0 cc op1) (\<lambda>axis_val.
     bind_res (program_axis_from axis_val) (\<lambda>axis.
       give st (create_get_num_programs blk axis m))))"

definition range_args :: "codegen_ctx \<Rightarrow> body \<Rightarrow> operand list \<Rightarrow> (i32 \<times> i32) res" where
  "range_args cc mir args =
     bind_res (debug_assert (length args = 2)) (\<lambda>_.
     bind_res (nth_arg args 0) (\<lambda>op0.
     bind_res (eval_const_i32 cc mir op0) (\<lambda>start.
     bind_res (nth_arg args 1) (\<lambda>op1.
     bind_res (eval_const_i32 cc mir op1) (\<lambda>end'. Ok (start, end'))))))"

definition codegen_arange :: "codegen_ctx \<Rightarrow> call_handler" where
  "codegen_arange cc mir func nm args dest blk st m =
     bind_res (range_args cc mir args) (\<lambda>(start, end').
     bind_res (make_range blk start end' m) (give st))"

definition codegen_arange_f32 :: "codegen_ctx \<Rightarrow> call_handler" where
  "codegen_arange_f32 cc mir func nm args dest blk st m =
     bind_res (range_args cc mir args) (\<lambda>(start, end').
     bind_res (expect (sub_i32 end' start)) (\<lambda>n.
     bind_res (make_range blk start end' m) (\<lambda>(i32_range, m1).
       give st (emit1 blk ''arith.sitofp'' [i32_range] [] (tensor_type [scast n] MT_F32) m1))))"

section \<open>Loads and stores\<close>

definition codegen_add_ptr :: "codegen_ctx \<Rightarrow> call_handler" where
  "codegen_add_ptr cc mir func nm args dest blk st m =
     bind_res (debug_assert (length args = 2)) (\<lambda>_.
     bind_res (eval_arg cc mir blk st args 0 m) (\<lambda>(ptr, m1).
     bind_res (eval_arg cc mir blk st args 1 m1) (\<lambda>(offset, m2).
     bind_res (debug_assert (is_tensor (v_ty offset))) (\<lambda>_.
     bind_res (like_tensor blk offset ptr m2) (\<lambda>(ptr', m3).
       give st (add_ptr blk ptr' offset (v_ty ptr') m3))))))"

text \<open>The result of a load has the shape of the pointers and the element type of the destination.\<close>

definition load_result_ty :: "mlir_ty \<Rightarrow> mlir_ty \<Rightarrow> mlir_ty" where
  "load_result_ty ptr_ty dest_mlir =
     (case as_tensor ptr_ty of
        Some (shape, _) \<Rightarrow> tensor_type shape (elem_ty_from_type dest_mlir)
      | None \<Rightarrow> dest_mlir)"

definition codegen_load :: "codegen_ctx \<Rightarrow> call_handler" where
  "codegen_load cc mir func nm args dest blk st m =
     bind_res (eval_arg cc mir blk st args 0 m) (\<lambda>(ptr, m1).
     bind_res (eval_option_arg cc mir blk st args 1 m1) (\<lambda>(msk, m2).
     bind_res (eval_option_arg cc mir blk st args 2 m2) (\<lambda>(other, m3).
     bind_res (dest_mlir_ty cc mir dest) (\<lambda>dest_mlir.
       give st (load blk ptr msk other (load_result_ty (v_ty ptr) dest_mlir) Cache_None Evict_Normal False m3)))))"

definition codegen_load_scalar_f32_as_i32 :: "codegen_ctx \<Rightarrow> call_handler" where
  "codegen_load_scalar_f32_as_i32 cc mir func nm args dest blk st m =
     bind_res (debug_assert (length args = 2)) (\<lambda>_.
     bind_res (eval_arg cc mir blk st args 0 m) (\<lambda>(ptr, m1).
     bind_res (eval_arg cc mir blk st args 1 m1) (\<lambda>(offset, m2).
       let (new_ptr, m3) = add_ptr blk ptr offset (pointer_type MT_F32) m2;
           (f32_val, m4) = load blk new_ptr None None MT_F32 Cache_None Evict_Normal False m3 in
       give st (emit1 blk ''arith.fptosi'' [f32_val] [] (MT_Integer 32) m4))))"

definition codegen_store :: "codegen_ctx \<Rightarrow> call_handler" where
  "codegen_store cc mir func nm args dest blk st m =
     bind_res (eval_arg cc mir blk st args 0 m) (\<lambda>(ptr, m1).
     bind_res (eval_arg cc mir blk st args 1 m1) (\<lambda>(v, m2).
     bind_res (eval_option_arg cc mir blk st args 2 m2) (\<lambda>(msk, m3).
       give_none st (store blk ptr v msk Cache_None Evict_Normal m3))))"

definition codegen_load_full_call :: "codegen_ctx \<Rightarrow> call_handler" where
  "codegen_load_full_call cc = codegen_load cc"

definition codegen_store_full_call :: "codegen_ctx \<Rightarrow> call_handler" where
  "codegen_store_full_call cc = codegen_store cc"

section \<open>Block pointers\<close>

definition codegen_make_block_ptr_call :: "codegen_ctx \<Rightarrow> call_handler" where
  "codegen_make_block_ptr_call cc mir func nm args dest blk st m =
     bind_res (eval_arg cc mir blk st args 0 m) (\<lambda>(base, m1).
     bind_res (nth_arg args 1) (\<lambda>op1.
     bind_res (slice_as_i64_values (cc_lib cc) st op1 blk m1) (\<lambda>(shape, m2).
     bind_res (nth_arg args 2) (\<lambda>op2.
     bind_res (slice_as_i64_values (cc_lib cc) st op2 blk m2) (\<lambda>(strides, m3).
     bind_res (nth_arg args 3) (\<lambda>op3.
     bind_res (slice_as_i32_values (cc_lib cc) st op3 blk m3) (\<lambda>(offsets, m4).
     bind_res (nth_arg args 4) (\<lambda>op4.
       case place_local op4 of
         None \<Rightarrow> codegen_ub_stub cc mir dest blk st m4
       | Some l \<Rightarrow>
           let order = map ucast (case slice_shape st l of Some ns \<Rightarrow> ns | None \<Rightarrow> []) in
           bind_res (dest_mlir_ty cc mir dest) (\<lambda>result_ty.
           bind_res (make_tensor_ptr blk base shape strides offsets order result_ty m4) (give st))))))))))"

text \<open>A failed slice is replaced by a placeholder; the error is caught, a panic is not.\<close>

definition codegen_advance_call :: "codegen_ctx \<Rightarrow> call_handler" where
  "codegen_advance_call cc mir func nm args dest blk st m =
     bind_res (eval_arg cc mir blk st args 0 m) (\<lambda>(ptr, m1).
     bind_res (nth_arg args 1) (\<lambda>op1.
     catch_err (slice_as_i32_values (cc_lib cc) st op1 blk m1)
       (\<lambda>(offsets, m2). give st (advance blk ptr offsets (v_ty ptr) m2))
       (codegen_ub_stub cc mir dest blk st m1)))"

section \<open>Tensor descriptors\<close>

definition set_desc_block_shape :: "local \<Rightarrow> i64 list \<Rightarrow> codegen_state \<Rightarrow> codegen_state" where
  "set_desc_block_shape l ns st = st\<lparr>desc_block_shapes := (desc_block_shapes st)(l \<mapsto> ns)\<rparr>"

text \<open>The block shape is recorded first, whatever happens to the descriptor.\<close>

definition record_block_shape :: "operand list \<Rightarrow> local \<Rightarrow> codegen_state \<Rightarrow> codegen_state" where
  "record_block_shape args l st =
     (case vec_index args 3 of
        None \<Rightarrow> st
      | Some op1 \<Rightarrow>
          (case shape_from_slice_arg_i32 st op1 of
             Ok block_shape \<Rightarrow> set_desc_block_shape l (map scast block_shape) st
           | _ \<Rightarrow> st))"

text \<open>The name of the element type in the text of a descriptor type.\<close>

definition desc_elem_name :: "ty \<Rightarrow> rstr res" where
  "desc_elem_name t =
     (case t of
        Ty_Adt _ (a # _) \<Rightarrow>
          bind_res (expect_ty a) (\<lambda>e.
            Ok (case e of
                  Ty_Float F32 \<Rightarrow> lit ''f32''
                | Ty_Float F64 \<Rightarrow> lit ''f64''
                | Ty_Int I32 \<Rightarrow> lit ''i32''
                | Ty_Int I64 \<Rightarrow> lit ''i64''
                | _ \<Rightarrow> lit ''f32''))
      | _ \<Rightarrow> Ok (lit ''f32''))"

fun join_dims :: "i64 list \<Rightarrow> rstr" where
  "join_dims [] = []"
| "join_dims [d] = to_string (sint d)"
| "join_dims (d # ds) = to_string (sint d) @ lit ''x'' @ join_dims ds"

definition desc_type_text :: "i64 list \<Rightarrow> rstr \<Rightarrow> rstr" where
  "desc_type_text block_shape elem = lit ''!tt.tensordesc<'' @ join_dims block_shape @ lit ''x'' @ elem @ lit ''>''"

definition desc_result_ty :: "codegen_ctx \<Rightarrow> body \<Rightarrow> place \<Rightarrow> codegen_state \<Rightarrow> mlir_ty res" where
  "desc_result_ty cc mir dest st =
     (case desc_block_shapes st (p_local dest) of
        Some block_shape \<Rightarrow>
          bind_res (dest_ty cc mir dest) (\<lambda>t.
          bind_res (desc_elem_name t) (\<lambda>elem.
            expect (ml_parse_type (cc_lib cc) (desc_type_text block_shape elem))))
      | None \<Rightarrow> dest_mlir_ty cc mir dest)"

text \<open>Strides are sign-extended to 64 bits.\<close>

definition extend_stride :: "block_ref \<Rightarrow> mlir_value \<Rightarrow> mlir_module \<Rightarrow> emitted" where
  "extend_stride blk v m = Ok (create_extsi blk v (MT_Integer 64) m)"

definition make_descriptor ::
    "codegen_ctx \<Rightarrow> body \<Rightarrow> place \<Rightarrow> block_ref \<Rightarrow> codegen_state \<Rightarrow> mlir_value \<Rightarrow> mlir_value list \<Rightarrow> mlir_value list \<Rightarrow>
     mlir_module \<Rightarrow> (mlir_value option \<times> codegen_state \<times> mlir_module) res" where
  "make_descriptor cc mir dest blk st base shape strides_i32 m =
     bind_res (map_res (extend_stride blk) strides_i32 m) (\<lambda>(strides, m1).
     bind_res (desc_result_ty cc mir dest st) (\<lambda>result_ty.
     bind_res (make_tensor_descriptor blk base shape strides PadZero result_ty m1) (give st)))"

definition codegen_make_tensor_descriptor_call :: "codegen_ctx \<Rightarrow> call_handler" where
  "codegen_make_tensor_descriptor_call cc mir func nm args dest blk st0 m =
     (let st = record_block_shape args (p_local dest) st0 in
      bind_res (eval_arg cc mir blk st args 0 m) (\<lambda>(base, m1).
      bind_res (nth_arg args 1) (\<lambda>op1.
      catch_err (slice_as_i32_values (cc_lib cc) st op1 blk m1)
        (\<lambda>(shape, m2).
          bind_res (nth_arg args 2) (\<lambda>op2.
          catch_err (slice_as_i32_values (cc_lib cc) st op2 blk m2)
            (\<lambda>(strides_i32, m3). make_descriptor cc mir dest blk st base shape strides_i32 m3)
            (codegen_ub_stub cc mir dest blk st m2)))
        (codegen_ub_stub cc mir dest blk st m1))))"

text \<open>The result of a descriptor load has the block shape of the descriptor when its local has one.\<close>

definition desc_load_ty :: "codegen_state \<Rightarrow> operand \<Rightarrow> mlir_ty \<Rightarrow> mlir_ty" where
  "desc_load_ty st op1 dest_mlir =
     (case Option.bind (bare_local op1) (desc_block_shapes st) of
        Some block_shape \<Rightarrow> tensor_type block_shape (elem_ty_from_type dest_mlir)
      | None \<Rightarrow> dest_mlir)"

definition codegen_load_tensor_descriptor_call :: "codegen_ctx \<Rightarrow> call_handler" where
  "codegen_load_tensor_descriptor_call cc mir func nm args dest blk st m =
     bind_res (nth_arg args 1) (\<lambda>op1.
     bind_res (nth_arg args 0) (\<lambda>op0.
     bind_res (eval_arg cc mir blk st args 0 m) (\<lambda>(desc, m1).
     catch_err (slice_as_i32_values (cc_lib cc) st op1 blk m1)
       (\<lambda>(indices, m2).
         bind_res (dest_mlir_ty cc mir dest) (\<lambda>dest_mlir.
           give st (descriptor_load blk desc indices (desc_load_ty st op0 dest_mlir) Cache_None Evict_Normal m2)))
       (codegen_ub_stub cc mir dest blk st m1))))"

definition codegen_store_tensor_descriptor_call :: "codegen_ctx \<Rightarrow> call_handler" where
  "codegen_store_tensor_descriptor_call cc mir func nm args dest blk st m =
     bind_res (eval_arg cc mir blk st args 0 m) (\<lambda>(desc, m1).
     bind_res (nth_arg args 1) (\<lambda>op1.
     catch_err (slice_as_i32_values (cc_lib cc) st op1 blk m1)
       (\<lambda>(indices, m2).
         bind_res (eval_arg cc mir blk st args 2 m2) (\<lambda>(src, m3).
           give_none st (descriptor_store blk desc src indices m3)))
       (give_none st m1)))"

section \<open>Atomic operations\<close>

text \<open>An optional argument that may be missing.\<close>

definition eval_mask ::
    "codegen_ctx \<Rightarrow> body \<Rightarrow> block_ref \<Rightarrow> codegen_state \<Rightarrow> operand list \<Rightarrow> nat \<Rightarrow> mlir_module \<Rightarrow> (mlir_value option \<times> mlir_module) res" where
  "eval_mask cc mir blk st args i m =
     (if i < length args then eval_option_arg cc mir blk st args i m else Ok (None, m))"

definition codegen_atomic_rmw_impl :: "codegen_ctx \<Rightarrow> rmw_op \<Rightarrow> call_handler" where
  "codegen_atomic_rmw_impl cc rmw mir func nm args dest blk st m =
     bind_res (eval_arg cc mir blk st args 0 m) (\<lambda>(ptr, m1).
     bind_res (eval_arg cc mir blk st args 1 m1) (\<lambda>(val, m2).
     bind_res (eval_mask cc mir blk st args 2 m2) (\<lambda>(msk, m3).
       give st (atomic_rmw blk ptr val msk (v_ty val) rmw Sem_Relaxed Scope_Gpu m3))))"

text \<open>The addition looks at the type of its operand first and so evaluates it twice.\<close>

definition codegen_atomic_add_call :: "codegen_ctx \<Rightarrow> call_handler" where
  "codegen_atomic_add_call cc mir func nm args dest blk st m =
     catch_err (eval_arg cc mir blk st args 1 m)
       (\<lambda>(v, m1).
         codegen_atomic_rmw_impl cc (if is_integer (elem_ty v) then Rmw_Add else Rmw_Fadd) mir func nm args dest blk st m1)
       (codegen_atomic_rmw_impl cc Rmw_Fadd mir func nm args dest blk st m)"

definition codegen_atomic_max_call :: "codegen_ctx \<Rightarrow> call_handler" where
  "codegen_atomic_max_call cc = codegen_atomic_rmw_impl cc Rmw_Max"

definition codegen_atomic_min_call :: "codegen_ctx \<Rightarrow> call_handler" where
  "codegen_atomic_min_call cc = codegen_atomic_rmw_impl cc Rmw_Min"

definition codegen_atomic_xchg_call :: "codegen_ctx \<Rightarrow> call_handler" where
  "codegen_atomic_xchg_call cc = codegen_atomic_rmw_impl cc Rmw_Xchg"

definition codegen_atomic_and_call :: "codegen_ctx \<Rightarrow> call_handler" where
  "codegen_atomic_and_call cc = codegen_atomic_rmw_impl cc Rmw_And"

definition codegen_atomic_or_call :: "codegen_ctx \<Rightarrow> call_handler" where
  "codegen_atomic_or_call cc = codegen_atomic_rmw_impl cc Rmw_Or"

definition codegen_atomic_xor_call :: "codegen_ctx \<Rightarrow> call_handler" where
  "codegen_atomic_xor_call cc = codegen_atomic_rmw_impl cc Rmw_Xor"

definition codegen_atomic_cas_call :: "codegen_ctx \<Rightarrow> call_handler" where
  "codegen_atomic_cas_call cc mir func nm args dest blk st m =
     bind_res (eval_arg cc mir blk st args 0 m) (\<lambda>(ptr, m1).
     bind_res (eval_arg cc mir blk st args 1 m1) (\<lambda>(cmp, m2).
     bind_res (eval_arg cc mir blk st args 2 m2) (\<lambda>(val, m3).
       give st (atomic_cas blk ptr cmp val (v_ty val) Sem_Relaxed Scope_Gpu m3))))"

section \<open>Assertions and printing\<close>

definition codegen_assume_call :: "codegen_ctx \<Rightarrow> call_handler" where
  "codegen_assume_call cc mir func nm args dest blk st m = give_none st m"

definition codegen_device_assert_call :: "codegen_ctx \<Rightarrow> call_handler" where
  "codegen_device_assert_call cc mir func nm args dest blk st m =
     bind_res (eval_arg cc mir blk st args 0 m) (\<lambda>(cond, m1).
       give_none st (assert_op blk cond (lit ''device_assert'') m1))"

text \<open>The values that can be printed; an operand that fails is left out. An operand fails before it appends anything.\<close>

fun print_values ::
    "codegen_ctx \<Rightarrow> body \<Rightarrow> block_ref \<Rightarrow> codegen_state \<Rightarrow> operand list \<Rightarrow> mlir_module \<Rightarrow> (mlir_value list \<times> mlir_module) res" where
  "print_values cc mir blk st [] m = Ok ([], m)"
| "print_values cc mir blk st (op1 # ops) m =
     catch_err (call_arg cc mir blk st op1 m)
       (\<lambda>(v, m1). bind_res (print_values cc mir blk st ops m1) (\<lambda>(vs, m2). Ok (v # vs, m2)))
       (print_values cc mir blk st ops m)"

definition codegen_device_print_call :: "codegen_ctx \<Rightarrow> call_handler" where
  "codegen_device_print_call cc mir func nm args dest blk st m =
     bind_res (print_values cc mir blk st (drop 1 args) m) (\<lambda>(vs, m1).
       give_none st (print_op blk (lit ''device_print:'') False vs (map (\<lambda>_. 0) vs) m1))"

lemmas kernel_memory_defs =
  codegen_program_id_def codegen_num_programs_call_def codegen_arange_def codegen_arange_f32_def codegen_add_ptr_def
  codegen_load_def codegen_load_scalar_f32_as_i32_def codegen_store_def codegen_load_full_call_def
  codegen_store_full_call_def codegen_make_block_ptr_call_def codegen_advance_call_def
  codegen_make_tensor_descriptor_call_def codegen_load_tensor_descriptor_call_def
  codegen_store_tensor_descriptor_call_def codegen_atomic_rmw_impl_def codegen_atomic_add_call_def
  codegen_atomic_max_call_def codegen_atomic_min_call_def codegen_atomic_xchg_call_def codegen_atomic_and_call_def
  codegen_atomic_or_call_def codegen_atomic_xor_call_def codegen_atomic_cas_call_def codegen_assume_call_def
  codegen_device_assert_call_def codegen_device_print_call_def

end
