(* ===== verification/Kernel_Math.thy ===== *)
theory Kernel_Math
  imports Kernel_Memory
begin

text \<open>
  Handlers of the kernel library that compute (\<open>triton/ops/triton/tensor.rs\<close>): element-wise functions, division,
  products of matrices, reductions, scans and histograms. A reduction carries a region with one block that combines two
  elements.
\<close>

section \<open>Element-wise operations\<close>

definition codegen_math_unary :: "codegen_ctx \<Rightarrow> string \<Rightarrow> call_handler" where
  "codegen_math_unary cc mlir_op mir func nm args dest blk st m =
     bind_res (eval_arg cc mir blk st args 0 m) (\<lambda>(x, m1). give st (emit1 blk mlir_op [x] [] (v_ty x) m1))"

definition codegen_binary_elementwise :: "codegen_ctx \<Rightarrow> string \<Rightarrow> call_handler" where
  "codegen_binary_elementwise cc mlir_op mir func nm args dest blk st m =
     bind_res (eval_arg cc mir blk st args 0 m) (\<lambda>(lhs, m1).
     bind_res (eval_arg cc mir blk st args 1 m1) (\<lambda>(rhs, m2).
       give st (emit1 blk mlir_op [lhs, rhs] [] (v_ty lhs) m2)))"

definition codegen_abs_call :: "codegen_ctx \<Rightarrow> call_handler" where "codegen_abs_call cc = codegen_math_unary cc ''math.absf''"
definition codegen_ceil_call :: "codegen_ctx \<Rightarrow> call_handler" where "codegen_ceil_call cc = codegen_math_unary cc ''math.ceil''"
definition codegen_floor_call :: "codegen_ctx \<Rightarrow> call_handler" where "codegen_floor_call cc = codegen_math_unary cc ''math.floor''"
definition codegen_cos_call :: "codegen_ctx \<Rightarrow> call_handler" where "codegen_cos_call cc = codegen_math_unary cc ''math.cos''"
definition codegen_sin_call :: "codegen_ctx \<Rightarrow> call_handler" where "codegen_sin_call cc = codegen_math_unary cc ''math.sin''"
definition codegen_exp_call :: "codegen_ctx \<Rightarrow> call_handler" where "codegen_exp_call cc = codegen_math_unary cc ''math.exp''"
definition codegen_exp2_call :: "codegen_ctx \<Rightarrow> call_handler" where "codegen_exp2_call cc = codegen_math_unary cc ''math.exp2''"
definition codegen_log_call :: "codegen_ctx \<Rightarrow> call_handler" where "codegen_log_call cc = codegen_math_unary cc ''math.log''"
definition codegen_log2_call :: "codegen_ctx \<Rightarrow> call_handler" where "codegen_log2_call cc = codegen_math_unary cc ''math.log2''"
definition codegen_sqrt_call :: "codegen_ctx \<Rightarrow> call_handler" where "codegen_sqrt_call cc = codegen_math_unary cc ''math.sqrt''"
definition codegen_erf_call :: "codegen_ctx \<Rightarrow> call_handler" where "codegen_erf_call cc = codegen_math_unary cc ''math.erf''"
definition codegen_fdiv_call :: "codegen_ctx \<Rightarrow> call_handler" where "codegen_fdiv_call cc = codegen_binary_elementwise cc ''arith.divf''"

text \<open>\<open>maximum\<close> is the one of floats whatever the type; \<open>minimum\<close> looks at the type.\<close>

definition codegen_maximum :: "codegen_ctx \<Rightarrow> call_handler" where
  "codegen_maximum cc mir func nm args dest blk st m =
     bind_res (eval_arg cc mir blk st args 0 m) (\<lambda>(lhs, m1).
     bind_res (eval_arg cc mir blk st args 1 m1) (\<lambda>(rhs, m2).
       give st (emit1 blk ''arith.maximumf'' [lhs, rhs] [] (v_ty lhs) m2)))"

definition codegen_minimum_call :: "codegen_ctx \<Rightarrow> call_handler" where
  "codegen_minimum_call cc mir func nm args dest blk st m =
     bind_res (eval_arg cc mir blk st args 0 m) (\<lambda>(lhs, m1).
     bind_res (eval_arg cc mir blk st args 1 m1) (\<lambda>(rhs, m2).
       give st (emit1 blk (choose_float_int_op (elem_ty lhs) ''arith.minimumf'' ''arith.minsi'') [lhs, rhs] [] (v_ty lhs) m2)))"

definition codegen_sqrt_rn_call :: "codegen_ctx \<Rightarrow> call_handler" where
  "codegen_sqrt_rn_call cc mir func nm args dest blk st m =
     bind_res (eval_arg cc mir blk st args 0 m) (\<lambda>(x, m1).
     bind_res (precise_sqrt (cc_lib cc) blk x m1) (give st))"

definition codegen_div_rn_call :: "codegen_ctx \<Rightarrow> call_handler" where
  "codegen_div_rn_call cc mir func nm args dest blk st m =
     bind_res (eval_arg cc mir blk st args 0 m) (\<lambda>(x, m1).
     bind_res (eval_arg cc mir blk st args 1 m1) (\<lambda>(y, m2).
     bind_res (precise_divf (cc_lib cc) blk x y m2) (give st)))"

definition codegen_umulhi_call :: "codegen_ctx \<Rightarrow> call_handler" where
  "codegen_umulhi_call cc mir func nm args dest blk st m =
     bind_res (eval_arg cc mir blk st args 0 m) (\<lambda>(x, m1).
     bind_res (eval_arg cc mir blk st args 1 m1) (\<lambda>(y, m2).
     bind_res (mulhiui (cc_lib cc) blk x y m2) (give st)))"

text \<open>The reciprocal square root is one divided by the square root.\<close>

definition codegen_rsqrt_call :: "codegen_ctx \<Rightarrow> call_handler" where
  "codegen_rsqrt_call cc mir func nm args dest blk st m =
     bind_res (eval_arg cc mir blk st args 0 m) (\<lambda>(x, m1).
     bind_res (precise_sqrt (cc_lib cc) blk x m1) (\<lambda>(sqrt_val, m2).
       let (one_scalar, m3) = arith_constant blk (Attr_Float float_one (elem_ty x)) m2;
           (one_val, m4) = splat_scalar_const blk one_scalar (v_ty x) m3 in
       bind_res (precise_divf (cc_lib cc) blk one_val sqrt_val m4) (give st)))"

text \<open>The attributes of \<open>atan\<close> are parsed from text.\<close>

definition codegen_atan_call :: "codegen_ctx \<Rightarrow> call_handler" where
  "codegen_atan_call cc mir func nm args dest blk st m =
     bind_res (eval_arg cc mir blk st args 0 m) (\<lambda>(x, m1).
     bind_res (expect (ml_parse_attr (cc_lib cc) (34 # lit ''libdevice'' @ [34]))) (\<lambda>libname.
     bind_res (expect (ml_parse_attr (cc_lib cc) [34, 34])) (\<lambda>libpath.
     bind_res (expect (ml_parse_attr (cc_lib cc) (34 # lit ''__nv_atanf'' @ [34]))) (\<lambda>symbol.
     bind_res (expect (ml_parse_attr (cc_lib cc) (lit ''true''))) (\<lambda>pure.
       give st (emit1 blk ''tt.extern_elementwise'' [x] [libname, libpath, symbol, pure] (v_ty x) m1))))))"

definition scalar_f32 :: "block_ref \<Rightarrow> u64 \<Rightarrow> mlir_module \<Rightarrow> mlir_value \<times> mlir_module" where
  "scalar_f32 blk bits m = arith_constant blk (Attr_Float bits MT_F32) m"

definition codegen_sigmoid_call :: "codegen_ctx \<Rightarrow> call_handler" where
  "codegen_sigmoid_call cc mir func nm args dest blk st m =
     bind_res (eval_arg cc mir blk st args 0 m) (\<lambda>(x, m1).
       let (zero, m2) = scalar_f32 blk float_zero m1 in
       bind_res (codegen_sub (cc_lib cc) blk zero x m2) (\<lambda>(neg_x, m3).
         let (exp_neg_x, m4) = emit1 blk ''math.exp'' [neg_x] [] (v_ty neg_x) m3;
             (one_a, m5) = scalar_f32 blk float_one m4 in
         bind_res (codegen_add (cc_lib cc) blk one_a exp_neg_x m5) (\<lambda>(one_plus, m6).
           let (one_b, m7) = scalar_f32 blk float_one m6 in
           bind_res (codegen_div (cc_lib cc) blk one_b one_plus m7) (give st))))"

definition codegen_clamp_call :: "codegen_ctx \<Rightarrow> call_handler" where
  "codegen_clamp_call cc mir func nm args dest blk st m =
     bind_res (eval_arg cc mir blk st args 0 m) (\<lambda>(x, m1).
     bind_res (eval_arg cc mir blk st args 1 m1) (\<lambda>(min_val, m2).
     bind_res (eval_arg cc mir blk st args 2 m2) (\<lambda>(max_val, m3).
       give st (clampf blk x min_val max_val Nan_None (v_ty x) m3))))"

definition codegen_fma_call :: "codegen_ctx \<Rightarrow> call_handler" where
  "codegen_fma_call cc mir func nm args dest blk st m =
     bind_res (eval_arg cc mir blk st args 0 m) (\<lambda>(a, m1).
     bind_res (eval_arg cc mir blk st args 1 m1) (\<lambda>(b, m2).
     bind_res (eval_arg cc mir blk st args 2 m2) (\<lambda>(c, m3).
       give st (emit1 blk ''math.fma'' [a, b, c] [] (v_ty a) m3))))"

definition codegen_where_call :: "codegen_ctx \<Rightarrow> call_handler" where
  "codegen_where_call cc mir func nm args dest blk st m =
     bind_res (eval_arg cc mir blk st args 0 m) (\<lambda>(cond, m1).
     bind_res (eval_arg cc mir blk st args 1 m1) (\<lambda>(true_val, m2).
     bind_res (eval_arg cc mir blk st args 2 m2) (\<lambda>(false_val, m3).
       give st (emit1 blk ''arith.select'' [cond, true_val, false_val] [] (v_ty true_val) m3))))"

text \<open>Ceiling division as \<open>(a + b - 1) / b\<close>; the one is parsed with the type of \<open>a\<close>.\<close>

definition emit_cdiv :: "mlir_lib \<Rightarrow> block_ref \<Rightarrow> mlir_value \<Rightarrow> mlir_value \<Rightarrow> mlir_module \<Rightarrow> emitted" where
  "emit_cdiv lib blk a b m =
     (case ml_parse_attr lib (lit ''1 : '' @ ml_print_type lib (v_ty a)) of
        None \<Rightarrow> Err CodegenFailed
      | Some one_attr \<Rightarrow>
          let t = v_ty a;
              (one, m1) = emit1 blk ''arith.constant'' [] [one_attr] t m;
              (sum, m2) = emit1 blk ''arith.addi'' [a, b] [] t m1;
              (numerator, m3) = emit1 blk ''arith.subi'' [sum, one] [] t m2 in
          Ok (emit1 blk ''arith.divsi'' [numerator, b] [] t m3))"

definition codegen_cdiv_call :: "codegen_ctx \<Rightarrow> call_handler" where
  "codegen_cdiv_call cc mir func nm args dest blk st m =
     bind_res (eval_arg cc mir blk st args 0 m) (\<lambda>(a, m1).
     bind_res (eval_arg cc mir blk st args 1 m1) (\<lambda>(b, m2).
     bind_res (emit_cdiv (cc_lib cc) blk a b m2) (give st)))"

section \<open>Products of matrices\<close>

definition dot_dims_ok :: "i64 list \<Rightarrow> i64 list \<Rightarrow> bool" where
  "dot_dims_ok a_dims b_dims \<longleftrightarrow>
     length a_dims = 2 \<and> length b_dims = 2 \<and>
     (a_dims ! 1 = b_dims ! 0 \<or> a_dims ! 1 = dynamic_dim \<or> b_dims ! 0 = dynamic_dim)"

text \<open>The accumulator that is given, or zeros of the shape of the product.\<close>

definition accumulator ::
    "mlir_lib \<Rightarrow> block_ref \<Rightarrow> mlir_ty \<Rightarrow> mlir_ty \<Rightarrow> mlir_value option \<Rightarrow> mlir_module \<Rightarrow> emitted" where
  "accumulator lib blk t out_ty acc m = (case acc of Some v \<Rightarrow> Ok (v, m) | None \<Rightarrow> splat_zero lib blk t out_ty m)"

definition input_precision_of :: "i32 \<Rightarrow> input_precision" where
  "input_precision_of n =
     (if n = 0 then TF32 else if n = 1 then TF32x3 else if n = 2 then IEEE else if n = 3 then BF16x3
      else if n = 4 then BF16x6 else IEEE)"

definition codegen_dot_call :: "codegen_ctx \<Rightarrow> call_handler" where
  "codegen_dot_call cc mir func nm args dest blk st m =
     bind_res (eval_arg cc mir blk st args 0 m) (\<lambda>(a, m1).
     bind_res (eval_arg cc mir blk st args 1 m1) (\<lambda>(b, m2).
       case (as_tensor (v_ty a), as_tensor (v_ty b)) of
         (Some (a_dims, t), Some (b_dims, _)) \<Rightarrow>
           if \<not> dot_dims_ok a_dims b_dims then give st (a, m2)
           else
             bind_res (eval_option_arg cc mir blk st args 2 m2) (\<lambda>(acc, m3).
             bind_res (accumulator (cc_lib cc) blk t (tensor_type [a_dims ! 0, b_dims ! 1] t) acc m3) (\<lambda>(c, m4).
             bind_res (nth_arg args 3) (\<lambda>op3.
             bind_res (scalar_or 2 cc (\<lambda>s. Ok (ucast (to_bits_unchecked s))) op3) (\<lambda>precision_int.
             bind_res (eval_option_arg cc mir blk st args 4 m4) (\<lambda>(_, m5).
               give st (dot blk a b c (input_precision_of precision_int) 0 m5))))))
       | _ \<Rightarrow> give st (a, m2)))"

definition all_types :: "scale_dot_elem_type list" where
  "all_types = [E4M3, E5M2, E2M3, E3M2, E2M1, BF16, FP16]"

definition elem_type_or :: "scale_dot_elem_type \<Rightarrow> u64 \<Rightarrow> scale_dot_elem_type" where
  "elem_type_or d n = (case vec_index all_types (unat n) of Some e \<Rightarrow> e | None \<Rightarrow> d)"

definition codegen_dot_scaled_call :: "codegen_ctx \<Rightarrow> call_handler" where
  "codegen_dot_scaled_call cc mir func nm args dest blk st m =
     bind_res (eval_arg cc mir blk st args 0 m) (\<lambda>(lhs, m1).
     bind_res (eval_arg cc mir blk st args 1 m1) (\<lambda>(lhs_scale, m2).
     bind_res (eval_arg cc mir blk st args 3 m2) (\<lambda>(rhs, m3).
     bind_res (eval_arg cc mir blk st args 4 m3) (\<lambda>(rhs_scale, m4).
       case (as_tensor (v_ty lhs), as_tensor (v_ty rhs)) of
         (Some (lhs_dims, t), Some (rhs_dims, _)) \<Rightarrow>
           if \<not> dot_dims_ok lhs_dims rhs_dims then give st (lhs, m4)
           else
             bind_res (nth_arg args 2) (\<lambda>op2.
             bind_res (scalar_or 0 cc (\<lambda>s. Ok (ucast (to_bits_unchecked s))) op2) (\<lambda>lhs_fmt.
             bind_res (nth_arg args 5) (\<lambda>op5.
             bind_res (scalar_or 0 cc (\<lambda>s. Ok (ucast (to_bits_unchecked s))) op5) (\<lambda>rhs_fmt.
             bind_res (nth_arg args 7) (\<lambda>op7.
             bind_res (flag_bits cc op7) (\<lambda>fast_math.
             bind_res (eval_option_arg cc mir blk st args 6 m4) (\<lambda>(acc, m5).
             bind_res (accumulator (cc_lib cc) blk t (tensor_type [lhs_dims ! 0, rhs_dims ! 1] t) acc m5) (\<lambda>(c, m6).
               give st (dot_scaled blk lhs rhs c (Some lhs_scale) (Some rhs_scale) (elem_type_or E4M3 lhs_fmt)
                          (elem_type_or E5M2 rhs_fmt) fast_math m6)))))))))
       | _ \<Rightarrow> give st (lhs, m4)))))"

section \<open>Reductions\<close>

text \<open>A region of one block that combines two elements and ends in the given return.\<close>

definition combine_region ::
    "(block_ref \<Rightarrow> mlir_value list \<Rightarrow> mlir_module \<Rightarrow> mlir_module) \<Rightarrow> mlir_ty \<Rightarrow> string \<Rightarrow> mlir_module \<Rightarrow> (block_ref \<times> mlir_module) res" where
  "combine_region ret t combine_op m =
     (case new_block [t, t] m of
        (b, [lhs, rhs], m1) \<Rightarrow>
          let (r, m2) = emit1 b combine_op [lhs, rhs] [] t m1 in Ok (b, ret b [r] m2)
      | _ \<Rightarrow> Panic)"

definition build_reduce_region where
  "build_reduce_region = combine_region reduce_return"

definition build_scan_region where
  "build_scan_region = combine_region scan_return"

text \<open>The dimensions without the one at the axis; the index is compared as a 32-bit integer.\<close>

definition reduce_dims :: "i32 \<Rightarrow> i64 list \<Rightarrow> i64 list" where
  "reduce_dims axis dims = map snd (filter (\<lambda>(i, _). (of_nat i :: i32) \<noteq> axis) (enumerate 0 dims))"

definition reduce_result_ty :: "mlir_value \<Rightarrow> i32 \<Rightarrow> mlir_ty" where
  "reduce_result_ty src axis =
     (case as_tensor (v_ty src) of
        Some (dims, e) \<Rightarrow> if reduce_dims axis dims = [] then e else tensor_type (reduce_dims axis dims) e
      | None \<Rightarrow> v_ty src)"

definition emit_reduce :: "block_ref \<Rightarrow> mlir_value \<Rightarrow> i32 \<Rightarrow> mlir_ty \<Rightarrow> string \<Rightarrow> mlir_module \<Rightarrow> emitted" where
  "emit_reduce blk src axis t combine_op m =
     bind_res (build_reduce_region t combine_op m) (\<lambda>(b, m1).
       let (vs, m2) = reduce blk [src] [reduce_result_ty src axis] axis b m1 in
       bind_res (expect (vec_index vs 0)) (\<lambda>r. Ok (r, m2)))"

text \<open>An axis and a flag that may be missing.\<close>

definition axis_arg :: "codegen_ctx \<Rightarrow> operand list \<Rightarrow> i32 res" where
  "axis_arg cc args = (if 1 < length args then bind_res (nth_arg args 1) (axis_or_0 cc) else Ok 0)"

definition keep_dims_arg :: "codegen_ctx \<Rightarrow> operand list \<Rightarrow> bool res" where
  "keep_dims_arg cc args = (if 2 < length args then bind_res (nth_arg args 2) (flag_bits cc) else Ok False)"

text \<open>The reduced axis is kept only when nothing else is left.\<close>

definition keep_reduced ::
    "block_ref \<Rightarrow> mlir_value \<Rightarrow> i32 \<Rightarrow> bool \<Rightarrow> mlir_value \<Rightarrow> mlir_module \<Rightarrow> mlir_value \<times> mlir_module" where
  "keep_reduced blk src axis keep_dims r m =
     (case as_tensor (v_ty src) of
        Some (dims, _) \<Rightarrow>
          if keep_dims \<and> \<not> is_tensor (v_ty r)
          then splat blk r
                 (tensor_type (map (\<lambda>(i, d). if (of_nat i :: i32) = axis then 1 else d) (enumerate 0 dims)) (v_ty r)) m
          else (r, m)
      | None \<Rightarrow> (r, m))"

definition codegen_reduce_unary :: "codegen_ctx \<Rightarrow> string \<Rightarrow> string \<Rightarrow> call_handler" where
  "codegen_reduce_unary cc combine_op_float combine_op_int mir func nm args dest blk st m =
     bind_res (eval_arg cc mir blk st args 0 m) (\<lambda>(src, m1).
     bind_res (axis_arg cc args) (\<lambda>axis.
     bind_res (keep_dims_arg cc args) (\<lambda>keep_dims.
     bind_res (emit_reduce blk src axis (elem_ty src)
                 (choose_float_int_op (elem_ty src) combine_op_float combine_op_int) m1) (\<lambda>(r, m2).
       give st (keep_reduced blk src axis keep_dims r m2)))))"

definition codegen_sum_call :: "codegen_ctx \<Rightarrow> call_handler" where
  "codegen_sum_call cc = codegen_reduce_unary cc ''arith.addf'' ''arith.addi''"

definition codegen_max_call :: "codegen_ctx \<Rightarrow> call_handler" where
  "codegen_max_call cc = codegen_reduce_unary cc ''arith.maximumf'' ''arith.maxsi''"

definition codegen_min_call :: "codegen_ctx \<Rightarrow> call_handler" where
  "codegen_min_call cc = codegen_reduce_unary cc ''arith.minimumf'' ''arith.minsi''"

definition codegen_xor_sum_call :: "codegen_ctx \<Rightarrow> call_handler" where
  "codegen_xor_sum_call cc = codegen_reduce_unary cc ''arith.xori'' ''arith.xori''"

section \<open>Scans and histograms\<close>

definition codegen_scan_unary :: "codegen_ctx \<Rightarrow> string \<Rightarrow> string \<Rightarrow> bool \<Rightarrow> call_handler" where
  "codegen_scan_unary cc combine_op_float combine_op_int reverse mir func nm args dest blk st m =
     bind_res (eval_arg cc mir blk st args 0 m) (\<lambda>(src, m1).
     bind_res (axis_arg cc args) (\<lambda>axis.
     bind_res (build_scan_region (elem_ty src)
                 (choose_float_int_op (elem_ty src) combine_op_float combine_op_int) m1) (\<lambda>(b, m2).
       let (vs, m3) = scan blk [src] [v_ty src] axis reverse b m2 in
       bind_res (expect (vec_index vs 0)) (\<lambda>r. give st (r, m3)))))"

definition codegen_cumsum_call :: "codegen_ctx \<Rightarrow> call_handler" where
  "codegen_cumsum_call cc = codegen_scan_unary cc ''arith.addf'' ''arith.addi'' False"

definition codegen_cumprod_call :: "codegen_ctx \<Rightarrow> call_handler" where
  "codegen_cumprod_call cc = codegen_scan_unary cc ''arith.mulf'' ''arith.muli'' False"

definition codegen_histogram_call :: "codegen_ctx \<Rightarrow> call_handler" where
  "codegen_histogram_call cc mir func nm args dest blk st m =
     bind_res (eval_arg cc mir blk st args 0 m) (\<lambda>(src, m1).
     bind_res (eval_mask cc mir blk st args 1 m1) (\<lambda>(msk, m2).
     bind_res (dest_mlir_ty cc mir dest) (\<lambda>result_ty. give st (histogram blk src msk result_ty m2))))"

text \<open>Softmax along the last axis: subtract the maximum, exponentiate, divide by the sum.\<close>

definition codegen_softmax_call :: "codegen_ctx \<Rightarrow> call_handler" where
  "codegen_softmax_call cc mir func nm args dest blk st m =
     bind_res (eval_arg cc mir blk st args 0 m) (\<lambda>(x, m1).
     bind_res (ranked (v_ty x)) (\<lambda>(dims, t).
       let axis = of_nat (length dims) - 1; tensor_ty = v_ty x in
       bind_res (emit_reduce blk x axis t ''arith.maximumf'' m1) (\<lambda>(x_max, m2).
         let (x_max_bcast, m3) = splat blk x_max tensor_ty m2;
             (x_sub, m4) = emit1 blk ''arith.subf'' [x, x_max_bcast] [] tensor_ty m3;
             (exp_x, m5) = emit1 blk ''math.exp'' [x_sub] [] tensor_ty m4 in
         bind_res (emit_reduce blk exp_x axis t ''arith.addf'' m5) (\<lambda>(sum_e, m6).
           let (sum_e_bcast, m7) = splat blk sum_e tensor_ty m6 in
           give st (emit1 blk ''arith.divf'' [exp_x, sum_e_bcast] [] tensor_ty m7)))))"

end
