(* ===== verification/Triton_Calls.thy ===== *)
theory Triton_Calls
  imports Kernel_Shape Kernel_Math
begin

text \<open>
  Calls (\<open>codegen_terminator_call\<close>, \<open>codegen_call\<close> and \<open>codegen_identity_call\<close> of \<open>triton/ops/terminator.rs\<close>, and the
  wrappers of \<open>triton/ops/binaryops.rs\<close> that evaluate the arguments of an operator). A call goes to the handler that its
  path selects: one of the operators, one of the kernel library (\<open>Kernel_Memory\<close>, \<open>Kernel_Shape\<close>, \<open>Kernel_Math\<close>), or the general one.
\<close>

section \<open>Handlers\<close>

text \<open>What the calls read of the compiler beside the context of the statements: output types, symbol names and the
  printed form of an operand.\<close>

record func_ctx =
  fx_cc :: codegen_ctx
  fx_fn_output :: "def_id \<Rightarrow> generic_arg list \<Rightarrow> ty"
  fx_fn_ptr_output :: "operand \<Rightarrow> ty"
  fx_symbol :: "def_id \<Rightarrow> generic_arg list \<Rightarrow> rstr option"
  fx_debug :: "operand \<Rightarrow> rstr"

definition unary_call :: "func_ctx \<Rightarrow> (block_ref \<Rightarrow> mlir_value \<Rightarrow> mlir_module \<Rightarrow> emitted) \<Rightarrow> call_handler" where
  "unary_call fx build mir func nm args dest blk st m =
     (case args of
        [arg0] \<Rightarrow>
          bind_res (call_arg (fx_cc fx) mir blk st arg0 m) (\<lambda>(x, m1).
          bind_res (build blk x m1) (\<lambda>(r, m2). Ok (Some r, st, m2)))
      | _ \<Rightarrow> Panic)"

definition binary_call :: "func_ctx \<Rightarrow> builder \<Rightarrow> call_handler" where
  "binary_call fx build mir func nm args dest blk st m =
     (case args of
        [arg0, arg1] \<Rightarrow>
          bind_res (call_arg (fx_cc fx) mir blk st arg0 m) (\<lambda>(lhs, m1).
          bind_res (call_arg (fx_cc fx) mir blk st arg1 m1) (\<lambda>(rhs, m2).
          bind_res (build blk lhs rhs m2) (\<lambda>(r, m3). Ok (Some r, st, m3))))
      | _ \<Rightarrow> Panic)"

definition codegen_mul_call :: "func_ctx \<Rightarrow> call_handler" where
  "codegen_mul_call fx = binary_call fx (codegen_mul (cc_lib (fx_cc fx)))"

definition codegen_add_call :: "func_ctx \<Rightarrow> call_handler" where
  "codegen_add_call fx = binary_call fx (codegen_add (cc_lib (fx_cc fx)))"

definition codegen_div_call :: "func_ctx \<Rightarrow> call_handler" where
  "codegen_div_call fx = binary_call fx (codegen_div (cc_lib (fx_cc fx)))"

definition codegen_and_call :: "func_ctx \<Rightarrow> call_handler" where
  "codegen_and_call fx = binary_call fx (codegen_and (cc_lib (fx_cc fx)))"

definition codegen_or_call :: "func_ctx \<Rightarrow> call_handler" where
  "codegen_or_call fx = binary_call fx (codegen_or (cc_lib (fx_cc fx)))"

definition codegen_sub_call :: "func_ctx \<Rightarrow> call_handler" where
  "codegen_sub_call fx = binary_call fx (codegen_sub (cc_lib (fx_cc fx)))"

definition codegen_neg_call :: "func_ctx \<Rightarrow> call_handler" where
  "codegen_neg_call fx = unary_call fx (codegen_neg (cc_lib (fx_cc fx)))"

text \<open>\<open>Comparison::lt\<close> compares integers whatever the type of the elements.\<close>

definition codegen_lt_call :: "func_ctx \<Rightarrow> call_handler" where
  "codegen_lt_call fx = binary_call fx (codegen_cmpi (cc_lib (fx_cc fx)) P_SLT)"

definition codegen_binary_cmp :: "func_ctx \<Rightarrow> fp_predicate \<Rightarrow> predicate \<Rightarrow> call_handler" where
  "codegen_binary_cmp fx fp_pred int_pred = binary_call fx (codegen_cmp (cc_lib (fx_cc fx)) fp_pred int_pred)"

definition codegen_gt_call :: "func_ctx \<Rightarrow> call_handler" where
  "codegen_gt_call fx = codegen_binary_cmp fx FP_OGT P_SGT"

definition codegen_ge_call :: "func_ctx \<Rightarrow> call_handler" where
  "codegen_ge_call fx = codegen_binary_cmp fx FP_OGE P_SGE"

definition codegen_triton_lt_call :: "func_ctx \<Rightarrow> call_handler" where
  "codegen_triton_lt_call fx = codegen_binary_cmp fx FP_OLT P_SLT"

definition codegen_le_call :: "func_ctx \<Rightarrow> call_handler" where
  "codegen_le_call fx = codegen_binary_cmp fx FP_OLE P_SLE"

definition codegen_eq_call :: "func_ctx \<Rightarrow> call_handler" where
  "codegen_eq_call fx = codegen_binary_cmp fx FP_OEQ P_EQ"

definition codegen_ne_call :: "func_ctx \<Rightarrow> call_handler" where
  "codegen_ne_call fx = codegen_binary_cmp fx FP_ONE P_NE"

definition codegen_identity_call :: "func_ctx \<Rightarrow> call_handler" where
  "codegen_identity_call fx = unary_call fx (\<lambda>_ x m. Ok (x, m))"

definition codegen_lt_scalar_call :: "func_ctx \<Rightarrow> call_handler" where
  "codegen_lt_scalar_call fx = codegen_binary_cmp fx FP_OLT P_SLT"

definition codegen_le_scalar_call :: "func_ctx \<Rightarrow> call_handler" where
  "codegen_le_scalar_call fx = codegen_binary_cmp fx FP_OLE P_SLE"

definition codegen_gt_scalar_call :: "func_ctx \<Rightarrow> call_handler" where
  "codegen_gt_scalar_call fx = codegen_binary_cmp fx FP_OGT P_SGT"

definition codegen_ge_scalar_call :: "func_ctx \<Rightarrow> call_handler" where
  "codegen_ge_scalar_call fx = codegen_binary_cmp fx FP_OGE P_SGE"

definition codegen_eq_scalar_call :: "func_ctx \<Rightarrow> call_handler" where
  "codegen_eq_scalar_call fx = codegen_binary_cmp fx FP_OEQ P_EQ"

definition codegen_ne_scalar_call :: "func_ctx \<Rightarrow> call_handler" where
  "codegen_ne_scalar_call fx = codegen_binary_cmp fx FP_ONE P_NE"

lemmas codegen_call_defs = codegen_mul_call_def codegen_add_call_def codegen_div_call_def codegen_and_call_def
  codegen_or_call_def codegen_sub_call_def codegen_neg_call_def codegen_lt_call_def codegen_gt_call_def
  codegen_ge_call_def codegen_triton_lt_call_def codegen_le_call_def codegen_eq_call_def codegen_ne_call_def
  codegen_identity_call_def codegen_lt_scalar_call_def codegen_le_scalar_call_def codegen_gt_scalar_call_def
  codegen_ge_scalar_call_def codegen_eq_scalar_call_def codegen_ne_scalar_call_def

section \<open>Calls of functions\<close>

definition is_unit :: "ty \<Rightarrow> bool" where
  "is_unit t = (t = Ty_Tuple [])"

text \<open>The name of the called function, as the dispatch sees it and as the operation has it.\<close>

definition func_path :: "func_ctx \<Rightarrow> operand \<Rightarrow> rstr" where
  "func_path fx func =
     (case func of
        Op_Constant c \<Rightarrow>
          (case mir_const_ty c of
             Ty_FnDef def_id _ \<Rightarrow> cc_def_path_str (fx_cc fx) def_id
           | _ \<Rightarrow> fx_debug fx func)
      | _ \<Rightarrow> lit ''XX'' @ fx_debug fx func)"

definition callee_name :: "func_ctx \<Rightarrow> operand \<Rightarrow> rstr \<Rightarrow> rstr res" where
  "callee_name fx func func_name =
     (case func of
        Op_Constant c \<Rightarrow>
          (case cc_normalize (fx_cc fx) (mir_const_ty c) of
             Ty_FnDef def_id args \<Rightarrow>
               Ok (case fx_symbol fx def_id args of Some s \<Rightarrow> s | None \<Rightarrow> func_name)
           | Ty_FnPtr \<Rightarrow> Panic
           | _ \<Rightarrow> Ok func_name)
      | _ \<Rightarrow> Ok func_name)"

definition return_ty :: "func_ctx \<Rightarrow> body \<Rightarrow> operand \<Rightarrow> ty res" where
  "return_ty fx mir func =
     bind_res (operand_norm_ty (fx_cc fx) mir func) (\<lambda>fn_ty.
       Ok (case fn_ty of
             Ty_FnDef def_id args \<Rightarrow> fx_fn_output fx def_id args
           | Ty_FnPtr \<Rightarrow> fx_fn_ptr_output fx func
           | _ \<Rightarrow> fn_ty))"

text \<open>A tuple is returned as several values, unit as none.\<close>

definition result_types :: "codegen_ctx \<Rightarrow> ty \<Rightarrow> mlir_ty list res" where
  "result_types cc ret_ty =
     (if is_unit ret_ty then Ok []
      else (case ret_ty of
          Ty_Tuple elem_tys \<Rightarrow> collect_res (map (map_type cc) elem_tys)
        | _ \<Rightarrow> bind_res (map_type cc ret_ty) (\<lambda>t. Ok [t])))"

text \<open>Only the first of several results is returned. The dictionaries of argument and result attributes, which the builder
  leaves empty, are left out.\<close>

definition codegen_plain_call :: "func_ctx \<Rightarrow> call_handler" where
  "codegen_plain_call fx mir func func_name args dest blk st m =
     bind_res (map_res (call_arg (fx_cc fx) mir blk st) args m) (\<lambda>(vs, m1).
     bind_res (return_ty fx mir func) (\<lambda>ret_ty.
     bind_res (callee_name fx func func_name) (\<lambda>callee.
     bind_res (result_types (fx_cc fx) ret_ty) (\<lambda>tys.
       let (results, m2) = new_values tys m1 in
       Ok (case results of [] \<Rightarrow> None | r # _ \<Rightarrow> Some r, st,
           append_op blk ''tt.call'' vs [Attr_Symbol callee] results [] m2)))))"

text \<open>A call with one argument that is kept as a tuple hands the tuple on.\<close>

definition passed_tuple :: "operand list \<Rightarrow> place \<Rightarrow> codegen_state \<Rightarrow> mlir_value list option" where
  "passed_tuple args dest st =
     (case args of
        [arg] \<Rightarrow>
          (case bare_local arg of
             Some l \<Rightarrow> if p_projection dest = [] then tuple_fields st l else None
           | None \<Rightarrow> None)
      | _ \<Rightarrow> None)"

definition codegen_call :: "func_ctx \<Rightarrow> call_handler" where
  "codegen_call fx mir func func_name args dest blk st m =
     (case passed_tuple args dest st of
        Some vs \<Rightarrow> Ok (None, set_tuple (p_local dest) vs st, m)
      | None \<Rightarrow> codegen_plain_call fx mir func func_name args dest blk st m)"

section \<open>Dispatch\<close>

text \<open>The handler of a path that is an operator or a conversion.\<close>

definition operator_handlers :: "func_ctx \<Rightarrow> (string \<times> call_handler) list" where
  "operator_handlers fx =
     [(''core::ops::Mul::mul'', codegen_mul_call fx),
      (''core::ops::Add::add'', codegen_add_call fx),
      (''core::ops::Sub::sub'', codegen_sub_call fx),
      (''core::ops::Neg::neg'', codegen_neg_call fx),
      (''core::ops::Div::div'', codegen_div_call fx),
      (''core::ops::BitAnd::bitand'', codegen_and_call fx),
      (''core::ops::BitOr::bitor'', codegen_or_call fx),
      (''triton::types::Comparison::lt'', codegen_lt_call fx),
      (''triton::types::Comparison::ge'', codegen_ge_call fx),
      (''triton::types::Comparison::gt'', codegen_gt_call fx),
      (''triton::types::Comparison::le'', codegen_le_call fx),
      (''triton::types::Comparison::eq'', codegen_eq_call fx),
      (''triton::types::Comparison::ne'', codegen_ne_call fx),
      (''triton::Triton::gt'', codegen_gt_call fx),
      (''triton::Triton::ge'', codegen_ge_call fx),
      (''triton::Triton::lt'', codegen_triton_lt_call fx),
      (''triton::Triton::le'', codegen_le_call fx),
      (''triton::Triton::eq'', codegen_eq_call fx),
      (''triton::Triton::ne'', codegen_ne_call fx),
      (''triton::Triton::lt_scalar'', codegen_lt_scalar_call fx),
      (''triton::Triton::le_scalar'', codegen_le_scalar_call fx),
      (''triton::Triton::gt_scalar'', codegen_gt_scalar_call fx),
      (''triton::Triton::ge_scalar'', codegen_ge_scalar_call fx),
      (''triton::Triton::eq_scalar'', codegen_eq_scalar_call fx),
      (''triton::Triton::ne_scalar'', codegen_ne_scalar_call fx),
      (''Into::into'', codegen_identity_call fx)]"

text \<open>The handlers of the kernel library. Functions without an implementation share the one of a placeholder.\<close>

definition kernel_handlers :: "codegen_ctx \<Rightarrow> (string \<times> call_handler) list" where
  "kernel_handlers cc =
     [(''triton::Triton::program_id'', codegen_program_id cc),
      (''triton::Triton::arange'', codegen_arange cc),
      (''triton::Triton::arange_f32'', codegen_arange_f32 cc),
      (''triton::Triton::load'', codegen_load cc),
      (''triton::Triton::load_scalar_f32_as_i32'', codegen_load_scalar_f32_as_i32 cc),
      (''triton::Triton::store'', codegen_store cc),
      (''triton::Triton::maximum'', codegen_maximum cc),
      (''triton::Triton::zeros'', codegen_zeros cc),
      (''triton::Triton::zeros_like'', codegen_zeros_like cc),
      (''transmute'', codegen_transmute_slice cc),
      (''triton_kitchen_sink::transmute'', codegen_transmute_slice cc),
      (''triton::types::AddOffsets::add_offsets'', codegen_add_ptr cc),
      (''triton::Triton::cast'', codegen_cast_call cc),
      (''triton::Triton::cat'', codegen_cat_call cc),
      (''triton::Triton::broadcast'', codegen_broadcast_call cc),
      (''triton::Triton::broadcast_to'', codegen_broadcast_to_call cc),
      (''triton::Triton::broadcast_to_i32'', codegen_broadcast_to_call cc),
      (''triton::Triton::expand_dims'', codegen_expand_dims_call cc),
      (''triton::Triton::expand_dims_i32'', codegen_expand_dims_call cc),
      (''triton::Triton::permute'', codegen_permute_call cc),
      (''triton::Triton::reshape'', codegen_reshape_call cc),
      (''triton::Triton::trans'', codegen_trans_call cc),
      (''triton::Triton::ravel'', codegen_ravel_call cc),
      (''triton::Triton::view'', codegen_view_call cc),
      (''triton::Triton::join'', codegen_join_call cc),
      (''triton::Triton::interleave'', codegen_interleave_call cc),
      (''triton::Triton::split'', codegen_split_call cc),
      (''triton::Triton::dot'', codegen_dot_call cc),
      (''triton::Triton::dot_scaled'', codegen_dot_scaled_call cc),
      (''triton::Triton::make_block_ptr'', codegen_make_block_ptr_call cc),
      (''triton::Triton::advance'', codegen_advance_call cc),
      (''triton::Triton::make_tensor_descriptor'', codegen_make_tensor_descriptor_call cc),
      (''triton::Triton::load_tensor_descriptor'', codegen_load_tensor_descriptor_call cc),
      (''triton::Triton::store_tensor_descriptor'', codegen_store_tensor_descriptor_call cc),
      (''triton::Triton::num_programs'', codegen_num_programs_call cc),
      (''triton::Triton::full'', codegen_full_call cc),
      (''triton::Triton::flip'', stub_handler cc),
      (''triton::Triton::gather'', codegen_gather_call cc),
      (''triton::Triton::abs'', codegen_abs_call cc),
      (''triton::Triton::ceil'', codegen_ceil_call cc),
      (''triton::Triton::floor'', codegen_floor_call cc),
      (''triton::Triton::cos'', codegen_cos_call cc),
      (''triton::Triton::sin'', codegen_sin_call cc),
      (''triton::Triton::exp'', codegen_exp_call cc),
      (''triton::Triton::exp2'', codegen_exp2_call cc),
      (''triton::Triton::log'', codegen_log_call cc),
      (''triton::Triton::log2'', codegen_log2_call cc),
      (''triton::Triton::rsqrt'', codegen_rsqrt_call cc),
      (''triton::Triton::sigmoid'', codegen_sigmoid_call cc),
      (''triton::Triton::sqrt'', codegen_sqrt_call cc),
      (''triton::Triton::sqrt_rn'', codegen_sqrt_rn_call cc),
      (''triton::Triton::erf'', codegen_erf_call cc),
      (''triton::Triton::atan'', codegen_atan_call cc),
      (''triton::Triton::softmax'', codegen_softmax_call cc),
      (''triton::Triton::minimum'', codegen_minimum_call cc),
      (''triton::Triton::clamp'', codegen_clamp_call cc),
      (''triton::Triton::fma'', codegen_fma_call cc),
      (''triton::Triton::fdiv'', codegen_fdiv_call cc),
      (''triton::Triton::div_rn'', codegen_div_rn_call cc),
      (''triton::Triton::cdiv'', codegen_cdiv_call cc),
      (''triton::Triton::swizzle2d'', stub_handler cc),
      (''triton::Triton::sum'', codegen_sum_call cc),
      (''triton::Triton::max'', codegen_max_call cc),
      (''triton::Triton::max_with_indices'', stub_handler cc),
      (''triton::Triton::min'', codegen_min_call cc),
      (''triton::Triton::min_with_indices'', stub_handler cc),
      (''triton::Triton::argmax'', stub_handler cc),
      (''triton::Triton::argmin'', stub_handler cc),
      (''triton::Triton::xor_sum'', codegen_xor_sum_call cc),
      (''triton::Triton::cumsum'', codegen_cumsum_call cc),
      (''triton::Triton::cumprod'', codegen_cumprod_call cc),
      (''triton::Triton::sort'', stub_handler cc),
      (''triton::Triton::histogram'', codegen_histogram_call cc),
      (''triton::Triton::reduce'', stub_handler cc),
      (''triton::Triton::associative_scan'', stub_handler cc),
      (''triton::Triton::atomic_add'', codegen_atomic_add_call cc),
      (''triton::Triton::atomic_max'', codegen_atomic_max_call cc),
      (''triton::Triton::atomic_min'', codegen_atomic_min_call cc),
      (''triton::Triton::atomic_xchg'', codegen_atomic_xchg_call cc),
      (''triton::Triton::atomic_cas'', codegen_atomic_cas_call cc),
      (''triton::Triton::atomic_and'', codegen_atomic_and_call cc),
      (''triton::Triton::atomic_or'', codegen_atomic_or_call cc),
      (''triton::Triton::atomic_xor'', codegen_atomic_xor_call cc),
      (''triton::Triton::umulhi'', codegen_umulhi_call cc),
      (''triton::Triton::rand'', stub_handler cc),
      (''triton::Triton::randn'', stub_handler cc),
      (''triton::Triton::randint'', stub_handler cc),
      (''triton::Triton::randint4x'', stub_handler cc),
      (''triton::Triton::inline_asm_elementwise'', stub_handler cc),
      (''triton::Triton::multiple_of'', codegen_multiple_of_call cc),
      (''triton::Triton::max_contiguous'', codegen_max_contiguous_call cc),
      (''triton::Triton::max_constancy'', codegen_max_constancy_call cc),
      (''triton::Triton::where_'', codegen_where_call cc),
      (''triton::Triton::assume'', codegen_assume_call cc),
      (''triton::Triton::device_assert'', codegen_device_assert_call cc),
      (''triton::Triton::device_print'', codegen_device_print_call cc)]"

definition call_method :: "func_ctx \<Rightarrow> rstr \<Rightarrow> call_handler" where
  "call_method fx nm =
     (case find (\<lambda>(p, _). lit p = nm) (operator_handlers fx @ kernel_handlers (fx_cc fx)) of
        Some (_, h) \<Rightarrow> h
      | None \<Rightarrow> codegen_call fx)"

end
