(* ===== verification/Emission.thy ===== *)
theory Emission
  imports Triton_Calls
begin

text \<open>
  What the emission of statements and calls does to a module, as an interface: a predicate on modules that an appended
  operation keeps which is not a branch or a return, and that new blocks behind the others keep. Every function that emits
  operands, operators, casts and statements keeps such a predicate, and leaves the control part of the state alone.
\<close>

section \<open>The control part of the state\<close>

definition control where
  "control st =
     ((loop_header_bb st, loop_iter_carry_locals st, loop_body_bbs st, loop_back_edge_bb st, skip_bbs st),
      const_disc_locals st, phi_join_locals st, phi_block_args st, pre_join_ssa_values st, branch_snapshots st)"

lemma control_set_tables [simp]:
  "control (set_ssa l v st) = control st"
  "control (set_option_local l ov st) = control st"
  "control (set_tuple l vs st) = control st"
  "control (set_slice_shape l ns st) = control st"
  "control (set_slice_dyn_values l vs st) = control st"
  "control (set_dyn_array l vs st) = control st"
  "control (set_const_array l ns st) = control st"
  "control (set_ptr_to_const_array l k st) = control st"
  "control (set_ptr_to_dyn_array l k st) = control st"
  "control (st\<lparr>ssa_values := f\<rparr>) = control st"
  by (simp_all add: control_def set_table_defs)

lemma control_copy_side_table: "copy_side_table dest src st = Some st' \<Longrightarrow> control st' = control st"
  by (auto simp: copy_side_table_def split: option.splits)

lemma control_unsize_tables: "unsize_tables cc dest op1 st = Ok st' \<Longrightarrow> control st' = control st"
  by (auto simp: unsize_tables_def Let_def split: operand.splits option.splits)

lemma control_assign_use: "assign_use cc mir st blk dest op1 m = Ok (st', m') \<Longrightarrow> control st' = control st"
  by (auto simp: assign_use_def assign_tuple_use_def assign_plain_use_def
      split: if_splits ty.splits option.splits operand.splits bind_splits dest!: control_copy_side_table)

lemma control_assign_cast: "assign_cast cc st blk dest kind op1 t m = Ok (st', m') \<Longrightarrow> control st' = control st"
  by (auto simp: assign_cast_def assign_plain_cast_def
      split: cast_kind.splits pointer_coercion.splits option.splits dest!: control_unsize_tables)

lemma control_assign_aggregate: "assign_aggregate cc mir st blk p kind ops m = Ok (st', m') \<Longrightarrow> control st' = control st"
  by (auto simp: assign_aggregate_def assign_tuple_aggregate_def assign_array_aggregate_def
      codegen_option_aggregate_def Let_def split: aggregate_kind.splits if_splits option.splits)

lemma control_assign_operators:
  "assign_binary cc mir st blk dest bop lhs rhs m = Ok (st', m') \<Longrightarrow> control st' = control st"
  "assign_unary cc mir st blk dest uop op1 m = Ok (st', m') \<Longrightarrow> control st' = control st"
  "assign_discriminant cc mir st blk dest src m = Ok (st', m') \<Longrightarrow> control st' = control st"
  by (cases uop; auto simp: assign_binary_def assign_unary_def assign_discriminant_def Let_def case_prod_beta
      split: option.split_asm if_split_asm)+

lemma control_codegen_statement: "codegen_statement cc mir blk s st m = Ok (st', m') \<Longrightarrow> control st' = control st"
  by (auto simp: codegen_statement_def codegen_assign_def assign_ref_def codegen_set_discriminant_def
      split: statement.split_asm rvalue.split_asm if_split_asm
      dest!: control_assign_use control_assign_cast control_assign_aggregate control_assign_operators)

lemma control_codegen_statements: "codegen_statements cc mir blk ss st m = Ok (st', m') \<Longrightarrow> control st' = control st"
  by (induction ss arbitrary: st m) (auto dest!: control_codegen_statement)

section \<open>The interface\<close>

definition branch_ops :: "string list" where
  "branch_ops = [''cf.br'', ''cf.cond_br'', ''tt.return'']"

lemma plain_names [simp]:
  "''arith.muli'' \<notin> set branch_ops" "''arith.addi'' \<notin> set branch_ops" "''arith.addf'' \<notin> set branch_ops"
  "''arith.subi'' \<notin> set branch_ops" "''arith.subf'' \<notin> set branch_ops" "''arith.mulf'' \<notin> set branch_ops"
  "''arith.divsi'' \<notin> set branch_ops" "''arith.divf'' \<notin> set branch_ops" "''arith.remsi'' \<notin> set branch_ops"
  "''arith.shli'' \<notin> set branch_ops" "''arith.shrsi'' \<notin> set branch_ops" "''arith.shrui'' \<notin> set branch_ops"
  "''arith.andi'' \<notin> set branch_ops" "''arith.ori'' \<notin> set branch_ops" "''arith.xori'' \<notin> set branch_ops"
  "''arith.negf'' \<notin> set branch_ops" "''arith.cmpi'' \<notin> set branch_ops" "''arith.cmpf'' \<notin> set branch_ops"
  "''arith.constant'' \<notin> set branch_ops" "''arith.sitofp'' \<notin> set branch_ops" "''arith.fptosi'' \<notin> set branch_ops"
  "''arith.truncf'' \<notin> set branch_ops" "''arith.extf'' \<notin> set branch_ops" "''tt.splat'' \<notin> set branch_ops"
  "''tt.broadcast'' \<notin> set branch_ops" "''tt.int_to_ptr'' \<notin> set branch_ops" "''ub.poison'' \<notin> set branch_ops"
  "''tt.call'' \<notin> set branch_ops" "''scf.yield'' \<notin> set branch_ops" "''scf.if'' \<notin> set branch_ops"
  "''scf.for'' \<notin> set branch_ops" "''scf.while'' \<notin> set branch_ops" "''scf.condition'' \<notin> set branch_ops"
  by (simp_all add: branch_ops_def)

locale emission =
  fixes blk :: block_ref and P :: "mlir_module \<Rightarrow> bool"
  assumes keep_op: "nm \<notin> set branch_ops \<Longrightarrow> P m \<Longrightarrow> new_values ts m = (vs, m1) \<Longrightarrow> P (append_op blk nm operands attrs vs regions m1)"
    and keep_new: "P m \<Longrightarrow> mm_blocks m' = mm_blocks m @ bs \<Longrightarrow> P m'"
begin

text \<open>Builders.\<close>

lemma emit1_keeps:
  assumes "emit1 blk nm operands attrs t m = (v, m')" "nm \<notin> set branch_ops" "P m"
  shows "P m'"
  using keep_op [of nm m "[t]" "[\<lparr>v_id = mm_next m, v_ty = t\<rparr>]" "m\<lparr>mm_next := mm_next m + 1\<rparr>" operands attrs "[]"] assms
  by (auto simp: emit1_def append_op_def Let_def)

lemma emit_inferred_keeps: "emit_inferred lib blk nm operands m = Ok (v, m') \<Longrightarrow> nm \<notin> set branch_ops \<Longrightarrow> P m \<Longrightarrow> P m'"
  by (auto simp: emit_inferred_def dest!: emit1_keeps)

lemma builder_keeps:
  "create_negf lib blk lhs m = Ok (v, m') \<Longrightarrow> P m \<Longrightarrow> P m'"
  "create_cmpi lib blk p lhs rhs t m = Ok (v, m') \<Longrightarrow> P m \<Longrightarrow> P m'"
  "create_cmpf lib blk q lhs rhs t m = Ok (v, m') \<Longrightarrow> P m \<Longrightarrow> P m'"
  "create_constant blk attr t m = (v, m') \<Longrightarrow> P m \<Longrightarrow> P m'"
  "arith_constant blk attr m = (v, m') \<Longrightarrow> P m \<Longrightarrow> P m'"
  "create_int_constant lib blk c m = Ok (v, m') \<Longrightarrow> P m \<Longrightarrow> P m'"
  "splat blk src t m = (v, m') \<Longrightarrow> P m \<Longrightarrow> P m'"
  "broadcast blk src t m = (v, m') \<Longrightarrow> P m \<Longrightarrow> P m'"
  "int_to_ptr blk src t m = (v, m') \<Longrightarrow> P m \<Longrightarrow> P m'"
  "create_ub_poison blk t m = (v, m') \<Longrightarrow> P m \<Longrightarrow> P m'"
  by (auto simp: create_negf_def create_cmpi_def create_cmpf_def create_constant_def arith_constant_def
      create_int_constant_def splat_def broadcast_def int_to_ptr_def create_ub_poison_def
      dest!: emit1_keeps emit_inferred_keeps)

text \<open>A builder of two operands that keeps the predicate.\<close>

definition keeps :: "builder \<Rightarrow> bool" where
  "keeps b \<longleftrightarrow> (\<forall>lhs rhs m v m'. b blk lhs rhs m = Ok (v, m') \<longrightarrow> P m \<longrightarrow> P m')"

lemma keepsD: "b blk lhs rhs m = Ok (v, m') \<Longrightarrow> keeps b \<Longrightarrow> P m \<Longrightarrow> P m'"
  by (simp add: keeps_def)

lemma keeps_create_binary: "nm \<notin> set branch_ops \<Longrightarrow> keeps (create_binary lib nm)"
  by (auto simp: keeps_def create_binary_def dest!: emit_inferred_keeps)

lemma keeps_create_muli: "keeps (create_muli lib)"
  using keeps_create_binary [of "''arith.muli''" lib] by (auto simp: keeps_def create_muli_def split: if_splits)

lemma keeps_create:
  "keeps (create_muli_tensor lib)" "keeps (create_addi lib)" "keeps (create_addf lib)"
  "keeps (create_subi lib)" "keeps (create_subf lib)" "keeps (create_mulf lib)" "keeps (create_divsi lib)"
  "keeps (create_divf lib)" "keeps (create_remsi lib)" "keeps (create_shli lib)" "keeps (create_shrsi lib)"
  "keeps (create_shrui lib)" "keeps (create_andi lib)" "keeps (create_ori lib)" "keeps (create_xori lib)"
  by (simp_all add: create_binary_defs keeps_create_binary)

text \<open>Shapes.\<close>

lemma like_tensor_keeps: "like_tensor blk tensor v m = Ok (r, m') \<Longrightarrow> P m \<Longrightarrow> P m'"
  by (auto simp: like_tensor_def dest!: builder_keeps)

lemma do_broadcast_keeps: "do_broadcast blk bd t v dims m = (r, m') \<Longrightarrow> P m \<Longrightarrow> P m'"
  by (auto simp: do_broadcast_def split: if_splits dest!: builder_keeps)

lemma maybe_broadcast_pair_keeps: "maybe_broadcast_pair blk lhs rhs m = (r, m') \<Longrightarrow> P m \<Longrightarrow> P m'"
  by (auto simp: maybe_broadcast_pair_def Let_def split: option.splits if_splits prod.splits dest!: do_broadcast_keeps)

lemma match_shapes_keeps:
  "match_shapes maybe_broadcast_pair blk lhs rhs m = Ok (r, m') \<Longrightarrow> P m \<Longrightarrow> P m'"
  "match_shapes no_broadcast blk lhs rhs m = Ok (r, m') \<Longrightarrow> P m \<Longrightarrow> P m'"
  by (auto simp: match_shapes_def no_broadcast_def split: bool.splits
      dest!: like_tensor_keeps maybe_broadcast_pair_keeps)

text \<open>Operators.\<close>

lemma keeps_codegen_arith: "keeps f \<Longrightarrow> keeps g \<Longrightarrow> keeps h \<Longrightarrow> keeps (codegen_arith f g h)"
  unfolding keeps_def [of "codegen_arith f g h"]
  by (auto simp: codegen_arith_def split: if_splits dest!: keepsD match_shapes_keeps)

lemma keeps_codegen_scalar_int: "keeps f \<Longrightarrow> keeps (codegen_scalar_int f)"
  by (auto simp: keeps_def codegen_scalar_int_def split: if_splits)

lemma keeps_codegen_bitwise: "keeps f \<Longrightarrow> keeps (codegen_bitwise f)"
  unfolding keeps_def [of "codegen_bitwise f"]
  by (auto simp: codegen_bitwise_def split: if_splits dest!: keepsD match_shapes_keeps)

lemma keeps_codegen_cmp: "keeps (codegen_cmpi lib p)" "keeps (codegen_cmpf lib q)" "keeps (codegen_cmp lib q p)"
  by (auto simp: keeps_def codegen_cmp_def codegen_cmpi_def codegen_cmpf_def split: if_splits
      dest!: builder_keeps match_shapes_keeps)

lemmas operator_defs = codegen_mul_def codegen_sub_def codegen_add_def codegen_div_def codegen_rem_def codegen_shl_def
  codegen_shr_def codegen_xor_def codegen_and_def codegen_or_def

lemma keeps_operators:
  "keeps (codegen_mul lib)" "keeps (codegen_sub lib)" "keeps (codegen_add lib)" "keeps (codegen_div lib)"
  "keeps (codegen_rem lib)" "keeps (codegen_shl lib)" "keeps (codegen_shr lib b)" "keeps (codegen_xor lib)"
  "keeps (codegen_and lib)" "keeps (codegen_or lib)"
  by (simp_all add: operator_defs keeps_create keeps_create_muli keeps_codegen_arith keeps_codegen_scalar_int keeps_codegen_bitwise)

lemma keeps_codegen_bin_op: "keeps (codegen_bin_op lib bop is_signed)"
  by (cases bop) (simp_all add: codegen_bin_op_def keeps_operators keeps_codegen_cmp, simp_all add: keeps_def)

lemma codegen_neg_keeps: "codegen_neg lib blk x m = Ok (r, m') \<Longrightarrow> P m \<Longrightarrow> P m'"
  using keepsD [OF _ keeps_operators(2)]
  by (auto simp: codegen_neg_def Let_def split: prod.splits dest: builder_keeps)

text \<open>Constants and operands.\<close>

lemma codegen_scalar_keeps: "codegen_scalar lib blk t s m = Ok (v, m') \<Longrightarrow> P m \<Longrightarrow> P m'"
  by (auto simp: codegen_scalar_def split: scalar.splits dest!: builder_keeps)

lemma codegen_param_const_keeps: "codegen_param_const cc blk index m = Ok (v, m') \<Longrightarrow> P m \<Longrightarrow> P m'"
  by (auto simp: codegen_param_const_def codegen_param_value_def split: option.splits dest!: codegen_scalar_keeps)

lemma codegen_scalar_const_value_keeps: "codegen_scalar_const_value cc blk t s m = Ok (v, m') \<Longrightarrow> P m \<Longrightarrow> P m'"
  by (auto simp: codegen_scalar_const_value_def split: scalar.splits ty.splits dest!: builder_keeps)

lemma codegen_const_value_keeps: "codegen_const_value cc blk cv t m = Ok (v, m') \<Longrightarrow> P m \<Longrightarrow> P m'"
  by (auto simp: codegen_const_value_def split: const_value.splits dest!: codegen_scalar_const_value_keeps builder_keeps)

lemma codegen_const_adt_keeps: "codegen_const_adt cc blk def v raw_list m = Ok (r, m') \<Longrightarrow> P m \<Longrightarrow> P m'"
  by (auto simp: codegen_const_adt_def Let_def split: if_splits dest!: builder_keeps)

lemma cast_constant_keeps: "cast_constant cc blk t (v, m) = Ok (r, m') \<Longrightarrow> P m \<Longrightarrow> P m'"
  by (auto simp: cast_constant_def split: ty.splits dest!: codegen_const_adt_keeps builder_keeps)

lemma codegen_constant_cast_keeps: "codegen_constant_cast cc blk c t m = Ok (v, m') \<Longrightarrow> P m \<Longrightarrow> P m'"
  by (auto simp: codegen_constant_cast_def split: mir_const.splits ty_const.splits
      dest!: cast_constant_keeps codegen_const_value_keeps codegen_param_const_keeps)

lemma codegen_operand_keeps: "codegen_operand cc st blk op1 t m = Ok (v, m') \<Longrightarrow> P m \<Longrightarrow> P m'"
  by (auto simp: codegen_operand_def split: operand.splits dest!: codegen_constant_cast_keeps)

lemma map_res_keeps:
  assumes "map_res f xs m = Ok (vs, m')" "\<And>x m v m'. f x m = Ok (v, m') \<Longrightarrow> P m \<Longrightarrow> P m'" "P m"
  shows "P m'"
  using assms(1,3) by (induction xs arbitrary: m vs) (auto dest!: assms(2))

lemma codegen_tuple_constant_keeps: "codegen_tuple_constant cc blk c elem_tys m = Ok (vs, m') \<Longrightarrow> P m \<Longrightarrow> P m'"
  by (auto simp: codegen_tuple_constant_def tuple_field_def Let_def
      split: mir_const.splits const_value.splits if_splits option.splits dest!: map_res_keeps codegen_scalar_keeps)

lemma codegen_cast_keeps: "codegen_cast cc st blk kind op1 t m = Ok (v, m') \<Longrightarrow> P m \<Longrightarrow> P m'"
  by (auto simp: codegen_cast_def Let_def split: cast_kind.splits pointer_coercion.splits if_splits
      dest!: codegen_operand_keeps emit1_keeps builder_keeps)

text \<open>Statements.\<close>

lemma assign_use_keeps: "assign_use cc mir st blk dest op1 m = Ok (st', m') \<Longrightarrow> P m \<Longrightarrow> P m'"
  by (auto simp: assign_use_def assign_tuple_use_def assign_plain_use_def
      split: if_splits ty.splits option.splits operand.splits dest!: codegen_operand_keeps codegen_tuple_constant_keeps)

lemma assign_cast_keeps: "assign_cast cc st blk dest kind op1 t m = Ok (st', m') \<Longrightarrow> P m \<Longrightarrow> P m'"
  by (auto simp: assign_cast_def assign_plain_cast_def
      split: cast_kind.splits pointer_coercion.splits option.splits dest!: codegen_cast_keeps)

lemma agg_field_keeps: "agg_field cc mir st blk op1 m = Ok (v, m') \<Longrightarrow> P m \<Longrightarrow> P m'"
  by (auto simp: agg_field_def split: option.splits dest!: codegen_operand_keeps)

lemma agg_fields_keeps: "map_res (agg_field cc mir st blk) ops m = Ok (vs, m') \<Longrightarrow> P m \<Longrightarrow> P m'"
  by (auto dest!: map_res_keeps agg_field_keeps)

lemma tuple_agg_fields_keeps: "map_res (tuple_agg_field st) ops m = Ok (vs, m') \<Longrightarrow> P m \<Longrightarrow> P m'"
  by (auto simp: tuple_agg_field_def split: option.splits dest!: map_res_keeps)

lemma assign_tuple_aggregate_keeps: "assign_tuple_aggregate st dest ops m = Ok (st', m') \<Longrightarrow> P m \<Longrightarrow> P m'"
  by (auto simp: assign_tuple_aggregate_def Let_def split: option.splits dest!: tuple_agg_fields_keeps)

lemma assign_array_aggregate_keeps: "assign_array_aggregate cc mir st blk dest ops m = Ok (st', m') \<Longrightarrow> P m \<Longrightarrow> P m'"
  by (auto simp: assign_array_aggregate_def split: option.splits dest!: agg_fields_keeps)

lemma codegen_create_tensor_keeps:
  assumes "codegen_create_tensor cc mir blk ops m = Ok (v, m')" "P m"
  shows "P m'"
proof -
  obtain arg1 t where "vec_index ops 0 = Some arg1" "operand_norm_ty cc mir arg1 = Ok t"
    using assms(1) by (auto simp: codegen_create_tensor_def)
  then show ?thesis
    using assms by (cases t) (auto simp: codegen_create_tensor_def dest!: builder_keeps)
qed

lemma codegen_aggregate_create_keeps: "codegen_aggregate_create cc mir st blk kind ops m = Ok (v, m') \<Longrightarrow> P m \<Longrightarrow> P m'"
  by (auto simp: codegen_aggregate_create_def codegen_create_pointer_def Let_def
      split: aggregate_kind.splits if_splits dest!: codegen_create_tensor_keeps codegen_operand_keeps)

lemma codegen_option_aggregate_keeps:
  "codegen_option_aggregate cc mir st blk dest variant ops m = Ok (st', m') \<Longrightarrow> P m \<Longrightarrow> P m'"
  by (auto simp: codegen_option_aggregate_def split: if_splits dest!: codegen_operand_keeps)

lemma assign_aggregate_keeps: "assign_aggregate cc mir st blk p kind ops m = Ok (st', m') \<Longrightarrow> P m \<Longrightarrow> P m'"
  by (auto simp: assign_aggregate_def Let_def split: aggregate_kind.splits if_splits
      dest!: codegen_aggregate_create_keeps codegen_option_aggregate_keeps agg_fields_keeps
        assign_tuple_aggregate_keeps assign_array_aggregate_keeps)

lemma codegen_binary_op_keeps: "codegen_binary_op cc mir st blk bop lhs rhs m = Ok (v, m') \<Longrightarrow> P m \<Longrightarrow> P m'"
  by (auto simp: codegen_binary_op_def dest!: codegen_operand_keeps keepsD [OF _ keeps_codegen_bin_op])

lemma assign_binary_keeps: "assign_binary cc mir st blk dest bop lhs rhs m = Ok (st', m') \<Longrightarrow> P m \<Longrightarrow> P m'"
  by (auto simp: assign_binary_def Let_def case_prod_beta prod_eq_iff [of "arith_constant _ _ _"] split: option.split_asm
      dest!: codegen_binary_op_keeps intro!: builder_keeps(5) [OF surjective_pairing])

lemma assign_unary_keeps: "assign_unary cc mir st blk dest uop op1 m = Ok (st', m') \<Longrightarrow> P m \<Longrightarrow> P m'"
  by (cases uop) (auto simp: assign_unary_def codegen_un_neg_def split: if_splits
      dest!: codegen_operand_keeps builder_keeps keepsD [OF _ keeps_create(4)])

lemma assign_discriminant_keeps: "assign_discriminant cc mir st blk dest src m = Ok (st', m') \<Longrightarrow> P m \<Longrightarrow> P m'"
  by (auto simp: assign_discriminant_def split: if_splits dest!: builder_keeps)

lemma codegen_statement_keeps: "codegen_statement cc mir blk s st m = Ok (st', m') \<Longrightarrow> P m \<Longrightarrow> P m'"
  by (auto simp: codegen_statement_def codegen_assign_def assign_ref_def codegen_set_discriminant_def
      split: statement.splits rvalue.splits if_splits
      dest!: assign_use_keeps assign_cast_keeps assign_aggregate_keeps assign_binary_keeps assign_unary_keeps
        assign_discriminant_keeps)

lemma codegen_statements_keeps: "codegen_statements cc mir blk ss st m = Ok (st', m') \<Longrightarrow> P m \<Longrightarrow> P m'"
  by (induction ss arbitrary: st m) (auto dest!: codegen_statement_keeps)

end

end
