(* ===== verification/Kernel_Emission.thy ===== *)
theory Kernel_Emission
  imports Emission
begin

text \<open>
  What calls do to a module and to the state. Every handler of the kernel library, and so every call, keeps a predicate
  of the interface \<open>emission\<close>, and none changes the control part of the state. Handlers of reductions and scans create a
  block for their region.
\<close>

section \<open>Names\<close>

lemma kernel_names [simp]:
  "''tt.get_program_id'' \<notin> set branch_ops" "''tt.get_num_programs'' \<notin> set branch_ops"
  "''tt.make_range'' \<notin> set branch_ops" "''tt.addptr'' \<notin> set branch_ops"
  "''tt.load'' \<notin> set branch_ops" "''tt.store'' \<notin> set branch_ops"
  "''tt.descriptor_load'' \<notin> set branch_ops" "''tt.descriptor_store'' \<notin> set branch_ops"
  "''tt.advance'' \<notin> set branch_ops" "''tt.make_tensor_ptr'' \<notin> set branch_ops"
  "''tt.make_tensor_descriptor'' \<notin> set branch_ops" "''tt.atomic_rmw'' \<notin> set branch_ops"
  "''tt.atomic_cas'' \<notin> set branch_ops" "''tt.mulhiui'' \<notin> set branch_ops"
  "''tt.precise_sqrt'' \<notin> set branch_ops" "''tt.precise_divf'' \<notin> set branch_ops"
  "''tt.dot'' \<notin> set branch_ops" "''tt.dot_scaled'' \<notin> set branch_ops"
  "''tt.clampf'' \<notin> set branch_ops" "''tt.extern_elementwise'' \<notin> set branch_ops"
  "''tt.split'' \<notin> set branch_ops" "''tt.join'' \<notin> set branch_ops"
  "''tt.reshape'' \<notin> set branch_ops" "''tt.expand_dims'' \<notin> set branch_ops"
  "''tt.trans'' \<notin> set branch_ops" "''tt.gather'' \<notin> set branch_ops"
  "''tt.histogram'' \<notin> set branch_ops" "''tt.reduce'' \<notin> set branch_ops"
  "''tt.scan'' \<notin> set branch_ops" "''tt.print'' \<notin> set branch_ops" "''tt.assert'' \<notin> set branch_ops"
  "''tt.cat'' \<notin> set branch_ops" "''tt.reduce.return'' \<notin> set branch_ops"
  "''tt.scan.return'' \<notin> set branch_ops" "''arith.extsi'' \<notin> set branch_ops"
  "''arith.trunci'' \<notin> set branch_ops" "''arith.maximumf'' \<notin> set branch_ops"
  "''arith.minimumf'' \<notin> set branch_ops" "''arith.minsi'' \<notin> set branch_ops"
  "''arith.maxsi'' \<notin> set branch_ops" "''arith.select'' \<notin> set branch_ops"
  "''math.absf'' \<notin> set branch_ops" "''math.ceil'' \<notin> set branch_ops"
  "''math.floor'' \<notin> set branch_ops" "''math.cos'' \<notin> set branch_ops"
  "''math.sin'' \<notin> set branch_ops" "''math.exp'' \<notin> set branch_ops"
  "''math.exp2'' \<notin> set branch_ops" "''math.log'' \<notin> set branch_ops"
  "''math.log2'' \<notin> set branch_ops" "''math.sqrt'' \<notin> set branch_ops"
  "''math.erf'' \<notin> set branch_ops" "''math.fma'' \<notin> set branch_ops"
  by (simp_all add: branch_ops_def)

lemma cast_op_plain [simp]: "cast_op s d \<notin> set branch_ops"
  by (simp add: cast_op_def)

lemma choose_float_int_op_plain [simp]:
  "f \<notin> set branch_ops \<Longrightarrow> g \<notin> set branch_ops \<Longrightarrow> choose_float_int_op t f g \<notin> set branch_ops"
  by (simp add: choose_float_int_op_def)

lemmas kernel_build_defs = create_get_program_id_def create_get_num_programs_def add_ptr_def load_def store_def
  descriptor_load_def descriptor_store_def advance_def atomic_rmw_def atomic_cas_def dot_def dot_scaled_def clampf_def
  join_def reshape_def expand_dims_def trans_op_def gather_def histogram_def print_op_def assert_op_def
  create_extsi_def splat_def broadcast_def int_to_ptr_def create_ub_poison_def create_constant_def arith_constant_def
  scalar_f32_def

lemmas kernel_table_defs = codegen_load_full_call_def codegen_store_full_call_def codegen_atomic_max_call_def
  codegen_atomic_min_call_def codegen_atomic_xchg_call_def codegen_atomic_and_call_def codegen_atomic_or_call_def
  codegen_atomic_xor_call_def codegen_trans_call_def codegen_multiple_of_call_def codegen_max_contiguous_call_def
  codegen_max_constancy_call_def codegen_abs_call_def codegen_ceil_call_def codegen_floor_call_def codegen_cos_call_def
  codegen_sin_call_def codegen_exp_call_def codegen_exp2_call_def codegen_log_call_def codegen_log2_call_def
  codegen_sqrt_call_def codegen_erf_call_def codegen_fdiv_call_def codegen_sum_call_def codegen_max_call_def
  codegen_min_call_def codegen_xor_sum_call_def codegen_cumsum_call_def codegen_cumprod_call_def

section \<open>Modules\<close>

text \<open>The region of a reduction: one new block behind the others.\<close>

lemma new_values_mm_blocks: "mm_blocks (snd (new_values ts m)) = mm_blocks m"
  by (induction ts arbitrary: m) (simp_all add: Let_def case_prod_beta)

lemma append_op_last:
  "mm_blocks m = bs @ [b] \<Longrightarrow> \<exists>b'. mm_blocks (append_op (length bs) nm operands attrs vs regions m) = bs @ [b']"
  by (simp add: append_op_def append_operation_def)

lemma emit1_last:
  "mm_blocks m = bs @ [b] \<Longrightarrow> \<exists>b'. mm_blocks (snd (emit1 (length bs) nm operands attrs t m)) = bs @ [b']"
  by (simp add: emit1_def append_operation_def Let_def)

lemma combine_region_new:
  assumes "combine_region ret t nm m = Ok (b, m')"
    and ret: "\<And>b m vs. \<exists>nm attrs. ret b vs m = append_op b nm vs attrs [] [] m"
  shows "\<exists>blk. mm_blocks m' = mm_blocks m @ [blk]"
proof -
  obtain b0 vs m1 where nb: "new_block [t, t] m = (b0, vs, m1)" by (metis prod_cases3)
  obtain lhs rhs where vs: "vs = [lhs, rhs]"
    using assms(1) nb by (auto simp: combine_region_def split: list.splits)
  have n: "new_block [t, t] m = (b, [lhs, rhs], m1)"
    "m' = ret b [fst (emit1 b nm [lhs, rhs] [] t m1)] (snd (emit1 b nm [lhs, rhs] [] t m1))"
    using assms(1) nb vs by (auto simp: combine_region_def Let_def case_prod_beta)
  have b: "b = length (mm_blocks m)" and m1: "mm_blocks m1 = mm_blocks m @ [\<lparr>blk_args = [lhs, rhs], blk_ops = []\<rparr>]"
    using n(1) new_values_mm_blocks [of "[t, t]" m] by (auto simp: new_block_def case_prod_beta Let_def)
  obtain b1 where "mm_blocks (snd (emit1 b nm [lhs, rhs] [] t m1)) = mm_blocks m @ [b1]"
    using emit1_last [OF m1] b by blast
  then show ?thesis using append_op_last ret n(2) b by metis
qed

lemma region_new:
  "build_reduce_region t nm m = Ok (b, m') \<Longrightarrow> \<exists>blk. mm_blocks m' = mm_blocks m @ [blk]"
  "build_scan_region t nm m = Ok (b, m') \<Longrightarrow> \<exists>blk. mm_blocks m' = mm_blocks m @ [blk]"
  using combine_region_new [of reduce_return] combine_region_new [of scan_return]
  by (fastforce simp: build_reduce_region_def build_scan_region_def reduce_return_def scan_return_def emit0_def)+

context emission
begin

lemma emit1_snd: "nm \<notin> set branch_ops \<Longrightarrow> P m \<Longrightarrow> P (snd (emit1 blk nm operands attrs t m))"
  by (rule emit1_keeps [OF surjective_pairing])

lemma emit0_keeps: "nm \<notin> set branch_ops \<Longrightarrow> P m \<Longrightarrow> P (emit0 blk nm operands attrs m)"
  using keep_op [of nm m "[]" "[]" m] by (simp add: emit0_def)

lemma values_op_keeps:
  "nm \<notin> set branch_ops \<Longrightarrow> P m \<Longrightarrow> P (append_op blk nm operands attrs (fst (new_values ts m)) regions (snd (new_values ts m)))"
  by (rule keep_op [OF _ _ surjective_pairing])

text \<open>Arguments.\<close>

lemma call_arg_keeps: "call_arg cc mir blk st op1 m = Ok (v, m') \<Longrightarrow> P m \<Longrightarrow> P m'"
  by (auto simp: call_arg_def dest!: codegen_operand_keeps)

lemma eval_arg_keeps: "eval_arg cc mir blk st args i m = Ok (v, m') \<Longrightarrow> P m \<Longrightarrow> P m'"
  by (auto simp: eval_arg_def dest!: call_arg_keeps)

lemma eval_option_arg_keeps: "eval_option_arg cc mir blk st args i m = Ok (v, m') \<Longrightarrow> P m \<Longrightarrow> P m'"
  by (auto simp: eval_option_arg_def codegen_option_operand_def split: if_splits dest!: codegen_operand_keeps)

lemma eval_mask_keeps: "eval_mask cc mir blk st args i m = Ok (v, m') \<Longrightarrow> P m \<Longrightarrow> P m'"
  by (auto simp: eval_mask_def split: if_splits dest!: eval_option_arg_keeps)

lemma slice_values_keeps:
  "slice_as_i64_values lib st op1 blk m = Ok (vs, m') \<Longrightarrow> P m \<Longrightarrow> P m'"
  "slice_as_i32_values lib st op1 blk m = Ok (vs, m') \<Longrightarrow> P m \<Longrightarrow> P m'"
  by (auto simp: slice_as_i64_values_def slice_as_i32_values_def slice_values_def split: option.splits
      dest!: map_res_keeps builder_keeps)

lemma print_values_keeps: "print_values cc mir blk st ops m = Ok (vs, m') \<Longrightarrow> P m \<Longrightarrow> P m'"
  by (induction ops arbitrary: m vs) (auto dest!: call_arg_keeps)

lemmas arg_keeps = eval_arg_keeps eval_option_arg_keeps eval_mask_keeps slice_values_keeps print_values_keeps

text \<open>Constants and regions.\<close>

lemma splat_null_keeps: "splat_null lib blk t tt m = Ok (v, m') \<Longrightarrow> P m \<Longrightarrow> P m'"
  by (auto simp: splat_null_def Let_def case_prod_beta int_to_ptr_def dest!: builder_keeps intro!: emit1_snd)

lemma zeros_keeps:
  "splat_zero lib blk t tt m = Ok (v, m') \<Longrightarrow> P m \<Longrightarrow> P m'"
  "zeros_of lib blk t tt m = Ok (v, m') \<Longrightarrow> P m \<Longrightarrow> P m'"
  "accumulator lib blk t tt acc m = Ok (v, m') \<Longrightarrow> P m \<Longrightarrow> P m'"
  by (auto simp: splat_zero_def zero_const_def zeros_of_def accumulator_def split: if_splits option.splits
      dest!: builder_keeps splat_null_keeps)

lemma splat_scalar_const_keeps: "P m \<Longrightarrow> P (snd (splat_scalar_const blk v t m))"
  by (simp add: splat_scalar_const_def splat_def emit1_snd)

lemma region_keeps:
  "build_reduce_region t nm m = Ok (b, m') \<Longrightarrow> P m \<Longrightarrow> P m'"
  "build_scan_region t nm m = Ok (b, m') \<Longrightarrow> P m \<Longrightarrow> P m'"
  using region_new keep_new by blast+

lemma emit_reduce_keeps: "emit_reduce blk src axis t nm m = Ok (v, m') \<Longrightarrow> P m \<Longrightarrow> P m'"
  by (auto simp: emit_reduce_def reduce_def Let_def case_prod_beta simp del: new_values.simps dest!: region_keeps
      intro!: values_op_keeps)

lemma inferred_keeps:
  "mulhiui lib blk x y m = Ok (v, m') \<Longrightarrow> P m \<Longrightarrow> P m'"
  "precise_sqrt lib blk x m = Ok (v, m') \<Longrightarrow> P m \<Longrightarrow> P m'"
  "precise_divf lib blk x y m = Ok (v, m') \<Longrightarrow> P m \<Longrightarrow> P m'"
  by (auto simp: mulhiui_def precise_sqrt_def precise_divf_def dest!: emit_inferred_keeps)

lemma codegen_ub_stub_keeps: "codegen_ub_stub cc mir dest blk st m = Ok (v, st', m') \<Longrightarrow> P m \<Longrightarrow> P m'"
  by (auto simp: codegen_ub_stub_def give_def give_none_def kernel_build_defs split: if_splits intro!: emit1_snd)

text \<open>Handlers.\<close>

definition handles :: "call_handler \<Rightarrow> bool" where
  "handles h \<longleftrightarrow> (\<forall>mir func path args dest st m v st' m'. h mir func path args dest blk st m = Ok (v, st', m') \<longrightarrow> P m \<longrightarrow> P m')"

lemma handles_stub: "handles (stub_handler cc)"
  by (auto simp: handles_def stub_handler_def dest!: codegen_ub_stub_keeps)

lemmas handles_simps = handles_def give_def give_none_def kernel_build_defs Let_def case_prod_beta

lemma make_range_keeps: "make_range blk i j m = Ok (v, m') \<Longrightarrow> P m \<Longrightarrow> P m'"
  by (auto simp: make_range_def dest!: emit1_keeps)

lemma handles_ranges:
  "handles (codegen_program_id cc)" "handles (codegen_num_programs_call cc)" "handles (codegen_arange cc)"
  "handles (codegen_arange_f32 cc)"
  by (auto simp: handles_simps codegen_program_id_def codegen_num_programs_call_def codegen_arange_def
      codegen_arange_f32_def dest!: make_range_keeps intro!: emit1_snd)

lemma handles_loads:
  "handles (codegen_add_ptr cc)" "handles (codegen_load cc)" "handles (codegen_load_scalar_f32_as_i32 cc)"
  "handles (codegen_store cc)"
  by (auto simp: handles_simps codegen_add_ptr_def codegen_load_def codegen_load_scalar_f32_as_i32_def codegen_store_def
      dest!: arg_keeps like_tensor_keeps intro!: emit1_snd emit0_keeps)

lemma handles_block_ptr: "handles (codegen_make_block_ptr_call cc)" "handles (codegen_advance_call cc)"
  by (auto simp: handles_simps codegen_make_block_ptr_call_def codegen_advance_call_def make_tensor_ptr_def
      split: option.split_asm dest!: arg_keeps codegen_ub_stub_keeps intro!: emit1_snd)

lemma extend_strides_keeps: "map_res (extend_stride blk) vs m = Ok (ws, m') \<Longrightarrow> P m \<Longrightarrow> P m'"
  by (erule map_res_keeps) (auto simp: extend_stride_def create_extsi_def dest!: emit1_keeps)

lemma make_descriptor_keeps:
  "make_descriptor cc mir dest blk st base shape strides m = Ok (v, st', m') \<Longrightarrow> P m \<Longrightarrow> P m'"
  by (auto simp: make_descriptor_def make_tensor_descriptor_def give_def dest!: extend_strides_keeps intro!: emit1_snd)

lemma handles_make_descriptor: "handles (codegen_make_tensor_descriptor_call cc)"
  by (auto simp: handles_simps codegen_make_tensor_descriptor_call_def
      dest!: arg_keeps codegen_ub_stub_keeps make_descriptor_keeps)

lemma handles_descriptors:
  "handles (codegen_load_tensor_descriptor_call cc)" "handles (codegen_store_tensor_descriptor_call cc)"
  by (auto simp: handles_simps codegen_load_tensor_descriptor_call_def codegen_store_tensor_descriptor_call_def
      dest!: arg_keeps codegen_ub_stub_keeps intro!: emit1_snd emit0_keeps)

lemma handles_rmw: "handles (codegen_atomic_rmw_impl cc rmw)"
  by (auto simp: handles_simps codegen_atomic_rmw_impl_def dest!: arg_keeps intro!: emit1_snd)

lemma handles_atomics: "handles (codegen_atomic_add_call cc)" "handles (codegen_atomic_cas_call cc)"
  using handles_rmw [of cc]
  by (auto simp: handles_simps codegen_atomic_add_call_def codegen_atomic_cas_call_def
      dest!: arg_keeps intro!: emit1_snd)

lemma handles_debug:
  "handles (codegen_assume_call cc)" "handles (codegen_device_assert_call cc)" "handles (codegen_device_print_call cc)"
  by (auto simp: handles_simps codegen_assume_call_def codegen_device_assert_call_def codegen_device_print_call_def
      dest!: arg_keeps intro!: emit0_keeps)

lemma handles_constants:
  "handles (codegen_transmute_slice cc)" "handles (codegen_zeros cc)" "handles (codegen_zeros_like cc)"
  "handles (codegen_full_call cc)"
  by (auto simp: handles_def give_def give_none_def Let_def codegen_transmute_slice_def codegen_zeros_def
      codegen_zeros_like_def codegen_full_call_def dest!: arg_keeps zeros_keeps intro!: splat_scalar_const_keeps)

lemma handles_casts: "handles (codegen_cat_call cc)" "handles (codegen_cast_call cc)"
  by (auto simp: handles_simps codegen_cat_call_def codegen_cast_call_def split: if_split_asm
      dest!: arg_keeps intro!: emit1_snd)

lemma handles_broadcasts: "handles (codegen_broadcast_call cc)" "handles (codegen_broadcast_to_call cc)"
  by (auto simp: handles_simps codegen_broadcast_call_def codegen_broadcast_to_call_def broadcast_unless_def
      split: if_split_asm dest!: arg_keeps intro!: emit1_snd)

lemma handles_dims:
  "handles (codegen_expand_dims_call cc)" "handles (codegen_permute_call cc)" "handles (codegen_reshape_call cc)"
  "handles (codegen_view_call cc)" "handles (codegen_ravel_call cc)"
  by (auto simp: handles_simps codegen_expand_dims_call_def codegen_permute_call_def codegen_reshape_call_def
      codegen_view_call_def codegen_ravel_call_def reshape_to_def split: if_split_asm option.split_asm
      dest!: arg_keeps intro!: emit1_snd)

lemma handles_joins:
  "handles (codegen_join_call cc)" "handles (codegen_interleave_call cc)" "handles (codegen_split_call cc)"
  "handles (codegen_gather_call cc)" "handles (hint_handler cc)"
  by (auto simp: handles_simps codegen_join_call_def codegen_interleave_call_def codegen_split_call_def split_op_def
      codegen_gather_call_def hint_handler_def simp del: new_values.simps split: if_split_asm
      dest!: arg_keeps intro!: emit1_snd values_op_keeps)

lemma handles_elementwise:
  "nm \<notin> set branch_ops \<Longrightarrow> handles (codegen_math_unary cc nm)"
  "nm \<notin> set branch_ops \<Longrightarrow> handles (codegen_binary_elementwise cc nm)"
  by (auto simp: handles_simps codegen_math_unary_def codegen_binary_elementwise_def dest!: arg_keeps intro!: emit1_snd)

lemma handles_extrema:
  "handles (codegen_maximum cc)" "handles (codegen_minimum_call cc)" "handles (codegen_clamp_call cc)"
  "handles (codegen_fma_call cc)" "handles (codegen_where_call cc)"
  by (auto simp: handles_simps codegen_maximum_def codegen_minimum_call_def codegen_clamp_call_def codegen_fma_call_def
      codegen_where_call_def dest!: arg_keeps intro!: emit1_snd)

lemma handles_precise:
  "handles (codegen_sqrt_rn_call cc)" "handles (codegen_div_rn_call cc)" "handles (codegen_umulhi_call cc)"
  "handles (codegen_rsqrt_call cc)" "handles (codegen_atan_call cc)"
  by (auto simp: handles_simps codegen_sqrt_rn_call_def codegen_div_rn_call_def codegen_umulhi_call_def
      codegen_rsqrt_call_def codegen_atan_call_def dest!: arg_keeps inferred_keeps
      intro!: emit1_snd splat_scalar_const_keeps)

lemma handles_sigmoid: "handles (codegen_sigmoid_call cc)"
  by (auto simp: handles_simps codegen_sigmoid_call_def dest!: arg_keeps keepsD [OF _ keeps_operators(2)]
      keepsD [OF _ keeps_operators(3)] keepsD [OF _ keeps_operators(4)] intro!: emit1_snd)

lemma emit_cdiv_keeps: "emit_cdiv lib blk a b m = Ok (v, m') \<Longrightarrow> P m \<Longrightarrow> P m'"
  by (auto simp: emit_cdiv_def Let_def case_prod_beta split: option.split_asm dest!: emit1_keeps intro!: emit1_snd)

lemma handles_cdiv: "handles (codegen_cdiv_call cc)"
  by (auto simp: handles_def give_def codegen_cdiv_call_def dest!: arg_keeps emit_cdiv_keeps)

lemma handles_dots: "handles (codegen_dot_call cc)" "handles (codegen_dot_scaled_call cc)"
  by (auto simp: handles_simps codegen_dot_call_def codegen_dot_scaled_call_def split: option.split_asm if_split_asm
      dest!: arg_keeps zeros_keeps intro!: emit1_snd)

lemma keep_reduced_keeps: "P m \<Longrightarrow> P (snd (keep_reduced blk src axis keep r m))"
  by (simp add: keep_reduced_def splat_def emit1_snd split: option.split)

lemma handles_reductions:
  "handles (codegen_reduce_unary cc f g)" "handles (codegen_scan_unary cc f g rev')" "handles (codegen_histogram_call cc)"
  "handles (codegen_softmax_call cc)"
  by (auto simp: handles_simps codegen_reduce_unary_def codegen_scan_unary_def codegen_histogram_call_def
      codegen_softmax_call_def scan_def simp del: new_values.simps split: if_split_asm option.split_asm
      dest!: arg_keeps region_keeps emit_reduce_keeps intro!: emit1_snd values_op_keeps keep_reduced_keeps)

lemmas handles_kernel = handles_stub handles_ranges handles_loads handles_block_ptr handles_make_descriptor
  handles_descriptors handles_rmw handles_atomics handles_debug handles_constants handles_casts handles_broadcasts
  handles_dims handles_joins handles_elementwise handles_extrema handles_precise handles_sigmoid handles_cdiv
  handles_dots handles_reductions

lemma kernel_handles: "(path, h) \<in> set (kernel_handlers cc) \<Longrightarrow> handles h"
  by (auto simp: kernel_handlers_def kernel_table_defs intro: handles_kernel)

lemma binary_call_handles: "keeps b \<Longrightarrow> handles (binary_call fx b)"
  by (auto simp: handles_def binary_call_def split: list.splits dest!: call_arg_keeps keepsD)

lemma unary_call_handles:
  "(\<And>x m v m'. f blk x m = Ok (v, m') \<Longrightarrow> P m \<Longrightarrow> P m') \<Longrightarrow> handles (unary_call fx f)"
  unfolding handles_def
  by (auto simp: unary_call_def split: list.splits dest!: call_arg_keeps)

lemma operator_handles: "(path, h) \<in> set (operator_handlers fx) \<Longrightarrow> handles h"
  by (auto simp: operator_handlers_def codegen_call_defs codegen_binary_cmp_def
      intro!: binary_call_handles unary_call_handles keeps_operators keeps_codegen_cmp dest: codegen_neg_keeps)

lemma codegen_call_handles: "handles (codegen_call fx)"
  using keep_op [of "''tt.call''"]
  by (auto simp: handles_def codegen_call_def codegen_plain_call_def case_prod_beta Let_def
      split: option.splits dest!: map_res_keeps call_arg_keeps)

end

section \<open>State\<close>

text \<open>A handler that leaves the control part of the state alone.\<close>

definition neutral :: "call_handler \<Rightarrow> bool" where
  "neutral h \<longleftrightarrow>
     (\<forall>mir func path args dest blk st m v st' m'.
        h mir func path args dest blk st m = Ok (v, st', m') \<longrightarrow> control st' = control st)"

lemma control_record_block_shape [simp]: "control (record_block_shape args l st) = control st"
  by (simp add: record_block_shape_def set_desc_block_shape_def control_def split: option.split res.split)

lemma control_transmute_tables [simp]: "control (transmute_tables args l st) = control st"
  by (simp add: transmute_tables_def split: list.split option.split)

lemma ub_stub_state: "codegen_ub_stub cc mir dest blk st m = Ok (v, st', m') \<Longrightarrow> st' = st"
  by (auto simp: codegen_ub_stub_def give_def give_none_def split: if_splits)

lemma make_descriptor_state: "make_descriptor cc mir dest blk st base shape strides m = Ok (v, st', m') \<Longrightarrow> st' = st"
  by (auto simp: make_descriptor_def give_def)

lemmas neutral_simps = neutral_def give_def give_none_def Let_def case_prod_beta

lemma neutral_memory:
  "neutral (stub_handler cc)" "neutral (codegen_program_id cc)" "neutral (codegen_num_programs_call cc)"
  "neutral (codegen_arange cc)" "neutral (codegen_arange_f32 cc)" "neutral (codegen_add_ptr cc)"
  "neutral (codegen_load cc)" "neutral (codegen_load_scalar_f32_as_i32 cc)" "neutral (codegen_store cc)"
  by (auto simp: neutral_simps stub_handler_def kernel_memory_defs dest!: ub_stub_state)

lemma neutral_block_ptr: "neutral (codegen_make_block_ptr_call cc)" "neutral (codegen_advance_call cc)"
  by (auto simp: neutral_simps kernel_memory_defs split: option.split_asm dest!: ub_stub_state)

lemma neutral_descriptors:
  "neutral (codegen_make_tensor_descriptor_call cc)" "neutral (codegen_load_tensor_descriptor_call cc)"
  "neutral (codegen_store_tensor_descriptor_call cc)"
  by (auto simp: neutral_simps kernel_memory_defs dest!: ub_stub_state make_descriptor_state)

lemma neutral_atomics:
  "neutral (codegen_atomic_rmw_impl cc rmw)" "neutral (codegen_atomic_add_call cc)" "neutral (codegen_atomic_cas_call cc)"
  "neutral (codegen_assume_call cc)" "neutral (codegen_device_assert_call cc)" "neutral (codegen_device_print_call cc)"
  by (auto simp: neutral_simps kernel_memory_defs)

lemma neutral_shapes:
  "neutral (codegen_transmute_slice cc)" "neutral (codegen_zeros cc)" "neutral (codegen_zeros_like cc)"
  "neutral (codegen_full_call cc)" "neutral (codegen_cat_call cc)" "neutral (codegen_cast_call cc)"
  "neutral (codegen_broadcast_call cc)" "neutral (codegen_broadcast_to_call cc)" "neutral (codegen_expand_dims_call cc)"
  "neutral (codegen_permute_call cc)" "neutral (codegen_reshape_call cc)" "neutral (codegen_view_call cc)"
  "neutral (codegen_ravel_call cc)" "neutral (codegen_join_call cc)" "neutral (codegen_interleave_call cc)"
  "neutral (codegen_split_call cc)" "neutral (codegen_gather_call cc)" "neutral (hint_handler cc)"
  by (auto simp: neutral_simps kernel_shape_defs split: if_split_asm option.split_asm)

lemma neutral_math:
  "neutral (codegen_math_unary cc nm)" "neutral (codegen_binary_elementwise cc nm)" "neutral (codegen_maximum cc)"
  "neutral (codegen_minimum_call cc)" "neutral (codegen_sqrt_rn_call cc)" "neutral (codegen_div_rn_call cc)"
  "neutral (codegen_umulhi_call cc)" "neutral (codegen_rsqrt_call cc)" "neutral (codegen_atan_call cc)"
  "neutral (codegen_sigmoid_call cc)" "neutral (codegen_clamp_call cc)" "neutral (codegen_fma_call cc)"
  "neutral (codegen_where_call cc)" "neutral (codegen_cdiv_call cc)"
  by (auto simp: neutral_simps codegen_math_unary_def codegen_binary_elementwise_def codegen_maximum_def
      codegen_minimum_call_def codegen_sqrt_rn_call_def codegen_div_rn_call_def codegen_umulhi_call_def
      codegen_rsqrt_call_def codegen_atan_call_def codegen_sigmoid_call_def codegen_clamp_call_def codegen_fma_call_def
      codegen_where_call_def codegen_cdiv_call_def)

lemma neutral_reductions:
  "neutral (codegen_dot_call cc)" "neutral (codegen_dot_scaled_call cc)" "neutral (codegen_reduce_unary cc f g)"
  "neutral (codegen_scan_unary cc f g rev')" "neutral (codegen_histogram_call cc)" "neutral (codegen_softmax_call cc)"
  by (auto simp: neutral_simps codegen_dot_call_def codegen_dot_scaled_call_def codegen_reduce_unary_def
      codegen_scan_unary_def codegen_histogram_call_def codegen_softmax_call_def split: option.split_asm if_split_asm)

lemmas neutral_kernel = neutral_memory neutral_block_ptr neutral_descriptors neutral_atomics neutral_shapes neutral_math
  neutral_reductions

lemma kernel_neutral: "(path, h) \<in> set (kernel_handlers cc) \<Longrightarrow> neutral h"
  by (auto simp: kernel_handlers_def kernel_table_defs intro: neutral_kernel)

lemma operator_neutral: "(path, h) \<in> set (operator_handlers fx) \<Longrightarrow> neutral h"
  by (auto simp: operator_handlers_def codegen_call_defs codegen_binary_cmp_def neutral_def binary_call_def unary_call_def
      split: list.split_asm)

lemma codegen_call_neutral: "neutral (codegen_call fx)"
  by (auto simp: neutral_def codegen_call_def codegen_plain_call_def case_prod_beta Let_def split: option.splits)

section \<open>Calls\<close>

text \<open>The handler of a call is one of the operators, one of the kernel library, or the general one.\<close>

lemma call_method_cases:
  obtains path where "(path, call_method fx nm) \<in> set (operator_handlers fx)"
  | path where "(path, call_method fx nm) \<in> set (kernel_handlers (fx_cc fx))"
  | "call_method fx nm = codegen_call fx"
proof (cases "find (\<lambda>(p, _). lit p = nm) (operator_handlers fx @ kernel_handlers (fx_cc fx))")
  case None
  then show ?thesis using that(3) by (simp add: call_method_def)
next
  case (Some x)
  then have "x \<in> set (operator_handlers fx @ kernel_handlers (fx_cc fx))" by (metis find_Some_iff nth_mem)
  moreover obtain p h where "x = (p, h)" by fastforce
  ultimately show ?thesis using Some that(1) [of p] that(2) [of p] by (auto simp: call_method_def)
qed

lemma call_method_neutral: "neutral (call_method fx nm)"
  using call_method_cases [of fx nm] operator_neutral kernel_neutral codegen_call_neutral by metis

lemma control_call_method: "call_method fx nm mir func path args dest blk st m = Ok (v, st', m') \<Longrightarrow> control st' = control st"
  using call_method_neutral [of fx nm] unfolding neutral_def by blast

context emission
begin

lemma call_method_keeps: "call_method fx nm mir func path args dest blk st m = Ok (v, st', m') \<Longrightarrow> P m \<Longrightarrow> P m'"
  using call_method_cases [of fx nm] operator_handles kernel_handles codegen_call_handles unfolding handles_def by metis

end

end
