(* ===== verification/Triton_Term.thy ===== *)
theory Triton_Term
  imports Triton_Calls
begin

text \<open>
  Emission of terminators and basic blocks (\<open>triton/ops/terminator.rs\<close>, \<open>codegen_return\<close> of \<open>triton/ops/triton/mod.rs\<close>
  and \<open>codegen_basic_block\<close> of \<open>triton/mod.rs\<close>). A branch to a join block passes one value for each local that the
  join has a block argument for; the first branch to a join creates the arguments. Inside a structured loop a branch
  to the header is a yield, a branch to another block of the body is nothing at all, and a switch becomes \<open>scf.if\<close>.
\<close>

type_synonym block_map = "basic_block \<rightharpoonup> block_ref"

section \<open>Branches\<close>

text \<open>The values of a list of locals; a local without a value is a panic.\<close>

definition local_values :: "codegen_state \<Rightarrow> local list \<Rightarrow> mlir_value list res" where
  "local_values st ls = collect_res (map (\<lambda>l. expect (ssa_values st l)) ls)"

definition set_phi_arg :: "basic_block \<Rightarrow> local \<Rightarrow> mlir_value \<Rightarrow> codegen_state \<Rightarrow> codegen_state" where
  "set_phi_arg bb l v st = st\<lparr>phi_block_args := (phi_block_args st)((bb, l) \<mapsto> v)\<rparr>"

text \<open>The value that a branch passes for a local: the current one, unless that is the join's own argument, which stands
  for the value saved when the join was entered.\<close>

definition phi_arg ::
    "basic_block \<Rightarrow> block_ref \<Rightarrow> local \<Rightarrow> codegen_state \<Rightarrow> mlir_module \<Rightarrow> (mlir_value \<times> codegen_state \<times> mlir_module) res" where
  "phi_arg target target_block l st m =
     (case phi_block_args st (target, l) of
        Some existing_arg \<Rightarrow>
          bind_res
            (if ssa_values st l = Some existing_arg then expect (pre_join_ssa_values st (target, l))
             else expect (ssa_values st l))
            (\<lambda>v. Ok (v, st, m))
      | None \<Rightarrow>
          bind_res (expect (ssa_values st l)) (\<lambda>ssa_val.
            let (phi_val, m') = add_argument target_block (v_ty ssa_val) m
            in Ok (ssa_val, set_phi_arg target l phi_val st, m')))"

fun phi_args ::
    "basic_block \<Rightarrow> block_ref \<Rightarrow> local list \<Rightarrow> codegen_state \<Rightarrow> mlir_module \<Rightarrow> (mlir_value list \<times> codegen_state \<times> mlir_module) res" where
  "phi_args target target_block [] st m = Ok ([], st, m)"
| "phi_args target target_block (l # ls) st m =
     bind_res (phi_arg target target_block l st m) (\<lambda>(v, st1, m1).
     bind_res (phi_args target target_block ls st1 m1) (\<lambda>(vs, st2, m2). Ok (v # vs, st2, m2)))"

definition make_phi_args ::
    "basic_block \<Rightarrow> block_ref \<Rightarrow> codegen_state \<Rightarrow> mlir_module \<Rightarrow> (mlir_value list \<times> codegen_state \<times> mlir_module) res" where
  "make_phi_args target target_block st m =
     (case phi_join_locals st target of
        Some phi_locals \<Rightarrow> phi_args target target_block phi_locals st m
      | None \<Rightarrow> Ok ([], st, m))"

definition create_cf_br :: "block_ref \<Rightarrow> block_ref \<Rightarrow> mlir_module \<Rightarrow> mlir_module" where
  "create_cf_br blk target m = append_branch blk ''cf.br'' [] [(target, [])] m"

definition branch_to :: "basic_block \<Rightarrow> block_ref \<Rightarrow> block_map \<Rightarrow> codegen_state \<Rightarrow> mlir_module \<Rightarrow> stmt_result" where
  "branch_to target blk bmap st m =
     bind_res (expect (bmap target)) (\<lambda>target_block.
     bind_res (make_phi_args target target_block st m) (\<lambda>(vs, st', m').
       Ok (st', if vs = [] then create_cf_br blk target_block m'
                else append_branch blk ''cf.br'' [] [(target_block, vs)] m')))"

definition yield_locals :: "block_ref \<Rightarrow> local list \<Rightarrow> codegen_state \<Rightarrow> mlir_module \<Rightarrow> mlir_module res" where
  "yield_locals blk ls st m =
     bind_res (local_values st ls) (\<lambda>vs. Ok (append_op blk ''scf.yield'' vs [] [] [] m))"

definition codegen_goto :: "basic_block \<Rightarrow> block_ref \<Rightarrow> block_map \<Rightarrow> codegen_state \<Rightarrow> mlir_module \<Rightarrow> stmt_result" where
  "codegen_goto target blk bmap st m =
     (case loop_header_bb st of
        Some header_bb \<Rightarrow>
          if target = header_bb then
            bind_res (yield_locals blk (loop_iter_carry_locals st) st m) (\<lambda>m'. Ok (st, m'))
          else if target \<in> loop_body_bbs st then Ok (st, m)
          else branch_to target blk bmap st m
      | None \<Rightarrow> branch_to target blk bmap st m)"

section \<open>Calls\<close>

definition codegen_terminator_call ::
    "func_ctx \<Rightarrow> body \<Rightarrow> operand \<Rightarrow> operand list \<Rightarrow> place \<Rightarrow> basic_block option \<Rightarrow> block_ref \<Rightarrow> block_map \<Rightarrow>
     codegen_state \<Rightarrow> mlir_module \<Rightarrow> stmt_result" where
  "codegen_terminator_call fx mir func args dest target blk bmap st m =
     (let nm = func_path fx func in
      bind_res (call_method fx nm mir func nm args dest blk st m) (\<lambda>(v, st1, m1).
        let st2 = (case v of Some r \<Rightarrow> set_ssa (p_local dest) r st1 | None \<Rightarrow> st1) in
        bind_res (expect target) (\<lambda>t. codegen_goto t blk bmap st2 m1)))"

section \<open>Conditionals inside a loop body\<close>

lemma terminator_at_range: "terminator_at mir bb = Some t \<Longrightarrow> bb < length (basic_blocks mir)"
  by (auto simp: terminator_at_def block_at_def vec_index_def split: if_splits bind_splits)

lemma card_insert_visited:
  assumes "terminator_at mir bb = Some t" "bb \<notin> visited"
  shows "card ({..<length (basic_blocks mir)} - insert bb visited) < card ({..<length (basic_blocks mir)} - visited)"
  by (rule psubset_card_mono) (use assms terminator_at_range in auto)

text \<open>The blocks of one arm: a chain of jumps and calls inside the body, up to the block with the back edge.\<close>

function arm_chain :: "body \<Rightarrow> basic_block \<Rightarrow> basic_block set \<Rightarrow> basic_block set \<Rightarrow> basic_block \<Rightarrow> basic_block list option" where
  "arm_chain mir back_edge_bb body_bbs visited current =
     (if current \<in> visited \<or> current \<notin> body_bbs then Some []
      else if current = back_edge_bb then Some [current]
      else (case terminator_at mir current of
          None \<Rightarrow> None
        | Some (Term_Goto target) \<Rightarrow>
            map_option ((#) current) (arm_chain mir back_edge_bb body_bbs (insert current visited) target)
        | Some (Term_Call _ _ _ (Some target) _) \<Rightarrow>
            if target \<in> body_bbs
            then map_option ((#) current) (arm_chain mir back_edge_bb body_bbs (insert current visited) target)
            else Some [current]
        | Some _ \<Rightarrow> Some [current]))"
  by pat_completeness auto

termination
  by (relation "measure (\<lambda>(mir, _, _, visited, _). card ({..<length (basic_blocks mir)} - visited))")
    (auto simp del: card_Diff_insert intro: card_insert_visited)

declare arm_chain.simps [simp del]

definition collect_arm_chain :: "body \<Rightarrow> basic_block \<Rightarrow> basic_block \<Rightarrow> basic_block set \<Rightarrow> basic_block list option" where
  "collect_arm_chain mir start back_edge_bb body_bbs =
     (if start = back_edge_bb then Some [] else arm_chain mir back_edge_bb body_bbs {} start)"

text \<open>The blocks of an arm are emitted one behind the other; of their terminators only the calls count.\<close>

fun codegen_arm ::
    "func_ctx \<Rightarrow> body \<Rightarrow> block_ref \<Rightarrow> block_map \<Rightarrow> basic_block list \<Rightarrow> codegen_state \<Rightarrow> mlir_module \<Rightarrow> stmt_result" where
  "codegen_arm fx mir blk bmap [] st m = Ok (st, m)"
| "codegen_arm fx mir blk bmap (bb # bbs) st m =
     bind_res (expect (block_at mir bb)) (\<lambda>bb_data.
     bind_res (codegen_statements (fx_cc fx) mir blk (bb_statements bb_data) st m) (\<lambda>(st1, m1).
     bind_res (expect (bb_terminator bb_data)) (\<lambda>t.
     bind_res
       (case t of
          Term_Call func args dest target _ \<Rightarrow>
            codegen_terminator_call fx mir func args dest target blk bmap st1 m1
        | _ \<Rightarrow> Ok (st1, m1))
       (\<lambda>(st2, m2). codegen_arm fx mir blk bmap bbs st2 m2))))"

definition set_locals :: "local list \<Rightarrow> mlir_value list \<Rightarrow> codegen_state \<Rightarrow> codegen_state" where
  "set_locals ls vs st = fold (\<lambda>(l, v). set_ssa l v) (zip ls vs) st"

text \<open>One region of \<open>scf.if\<close>: a block with the arm and a yield.\<close>

definition codegen_if_arm ::
    "func_ctx \<Rightarrow> body \<Rightarrow> block_map \<Rightarrow> basic_block list \<Rightarrow> local list \<Rightarrow> codegen_state \<Rightarrow> mlir_module \<Rightarrow>
     (block_ref \<times> codegen_state \<times> mlir_module) res" where
  "codegen_if_arm fx mir bmap chain carry st m =
     (let (arm_block, _, m1) = new_block [] m in
      bind_res (codegen_arm fx mir arm_block bmap chain st m1) (\<lambda>(st', m2).
      bind_res (yield_locals arm_block carry st' m2) (\<lambda>m3. Ok (arm_block, st', m3))))"

definition codegen_loop_body_switch_as_scf_if ::
    "func_ctx \<Rightarrow> body \<Rightarrow> mlir_value \<Rightarrow> basic_block \<Rightarrow> basic_block \<Rightarrow> block_ref \<Rightarrow> block_map \<Rightarrow>
     codegen_state \<Rightarrow> mlir_module \<Rightarrow> stmt_result" where
  "codegen_loop_body_switch_as_scf_if fx mir cond true_target false_target blk bmap st m =
     bind_res (expect (loop_back_edge_bb st)) (\<lambda>back_edge_bb.
     bind_res (expect (collect_arm_chain mir true_target back_edge_bb (loop_body_bbs st))) (\<lambda>true_chain.
     bind_res (expect (collect_arm_chain mir false_target back_edge_bb (loop_body_bbs st))) (\<lambda>false_chain.
     bind_res (local_values st (loop_iter_carry_locals st)) (\<lambda>carried.
       let carry = loop_iter_carry_locals st;
           saved_ssa = ssa_values st;
           (if_results, m1) = new_values (map v_ty carried) m in
       bind_res (codegen_if_arm fx mir bmap true_chain carry st m1) (\<lambda>(then_block, st1, m2).
       bind_res (codegen_if_arm fx mir bmap false_chain carry (st1\<lparr>ssa_values := saved_ssa\<rparr>) m2) (\<lambda>(else_block, st2, m3).
         let st3 = set_locals carry if_results (st2\<lparr>ssa_values := saved_ssa\<rparr>);
             m4 = append_op blk ''scf.if'' [cond] [] if_results [[then_block], [else_block]] m3;
             back_edge_was_in_skip = (back_edge_bb \<in> skip_bbs st3);
             st4 = st3\<lparr>skip_bbs := skip_bbs st3 \<union> set true_chain \<union> set false_chain,
                       branch_snapshots := (branch_snapshots st3)(back_edge_bb := None)\<rparr> in
         if \<not> back_edge_was_in_skip \<and> back_edge_bb \<in> skip_bbs st4 then
           bind_res (yield_locals blk (loop_iter_carry_locals st4) st4 m4) (\<lambda>m5. Ok (st4, m5))
         else Ok (st4, m4)))))))"

section \<open>Switches\<close>

definition in_active_loop :: "codegen_state \<Rightarrow> basic_block \<Rightarrow> basic_block \<Rightarrow> bool" where
  "in_active_loop st header_bb bb \<longleftrightarrow> bb = header_bb \<or> bb \<in> loop_body_bbs st"

definition cond_br ::
    "mlir_value \<Rightarrow> basic_block \<Rightarrow> basic_block \<Rightarrow> block_ref \<Rightarrow> block_map \<Rightarrow> codegen_state \<Rightarrow> mlir_module \<Rightarrow> stmt_result" where
  "cond_br cmp_result target_bb otherwise_bb blk bmap st m =
     bind_res (expect (bmap target_bb)) (\<lambda>true_block.
     bind_res (expect (bmap otherwise_bb)) (\<lambda>false_block.
     bind_res (make_phi_args target_bb true_block st m) (\<lambda>(true_phi_args, st1, m1).
     bind_res (make_phi_args otherwise_bb false_block st1 m1) (\<lambda>(false_phi_args, st2, m2).
       Ok (st2, append_branch blk ''cf.cond_br'' [cmp_result]
             [(true_block, true_phi_args), (false_block, false_phi_args)] m2)))))"

definition codegen_switch_binary ::
    "func_ctx \<Rightarrow> body \<Rightarrow> mlir_value \<Rightarrow> u128 \<Rightarrow> basic_block \<Rightarrow> basic_block \<Rightarrow> block_ref \<Rightarrow> block_map \<Rightarrow>
     codegen_state \<Rightarrow> mlir_module \<Rightarrow> stmt_result" where
  "codegen_switch_binary fx mir discr_value val target_bb otherwise_bb blk bmap st m =
     (let (val_const, m1) = arith_constant blk (Attr_Int (sint (ucast val :: i64)) (v_ty discr_value)) m in
      bind_res (create_cmpi (cc_lib (fx_cc fx)) blk P_EQ discr_value val_const (MT_Integer 1) m1) (\<lambda>(cmp_result, m2).
        let loop_switch =
              (case loop_header_bb st of
                 Some header_bb \<Rightarrow> in_active_loop st header_bb target_bb \<and> in_active_loop st header_bb otherwise_bb
               | None \<Rightarrow> False) in
        if loop_switch then
          codegen_loop_body_switch_as_scf_if fx mir cmp_result target_bb otherwise_bb blk bmap st m2
        else if target_bb = otherwise_bb then codegen_goto target_bb blk bmap st m2
        else cond_br cmp_result target_bb otherwise_bb blk bmap st m2))"

definition is_unreachable_block :: "body \<Rightarrow> basic_block \<Rightarrow> bool res" where
  "is_unreachable_block mir bb = bind_res (expect (terminator_at mir bb)) (\<lambda>t. Ok (t = Term_Unreachable))"

definition save_snapshot :: "basic_block \<Rightarrow> codegen_state \<Rightarrow> codegen_state" where
  "save_snapshot bb st =
     (case branch_snapshots st bb of
        Some _ \<Rightarrow> st
      | None \<Rightarrow> st\<lparr>branch_snapshots := (branch_snapshots st)(bb \<mapsto> ssa_values st)\<rparr>)"

definition switch_target :: "switch_targets \<Rightarrow> u64 \<Rightarrow> basic_block res" where
  "switch_target targets const_val =
     (case find (\<lambda>(val, _). val = ucast const_val) (switch_iter targets) of
        Some (_, bb) \<Rightarrow> Ok bb
      | None \<Rightarrow> expect (otherwise targets))"

definition codegen_switch_int ::
    "func_ctx \<Rightarrow> body \<Rightarrow> operand \<Rightarrow> switch_targets \<Rightarrow> block_ref \<Rightarrow> block_map \<Rightarrow> codegen_state \<Rightarrow> mlir_module \<Rightarrow> stmt_result" where
  "codegen_switch_int fx mir discr targets blk bmap st m =
     (let cc = fx_cc fx in
      case extract_switch_const (cc_inst cc) discr (const_disc_locals st) of
        Some const_val \<Rightarrow>
          bind_res (switch_target targets const_val) (\<lambda>target. codegen_goto target blk bmap st m)
      | None \<Rightarrow>
          bind_res (operand_norm_ty cc mir discr) (\<lambda>discr_ty.
          bind_res (codegen_operand cc st blk discr discr_ty m) (\<lambda>(discr_value, m1).
          bind_res (expect (otherwise targets)) (\<lambda>otherwise_bb.
            let st1 = fold save_snapshot (map snd (switch_iter targets) @ [otherwise_bb]) st in
            case switch_iter targets of
              [] \<Rightarrow> codegen_goto otherwise_bb blk bmap st1 m1
            | [(val, target_bb)] \<Rightarrow>
                codegen_switch_binary fx mir discr_value val target_bb otherwise_bb blk bmap st1 m1
            | [(val0, target0), (_, target1)] \<Rightarrow>
                bind_res (is_unreachable_block mir otherwise_bb) (\<lambda>u.
                  if u then codegen_switch_binary fx mir discr_value val0 target0 target1 blk bmap st1 m1
                  else Panic)
            | _ \<Rightarrow> Panic))))"

section \<open>Terminators and blocks\<close>

definition codegen_return :: "block_ref \<Rightarrow> codegen_state \<Rightarrow> mlir_module \<Rightarrow> stmt_result" where
  "codegen_return blk st m =
     (let return_values = (case tuple_fields st 0 of
                             Some vs \<Rightarrow> vs
                           | None \<Rightarrow> (case ssa_values st 0 of Some v \<Rightarrow> [v] | None \<Rightarrow> []))
      in Ok (st, append_op blk ''tt.return'' return_values [] [] [] m))"

definition codegen_terminator ::
    "func_ctx \<Rightarrow> body \<Rightarrow> terminator \<Rightarrow> block_ref \<Rightarrow> block_map \<Rightarrow> codegen_state \<Rightarrow> mlir_module \<Rightarrow> stmt_result" where
  "codegen_terminator fx mir t blk bmap st m =
     (case t of
        Term_Return \<Rightarrow> codegen_return blk st m
      | Term_Goto target \<Rightarrow> codegen_goto target blk bmap st m
      | Term_SwitchInt discr targets \<Rightarrow> codegen_switch_int fx mir discr targets blk bmap st m
      | Term_Drop _ target _ _ _ \<Rightarrow> codegen_goto target blk bmap st m
      | Term_Call func args dest target _ \<Rightarrow> codegen_terminator_call fx mir func args dest target blk bmap st m
      | Term_Assert _ _ target _ \<Rightarrow> codegen_goto target blk bmap st m
      | _ \<Rightarrow> Panic)"

text \<open>The state at the start of a block: the snapshot that a switch left for it, then the block arguments. The value a
  local had before is saved for the branches to this block that are emitted later.\<close>

definition enter_phi :: "basic_block \<Rightarrow> local \<Rightarrow> codegen_state \<Rightarrow> codegen_state" where
  "enter_phi bb l st =
     (case phi_block_args st (bb, l) of
        None \<Rightarrow> st
      | Some phi_val \<Rightarrow>
          set_ssa l phi_val
            (case (ssa_values st l, pre_join_ssa_values st (bb, l)) of
               (Some old_val, None) \<Rightarrow>
                 st\<lparr>pre_join_ssa_values := (pre_join_ssa_values st)((bb, l) \<mapsto> old_val)\<rparr>
             | _ \<Rightarrow> st))"

definition enter_block :: "basic_block \<Rightarrow> codegen_state \<Rightarrow> codegen_state" where
  "enter_block bb st =
     (let st1 = (case branch_snapshots st bb of
                   Some snapshot \<Rightarrow> st\<lparr>ssa_values := snapshot, branch_snapshots := (branch_snapshots st)(bb := None)\<rparr>
                 | None \<Rightarrow> st)
      in (case phi_join_locals st1 bb of
            Some phi_locals \<Rightarrow> fold (enter_phi bb) phi_locals st1
          | None \<Rightarrow> st1))"

definition codegen_basic_block ::
    "func_ctx \<Rightarrow> body \<Rightarrow> basic_block \<Rightarrow> block_map \<Rightarrow> codegen_state \<Rightarrow> mlir_module \<Rightarrow> stmt_result" where
  "codegen_basic_block fx mir bb bmap st m =
     bind_res (expect (block_at mir bb)) (\<lambda>bb_data.
     bind_res (expect (bmap bb)) (\<lambda>blk.
     bind_res (codegen_statements (fx_cc fx) mir blk (bb_statements bb_data) (enter_block bb st) m) (\<lambda>(st1, m1).
     bind_res (expect (bb_terminator bb_data)) (\<lambda>t. codegen_terminator fx mir t blk bmap st1 m1))))"

end
