(* ===== verification/Triton_Func.thy ===== *)
theory Triton_Func
  imports Triton_Term Triton_Loops Triton_Reach
begin

text \<open>
  Emission of structured loops and of whole functions (\<open>codegen_scf_for_loop\<close>, \<open>codegen_scf_while_loop\<close>,
  \<open>codegen_function\<close> and \<open>codegen\<close> of \<open>triton/mod.rs\<close>). A function runs the analyses first: known discriminants, reachable
  blocks, range loops, while loops, block arguments; then it makes a block of MLIR for every reachable block outside the
  loops and emits them in the order of the search.
\<close>

section \<open>Loops\<close>

definition set_loop ::
    "basic_block option \<Rightarrow> local list \<Rightarrow> basic_block set \<Rightarrow> codegen_state \<Rightarrow> codegen_state" where
  "set_loop header carry body_bbs st =
     st\<lparr>loop_header_bb := header, loop_iter_carry_locals := carry, loop_body_bbs := body_bbs\<rparr>"

text \<open>The blocks of a loop body in their order; \<open>skips\<close> tells whether the blocks are left out that a conditional has
  emitted already.\<close>

fun codegen_body ::
    "func_ctx \<Rightarrow> body \<Rightarrow> bool \<Rightarrow> block_map \<Rightarrow> basic_block list \<Rightarrow> codegen_state \<Rightarrow> mlir_module \<Rightarrow> stmt_result" where
  "codegen_body fx mir skips bmap [] st m = Ok (st, m)"
| "codegen_body fx mir skips bmap (bb # bbs) st m =
     (if skips \<and> bb \<in> skip_bbs st then codegen_body fx mir skips bmap bbs st m
      else bind_res (codegen_basic_block fx mir bb bmap st m) (\<lambda>(st', m'). codegen_body fx mir skips bmap bbs st' m'))"

definition map_blocks :: "basic_block list \<Rightarrow> block_ref \<Rightarrow> block_map \<Rightarrow> block_map" where
  "map_blocks bbs blk bmap = fold (\<lambda>bb f. f(bb \<mapsto> blk)) bbs bmap"

definition upper_bound ::
    "range_loop_info \<Rightarrow> block_ref \<Rightarrow> codegen_state \<Rightarrow> mlir_module \<Rightarrow> emitted" where
  "upper_bound loop_info blk st m =
     (case rl_bound_const loop_info of
        Some const_val \<Rightarrow> Ok (arith_constant blk (Attr_Int (sint const_val) (MT_Integer 32)) m)
      | None \<Rightarrow>
          (case rl_bound_local loop_info of
             Some bound_local \<Rightarrow> bind_res (expect (ssa_values st bound_local)) (\<lambda>v. Ok (v, m))
           | None \<Rightarrow> Panic))"

text \<open>The state at the start of the body: the induction variable is the first argument of the entry block, the carried
  locals are the others, and the result of \<open>Range::next\<close> is \<open>Some\<close> of the induction variable.\<close>

definition enter_for_body :: "range_loop_info \<Rightarrow> mlir_value list \<Rightarrow> codegen_state \<Rightarrow> codegen_state res" where
  "enter_for_body loop_info args st =
     (case args of
        iv # carried \<Rightarrow>
          if length carried < length (rl_iter_carry_locals loop_info) then Panic
          else
          (let st1 = set_locals (rl_iter_carry_locals loop_info) carried
                       (set_ssa (rl_counter_local loop_info) iv (set_ssa (rl_induction_local loop_info) iv st))
           in Ok (case rl_next_result_local loop_info of
                    Some nrl \<Rightarrow> set_option_local nrl (Some iv) st1
                  | None \<Rightarrow> st1))
      | [] \<Rightarrow> Panic)"

definition codegen_scf_for_loop ::
    "func_ctx \<Rightarrow> body \<Rightarrow> range_loop_info \<Rightarrow> block_ref \<Rightarrow> block_map \<Rightarrow> codegen_state \<Rightarrow> mlir_module \<Rightarrow> stmt_result" where
  "codegen_scf_for_loop fx mir loop_info init_blk outer st m =
     (let i32_ty = MT_Integer 32;
          carry = rl_iter_carry_locals loop_info;
          (lb, m1) = arith_constant init_blk (Attr_Int 0 i32_ty) m;
          (step, m2) = arith_constant init_blk (Attr_Int 1 i32_ty) m1 in
      bind_res (upper_bound loop_info init_blk st m2) (\<lambda>(ub, m3).
      bind_res (local_values st carry) (\<lambda>inits.
        let (for_results, m4) = new_values (map v_ty inits) m3;
            (body_block, _, m5) = new_block (i32_ty # map v_ty inits) m4;
            combined = map_blocks (rl_body_bbs loop_info) body_block outer in
        bind_res (expect (combined (rl_body_entry_bb loop_info))) (\<lambda>entry_block.
        bind_res (enter_for_body loop_info (blk_args (mm_blocks m5 ! entry_block)) st) (\<lambda>st1.
          let st2 = set_loop (Some (rl_header_bb loop_info)) carry (set (rl_body_bbs loop_info)) st1
                      \<lparr>loop_back_edge_bb := Some (rl_back_edge_bb loop_info)\<rparr> in
          bind_res (codegen_body fx mir True combined (rl_body_bbs loop_info) st2 m5) (\<lambda>(st3, m6).
            let st4 = set_locals carry for_results
                        (set_loop None [] {} st3\<lparr>loop_back_edge_bb := None, skip_bbs := {}\<rparr>);
                m7 = append_op init_blk ''scf.for'' ([lb, ub, step] @ inits) [] for_results [[body_block]] m6 in
            bind_res (expect (outer (rl_exit_bb loop_info))) (\<lambda>exit_block.
              Ok (st4, create_cf_br init_blk exit_block m7))))))))"

definition header_condition ::
    "func_ctx \<Rightarrow> body \<Rightarrow> basic_block_data \<Rightarrow> block_ref \<Rightarrow> codegen_state \<Rightarrow> mlir_module \<Rightarrow> emitted" where
  "header_condition fx mir header_data blk st m =
     bind_res (expect (bb_terminator header_data)) (\<lambda>t.
       case t of
         Term_SwitchInt discr _ \<Rightarrow>
           bind_res (operand_norm_ty (fx_cc fx) mir discr) (\<lambda>ty1. codegen_operand (fx_cc fx) st blk discr ty1 m)
       | _ \<Rightarrow> Panic)"

definition codegen_scf_while_loop ::
    "func_ctx \<Rightarrow> body \<Rightarrow> while_loop_info \<Rightarrow> block_ref \<Rightarrow> block_map \<Rightarrow> codegen_state \<Rightarrow> mlir_module \<Rightarrow> stmt_result" where
  "codegen_scf_while_loop fx mir loop_info init_blk outer st m =
     (let carry = wl_iter_carry_locals loop_info in
      bind_res (local_values st carry) (\<lambda>init_vals.
        let carry_types = map v_ty init_vals;
            (while_results, m1) = new_values carry_types m;
            (before_block, before_args, m2) = new_block carry_types m1;
            st1 = set_locals carry before_args st in
        bind_res (expect (block_at mir (wl_header_bb loop_info))) (\<lambda>header_data.
        bind_res (codegen_statements (fx_cc fx) mir before_block (bb_statements header_data) st1 m2) (\<lambda>(st2, m3).
        bind_res (header_condition fx mir header_data before_block st2 m3) (\<lambda>(cond_val, m4).
        bind_res (local_values st2 carry) (\<lambda>cond_args.
          let m5 = append_op before_block ''scf.condition'' (cond_val # cond_args) [] [] [] m4;
              (after_block, after_args, m6) = new_block carry_types m5;
              st3 = set_loop (Some (wl_header_bb loop_info)) carry (set (wl_body_bbs loop_info))
                      (set_locals carry after_args st2);
              combined = (map_blocks (wl_body_bbs loop_info) after_block outer)(wl_header_bb loop_info \<mapsto> before_block) in
          bind_res (codegen_body fx mir False combined (wl_body_bbs loop_info) st3 m6) (\<lambda>(st4, m7).
            let st5 = set_locals carry while_results (set_loop None [] {} st4);
                m8 = append_op init_blk ''scf.while'' init_vals [] while_results [[before_block], [after_block]] m7 in
            bind_res (expect (outer (wl_exit_bb loop_info))) (\<lambda>exit_block.
              Ok (st5, create_cf_br init_blk exit_block m8)))))))))"

section \<open>Functions\<close>

record fn_item =
  fi_ty :: ty
  fi_inputs :: "ty list"
  fi_output :: ty
  fi_symbol :: rstr
  fi_mir :: body

text \<open>What a function needs beside the context of its calls: the null check of the library on types, and the iteration
  orders and the bound of the computation of block arguments.\<close>

record fn_env =
  fe_to_result :: "mlir_ty \<Rightarrow> mlir_ty option"
  fe_iter :: "nat list \<Rightarrow> nat set \<Rightarrow> nat list"
  fe_fuel :: nat

record mlir_func =
  mf_name :: rstr
  mf_public :: bool
  mf_args :: "mlir_ty list"
  mf_results :: "mlir_ty list"
  mf_divisibility :: nat
  mf_blocks :: "block_ref list"

definition create_func ::
    "rstr \<Rightarrow> bool \<Rightarrow> mlir_ty list \<Rightarrow> mlir_ty list \<Rightarrow> nat \<Rightarrow> block_ref list \<Rightarrow> mlir_func" where
  "create_func nm is_public arg_types res_types divisibility blocks =
     \<lparr>mf_name = nm, mf_public = is_public, mf_args = arg_types, mf_results = res_types,
      mf_divisibility = divisibility, mf_blocks = blocks\<rparr>"

definition is_slice_ref :: "ty \<Rightarrow> bool" where
  "is_slice_ref t = (case t of Ty_Ref (Ty_Slice _) _ \<Rightarrow> True | _ \<Rightarrow> False)"

definition return_types :: "func_ctx \<Rightarrow> fn_env \<Rightarrow> ty \<Rightarrow> mlir_ty list res" where
  "return_types fx fe ret_type =
     (if is_unit ret_type then Ok []
      else (case ret_type of
          Ty_Tuple elem_tys \<Rightarrow> collect_res (map (map_type (fx_cc fx)) elem_tys)
        | _ \<Rightarrow>
            bind_res (map_type (fx_cc fx) ret_type) (\<lambda>t.
              Ok (case fe_to_result fe t of Some t' \<Rightarrow> [t'] | None \<Rightarrow> []))))"

definition range_region :: "range_loop_info list \<Rightarrow> basic_block set" where
  "range_region ls =
     (\<Union>l\<in>set ls. {rl_header_bb l} \<union> set_option (rl_switch_bb l) \<union> set (rl_extra_loop_region_bbs l) \<union> set (rl_body_bbs l))"

definition while_region :: "while_loop_info list \<Rightarrow> basic_block set" where
  "while_region ls = (\<Union>l\<in>set ls. {wl_header_bb l} \<union> set (wl_body_bbs l))"

text \<open>The first block outside the loops that is below the header and jumps to it; a later loop with the same block wins.\<close>

fun find_init :: "body \<Rightarrow> basic_block set \<Rightarrow> basic_block \<Rightarrow> basic_block list \<Rightarrow> basic_block option option" where
  "find_init mir region header_bb [] = Some None"
| "find_init mir region header_bb (bb # bbs) =
     (if bb \<in> region \<or> header_bb \<le> bb then find_init mir region header_bb bbs
      else (case terminator_at mir bb of
          None \<Rightarrow> None
        | Some t \<Rightarrow> if t = Term_Goto header_bb then Some (Some bb) else find_init mir region header_bb bbs))"

fun init_map ::
    "body \<Rightarrow> basic_block set \<Rightarrow> ('l \<Rightarrow> basic_block) \<Rightarrow> 'l list \<Rightarrow> (basic_block \<rightharpoonup> 'l) \<Rightarrow> (basic_block \<rightharpoonup> 'l) option" where
  "init_map mir region header [] f = Some f"
| "init_map mir region header (l # ls) f =
     (case find_init mir region (header l) [0..<length (basic_blocks mir)] of
        None \<Rightarrow> None
      | Some None \<Rightarrow> init_map mir region header ls f
      | Some (Some bb) \<Rightarrow> init_map mir region header ls (f(bb \<mapsto> l)))"

text \<open>The arguments of the entry block: one for every parameter that is not an option.\<close>

fun entry_args ::
    "codegen_ctx \<Rightarrow> block_ref \<Rightarrow> local \<Rightarrow> ty list \<Rightarrow> mlir_ty list \<Rightarrow> codegen_state \<Rightarrow> mlir_module \<Rightarrow> stmt_result" where
  "entry_args cc blk l [] arg_types st m = Ok (st, m)"
| "entry_args cc blk l (input_ty # inputs) arg_types st m =
     (if is_option_ty (cc_def_path_str cc) input_ty
      then entry_args cc blk (l + 1) inputs arg_types (set_option_local l None st) m
      else (case arg_types of
          [] \<Rightarrow> Panic
        | t # ts \<Rightarrow>
            (let (v, m') = add_argument blk t m
             in entry_args cc blk (l + 1) inputs ts (set_ssa l v st) m')))"

fun create_blocks ::
    "codegen_ctx \<Rightarrow> basic_block set \<Rightarrow> ty list \<Rightarrow> mlir_ty list \<Rightarrow> basic_block list \<Rightarrow> block_map \<Rightarrow> codegen_state \<Rightarrow> mlir_module \<Rightarrow>
     (block_map \<times> codegen_state \<times> mlir_module) res" where
  "create_blocks cc region inputs arg_types [] bmap st m = Ok (bmap, st, m)"
| "create_blocks cc region inputs arg_types (bb # bbs) bmap st m =
     (if bb \<in> region then create_blocks cc region inputs arg_types bbs bmap st m
      else
        (let (blk, _, m1) = new_block [] m in
         bind_res (if bb = 0 then entry_args cc blk 1 inputs arg_types st m1 else Ok (st, m1)) (\<lambda>(st2, m2).
           create_blocks cc region inputs arg_types bbs (bmap(bb \<mapsto> blk)) st2 m2)))"

text \<open>One block of the function: the init block of a loop gets its statements and the loop.\<close>

definition codegen_block ::
    "func_ctx \<Rightarrow> body \<Rightarrow> (basic_block \<rightharpoonup> range_loop_info) \<Rightarrow> (basic_block \<rightharpoonup> while_loop_info) \<Rightarrow> block_map \<Rightarrow> basic_block \<Rightarrow>
     basic_block_data \<Rightarrow> codegen_state \<Rightarrow> mlir_module \<Rightarrow> stmt_result" where
  "codegen_block fx mir for_inits while_inits bmap bb bb_data st m =
     (case for_inits bb of
         Some l \<Rightarrow>
           bind_res (expect (bmap bb)) (\<lambda>blk.
           bind_res (codegen_statements (fx_cc fx) mir blk (bb_statements bb_data) st m) (\<lambda>(st1, m1).
             codegen_scf_for_loop fx mir l blk bmap st1 m1))
       | None \<Rightarrow>
           (case while_inits bb of
              Some l \<Rightarrow>
                bind_res (expect (bmap bb)) (\<lambda>blk.
                bind_res (codegen_statements (fx_cc fx) mir blk (bb_statements bb_data) st m) (\<lambda>(st1, m1).
                  codegen_scf_while_loop fx mir l blk bmap st1 m1))
            | None \<Rightarrow> codegen_basic_block fx mir bb bmap st m))"

fun codegen_blocks ::
    "func_ctx \<Rightarrow> body \<Rightarrow> (basic_block \<rightharpoonup> range_loop_info) \<Rightarrow> (basic_block \<rightharpoonup> while_loop_info) \<Rightarrow> block_map \<Rightarrow> basic_block set \<Rightarrow>
     basic_block list \<Rightarrow> codegen_state \<Rightarrow> mlir_module \<Rightarrow> stmt_result" where
  "codegen_blocks fx mir for_inits while_inits bmap region [] st m = Ok (st, m)"
| "codegen_blocks fx mir for_inits while_inits bmap region (bb # bbs) st m =
     bind_res (expect (block_at mir bb)) (\<lambda>bb_data.
       if bb \<in> region then codegen_blocks fx mir for_inits while_inits bmap region bbs st m
       else bind_res (codegen_block fx mir for_inits while_inits bmap bb bb_data st m) (\<lambda>(st', m').
              codegen_blocks fx mir for_inits while_inits bmap region bbs st' m'))"

text \<open>The analyses of a function, in the order of the source: known discriminants, the reachable blocks with their order, the
  blocks of all loops, the init blocks of both kinds of loop, and the block arguments. \<open>None\<close> is a panic.\<close>

record fn_analysis =
  fa_const_disc :: const_map
  fa_order :: "basic_block list"
  fa_region :: "basic_block set"
  fa_for_inits :: "basic_block \<rightharpoonup> range_loop_info"
  fa_while_inits :: "basic_block \<rightharpoonup> while_loop_info"
  fa_phis :: phi_map

definition analyse :: "codegen_ctx \<Rightarrow> fn_env \<Rightarrow> body \<Rightarrow> fn_analysis option" where
  "analyse cc fe mir = do {
     let const_disc = compute_const_disc_locals (cc_inst cc) mir;
     (reachable, order) \<leftarrow> compute_reachable_blocks (cc_inst cc) mir const_disc;
     loop_infos \<leftarrow> detect_range_loop (cc_inst cc) mir;
     while_loop_infos \<leftarrow> detect_while_loop mir (range_region loop_infos);
     let region = range_region loop_infos \<union> while_region while_loop_infos;
     for_inits \<leftarrow> init_map mir region rl_header_bb loop_infos Map.empty;
     while_inits \<leftarrow> init_map mir region wl_header_bb while_loop_infos Map.empty;
     phis \<leftarrow> compute_phi_join_locals (fe_fuel fe)
              \<lparr>px_mir = mir, px_reachable = reachable, px_loop_region = region,
               px_def_path_str = cc_def_path_str cc, px_iter = fe_iter fe\<rparr>;
     Some \<lparr>fa_const_disc = const_disc, fa_order = order, fa_region = region, fa_for_inits = for_inits,
           fa_while_inits = while_inits, fa_phis = phis\<rparr> }"

definition codegen_analysed ::
    "func_ctx \<Rightarrow> fn_env \<Rightarrow> fn_item \<Rightarrow> fn_analysis \<Rightarrow> mlir_ty list \<Rightarrow> mlir_ty list \<Rightarrow> mlir_module \<Rightarrow> (mlir_func \<times> mlir_module) res" where
  "codegen_analysed fx fe f an arg_types ret_types m =
     (let mir = fi_mir f;
          st = codegen_state_new\<lparr>const_disc_locals := fa_const_disc an, phi_join_locals := fa_phis an\<rparr> in
      bind_res (create_blocks (fx_cc fx) (fa_region an) (fi_inputs f) arg_types (fa_order an) Map.empty st m)
        (\<lambda>(bmap, st1, m1).
      bind_res (codegen_blocks fx mir (fa_for_inits an) (fa_while_inits an) bmap (fa_region an) (fa_order an) st1 m1)
        (\<lambda>(st2, m2).
          Ok (create_func (fi_symbol f) (suffix (lit ''entry_point'') (fi_symbol f)) arg_types ret_types 16
                (map (the \<circ> bmap) (filter (\<lambda>bb. bb \<notin> fa_region an) (fa_order an))), m2))))"

text \<open>Functions whose signature has a slice or a tensor are left out.\<close>

definition codegen_function :: "func_ctx \<Rightarrow> fn_env \<Rightarrow> fn_item \<Rightarrow> mlir_module \<Rightarrow> (mlir_func option \<times> mlir_module) res" where
  "codegen_function fx fe f m =
     (if list_ex is_slice_ref (fi_inputs f) then Ok (None, m)
      else
        bind_res (collect_res (map (map_type (fx_cc fx))
                    (filter (\<lambda>t. \<not> is_option_ty (cc_def_path_str (fx_cc fx)) t) (fi_inputs f)))) (\<lambda>arg_types.
        bind_res (return_types fx fe (fi_output f)) (\<lambda>ret_types.
          if list_ex is_tensor (arg_types @ ret_types) then Ok (None, m)
          else
            bind_res (expect (analyse (fx_cc fx) fe (fi_mir f))) (\<lambda>an.
            bind_res (codegen_analysed fx fe f an arg_types ret_types m) (\<lambda>(func, m').
              Ok (Some func, m'))))))"

section \<open>Items\<close>

datatype mono_item = Mono_Fn fn_item | Mono_Static def_id | Mono_GlobalAsm

definition codegen_item :: "func_ctx \<Rightarrow> fn_env \<Rightarrow> mono_item \<Rightarrow> mlir_module \<Rightarrow> (mlir_func option \<times> mlir_module) res" where
  "codegen_item fx fe item m =
     (case item of
        Mono_Fn f \<Rightarrow>
          (case fi_ty f of
             Ty_FnDef _ _ \<Rightarrow> codegen_function fx fe f m
           | Ty_FnPtr \<Rightarrow> codegen_function fx fe f m
           | _ \<Rightarrow> Panic)
      | _ \<Rightarrow> Panic)"

end
