(* ===== verification/Emit_Flow.thy ===== *)
theory Emit_Flow
  imports Kernel_Emission Triton_Func
begin

text \<open>
  The control flow that the emission of a function builds. The blocks of a function are those that its block map
  reaches. What an emission step may do to them: append plain operations to the block it works on, and give a join all of
  its block arguments at once. Nested blocks, of loop bodies and conditionals, may be anything.
\<close>

section \<open>Plain growth of one block\<close>

definition plain :: "mlir_op \<Rightarrow> bool" where
  "plain op1 \<longleftrightarrow> op_successors op1 = [] \<and> op_name op1 \<notin> set branch_ops"

text \<open>Only the block \<open>blk\<close> changes, and it only gets plain operations; new blocks may appear.\<close>

definition quiet :: "block_ref \<Rightarrow> mlir_module \<Rightarrow> mlir_module \<Rightarrow> bool" where
  "quiet blk m m' \<longleftrightarrow>
     length (mm_blocks m) \<le> length (mm_blocks m') \<and>
     (\<forall>b<length (mm_blocks m). blk_args (mm_blocks m' ! b) = blk_args (mm_blocks m ! b) \<and>
        (b \<noteq> blk \<longrightarrow> blk_ops (mm_blocks m' ! b) = blk_ops (mm_blocks m ! b))) \<and>
     (blk < length (mm_blocks m) \<longrightarrow>
        (\<exists>ops. blk_ops (mm_blocks m' ! blk) = blk_ops (mm_blocks m ! blk) @ ops \<and> list_all plain ops))"

lemma quiet_refl: "quiet blk m m"
  by (simp add: quiet_def)

lemma new_values_blocks: "new_values ts m = (vs, m') \<Longrightarrow> mm_blocks m' = mm_blocks m"
  by (induction ts arbitrary: m vs) (fastforce simp: Let_def split: prod.splits)+

lemma append_operation_length [simp]: "length (mm_blocks (append_operation blk op1 m)) = length (mm_blocks m)"
  by (simp add: append_operation_def)

lemma append_operation_nth:
  "b < length (mm_blocks m) \<Longrightarrow>
   mm_blocks (append_operation blk op1 m) ! b =
     (if b = blk then (mm_blocks m ! b)\<lparr>blk_ops := blk_ops (mm_blocks m ! b) @ [op1]\<rparr> else mm_blocks m ! b)"
  by (simp add: append_operation_def nth_list_update)

lemma quiet_append_operation:
  assumes "quiet blk m0 m" "plain op1"
  shows "quiet blk m0 (append_operation blk op1 m)"
  using assms unfolding quiet_def by (auto simp: append_operation_nth)

lemma quiet_same_blocks: "quiet blk m0 m \<Longrightarrow> mm_blocks m1 = mm_blocks m \<Longrightarrow> quiet blk m0 m1"
  by (simp add: quiet_def)

interpretation quiet: emission blk "quiet blk m0" for blk m0
proof
  fix nm m ts vs m1 operands attrs regions
  assume "nm \<notin> set branch_ops" "quiet blk m0 m" "new_values ts m = (vs, m1)"
  then show "quiet blk m0 (append_op blk nm operands attrs vs regions m1)"
    by (auto simp: append_op_def plain_def intro!: quiet_append_operation dest: new_values_blocks quiet_same_blocks)
next
  fix m m' :: mlir_module and bs
  assume "quiet blk m0 m" "mm_blocks m' = mm_blocks m @ bs"
  then show "quiet blk m0 m'" by (simp add: quiet_def nth_append)
qed

lemma quiet_trans:
  assumes "quiet blk m0 m1" "quiet blk m1 m2"
  shows "quiet blk m0 m2"
proof -
  have "blk < length (mm_blocks m0) \<Longrightarrow>
      \<exists>ops. blk_ops (mm_blocks m2 ! blk) = blk_ops (mm_blocks m0 ! blk) @ ops \<and> list_all plain ops"
    using assms unfolding quiet_def by (metis append.assoc less_le_trans list_all_append)
  then show ?thesis using assms unfolding quiet_def by simp
qed

lemma quiet_call_method:
  assumes "call_method fx nm mir func path args dest blk st m = Ok (v, st', m')"
  shows "quiet blk m m'" "control st' = control st"
  using quiet.call_method_keeps [OF assms quiet_refl] control_call_method [OF assms] by auto

lemma quiet_statements: "codegen_statements cc mir blk ss st m = Ok (st', m') \<Longrightarrow> quiet blk m m'"
  by (rule quiet.codegen_statements_keeps [OF _ quiet_refl])

section \<open>Block arguments\<close>

definition phi_arity :: "codegen_state \<Rightarrow> basic_block \<Rightarrow> nat" where
  "phi_arity st bb = (case phi_join_locals st bb of Some ls \<Rightarrow> length ls | None \<Rightarrow> 0)"

definition phi_locals_of :: "codegen_state \<Rightarrow> basic_block \<Rightarrow> local set" where
  "phi_locals_of st bb = (case phi_join_locals st bb of Some ls \<Rightarrow> set ls | None \<Rightarrow> {})"

text \<open>The join has its arguments, or none of them yet.\<close>

definition phi_full :: "codegen_state \<Rightarrow> basic_block \<Rightarrow> bool" where
  "phi_full st bb \<longleftrightarrow> (\<forall>l\<in>phi_locals_of st bb. phi_block_args st (bb, l) \<noteq> None)"

definition phi_none :: "codegen_state \<Rightarrow> basic_block \<Rightarrow> bool" where
  "phi_none st bb \<longleftrightarrow> (\<forall>l\<in>phi_locals_of st bb. phi_block_args st (bb, l) = None)"

definition phi_block_ok :: "codegen_state \<Rightarrow> mlir_module \<Rightarrow> basic_block \<Rightarrow> block_ref \<Rightarrow> bool" where
  "phi_block_ok st m bb b \<longleftrightarrow>
     (phi_full st bb \<and> length (blk_args (mm_blocks m ! b)) = phi_arity st bb) \<or>
     (phi_none st bb \<and> blk_args (mm_blocks m ! b) = [])"

text \<open>The state and the module agree on the blocks of a function: distinct blocks of MIR have distinct blocks, which are
  there, and every block but the first has the arguments that the state has recorded for it.\<close>

definition flow_ok :: "block_map \<Rightarrow> codegen_state \<Rightarrow> mlir_module \<Rightarrow> bool" where
  "flow_ok outer st m \<longleftrightarrow>
     inj_on outer (dom outer) \<and> (\<forall>b\<in>ran outer. b < length (mm_blocks m)) \<and>
     (\<forall>bb ls. phi_join_locals st bb = Some ls \<longrightarrow> distinct ls) \<and>
     (\<forall>bb b. outer bb = Some b \<longrightarrow> bb \<noteq> 0 \<longrightarrow> phi_block_ok st m bb b)"

text \<open>One emission step: it keeps the agreement, the set of joins, the arguments that are there, and the operations of
  every block of the function outside \<open>X\<close>.\<close>

definition frame :: "block_map \<Rightarrow> block_ref set \<Rightarrow> codegen_state \<Rightarrow> mlir_module \<Rightarrow> codegen_state \<Rightarrow> mlir_module \<Rightarrow> bool" where
  "frame outer X st m st' m' \<longleftrightarrow>
     (flow_ok outer st m \<longrightarrow>
        flow_ok outer st' m' \<and> phi_join_locals st' = phi_join_locals st \<and>
        dom (phi_block_args st) \<subseteq> dom (phi_block_args st') \<and> length (mm_blocks m) \<le> length (mm_blocks m') \<and>
        (\<forall>b\<in>ran outer - X. blk_ops (mm_blocks m' ! b) = blk_ops (mm_blocks m ! b)))"

lemma frame_trans: "frame outer X st m st1 m1 \<Longrightarrow> frame outer X st1 m1 st2 m2 \<Longrightarrow> frame outer X st m st2 m2"
  unfolding frame_def by (metis order_trans)

lemma frame_mono: "frame outer X st m st' m' \<Longrightarrow> X \<inter> ran outer \<subseteq> Y \<Longrightarrow> frame outer Y st m st' m'"
  unfolding frame_def by blast

text \<open>The part of the state that counts here.\<close>

definition phis :: "codegen_state \<Rightarrow> (basic_block \<rightharpoonup> local list) \<times> (basic_block \<times> local \<rightharpoonup> mlir_value)" where
  "phis st = (phi_join_locals st, phi_block_args st)"

lemma phis_eq: "phis st' = phis st \<longleftrightarrow> phi_join_locals st' = phi_join_locals st \<and> phi_block_args st' = phi_block_args st"
  by (auto simp: phis_def)

lemma control_phis: "control st' = control st \<Longrightarrow> phis st' = phis st"
  by (simp add: control_def phis_def)

lemma flow_ok_phis: "phis st' = phis st \<Longrightarrow> flow_ok outer st' m = flow_ok outer st m"
  unfolding flow_ok_def phi_block_ok_def phi_full_def phi_none_def phi_arity_def phi_locals_of_def phis_eq by simp

lemma flow_ok_blocks: "mm_blocks m' = mm_blocks m \<Longrightarrow> flow_ok outer st m' = flow_ok outer st m"
  unfolding flow_ok_def phi_block_ok_def by simp

lemma frame_same:
  assumes "phis st' = phis st" "mm_blocks m' = mm_blocks m"
  shows "frame outer X st m st' m'"
proof -
  have "flow_ok outer st' m' = flow_ok outer st m"
    using flow_ok_phis [OF assms(1)] flow_ok_blocks [OF assms(2)] by simp
  then show ?thesis using assms by (simp add: frame_def phis_eq)
qed

text \<open>Steps that keep the arguments of the function's blocks.\<close>

lemma frame_args:
  assumes "phis st' = phis st" "length (mm_blocks m) \<le> length (mm_blocks m')"
    and "\<And>b. b < length (mm_blocks m) \<Longrightarrow> blk_args (mm_blocks m' ! b) = blk_args (mm_blocks m ! b)"
    and "\<And>b. b < length (mm_blocks m) \<Longrightarrow> b \<notin> X \<Longrightarrow> blk_ops (mm_blocks m' ! b) = blk_ops (mm_blocks m ! b)"
  shows "frame outer X st m st' m'"
proof -
  have *: "b < length (mm_blocks m)" if "flow_ok outer st m" "b \<in> ran outer" for b
    using that by (simp add: flow_ok_def)
  have "phi_block_ok st m' bb b" if "flow_ok outer st m" "outer bb = Some b" "bb \<noteq> 0" for bb b
    using that assms(3) [OF * [OF that(1) ranI [of outer, OF that(2)]]] by (simp add: flow_ok_def phi_block_ok_def)
  moreover have "b < length (mm_blocks m')" if "flow_ok outer st m" "b \<in> ran outer" for b
    using * that assms(2) by fastforce
  ultimately have "flow_ok outer st m'" if "flow_ok outer st m"
    using that unfolding flow_ok_def by simp
  then show ?thesis
    using assms * flow_ok_phis [OF assms(1), of outer m'] by (simp add: frame_def phis_eq)
qed

lemma frame_quiet: "phis st' = phis st \<Longrightarrow> quiet blk m m' \<Longrightarrow> frame outer {blk} st m st' m'"
  by (rule frame_args) (simp_all add: quiet_def)

lemma frame_statements:
  assumes "codegen_statements cc mir blk ss st m = Ok (st', m')"
  shows "frame outer {blk} st m st' m'"
  using frame_quiet control_phis control_codegen_statements quiet_statements assms by metis

lemma frame_append: "frame outer {blk} st m st (append_operation blk op1 m)"
  by (rule frame_args) (simp_all add: append_operation_nth)

text \<open>A new block is none of the function's.\<close>

lemma new_block_blocks:
  "new_block ts m = (b, vs, m') \<Longrightarrow>
   b = length (mm_blocks m) \<and> mm_blocks m' = mm_blocks m @ [\<lparr>blk_args = vs, blk_ops = []\<rparr>]"
  by (auto simp: new_block_def Let_def dest: new_values_blocks split: prod.splits)

lemma frame_new_block: "new_block ts m = (b, vs, m') \<Longrightarrow> phis st' = phis st \<Longrightarrow> frame outer X st m st' m'"
  by (rule frame_args) (simp_all add: new_block_blocks nth_append)

lemma new_block_fresh: "flow_ok outer st m \<Longrightarrow> new_block ts m = (b, vs, m') \<Longrightarrow> b \<notin> ran outer"
  using new_block_blocks [of ts m b vs m'] by (auto simp: flow_ok_def)

section \<open>Branches\<close>

text \<open>What the collection of the values for a join does: it only adds block arguments, one for each local without one.\<close>

definition missing :: "codegen_state \<Rightarrow> basic_block \<Rightarrow> local list \<Rightarrow> local set" where
  "missing st bb ls = {l \<in> set ls. phi_block_args st (bb, l) = None}"

lemma add_argument_blocks:
  "add_argument blk t m = (v, m') \<Longrightarrow>
   mm_blocks m' = (mm_blocks m)[blk := (mm_blocks m ! blk)\<lparr>blk_args := blk_args (mm_blocks m ! blk) @ [v]\<rparr>]"
  by (auto simp: add_argument_def Let_def)

lemma phi_arg_cases:
  assumes "phi_arg target tb l st m = Ok (v, st', m')"
  obtains "phi_block_args st (target, l) \<noteq> None" "st' = st" "m' = m"
  | t a where "phi_block_args st (target, l) = None" "add_argument tb t m = (a, m')" "st' = set_phi_arg target l a st"
proof (cases "phi_block_args st (target, l)")
  case None
  then obtain x where x: "ssa_values st l = Some x" using assms by (auto simp: phi_arg_def)
  obtain a m1 where a: "add_argument tb (v_ty x) m = (a, m1)" by fastforce
  have "st' = set_phi_arg target l a st" "m' = m1" using None assms x a by (simp_all add: phi_arg_def)
  then show ?thesis by (intro that(2) [OF None]) (use a in simp_all)
next
  case (Some e)
  then have "st' = st" "m' = m" using assms by (auto simp: phi_arg_def split: if_splits)
  then show ?thesis using that(1) Some by blast
qed

lemma phi_args_effect:
  assumes "phi_args target tb ls st m = Ok (vs, st', m')"
  shows "length vs = length ls \<and> phi_join_locals st' = phi_join_locals st \<and> loop_header_bb st' = loop_header_bb st \<and>
    dom (phi_block_args st') = dom (phi_block_args st) \<union> {target} \<times> set ls \<and>
    length (mm_blocks m') = length (mm_blocks m) \<and>
    (\<forall>b<length (mm_blocks m). blk_ops (mm_blocks m' ! b) = blk_ops (mm_blocks m ! b) \<and>
       length (blk_args (mm_blocks m' ! b)) =
         length (blk_args (mm_blocks m ! b)) + (if b = tb then card (missing st target ls) else 0))"
  using assms
proof (induction ls arbitrary: st m vs)
  case Nil
  then show ?case by (auto simp: missing_def)
next
  case (Cons l ls)
  then obtain v ws st1 m1 where a: "phi_arg target tb l st m = Ok (v, st1, m1)" "vs = v # ws"
    "phi_args target tb ls st1 m1 = Ok (ws, st', m')" by auto
  note IH = Cons.IH [OF a(3)]
  from a(1) show ?case
  proof (cases rule: phi_arg_cases)
    case 1
    then have "missing st target (l # ls) = missing st target ls" by (auto simp: missing_def)
    then show ?thesis using IH 1 a(2) by auto
  next
    case (2 t x)
    then have "missing st target (l # ls) = insert l (missing st1 target ls)" "l \<notin> missing st1 target ls"
      "finite (missing st1 target ls)"
      by (auto simp: missing_def set_phi_arg_def)
    then have "card (missing st target (l # ls)) = Suc (card (missing st1 target ls))" by simp
    moreover have "dom (phi_block_args st1) = insert (target, l) (dom (phi_block_args st))"
      using 2 by (simp add: set_phi_arg_def)
    moreover have "phi_join_locals st1 = phi_join_locals st" "loop_header_bb st1 = loop_header_bb st"
      using 2 by (simp_all add: set_phi_arg_def)
    ultimately show ?thesis using IH a(2) add_argument_blocks [OF 2(2)] by (auto simp: nth_list_update)
  qed
qed

text \<open>A map of blocks that extends the function's by blocks of its own.\<close>

definition extends_map :: "block_map \<Rightarrow> block_map \<Rightarrow> bool" where
  "extends_map outer bmap \<longleftrightarrow>
     outer \<subseteq>\<^sub>m bmap \<and> (\<forall>bb b. outer bb = None \<longrightarrow> bmap bb = Some b \<longrightarrow> b \<notin> ran outer)"

lemma extends_map_refl: "extends_map outer outer"
  by (simp add: extends_map_def)

lemma extends_map_in: "extends_map outer bmap \<Longrightarrow> bmap bb = Some b \<Longrightarrow> b \<in> ran outer \<Longrightarrow> outer bb = Some b"
  by (cases "outer bb") (auto simp: extends_map_def map_le_def dom_def)

lemma phi_block_ok_other:
  assumes "phi_block_ok st m bb b" "phi_join_locals st' = phi_join_locals st"
    and "\<And>l. phi_block_args st' (bb, l) = None \<longleftrightarrow> phi_block_args st (bb, l) = None"
    and "length (blk_args (mm_blocks m' ! b)) = length (blk_args (mm_blocks m ! b))"
  shows "phi_block_ok st' m' bb b"
  using assms by (auto simp: phi_block_ok_def phi_full_def phi_none_def phi_arity_def phi_locals_of_def)

lemma phi_args_block_ok:
  assumes "phi_args bb b ls st m = Ok (vs, st', m')" "phi_join_locals st bb = Some ls" "distinct ls"
    and "phi_block_ok st m bb b" "b < length (mm_blocks m)"
  shows "phi_full st' bb" "length (blk_args (mm_blocks m' ! b)) = phi_arity st' bb"
proof -
  note e = phi_args_effect [OF assms(1)]
  show "phi_full st' bb" using e assms(2) by (auto simp: phi_full_def phi_locals_of_def dom_def)
  have "missing st bb ls = {}" if "phi_full st bb"
    using that assms(2) by (auto simp: missing_def phi_full_def phi_locals_of_def)
  moreover have "missing st bb ls = set ls" if "phi_none st bb"
    using that assms(2) by (auto simp: missing_def phi_none_def phi_locals_of_def)
  ultimately show "length (blk_args (mm_blocks m' ! b)) = phi_arity st' bb"
    using e assms(2-5) by (auto simp: phi_block_ok_def phi_arity_def distinct_card)
qed

lemma make_phi_args_block_ok:
  assumes "make_phi_args bb b st m = Ok (vs, st', m')" "flow_ok outer st m" "outer bb = Some b" "bb \<noteq> 0"
  shows "phi_full st' bb" "length (blk_args (mm_blocks m' ! b)) = phi_arity st' bb" "length vs = phi_arity st' bb"
proof -
  have ok: "phi_block_ok st m bb b" "b < length (mm_blocks m)"
    "\<And>ls. phi_join_locals st bb = Some ls \<Longrightarrow> distinct ls"
    using assms(2-4) ranI [of outer] by (auto simp: flow_ok_def)
  have "phi_full st' bb \<and> length (blk_args (mm_blocks m' ! b)) = phi_arity st' bb \<and> length vs = phi_arity st' bb"
  proof (cases "phi_join_locals st bb")
    case None
    then show ?thesis
      using assms(1) ok
      by (auto simp: make_phi_args_def phi_block_ok_def phi_full_def phi_locals_of_def phi_arity_def)
  next
    case (Some ls)
    then have *: "phi_args bb b ls st m = Ok (vs, st', m')" using assms(1) by (simp add: make_phi_args_def)
    show ?thesis
      using phi_args_block_ok [OF * Some ok(3) [OF Some] ok(1,2)] phi_args_effect [OF *] Some
      by (simp add: phi_arity_def)
  qed
  then show "phi_full st' bb" "length (blk_args (mm_blocks m' ! b)) = phi_arity st' bb" "length vs = phi_arity st' bb"
    by simp_all
qed

lemma make_phi_args_effect:
  assumes "make_phi_args bb b st m = Ok (vs, st', m')"
  shows "phi_join_locals st' = phi_join_locals st" "loop_header_bb st' = loop_header_bb st"
    "dom (phi_block_args st) \<subseteq> dom (phi_block_args st')" "length (mm_blocks m') = length (mm_blocks m)"
    "\<And>c. c < length (mm_blocks m) \<Longrightarrow> blk_ops (mm_blocks m' ! c) = blk_ops (mm_blocks m ! c)"
    "\<And>c. c < length (mm_blocks m) \<Longrightarrow> c \<noteq> b \<Longrightarrow> length (blk_args (mm_blocks m' ! c)) = length (blk_args (mm_blocks m ! c))"
    "\<And>bb' l. bb' \<noteq> bb \<Longrightarrow> phi_block_args st' (bb', l) = None \<longleftrightarrow> phi_block_args st (bb', l) = None"
proof -
  have *: "(bb', l) \<in> A \<longleftrightarrow> (bb', l) \<in> B" if "A = B \<union> {bb} \<times> C" "bb' \<noteq> bb" for A B :: "(nat \<times> nat) set" and C bb' l
    using that by auto
  show "phi_join_locals st' = phi_join_locals st" "loop_header_bb st' = loop_header_bb st"
    "dom (phi_block_args st) \<subseteq> dom (phi_block_args st')" "length (mm_blocks m') = length (mm_blocks m)"
    "\<And>c. c < length (mm_blocks m) \<Longrightarrow> blk_ops (mm_blocks m' ! c) = blk_ops (mm_blocks m ! c)"
    "\<And>c. c < length (mm_blocks m) \<Longrightarrow> c \<noteq> b \<Longrightarrow> length (blk_args (mm_blocks m' ! c)) = length (blk_args (mm_blocks m ! c))"
    "\<And>bb' l. bb' \<noteq> bb \<Longrightarrow> phi_block_args st' (bb', l) = None \<longleftrightarrow> phi_block_args st (bb', l) = None"
    using assms phi_args_effect [of bb b _ st m vs st' m'] *
    by (auto simp: make_phi_args_def domIff [symmetric] split: option.splits)
qed

lemma frame_make_phi_args:
  assumes "make_phi_args bb b st m = Ok (vs, st', m')" "extends_map outer bmap" "bmap bb = Some b"
  shows "frame outer X st m st' m'"
proof -
  note e = make_phi_args_effect [OF assms(1)]
  have "flow_ok outer st' m'" if f: "flow_ok outer st m"
  proof -
    have "phi_block_ok st' m' bb' b'" if o: "outer bb' = Some b'" "bb' \<noteq> 0" for bb' b'
    proof (cases "b' = b")
      case True
      then have "outer bb = Some b" using extends_map_in [OF assms(2,3)] ranI [of outer, OF o(1)] by simp
      then have "bb = bb'" using f o(1) True by (auto simp: flow_ok_def inj_on_def dom_def)
      then show ?thesis
        using make_phi_args_block_ok [OF assms(1) f] o True by (simp add: phi_block_ok_def)
    next
      case False
      then have "bb' \<noteq> bb" using assms(2,3) o(1) by (auto simp: extends_map_def map_le_def dom_def)
      then show ?thesis
        using phi_block_ok_other [of st m bb' b' st' m'] e f o False ranI [of outer, OF o(1)] by (simp add: flow_ok_def)
    qed
    then show ?thesis using f e by (simp add: flow_ok_def)
  qed
  then show ?thesis using e by (auto simp: frame_def flow_ok_def)
qed

section \<open>Terminators keep the frame\<close>

lemma frame_append_op: "frame outer {blk} st m st (append_op blk nm operands attrs results regions m)"
  by (simp add: append_op_def frame_append)

lemma branch_to_Ok:
  "branch_to target blk bmap st m = Ok (st', m') \<longleftrightarrow>
     (\<exists>b vs m1. bmap target = Some b \<and> make_phi_args target b st m = Ok (vs, st', m1) \<and>
        m' = append_branch blk ''cf.br'' [] [(b, vs)] m1)"
proof -
  have "(if vs = [] then create_cf_br blk b m else append_branch blk ''cf.br'' [] [(b, vs)] m) =
      append_branch blk ''cf.br'' [] [(b, vs)] m" for b vs m
    by (simp add: create_cf_br_def)
  then show ?thesis by (auto simp: branch_to_def)
qed

lemma frame_branch_to:
  assumes "branch_to target blk bmap st m = Ok (st', m')" "extends_map outer bmap"
  shows "frame outer {blk} st m st' m'"
proof -
  obtain b vs m1 where a: "bmap target = Some b" "make_phi_args target b st m = Ok (vs, st', m1)"
    "m' = append_branch blk ''cf.br'' [] [(b, vs)] m1"
    using assms(1) by (auto simp: branch_to_Ok)
  show ?thesis
    using frame_trans [OF frame_make_phi_args [OF a(2) assms(2) a(1)] frame_append] a(3) by (simp add: append_branch_def)
qed

lemma frame_yield: "yield_locals blk ls st m = Ok m' \<Longrightarrow> frame outer {blk} st m st m'"
  by (auto simp: yield_locals_def frame_append_op)

lemma frame_goto:
  assumes "codegen_goto target blk bmap st m = Ok (st', m')" "extends_map outer bmap"
  shows "frame outer {blk} st m st' m'"
  using assms frame_yield frame_branch_to frame_same
  by (auto simp: codegen_goto_def split: option.splits if_splits)

lemma phis_set_ssa [simp]: "phis (set_ssa l v st) = phis st" "phis (st\<lparr>ssa_values := f\<rparr>) = phis st"
  "phis (set_option_local l ov st) = phis st"
  by (simp_all add: phis_def set_table_defs)

lemma frame_state: "frame outer X st1 m st' m' \<Longrightarrow> phis st1 = phis st \<Longrightarrow> frame outer X st m st' m'"
  using frame_trans frame_same by metis

text \<open>A call is plain operations and a jump.\<close>

lemma call_cases:
  assumes "codegen_terminator_call fx mir func args dest target blk bmap st m = Ok (st', m')"
  obtains st1 m1 t where "quiet blk m m1" "phis st1 = phis st" "loop_header_bb st1 = loop_header_bb st"
    "target = Some t" "codegen_goto t blk bmap st1 m1 = Ok (st', m')"
proof -
  obtain v st1 m1 t where a: "call_method fx (func_path fx func) mir func (func_path fx func) args dest blk st m = Ok (v, st1, m1)"
    "codegen_goto t blk bmap (case v of Some r \<Rightarrow> set_ssa (p_local dest) r st1 | None \<Rightarrow> st1) m1 = Ok (st', m')"
    "target = Some t"
    using assms(1) by (auto simp: codegen_terminator_call_def Let_def)
  note q = quiet_call_method [OF a(1)]
  have "control (case v of Some r \<Rightarrow> set_ssa (p_local dest) r st1 | None \<Rightarrow> st1) = control st"
    using q(2) by (simp split: option.split)
  then show ?thesis
    using that [OF q(1) control_phis _ a(3,2)] by (simp add: control_def)
qed

lemma frame_call:
  assumes "codegen_terminator_call fx mir func args dest target blk bmap st m = Ok (st', m')"
    and "extends_map outer bmap"
  shows "frame outer {blk} st m st' m'"
  using assms(1)
proof (cases rule: call_cases)
  case (1 st1 m1 t)
  then show ?thesis using frame_trans [OF frame_quiet] frame_goto [OF _ assms(2)] by blast
qed

lemma frame_arm:
  assumes "codegen_arm fx mir blk bmap bbs st m = Ok (st', m')" "extends_map outer bmap"
  shows "frame outer {blk} st m st' m'"
  using assms(1)
proof (induction bbs arbitrary: st m)
  case Nil
  then show ?case by (simp add: frame_same)
next
  case (Cons bb bbs)
  then obtain bb_data st1 m1 t st2 m2 where a: "block_at mir bb = Some bb_data"
    "codegen_statements (fx_cc fx) mir blk (bb_statements bb_data) st m = Ok (st1, m1)" "bb_terminator bb_data = Some t"
    "(case t of Term_Call func args dest target _ \<Rightarrow> codegen_terminator_call fx mir func args dest target blk bmap st1 m1
      | _ \<Rightarrow> Ok (st1, m1)) = Ok (st2, m2)" "codegen_arm fx mir blk bmap bbs st2 m2 = Ok (st', m')"
    by auto
  have "frame outer {blk} st1 m1 st2 m2"
    using a(4) frame_call [OF _ assms(2)] by (cases t) (auto simp: frame_same)
  then show ?case using frame_statements [OF a(2)] Cons.IH [OF a(5)] frame_trans by blast
qed

text \<open>An arm of a conditional goes to a block of its own.\<close>

lemma frame_fresh:
  "frame outer {b} st m st' m' \<Longrightarrow> (flow_ok outer st m \<Longrightarrow> b \<notin> ran outer) \<Longrightarrow> frame outer X st m st' m'"
  unfolding frame_def by auto

lemma frame_if_arm:
  assumes "codegen_if_arm fx mir bmap chain carry st m = Ok (b, st', m')" "extends_map outer bmap"
  shows "frame outer X st m st' m'"
proof -
  obtain b0 vs m1 where n: "new_block [] m = (b0, vs, m1)" by (cases "new_block [] m") auto
  then obtain m2 where a: "codegen_arm fx mir b0 bmap chain st m1 = Ok (st', m2)" "yield_locals b0 carry st' m2 = Ok m'"
    using assms(1) by (auto simp: codegen_if_arm_def)
  have "frame outer {b0} st m st' m'"
    by (rule frame_trans [OF frame_new_block [OF n refl] frame_trans [OF frame_arm [OF a(1) assms(2)] frame_yield [OF a(2)]]])
  then show ?thesis by (rule frame_fresh) (rule new_block_fresh [OF _ n])
qed

lemma phis_set_locals [simp]: "phis (set_locals ls vs st) = phis st"
proof -
  have "phis (fold (\<lambda>(l, v). set_ssa l v) xs st) = phis st" for xs
    by (induction xs arbitrary: st) auto
  then show ?thesis by (simp add: set_locals_def)
qed

lemma frame_new_values: "new_values ts m = (vs, m') \<Longrightarrow> frame outer X st m st m'"
  by (simp add: frame_same new_values_blocks)

lemma frame_scf_if:
  assumes "codegen_loop_body_switch_as_scf_if fx mir cond true_target false_target blk bmap st m = Ok (st', m')"
    and "extends_map outer bmap"
  shows "frame outer {blk} st m st' m'"
proof -
  obtain back_edge_bb true_chain false_chain carried where c: "loop_back_edge_bb st = Some back_edge_bb"
    "collect_arm_chain mir true_target back_edge_bb (loop_body_bbs st) = Some true_chain"
    "collect_arm_chain mir false_target back_edge_bb (loop_body_bbs st) = Some false_chain"
    "local_values st (loop_iter_carry_locals st) = Ok carried"
    using assms(1) by (auto simp: codegen_loop_body_switch_as_scf_if_def)
  obtain rs m1 where r: "new_values (map v_ty carried) m = (rs, m1)" by fastforce
  let ?carry = "loop_iter_carry_locals st"
  obtain tb st1 m2 eb st2 m3 where arms: "codegen_if_arm fx mir bmap true_chain ?carry st m1 = Ok (tb, st1, m2)"
    "codegen_if_arm fx mir bmap false_chain ?carry (st1\<lparr>ssa_values := ssa_values st\<rparr>) m2 = Ok (eb, st2, m3)"
    using assms(1) c r by (auto simp: codegen_loop_body_switch_as_scf_if_def Let_def)
  define st4 where "st4 = (set_locals ?carry rs (st2\<lparr>ssa_values := ssa_values st\<rparr>))
    \<lparr>skip_bbs := skip_bbs (set_locals ?carry rs (st2\<lparr>ssa_values := ssa_values st\<rparr>)) \<union> set true_chain \<union> set false_chain,
     branch_snapshots := (branch_snapshots (set_locals ?carry rs (st2\<lparr>ssa_values := ssa_values st\<rparr>)))(back_edge_bb := None)\<rparr>"
  define m4 where "m4 = append_op blk ''scf.if'' [cond] [] rs [[tb], [eb]] m3"
  have p: "phis st4 = phis st2"
    using phis_set_locals [of ?carry rs "st2\<lparr>ssa_values := ssa_values st\<rparr>"] by (simp add: st4_def phis_def)
  have e: "st' = st4" "m' = m4 \<or> (\<exists>ls. yield_locals blk ls st4 m4 = Ok m')"
    using assms(1) c r arms
    by (auto simp: codegen_loop_body_switch_as_scf_if_def Let_def st4_def m4_def split: if_splits)
  have "frame outer {blk} st m st2 m3"
    using frame_trans [OF frame_new_values [OF r] frame_trans [OF frame_if_arm [OF arms(1) assms(2)]
      frame_state [OF frame_if_arm [OF arms(2) assms(2)] phis_set_ssa(2)]]] .
  moreover have "frame outer {blk} st2 m3 st4 m4"
    unfolding m4_def by (rule frame_trans [OF frame_append_op frame_same [OF p refl]])
  moreover have "frame outer {blk} st4 m4 st' m'"
    using e frame_yield frame_same by auto
  ultimately show ?thesis using frame_trans by blast
qed

lemma cond_br_Ok:
  "cond_br c target_bb otherwise_bb blk bmap st m = Ok (st', m') \<longleftrightarrow>
     (\<exists>b1 b2 vs1 st1 m1 vs2 m2. bmap target_bb = Some b1 \<and> bmap otherwise_bb = Some b2 \<and>
        make_phi_args target_bb b1 st m = Ok (vs1, st1, m1) \<and> make_phi_args otherwise_bb b2 st1 m1 = Ok (vs2, st', m2) \<and>
        m' = append_branch blk ''cf.cond_br'' [c] [(b1, vs1), (b2, vs2)] m2)"
  by (auto simp: cond_br_def)

lemma frame_cond_br:
  assumes "cond_br c target_bb otherwise_bb blk bmap st m = Ok (st', m')" "extends_map outer bmap"
  shows "frame outer {blk} st m st' m'"
proof -
  obtain b1 b2 vs1 st1 m1 vs2 m2 where a: "bmap target_bb = Some b1" "bmap otherwise_bb = Some b2"
    "make_phi_args target_bb b1 st m = Ok (vs1, st1, m1)" "make_phi_args otherwise_bb b2 st1 m1 = Ok (vs2, st', m2)"
    "m' = append_branch blk ''cf.cond_br'' [c] [(b1, vs1), (b2, vs2)] m2"
    using assms(1) by (auto simp: cond_br_Ok)
  show ?thesis
    using frame_trans [OF frame_make_phi_args [OF a(3) assms(2) a(1)]
      frame_trans [OF frame_make_phi_args [OF a(4) assms(2) a(2)] frame_append]] a(5)
    by (simp add: append_branch_def)
qed

text \<open>The comparison that a switch starts with.\<close>

lemma switch_binary_cases:
  assumes "codegen_switch_binary fx mir discr_value val target_bb otherwise_bb blk bmap st m = Ok (st', m')"
  obtains c m1 where "quiet blk m m1" "loop_header_bb st \<noteq> None"
      "codegen_loop_body_switch_as_scf_if fx mir c target_bb otherwise_bb blk bmap st m1 = Ok (st', m')"
  | m1 where "quiet blk m m1" "codegen_goto target_bb blk bmap st m1 = Ok (st', m')"
  | c m1 where "quiet blk m m1" "cond_br c target_bb otherwise_bb blk bmap st m1 = Ok (st', m')"
proof -
  obtain k m0 where k: "arith_constant blk (Attr_Int (sint (ucast val :: i64)) (v_ty discr_value)) m = (k, m0)" by fastforce
  then obtain c m1 where c: "create_cmpi (cc_lib (fx_cc fx)) blk P_EQ discr_value k (MT_Integer 1) m0 = Ok (c, m1)"
    using assms by (auto simp: codegen_switch_binary_def Let_def)
  have q: "quiet blk m m1"
    using quiet.builder_keeps(2) [OF c] quiet.builder_keeps(5) [OF k quiet_refl] by blast
  show ?thesis
    using assms k c that [OF q] by (auto simp: codegen_switch_binary_def Let_def split: if_splits option.splits)
qed

lemma frame_quiet_then:
  "quiet blk m m1 \<Longrightarrow> phis st1 = phis st \<Longrightarrow> frame outer {blk} st1 m1 st' m' \<Longrightarrow> frame outer {blk} st m st' m'"
  using frame_trans [OF frame_quiet] by blast

lemma frame_switch_binary:
  assumes "codegen_switch_binary fx mir discr_value val target_bb otherwise_bb blk bmap st m = Ok (st', m')"
    and "extends_map outer bmap"
  shows "frame outer {blk} st m st' m'"
  using assms(1)
proof (cases rule: switch_binary_cases)
  case (1 c m1)
  show ?thesis by (rule frame_quiet_then [OF 1(1) refl frame_scf_if [OF 1(3) assms(2)]])
next
  case (2 m1)
  show ?thesis by (rule frame_quiet_then [OF 2(1) refl frame_goto [OF 2(2) assms(2)]])
next
  case (3 c m1)
  show ?thesis by (rule frame_quiet_then [OF 3(1) refl frame_cond_br [OF 3(2) assms(2)]])
qed

text \<open>A switch is a jump or a branch on one comparison, after its operand.\<close>

lemma save_snapshots_phis:
  "phis (fold save_snapshot bbs st) = phis st" "loop_header_bb (fold save_snapshot bbs st) = loop_header_bb st"
proof -
  have *: "phis (save_snapshot bb st) = phis st" "loop_header_bb (save_snapshot bb st) = loop_header_bb st" for bb st
    by (simp_all add: save_snapshot_def phis_def split: option.split)
  show "phis (fold save_snapshot bbs st) = phis st" "loop_header_bb (fold save_snapshot bbs st) = loop_header_bb st"
    by (induction bbs arbitrary: st) (simp_all add: *)
qed

lemma otherwise_target: "otherwise targets = Some bb \<Longrightarrow> bb \<in> set (st_targets targets)"
  by (auto simp: otherwise_def split: if_splits)

lemma switch_target_in: "switch_target targets v = Ok bb \<Longrightarrow> bb \<in> set (st_targets targets)"
  using set_switch_iter_targets otherwise_target
  by (auto simp: switch_target_def find_Some_iff split: option.splits) (metis nth_mem)

lemma switch_cases_targets:
  "switch_iter targets = xs \<Longrightarrow> snd ` set xs \<subseteq> set (st_targets targets)"
  using set_switch_iter_targets by auto

lemma switch_int_cases:
  assumes "codegen_switch_int fx mir discr targets blk bmap st m = Ok (st', m')"
  obtains st1 m1 t where "quiet blk m m1" "phis st1 = phis st" "loop_header_bb st1 = loop_header_bb st"
      "t \<in> set (st_targets targets)" "codegen_goto t blk bmap st1 m1 = Ok (st', m')"
  | st1 m1 v val t1 t2 where "quiet blk m m1" "phis st1 = phis st" "loop_header_bb st1 = loop_header_bb st"
      "t1 \<in> set (st_targets targets)" "t2 \<in> set (st_targets targets)"
      "codegen_switch_binary fx mir v val t1 t2 blk bmap st1 m1 = Ok (st', m')"
proof (cases "extract_switch_const (cc_inst (fx_cc fx)) discr (const_disc_locals st)")
  case (Some c)
  then show ?thesis
    using assms that(1) [OF quiet_refl refl refl] switch_target_in by (auto simp: codegen_switch_int_def Let_def)
next
  case None
  then obtain ty1 v m1 ow where a: "codegen_operand (fx_cc fx) st blk discr ty1 m = Ok (v, m1)" "otherwise targets = Some ow"
    "operand_norm_ty (fx_cc fx) mir discr = Ok ty1"
    using assms by (auto simp: codegen_switch_int_def Let_def)
  define st1 where "st1 = fold save_snapshot (map snd (switch_iter targets) @ [ow]) st"
  have q: "quiet blk m m1" "phis st1 = phis st" "loop_header_bb st1 = loop_header_bb st"
    using quiet.codegen_operand_keeps [OF a(1) quiet_refl] save_snapshots_phis unfolding st1_def by blast+
  note t = switch_cases_targets [OF refl, of targets] otherwise_target [OF a(2)]
  have "(case switch_iter targets of
          [] \<Rightarrow> codegen_goto ow blk bmap st1 m1
        | [(val, t1)] \<Rightarrow> codegen_switch_binary fx mir v val t1 ow blk bmap st1 m1
        | [(val, t1), (_, t2)] \<Rightarrow>
            bind_res (is_unreachable_block mir ow) (\<lambda>u.
              if u then codegen_switch_binary fx mir v val t1 t2 blk bmap st1 m1 else Panic)
        | _ \<Rightarrow> Panic) = Ok (st', m')"
    using assms None a unfolding st1_def by (simp add: codegen_switch_int_def Let_def del: fold_append)
  then consider "switch_iter targets = []" "codegen_goto ow blk bmap st1 m1 = Ok (st', m')"
    | val t1 where "switch_iter targets = [(val, t1)]"
        "codegen_switch_binary fx mir v val t1 ow blk bmap st1 m1 = Ok (st', m')"
    | val t1 val2 t2 where "switch_iter targets = [(val, t1), (val2, t2)]"
        "codegen_switch_binary fx mir v val t1 t2 blk bmap st1 m1 = Ok (st', m')"
    by (auto split: list.split_asm if_split_asm)
  then show ?thesis
  proof cases
    case 1
    then show ?thesis using that(1) [OF q] t by simp
  next
    case 2
    then show ?thesis using that(2) [OF q] t by simp
  next
    case 3
    then show ?thesis using that(2) [OF q] t by auto
  qed
qed

section \<open>Terminators and blocks\<close>

text \<open>Every terminator is a return, or plain operations and a jump or a branch.\<close>

lemma terminator_cases:
  assumes "codegen_terminator fx mir t blk bmap st m = Ok (st', m')"
  obtains vs where "st' = st" "m' = append_op blk ''tt.return'' vs [] [] [] m"
  | st1 m1 bb where "quiet blk m m1" "phis st1 = phis st" "loop_header_bb st1 = loop_header_bb st"
      "bb \<in> set (successors t)" "codegen_goto bb blk bmap st1 m1 = Ok (st', m')"
  | st1 m1 v val t1 t2 where "quiet blk m m1" "phis st1 = phis st" "loop_header_bb st1 = loop_header_bb st"
      "t1 \<in> set (successors t)" "t2 \<in> set (successors t)"
      "codegen_switch_binary fx mir v val t1 t2 blk bmap st1 m1 = Ok (st', m')"
proof (cases t)
  case Term_Return
  then show ?thesis using assms(1) that(1) by (auto simp: codegen_terminator_def codegen_return_def)
next
  case (Term_SwitchInt discr targets)
  then have "codegen_switch_int fx mir discr targets blk bmap st m = Ok (st', m')"
    using assms(1) by (simp add: codegen_terminator_def)
  then show ?thesis
    by (cases rule: switch_int_cases) (use that(2,3) Term_SwitchInt in \<open>auto simp: mk_successors_def all_targets_def\<close>)
next
  case (Term_Call func args dest target unw)
  then have "codegen_terminator_call fx mir func args dest target blk bmap st m = Ok (st', m')"
    using assms(1) by (simp add: codegen_terminator_def)
  then show ?thesis
    by (cases rule: call_cases) (use that(2) Term_Call in \<open>auto simp: mk_successors_def\<close>)
next
  case (Term_Drop p target unw replace d)
  then show ?thesis
    using assms(1) by (intro that(2) [OF quiet_refl refl refl, of target]) (auto simp: codegen_terminator_def mk_successors_def)
next
  case (Term_Assert c e target unw)
  then show ?thesis
    using assms(1) by (intro that(2) [OF quiet_refl refl refl, of target]) (auto simp: codegen_terminator_def mk_successors_def)
qed (use assms(1) that(2) [OF quiet_refl refl refl] in \<open>auto simp: codegen_terminator_def mk_successors_def\<close>)

lemma frame_terminator:
  assumes "codegen_terminator fx mir t blk bmap st m = Ok (st', m')" "extends_map outer bmap"
  shows "frame outer {blk} st m st' m'"
  using assms(1)
proof (cases rule: terminator_cases)
  case (1 vs)
  then show ?thesis using frame_append_op by simp
next
  case (2 st1 m1 bb)
  show ?thesis by (rule frame_quiet_then [OF 2(1,2) frame_goto [OF 2(5) assms(2)]])
next
  case (3 st1 m1 v val t1 t2)
  show ?thesis by (rule frame_quiet_then [OF 3(1,2) frame_switch_binary [OF 3(6) assms(2)]])
qed

lemma enter_block_phis:
  "phis (enter_block bb st) = phis st" "loop_header_bb (enter_block bb st) = loop_header_bb st"
proof -
  have e: "phis (enter_phi bb l s) = phis s" "loop_header_bb (enter_phi bb l s) = loop_header_bb s" for l s
    by (simp_all add: enter_phi_def set_ssa_def phis_def split: option.split)
  have "phis (fold (enter_phi bb) ls s) = phis s" "loop_header_bb (fold (enter_phi bb) ls s) = loop_header_bb s" for ls s
    by (induction ls arbitrary: s) (simp_all add: e)
  then show "phis (enter_block bb st) = phis st" "loop_header_bb (enter_block bb st) = loop_header_bb st"
    by (simp_all add: enter_block_def Let_def phis_def split: option.split)
qed

lemma frame_basic_block:
  assumes "codegen_basic_block fx mir bb bmap st m = Ok (st', m')" "extends_map outer bmap" "bmap bb = Some blk"
  shows "frame outer {blk} st m st' m'"
proof -
  obtain ss st1 m1 t where a: "codegen_statements (fx_cc fx) mir blk ss (enter_block bb st) m = Ok (st1, m1)"
    "codegen_terminator fx mir t blk bmap st1 m1 = Ok (st', m')"
    using assms(1,3) by (auto simp: codegen_basic_block_def)
  show ?thesis
    by (rule frame_state [OF frame_trans [OF frame_statements [OF a(1)] frame_terminator [OF a(2) assms(2)]] enter_block_phis(1)])
qed

end
