(* ===== verification/Func_Flow.thy ===== *)
theory Func_Flow
  imports Emit_Flow Triton_Loop_Correct
begin

text \<open>
  The control flow of a whole function: each of its blocks ends in one branch or return, the only one it has, and each
  branch passes as many values as its target has block arguments.
\<close>

section \<open>The end of a block\<close>

definition ends :: "block_map \<Rightarrow> codegen_state \<Rightarrow> mlir_op \<Rightarrow> bool" where
  "ends outer st tm \<longleftrightarrow>
     op_name tm \<in> set branch_ops \<and>
     (\<forall>(b, vs)\<in>set (op_successors tm). \<exists>bb. outer bb = Some b \<and> bb \<noteq> 0 \<and> phi_full st bb \<and> length vs = phi_arity st bb)"

text \<open>A block gets plain operations and one end.\<close>

definition closes :: "block_map \<Rightarrow> block_ref \<Rightarrow> mlir_module \<Rightarrow> codegen_state \<Rightarrow> mlir_module \<Rightarrow> bool" where
  "closes outer blk m st' m' \<longleftrightarrow>
     (\<exists>ops tm. blk_ops (mm_blocks m' ! blk) = blk_ops (mm_blocks m ! blk) @ ops @ [tm] \<and> list_all plain ops \<and> ends outer st' tm)"

lemma closes_quiet: "quiet blk m m1 \<Longrightarrow> blk < length (mm_blocks m) \<Longrightarrow> closes outer blk m1 st' m' \<Longrightarrow> closes outer blk m st' m'"
  unfolding closes_def quiet_def by (metis append.assoc list_all_append)

lemma phi_full_mono:
  assumes "phi_full st bb" "phi_join_locals st' = phi_join_locals st" "dom (phi_block_args st) \<subseteq> dom (phi_block_args st')"
  shows "phi_full st' bb" "phi_arity st' bb = phi_arity st bb"
  using assms by (auto simp: phi_full_def phi_locals_of_def phi_arity_def)

lemma closes_append:
  assumes "blk < length (mm_blocks m1)" "blk_ops (mm_blocks m1 ! blk) = blk_ops (mm_blocks m ! blk)" "ends outer st' op1"
  shows "closes outer blk m st' (append_operation blk op1 m1)"
  unfolding closes_def using assms by (intro exI [of _ "[]"] exI [of _ op1]) (simp add: append_operation_nth)

lemma in_range: "flow_ok outer st m \<Longrightarrow> outer bb = Some b \<Longrightarrow> b < length (mm_blocks m)"
  by (auto simp: flow_ok_def intro: ranI)

lemma closes_branch_to:
  assumes "branch_to bb blk outer st m = Ok (st', m')" "flow_ok outer st m" "blk < length (mm_blocks m)" "bb \<noteq> 0"
  shows "closes outer blk m st' m'"
proof -
  obtain b vs m1 where a: "outer bb = Some b" "make_phi_args bb b st m = Ok (vs, st', m1)"
    "m' = append_branch blk ''cf.br'' [] [(b, vs)] m1"
    using assms(1) by (auto simp: branch_to_Ok)
  show ?thesis
    unfolding a(3) append_branch_def
    using make_phi_args_effect(4,5) [OF a(2)] make_phi_args_block_ok [OF a(2) assms(2) a(1) assms(4)] assms(3,4) a(1)
    by (intro closes_append) (auto simp: ends_def branch_ops_def)
qed

lemma closes_goto:
  assumes "codegen_goto bb blk outer st m = Ok (st', m')" "loop_header_bb st = None"
    and "flow_ok outer st m" "blk < length (mm_blocks m)" "bb \<noteq> 0"
  shows "closes outer blk m st' m'" "loop_header_bb st' = None"
proof -
  have *: "branch_to bb blk outer st m = Ok (st', m')" using assms(1,2) by (simp add: codegen_goto_def)
  show "closes outer blk m st' m'" by (rule closes_branch_to [OF * assms(3-5)])
  show "loop_header_bb st' = None" using * make_phi_args_effect(2) assms(2) by (auto simp: branch_to_Ok)
qed

lemma closes_cond_br:
  assumes "cond_br c t1 t2 blk outer st m = Ok (st', m')" "loop_header_bb st = None"
    and "flow_ok outer st m" "blk < length (mm_blocks m)" "t1 \<noteq> 0" "t2 \<noteq> 0"
  shows "closes outer blk m st' m'" "loop_header_bb st' = None"
proof -
  obtain b1 b2 vs1 st1 m1 vs2 m2 where a: "outer t1 = Some b1" "outer t2 = Some b2"
    "make_phi_args t1 b1 st m = Ok (vs1, st1, m1)" "make_phi_args t2 b2 st1 m1 = Ok (vs2, st', m2)"
    "m' = append_branch blk ''cf.cond_br'' [c] [(b1, vs1), (b2, vs2)] m2"
    using assms(1) by (auto simp: cond_br_Ok)
  have f: "flow_ok outer st1 m1"
    using frame_make_phi_args [OF a(3) extends_map_refl [of outer] a(1)] assms(3) by (simp add: frame_def)
  note e1 = make_phi_args_effect [OF a(3)] and e2 = make_phi_args_effect [OF a(4)]
  note p1 = make_phi_args_block_ok [OF a(3) assms(3) a(1) assms(5)]
    and p2 = make_phi_args_block_ok [OF a(4) f a(2) assms(6)]
  have "phi_full st' t1" "length vs1 = phi_arity st' t1"
    using phi_full_mono [OF p1(1) e2(1,3)] p1(3) by simp_all
  then have "ends outer st' \<lparr>op_name = ''cf.cond_br'', op_operands = [c], op_attrs = [], op_results = [],
      op_successors = [(b1, vs1), (b2, vs2)], op_regions = []\<rparr>"
    using p2 a(1,2) assms(5,6) by (auto simp: ends_def branch_ops_def)
  then show "closes outer blk m st' m'"
    unfolding a(5) append_branch_def by (intro closes_append) (use e1 e2 assms(4) in auto)
  show "loop_header_bb st' = None" using e1(2) e2(2) assms(2) by simp
qed

lemma flow_ok_quiet: "quiet blk m m1 \<Longrightarrow> phis st1 = phis st \<Longrightarrow> flow_ok outer st m \<Longrightarrow> flow_ok outer st1 m1"
  using frame_quiet [of st1 st blk m m1 outer] by (simp add: frame_def)

lemma quiet_range: "quiet blk m m1 \<Longrightarrow> b < length (mm_blocks m) \<Longrightarrow> b < length (mm_blocks m1)"
  by (simp add: quiet_def)

lemma closes_switch_binary:
  assumes "codegen_switch_binary fx mir v val t1 t2 blk outer st m = Ok (st', m')" "loop_header_bb st = None"
    and "flow_ok outer st m" "blk < length (mm_blocks m)" "t1 \<noteq> 0" "t2 \<noteq> 0"
  shows "closes outer blk m st' m' \<and> loop_header_bb st' = None"
  using assms(1)
proof (cases rule: switch_binary_cases)
  case (2 m1)
  then show ?thesis
    using closes_goto [OF 2(2) assms(2) flow_ok_quiet [OF 2(1) refl assms(3)]] closes_quiet [OF 2(1) assms(4)]
      quiet_range [OF 2(1) assms(4)] assms(5) by blast
next
  case (3 c m1)
  then show ?thesis
    using closes_cond_br [OF 3(2) assms(2) flow_ok_quiet [OF 3(1) refl assms(3)]] closes_quiet [OF 3(1) assms(4)]
      quiet_range [OF 3(1) assms(4)] assms(5,6) by blast
qed (use assms(2) in simp)

lemma closes_terminator:
  assumes "codegen_terminator fx mir t blk outer st m = Ok (st', m')" "loop_header_bb st = None"
    and "flow_ok outer st m" "blk < length (mm_blocks m)" "0 \<notin> set (successors t)"
  shows "closes outer blk m st' m' \<and> loop_header_bb st' = None"
  using assms(1)
proof (cases rule: terminator_cases)
  case (1 vs)
  then show ?thesis
    using assms(2,4) closes_append [OF assms(4) refl] by (auto simp: append_op_def ends_def branch_ops_def)
next
  case (2 st1 m1 bb)
  have "blk < length (mm_blocks m1)" "bb \<noteq> 0" using 2(1,4) assms(4,5) quiet_range by metis+
  then show ?thesis
    using closes_goto [OF 2(5) _ flow_ok_quiet [OF 2(1,2) assms(3)]] closes_quiet [OF 2(1) assms(4)] 2(3) assms(2) by simp
next
  case (3 st1 m1 v val t1 t2)
  have "blk < length (mm_blocks m1)" "t1 \<noteq> 0" "t2 \<noteq> 0" using 3(1,4,5) assms(4,5) quiet_range by metis+
  then show ?thesis
    using closes_switch_binary [OF 3(6) _ flow_ok_quiet [OF 3(1,2) assms(3)]] closes_quiet [OF 3(1) assms(4)] 3(3) assms(2)
    by simp
qed

text \<open>MIR never jumps to its first block.\<close>

definition entry_not_target :: "body \<Rightarrow> bool" where
  "entry_not_target mir \<longleftrightarrow>
     list_all (\<lambda>d. case bb_terminator d of Some t \<Rightarrow> 0 \<notin> set (successors t) | None \<Rightarrow> True) (basic_blocks mir)"

lemma entry_not_targetD:
  "entry_not_target mir \<Longrightarrow> block_at mir bb = Some d \<Longrightarrow> bb_terminator d = Some t \<Longrightarrow> 0 \<notin> set (successors t)"
  by (auto simp: entry_not_target_def block_at_def vec_index_def list_all_length split: if_splits)

lemma closes_basic_block:
  assumes "codegen_basic_block fx mir bb outer st m = Ok (st', m')" "loop_header_bb st = None"
    and "flow_ok outer st m" "outer bb = Some blk" "entry_not_target mir"
  shows "closes outer blk m st' m' \<and> loop_header_bb st' = None"
proof -
  obtain d where d: "block_at mir bb = Some d" using assms(1) by (auto simp: codegen_basic_block_def)
  then obtain st1 m1 t where a: "bb_terminator d = Some t"
    "codegen_statements (fx_cc fx) mir blk (bb_statements d) (enter_block bb st) m = Ok (st1, m1)"
    "codegen_terminator fx mir t blk outer st1 m1 = Ok (st', m')"
    using assms(1,4) by (auto simp: codegen_basic_block_def)
  note k = control_codegen_statements [OF a(2)]
  have c: "phis st1 = phis st" "loop_header_bb st1 = None"
    using control_phis [OF k] k enter_block_phis [of bb st] assms(2) by (simp_all add: control_def)
  note q = quiet_statements [OF a(2)]
  have b: "blk < length (mm_blocks m)" "blk < length (mm_blocks m1)"
    using in_range [OF assms(3,4)] q by (auto simp: quiet_def)
  show ?thesis
    using closes_terminator [OF a(3) c(2) flow_ok_quiet [OF q c(1) assms(3)] b(2) entry_not_targetD [OF assms(5) d a(1)]]
      closes_quiet [OF q b(1)] by blast
qed

section \<open>Loops\<close>

lemma map_blocks_apply: "map_blocks bbs blk bmap bb = (if bb \<in> set bbs then Some blk else bmap bb)"
  unfolding map_blocks_def by (induction bbs arbitrary: bmap) auto

lemma extends_map_blocks:
  "b \<notin> ran outer \<Longrightarrow> set bbs \<inter> dom outer = {} \<Longrightarrow> extends_map outer (map_blocks bbs b outer)"
  by (auto simp: extends_map_def map_blocks_apply map_le_def split: if_splits)

lemma extends_map_upd: "extends_map outer bmap \<Longrightarrow> outer bb = None \<Longrightarrow> b \<notin> ran outer \<Longrightarrow> extends_map outer (bmap(bb \<mapsto> b))"
  by (auto simp: extends_map_def map_le_def split: if_splits)

lemma frame_body:
  assumes "codegen_body fx mir skips bmap bbs st m = Ok (st', m')" "extends_map outer bmap"
    and "\<forall>bb\<in>set bbs. outer bb = None"
  shows "frame outer X st m st' m'"
  using assms(1,3)
proof (induction bbs arbitrary: st m)
  case Nil
  then show ?case by (simp add: frame_same)
next
  case (Cons bb bbs)
  show ?case
  proof (cases "skips \<and> bb \<in> skip_bbs st")
    case True
    then show ?thesis using Cons by simp
  next
    case False
    then obtain st1 m1 where a: "codegen_basic_block fx mir bb bmap st m = Ok (st1, m1)"
      "codegen_body fx mir skips bmap bbs st1 m1 = Ok (st', m')" using Cons.prems(1) by auto
    then obtain b where b: "bmap bb = Some b" by (auto simp: codegen_basic_block_def)
    have "b \<notin> ran outer" using assms(2) b Cons.prems(2) by (auto simp: extends_map_def)
    then have "frame outer X st m st1 m1"
      using frame_fresh frame_basic_block [OF a(1) assms(2) b] by blast
    then show ?thesis using Cons.IH [OF a(2)] Cons.prems(2) frame_trans by auto
  qed
qed

lemma phis_set_loop [simp]: "phis (set_loop h c b st) = phis st" "loop_header_bb (set_loop h c b st) = h"
  by (simp_all add: set_loop_def phis_def)

lemma loop_header_set_locals [simp]: "loop_header_bb (set_locals ls vs st) = loop_header_bb st"
proof -
  have "loop_header_bb (fold (\<lambda>(l, v). set_ssa l v) xs st) = loop_header_bb st" for xs
    by (induction xs arbitrary: st) (auto simp: set_ssa_def)
  then show ?thesis by (simp add: set_locals_def)
qed

lemma enter_for_body_phis: "enter_for_body l args st = Ok st' \<Longrightarrow> phis st' = phis st"
  by (auto simp: enter_for_body_def Let_def split: list.splits if_splits option.splits)

lemma upper_bound_quiet: "upper_bound l blk st m = Ok (v, m') \<Longrightarrow> quiet blk m m'"
  by (auto simp: upper_bound_def split: option.splits intro: quiet_refl dest!: quiet.builder_keeps(5) [OF _ quiet_refl])

text \<open>The init block gets plain operations, the loop, and a branch without values to the exit.\<close>

lemma closes_exit:
  assumes "frame outer {} st m st1 m1" "flow_ok outer st m" "outer bb0 = Some blk"
    and "outer exit_bb = Some b" "exit_bb \<noteq> 0" "phi_arity st exit_bb = 0" "nm \<notin> set branch_ops" "phis st' = phis st1"
  shows "closes outer blk m st' (create_cf_br blk b (append_op blk nm operands attrs results regions m1))"
    (is "closes outer blk m st' (create_cf_br blk b ?m2)")
proof -
  have blk: "blk < length (mm_blocks m)" "blk \<in> ran outer" using in_range [OF assms(2,3)] assms(3) by (auto intro: ranI)
  then have m1: "blk < length (mm_blocks m1)" "blk_ops (mm_blocks m1 ! blk) = blk_ops (mm_blocks m ! blk)"
    using assms(1,2) by (auto simp: frame_def)
  define op1 where "op1 = \<lparr>op_name = nm, op_operands = operands, op_attrs = attrs, op_results = results, op_successors = [],
    op_regions = regions\<rparr>"
  define br where "br = \<lparr>op_name = ''cf.br'', op_operands = [], op_attrs = [], op_results = [], op_successors = [(b, [])],
    op_regions = []\<rparr>"
  have "blk_ops (mm_blocks (create_cf_br blk b ?m2) ! blk) = blk_ops (mm_blocks m ! blk) @ [op1] @ [br]"
    using m1 by (simp add: create_cf_br_def append_branch_def append_op_def append_operation_nth op1_def br_def)
  moreover have "phi_join_locals st' = phi_join_locals st" using assms(1,2,8) by (simp add: frame_def phis_eq)
  then have "ends outer st' br"
    using assms(4-6)
    by (auto simp: ends_def br_def branch_ops_def phi_full_def phi_locals_of_def phi_arity_def split: option.splits)
  ultimately show ?thesis using assms(7) unfolding closes_def by (fastforce simp: plain_def op1_def)
qed

text \<open>What holds of the init block of a loop after the loop has been emitted.\<close>

definition closed_by :: "block_map \<Rightarrow> block_ref \<Rightarrow> codegen_state \<Rightarrow> mlir_module \<Rightarrow> codegen_state \<Rightarrow> mlir_module \<Rightarrow> bool" where
  "closed_by outer blk st m st' m' \<longleftrightarrow>
     closes outer blk m st' m' \<and> loop_header_bb st' = None \<and> frame outer {blk} st m st' m'"

lemma closed_by_quiet:
  assumes "quiet blk m m1" "phis st1 = phis st" "blk < length (mm_blocks m)" "closed_by outer blk st1 m1 st' m'"
  shows "closed_by outer blk st m st' m'"
  using assms closes_quiet [OF assms(1,3)] frame_quiet_then [OF assms(1,2)] by (simp add: closed_by_def)

lemma closed_by_exit:
  assumes "frame outer {} st m st1 m1" "flow_ok outer st m" "outer bb0 = Some blk"
    and "outer exit_bb = Some b" "exit_bb \<noteq> 0" "phi_arity st exit_bb = 0" "nm \<notin> set branch_ops" "phis st' = phis st1"
    and "loop_header_bb st' = None"
  shows "closed_by outer blk st m st' (create_cf_br blk b (append_op blk nm operands attrs results regions m1))"
proof -
  have "frame outer {blk} st m st1 m1" using assms(1) by (rule frame_mono) simp
  moreover have "frame outer {blk} st1 m1 st' (create_cf_br blk b (append_op blk nm operands attrs results regions m1))"
    unfolding create_cf_br_def append_branch_def append_op_def
    by (rule frame_trans [OF frame_append frame_trans [OF frame_append frame_same [OF assms(8) refl]]])
  ultimately show ?thesis
    unfolding closed_by_def using closes_exit [OF assms(1-8)] assms(9) frame_trans by blast
qed

lemma for_loop_closed:
  assumes "codegen_scf_for_loop fx mir l blk outer st m = Ok (st', m')" "flow_ok outer st m"
    and "outer bb0 = Some blk" "set (rl_body_bbs l) \<inter> dom outer = {}" "rl_exit_bb l \<noteq> 0"
    and "phi_arity st (rl_exit_bb l) = 0"
  shows "closed_by outer blk st m st' m'"
proof -
  define carry where "carry = rl_iter_carry_locals l"
  obtain lb m1 where lb: "arith_constant blk (Attr_Int 0 (MT_Integer 32)) m = (lb, m1)" by fastforce
  obtain step m2 where step: "arith_constant blk (Attr_Int 1 (MT_Integer 32)) m1 = (step, m2)" by fastforce
  obtain ub m3 inits where ub: "upper_bound l blk st m2 = Ok (ub, m3)" "local_values st carry = Ok inits"
    using assms(1) lb step by (auto simp: codegen_scf_for_loop_def Let_def carry_def)
  obtain rs m4 where rs: "new_values (map v_ty inits) m3 = (rs, m4)" by fastforce
  obtain bb vs m5 where bb: "new_block (MT_Integer 32 # map v_ty inits) m4 = (bb, vs, m5)"
    by (cases "new_block (MT_Integer 32 # map v_ty inits) m4") auto
  define combined where "combined = map_blocks (rl_body_bbs l) bb outer"
  define st2 where "st2 s = set_loop (Some (rl_header_bb l)) carry (set (rl_body_bbs l)) s
    \<lparr>loop_back_edge_bb := Some (rl_back_edge_bb l)\<rparr>" for s
  obtain eb st1 st3 m6 xb where a: "enter_for_body l (blk_args (mm_blocks m5 ! eb)) st = Ok st1"
    "codegen_body fx mir True combined (rl_body_bbs l) (st2 st1) m5 = Ok (st3, m6)" "outer (rl_exit_bb l) = Some xb"
    and st': "st' = set_locals carry rs (set_loop None [] {} st3\<lparr>loop_back_edge_bb := None, skip_bbs := {}\<rparr>)"
    and m': "m' = create_cf_br blk xb (append_op blk ''scf.for'' ([lb, ub, step] @ inits) [] rs [[bb]] m6)"
    using assms(1) lb step ub rs bb
    by (auto simp: codegen_scf_for_loop_def Let_def carry_def combined_def st2_def)
  have q: "quiet blk m m3"
    using quiet.builder_keeps(5) [OF lb quiet_refl] quiet.builder_keeps(5) [OF step quiet_refl] upper_bound_quiet [OF ub(1)]
      quiet_trans by blast
  have f3: "flow_ok outer st m3" by (rule flow_ok_quiet [OF q refl assms(2)])
  have f4: "flow_ok outer st m4" using frame_new_values [OF rs, of outer "{}" st] f3 by (simp add: frame_def)
  have x: "extends_map outer combined"
    unfolding combined_def by (rule extends_map_blocks [OF new_block_fresh [OF f4 bb] assms(4)])
  have p: "phis (st2 st1) = phis st" using enter_for_body_phis [OF a(1)] by (simp add: st2_def phis_def set_loop_def)
  have "frame outer {} (st2 st1) m5 st3 m6"
    by (rule frame_body [OF a(2) x]) (use assms(4) in auto)
  then have "frame outer {} st m3 st3 m6"
    using frame_trans [OF frame_new_values [OF rs] frame_trans [OF frame_new_block [OF bb refl] frame_state [OF _ p]]] by blast
  then have "closed_by outer blk st m3 st' m'"
    unfolding m' by (rule closed_by_exit [OF _ f3 assms(3) a(3) assms(5,6)]) (simp_all add: st', simp add: phis_def set_loop_def)
  then show ?thesis by (rule closed_by_quiet [OF q refl in_range [OF assms(2,3)]])
qed

lemma header_condition_quiet: "header_condition fx mir d blk st m = Ok (v, m') \<Longrightarrow> quiet blk m m'"
proof -
  assume a: "header_condition fx mir d blk st m = Ok (v, m')"
  then obtain t where "bb_terminator d = Some t" by (auto simp: header_condition_def)
  then show ?thesis
    using a by (cases t) (auto simp: header_condition_def dest!: quiet.codegen_operand_keeps [OF _ quiet_refl])
qed

lemma while_loop_closed:
  assumes "codegen_scf_while_loop fx mir l blk outer st m = Ok (st', m')" "flow_ok outer st m"
    and "outer bb0 = Some blk" "insert (wl_header_bb l) (set (wl_body_bbs l)) \<inter> dom outer = {}" "wl_exit_bb l \<noteq> 0"
    and "phi_arity st (wl_exit_bb l) = 0"
  shows "closed_by outer blk st m st' m'"
proof -
  define carry where "carry = wl_iter_carry_locals l"
  obtain inits where i: "local_values st carry = Ok inits"
    using assms(1) by (auto simp: codegen_scf_while_loop_def Let_def carry_def)
  obtain rs m1 where rs: "new_values (map v_ty inits) m = (rs, m1)" by fastforce
  obtain b1 vs1 m2 where b1: "new_block (map v_ty inits) m1 = (b1, vs1, m2)" by (cases "new_block (map v_ty inits) m1") auto
  obtain d st2 m3 c m4 cs where a: "codegen_statements (fx_cc fx) mir b1 (bb_statements d) (set_locals carry vs1 st) m2 = Ok (st2, m3)"
    "header_condition fx mir d b1 st2 m3 = Ok (c, m4)" "local_values st2 carry = Ok cs" "block_at mir (wl_header_bb l) = Some d"
    using assms(1) i rs b1 by (auto simp: codegen_scf_while_loop_def Let_def carry_def)
  define m5 where "m5 = append_op b1 ''scf.condition'' (c # cs) [] [] [] m4"
  obtain b2 vs2 m6 where b2: "new_block (map v_ty inits) m5 = (b2, vs2, m6)" by (cases "new_block (map v_ty inits) m5") auto
  define st3 where "st3 = set_loop (Some (wl_header_bb l)) carry (set (wl_body_bbs l)) (set_locals carry vs2 st2)"
  define combined where "combined = (map_blocks (wl_body_bbs l) b2 outer)(wl_header_bb l \<mapsto> b1)"
  obtain st4 m7 xb where z: "codegen_body fx mir False combined (wl_body_bbs l) st3 m6 = Ok (st4, m7)"
    "outer (wl_exit_bb l) = Some xb"
    and st': "st' = set_locals carry rs (set_loop None [] {} st4)"
    and m': "m' = create_cf_br blk xb (append_op blk ''scf.while'' inits [] rs [[b1], [b2]] m7)"
    using assms(1) i rs b1 a b2
    by (auto simp: codegen_scf_while_loop_def Let_def carry_def m5_def st3_def combined_def)
  have f1: "flow_ok outer st m1" using frame_new_values [OF rs, of outer "{}" st] assms(2) by (simp add: frame_def)
  have "frame outer {b1} st m1 st2 m5"
    unfolding m5_def
    using frame_trans [OF frame_new_block [OF b1 phis_set_locals] frame_trans [OF frame_statements [OF a(1)]
      frame_trans [OF frame_quiet [OF refl header_condition_quiet [OF a(2)]] frame_append_op]]] .
  then have fr: "frame outer {} st m st2 m5"
    using frame_trans [OF frame_new_values [OF rs] frame_fresh] new_block_fresh [OF f1 b1] by blast
  then have f5: "flow_ok outer st2 m5" using assms(2) by (simp add: frame_def)
  have x: "extends_map outer combined"
    unfolding combined_def using assms(4) new_block_fresh [OF f5 b2] new_block_fresh [OF f1 b1]
    by (intro extends_map_upd extends_map_blocks) auto
  have "frame outer {} st3 m6 st4 m7"
    by (rule frame_body [OF z(1) x]) (use assms(4) in auto)
  then have "frame outer {} st m st4 m7"
    using frame_trans [OF fr frame_trans [OF frame_new_block [OF b2, of st3 st2]]] by (simp add: st3_def)
  then show ?thesis
    unfolding m' by (rule closed_by_exit [OF _ assms(2,3) z(2) assms(5,6)]) (simp_all add: st')
qed

section \<open>The blocks of a function\<close>

text \<open>The exits of the loops that are emitted are blocks without arguments.\<close>

definition plain_exit :: "phi_map \<Rightarrow> basic_block \<Rightarrow> bool" where
  "plain_exit phi bb \<longleftrightarrow> bb \<noteq> 0 \<and> (case phi bb of Some ls \<Rightarrow> ls = [] | None \<Rightarrow> True)"

definition loops_placed ::
    "block_map \<Rightarrow> phi_map \<Rightarrow> (basic_block \<rightharpoonup> range_loop_info) \<Rightarrow> (basic_block \<rightharpoonup> while_loop_info) \<Rightarrow> bool" where
  "loops_placed outer phi for_inits while_inits \<longleftrightarrow>
     (\<forall>l\<in>ran for_inits. set (rl_body_bbs l) \<inter> dom outer = {} \<and> plain_exit phi (rl_exit_bb l)) \<and>
     (\<forall>l\<in>ran while_inits. insert (wl_header_bb l) (set (wl_body_bbs l)) \<inter> dom outer = {} \<and> plain_exit phi (wl_exit_bb l))"

lemma plain_exit_arity: "plain_exit (phi_join_locals st) bb \<longleftrightarrow> bb \<noteq> 0 \<and> phi_arity st bb = 0"
  by (auto simp: plain_exit_def phi_arity_def split: option.splits)

lemma block_closed:
  assumes "codegen_block fx mir for_inits while_inits outer bb d st m = Ok (st', m')"
    and "outer bb = Some blk" "entry_not_target mir" "flow_ok outer st m" "loop_header_bb st = None"
    and "loops_placed outer (phi_join_locals st) for_inits while_inits"
  shows "closed_by outer blk st m st' m'"
proof -
  note blk = in_range [OF assms(4,2)]
  have s: "quiet blk m m1 \<and> phis st1 = phis st \<and> flow_ok outer st1 m1"
    if "codegen_statements (fx_cc fx) mir blk ss st m = Ok (st1, m1)" for ss st1 m1
    using quiet_statements [OF that] control_phis [OF control_codegen_statements [OF that]] flow_ok_quiet assms(4) by blast
  consider l where "for_inits bb = Some l" | l where "for_inits bb = None" "while_inits bb = Some l"
    | "for_inits bb = None" "while_inits bb = None" by (cases "for_inits bb"; cases "while_inits bb") auto
  then show ?thesis
  proof cases
    case (1 l)
    then obtain st1 m1 where a: "codegen_statements (fx_cc fx) mir blk (bb_statements d) st m = Ok (st1, m1)"
      "codegen_scf_for_loop fx mir l blk outer st1 m1 = Ok (st', m')"
      using assms(1,2) by (auto simp: codegen_block_def)
    have w: "set (rl_body_bbs l) \<inter> dom outer = {}" "rl_exit_bb l \<noteq> 0" "phi_arity st1 (rl_exit_bb l) = 0"
      using assms(6) ranI [of for_inits, OF 1] s [OF a(1)] plain_exit_arity [of st1]
      by (auto simp: loops_placed_def phis_eq)
    then have "closed_by outer blk st1 m1 st' m'"
      using for_loop_closed [OF a(2) _ assms(2) w] s [OF a(1)] by blast
    then show ?thesis using closed_by_quiet s [OF a(1)] blk by blast
  next
    case (2 l)
    then obtain st1 m1 where a: "codegen_statements (fx_cc fx) mir blk (bb_statements d) st m = Ok (st1, m1)"
      "codegen_scf_while_loop fx mir l blk outer st1 m1 = Ok (st', m')"
      using assms(1,2) by (auto simp: codegen_block_def)
    have w: "insert (wl_header_bb l) (set (wl_body_bbs l)) \<inter> dom outer = {}" "wl_exit_bb l \<noteq> 0" "phi_arity st1 (wl_exit_bb l) = 0"
      using assms(6) ranI [of while_inits, OF 2(2)] s [OF a(1)] plain_exit_arity [of st1]
      by (auto simp: loops_placed_def phis_eq)
    then have "closed_by outer blk st1 m1 st' m'"
      using while_loop_closed [OF a(2) _ assms(2) w] s [OF a(1)] by blast
    then show ?thesis using closed_by_quiet s [OF a(1)] blk by blast
  next
    case 3
    then have "codegen_basic_block fx mir bb outer st m = Ok (st', m')" using assms(1) by (simp add: codegen_block_def)
    then show ?thesis
      unfolding closed_by_def
      using closes_basic_block [OF _ assms(5,4,2,3)] frame_basic_block [OF _ extends_map_refl [of outer] assms(2)] by blast
  qed
qed

text \<open>A finished block.\<close>

definition finished :: "block_map \<Rightarrow> codegen_state \<Rightarrow> mlir_module \<Rightarrow> block_ref \<Rightarrow> bool" where
  "finished outer st m b \<longleftrightarrow> (\<exists>ops tm. blk_ops (mm_blocks m ! b) = ops @ [tm] \<and> list_all plain ops \<and> ends outer st tm)"

lemma ends_mono:
  assumes "ends outer st tm" "phi_join_locals st' = phi_join_locals st" "dom (phi_block_args st) \<subseteq> dom (phi_block_args st')"
  shows "ends outer st' tm"
proof -
  have "\<exists>bb. outer bb = Some b \<and> bb \<noteq> 0 \<and> phi_full st' bb \<and> length vs = phi_arity st' bb"
    if s: "(b, vs) \<in> set (op_successors tm)" for b vs
  proof -
    obtain bb where "outer bb = Some b" "bb \<noteq> 0" "phi_full st bb" "length vs = phi_arity st bb"
      using bspec [OF conjunct2 [OF assms(1) [unfolded ends_def]] s] by auto
    then show ?thesis using phi_full_mono [OF _ assms(2,3), of bb] by auto
  qed
  then show ?thesis using assms(1) by (auto simp: ends_def)
qed

lemma finished_frame:
  assumes "finished outer st m b" "frame outer X st m st' m'" "flow_ok outer st m" "b \<in> ran outer" "b \<notin> X"
  shows "finished outer st' m' b"
proof -
  obtain ops tm where o: "blk_ops (mm_blocks m ! b) = ops @ [tm]" "list_all plain ops" "ends outer st tm"
    using assms(1) by (auto simp: finished_def)
  have "ends outer st' tm"
    using ends_mono [OF o(3)] assms(2,3) by (simp add: frame_def)
  then show ?thesis using o assms(2-5) by (auto simp: finished_def frame_def)
qed

lemma blocks_finished:
  assumes "codegen_blocks fx mir for_inits while_inits outer region bbs st m = Ok (st', m')"
    and "dom outer \<inter> region = {}" "entry_not_target mir" "flow_ok outer st m" "loop_header_bb st = None"
    and "loops_placed outer (phi_join_locals st) for_inits while_inits" "distinct bbs"
    and "\<forall>bb\<in>set bbs - region. \<exists>b. outer bb = Some b \<and> blk_ops (mm_blocks m ! b) = []"
  shows "flow_ok outer st' m' \<and> frame outer (the ` outer ` (set bbs - region)) st m st' m' \<and>
    (\<forall>bb\<in>set bbs - region. finished outer st' m' (the (outer bb)))"
  using assms(1,4,5,6,7,8)
proof (induction bbs arbitrary: st m)
  case Nil
  then show ?case by (simp add: frame_same)
next
  case (Cons bb bbs)
  show ?case
  proof (cases "bb \<in> region")
    case True
    then have "set (bb # bbs) - region = set bbs - region" by auto
    then show ?thesis using Cons.IH [of st m] Cons.prems True by (auto simp: expect_def split: option.splits)
  next
    case False
    then obtain blk where blk: "outer bb = Some blk" "blk_ops (mm_blocks m ! blk) = []" using Cons.prems(6) by auto
    obtain d st1 m1 where a: "codegen_block fx mir for_inits while_inits outer bb d st m = Ok (st1, m1)"
      "codegen_blocks fx mir for_inits while_inits outer region bbs st1 m1 = Ok (st', m')"
      using Cons.prems(1) False by auto
    have c: "closed_by outer blk st m st1 m1"
      by (rule block_closed [OF a(1) blk(1) assms(3) Cons.prems(2-4)])
    then have f: "flow_ok outer st1 m1" "phi_join_locals st1 = phi_join_locals st" "loop_header_bb st1 = None"
      "frame outer {blk} st m st1 m1"
      using Cons.prems(2) by (auto simp: closed_by_def frame_def)
    have fin: "finished outer st1 m1 blk"
      using c blk(2) by (auto simp: closed_by_def closes_def finished_def)
    have other: "the (outer bb') \<noteq> blk \<and> (\<exists>b. outer bb' = Some b \<and> blk_ops (mm_blocks m1 ! b) = [])"
      if "bb' \<in> set bbs - region" for bb'
    proof -
      obtain b where b: "outer bb' = Some b" "blk_ops (mm_blocks m ! b) = []" using Cons.prems(6) \<open>bb' \<in> set bbs - region\<close> by auto
      have "bb' \<noteq> bb" using Cons.prems(5) \<open>bb' \<in> set bbs - region\<close> by auto
      then have "b \<noteq> blk" using Cons.prems(2) b(1) blk(1) by (auto simp: flow_ok_def inj_on_def dom_def)
      then show ?thesis using b f(4) Cons.prems(2) ranI [of outer, OF b(1)] by (auto simp: frame_def)
    qed
    have IH: "flow_ok outer st' m' \<and> frame outer (the ` outer ` (set bbs - region)) st1 m1 st' m' \<and>
      (\<forall>bb\<in>set bbs - region. finished outer st' m' (the (outer bb)))"
      using Cons.IH [OF a(2) f(1,3)] Cons.prems(4,5) f(2) other by simp
    have "blk \<notin> the ` outer ` (set bbs - region)" using other by auto
    then have "finished outer st' m' blk"
      using finished_frame [OF fin _ f(1) ranI [of outer, OF blk(1)]] IH by blast
    moreover have "blk \<in> the ` outer ` (set (bb # bbs) - region)" using blk(1) False by force
    then have "frame outer (the ` outer ` (set (bb # bbs) - region)) st m st' m'"
      using IH by (intro frame_trans [OF frame_mono [OF f(4)] frame_mono]) auto
    ultimately show ?thesis using IH blk(1) by auto
  qed
qed

section \<open>Creation of the blocks\<close>

text \<open>The blocks are new and empty; only the first one has arguments.\<close>

definition blocks_new :: "block_map \<Rightarrow> mlir_module \<Rightarrow> bool" where
  "blocks_new bmap m \<longleftrightarrow>
     inj_on bmap (dom bmap) \<and> (\<forall>b\<in>ran bmap. b < length (mm_blocks m) \<and> blk_ops (mm_blocks m ! b) = []) \<and>
     (\<forall>bb b. bmap bb = Some b \<longrightarrow> bb \<noteq> 0 \<longrightarrow> blk_args (mm_blocks m ! b) = [])"

lemma entry_args_effect:
  assumes "entry_args cc blk l inputs ts st m = Ok (st', m')"
  shows "phis st' = phis st" "loop_header_bb st' = loop_header_bb st" "length (mm_blocks m') = length (mm_blocks m)"
    "\<And>b. b < length (mm_blocks m) \<Longrightarrow> blk_ops (mm_blocks m' ! b) = blk_ops (mm_blocks m ! b)"
    "\<And>b. b < length (mm_blocks m) \<Longrightarrow> b \<noteq> blk \<Longrightarrow> mm_blocks m' ! b = mm_blocks m ! b"
proof -
  have "phis st' = phis st \<and> loop_header_bb st' = loop_header_bb st \<and> length (mm_blocks m') = length (mm_blocks m) \<and>
    (\<forall>b<length (mm_blocks m). blk_ops (mm_blocks m' ! b) = blk_ops (mm_blocks m ! b) \<and>
       (b \<noteq> blk \<longrightarrow> mm_blocks m' ! b = mm_blocks m ! b))"
    using assms
  proof (induction inputs arbitrary: l ts st m)
    case (Cons t inputs)
    show ?case
    proof (cases "is_option_ty (cc_def_path_str cc) t")
      case True
      then show ?thesis using Cons by (auto simp: set_table_defs phis_def)
    next
      case False
      then obtain u us where "ts = u # us" using Cons.prems by (auto split: list.splits)
      then show ?thesis
        using False Cons.prems Cons.IH [of "l + 1" us "set_ssa l (fst (add_argument blk u m)) st" "snd (add_argument blk u m)"]
        by (auto simp: add_argument_def Let_def nth_list_update set_ssa_def phis_def)
    qed
  qed simp
  then show "phis st' = phis st" "loop_header_bb st' = loop_header_bb st" "length (mm_blocks m') = length (mm_blocks m)"
    "\<And>b. b < length (mm_blocks m) \<Longrightarrow> blk_ops (mm_blocks m' ! b) = blk_ops (mm_blocks m ! b)"
    "\<And>b. b < length (mm_blocks m) \<Longrightarrow> b \<noteq> blk \<Longrightarrow> mm_blocks m' ! b = mm_blocks m ! b" by auto
qed

lemma blocks_new_insert:
  assumes "blocks_new bmap m" "new_block [] m = (blk, vs, m1)" "bb \<notin> dom bmap" "length (mm_blocks m2) = length (mm_blocks m1)"
    and "\<And>b. b < length (mm_blocks m1) \<Longrightarrow> blk_ops (mm_blocks m2 ! b) = blk_ops (mm_blocks m1 ! b)"
    and "\<And>b. b < length (mm_blocks m1) \<Longrightarrow> b \<noteq> blk \<or> bb \<noteq> 0 \<Longrightarrow> mm_blocks m2 ! b = mm_blocks m1 ! b"
  shows "blocks_new (bmap(bb \<mapsto> blk)) m2"
proof -
  have n: "blk = length (mm_blocks m)" "mm_blocks m1 = mm_blocks m @ [\<lparr>blk_args = [], blk_ops = []\<rparr>]"
    using new_block_blocks [OF assms(2)] assms(2) by (auto simp: new_block_def)
  have fresh: "blk \<notin> ran bmap" "\<And>b. b \<in> ran bmap \<Longrightarrow> b < length (mm_blocks m)"
    using assms(1) n(1) by (auto simp: blocks_new_def)
  have "inj_on (bmap(bb \<mapsto> blk)) (dom (bmap(bb \<mapsto> blk)))"
    using assms(1) fresh(1) by (auto simp: blocks_new_def inj_on_def dom_def ran_def)
  moreover have old: "mm_blocks m2 ! b = mm_blocks m ! b \<and> b < length (mm_blocks m2)" if "b \<in> ran bmap" for b
    using fresh(2) [OF that] assms(4) assms(6) [of b] n by (auto simp: nth_append)
  moreover have "blk < length (mm_blocks m2)" "blk_ops (mm_blocks m2 ! blk) = []"
    "bb \<noteq> 0 \<Longrightarrow> blk_args (mm_blocks m2 ! blk) = []"
    using assms(4) assms(5,6) [of blk] n by (auto simp: nth_append)
  moreover have "blk_args (mm_blocks m2 ! b) = []" if "bmap c = Some b" "c \<noteq> 0" for c b
    using old [OF ranI [of bmap, OF that(1)]] assms(1) that by (simp add: blocks_new_def)
  ultimately show ?thesis
    using assms(1,3) by (auto simp: blocks_new_def ran_map_upd dom_def split: if_splits)
qed

lemma create_blocks_new:
  assumes "create_blocks cc region inputs ts bbs bmap st m = Ok (bmap', st', m')" "blocks_new bmap m"
    and "distinct bbs" "set bbs \<inter> dom bmap = {}"
  shows "blocks_new bmap' m' \<and> dom bmap' = dom bmap \<union> (set bbs - region) \<and> phis st' = phis st \<and>
    loop_header_bb st' = loop_header_bb st"
  using assms
proof (induction bbs arbitrary: bmap st m)
  case (Cons bb bbs)
  show ?case
  proof (cases "bb \<in> region")
    case True
    then show ?thesis using Cons.IH [of bmap st m] Cons.prems by auto
  next
    case False
    obtain blk vs m1 where n: "new_block [] m = (blk, vs, m1)" by (cases "new_block [] m") auto
    obtain st2 m2 where e: "(if bb = 0 then entry_args cc blk 1 inputs ts st m1 else Ok (st, m1)) = Ok (st2, m2)"
      and r: "create_blocks cc region inputs ts bbs (bmap(bb \<mapsto> blk)) st2 m2 = Ok (bmap', st', m')"
      using Cons.prems(1) False n by auto
    have p: "phis st2 = phis st" "loop_header_bb st2 = loop_header_bb st"
      using e entry_args_effect(1,2) by (auto split: if_splits)
    have b: "blocks_new (bmap(bb \<mapsto> blk)) m2"
      by (rule blocks_new_insert [OF Cons.prems(2) n])
        (use e entry_args_effect Cons.prems(4) in \<open>auto split: if_splits\<close>)
    have d: "distinct bbs" "set bbs \<inter> dom (bmap(bb \<mapsto> blk)) = {}" using Cons.prems(3,4) by auto
    have "dom (bmap(bb \<mapsto> blk)) \<union> (set bbs - region) = dom bmap \<union> (set (bb # bbs) - region)" using False by auto
    then show ?thesis using Cons.IH [OF r b d] p by metis
  qed
qed simp

lemma blocks_new_flow:
  assumes "blocks_new outer m" "phi_block_args st = Map.empty" "\<And>bb ls. phi_join_locals st bb = Some ls \<Longrightarrow> distinct ls"
  shows "flow_ok outer st m"
  using assms by (auto simp: flow_ok_def blocks_new_def phi_block_ok_def phi_none_def)

section \<open>The analyses\<close>

lemma init_map_ran:
  assumes "init_map mir region header ls f = Some g" "l \<in> ran g"
  shows "l \<in> set ls \<or> l \<in> ran f"
  using assms(1)
proof (induction ls arbitrary: f)
  case Nil
  then show ?case using assms(2) by simp
next
  case (Cons x ls)
  then consider "init_map mir region header ls f = Some g" | bb where "init_map mir region header ls (f(bb \<mapsto> x)) = Some g"
    by (auto split: option.splits)
  then show ?case
  proof cases
    case (2 bb)
    then show ?thesis using Cons.IH [OF 2] by (auto simp: ran_def split: if_splits)
  qed (use Cons.IH in auto)
qed

lemma retain_phis_distinct: "retain_phis px c n ls = Some rs \<Longrightarrow> distinct ls \<Longrightarrow> distinct rs \<and> set rs \<subseteq> set ls"
proof (induction ls arbitrary: rs)
  case (Cons l ls)
  then show ?case by (auto split: if_splits bind_splits)
qed simp

lemma phi_round_distinct: "phi_round px pm r known = Some res \<Longrightarrow> res j = Some ls \<Longrightarrow> distinct ls"
  by (auto simp: phi_round_def join_phis_def distinct_push_new split: if_splits option.splits list.splits bind_splits
      dest!: retain_phis_distinct)

lemma phi_fixpoint_distinct: "phi_fixpoint fuel px pm r known = Some res \<Longrightarrow> res j = Some ls \<Longrightarrow> distinct ls"
  by (induction fuel arbitrary: r known) (auto split: bind_splits if_splits dest: phi_round_distinct)

lemma reach_loop_distinct:
  "reach_loop ix mir m q R ord = Some (R', ord') \<Longrightarrow> distinct ord \<Longrightarrow> set ord \<subseteq> R \<Longrightarrow> distinct ord'"
proof (induction ix mir m q R ord rule: reach_loop.induct)
  case (2 ix mir m bb q R ord)
  then show ?case by (auto split: if_splits option.splits)
qed simp

lemma analyse_ok:
  assumes "analyse cc fe mir = Some an"
  shows "distinct (fa_order an)" "\<And>bb ls. fa_phis an bb = Some ls \<Longrightarrow> distinct ls"
    "\<And>l. l \<in> ran (fa_for_inits an) \<Longrightarrow> set (rl_body_bbs l) \<subseteq> fa_region an"
    "\<And>l. l \<in> ran (fa_while_inits an) \<Longrightarrow> insert (wl_header_bb l) (set (wl_body_bbs l)) \<subseteq> fa_region an"
proof -
  obtain reach order fors whiles fi wi phis where a:
    "compute_reachable_blocks (cc_inst cc) mir (compute_const_disc_locals (cc_inst cc) mir) = Some (reach, order)"
    "detect_range_loop (cc_inst cc) mir = Some fors" "detect_while_loop mir (range_region fors) = Some whiles"
    "init_map mir (range_region fors \<union> while_region whiles) rl_header_bb fors Map.empty = Some fi"
    "init_map mir (range_region fors \<union> while_region whiles) wl_header_bb whiles Map.empty = Some wi"
    "compute_phi_join_locals (fe_fuel fe)
        \<lparr>px_mir = mir, px_reachable = reach, px_loop_region = range_region fors \<union> while_region whiles,
         px_def_path_str = cc_def_path_str cc, px_iter = fe_iter fe\<rparr> = Some phis"
    and an: "fa_order an = order" "fa_region an = range_region fors \<union> while_region whiles" "fa_for_inits an = fi"
      "fa_while_inits an = wi" "fa_phis an = phis"
    using assms unfolding analyse_def Let_def by (auto split: bind_splits)
  show "distinct (fa_order an)"
    using reach_loop_distinct [OF a(1) [unfolded compute_reachable_blocks_def]] an by simp
  show "distinct ls" if "fa_phis an bb = Some ls" for bb ls
    using a(6) that an by (auto simp: compute_phi_join_locals_def split: bind_splits dest: phi_fixpoint_distinct)
  show "set (rl_body_bbs l) \<subseteq> fa_region an" if "l \<in> ran (fa_for_inits an)" for l
    using init_map_ran [OF a(4)] that an by (auto simp: range_region_def)
  show "insert (wl_header_bb l) (set (wl_body_bbs l)) \<subseteq> fa_region an" if "l \<in> ran (fa_while_inits an)" for l
    using init_map_ran [OF a(5)] that an by (auto simp: while_region_def)
qed

section \<open>Functions\<close>

definition block_flow_ok :: "mlir_module \<Rightarrow> block_ref list \<Rightarrow> block_ref \<Rightarrow> bool" where
  "block_flow_ok m bs b \<longleftrightarrow>
     b < length (mm_blocks m) \<and>
     (let ops = blk_ops (mm_blocks m ! b) in
      ops \<noteq> [] \<and> list_all plain (butlast ops) \<and> op_name (last ops) \<in> set branch_ops \<and>
      list_all (\<lambda>(t, vs). t \<in> set bs \<and> length vs = length (blk_args (mm_blocks m ! t))) (op_successors (last ops)))"

text \<open>The exits of all loops of an analysed function.\<close>

definition plain_exits :: "fn_analysis \<Rightarrow> bool" where
  "plain_exits an \<longleftrightarrow>
     (\<forall>l\<in>ran (fa_for_inits an). plain_exit (fa_phis an) (rl_exit_bb l)) \<and>
     (\<forall>l\<in>ran (fa_while_inits an). plain_exit (fa_phis an) (wl_exit_bb l))"

lemma full_args:
  assumes "flow_ok outer st m" "outer bb = Some b" "bb \<noteq> 0" "phi_full st bb"
  shows "length (blk_args (mm_blocks m ! b)) = phi_arity st bb"
proof -
  have "phi_block_ok st m bb b" using assms(1-3) by (simp add: flow_ok_def)
  then show ?thesis
    using assms(4) unfolding phi_block_ok_def phi_full_def phi_none_def phi_locals_of_def phi_arity_def
    by (auto split: option.splits)
qed

lemma finished_flow:
  assumes "finished outer st m b" "flow_ok outer st m" "b \<in> ran outer" "ran outer = set bs"
  shows "block_flow_ok m bs b"
proof -
  obtain ops tm where o: "blk_ops (mm_blocks m ! b) = ops @ [tm]" "list_all plain ops" "ends outer st tm"
    using assms(1) by (auto simp: finished_def)
  have "t \<in> set bs \<and> length vs = length (blk_args (mm_blocks m ! t))" if s: "(t, vs) \<in> set (op_successors tm)" for t vs
  proof -
    obtain bb where "outer bb = Some t" "bb \<noteq> 0" "phi_full st bb" "length vs = phi_arity st bb"
      using bspec [OF conjunct2 [OF o(3) [unfolded ends_def]] s] by auto
    then show ?thesis using full_args [OF assms(2)] assms(4) by (auto intro: ranI)
  qed
  then show ?thesis
    using o assms(2,3) by (auto simp: block_flow_ok_def flow_ok_def ends_def list_all_iff)
qed

lemma analysed_flow:
  assumes "codegen_analysed fx fe f an arg_types ret_types m = Ok (func, m')" "analyse cc fe (fi_mir f) = Some an"
    and "entry_not_target (fi_mir f)" "plain_exits an"
  shows "list_all (block_flow_ok m' (mf_blocks func)) (mf_blocks func) \<and> distinct (mf_blocks func)"
proof -
  define st where "st = codegen_state_new\<lparr>const_disc_locals := fa_const_disc an, phi_join_locals := fa_phis an\<rparr>"
  obtain bmap st1 m1 st2 where c: "create_blocks (fx_cc fx) (fa_region an) (fi_inputs f) arg_types (fa_order an) Map.empty st m = Ok (bmap, st1, m1)"
    "codegen_blocks fx (fi_mir f) (fa_for_inits an) (fa_while_inits an) bmap (fa_region an) (fa_order an) st1 m1 = Ok (st2, m')"
    and bs: "mf_blocks func = map (the \<circ> bmap) (filter (\<lambda>bb. bb \<notin> fa_region an) (fa_order an))"
    using assms(1) by (auto simp: codegen_analysed_def Let_def st_def create_func_def)
  note an = analyse_ok [OF assms(2)]
  have b: "blocks_new bmap m1" "dom bmap = set (fa_order an) - fa_region an" "phis st1 = phis st" "loop_header_bb st1 = None"
    using create_blocks_new [OF c(1) _ an(1)] by (auto simp: blocks_new_def st_def codegen_state_new_def)
  then have j: "phi_join_locals st1 = fa_phis an" "phi_block_args st1 = Map.empty"
    by (auto simp: phis_eq st_def codegen_state_new_def)
  have f: "flow_ok bmap st1 m1" using blocks_new_flow [OF b(1) j(2)] an(2) j(1) by simp
  have l: "loops_placed bmap (phi_join_locals st1) (fa_for_inits an) (fa_while_inits an)"
    using assms(4) an(3,4) b(2) j(1) by (fastforce simp: loops_placed_def plain_exits_def)
  have new: "\<forall>bb\<in>set (fa_order an) - fa_region an. \<exists>x. bmap bb = Some x \<and> blk_ops (mm_blocks m1 ! x) = []"
  proof
    fix bb
    assume "bb \<in> set (fa_order an) - fa_region an"
    then obtain x where "bmap bb = Some x" using b(2) by blast
    then show "\<exists>x. bmap bb = Some x \<and> blk_ops (mm_blocks m1 ! x) = []"
      using b(1) ranI [of bmap bb x] by (auto simp: blocks_new_def)
  qed
  have fin: "flow_ok bmap st2 m'" "\<forall>bb\<in>set (fa_order an) - fa_region an. finished bmap st2 m' (the (bmap bb))"
    using blocks_finished [OF c(2) _ assms(3) f b(4) l an(1) new] b(2) by auto
  have ran: "ran bmap = set (mf_blocks func)" using b(2) by (force simp: bs ran_def dom_def image_iff)
  then have "list_all (block_flow_ok m' (mf_blocks func)) (mf_blocks func)"
    using finished_flow [OF _ fin(1) _ ran] fin(2) bs by (auto simp: list_all_iff)
  moreover have "inj_on bmap (dom bmap)" "inj_on the (bmap ` dom bmap)"
    using f by (auto simp: flow_ok_def inj_on_def)
  then have "distinct (mf_blocks func)"
    using an(1) b(2) comp_inj_on [of bmap "dom bmap" the] by (simp add: bs distinct_map set_diff_eq)
  ultimately show ?thesis by blast
qed

end
