(* ===== verification/Emit_Sem.thy ===== *)
theory Emit_Sem
  imports Triton_Stmt
begin

text \<open>
  The meaning of emitted code and of MIR on integers. A machine integer of \<open>w\<close> bits is the number below \<open>2 ^ w\<close>
  that its bits spell.

  \<open>arith_sem\<close> is the documented meaning of the operations of the arithmetic dialect on integers that the code generator
  emits; it has no value where the documentation says that the result is poison or undefined. \<open>mir_binop\<close> is the
  meaning of MIR's operators as the comments of \<open>BinOp\<close> in \<open>rustc_middle/src/mir/syntax.rs\<close> give it.
\<close>

section \<open>Machine integers\<close>

definition sv :: "nat \<Rightarrow> nat \<Rightarrow> int" where
  "sv w a = (if a < 2 ^ (w - 1) then int a else int a - 2 ^ w)"

definition rep :: "nat \<Rightarrow> int \<Rightarrow> nat" where
  "rep w z = nat (z mod 2 ^ w)"

lemma rep_less: "rep w z < 2 ^ w"
  by (simp add: rep_def nat_less_iff)

lemma rep_int: "a < 2 ^ w \<Longrightarrow> rep w (int a) = a"
  by (simp add: rep_def flip: of_nat_power of_nat_mod)

lemma sv_small: "a < 2 ^ (w - 1) \<Longrightarrow> sv w a = int a"
  by (simp add: sv_def)

section \<open>Operations of the arithmetic dialect\<close>

definition arith2 :: "string \<Rightarrow> nat \<Rightarrow> nat \<Rightarrow> nat \<Rightarrow> nat option" where
  "arith2 nm w a b =
     (if nm = ''arith.addi'' then Some (rep w (int a + int b))
      else if nm = ''arith.subi'' then Some (rep w (int a - int b))
      else if nm = ''arith.muli'' then Some (rep w (int a * int b))
      else if nm = ''arith.divsi'' then
        (if b = 0 \<or> sv w a = - (2 ^ (w - 1)) \<and> sv w b = - 1 then None else Some (rep w (sv w a sdiv sv w b)))
      else if nm = ''arith.remsi'' then
        (if b = 0 \<or> sv w a = - (2 ^ (w - 1)) \<and> sv w b = - 1 then None else Some (rep w (sv w a smod sv w b)))
      else if nm = ''arith.shli'' then (if b < w then Some (rep w (int a * 2 ^ b)) else None)
      else if nm = ''arith.shrsi'' then (if b < w then Some (rep w (sv w a div 2 ^ b)) else None)
      else if nm = ''arith.shrui'' then (if b < w then Some (a div 2 ^ b) else None)
      else if nm = ''arith.andi'' then Some (and a b)
      else if nm = ''arith.ori'' then Some (or a b)
      else if nm = ''arith.xori'' then Some (xor a b)
      else None)"

definition cmpi_sem :: "int \<Rightarrow> nat \<Rightarrow> nat \<Rightarrow> nat \<Rightarrow> bool option" where
  "cmpi_sem code w a b =
     (if code = 0 then Some (a = b)
      else if code = 1 then Some (a \<noteq> b)
      else if code = 2 then Some (sv w a < sv w b)
      else if code = 3 then Some (sv w a \<le> sv w b)
      else if code = 4 then Some (sv w a > sv w b)
      else if code = 5 then Some (sv w a \<ge> sv w b)
      else if code = 6 then Some (a < b)
      else if code = 7 then Some (a \<le> b)
      else if code = 8 then Some (a > b)
      else if code = 9 then Some (a \<ge> b)
      else None)"

type_synonym op_sem = "string \<Rightarrow> mlir_attr list \<Rightarrow> mlir_ty list \<Rightarrow> mlir_ty \<Rightarrow> nat list \<Rightarrow> nat option"

fun int_width :: "mlir_ty \<Rightarrow> nat option" where
  "int_width (MT_Integer w) = Some w"
| "int_width _ = None"

definition const_sem :: "mlir_attr list \<Rightarrow> mlir_ty \<Rightarrow> nat option" where
  "const_sem attrs t =
     (case attrs of
        [Attr_Int n t'] \<Rightarrow> if t' = t then map_option (\<lambda>w. rep w n) (int_width t) else None
      | _ \<Rightarrow> None)"

definition binary_sem :: "string \<Rightarrow> mlir_ty list \<Rightarrow> mlir_ty \<Rightarrow> nat list \<Rightarrow> nat option" where
  "binary_sem nm ts t xs =
     (case xs of
        [a, b] \<Rightarrow> if ts = [t, t] then Option.bind (int_width t) (\<lambda>w. arith2 nm w a b) else None
      | _ \<Rightarrow> None)"

definition compare_sem :: "mlir_attr list \<Rightarrow> mlir_ty list \<Rightarrow> mlir_ty \<Rightarrow> nat list \<Rightarrow> nat option" where
  "compare_sem attrs ts t xs =
     (case (attrs, ts, xs) of
        ([Attr_Int code t'], [t1, t2], [a, b]) \<Rightarrow>
          if t' = MT_Integer 64 \<and> t = MT_Integer 1 \<and> t1 = t2
          then Option.bind (int_width t1) (\<lambda>w. map_option of_bool (cmpi_sem code w a b)) else None
      | _ \<Rightarrow> None)"

definition arith_sem :: op_sem where
  "arith_sem nm attrs ts t xs =
     (if nm = ''arith.constant'' then if ts = [] \<and> xs = [] then const_sem attrs t else None
      else if nm = ''arith.cmpi'' then compare_sem attrs ts t xs
      else if attrs = [] then binary_sem nm ts t xs else None)"

text \<open>A semantics of operations that agrees with the documentation wherever that gives a result.\<close>

definition documented :: "op_sem \<Rightarrow> bool" where
  "documented sem \<longleftrightarrow> (\<forall>nm attrs ts t xs y. arith_sem nm attrs ts t xs = Some y \<longrightarrow> sem nm attrs ts t xs = Some y)"

text \<open>What is documented of the library: the result of a binary operation has the type of its operands, an integer
  attribute is parsed from its printed form, with 64 bits when no type is given.\<close>

definition same_type_ops :: "string list" where
  "same_type_ops = [''arith.addi'', ''arith.subi'', ''arith.muli'', ''arith.divsi'', ''arith.remsi'', ''arith.shli'',
     ''arith.shrsi'', ''arith.shrui'', ''arith.andi'', ''arith.ori'', ''arith.xori'']"

definition lib_documented :: "mlir_lib \<Rightarrow> bool" where
  "lib_documented lib \<longleftrightarrow>
     (\<forall>nm\<in>set same_type_ops. \<forall>t. ml_infer lib nm [t, t] = Some t) \<and>
     (\<forall>n w. n < 2 ^ w \<longrightarrow> ml_parse_attr lib (attr_text n w) = Some (Attr_Int (int n) (MT_Integer w))) \<and>
     (\<forall>n < 2 ^ 63. ml_parse_attr lib (to_string (int n)) = Some (Attr_Int (int n) (MT_Integer 64)))"

section \<open>Running emitted code\<close>

type_synonym rt_env = "nat \<rightharpoonup> nat"

definition exec_op :: "op_sem \<Rightarrow> mlir_op \<Rightarrow> rt_env \<Rightarrow> rt_env option" where
  "exec_op sem op1 env =
     (case op_results op1 of
        [v] \<Rightarrow> do {
          xs \<leftarrow> those (map (env \<circ> v_id) (op_operands op1));
          y \<leftarrow> sem (op_name op1) (op_attrs op1) (map v_ty (op_operands op1)) (v_ty v) xs;
          Some (env(v_id v \<mapsto> y)) }
      | _ \<Rightarrow> None)"

fun exec_ops :: "op_sem \<Rightarrow> mlir_op list \<Rightarrow> rt_env \<Rightarrow> rt_env option" where
  "exec_ops sem [] env = Some env"
| "exec_ops sem (op1 # ops) env = Option.bind (exec_op sem op1 env) (exec_ops sem ops)"

lemma exec_ops_append: "exec_ops sem (xs @ ys) env = Option.bind (exec_ops sem xs env) (exec_ops sem ys)"
  by (induction xs arbitrary: env) (auto split: bind_splits)

text \<open>What a function of the code generator added to a block.\<close>

definition emits :: "block_ref \<Rightarrow> mlir_module \<Rightarrow> mlir_op list \<Rightarrow> mlir_module \<Rightarrow> bool" where
  "emits blk m ops m' \<longleftrightarrow>
     mm_blocks m' = (mm_blocks m)[blk := (mm_blocks m ! blk)\<lparr>blk_ops := blk_ops (mm_blocks m ! blk) @ ops\<rparr>] \<and>
     mm_next m \<le> mm_next m'"

lemma emits_refl: "emits blk m [] m"
  by (simp add: emits_def)

lemma emits_trans:
  assumes "emits blk m ops1 m1" "emits blk m1 ops2 m2"
  shows "emits blk m (ops1 @ ops2) m2"
proof (cases "blk < length (mm_blocks m)")
  case True
  then show ?thesis using assms by (simp add: emits_def)
next
  case False
  then show ?thesis using assms by (simp add: emits_def list_update_beyond)
qed

section \<open>Operators of MIR\<close>

definition in_range :: "bool \<Rightarrow> nat \<Rightarrow> int \<Rightarrow> bool" where
  "in_range s w z \<longleftrightarrow> (if s then - (2 ^ (w - 1)) \<le> z \<and> z < 2 ^ (w - 1) else 0 \<le> z \<and> z < 2 ^ w)"

definition value_of :: "bool \<Rightarrow> nat \<Rightarrow> nat \<Rightarrow> int" where
  "value_of s w a = (if s then sv w a else int a)"

definition if_in_range :: "bool \<Rightarrow> nat \<Rightarrow> int \<Rightarrow> nat option" where
  "if_in_range s w z = (if in_range s w z then Some (rep w z) else None)"

definition mir_binop :: "bool \<Rightarrow> nat \<Rightarrow> bin_op \<Rightarrow> nat \<Rightarrow> nat \<Rightarrow> nat option" where
  "mir_binop s w bop a b =
     (let x = value_of s w a; y = value_of s w b in
      case bop of
        BinOp_Add \<Rightarrow> Some (rep w (x + y))
      | BinOp_AddUnchecked \<Rightarrow> if_in_range s w (x + y)
      | BinOp_Sub \<Rightarrow> Some (rep w (x - y))
      | BinOp_SubUnchecked \<Rightarrow> if_in_range s w (x - y)
      | BinOp_Mul \<Rightarrow> Some (rep w (x * y))
      | BinOp_MulUnchecked \<Rightarrow> if_in_range s w (x * y)
      | BinOp_Div \<Rightarrow> if y = 0 \<or> \<not> in_range s w (x sdiv y) then None else Some (rep w (x sdiv y))
      | BinOp_Rem \<Rightarrow> if y = 0 \<or> \<not> in_range s w (x sdiv y) then None else Some (rep w (x smod y))
      | BinOp_BitXor \<Rightarrow> Some (xor a b)
      | BinOp_BitAnd \<Rightarrow> Some (and a b)
      | BinOp_BitOr \<Rightarrow> Some (or a b)
      | BinOp_Shl \<Rightarrow> Some (rep w (x * 2 ^ nat (y mod int w)))
      | BinOp_ShlUnchecked \<Rightarrow> if 0 \<le> y \<and> y < int w then Some (rep w (x * 2 ^ nat y)) else None
      | BinOp_Shr \<Rightarrow> Some (rep w (x div 2 ^ nat (y mod int w)))
      | BinOp_ShrUnchecked \<Rightarrow> if 0 \<le> y \<and> y < int w then Some (rep w (x div 2 ^ nat y)) else None
      | BinOp_Eq \<Rightarrow> Some (of_bool (x = y))
      | BinOp_Ne \<Rightarrow> Some (of_bool (x \<noteq> y))
      | BinOp_Lt \<Rightarrow> Some (of_bool (x < y))
      | BinOp_Le \<Rightarrow> Some (of_bool (x \<le> y))
      | BinOp_Gt \<Rightarrow> Some (of_bool (x > y))
      | BinOp_Ge \<Rightarrow> Some (of_bool (x \<ge> y))
      | _ \<Rightarrow> None)"

fun is_comparison :: "bin_op \<Rightarrow> bool" where
  "is_comparison BinOp_Eq = True"
| "is_comparison BinOp_Ne = True"
| "is_comparison BinOp_Lt = True"
| "is_comparison BinOp_Le = True"
| "is_comparison BinOp_Gt = True"
| "is_comparison BinOp_Ge = True"
| "is_comparison _ = False"

definition result_bits :: "bin_op \<Rightarrow> nat \<Rightarrow> nat" where
  "result_bits bop w = (if is_comparison bop then 1 else w)"

text \<open>Where the code generator's choice of operations is right: it takes every integer for signed, and it does not
  reduce shift amounts.\<close>

definition sign_sensitive :: "bin_op \<Rightarrow> bool" where
  "sign_sensitive bop \<longleftrightarrow> bop \<in> {BinOp_Div, BinOp_Rem, BinOp_Lt, BinOp_Le, BinOp_Gt, BinOp_Ge}"

definition faithful :: "bool \<Rightarrow> nat \<Rightarrow> bin_op \<Rightarrow> nat \<Rightarrow> nat \<Rightarrow> bool" where
  "faithful s w bop a b \<longleftrightarrow>
     (s \<or> \<not> sign_sensitive bop \<or> a < 2 ^ (w - 1) \<and> b < 2 ^ (w - 1)) \<and>
     (bop \<in> {BinOp_Shl, BinOp_Shr} \<longrightarrow> b < w)"

end
