(* ===== verification/Emit_Ops.thy ===== *)
theory Emit_Ops
  imports Emit_Sem
begin

text \<open>
  The operation that the code generator chooses for an operator of MIR on integers computes the operator, where
  \<open>faithful\<close> holds. The proof goes through the name of the operation: what is emitted, and what it computes.
\<close>

section \<open>Values\<close>

lemma rep_cong: "x mod 2 ^ w = y mod 2 ^ w \<Longrightarrow> rep w x = rep w y"
  by (simp add: rep_def)

lemma value_of_mod: "value_of s w a mod 2 ^ w = int a mod 2 ^ w"
  by (simp add: value_of_def sv_def mod_diff_right_eq [symmetric])

lemma rep_value_of:
  "rep w (value_of s w a + value_of s w b) = rep w (int a + int b)"
  "rep w (value_of s w a - value_of s w b) = rep w (int a - int b)"
  "rep w (value_of s w a * value_of s w b) = rep w (int a * int b)"
  by (intro rep_cong mod_add_cong mod_diff_cong mod_mult_cong value_of_mod refl)+

lemma two_power_half: "0 < w \<Longrightarrow> (2 :: 'a::comm_semiring_1) ^ w = 2 * 2 ^ (w - 1)"
  by (cases w) simp_all

lemma value_of_range:
  assumes "0 < w" "a < 2 ^ w"
  shows "in_range s w (value_of s w a)"
proof -
  have "int a < 2 * 2 ^ (w - 1)" using assms(2) unfolding two_power_half [OF assms(1), symmetric] by (simp flip: of_nat_power)
  moreover have "int a < 2 ^ w" using assms(2) by (simp flip: of_nat_power)
  moreover have "a < 2 ^ (w - 1) \<longleftrightarrow> int a < 2 ^ (w - 1)" by (simp flip: of_nat_power)
  ultimately show ?thesis
    using two_power_half [OF assms(1), where 'a = int] by (auto simp: in_range_def value_of_def sv_def)
qed

lemma value_of_inject:
  assumes "0 < w" "a < 2 ^ w" "b < 2 ^ w"
  shows "value_of s w a = value_of s w b \<longleftrightarrow> a = b"
proof
  assume "value_of s w a = value_of s w b"
  then have "int a mod 2 ^ w = int b mod 2 ^ w" using value_of_mod [of s w a] value_of_mod [of s w b] by simp
  then show "a = b" using assms by (simp flip: of_nat_power of_nat_mod)
qed simp

lemma value_of_zero: "0 < w \<Longrightarrow> a < 2 ^ w \<Longrightarrow> value_of s w a = 0 \<longleftrightarrow> a = 0"
proof -
  have "value_of s w 0 = 0" by (simp add: value_of_def sv_def)
  then show "0 < w \<Longrightarrow> a < 2 ^ w \<Longrightarrow> ?thesis" using value_of_inject [of w a 0 s] by simp
qed

lemma less_two_power_half: "0 < w \<Longrightarrow> b < w \<Longrightarrow> b < 2 ^ (w - 1)"
proof -
  assume w: "0 < w" "b < w"
  have "b \<le> w - 1" using w by simp
  also have "w - 1 < 2 ^ (w - 1)" by simp
  finally show ?thesis .
qed

lemma value_of_nonneg: "0 < w \<Longrightarrow> a < 2 ^ w \<Longrightarrow> 0 \<le> value_of s w a \<Longrightarrow> value_of s w a = int a"
proof -
  assume "a < 2 ^ w"
  then have "int a < 2 ^ w" by (simp flip: of_nat_power)
  then show "0 \<le> value_of s w a \<Longrightarrow> ?thesis" by (auto simp: value_of_def sv_def split: if_splits)
qed

lemma value_of_shift: "0 < w \<Longrightarrow> b < w \<Longrightarrow> value_of s w b = int b"
  using less_two_power_half by (simp add: value_of_def sv_def)

section \<open>What the operations compute\<close>

fun int_op_name :: "bool \<Rightarrow> bin_op \<Rightarrow> string option" where
  "int_op_name s BinOp_Add = Some ''arith.addi''"
| "int_op_name s BinOp_AddUnchecked = Some ''arith.addi''"
| "int_op_name s BinOp_Sub = Some ''arith.subi''"
| "int_op_name s BinOp_SubUnchecked = Some ''arith.subi''"
| "int_op_name s BinOp_Mul = Some ''arith.muli''"
| "int_op_name s BinOp_MulUnchecked = Some ''arith.muli''"
| "int_op_name s BinOp_Div = Some ''arith.divsi''"
| "int_op_name s BinOp_Rem = Some ''arith.remsi''"
| "int_op_name s BinOp_BitXor = Some ''arith.xori''"
| "int_op_name s BinOp_BitAnd = Some ''arith.andi''"
| "int_op_name s BinOp_BitOr = Some ''arith.ori''"
| "int_op_name s BinOp_Shl = Some ''arith.shli''"
| "int_op_name s BinOp_ShlUnchecked = Some ''arith.shli''"
| "int_op_name s BinOp_Shr = Some (if s then ''arith.shrsi'' else ''arith.shrui'')"
| "int_op_name s BinOp_ShrUnchecked = Some (if s then ''arith.shrsi'' else ''arith.shrui'')"
| "int_op_name s _ = None"

fun cmp_predicate :: "bin_op \<Rightarrow> predicate option" where
  "cmp_predicate BinOp_Eq = Some P_EQ"
| "cmp_predicate BinOp_Lt = Some P_SLT"
| "cmp_predicate BinOp_Le = Some P_SLE"
| "cmp_predicate BinOp_Ne = Some P_NE"
| "cmp_predicate BinOp_Ge = Some P_SGE"
| "cmp_predicate BinOp_Gt = Some P_SGT"
| "cmp_predicate _ = None"

text \<open>On the operands of a sign-sensitive operator the signed reading is the right one.\<close>

lemma faithful_sv: "faithful s w bop a b \<Longrightarrow> sign_sensitive bop \<Longrightarrow> value_of s w a = sv w a \<and> value_of s w b = sv w b"
  by (auto simp: faithful_def value_of_def sv_small)

lemma div_no_overflow:
  assumes "0 < w" "in_range s w (value_of s w a sdiv value_of s w b)" "value_of s w a = sv w a" "value_of s w b = sv w b"
  shows "\<not> (sv w a = - (2 ^ (w - 1)) \<and> sv w b = - 1)"
proof
  assume "sv w a = - (2 ^ (w - 1)) \<and> sv w b = - 1"
  then have "value_of s w a sdiv value_of s w b = 2 ^ (w - 1)" "value_of s w a < 0"
    using assms(3,4) by (simp_all add: signed_divide_int_def)
  then have "s" "in_range s w (2 ^ (w - 1))" using assms(2) by (auto simp: value_of_def split: if_splits)
  then show False by (simp add: in_range_def)
qed

lemma shift_right_value:
  assumes "0 < w" "a < 2 ^ w" "b < w"
  shows "(if s then rep w (sv w a div 2 ^ b) else a div 2 ^ b) = rep w (value_of s w a div 2 ^ b)"
proof (cases s)
  case False
  have "a div 2 ^ b < 2 ^ w" using assms(2) by (rule order.strict_trans1 [OF div_le_dividend])
  then have "rep w (int (a div 2 ^ b)) = a div 2 ^ b" by (rule rep_int)
  then show ?thesis using False by (simp add: value_of_def zdiv_int)
qed (simp add: value_of_def)

lemma arith2_simps [simp]:
  "arith2 ''arith.addi'' w a b = Some (rep w (int a + int b))"
  "arith2 ''arith.subi'' w a b = Some (rep w (int a - int b))"
  "arith2 ''arith.muli'' w a b = Some (rep w (int a * int b))"
  "arith2 ''arith.divsi'' w a b =
     (if b = 0 \<or> sv w a = - (2 ^ (w - 1)) \<and> sv w b = - 1 then None else Some (rep w (sv w a sdiv sv w b)))"
  "arith2 ''arith.remsi'' w a b =
     (if b = 0 \<or> sv w a = - (2 ^ (w - 1)) \<and> sv w b = - 1 then None else Some (rep w (sv w a smod sv w b)))"
  "arith2 ''arith.shli'' w a b = (if b < w then Some (rep w (int a * 2 ^ b)) else None)"
  "arith2 ''arith.shrsi'' w a b = (if b < w then Some (rep w (sv w a div 2 ^ b)) else None)"
  "arith2 ''arith.shrui'' w a b = (if b < w then Some (a div 2 ^ b) else None)"
  "arith2 ''arith.andi'' w a b = Some (and a b)"
  "arith2 ''arith.ori'' w a b = Some (or a b)"
  "arith2 ''arith.xori'' w a b = Some (xor a b)"
  by (simp_all add: arith2_def)

lemma arith2_mir_binop:
  assumes "0 < w" "a < 2 ^ w" "b < 2 ^ w" "int_op_name s bop = Some nm" "faithful s w bop a b"
    and y: "mir_binop s w bop a b = Some y"
  shows "arith2 nm w a b = Some y"
proof -
  let ?x = "value_of s w a" and ?y = "value_of s w b"
  note zero = value_of_zero [OF assms(1,3), of s] and sv = faithful_sv [OF assms(5)]
  have shift: "b < w \<and> ?y = int b" if "0 \<le> ?y \<and> ?y < int w" using that value_of_nonneg [OF assms(1,3), of s] by simp
  have mult: "rep w (?x * z) = rep w (int a * z)" for z by (intro rep_cong mod_mult_cong value_of_mod refl)
  note defs = mir_binop_def Let_def if_in_range_def rep_value_of sign_sensitive_def
  have div: "b \<noteq> 0 \<and> \<not> (sv w a = - (2 ^ (w - 1)) \<and> sv w b = - 1) \<and> ?x = sv w a \<and> ?y = sv w b"
    if "sign_sensitive bop" "?y \<noteq> 0" "in_range s w (?x sdiv ?y)"
    using that zero sv div_no_overflow [OF assms(1), of s a b] by auto
  show ?thesis
  proof (cases bop)
    case BinOp_Div
    then have "Some y = Some (rep w (?x sdiv ?y))" "?y \<noteq> 0" "in_range s w (?x sdiv ?y)"
      using y by (auto simp: defs split: if_splits)
    then show ?thesis using BinOp_Div assms(4) div by (auto simp: sign_sensitive_def)
  next
    case BinOp_Rem
    then have "Some y = Some (rep w (?x smod ?y))" "?y \<noteq> 0" "in_range s w (?x sdiv ?y)"
      using y by (auto simp: defs split: if_splits)
    then show ?thesis using BinOp_Rem assms(4) div by (auto simp: sign_sensitive_def)
  next
    case BinOp_Shl
    then have "b < w" using assms(5) by (simp add: faithful_def)
    then show ?thesis using BinOp_Shl assms(4) y value_of_shift [OF assms(1), of b s] by (auto simp: defs mult)
  next
    case BinOp_ShlUnchecked
    then show ?thesis using assms(4) y shift by (auto simp: defs mult split: if_splits)
  next
    case BinOp_Shr
    then have b: "b < w" using assms(5) by (simp add: faithful_def)
    then have "y = rep w (?x div 2 ^ b)" using BinOp_Shr y value_of_shift [OF assms(1), of b s] by (simp add: defs)
    then show ?thesis using BinOp_Shr assms(4) b shift_right_value [OF assms(1,2) b, of s] by (auto split: if_splits)
  next
    case BinOp_ShrUnchecked
    then have b: "b < w" "?y = int b" using y shift by (auto simp: defs split: if_splits)
    then have "y = rep w (?x div 2 ^ b)" using BinOp_ShrUnchecked y by (simp add: defs)
    then show ?thesis using BinOp_ShrUnchecked assms(4) b shift_right_value [OF assms(1,2) b(1), of s] by (auto split: if_splits)
  qed (use assms(4) y in \<open>auto simp: defs split: if_splits\<close>)
qed

lemma cmpi_sem_mir_binop:
  assumes "0 < w" "a < 2 ^ w" "b < 2 ^ w" "cmp_predicate bop = Some p" "faithful s w bop a b"
    and y: "mir_binop s w bop a b = Some y"
  shows "map_option of_bool (cmpi_sem (predicate_code p) w a b) = Some y"
proof -
  note inj = value_of_inject [OF assms(1-3), of s] and sv = faithful_sv [OF assms(5)]
  show ?thesis using assms(4) y inj sv
    by (cases bop) (auto simp: mir_binop_def cmpi_sem_def sign_sensitive_def)
qed

section \<open>What is emitted\<close>

lemma lib_infer: "lib_documented lib \<Longrightarrow> nm \<in> set same_type_ops \<Longrightarrow> ml_infer lib nm [t, t] = Some t"
  by (simp add: lib_documented_def)

lemma int_op_name_same_type: "int_op_name s bop = Some nm \<Longrightarrow> nm \<in> set same_type_ops"
  by (cases bop) (auto simp: same_type_ops_def split: if_splits)

lemma create_binary_int:
  assumes "lib_documented lib" "nm \<in> set same_type_ops" "v_ty lhs = t" "v_ty rhs = t"
  shows "create_binary lib nm blk lhs rhs m = Ok (emit1 blk nm [lhs, rhs] [] t m)"
  using lib_infer [OF assms(1,2)] assms(3,4) by (simp add: create_binary_def emit_inferred_def)

lemma codegen_bin_op_int:
  assumes "lib_documented lib" "int_op_name s bop = Some nm" "v_ty lhs = MT_Integer w" "v_ty rhs = MT_Integer w"
  shows "codegen_bin_op lib bop s blk lhs rhs m = Ok (emit1 blk nm [lhs, rhs] [] (MT_Integer w) m)"
proof -
  note e = create_binary_int [OF assms(1) int_op_name_same_type [OF assms(2)] assms(3,4)]
  show ?thesis using assms(2-4) e
    by (cases bop) (auto simp: codegen_bin_op_def codegen_add_def codegen_sub_def codegen_mul_def codegen_div_def codegen_rem_def
        codegen_xor_def codegen_and_def codegen_or_def codegen_shl_def codegen_shr_def codegen_arith_def
        codegen_scalar_int_def codegen_bitwise_def create_binary_defs create_muli_def match_shapes_def elem_ty_def
        split: if_splits)
qed

lemma predicate_code_range: "0 \<le> predicate_code p \<and> predicate_code p < 2 ^ 63"
  by (cases p) simp_all

lemma parse_predicate: "lib_documented lib \<Longrightarrow>
  ml_parse_attr lib (to_string (predicate_code p)) = Some (Attr_Int (predicate_code p) (MT_Integer 64))"
proof -
  assume "lib_documented lib"
  then have "n < 2 ^ 63 \<Longrightarrow> ml_parse_attr lib (to_string (int n)) = Some (Attr_Int (int n) (MT_Integer 64))" for n
    by (simp add: lib_documented_def)
  from this [of "nat (predicate_code p)"] predicate_code_range [of p] show ?thesis by (simp add: nat_less_iff)
qed

lemma codegen_bin_op_cmp:
  assumes "lib_documented lib" "cmp_predicate bop = Some p" "v_ty lhs = MT_Integer w" "v_ty rhs = MT_Integer w"
  shows "codegen_bin_op lib bop s blk lhs rhs m =
    Ok (emit1 blk ''arith.cmpi'' [lhs, rhs] [Attr_Int (predicate_code p) (MT_Integer 64)] (MT_Integer 1) m)"
proof -
  have "codegen_cmpi lib p blk lhs rhs m =
      Ok (emit1 blk ''arith.cmpi'' [lhs, rhs] [Attr_Int (predicate_code p) (MT_Integer 64)] (MT_Integer 1) m)"
    using parse_predicate [OF assms(1)] assms(3,4) by (simp add: codegen_cmpi_def create_cmpi_def)
  then show ?thesis using assms(2) by (cases bop) (auto simp: codegen_bin_op_def)
qed

end
