(* ===== verification/Emit_Runs.thy ===== *)
theory Emit_Runs
  imports Emit_Ops
begin

text \<open>
  Statements of MIR on a store of integers, and runs of the code that the code generator appends to a block. Source
  programs that are undefined have no result, and \<open>run_faithful\<close> leaves out the places where the code generator's
  choice of operations is wrong.
\<close>

section \<open>Integer statements of MIR\<close>

type_synonym store = "local \<rightharpoonup> nat"

text \<open>Signedness and width of the integer types; \<open>bool\<close> is an unsigned number of one bit.\<close>

fun int_shape :: "ty \<Rightarrow> (bool \<times> nat) option" where
  "int_shape Ty_Bool = Some (False, 1)"
| "int_shape (Ty_Int I8) = Some (True, 8)"
| "int_shape (Ty_Int I16) = Some (True, 16)"
| "int_shape (Ty_Int I32) = Some (True, 32)"
| "int_shape (Ty_Int I64) = Some (True, 64)"
| "int_shape (Ty_Int I128) = Some (True, 128)"
| "int_shape (Ty_Int Isize) = Some (True, 64)"
| "int_shape (Ty_Uint U8) = Some (False, 8)"
| "int_shape (Ty_Uint U16) = Some (False, 16)"
| "int_shape (Ty_Uint U32) = Some (False, 32)"
| "int_shape (Ty_Uint U64) = Some (False, 64)"
| "int_shape (Ty_Uint U128) = Some (False, 128)"
| "int_shape (Ty_Uint Usize) = Some (False, 64)"
| "int_shape _ = None"

definition local_shape :: "codegen_ctx \<Rightarrow> body \<Rightarrow> local \<Rightarrow> (bool \<times> nat) option" where
  "local_shape cc mir l = Option.bind (vec_index (local_decls mir) l) (\<lambda>t. int_shape (cc_normalize cc t))"

text \<open>A scalar constant of an integer type has the size of the type, one byte for \<open>bool\<close>.\<close>

definition const_operand :: "codegen_ctx \<Rightarrow> scalar_int \<Rightarrow> ty \<Rightarrow> ((bool \<times> nat) \<times> nat) option" where
  "const_operand cc s t =
     (case int_shape t of
        None \<Rightarrow> None
      | Some (sg, w) \<Rightarrow>
          if cc_normalize cc t = t \<and> si_size s = (w + 7) div 8 \<and> unat (si_data s) < 2 ^ w
          then Some ((sg, w), unat (si_data s)) else None)"

definition mir_operand :: "codegen_ctx \<Rightarrow> body \<Rightarrow> store \<Rightarrow> operand \<Rightarrow> ((bool \<times> nat) \<times> nat) option" where
  "mir_operand cc mir store op1 =
     (case bare_local op1 of
        Some l \<Rightarrow> do { sh \<leftarrow> local_shape cc mir l; x \<leftarrow> store l; Some (sh, x) }
      | None \<Rightarrow>
          (case op1 of
             Op_Constant (MC_Val (CV_Scalar (Scalar_Int s)) t) \<Rightarrow> const_operand cc s t
           | _ \<Rightarrow> None))"

definition mir_rvalue :: "codegen_ctx \<Rightarrow> body \<Rightarrow> store \<Rightarrow> rvalue \<Rightarrow> ((bool \<times> nat) \<times> nat) option" where
  "mir_rvalue cc mir store rv =
     (case rv of
        Rv_Use op1 \<Rightarrow> mir_operand cc mir store op1
      | Rv_BinaryOp bop l r \<Rightarrow> do {
          ((s, w), a) \<leftarrow> mir_operand cc mir store l;
          (sh, b) \<leftarrow> mir_operand cc mir store r;
          y \<leftarrow> (if sh = (s, w) then mir_binop s w bop a b else None);
          Some (if is_comparison bop then (False, 1) else (s, w), y) }
      | Rv_UnaryOp UnOp_Neg op1 \<Rightarrow> do {
          ((s, w), a) \<leftarrow> mir_operand cc mir store op1;
          Some ((s, w), rep w (- int a)) }
      | Rv_Cast Cast_IntToInt op1 t \<Rightarrow> do {
          ((s, w), a) \<leftarrow> mir_operand cc mir store op1;
          (s', w') \<leftarrow> int_shape (cc_normalize cc t);
          Some ((s', w'), rep w' (value_of s w a)) }
      | _ \<Rightarrow> None)"

definition mir_stmt :: "codegen_ctx \<Rightarrow> body \<Rightarrow> statement \<Rightarrow> store \<Rightarrow> store option" where
  "mir_stmt cc mir s store =
     (case s of
        Stmt_Assign p rv \<Rightarrow> do {
          (sh, y) \<leftarrow> mir_rvalue cc mir store rv;
          if p_projection p = [] \<and> local_shape cc mir (p_local p) = Some sh then Some (store(p_local p \<mapsto> y)) else None }
      | Stmt_SetDiscriminant _ _ \<Rightarrow> None
      | Stmt_Intrinsic _ \<Rightarrow> None
      | _ \<Rightarrow> Some store)"

fun mir_run :: "codegen_ctx \<Rightarrow> body \<Rightarrow> statement list \<Rightarrow> store \<Rightarrow> store option" where
  "mir_run cc mir [] store = Some store"
| "mir_run cc mir (s # ss) store = Option.bind (mir_stmt cc mir s store) (mir_run cc mir ss)"

text \<open>Negation is right for 32 bits only, and a cast between integers only when it keeps the width.\<close>

definition rv_faithful :: "codegen_ctx \<Rightarrow> body \<Rightarrow> store \<Rightarrow> rvalue \<Rightarrow> bool" where
  "rv_faithful cc mir store rv =
     (case rv of
        Rv_BinaryOp bop l r \<Rightarrow>
          (case (mir_operand cc mir store l, mir_operand cc mir store r) of
             (Some ((s, w), a), Some (_, b)) \<Rightarrow> faithful s w bop a b
           | _ \<Rightarrow> False)
      | Rv_UnaryOp _ op1 \<Rightarrow> (case mir_operand cc mir store op1 of Some ((_, w), _) \<Rightarrow> w = 32 | None \<Rightarrow> False)
      | Rv_Cast _ op1 t \<Rightarrow>
          (case mir_operand cc mir store op1 of
             Some ((_, w), _) \<Rightarrow> map_option snd (int_shape (cc_normalize cc t)) = Some w
           | None \<Rightarrow> False)
      | _ \<Rightarrow> True)"

fun run_faithful :: "codegen_ctx \<Rightarrow> body \<Rightarrow> statement list \<Rightarrow> store \<Rightarrow> bool" where
  "run_faithful cc mir [] store = True"
| "run_faithful cc mir (s # ss) store =
     ((case s of Stmt_Assign _ rv \<Rightarrow> rv_faithful cc mir store rv | _ \<Rightarrow> True) \<and>
      (case mir_stmt cc mir s store of Some store' \<Rightarrow> run_faithful cc mir ss store' | None \<Rightarrow> True))"

section \<open>Runs of appended code\<close>

definition runs :: "op_sem \<Rightarrow> block_ref \<Rightarrow> rt_env \<Rightarrow> mlir_module \<Rightarrow> rt_env \<Rightarrow> mlir_module \<Rightarrow> bool" where
  "runs sem blk env m env' m' \<longleftrightarrow>
     (\<exists>ops. emits blk m ops m' \<and> exec_ops sem ops env = Some env') \<and> env \<subseteq>\<^sub>m env' \<and> dom env' \<subseteq> {..<mm_next m'}"

lemma runs_refl: "dom env \<subseteq> {..<mm_next m} \<Longrightarrow> runs sem blk env m env m"
  unfolding runs_def using emits_refl by (metis exec_ops.simps(1) map_le_refl)

lemma runs_trans:
  assumes "runs sem blk env m env1 m1" "runs sem blk env1 m1 env2 m2"
  shows "runs sem blk env m env2 m2"
proof -
  obtain ops1 ops2 where "emits blk m ops1 m1" "exec_ops sem ops1 env = Some env1"
    "emits blk m1 ops2 m2" "exec_ops sem ops2 env1 = Some env2"
    using assms by (auto simp: runs_def)
  then have "emits blk m (ops1 @ ops2) m2" "exec_ops sem (ops1 @ ops2) env = Some env2"
    by (auto intro: emits_trans simp: exec_ops_append)
  then show ?thesis using assms by (auto simp: runs_def intro: map_le_trans)
qed

lemma runs_dom: "runs sem blk env m env' m' \<Longrightarrow> dom env' \<subseteq> {..<mm_next m'}"
  by (simp add: runs_def)

lemma runs_env: "runs sem blk env m env' m' \<Longrightarrow> env i = Some x \<Longrightarrow> env' i = Some x"
  by (auto simp: runs_def map_le_def dom_def)

lemma emit1_runs:
  assumes "emit1 blk nm operands attrs t m = (v, m')" "dom env \<subseteq> {..<mm_next m}"
    "those (map (env \<circ> v_id) operands) = Some xs" "sem nm attrs (map v_ty operands) t xs = Some y"
  shows "runs sem blk env m (env(v_id v \<mapsto> y)) m' \<and> v_ty v = t"
proof -
  let ?op = "\<lparr>op_name = nm, op_operands = operands, op_attrs = attrs, op_results = [v], op_successors = [], op_regions = []\<rparr>"
  have v: "v = \<lparr>v_id = mm_next m, v_ty = t\<rparr>" and m': "emits blk m [?op] m'" "mm_next m' = mm_next m + 1"
    using assms(1) by (auto simp: emit1_def Let_def append_operation_def emits_def)
  have "exec_ops sem [?op] env = Some (env(v_id v \<mapsto> y))" using assms(3,4) v by (simp add: exec_op_def)
  moreover have "mm_next m \<notin> dom env" using assms(2) by auto
  then have "env \<subseteq>\<^sub>m env(v_id v \<mapsto> y)" using v by (auto simp: map_le_def)
  ultimately show ?thesis using assms(2) v m' by (auto simp: runs_def less_Suc_eq)
qed

section \<open>Constants\<close>

lemma documented_sem: "documented sem \<Longrightarrow> arith_sem nm attrs ts t xs = Some y \<Longrightarrow> sem nm attrs ts t xs = Some y"
  by (simp add: documented_def)

lemma constant_runs:
  assumes "documented sem" "dom env \<subseteq> {..<mm_next m}" "n < 2 ^ w"
    "create_constant blk (Attr_Int (int n) (MT_Integer w)) (MT_Integer w) m = (v, m')"
  shows "runs sem blk env m (env(v_id v \<mapsto> n)) m' \<and> v_ty v = MT_Integer w"
proof -
  have "arith_sem ''arith.constant'' [Attr_Int (int n) (MT_Integer w)] [] (MT_Integer w) [] = Some n"
    using assms(3) by (simp add: arith_sem_def const_sem_def rep_int)
  then show ?thesis
    using emit1_runs [OF _ assms(2), of blk "''arith.constant''" "[]" _ _ v m' "[]"] documented_sem [OF assms(1)] assms(4)
    by (simp add: create_constant_def)
qed

lemma create_int_constant_runs:
  assumes "lib_documented lib" "documented sem" "dom env \<subseteq> {..<mm_next m}" "int_value c < 2 ^ int_bits c"
  obtains v m' where "create_int_constant lib blk c m = Ok (v, m')"
    "runs sem blk env m (env(v_id v \<mapsto> int_value c)) m'" "v_ty v = MT_Integer (int_bits c)"
proof -
  obtain v m' where e: "create_constant blk (Attr_Int (int (int_value c)) (MT_Integer (int_bits c))) (MT_Integer (int_bits c)) m = (v, m')"
    by fastforce
  have "int_attr lib c = Ok (Attr_Int (int (int_value c)) (MT_Integer (int_bits c)))"
    using assms(1,4) by (simp add: int_attr_def lib_documented_def)
  then have "create_int_constant lib blk c m = Ok (v, m')" using e by (simp add: create_int_constant_def int_ty_of_def)
  then show ?thesis using constant_runs [OF assms(2-4) e] that by blast
qed

lemma unat_ucast_less:
  fixes x :: "'b::len word"
  assumes "unat x < 2 ^ LENGTH('a)"
  shows "unat (ucast x :: 'a::len word) = unat x"
proof -
  have "unat (ucast x :: 'a word) = take_bit LENGTH('a) (unat x)" by (simp add: unsigned_ucast_eq)
  then show ?thesis using assms by (simp add: take_bit_nat_eq_self)
qed

lemma to_uint_value:
  assumes "si_size s = n" "unat (si_data s) < 2 ^ LENGTH('a)"
  shows "\<exists>w :: 'a::len word. to_uint n s = Ok w \<and> unat w = unat (si_data s)"
  using assms unat_ucast_less [of "si_data s"] by (simp add: to_uint_def to_bits_def)

lemma from_scalar_value:
  assumes "int_shape t = Some (sg, w)" "t \<noteq> Ty_Bool" "si_size s = (w + 7) div 8" "unat (si_data s) < 2 ^ w"
  shows "\<exists>c. from_scalar t s = Ok c \<and> int_bits c = w \<and> int_value c = unat (si_data s)"
proof (cases t)
  case (Ty_Int i)
  then show ?thesis using assms
    by (cases i) (fastforce dest: to_uint_value [where 'a = 8] to_uint_value [where 'a = 16] to_uint_value [where 'a = 32]
        to_uint_value [where 'a = 64] to_uint_value [where 'a = 128])+
next
  case (Ty_Uint i)
  then show ?thesis using assms
    by (cases i) (fastforce dest: to_uint_value [where 'a = 8] to_uint_value [where 'a = 16] to_uint_value [where 'a = 32]
        to_uint_value [where 'a = 64] to_uint_value [where 'a = 128])+
qed (use assms in simp_all)

end
