(* ===== verification/Emit_Correct.thy ===== *)
theory Emit_Correct
  imports Emit_Runs
begin

text \<open>
  Straight-line integer code is compiled correctly: a forward simulation between the statements of MIR on a store of
  integers and the operations that the code generator appends for them.
\<close>

section \<open>Integer types\<close>

lemma int_shape_pos: "int_shape t = Some (s, w) \<Longrightarrow> 0 < w"
  by (cases t rule: int_shape.cases) auto

lemma int_shape_sign: "int_shape t = Some (s, w) \<Longrightarrow> (case t of Ty_Int _ \<Rightarrow> True | _ \<Rightarrow> False) = s"
  by (cases t rule: int_shape.cases) auto

lemma int_shape_cases:
  assumes "int_shape t = Some (s, w)"
  obtains "t = Ty_Bool" | i where "t = Ty_Int i" | i where "t = Ty_Uint i"
  using assms by (cases t rule: int_shape.cases) auto

lemma int_shape_not_option: "int_shape t = Some (s, w) \<Longrightarrow> \<not> is_option_ty path t"
  by (cases t rule: int_shape_cases) auto

lemma int_shape_no_array: "int_shape t = Some (s, w) \<Longrightarrow> try_read_array_ref_const cc t c = Ok None"
  by (cases t rule: int_shape_cases) (auto simp: try_read_array_ref_const_def)

lemma int_shape_cast: "int_shape t = Some (s, w) \<Longrightarrow> cast_constant cc blk t vm = Ok vm"
  by (cases t rule: int_shape_cases) (auto simp: cast_constant_def)

lemma bit_op_less:
  assumes "a < 2 ^ w" "b < 2 ^ w"
  shows "and a b < (2 :: nat) ^ w" "or a b < (2 :: nat) ^ w" "xor a b < (2 :: nat) ^ w"
proof -
  have "take_bit w a = a" "take_bit w b = b" using assms by (simp_all add: take_bit_nat_eq_self)
  then have "take_bit w (and a b) = and a b" "take_bit w (or a b) = or a b" "take_bit w (xor a b) = xor a b"
    by (simp_all add: take_bit_and take_bit_or take_bit_xor)
  then show "and a b < 2 ^ w" "or a b < 2 ^ w" "xor a b < 2 ^ w" by (metis take_bit_nat_less_exp)+
qed

lemma mir_binop_less:
  assumes "a < 2 ^ w" "b < 2 ^ w" "mir_binop s w bop a b = Some y"
  shows "y < 2 ^ result_bits bop w"
  using assms(3) bit_op_less [OF assms(1,2)]
  by (cases bop) (auto simp: mir_binop_def Let_def result_bits_def if_in_range_def rep_less split: if_splits)

section \<open>Values of locals\<close>

text \<open>A local of an integer type is kept in \<open>ssa_values\<close> only.\<close>

definition plain_local :: "codegen_state \<Rightarrow> local \<Rightarrow> bool" where
  "plain_local st l \<longleftrightarrow>
     option_table st l = None \<and> tuple_fields st l = None \<and> ptr_to_const_array st l = None \<and> slice_shape st l = None \<and>
     dyn_arrays st l = None \<and> ptr_to_dyn_array st l = None \<and> slice_dyn_values st l = None"

definition holds_value :: "codegen_ctx \<Rightarrow> body \<Rightarrow> codegen_state \<Rightarrow> rt_env \<Rightarrow> local \<Rightarrow> nat \<Rightarrow> bool" where
  "holds_value cc mir st env l x \<longleftrightarrow>
     (\<exists>s w v. local_shape cc mir l = Some (s, w) \<and> ssa_values st l = Some v \<and> v_ty v = MT_Integer w \<and>
        env (v_id v) = Some x \<and> x < 2 ^ w)"

definition matches :: "codegen_ctx \<Rightarrow> body \<Rightarrow> codegen_state \<Rightarrow> rt_env \<Rightarrow> store \<Rightarrow> bool" where
  "matches cc mir st env store \<longleftrightarrow>
     (\<forall>l x. store l = Some x \<longrightarrow> holds_value cc mir st env l x) \<and>
     (\<forall>l. local_shape cc mir l \<noteq> None \<longrightarrow> plain_local st l)"

lemma matches_value: "matches cc mir st env store \<Longrightarrow> store l = Some x \<Longrightarrow> holds_value cc mir st env l x"
  by (simp add: matches_def)

lemma matches_plain: "matches cc mir st env store \<Longrightarrow> local_shape cc mir l = Some sh \<Longrightarrow> plain_local st l"
  by (simp add: matches_def)

lemma matches_runs:
  assumes "matches cc mir st env store" "runs sem blk env m env' m'"
  shows "matches cc mir st env' store"
  using assms(1) runs_env [OF assms(2)] unfolding matches_def holds_value_def by blast

lemma plain_local_set_ssa [simp]: "plain_local (set_ssa l v st) k = plain_local st k"
  by (simp add: plain_local_def set_ssa_def)

lemma matches_set_ssa:
  assumes "matches cc mir st env store" "local_shape cc mir l = Some (s, w)"
    "v_ty v = MT_Integer w" "env (v_id v) = Some y" "y < 2 ^ w"
  shows "matches cc mir (set_ssa l v st) env (store(l \<mapsto> y))"
  using assms by (auto simp: matches_def holds_value_def set_ssa_def plain_local_def)

section \<open>Operands\<close>

text \<open>The value and the type of the value that a function of the code generator returns.\<close>

definition delivers :: "op_sem \<Rightarrow> block_ref \<Rightarrow> rt_env \<Rightarrow> mlir_module \<Rightarrow> mlir_value \<Rightarrow> mlir_module \<Rightarrow> nat \<Rightarrow> nat \<Rightarrow> rt_env \<Rightarrow> bool" where
  "delivers sem blk env m v m' w x env' \<longleftrightarrow>
     runs sem blk env m env' m' \<and> v_ty v = MT_Integer w \<and> env' (v_id v) = Some x \<and> x < 2 ^ w"

lemma bare_local_place: "bare_local op1 = Some l \<Longrightarrow> op1 = Op_Copy (local_place l) \<or> op1 = Op_Move (local_place l)"
  by (cases op1) (auto split: if_splits)

lemma operand_norm_ty_shape:
  assumes "mir_operand cc mir store op1 = Some ((s, w), x)"
  obtains t where "operand_norm_ty cc mir op1 = Ok t" "int_shape t = Some (s, w)"
proof (cases "bare_local op1")
  case (Some l)
  have "local_shape cc mir l = Some (s, w)" using assms Some by (auto simp: mir_operand_def split: bind_splits)
  then obtain t where t: "l < length (local_decls mir)" "t = cc_normalize cc (local_decls mir ! l)" "int_shape t = Some (s, w)"
    by (auto simp: local_shape_def vec_index_def split: bind_splits if_splits)
  then show ?thesis using that bare_local_place [OF Some] ty_of_bare_place [OF t(1), of cc] by (auto simp: operand_norm_ty_def)
next
  case None
  then obtain s' t where "op1 = Op_Constant (MC_Val (CV_Scalar (Scalar_Int s')) t)" "const_operand cc s' t = Some ((s, w), x)"
    using assms by (auto simp: mir_operand_def split: operand.splits mir_const.splits const_value.splits scalar.splits)
  then show ?thesis using that by (auto simp: const_operand_def operand_norm_ty_def split: option.splits if_splits)
qed

lemma local_delivers:
  assumes "matches cc mir st env store" "dom env \<subseteq> {..<mm_next m}"
    "bare_local op1 = Some l" "local_shape cc mir l = Some (s, w)" "store l = Some x"
  obtains v where "codegen_operand cc st blk op1 t m = Ok (v, m)" "delivers sem blk env m v m w x env"
proof -
  obtain v where v: "ssa_values st l = Some v" "v_ty v = MT_Integer w" "env (v_id v) = Some x" "x < 2 ^ w"
    using matches_value [OF assms(1,5)] assms(4) by (auto simp: holds_value_def)
  have "codegen_copy st (local_place l) = Ok v"
    using matches_plain [OF assms(1,4)] v(1) by (simp add: codegen_copy_def plain_local_def)
  then have "codegen_operand cc st blk op1 t m = Ok (v, m)"
    using bare_local_place [OF assms(3)] by (auto simp: codegen_operand_def)
  then show ?thesis using that v runs_refl [OF assms(2)] by (simp add: delivers_def)
qed

lemma bool_constant_delivers:
  assumes "documented sem" "dom env \<subseteq> {..<mm_next m}" "si_size s = 1" "unat (si_data s) < 2"
  obtains v m' env' where "codegen_scalar_const_value cc blk Ty_Bool (Scalar_Int s) m = Ok (v, m')"
    "delivers sem blk env m v m' 1 (unat (si_data s)) env'"
proof -
  obtain b :: u8 where b: "to_uint 1 s = Ok b" "unat b = unat (si_data s)"
    using to_uint_value [where 'a = 8, OF assms(3)] assms(4) by auto
  obtain v m' where c: "create_constant blk (Attr_Int (int (unat (si_data s))) (MT_Integer 1)) (MT_Integer 1) m = (v, m')"
    by fastforce
  moreover have "uint b = int (unat (si_data s))" unfolding b(2) [symmetric] by simp
  ultimately have "codegen_scalar_const_value cc blk Ty_Bool (Scalar_Int s) m = Ok (v, m')"
    using b(1) by (simp add: codegen_scalar_const_value_def arith_constant_def)
  then show ?thesis using that constant_runs [OF assms(1,2) _ c] assms(4) by (fastforce simp: delivers_def)
qed

lemma scalar_constant_delivers:
  assumes "lib_documented (cc_lib cc)" "documented sem" "dom env \<subseteq> {..<mm_next m}"
    "int_shape t = Some (sg, w)" "si_size s = (w + 7) div 8" "unat (si_data s) < 2 ^ w"
  obtains v m' env' where "codegen_scalar_const_value cc blk t (Scalar_Int s) m = Ok (v, m')"
    "delivers sem blk env m v m' w (unat (si_data s)) env'"
proof (cases "t = Ty_Bool")
  case True
  then have "w = 1" "si_size s = 1" "unat (si_data s) < 2" using assms(4-6) by auto
  then show ?thesis using that bool_constant_delivers [OF assms(2,3), of s cc blk] True by metis
next
  case False
  obtain c where c: "from_scalar t s = Ok c" "int_bits c = w" "int_value c = unat (si_data s)"
    using from_scalar_value [OF assms(4) False assms(5,6)] by blast
  then obtain v m' where v: "create_int_constant (cc_lib cc) blk c m = Ok (v, m')"
    "runs sem blk env m (env(v_id v \<mapsto> int_value c)) m'" "v_ty v = MT_Integer (int_bits c)"
    using create_int_constant_runs [OF assms(1-3), of c blk] assms(6) by auto
  have "codegen_scalar_const_value cc blk t (Scalar_Int s) m = Ok (v, m')"
    using assms(4) False c(1) v(1) by (cases t rule: int_shape_cases) (auto simp: codegen_scalar_const_value_def map_err_def)
  then show ?thesis using that v c assms(6) by (fastforce simp: delivers_def)
qed

lemma operand_delivers:
  assumes "lib_documented (cc_lib cc)" "documented sem" "matches cc mir st env store" "dom env \<subseteq> {..<mm_next m}"
    "mir_operand cc mir store op1 = Some ((s, w), x)" "int_shape t = Some sh"
  obtains v m' env' where "codegen_operand cc st blk op1 t m = Ok (v, m')" "delivers sem blk env m v m' w x env'"
proof (cases "bare_local op1")
  case (Some l)
  then have "local_shape cc mir l = Some (s, w)" "store l = Some x"
    using assms(5) by (auto simp: mir_operand_def split: bind_splits)
  from local_delivers [OF assms(3,4) Some this] that show ?thesis by blast
next
  case None
  then obtain c ct where c: "op1 = Op_Constant (MC_Val (CV_Scalar (Scalar_Int c)) ct)" "const_operand cc c ct = Some ((s, w), x)"
    using assms(5) by (auto simp: mir_operand_def split: operand.splits mir_const.splits const_value.splits scalar.splits)
  then have sc: "int_shape ct = Some (s, w)" "si_size c = (w + 7) div 8" "unat (si_data c) < 2 ^ w" "x = unat (si_data c)"
    by (auto simp: const_operand_def split: option.splits if_splits)
  obtain v m' env' where v: "codegen_scalar_const_value cc blk ct (Scalar_Int c) m = Ok (v, m')"
    "delivers sem blk env m v m' w x env'"
    using scalar_constant_delivers [OF assms(1,2,4) sc(1-3)] sc(4) by metis
  then have "codegen_operand cc st blk op1 t m = Ok (v, m')"
    using c(1) int_shape_cast [of t "fst sh" "snd sh"] assms(6)
    by (simp add: codegen_operand_def codegen_constant_cast_def codegen_const_value_def)
  then show ?thesis using that v(2) by blast
qed

section \<open>Right-hand sides\<close>

text \<open>What an assignment of a right-hand side does to the tables and to the block.\<close>

definition assigns ::
    "op_sem \<Rightarrow> block_ref \<Rightarrow> local \<Rightarrow> codegen_state \<Rightarrow> rt_env \<Rightarrow> mlir_module \<Rightarrow> stmt_result \<Rightarrow> nat \<Rightarrow> nat \<Rightarrow> bool" where
  "assigns sem blk l st env m r w y \<longleftrightarrow>
     (\<exists>v m' env'. r = Ok (set_ssa l v st, m') \<and> delivers sem blk env m v m' w y env')"

lemma delivers_runs: "delivers sem blk env m v m' w x env' \<Longrightarrow> runs sem blk env m env' m'"
  by (simp add: delivers_def)

lemma delivers_trans:
  "runs sem blk env m env1 m1 \<Longrightarrow> delivers sem blk env1 m1 v m2 w x env2 \<Longrightarrow> delivers sem blk env m v m2 w x env2"
  unfolding delivers_def using runs_trans by blast

lemma assign_use_int:
  assumes "lib_documented (cc_lib cc)" "documented sem" "matches cc mir st env store" "dom env \<subseteq> {..<mm_next m}"
    and x: "mir_operand cc mir store op1 = Some ((s, w), x)"
  shows "assigns sem blk l st env m (assign_use cc mir st blk l op1 m) w x"
proof -
  obtain t where t: "operand_norm_ty cc mir op1 = Ok t" "int_shape t = Some (s, w)"
    using operand_norm_ty_shape [OF x] .
  obtain v m' env' where v: "codegen_operand cc st blk op1 t m = Ok (v, m')" "delivers sem blk env m v m' w x env'"
    using operand_delivers [OF assms t(2)] .
  have no_table: "Option.bind (bare_local op1) (\<lambda>src. copy_side_table l src st) = None"
  proof (cases "bare_local op1")
    case (Some k)
    then have "local_shape cc mir k = Some (s, w)" using x by (auto simp: mir_operand_def split: bind_splits)
    then show ?thesis using Some matches_plain [OF assms(3)] by (simp add: copy_side_table_def plain_local_def)
  qed simp
  have no_array: "try_read_array_ref_const cc (cc_normalize cc (mir_const_ty c)) c = Ok None" if "op1 = Op_Constant c" for c
    using that t int_shape_no_array by (simp add: operand_norm_ty_def)
  have "assign_use cc mir st blk l op1 m = assign_plain_use cc st blk l op1 t m"
    using t(2,1) int_shape_not_option [OF t(2)] no_table no_array
    by (cases t rule: int_shape_cases; cases op1) (auto simp: assign_use_def split: operand.splits)
  then show ?thesis using v by (auto simp: assigns_def assign_plain_use_def)
qed

lemma binary_runs:
  assumes "lib_documented lib" "documented sem" "dom env \<subseteq> {..<mm_next m}" "0 < w"
    "v_ty lhs = MT_Integer w" "env (v_id lhs) = Some a" "a < 2 ^ w"
    "v_ty rhs = MT_Integer w" "env (v_id rhs) = Some b" "b < 2 ^ w"
    and y: "mir_binop s w bop a b = Some y" and faithful: "faithful s w bop a b"
  obtains v m' env' where "codegen_bin_op lib bop s blk lhs rhs m = Ok (v, m')"
    "delivers sem blk env m v m' (result_bits bop w) y env'"
proof -
  have "int_op_name s bop \<noteq> None \<or> cmp_predicate bop \<noteq> None" using y by (cases bop) (auto simp: mir_binop_def)
  moreover have "is_comparison bop = (int_op_name s bop = None)" if "mir_binop s w bop a b \<noteq> None"
    using that by (cases bop) (auto simp: mir_binop_def)
  ultimately consider nm where "int_op_name s bop = Some nm" "\<not> is_comparison bop"
    | p where "cmp_predicate bop = Some p" "is_comparison bop" using y by auto
  then obtain nm attrs where op: "codegen_bin_op lib bop s blk lhs rhs m = Ok (emit1 blk nm [lhs, rhs] attrs (MT_Integer (result_bits bop w)) m)"
    "arith_sem nm attrs [MT_Integer w, MT_Integer w] (MT_Integer (result_bits bop w)) [a, b] = Some y"
  proof cases
    case 1
    then have "codegen_bin_op lib bop s blk lhs rhs m = Ok (emit1 blk nm [lhs, rhs] [] (MT_Integer (result_bits bop w)) m)"
      using codegen_bin_op_int [OF assms(1) 1(1) assms(5,8)] by (simp add: result_bits_def)
    moreover have "nm \<noteq> ''arith.constant''" "nm \<noteq> ''arith.cmpi''"
      using int_op_name_same_type [OF 1(1)] by (auto simp: same_type_ops_def)
    ultimately show ?thesis
      using that [of nm "[]"] 1 arith2_mir_binop [OF assms(4,7,10) 1(1) faithful y]
      by (simp add: arith_sem_def binary_sem_def result_bits_def)
  next
    case 2
    then show ?thesis
      using that [of "''arith.cmpi''" "[Attr_Int (predicate_code p) (MT_Integer 64)]"]
        codegen_bin_op_cmp [OF assms(1) 2(1) assms(5,8)] cmpi_sem_mir_binop [OF assms(4,7,10) 2(1) faithful y]
      by (simp add: arith_sem_def compare_sem_def result_bits_def)
  qed
  obtain v m' where e: "emit1 blk nm [lhs, rhs] attrs (MT_Integer (result_bits bop w)) m = (v, m')" by fastforce
  have "runs sem blk env m (env(v_id v \<mapsto> y)) m' \<and> v_ty v = MT_Integer (result_bits bop w)"
    using emit1_runs [OF e assms(3), of "[a, b]"] documented_sem [OF assms(2) op(2)] assms(5-9) by simp
  then show ?thesis using that op(1) e mir_binop_less [OF assms(7,10) y] by (fastforce simp: delivers_def)
qed

lemma assign_binary_int:
  assumes "lib_documented (cc_lib cc)" "documented sem" "matches cc mir st env store" "dom env \<subseteq> {..<mm_next m}"
    and a: "mir_operand cc mir store lhs = Some ((s, w), a)" and b: "mir_operand cc mir store rhs = Some ((s, w), b)"
    and y: "mir_binop s w bop a b = Some y" and faithful: "faithful s w bop a b"
  shows "assigns sem blk l st env m (assign_binary cc mir st blk l bop lhs rhs m) (result_bits bop w) y"
proof -
  obtain lt where lt: "operand_norm_ty cc mir lhs = Ok lt" "int_shape lt = Some (s, w)" using operand_norm_ty_shape [OF a] .
  obtain rt where rt: "operand_norm_ty cc mir rhs = Ok rt" "int_shape rt = Some (s, w)" using operand_norm_ty_shape [OF b] .
  obtain lv m1 env1 where lv: "codegen_operand cc st blk lhs lt m = Ok (lv, m1)" "delivers sem blk env m lv m1 w a env1"
    using operand_delivers [OF assms(1-4) a lt(2)] .
  note r1 = delivers_runs [OF lv(2)]
  obtain rv m2 env2 where rv: "codegen_operand cc st blk rhs rt m1 = Ok (rv, m2)" "delivers sem blk env1 m1 rv m2 w b env2"
    using operand_delivers [OF assms(1,2) matches_runs [OF assms(3) r1] runs_dom [OF r1] b rt(2)] .
  note r2 = delivers_runs [OF rv(2)]
  obtain v m3 env3 where v: "codegen_bin_op (cc_lib cc) bop s blk lv rv m2 = Ok (v, m3)"
    "delivers sem blk env2 m2 v m3 (result_bits bop w) y env3"
    using binary_runs [OF assms(1,2) runs_dom [OF r2] int_shape_pos [OF lt(2)] _ _ _ _ _ _ y faithful, of lv rv blk]
      runs_env [OF r2] lv(2) rv(2) by (auto simp: delivers_def)
  have "plain_op bop = None" using y by (cases bop) (auto simp: mir_binop_def)
  then have "assign_binary cc mir st blk l bop lhs rhs m = Ok (set_ssa l v st, m3)"
    using lt rt lv(1) rv(1) v(1) int_shape_sign [OF lt(2)] by (simp add: assign_binary_def codegen_binary_op_def)
  then show ?thesis
    using delivers_trans [OF runs_trans [OF r1 r2] v(2)] by (auto simp: assigns_def)
qed

lemma neg_runs:
  assumes "lib_documented lib" "documented sem" "dom env \<subseteq> {..<mm_next m}"
    "v_ty v = MT_Integer 32" "env (v_id v) = Some a"
  obtains r m' env' where "codegen_un_neg lib blk v m = Ok (r, m')" "delivers sem blk env m r m' 32 (rep 32 (- int a)) env'"
proof -
  obtain z m1 where z: "create_int_constant lib blk (Int_I32 0) m = Ok (z, m1)"
    "runs sem blk env m (env(v_id z \<mapsto> 0)) m1" "v_ty z = MT_Integer 32"
    using create_int_constant_runs [OF assms(1-3), of "Int_I32 0" blk] by auto
  have sub: "create_subi lib blk z v m1 = Ok (emit1 blk ''arith.subi'' [z, v] [] (MT_Integer 32) m1)"
    using create_binary_int [OF assms(1), of "''arith.subi''" z "MT_Integer 32" v blk m1] z(3) assms(4)
    by (simp add: create_subi_def same_type_ops_def)
  obtain r m2 where e: "emit1 blk ''arith.subi'' [z, v] [] (MT_Integer 32) m1 = (r, m2)" by fastforce
  have "arith_sem ''arith.subi'' [] [MT_Integer 32, MT_Integer 32] (MT_Integer 32) [0, a] = Some (rep 32 (- int a))"
    by (simp add: arith_sem_def binary_sem_def)
  then have "delivers sem blk (env(v_id z \<mapsto> 0)) m1 r m2 32 (rep 32 (- int a)) (env(v_id z \<mapsto> 0, v_id r \<mapsto> rep 32 (- int a)))"
    using emit1_runs [OF e runs_dom [OF z(2)], of "[0, a]"] documented_sem [OF assms(2)] z(3) assms(4)
      runs_env [OF z(2) assms(5)] rep_less [of 32 "- int a"] by (simp add: delivers_def)
  then show ?thesis using that delivers_trans [OF z(2)] z(1) sub e assms(4) by (fastforce simp: codegen_un_neg_def)
qed

lemma assign_neg_int:
  assumes "lib_documented (cc_lib cc)" "documented sem" "matches cc mir st env store" "dom env \<subseteq> {..<mm_next m}"
    and a: "mir_operand cc mir store op1 = Some ((s, 32), a)"
  shows "assigns sem blk l st env m (assign_unary cc mir st blk l UnOp_Neg op1 m) 32 (rep 32 (- int a))"
proof -
  obtain t where t: "operand_norm_ty cc mir op1 = Ok t" "int_shape t = Some (s, 32)" using operand_norm_ty_shape [OF a] .
  obtain v m1 env1 where v: "codegen_operand cc st blk op1 t m = Ok (v, m1)" "delivers sem blk env m v m1 32 a env1"
    using operand_delivers [OF assms(1-4) a t(2)] .
  note r1 = delivers_runs [OF v(2)]
  obtain r m2 env2 where r: "codegen_un_neg (cc_lib cc) blk v m1 = Ok (r, m2)"
    "delivers sem blk env1 m1 r m2 32 (rep 32 (- int a)) env2"
    using neg_runs [OF assms(1,2) runs_dom [OF r1], of v a blk] v(2) by (auto simp: delivers_def)
  then have "assign_unary cc mir st blk l UnOp_Neg op1 m = Ok (set_ssa l r st, m2)"
    using t(1) v(1) by (simp add: assign_unary_def)
  then show ?thesis using delivers_trans [OF r1 r(2)] by (auto simp: assigns_def)
qed

lemma rep_value: "a < 2 ^ w \<Longrightarrow> rep w (value_of s w a) = a"
  using rep_cong [OF value_of_mod] rep_int by metis

lemma assign_int_cast:
  assumes "lib_documented (cc_lib cc)" "documented sem" "matches cc mir st env store" "dom env \<subseteq> {..<mm_next m}"
    and a: "mir_operand cc mir store op1 = Some ((s, w), a)" and t: "int_shape (cc_normalize cc t) = Some (s', w)"
  shows "assigns sem blk l st env m (assign_cast cc st blk l Cast_IntToInt op1 t m) w (rep w (value_of s w a))"
proof -
  obtain v m1 env1 where v: "codegen_operand cc st blk op1 (cc_normalize cc t) m = Ok (v, m1)" "delivers sem blk env m v m1 w a env1"
    using operand_delivers [OF assms(1-4) a t] .
  moreover have "rep w (value_of s w a) = a" using v(2) rep_value by (simp add: delivers_def)
  ultimately show ?thesis by (auto simp: assigns_def assign_cast_def assign_plain_cast_def codegen_cast_def)
qed

section \<open>Statements\<close>

lemma mir_rvalue_binary:
  assumes "mir_rvalue cc mir store (Rv_BinaryOp bop lhs rhs) = Some ((s, w), y)"
  obtains s' w' a b where "mir_operand cc mir store lhs = Some ((s', w'), a)" "mir_operand cc mir store rhs = Some ((s', w'), b)"
    "mir_binop s' w' bop a b = Some y" "w = result_bits bop w'"
proof -
  obtain s' w' a sh b where ab: "mir_operand cc mir store lhs = Some ((s', w'), a)" "mir_operand cc mir store rhs = Some (sh, b)"
    using assms by (cases "mir_operand cc mir store lhs"; cases "mir_operand cc mir store rhs") (auto simp: mir_rvalue_def)
  have "sh = (s', w') \<and> mir_binop s' w' bop a b = Some y \<and> w = result_bits bop w'"
    using assms by (cases "mir_binop s' w' bop a b") (auto simp: mir_rvalue_def ab result_bits_def split: if_splits)
  then show ?thesis using that ab by blast
qed

lemma rvalue_assigned:
  assumes "lib_documented (cc_lib cc)" "documented sem" "matches cc mir st env store" "dom env \<subseteq> {..<mm_next m}"
    "mir_rvalue cc mir store rv = Some ((s, w), y)" "rv_faithful cc mir store rv"
  shows "assigns sem blk (p_local p) st env m (codegen_assign cc mir blk p rv st m) w y"
proof (cases rv)
  case (Rv_Use op1)
  then show ?thesis using assign_use_int [OF assms(1-4)] assms(5) by (simp add: mir_rvalue_def codegen_assign_def)
next
  case (Rv_BinaryOp bop lhs rhs)
  obtain s' w' a b where ab: "mir_operand cc mir store lhs = Some ((s', w'), a)"
    "mir_operand cc mir store rhs = Some ((s', w'), b)" "mir_binop s' w' bop a b = Some y" "w = result_bits bop w'"
    using mir_rvalue_binary [OF assms(5) [unfolded Rv_BinaryOp]] .
  then show ?thesis using assign_binary_int [OF assms(1-4) ab(1-3)] assms(6) Rv_BinaryOp
    by (simp add: codegen_assign_def rv_faithful_def)
next
  case (Rv_UnaryOp uop op1)
  then obtain a where a: "mir_operand cc mir store op1 = Some ((s, w), a)" "y = rep w (- int a)" "uop = UnOp_Neg"
    using assms(5) by (cases uop) (auto simp: mir_rvalue_def split: bind_splits)
  moreover have "w = 32" using assms(6) a(1) Rv_UnaryOp by (simp add: rv_faithful_def)
  ultimately show ?thesis using assign_neg_int [OF assms(1-4)] Rv_UnaryOp by (simp add: codegen_assign_def)
next
  case (Rv_Cast kind op1 t)
  then obtain s' w' a where a: "mir_operand cc mir store op1 = Some ((s', w'), a)" "int_shape (cc_normalize cc t) = Some (s, w)"
    "y = rep w (value_of s' w' a)" "kind = Cast_IntToInt"
    using assms(5) by (cases kind) (auto simp: mir_rvalue_def split: bind_splits)
  moreover have "w' = w" using assms(6) a(1,2) Rv_Cast by (simp add: rv_faithful_def)
  ultimately show ?thesis using assign_int_cast [OF assms(1-4)] Rv_Cast by (simp add: codegen_assign_def)
qed (use assms(5) in \<open>simp_all add: mir_rvalue_def\<close>)

lemma statement_simulation:
  assumes "lib_documented (cc_lib cc)" "documented sem" "matches cc mir st env store" "dom env \<subseteq> {..<mm_next m}"
    "mir_stmt cc mir s store = Some store'" "case s of Stmt_Assign _ rv \<Rightarrow> rv_faithful cc mir store rv | _ \<Rightarrow> True"
  obtains st' m' env' where "codegen_statement cc mir blk s st m = Ok (st', m')" "runs sem blk env m env' m'"
    "matches cc mir st' env' store'"
proof (cases "\<exists>p rv. s = Stmt_Assign p rv")
  case True
  then obtain p rv sg w y where s: "s = Stmt_Assign p rv" "mir_rvalue cc mir store rv = Some ((sg, w), y)"
    "local_shape cc mir (p_local p) = Some (sg, w)" "store' = store(p_local p \<mapsto> y)"
    using assms(5) by (auto simp: mir_stmt_def split: bind_splits if_splits)
  then obtain v m' env' where v: "codegen_assign cc mir blk p rv st m = Ok (set_ssa (p_local p) v st, m')"
    "delivers sem blk env m v m' w y env'"
    using rvalue_assigned [OF assms(1-4) s(2), of blk p] assms(6) by (auto simp: assigns_def)
  have "matches cc mir (set_ssa (p_local p) v st) env' store'"
    using matches_set_ssa [OF matches_runs [OF assms(3) delivers_runs [OF v(2)]] s(3)] v(2) s(4) by (simp add: delivers_def)
  then show ?thesis using that v(1) delivers_runs [OF v(2)] s(1) by (simp add: codegen_statement_def)
next
  case False
  then have "codegen_statement cc mir blk s st m = Ok (st, m)" "store' = store"
    using assms(5) by (auto simp: mir_stmt_def codegen_statement_def split: statement.splits)
  then show ?thesis using that runs_refl [OF assms(4)] assms(3) by blast
qed

end
