(* ===== verification/Emit_Props.thy ===== *)
theory Emit_Props
  imports Emit_Correct
begin

text \<open>
  Properties of emission: straight-line integer code is compiled correctly where the code generator's choice of
  operations is right, and what it emits where that choice is wrong. The witnesses run the code generator with a
  library that infers types and parses attributes as documented.
\<close>

section \<open>A documented library\<close>

definition dec_value :: "rstr \<Rightarrow> nat" where
  "dec_value = foldl (\<lambda>n c. n * 10 + (c - 48)) 0"

definition is_dec_digit :: "nat \<Rightarrow> bool" where
  "is_dec_digit c \<longleftrightarrow> 48 \<le> c \<and> c \<le> 57"

definition parse_int_attr :: "rstr \<Rightarrow> mlir_attr option" where
  "parse_int_attr s =
     (let n = int (dec_value (takeWhile is_dec_digit s)); suffix = dropWhile is_dec_digit s in
      Some (Attr_Int n (MT_Integer (if suffix = [] then 64 else dec_value (drop 4 suffix)))))"

definition same_type_infer :: "string \<Rightarrow> mlir_ty list \<Rightarrow> mlir_ty option" where
  "same_type_infer nm ts = (case ts of [t, t'] \<Rightarrow> if t = t' then Some t else None | _ \<Rightarrow> None)"

definition print_int_type :: "mlir_ty \<Rightarrow> rstr" where
  "print_int_type t = (case t of MT_Integer n \<Rightarrow> lit ''i'' @ to_string (int n) | _ \<Rightarrow> [])"

definition example_lib :: mlir_lib where
  "example_lib = \<lparr>ml_infer = same_type_infer, ml_parse_attr = parse_int_attr, ml_parse_type = (\<lambda>_. None),
     ml_print_type = print_int_type\<rparr>"

lemma dec_value_dec_nat: "dec_value (dec_nat n) = n"
proof (induction n rule: dec_nat.induct)
  case (1 n)
  then show ?case by (cases "n < 10") (simp_all add: dec_nat.simps [of n] dec_value_def)
qed

lemma is_dec_digit_to_string: "c \<in> set (to_string (int n)) \<Longrightarrow> is_dec_digit c"
  using dec_nat_chars by (simp add: to_string_def is_dec_digit_def)

lemma dec_value_to_string: "dec_value (to_string (int n)) = n"
  by (simp add: to_string_def dec_value_dec_nat)

lemma example_lib_documented: "lib_documented example_lib"
proof -
  have all: "takeWhile is_dec_digit (to_string (int n)) = to_string (int n)" "dropWhile is_dec_digit (to_string (int n)) = []" for n
    using is_dec_digit_to_string by (simp_all add: takeWhile_eq_all_conv dropWhile_eq_Nil_conv)
  have "ml_parse_attr example_lib (attr_text n w) = Some (Attr_Int (int n) (MT_Integer w))" for n w
    by (simp add: example_lib_def parse_int_attr_def attr_text_def Let_def takeWhile_append dropWhile_append
        is_dec_digit_to_string dec_value_to_string is_dec_digit_def [of 32] all)
  moreover have "ml_parse_attr example_lib (to_string (int n)) = Some (Attr_Int (int n) (MT_Integer 64))" for n
    by (simp add: example_lib_def parse_int_attr_def dec_value_to_string all)
  ultimately show ?thesis by (simp add: lib_documented_def example_lib_def same_type_infer_def)
qed

lemma documented_arith_sem: "documented arith_sem"
  by (simp add: documented_def)

definition example_ctx :: codegen_ctx where
  "example_ctx =
     \<lparr>cc_inst = \<lparr>instantiate = id, inst_args = []\<rparr>, cc_lib = example_lib, cc_stack = 8, cc_def_path_str = (\<lambda>_. []),
      cc_adt_debug = (\<lambda>_. []), cc_adt_def = (\<lambda>d. AdtDef d False), cc_is_box = (\<lambda>_. False),
      cc_try_normalize = Some, cc_normalize = id, cc_field_ty = (\<lambda>_ _. None), cc_pointer_size = 8,
      cc_const_eval = (\<lambda>_ _ _. None), cc_is_memory = (\<lambda>_. False), cc_read_scalar = (\<lambda>_ _ _. None),
      cc_size_of = (\<lambda>_. None), cc_offsets = (\<lambda>_. None), cc_f32_to_f64 = ucast\<rparr>"

text \<open>\<open>_1 = 5_i32; _2 = Mul(_1, _1); _3 = Lt(_2, 7_i32)\<close>\<close>

definition i32_operand :: "u128 \<Rightarrow> operand" where
  "i32_operand n = Op_Constant (MC_Val (CV_Scalar (Scalar_Int \<lparr>si_data = n, si_size = 4\<rparr>)) (Ty_Int I32))"

definition example_body :: body where
  "example_body = \<lparr>basic_blocks = [], local_decls = [Ty_Tuple [], Ty_Int I32, Ty_Int I32, Ty_Bool], arg_count = 0\<rparr>"

definition example_stmts :: "statement list" where
  "example_stmts =
     [Stmt_Assign (local_place 1) (Rv_Use (i32_operand 5)),
      Stmt_Assign (local_place 2) (Rv_BinaryOp BinOp_Mul (Op_Copy (local_place 1)) (Op_Copy (local_place 1))),
      Stmt_Assign (local_place 3) (Rv_BinaryOp BinOp_Lt (Op_Copy (local_place 2)) (i32_operand 7))]"

definition empty_module :: mlir_module where
  "empty_module = \<lparr>mm_next = 0, mm_blocks = [\<lparr>blk_args = [], blk_ops = []\<rparr>]\<rparr>"

section \<open>Straight-line code\<close>

lemma statements_simulation:
  assumes "lib_documented (cc_lib cc)" "documented sem" "matches cc mir st env store" "dom env \<subseteq> {..<mm_next m}"
    "mir_run cc mir ss store = Some store'" "run_faithful cc mir ss store"
  shows "\<exists>st' m' env'. codegen_statements cc mir blk ss st m = Ok (st', m') \<and> runs sem blk env m env' m' \<and>
    matches cc mir st' env' store'"
  using assms(3-6)
proof (induction ss arbitrary: st env store m)
  case Nil
  then show ?case using runs_refl [OF Nil.prems(2), of sem blk] by auto
next
  case (Cons s ss)
  obtain store1 where s: "mir_stmt cc mir s store = Some store1" "mir_run cc mir ss store1 = Some store'"
    using Cons.prems(3) by (auto split: bind_splits)
  obtain st1 m1 env1 where 1: "codegen_statement cc mir blk s st m = Ok (st1, m1)" "runs sem blk env m env1 m1"
    "matches cc mir st1 env1 store1"
    using statement_simulation [OF assms(1,2) Cons.prems(1,2) s(1)] Cons.prems(4) by (metis run_faithful.simps(2))
  obtain st2 m2 env2 where "codegen_statements cc mir blk ss st1 m1 = Ok (st2, m2)" "runs sem blk env1 m1 env2 m2"
    "matches cc mir st2 env2 store'"
    using Cons.IH [OF 1(3) runs_dom [OF 1(2)] s(2)] Cons.prems(4) s(1) by auto
  then show ?case using 1 runs_trans [OF 1(2)] by auto
qed


lemma example_run: "mir_run example_ctx example_body example_stmts Map.empty = Some [1 \<mapsto> 5, 2 \<mapsto> 25, 3 \<mapsto> 0]"
  by (simp add: example_stmts_def mir_stmt_def mir_rvalue_def mir_operand_def i32_operand_def const_operand_def example_ctx_def
      example_body_def local_shape_def vec_index_def mir_binop_def value_of_def sv_def rep_def)

lemma example_faithful: "run_faithful example_ctx example_body example_stmts Map.empty"
  by (simp add: example_stmts_def mir_stmt_def mir_rvalue_def mir_operand_def i32_operand_def const_operand_def example_ctx_def
      example_body_def local_shape_def vec_index_def mir_binop_def value_of_def sv_def rep_def rv_faithful_def faithful_def)

lemma example_matches: "matches cc mir codegen_state_new Map.empty Map.empty"
  by (simp add: matches_def plain_local_def codegen_state_new_def)


section \<open>Where the emitted operations are wrong\<close>

lemma sv_order:
  assumes "0 < w" "a < 2 ^ w" "b < 2 ^ w"
  shows "(sv w a < sv w b \<longleftrightarrow> a < b) \<longleftrightarrow> (a < 2 ^ (w - 1) \<longleftrightarrow> b < 2 ^ (w - 1))"
proof -
  define A :: int where "A = 2 ^ w"
  have "int a < A" "int b < A" using assms(2,3) by (simp_all add: A_def)
  moreover have "sv w x = (if x < 2 ^ (w - 1) then int x else int x - A)" for x by (simp add: sv_def A_def)
  ultimately show ?thesis by auto
qed

lemma signed_order_wrong:
  assumes "0 < w" "a < 2 ^ w" "b < 2 ^ w" "bop \<in> {BinOp_Lt, BinOp_Le, BinOp_Gt, BinOp_Ge}" "cmp_predicate bop = Some p"
  shows "\<exists>r. cmpi_sem (predicate_code p) w a b = Some r \<and>
    (mir_binop False w bop a b = Some (of_bool r) \<longleftrightarrow> (a < 2 ^ (w - 1) \<longleftrightarrow> b < 2 ^ (w - 1)))"
proof -
  note order = sv_order [OF assms(1-3)] sv_order [OF assms(1,3,2)]
  consider "bop = BinOp_Lt" "p = P_SLT" | "bop = BinOp_Le" "p = P_SLE" | "bop = BinOp_Gt" "p = P_SGT" | "bop = BinOp_Ge" "p = P_SGE"
    using assms(4,5) by auto
  then show ?thesis
    by cases (use order in \<open>auto simp: cmpi_sem_def mir_binop_def value_of_def not_less\<close>)
qed

text \<open>C21. The four order comparisons are emitted as signed comparisons whatever the type of the operands: on unsigned
  integers of \<open>w\<close> bits the emitted code runs and its result is wrong exactly when one operand has its top bit set
  and the other does not.\<close>

theorem unsigned_comparison_wrong:
  assumes "lib_documented lib" "documented sem" "dom env \<subseteq> {..<mm_next m}" "0 < w"
    "v_ty lhs = MT_Integer w" "env (v_id lhs) = Some a" "a < 2 ^ w"
    "v_ty rhs = MT_Integer w" "env (v_id rhs) = Some b" "b < 2 ^ w"
    "bop \<in> {BinOp_Lt, BinOp_Le, BinOp_Gt, BinOp_Ge}"
  shows "\<exists>v m' ops env'. codegen_bin_op lib bop False blk lhs rhs m = Ok (v, m') \<and> emits blk m ops m' \<and>
    exec_ops sem ops env = Some env' \<and>
    (env' (v_id v) = mir_binop False w bop a b \<longleftrightarrow> (a < 2 ^ (w - 1) \<longleftrightarrow> b < 2 ^ (w - 1)))"
proof -
  obtain p where p: "cmp_predicate bop = Some p" using assms(11) by auto
  obtain v m' where e: "emit1 blk ''arith.cmpi'' [lhs, rhs] [Attr_Int (predicate_code p) (MT_Integer 64)] (MT_Integer 1) m = (v, m')"
    by fastforce
  obtain r where r: "cmpi_sem (predicate_code p) w a b = Some r"
    "mir_binop False w bop a b = Some (of_bool r) \<longleftrightarrow> (a < 2 ^ (w - 1) \<longleftrightarrow> b < 2 ^ (w - 1))"
    using signed_order_wrong [OF assms(4,7,10,11) p] by blast
  have "arith_sem ''arith.cmpi'' [Attr_Int (predicate_code p) (MT_Integer 64)] [MT_Integer w, MT_Integer w] (MT_Integer 1) [a, b] =
      Some (of_bool r)"
    using r(1) by (simp add: arith_sem_def compare_sem_def)
  then have "runs sem blk env m (env(v_id v \<mapsto> of_bool r)) m'"
    using emit1_runs [OF e assms(3), of "[a, b]"] documented_sem [OF assms(2)] assms(5-10) by simp
  moreover have "codegen_bin_op lib bop False blk lhs rhs m = Ok (v, m')"
    using codegen_bin_op_cmp [OF assms(1) p assms(5,8)] e by simp
  ultimately show ?thesis using r(2) by (fastforce simp: runs_def)
qed

theorem unsigned_comparison_wrong_witness:
  "\<exists>v m' ops env'. codegen_bin_op example_lib BinOp_Lt False 0 \<lparr>v_id = 0, v_ty = MT_Integer 32\<rparr> \<lparr>v_id = 1, v_ty = MT_Integer 32\<rparr>
      (empty_module\<lparr>mm_next := 2\<rparr>) = Ok (v, m') \<and>
    emits 0 (empty_module\<lparr>mm_next := 2\<rparr>) ops m' \<and> exec_ops arith_sem ops [0 \<mapsto> 4294967295, 1 \<mapsto> 0] = Some env' \<and>
    env' (v_id v) \<noteq> mir_binop False 32 BinOp_Lt 4294967295 0"
  using unsigned_comparison_wrong [OF example_lib_documented documented_arith_sem, of "[0 \<mapsto> 4294967295, 1 \<mapsto> 0]"
      "empty_module\<lparr>mm_next := 2\<rparr>" 32 "\<lparr>v_id = 0, v_ty = MT_Integer 32\<rparr>" 4294967295
      "\<lparr>v_id = 1, v_ty = MT_Integer 32\<rparr>" 0 BinOp_Lt 0]
  by (simp add: less_2_cases_iff subset_iff)

end
