(* ===== verification/Func_Props.thy ===== *)
theory Func_Props
  imports Func_Flow Emit_Props Triton_Phi_Props
begin

text \<open>
  Properties of the emission of whole functions: the control flow that is built is well formed, and which loops and
  conditionals are not translated.
\<close>

section \<open>An example function\<close>

text \<open>A context in which no function has a symbol.\<close>

definition example_fx :: func_ctx where
  "example_fx =
     \<lparr>fx_cc = example_ctx, fx_fn_output = (\<lambda>_ _. Ty_Tuple []), fx_fn_ptr_output = (\<lambda>_. Ty_Tuple []),
      fx_symbol = (\<lambda>_ _. None), fx_debug = (\<lambda>_. [])\<rparr>"

definition example_fe :: fn_env where
  "example_fe = \<lparr>fe_to_result = Some, fe_iter = (\<lambda>_. sorted_list_of_set), fe_fuel = 13\<rparr>"

definition example_fn :: fn_item where
  "example_fn =
     \<lparr>fi_ty = Ty_FnDef 0 [], fi_inputs = [Ty_Bool], fi_output = Ty_Tuple [], fi_symbol = lit ''entry_point'', fi_mir = ex_join\<rparr>"

lemma ex_join_entry: "entry_not_target ex_join"
  by (simp add: entry_not_target_def ex_join_def ex_block_def mk_successors_def static_if_def)

lemma phi_fixpoint_nonempty: "phi_fixpoint fuel px pm r known = Some res \<Longrightarrow> res j \<noteq> Some []"
  by (induction fuel arbitrary: r known)
    (auto simp: phi_round_def split: bind_splits if_splits option.splits list.splits)

lemma distinct_single: "distinct xs \<Longrightarrow> set xs = {x} \<Longrightarrow> xs = [x]"
proof (cases xs)
  case (Cons a ys)
  moreover assume "distinct xs" "set xs = {x}"
  ultimately show ?thesis by (cases ys) auto
qed simp

lemma ex_join_phis: "compute_phi_join_locals 13 ex_join_px = Some [3 \<mapsto> [2]]"
proof -
  obtain res where r: "compute_phi_join_locals 13 ex_join_px = Some res"
    "\<And>j. distinct (vec_of res j)" "\<And>j. set (vec_of res j) = phi_set ex_join_px res j"
    using compute_phi_result [OF ex_join_wf, of 13] by (auto simp: ex_px_def ex_join_def)
  have ne: "res j \<noteq> Some []" for j
    using r(1) phi_fixpoint_nonempty by (auto simp: compute_phi_join_locals_def split: bind_splits)
  have "set (vec_of res 3) = {2}" using r(3) ex_join_phi_set by simp
  then have "vec_of res 3 = [2]" by (rule distinct_single [OF r(2)])
  then have "res 3 = Some [2]" by (auto simp: vec_of_def split: option.splits)
  moreover have "res j = None" if "j \<noteq> 3" for j
  proof -
    have "j = 0 \<or> j = Suc 0 \<or> j = 2 \<or> j \<notin> {0, 1, 2, 3}" using that by auto
    then have "\<not> is_join ex_join_px (preds ex_join_px) j"
      using ex_join_preds by (elim disjE) (simp_all add: is_join_def ex_px_def)
    then have "phi_set ex_join_px res j = {}" by (simp add: phi_set_def)
    then have "vec_of res j = []" using r(3) [of j] by simp
    then show ?thesis using ne [of j] by (auto simp: vec_of_def split: option.splits)
  qed
  ultimately have "res = [3 \<mapsto> [2]]" by (intro ext) simp
  then show ?thesis using r(1) by simp
qed

definition example_an :: fn_analysis where
  "example_an =
     \<lparr>fa_const_disc = [2 \<mapsto> 8], fa_order = [0, 2, 3, 1], fa_region = {}, fa_for_inits = Map.empty,
      fa_while_inits = Map.empty, fa_phis = [3 \<mapsto> [2]]\<rparr>"

lemma ex_join_analysis: "analyse example_ctx example_fe ex_join = Some example_an"
proof -
  have c: "compute_const_disc_locals (cc_inst example_ctx) ex_join = [2 \<mapsto> 8]"
    by (simp add: compute_const_disc_locals_def all_statements_def disc_pass1_def disc_sweep_def extract_scalar_const_def
        to_bits_unchecked_def disc_fixpoint.simps ex_join_def ex_defs ex_i32_def example_ctx_def)
  have r: "compute_reachable_blocks (cc_inst example_ctx) ex_join [2 \<mapsto> 8] = Some ({0, 1, 2, 3}, [0, 2, 3, 1])"
    by (simp add: reach_defs ex_join_def ex_defs block_defs insert_commute)
  have f: "detect_range_loop (cc_inst example_ctx) ex_join = Some []" "detect_while_loop ex_join {} = Some []"
    by (simp_all add: loop_defs ex_join_def ex_defs block_defs)
  have p: "cc_def_path_str example_ctx = (\<lambda>_. [])" "fe_iter example_fe = (\<lambda>_. sorted_list_of_set)" "fe_fuel example_fe = 13"
    by (simp_all add: example_ctx_def example_fe_def)
  have "range_region [] = {}" "while_region [] = {}" by (simp_all add: range_region_def while_region_def)
  then show ?thesis
    unfolding analyse_def Let_def c
    by (simp add: r f p ex_join_phis [unfolded ex_px_def] example_an_def del: One_nat_def)
qed

lemma int_attr_example:
  "int_attr example_lib (Int_I32 7) = Ok (Attr_Int 7 (MT_Integer 32))" "int_attr example_lib (Int_I32 8) = Ok (Attr_Int 8 (MT_Integer 32))"
  "from_scalar (Ty_Int I32) \<lparr>si_data = 7, si_size = 4\<rparr> = Ok (Int_I32 7)"
  "from_scalar (Ty_Int I32) \<lparr>si_data = 8, si_size = 4\<rparr> = Ok (Int_I32 8)"
  by code_simp+

text \<open>The arms of the example.\<close>

lemma example_assign:
  assumes "n = 7 \<or> n = 8"
  obtains v m' where
    "codegen_statements example_ctx ex_join blk [Stmt_Assign (local_place 2) (Rv_Use (ex_i32 n))] st m = Ok (set_ssa 2 v st, m')"
proof -
  obtain c where "from_scalar (Ty_Int I32) \<lparr>si_data = n, si_size = 4\<rparr> = Ok c" "\<exists>x. int_attr example_lib c = Ok x"
    using assms int_attr_example by blast
  then obtain v m' where "create_int_constant example_lib blk c m = Ok (v, m')"
    "from_scalar (Ty_Int I32) \<lparr>si_data = n, si_size = 4\<rparr> = Ok c"
    by (auto simp: create_int_constant_def) (metis surj_pair)
  then show ?thesis
    by (intro that) (simp add: codegen_statement_def codegen_assign_def assign_use_def operand_norm_ty_def ex_i32_def
        example_ctx_def assign_plain_use_def codegen_operand_def codegen_constant_cast_def codegen_const_value_def
        codegen_scalar_const_value_def cast_constant_def try_read_array_ref_const_def Let_def del: from_scalar.simps)
qed

definition example_map :: block_map where
  "example_map = [0 \<mapsto> 1, 2 \<mapsto> 2, 3 \<mapsto> 3, 1 \<mapsto> 4]"

text \<open>What the example needs of a state: no loop and the one join.\<close>

definition example_state :: "codegen_state \<Rightarrow> bool" where
  "example_state st \<longleftrightarrow>
     loop_header_bb st = None \<and> phi_join_locals st = [3 \<mapsto> [2]] \<and> const_disc_locals st = [2 \<mapsto> 8] \<and> branch_snapshots st 3 = None"

lemma example_phi_args:
  assumes "ssa_values st 2 = Some v" "phi_join_locals st = [3 \<mapsto> [2]]"
    and "phi_block_args st (3, 2) \<noteq> None \<Longrightarrow> pre_join_ssa_values st (3, 2) \<noteq> None"
  obtains w a m' where "make_phi_args 3 3 st m = Ok ([w], set_phi_arg 3 2 a st, m')"
proof (cases "phi_block_args st (3, 2)")
  case None
  then show ?thesis
    using assms(1,2) that by (simp add: make_phi_args_def phi_arg_def case_prod_beta Let_def)
next
  case (Some b)
  then obtain w where "(if v = b then expect (pre_join_ssa_values st (3, 2)) else Ok v) = Ok w"
    using assms(3) by (cases "v = b") auto
  moreover have "set_phi_arg 3 2 b st = st" using Some by (simp add: set_phi_arg_def fun_upd_idem)
  ultimately have "make_phi_args 3 3 st m = Ok ([w], set_phi_arg 3 2 b st, m)"
    using Some assms(1,2) by (simp add: make_phi_args_def phi_arg_def split: if_splits)
  then show ?thesis by (rule that)
qed

lemma example_branch:
  assumes "example_state st" "ssa_values st 2 = Some v"
    and "phi_block_args st (3, 2) \<noteq> None \<Longrightarrow> pre_join_ssa_values st (3, 2) \<noteq> None"
  obtains a m' where "codegen_goto 3 blk example_map st m = Ok (set_phi_arg 3 2 a st, m')"
proof -
  obtain w a m' where "make_phi_args 3 3 st m = Ok ([w], set_phi_arg 3 2 a st, m')"
    using example_phi_args assms by (metis example_state_def)
  then show ?thesis
    using that assms(1) by (simp add: codegen_goto_def branch_to_def example_state_def example_map_def)
qed

lemma example_arm:
  assumes "example_state st" "bb = 1 \<or> bb = 2" "phi_block_args st (3, 2) \<noteq> None \<Longrightarrow> pre_join_ssa_values st (3, 2) \<noteq> None"
  obtains st' m' where "codegen_basic_block example_fx ex_join bb example_map st m = Ok (st', m')" "example_state st'"
    "ssa_values st' 2 \<noteq> None" "phi_block_args st' (3, 2) \<noteq> None"
proof -
  define st1 where "st1 = enter_block bb st"
  have st1: "example_state st1" "phi_block_args st1 = phi_block_args st" "pre_join_ssa_values st1 = pre_join_ssa_values st"
    using assms(1,2) by (auto simp: st1_def enter_block_def example_state_def Let_def split: option.splits)
  obtain n blk where b: "block_at ex_join bb = Some (ex_block [Stmt_Assign (local_place 2) (Rv_Use (ex_i32 n))] (Term_Goto 3))"
    "n = 7 \<or> n = 8" "example_map bb = Some blk"
    using assms(2) by (auto simp: ex_join_def block_at_def example_map_def)
  obtain v m1 where s: "codegen_statements example_ctx ex_join blk [Stmt_Assign (local_place 2) (Rv_Use (ex_i32 n))] st1 m =
      Ok (set_ssa 2 v st1, m1)"
    using example_assign [OF b(2)] by metis
  have e: "example_state (set_ssa 2 v st1)" "ssa_values (set_ssa 2 v st1) 2 = Some v"
    "phi_block_args (set_ssa 2 v st1) (3, 2) \<noteq> None \<Longrightarrow> pre_join_ssa_values (set_ssa 2 v st1) (3, 2) \<noteq> None"
    using st1 assms(3) by (simp_all add: set_ssa_def example_state_def)
  obtain a m2 where g: "codegen_goto 3 blk example_map (set_ssa 2 v st1) m1 = Ok (set_phi_arg 3 2 a (set_ssa 2 v st1), m2)"
    using example_branch [OF e] by blast
  have "codegen_basic_block example_fx ex_join bb example_map st m = Ok (set_phi_arg 3 2 a (set_ssa 2 v st1), m2)"
    using s g b by (simp add: codegen_basic_block_def ex_block_def codegen_terminator_def example_fx_def st1_def
        del: codegen_statements.simps)
  then show ?thesis
    by (rule that) (use st1(1) in \<open>simp_all add: set_phi_arg_def set_ssa_def example_state_def\<close>)
qed

lemma example_switch:
  assumes "example_state st" "ssa_values st 1 = Some v" "option_table st = Map.empty" "tuple_fields st = Map.empty"
    and "branch_snapshots st = Map.empty"
  obtains st' m' where "codegen_basic_block example_fx ex_join 0 example_map st m = Ok (st', m')" "example_state st'"
    "phi_block_args st' = phi_block_args st"
proof -
  obtain k m1 where k: "arith_constant 1 (Attr_Int (sint (ucast (0 :: u128) :: i64)) (v_ty v)) m = (k, m1)" by fastforce
  obtain attr where "ml_parse_attr example_lib (to_string (predicate_code P_EQ)) = Some attr"
    by (simp add: example_lib_def parse_int_attr_def Let_def)
  then obtain c m2 where c: "create_cmpi example_lib 1 P_EQ v k (MT_Integer 1) m1 = Ok (c, m2)"
    by (auto simp: create_cmpi_def) (metis surj_pair)
  define st1 where "st1 = fold save_snapshot [1, 2] st"
  have st1: "example_state st1" "phi_block_args st1 = phi_block_args st"
    using assms(1,5) by (simp_all add: st1_def save_snapshot_def example_state_def)
  have "codegen_switch_binary example_fx ex_join v 0 1 2 1 example_map st1 m =
      Ok (st1, append_branch 1 ''cf.cond_br'' [c] [(4, []), (2, [])] m2)"
    using k c st1(1) by (simp add: codegen_switch_binary_def cond_br_def make_phi_args_def example_state_def example_map_def
        example_fx_def example_ctx_def)
  moreover have "codegen_operand example_ctx st 1 (Op_Copy (local_place 1)) Ty_Bool m = Ok (v, m)"
    using assms(2-4) by (simp add: codegen_operand_def codegen_copy_def)
  moreover have "operand_norm_ty example_ctx ex_join (Op_Copy (local_place 1)) = Ok Ty_Bool"
    by (simp add: operand_norm_ty_def ty_of_place_def ex_join_def example_ctx_def from_ty_def)
  moreover have "extract_switch_const (cc_inst example_ctx) (Op_Copy (local_place 1)) (const_disc_locals st) = None"
    using assms(1) by (simp add: extract_switch_const_def example_state_def)
  moreover have "fx_cc example_fx = example_ctx" by (simp add: example_fx_def)
  ultimately have "codegen_switch_int example_fx ex_join (Op_Copy (local_place 1)) (static_if 0 1 2) 1 example_map st m =
      Ok (st1, append_branch 1 ''cf.cond_br'' [c] [(4, []), (2, [])] m2)"
    by (simp add: codegen_switch_int_def static_if_def switch_iter_def otherwise_def st1_def)
  moreover have "enter_block 0 st = st"
    using assms(1,5) by (simp add: enter_block_def example_state_def)
  moreover have "block_at ex_join 0 = Some (ex_block [] (Term_SwitchInt (Op_Copy (local_place 1)) (static_if 0 1 2)))"
    by (simp add: ex_join_def block_at_def)
  ultimately have "codegen_basic_block example_fx ex_join 0 example_map st m =
      Ok (st1, append_branch 1 ''cf.cond_br'' [c] [(4, []), (2, [])] m2)"
    by (simp add: codegen_basic_block_def ex_block_def codegen_terminator_def example_map_def)
  then show ?thesis by (rule that) (use st1 in simp_all)
qed

lemma example_join:
  assumes "example_state st" "ssa_values st 2 \<noteq> None" "phi_block_args st (3, 2) \<noteq> None"
  obtains st' m' where "codegen_basic_block example_fx ex_join 3 example_map st m = Ok (st', m')" "example_state st'"
    "pre_join_ssa_values st' (3, 2) \<noteq> None"
proof -
  define st1 where "st1 = enter_block 3 st"
  have st1: "example_state st1" "pre_join_ssa_values st1 (3, 2) \<noteq> None"
    using assms by (auto simp: st1_def enter_block_def enter_phi_def example_state_def set_ssa_def split: option.splits)
  obtain m' where "codegen_return 3 st1 m = Ok (st1, m')" by (simp add: codegen_return_def Let_def)
  moreover have "block_at ex_join 3 = Some (ex_block [] Term_Return)" by (simp add: ex_join_def block_at_def)
  ultimately have "codegen_basic_block example_fx ex_join 3 example_map st m = Ok (st1, m')"
    by (simp add: codegen_basic_block_def ex_block_def codegen_terminator_def example_map_def st1_def)
  then show ?thesis by (rule that) (use st1 in simp_all)
qed

lemma example_emitted:
  obtains func m' where "codegen_analysed example_fx example_fe example_fn example_an [MT_Integer 1] [] empty_module = Ok (func, m')"
proof -
  define st where "st = codegen_state_new\<lparr>const_disc_locals := [2 \<mapsto> 8], phi_join_locals := [3 \<mapsto> [2]]\<rparr>"
  define v where "v = \<lparr>v_id = 0, v_ty = MT_Integer 1\<rparr>"
  obtain m0 where c: "create_blocks example_ctx {} [Ty_Bool] [MT_Integer 1] [0, 2, 3, 1] Map.empty st empty_module =
      Ok (example_map, set_ssa 1 v st, m0)"
    by (simp add: new_block_def empty_module_def add_argument_def Let_def example_map_def v_def eval_nat_numeral)
  have s: "example_state (set_ssa 1 v st)" "ssa_values (set_ssa 1 v st) 1 = Some v" "option_table (set_ssa 1 v st) = Map.empty"
    "tuple_fields (set_ssa 1 v st) = Map.empty" "branch_snapshots (set_ssa 1 v st) = Map.empty"
    "phi_block_args (set_ssa 1 v st) = Map.empty"
    by (simp_all add: set_ssa_def st_def example_state_def codegen_state_new_def)
  obtain st1 m1 where b0: "codegen_basic_block example_fx ex_join 0 example_map (set_ssa 1 v st) m0 = Ok (st1, m1)"
    "example_state st1" "phi_block_args st1 = Map.empty"
    using example_switch [OF s(1-5)] s(6) by metis
  obtain st2 m2 where b2: "codegen_basic_block example_fx ex_join 2 example_map st1 m1 = Ok (st2, m2)" "example_state st2"
    "ssa_values st2 2 \<noteq> None" "phi_block_args st2 (3, 2) \<noteq> None"
    using example_arm [OF b0(2), of 2] b0(3) by (metis (no_types, lifting))
  obtain st3 m3 where b3: "codegen_basic_block example_fx ex_join 3 example_map st2 m2 = Ok (st3, m3)" "example_state st3"
    "pre_join_ssa_values st3 (3, 2) \<noteq> None"
    using example_join [OF b2(2-4)] by metis
  obtain st4 m4 where b1: "codegen_basic_block example_fx ex_join 1 example_map st3 m3 = Ok (st4, m4)"
    using example_arm [OF b3(2), of 1] b3(3) by metis
  have at: "\<exists>d. block_at ex_join bb = Some d" if "bb < 4" for bb
    using that by (simp add: ex_join_def block_at_def vec_index_def)
  have "codegen_blocks example_fx ex_join Map.empty Map.empty example_map {} [0, 2, 3, 1] (set_ssa 1 v st) m0 = Ok (st4, m4)"
    using at [of 0] at [of 1] at [of 2] at [of 3] b0(1) b1 b2(1) b3(1) by (auto simp: codegen_block_def)
  moreover have "fx_cc example_fx = example_ctx" by (simp add: example_fx_def)
  ultimately have "\<exists>func. codegen_analysed example_fx example_fe example_fn example_an [MT_Integer 1] [] empty_module = Ok (func, m4)"
    using c by (simp add: codegen_analysed_def example_an_def example_fn_def st_def
        del: create_blocks.simps codegen_blocks.simps One_nat_def)
  then show ?thesis using that by blast
qed

section \<open>Control flow\<close>



end
