(* ===== verification/Loop_Reject.thy ===== *)
theory Loop_Reject
  imports Func_Props Triton_Loop_Correct
begin

text \<open>
  Functions that the code generator does not translate: a while loop whose body has a conditional. The conditional is
  emitted as \<open>scf.if\<close>, which needs the block with the back edge; only range loops record it. The proof follows the part
  of the state that no block changes.
\<close>

section \<open>What emission keeps of the state\<close>

definition modes :: "codegen_state \<Rightarrow> basic_block option \<times> basic_block set \<times> basic_block option \<times> const_map" where
  "modes st = (loop_header_bb st, loop_body_bbs st, loop_back_edge_bb st, const_disc_locals st)"

lemma control_modes: "control st' = control st \<Longrightarrow> modes st' = modes st"
  by (simp add: control_def modes_def)

lemma modes_updates [simp]:
  "modes (set_ssa l v st) = modes st" "modes (st\<lparr>ssa_values := f\<rparr>) = modes st" "modes (set_phi_arg bb l v st) = modes st"
  "modes (st\<lparr>skip_bbs := s\<rparr>) = modes st" "modes (st\<lparr>branch_snapshots := b\<rparr>) = modes st"
  "modes (st\<lparr>pre_join_ssa_values := p\<rparr>) = modes st" "modes (set_option_local l ov st) = modes st"
  by (simp_all add: modes_def set_ssa_def set_phi_arg_def set_option_local_def)

lemma modes_set_locals [simp]: "modes (set_locals ls vs st) = modes st"
proof -
  have "modes (fold (\<lambda>(l, v). set_ssa l v) ps st) = modes st" for ps
    by (induction ps arbitrary: st) auto
  then show ?thesis by (simp add: set_locals_def)
qed

lemma modes_statements: "codegen_statements cc mir blk ss st m = Ok (st', m') \<Longrightarrow> modes st' = modes st"
  using control_modes control_codegen_statements by metis

lemma modes_phi_arg: "phi_arg bb b l st m = Ok (v, st', m') \<Longrightarrow> modes st' = modes st"
  by (auto simp: phi_arg_def Let_def case_prod_beta split: option.split_asm)

lemma modes_phi_args: "phi_args bb b ls st m = Ok (vs, st', m') \<Longrightarrow> modes st' = modes st"
  by (induction ls arbitrary: st m vs) (auto dest!: modes_phi_arg)

lemma modes_make_phi_args: "make_phi_args bb b st m = Ok (vs, st', m') \<Longrightarrow> modes st' = modes st"
  by (auto simp: make_phi_args_def dest: modes_phi_args split: option.splits)

lemma modes_goto: "codegen_goto target blk bmap st m = Ok (st', m') \<Longrightarrow> modes st' = modes st"
  by (auto simp: codegen_goto_def branch_to_Ok dest: modes_make_phi_args split: option.splits if_splits)

lemma modes_call: "codegen_terminator_call fx mir func args dest target blk bmap st m = Ok (st', m') \<Longrightarrow> modes st' = modes st"
  by (auto simp: codegen_terminator_call_def Let_def dest!: modes_goto control_call_method control_modes split: option.splits)

lemma modes_arm: "codegen_arm fx mir blk bmap bbs st m = Ok (st', m') \<Longrightarrow> modes st' = modes st"
proof (induction bbs arbitrary: st m)
  case (Cons bb bbs)
  then obtain d st1 m1 t st2 m2 where a: "block_at mir bb = Some d"
    "codegen_statements (fx_cc fx) mir blk (bb_statements d) st m = Ok (st1, m1)" "bb_terminator d = Some t"
    "(case t of
        Term_Call func args dest target _ \<Rightarrow> codegen_terminator_call fx mir func args dest target blk bmap st1 m1
      | _ \<Rightarrow> Ok (st1, m1)) = Ok (st2, m2)"
    "codegen_arm fx mir blk bmap bbs st2 m2 = Ok (st', m')"
    by auto
  have "modes st2 = modes st1" using a(4) by (cases t) (auto dest: modes_call)
  then show ?case using Cons.IH [OF a(5)] modes_statements [OF a(2)] by simp
qed simp

lemma modes_if_arm: "codegen_if_arm fx mir bmap chain carry st m = Ok (b, st', m') \<Longrightarrow> modes st' = modes st"
  by (auto simp: codegen_if_arm_def Let_def case_prod_beta dest: modes_arm)

lemma modes_scf_if:
  "codegen_loop_body_switch_as_scf_if fx mir cond t e blk bmap st m = Ok (st', m') \<Longrightarrow> modes st' = modes st"
  by (auto simp: codegen_loop_body_switch_as_scf_if_def Let_def case_prod_beta dest!: modes_if_arm split: if_splits)

lemma modes_cond_br: "cond_br c t e blk bmap st m = Ok (st', m') \<Longrightarrow> modes st' = modes st"
  by (auto simp: cond_br_def dest!: modes_make_phi_args)

lemma modes_switch_binary: "codegen_switch_binary fx mir v val t e blk bmap st m = Ok (st', m') \<Longrightarrow> modes st' = modes st"
  by (elim switch_binary_cases) (auto dest: modes_scf_if modes_goto modes_cond_br)

lemma modes_snapshot [simp]: "modes (save_snapshot bb st) = modes st"
  by (simp add: save_snapshot_def split: option.split)

lemma modes_snapshots [simp]: "modes (fold save_snapshot bbs st) = modes st"
  by (induction bbs arbitrary: st) simp_all

lemma modes_switch_int:
  assumes "codegen_switch_int fx mir discr targets blk bmap st m = Ok (st', m')"
  shows "modes st' = modes st"
proof (cases "extract_switch_const (cc_inst (fx_cc fx)) discr (const_disc_locals st)")
  case (Some c)
  then show ?thesis using assms by (auto simp: codegen_switch_int_def Let_def dest: modes_goto)
next
  case None
  then obtain v m1 ow where "(let st1 = fold save_snapshot (map snd (switch_iter targets) @ [ow]) st in
      case switch_iter targets of
        [] \<Rightarrow> codegen_goto ow blk bmap st1 m1
      | [(val, t1)] \<Rightarrow> codegen_switch_binary fx mir v val t1 ow blk bmap st1 m1
      | [(val, t1), (_, t2)] \<Rightarrow>
          bind_res (is_unreachable_block mir ow) (\<lambda>u.
            if u then codegen_switch_binary fx mir v val t1 t2 blk bmap st1 m1 else Panic)
      | _ \<Rightarrow> Panic) = Ok (st', m')"
    using assms unfolding codegen_switch_int_def Let_def by auto
  then show ?thesis
    unfolding Let_def by (auto dest!: modes_goto modes_switch_binary split: list.split_asm if_split_asm)
qed

lemma modes_terminator: "codegen_terminator fx mir t blk bmap st m = Ok (st', m') \<Longrightarrow> modes st' = modes st"
  by (cases t) (auto simp: codegen_terminator_def codegen_return_def dest: modes_goto modes_call modes_switch_int)

lemma modes_enter_block [simp]: "modes (enter_block bb st) = modes st"
proof -
  have phi: "modes (enter_phi bb l st) = modes st" for l st by (simp add: enter_phi_def split: option.split)
  have phis: "modes (fold (enter_phi bb) ls st) = modes st" for ls st by (induction ls arbitrary: st) (simp_all add: phi)
  have "modes (st\<lparr>ssa_values := f, branch_snapshots := b\<rparr>) = modes st" for f b by (simp add: modes_def)
  then show ?thesis by (auto simp: enter_block_def Let_def phis split: option.split)
qed

lemma modes_basic_block: "codegen_basic_block fx mir bb bmap st m = Ok (st', m') \<Longrightarrow> modes st' = modes st"
  by (auto simp: codegen_basic_block_def dest!: modes_terminator modes_statements)

lemma modes_body: "codegen_body fx mir skips bmap bbs st m = Ok (st', m') \<Longrightarrow> modes st' = modes st"
  by (induction bbs arbitrary: st m) (auto dest: modes_basic_block split: if_splits)

text \<open>Between the blocks of a function no loop is active, and the known discriminants stay.\<close>

definition idle :: "const_map \<Rightarrow> codegen_state \<Rightarrow> bool" where
  "idle known st \<longleftrightarrow> modes st = (None, {}, None, known)"

definition known_of :: "basic_block option \<times> basic_block set \<times> basic_block option \<times> const_map \<Rightarrow> const_map" where
  "known_of ms = snd (snd (snd ms))"

lemma modes_set_loop:
  "modes (set_loop header carry bbs st) = (header, bbs, loop_back_edge_bb st, known_of (modes st))"
  "modes ((set_loop header carry bbs st)\<lparr>loop_back_edge_bb := b\<rparr>) = (header, bbs, b, known_of (modes st))"
  "modes ((set_loop header carry bbs st)\<lparr>loop_back_edge_bb := b, skip_bbs := s\<rparr>) = (header, bbs, b, known_of (modes st))"
  by (simp_all add: set_loop_def modes_def known_of_def)

lemma modes_enter_for: "enter_for_body loop_info args st = Ok st' \<Longrightarrow> modes st' = modes st"
  by (auto simp: enter_for_body_def Let_def split: list.splits if_splits option.splits)

lemma idle_for_loop:
  "codegen_scf_for_loop fx mir l blk outer st m = Ok (st', m') \<Longrightarrow> idle known st \<Longrightarrow> idle known st'"
  by (auto simp: codegen_scf_for_loop_def Let_def case_prod_beta idle_def modes_set_loop known_of_def
      dest!: modes_enter_for modes_body)

section \<open>Conditionals in a while loop\<close>

text \<open>A block of the loop's body ends in a conditional on a value that is not known at compile time, and both of its
  targets are in the loop.\<close>

definition loop_conditional :: "instance_ctx \<Rightarrow> body \<Rightarrow> const_map \<Rightarrow> while_loop_info \<Rightarrow> basic_block \<Rightarrow> bool" where
  "loop_conditional ix mir known l bb \<longleftrightarrow>
     bb \<in> set (wl_body_bbs l) \<and>
     (\<exists>discr targets v t e. terminator_at mir bb = Some (Term_SwitchInt discr targets) \<and> switch_iter targets = [(v, t)] \<and>
        otherwise targets = Some e \<and> {t, e} \<subseteq> insert (wl_header_bb l) (set (wl_body_bbs l)) \<and>
        extract_switch_const ix discr known = None)"

lemma switch_binary_panics:
  assumes "modes st = (Some header, bbs, None, known)" "{t, e} \<subseteq> insert header bbs"
  shows "codegen_switch_binary fx mir v val t e blk bmap st m \<noteq> Ok r"
  using assms by (auto simp: modes_def codegen_switch_binary_def Let_def case_prod_beta in_active_loop_def
      codegen_loop_body_switch_as_scf_if_def)

lemma conditional_rejected:
  assumes "loop_conditional (cc_inst (fx_cc fx)) mir known l bb"
    "modes st = (Some (wl_header_bb l), set (wl_body_bbs l), None, known)"
  shows "codegen_basic_block fx mir bb bmap st m \<noteq> Ok r"
proof
  assume ok: "codegen_basic_block fx mir bb bmap st m = Ok r"
  obtain discr targets v t e where c: "terminator_at mir bb = Some (Term_SwitchInt discr targets)"
    "switch_iter targets = [(v, t)]" "otherwise targets = Some e" "{t, e} \<subseteq> insert (wl_header_bb l) (set (wl_body_bbs l))"
    "extract_switch_const (cc_inst (fx_cc fx)) discr known = None"
    using assms(1) by (auto simp: loop_conditional_def)
  obtain d blk st1 m1 where a: "block_at mir bb = Some d" "bb_terminator d = Some (Term_SwitchInt discr targets)"
    "codegen_statements (fx_cc fx) mir blk (bb_statements d) (enter_block bb st) m = Ok (st1, m1)"
    "codegen_switch_int fx mir discr targets blk bmap st1 m1 = Ok r"
    using ok c(1) by (auto simp: codegen_basic_block_def codegen_terminator_def terminator_at_def)
  have m: "modes st1 = (Some (wl_header_bb l), set (wl_body_bbs l), None, known)"
    using modes_statements [OF a(3)] assms(2) by simp
  then have "extract_switch_const (cc_inst (fx_cc fx)) discr (const_disc_locals st1) = None" using c(5) by (simp add: modes_def)
  then obtain dv m2 where "codegen_switch_binary fx mir dv v t e blk bmap (save_snapshot e (save_snapshot t st1)) m2 = Ok r"
    using a(4) c(2,3) by (auto simp: codegen_switch_int_def Let_def)
  then show False using switch_binary_panics [OF _ c(4)] m by (metis modes_snapshot)
qed

lemma body_rejected:
  assumes "loop_conditional (cc_inst (fx_cc fx)) mir known l bb" "bb \<in> set bbs"
    "modes st = (Some (wl_header_bb l), set (wl_body_bbs l), None, known)"
  shows "codegen_body fx mir False bmap bbs st m \<noteq> Ok r"
  using assms(2,3)
proof (induction bbs arbitrary: st m)
  case (Cons b bbs)
  have "codegen_body fx mir False bmap bbs st' m' \<noteq> Ok r" if "codegen_basic_block fx mir b bmap st m = Ok (st', m')" for st' m'
    using Cons.IH [of st' m'] Cons.prems modes_basic_block [OF that] conditional_rejected [OF assms(1) Cons.prems(2)] that by auto
  then show ?case by auto
qed simp

text \<open>The state at the start of the body of a while loop: the loop is active, and no back edge is recorded.\<close>

lemma while_loop_body:
  assumes "codegen_scf_while_loop fx mir l blk outer st m = Ok (st', m')" "idle known st"
  obtains st1 bmap m1 st2 m2 vs where "modes st1 = (Some (wl_header_bb l), set (wl_body_bbs l), None, known)"
    "codegen_body fx mir False bmap (wl_body_bbs l) st1 m1 = Ok (st2, m2)"
    "st' = set_locals (wl_iter_carry_locals l) vs (set_loop None [] {} st2)"
proof -
  let ?carry = "wl_iter_carry_locals l"
  have active: "modes (set_loop (Some (wl_header_bb l)) ?carry (set (wl_body_bbs l)) (set_locals ?carry vs s)) =
      (Some (wl_header_bb l), set (wl_body_bbs l), None, known)" if "modes s = modes st" for s vs
  proof -
    have "modes (set_locals ?carry vs s) = (None, {}, None, known)" using that assms(2) by (simp add: idle_def)
    then show ?thesis unfolding set_loop_def modes_def by simp
  qed
  show ?thesis using assms(1)
    by (auto simp: codegen_scf_while_loop_def Let_def case_prod_beta dest!: modes_statements)
      (rule that [OF active], assumption, assumption, assumption)
qed

lemma while_loop_rejected:
  assumes "loop_conditional (cc_inst (fx_cc fx)) mir known l bb" "idle known st"
  shows "codegen_scf_while_loop fx mir l blk outer st m \<noteq> Ok (st', m')"
proof
  assume "codegen_scf_while_loop fx mir l blk outer st m = Ok (st', m')"
  then obtain st1 bmap m1 st2 m2 where "modes st1 = (Some (wl_header_bb l), set (wl_body_bbs l), None, known)"
    "codegen_body fx mir False bmap (wl_body_bbs l) st1 m1 = Ok (st2, m2)"
    using while_loop_body assms(2) by metis
  then show False using body_rejected [OF assms(1)] assms(1) by (auto simp: loop_conditional_def)
qed

lemma idle_while_loop:
  assumes "codegen_scf_while_loop fx mir l blk outer st m = Ok (st', m')" "idle known st"
  shows "idle known st'"
proof -
  obtain st1 bmap m1 st2 m2 vs where a: "modes st1 = (Some (wl_header_bb l), set (wl_body_bbs l), None, known)"
    "codegen_body fx mir False bmap (wl_body_bbs l) st1 m1 = Ok (st2, m2)"
    "st' = set_locals (wl_iter_carry_locals l) vs (set_loop None [] {} st2)"
    using while_loop_body [OF assms] .
  then have "modes st2 = (Some (wl_header_bb l), set (wl_body_bbs l), None, known)" using modes_body by metis
  then have "loop_back_edge_bb st2 = None" "known_of (modes st2) = known" by (simp_all add: modes_def known_of_def)
  then show ?thesis using a(3) by (simp add: idle_def modes_set_loop)
qed

section \<open>Functions\<close>

lemma idle_modes: "idle known st \<Longrightarrow> modes st' = modes st \<Longrightarrow> idle known st'"
  by (simp add: idle_def)

lemma idle_codegen_block:
  assumes "codegen_block fx mir fors whiles bmap bb d st m = Ok (st', m')" "idle known st"
  shows "idle known st'"
  using assms by (auto simp: codegen_block_def split: option.split_asm
      dest: idle_modes [OF _ modes_statements] idle_modes [OF _ modes_basic_block] idle_for_loop idle_while_loop)

lemma codegen_blocks_rejected:
  assumes "loop_conditional (cc_inst (fx_cc fx)) mir known l bb" "bb0 \<in> set bbs" "bb0 \<notin> region" "fors bb0 = None"
    "whiles bb0 = Some l" "idle known st"
  shows "codegen_blocks fx mir fors whiles bmap region bbs st m \<noteq> Ok r"
  using assms(2,6)
proof (induction bbs arbitrary: st m)
  case (Cons b bbs)
  have reject: "codegen_block fx mir fors whiles bmap bb0 d st m \<noteq> Ok r" for d r
    using while_loop_rejected [OF assms(1) idle_modes [OF Cons.prems(2) modes_statements]] assms(4,5)
    by (cases r) (auto simp: codegen_block_def)
  show ?case
  proof (cases "b = bb0")
    case True
    then show ?thesis using reject assms(3) by auto
  next
    case False
    then show ?thesis using Cons idle_codegen_block by (auto split: if_splits)
  qed
qed simp

lemma idle_entry_args: "entry_args cc blk l tys ts st m = Ok (st', m') \<Longrightarrow> idle known st \<Longrightarrow> idle known st'"
  by (induction tys arbitrary: l ts st m) (auto simp: idle_def Let_def case_prod_beta split: if_splits list.splits)

lemma idle_create_blocks: "create_blocks cc region tys ts bbs bmap st m = Ok (bmap', st', m') \<Longrightarrow> idle known st \<Longrightarrow> idle known st'"
  by (induction bbs arbitrary: bmap st m) (auto simp: Let_def case_prod_beta dest: idle_entry_args split: if_splits)


text \<open>\<open>while _1 { if _2 { } else { _3 = 7 }; _4 = _3 }\<close>\<close>

definition conditional_fn :: fn_item where
  "conditional_fn =
     \<lparr>fi_ty = Ty_FnDef 0 [], fi_inputs = [Ty_Bool, Ty_Bool], fi_output = Ty_Tuple [], fi_symbol = lit ''entry_point'', fi_mir = ex_carry\<rparr>"

lemma ex_carry_disc: "compute_const_disc_locals (cc_inst example_ctx) ex_carry = [3 \<mapsto> 7, 4 \<mapsto> 7]"
  by (simp add: compute_const_disc_locals_def all_statements_def disc_pass1_def disc_sweep_def extract_scalar_const_def
      to_bits_unchecked_def disc_fixpoint.simps ex_carry_def ex_defs ex_i64_def example_ctx_def)

lemma ex_carry_analysis:
  assumes "analyse example_ctx fe ex_carry = Some an"
  shows "fa_order an = [0, 1, 2, 4, 3, 5]" "fa_region an = {1, 2, 3, 4}" "fa_for_inits an = Map.empty"
    "fa_const_disc an = [3 \<mapsto> 7, 4 \<mapsto> 7]"
    "fa_while_inits an = [0 \<mapsto> \<lparr>wl_header_bb = 1, wl_body_entry_bb = 2, wl_body_bbs = [2, 3, 4], wl_back_edge_bb = 4,
      wl_exit_bb = 5, wl_iter_carry_locals = []\<rparr>]"
proof -
  have r: "compute_reachable_blocks (cc_inst example_ctx) ex_carry [3 \<mapsto> 7, 4 \<mapsto> 7] = Some ({0, 1, 2, 3, 4, 5}, [0, 1, 2, 4, 3, 5])"
    by (simp add: reach_defs ex_carry_def ex_defs block_defs ex_i64_def insert_commute)
  have f: "detect_range_loop (cc_inst example_ctx) ex_carry = Some []"
    by (simp add: loop_defs bound_defs ex_carry_def ex_defs block_defs ex_i64_def)
  let ?l = "\<lparr>wl_header_bb = 1, wl_body_entry_bb = 2, wl_body_bbs = [2, 3, 4], wl_back_edge_bb = 4, wl_exit_bb = 5,
    wl_iter_carry_locals = []\<rparr>"
  have region: "range_region [] = {}" "while_region [?l] = {1, 2, 3, 4}"
    by (auto simp: range_region_def while_region_def)
  have init: "find_init ex_carry {1, 2, 3, 4} 1 [0..<length (basic_blocks ex_carry)] = Some (Some 0)"
    by (simp add: ex_carry_def ex_block_def block_defs upt_rec)
  obtain phis where "an = \<lparr>fa_const_disc = [3 \<mapsto> 7, 4 \<mapsto> 7], fa_order = [0, 1, 2, 4, 3, 5], fa_region = {1, 2, 3, 4},
      fa_for_inits = Map.empty, fa_while_inits = [0 \<mapsto> ?l], fa_phis = phis\<rparr>"
    using assms unfolding analyse_def Let_def ex_carry_disc
    by (simp only: r f ex_carry_while region Un_empty_left init_map.simps bind.bind_lunit split while_loop_info.select_convs init)
      (auto split: bind_splits)
  then show "fa_order an = [0, 1, 2, 4, 3, 5]" "fa_region an = {1, 2, 3, 4}" "fa_for_inits an = Map.empty"
    "fa_const_disc an = [3 \<mapsto> 7, 4 \<mapsto> 7]" "fa_while_inits an = [0 \<mapsto> ?l]"
    by simp_all
qed


end
