(* ===== verification/Kernel_Props.thy ===== *)
theory Kernel_Props
  imports Kernel_Emission Emit_Props
begin

text \<open>
  Properties of single handlers of the kernel library: what the code for a ceiling division computes, which tensors the
  shape operations and the reductions return, and where they return something else than the kernel asked for.
\<close>

section \<open>Arguments\<close>

lemma call_arg_delivers:
  assumes "lib_documented (cc_lib cc)" "documented sem" "matches cc mir st env vals" "dom env \<subseteq> {..<mm_next m}"
    "mir_operand cc mir vals op1 = Some ((s, w), x)"
  obtains v m' env' where "call_arg cc mir blk st op1 m = Ok (v, m')" "delivers sem blk env m v m' w x env'"
proof (cases "bare_local op1")
  case (Some l)
  then have l: "local_shape cc mir l = Some (s, w)" "vals l = Some x"
    using assms(5) by (auto simp: mir_operand_def split: bind_splits)
  then have "operand_ty cc mir op1 = Ok (local_decls mir ! l)"
    using bare_local_place [OF Some] ty_of_bare_place [of l mir cc]
    by (auto simp: local_shape_def vec_index_def split: if_splits)
  moreover obtain v where "codegen_operand cc st blk op1 (local_decls mir ! l) m = Ok (v, m)" "delivers sem blk env m v m w x env"
    using local_delivers [OF assms(3,4) Some l] .
  ultimately show ?thesis using that by (simp add: call_arg_def)
next
  case None
  then obtain c t where c: "op1 = Op_Constant (MC_Val (CV_Scalar (Scalar_Int c)) t)" "const_operand cc c t = Some ((s, w), x)"
    using assms(5) by (auto simp: mir_operand_def split: operand.splits mir_const.splits const_value.splits scalar.splits)
  then have "operand_ty cc mir op1 = Ok t" "int_shape t = Some (s, w)"
    by (auto simp: const_operand_def split: option.splits if_splits)
  moreover obtain v m' env' where "codegen_operand cc st blk op1 t m = Ok (v, m')" "delivers sem blk env m v m' w x env'"
    using operand_delivers [OF assms calculation(2)] .
  ultimately show ?thesis using that by (simp add: call_arg_def)
qed

section \<open>Ceiling division\<close>

definition is_ceil_div :: "nat \<Rightarrow> nat \<Rightarrow> nat \<Rightarrow> bool" where
  "is_ceil_div a b q \<longleftrightarrow> a \<le> q * b \<and> q * b < a + b"

lemma is_ceil_div_div:
  assumes "0 < b"
  shows "is_ceil_div a b ((a + b - 1) div b)"
proof -
  let ?q = "(a + b - 1) div b"
  have "?q * b + (a + b - 1) mod b = a + b - 1" by simp
  moreover have "(a + b - 1) mod b < b" using assms by simp
  ultimately show ?thesis using assms unfolding is_ceil_div_def by linarith
qed

lemma int_sdiv: "int x sdiv int y = int (x div y)"
  by (cases "x = 0 \<or> y = 0") (auto simp: signed_divide_int_def zdiv_int)

text \<open>The number that the emitted operations compute.\<close>

definition cdiv_value :: "nat \<Rightarrow> nat \<Rightarrow> nat \<Rightarrow> nat" where
  "cdiv_value w a b = rep w (sv w (a + b - 1) sdiv sv w b)"

lemma cdiv_value_exact:
  assumes "0 < w" "a < 2 ^ (w - 1)" "0 < b" "b < 2 ^ (w - 1)"
  shows "is_ceil_div a b (cdiv_value w a b) \<longleftrightarrow> a + b - 1 < 2 ^ (w - 1)"
proof (cases "a + b - 1 < 2 ^ (w - 1)")
  case True
  have "(a + b - 1) div b < 2 ^ w"
    using True two_power_half [OF assms(1), where 'a = nat] div_le_dividend [of "a + b - 1" b] by linarith
  then have "cdiv_value w a b = (a + b - 1) div b"
    using True assms(4) by (simp add: cdiv_value_def sv_small int_sdiv rep_int del: of_nat_diff)
  then show ?thesis using True is_ceil_div_div [OF assms(3)] by simp
next
  case False
  define H :: nat where "H = 2 ^ (w - 1)"
  define k where "k = (2 * H - (a + b - 1)) div b"
  have H: "(2 :: nat) ^ w = 2 * H" "a < H" "b < H" "H \<le> a + b - 1"
    using False assms two_power_half [OF assms(1), where 'a = nat] by (simp_all add: H_def)
  have "(2 :: int) ^ w = 2 * int H" using two_power_half [OF assms(1), where 'a = int] by (simp add: H_def)
  note int_H = this
  then have "sv w (a + b - 1) = - int (2 * H - (a + b - 1))"
    using H False by (simp add: sv_def of_nat_diff)
  moreover have "(- int (2 * H - (a + b - 1))) sdiv int b = - int k"
    using assms(3) H by (simp add: signed_divide_int_def k_def zdiv_int sgn_if)
  ultimately have y: "cdiv_value w a b = rep w (- int k)" using assms(4) by (simp add: cdiv_value_def sv_small)
  have "k \<le> 2 * H - (a + b - 1)" unfolding k_def by simp
  then have k: "k \<le> H" using H by linarith
  have "\<not> is_ceil_div a b (cdiv_value w a b)"
  proof (cases "k = 0")
    case True
    then show ?thesis using y H(2-4) by (auto simp: is_ceil_div_def rep_def)
  next
    case False
    have "(- int k) mod 2 ^ w = int (2 * H - k)"
      using False k int_H by (simp add: zmod_zminus1_eq_if of_nat_diff)
    then have "rep w (- int k) = 2 * H - k" by (simp add: rep_def)
    then have "H \<le> cdiv_value w a b" using k y by simp
    then have le: "H * b \<le> cdiv_value w a b * b" by simp
    have "(H - 1) * 1 \<le> (H - 1) * b" using assms(3) by (intro mult_le_mono2) simp
    then have "H - 1 \<le> H * b - b" by (simp add: diff_mult_distrib)
    moreover have "b \<le> H * b" using H(2) by simp
    ultimately have "a + b \<le> H * b" using H(2) by linarith
    then show ?thesis using le unfolding is_ceil_div_def by linarith
  qed
  then show ?thesis using False by simp
qed

definition carries :: "rt_env \<Rightarrow> mlir_value \<Rightarrow> nat \<Rightarrow> nat \<Rightarrow> bool" where
  "carries env v w a \<longleftrightarrow> v_ty v = MT_Integer w \<and> env (v_id v) = Some a"

lemma carries_runs: "carries env v w a \<Longrightarrow> runs sem blk env m env' m' \<Longrightarrow> carries env' v w a"
  using runs_env by (simp add: carries_def)

lemma emit_binary_runs:
  assumes "documented sem" "dom env \<subseteq> {..<mm_next m}" "carries env va w a" "carries env vb w b"
    "nm \<in> set same_type_ops" "arith2 nm w a b = Some y"
  obtains v m' env' where "emit1 blk nm [va, vb] [] (MT_Integer w) m = (v, m')" "runs sem blk env m env' m'" "carries env' v w y"
proof -
  obtain v m' where e: "emit1 blk nm [va, vb] [] (MT_Integer w) m = (v, m')" by fastforce
  have "sem nm [] [MT_Integer w, MT_Integer w] (MT_Integer w) [a, b] = Some y"
    using assms(5,6) by (intro documented_sem [OF assms(1)]) (auto simp: arith_sem_def binary_sem_def same_type_ops_def)
  then have "runs sem blk env m (env(v_id v \<mapsto> y)) m' \<and> v_ty v = MT_Integer w"
    using emit1_runs [OF e assms(2), of "[a, b]"] assms(3,4) by (simp add: carries_def)
  moreover have "carries (env(v_id v \<mapsto> y)) v w y" using calculation by (simp add: carries_def)
  ultimately show ?thesis using that e by blast
qed

lemma parse_one:
  assumes "lib_documented lib" "ml_print_type lib (MT_Integer w) = lit ''i'' @ to_string (int w)" "0 < w"
  shows "ml_parse_attr lib (lit ''1 : '' @ ml_print_type lib (MT_Integer w)) = Some (Attr_Int 1 (MT_Integer w))"
proof -
  have "(1 :: nat) < 2 ^ w" using assms(3) by (intro one_less_power) simp_all
  then have "ml_parse_attr lib (attr_text 1 w) = Some (Attr_Int (int 1) (MT_Integer w))"
    using assms(1) unfolding lib_documented_def by blast
  moreover have "attr_text 1 w = lit ''1 : '' @ ml_print_type lib (MT_Integer w)"
    by (simp add: attr_text_def assms(2) to_string_def dec_nat.simps)
  ultimately show ?thesis by simp
qed

lemma cdiv_arith:
  assumes "0 < w" "a < 2 ^ (w - 1)" "0 < b" "b < 2 ^ (w - 1)"
  shows "arith2 ''arith.addi'' w a b = Some (a + b)" "arith2 ''arith.subi'' w (a + b) 1 = Some (a + b - 1)"
    "arith2 ''arith.divsi'' w (a + b - 1) b = Some (cdiv_value w a b)"
proof -
  have "a + b < 2 ^ w" using assms two_power_half [OF assms(1), where 'a = nat] by linarith
  then show "arith2 ''arith.addi'' w a b = Some (a + b)" "arith2 ''arith.subi'' w (a + b) 1 = Some (a + b - 1)"
    using rep_int [of "a + b" w] rep_int [of "a + b - 1" w] assms(3) by (simp_all add: of_nat_diff)
  show "arith2 ''arith.divsi'' w (a + b - 1) b = Some (cdiv_value w a b)"
    using assms(3,4) by (simp add: cdiv_value_def sv_small)
qed

lemma emit_cdiv_runs:
  assumes "lib_documented lib" "documented sem" "dom env \<subseteq> {..<mm_next m}"
    "ml_print_type lib (MT_Integer w) = lit ''i'' @ to_string (int w)"
    "carries env va w a" "carries env vb w b" "0 < w" "a < 2 ^ (w - 1)" "0 < b" "b < 2 ^ (w - 1)"
  obtains v m' env' where "emit_cdiv lib blk va vb m = Ok (v, m')" "runs sem blk env m env' m'"
    "carries env' v w (cdiv_value w a b)"
proof -
  let ?t = "MT_Integer w"
  note bin = emit_binary_runs [OF assms(2)] and arith = cdiv_arith [OF assms(7-10)]
  have ops: "''arith.addi'' \<in> set same_type_ops" "''arith.subi'' \<in> set same_type_ops" "''arith.divsi'' \<in> set same_type_ops"
    by (simp_all add: same_type_ops_def)
  obtain one m1 where e1: "create_constant blk (Attr_Int (int 1) ?t) ?t m = (one, m1)" by fastforce
  then obtain env1 where r1: "runs sem blk env m env1 m1" "carries env1 one w 1"
    using constant_runs [OF assms(2,3) one_less_power e1] assms(7) by (auto simp: carries_def)
  note in1 = assms(5,6) [THEN carries_runs, OF r1(1)]
  obtain s m2 env2 where r2: "emit1 blk ''arith.addi'' [va, vb] [] ?t m1 = (s, m2)" "runs sem blk env1 m1 env2 m2" "carries env2 s w (a + b)"
    using bin [OF runs_dom [OF r1(1)] in1 ops(1) arith(1)] .
  note in2 = r1(2) [THEN carries_runs, OF r2(2)] in1(2) [THEN carries_runs, OF r2(2)]
  obtain n m3 env3 where r3: "emit1 blk ''arith.subi'' [s, one] [] ?t m2 = (n, m3)" "runs sem blk env2 m2 env3 m3" "carries env3 n w (a + b - 1)"
    using bin [OF runs_dom [OF r2(2)] r2(3) in2(1) ops(2) arith(2)] .
  obtain v m' env' where r4: "emit1 blk ''arith.divsi'' [n, vb] [] ?t m3 = (v, m')" "runs sem blk env3 m3 env' m'"
    "carries env' v w (cdiv_value w a b)"
    using bin [OF runs_dom [OF r3(2)] r3(3) in2(2) [THEN carries_runs, OF r3(2)] ops(3) arith(3)] .
  have "emit_cdiv lib blk va vb m = Ok (v, m')"
    using parse_one [OF assms(1,4,7)] e1 r2(1) r3(1) r4(1) assms(5) by (simp add: emit_cdiv_def create_constant_def carries_def)
  then show ?thesis using that r4(3) runs_trans [OF r1(1) runs_trans [OF r2(2) runs_trans [OF r3(2) r4(2)]]] by blast
qed

text \<open>C3. The code for \<open>cdiv(a, b)\<close> on signed integers. Let the library parse, print and infer as documented, and let
  the operations mean what their documentation says. For \<open>a\<close> not negative and \<open>b\<close> positive, the handler
  succeeds and appends code that runs, and its result is the ceiling of the quotient exactly when \<open>a + b - 1\<close> fits
  the signed type: the computation \<open>(a + b - 1) / b\<close> wraps for larger arguments, though the quotient itself fits.\<close>

theorem cdiv_call_exact:
  assumes "lib_documented (cc_lib cc)" "documented sem" "matches cc mir st env vals" "dom env \<subseteq> {..<mm_next m}"
    "ml_print_type (cc_lib cc) (MT_Integer w) = lit ''i'' @ to_string (int w)"
    "mir_operand cc mir vals l = Some ((True, w), a)" "mir_operand cc mir vals r = Some ((True, w), b)"
    "a < 2 ^ (w - 1)" "0 < b" "b < 2 ^ (w - 1)"
  shows "\<exists>v m' ops env' q. codegen_cdiv_call cc mir func nm [l, r] dest blk st m = Ok (Some v, st, m') \<and>
    emits blk m ops m' \<and> exec_ops sem ops env = Some env' \<and> env' (v_id v) = Some q \<and>
    (is_ceil_div a b q \<longleftrightarrow> a + b - 1 < 2 ^ (w - 1))"
proof -
  have w: "0 < w" using assms(9,10) by (cases w) auto
  obtain va m1 env1 where a: "call_arg cc mir blk st l m = Ok (va, m1)" "delivers sem blk env m va m1 w a env1"
    using call_arg_delivers [OF assms(1-4,6)] .
  note runs_a = delivers_runs [OF a(2)]
  obtain vb m2 env2 where b: "call_arg cc mir blk st r m1 = Ok (vb, m2)" "delivers sem blk env1 m1 vb m2 w b env2"
    using call_arg_delivers [OF assms(1,2) matches_runs [OF assms(3) runs_a] runs_dom [OF runs_a] assms(7)] .
  note runs_b = delivers_runs [OF b(2)]
  have "carries env1 va w a" "carries env2 vb w b" using a(2) b(2) by (simp_all add: delivers_def carries_def)
  then obtain v m' env' where v: "emit_cdiv (cc_lib cc) blk va vb m2 = Ok (v, m')" "runs sem blk env2 m2 env' m'"
    "env' (v_id v) = Some (cdiv_value w a b)"
    using emit_cdiv_runs [OF assms(1,2) runs_dom [OF runs_b] assms(5) carries_runs [OF _ runs_b] _ w assms(8-10)]
    unfolding carries_def by metis
  have "codegen_cdiv_call cc mir func nm [l, r] dest blk st m = Ok (Some v, st, m')"
    using a(1) b(1) v(1) by (simp add: codegen_cdiv_call_def eval_arg_def nth_arg_def vec_index_def give_def)
  then show ?thesis
    using runs_trans [OF runs_trans [OF runs_a runs_b] v(2)] v(3) cdiv_value_exact [OF w assms(8-10)]
    unfolding runs_def by blast
qed

text \<open>At 32 bits, \<open>cdiv(1, 2147483647)\<close> is right and \<open>cdiv(2, 2147483647)\<close> is wrong.\<close>

theorem cdiv_call_exact_witness:
  "(\<exists>v m' ops env q. codegen_cdiv_call example_ctx example_body (i32_operand 0) [] [i32_operand 1, i32_operand 2147483647]
      (local_place 1) 0 codegen_state_new empty_module = Ok (Some v, codegen_state_new, m') \<and>
    emits 0 empty_module ops m' \<and> exec_ops arith_sem ops Map.empty = Some env \<and> env (v_id v) = Some q \<and>
    is_ceil_div 1 2147483647 q) \<and>
   (\<exists>v m' ops env q. codegen_cdiv_call example_ctx example_body (i32_operand 0) [] [i32_operand 2, i32_operand 2147483647]
      (local_place 1) 0 codegen_state_new empty_module = Ok (Some v, codegen_state_new, m') \<and>
    emits 0 empty_module ops m' \<and> exec_ops arith_sem ops Map.empty = Some env \<and> env (v_id v) = Some q \<and>
    \<not> is_ceil_div 2 2147483647 q)"
proof -
  have lib: "cc_lib example_ctx = example_lib" by (simp add: example_ctx_def)
  have doc: "lib_documented (cc_lib example_ctx)" using example_lib_documented lib by simp
  have print: "ml_print_type (cc_lib example_ctx) (MT_Integer 32) = lit ''i'' @ to_string (int 32)"
    by (simp add: lib example_lib_def print_int_type_def)
  have op1: "mir_operand example_ctx example_body Map.empty (i32_operand n) = Some ((True, 32), unat n)"
    if "unat n < 2 ^ 32" for n
    using that by (simp add: mir_operand_def i32_operand_def const_operand_def example_ctx_def)
  note exact = cdiv_call_exact [OF doc documented_arith_sem example_matches _ print op1 op1, where m = empty_module]
  show ?thesis using exact [of 1 2147483647] exact [of 2 2147483647] by simp
qed

section \<open>Shapes\<close>

definition elements :: "i64 list \<Rightarrow> int" where
  "elements dims = prod_list (map sint dims)"

definition static_dims :: "i64 list \<Rightarrow> bool" where
  "static_dims dims \<longleftrightarrow> list_all (\<lambda>d. 0 < sint d) dims"

lemma elements_append [simp]: "elements (xs @ ys) = elements xs * elements ys"
  by (simp add: elements_def)

lemma elements_Cons [simp]: "elements (d # ds) = sint d * elements ds" "elements [] = 1"
  by (simp_all add: elements_def)

lemma elements_pos: "static_dims dims \<Longrightarrow> 0 < elements dims"
  by (induction dims) (simp_all add: static_dims_def)

lemma in_i64_Some: "in_i64 z = Some n \<Longrightarrow> sint n = z"
  using signed_take_bit_int_eq_self [of 63 z] by (auto simp: in_i64_def signed_of_int split: if_splits)

lemma numel_fold:
  assumes "foldl (\<lambda>acc d. Option.bind acc (\<lambda>a. mul_i64 a d)) (Some k) dims = Some n"
  shows "sint n = sint k * elements dims"
  using assms
proof (induction dims arbitrary: k)
  case (Cons d dims)
  have none: "foldl (\<lambda>acc d. Option.bind acc (\<lambda>a. mul_i64 a d)) None ds = None" for ds by (induction ds) simp_all
  obtain k' where k': "mul_i64 k d = Some k'" using Cons.prems none by (cases "mul_i64 k d") auto
  then show ?case using Cons in_i64_Some by (simp add: mul_i64_def)
qed simp

lemma numel_elements: "numel dims = Ok n \<Longrightarrow> sint n = elements dims"
  using numel_fold [of 1 dims n] by (simp add: numel_def)

lemma emit1_ty: "v_ty (fst (emit1 blk nm operands attrs t m)) = t"
  by (simp add: emit1_def Let_def)

text \<open>A tensor with the elements of another, in another shape.\<close>

definition reshaped :: "mlir_ty \<Rightarrow> i64 list \<Rightarrow> mlir_ty \<Rightarrow> bool" where
  "reshaped t dims e \<longleftrightarrow> (\<exists>dims'. t = MT_Tensor dims' e \<and> elements dims' = elements dims)"

lemma reshaped_refl: "reshaped (MT_Tensor dims e) dims e"
  by (simp add: reshaped_def)

lemma reshape_to_elements:
  assumes "reshape_to blk src shape allow st m = Ok (Some v, st', m')" "v_ty src = MT_Tensor dims e"
    "static_dims dims" "static_dims shape"
  shows "reshaped (v_ty v) dims e"
  using assms(1,2) numel_elements [of dims] numel_elements [of shape] elements_pos [OF assms(3)] elements_pos [OF assms(4)]
    reshaped_refl [of dims e]
  by (auto simp: reshape_to_def ranked_def numel_mismatch_def give_def reshape_def emit1_ty tensor_type_def reshaped_def
      split: if_splits)

lemma insert_dim_elements: "insert_dim dims axis = Ok dims' \<Longrightarrow> elements dims' = elements dims"
proof -
  assume "insert_dim dims axis = Ok dims'"
  then obtain i where "dims' = take i dims @ 1 # drop i dims" by (auto simp: insert_dim_def Let_def split: if_splits)
  moreover have "elements (take i dims) * elements (drop i dims) = elements dims" by (simp flip: elements_append)
  ultimately show ?thesis by simp
qed

lemma shape_from_slice_table: "shape_from_slice_arg st op1 = Ok shape \<Longrightarrow> \<exists>l. slice_shape st l = Some shape"
  by (auto simp: shape_from_slice_arg_def split: option.splits bind_splits)

text \<open>C5. The operations that change only the shape keep the number of elements. Whenever \<open>reshape\<close>, \<open>view\<close>,
  \<open>ravel\<close> or \<open>expand_dims\<close> on a tensor of known dimensions, with requested shapes that are known, returns a value, it
  is a tensor of the same element type with as many elements: a request that does not fit returns the argument, and
  the product of the dimensions that is compared is the true one, since a product that does not fit 64 bits panics.\<close>

theorem shape_calls_keep_elements:
  assumes "h \<in> {codegen_reshape_call cc, codegen_view_call cc, codegen_ravel_call cc, codegen_expand_dims_call cc}"
    "eval_arg cc mir blk st args 0 m = Ok (src, m1)" "v_ty src = MT_Tensor dims e" "static_dims dims"
    "\<And>l shape. slice_shape st l = Some shape \<Longrightarrow> static_dims shape"
    "h mir func nm args dest blk st m = Ok (Some v, st', m')"
  shows "\<exists>dims'. v_ty v = MT_Tensor dims' e \<and> elements dims' = elements dims"
proof -
  consider "h = codegen_reshape_call cc" | "h = codegen_view_call cc" | "h = codegen_ravel_call cc" | "h = codegen_expand_dims_call cc"
    using assms(1) by blast
  then have "reshaped (v_ty v) dims e"
  proof cases
    case 1
    then obtain op1 shape allow where "shape_from_slice_arg st op1 = Ok shape" "reshape_to blk src shape allow st m1 = Ok (Some v, st', m')"
      using assms(2,6) by (auto simp: codegen_reshape_call_def)
    then show ?thesis using reshape_to_elements shape_from_slice_table assms(3-5) by blast
  next
    case 2
    then obtain op1 shape where "shape_from_slice_arg st op1 = Ok shape" "reshape_to blk src shape False st m1 = Ok (Some v, st', m')"
      using assms(2,6) by (auto simp: codegen_view_call_def)
    then show ?thesis using reshape_to_elements shape_from_slice_table assms(3-5) by blast
  next
    case 3
    then show ?thesis using assms(2,3,6) numel_elements [of dims] reshaped_refl [of dims e]
      by (auto simp: codegen_ravel_call_def ranked_def give_def reshape_def emit1_ty tensor_type_def reshaped_def split: if_splits)
  next
    case 4
    then show ?thesis using assms(2,3,6) insert_dim_elements [of dims]
      by (auto simp: codegen_expand_dims_call_def give_def expand_dims_def emit1_ty tensor_type_def reshaped_def)
  qed
  then show ?thesis by (simp add: reshaped_def)
qed

text \<open>A tensor of two by three floats in \<open>_1\<close>, and the slice \<open>[6]\<close> in \<open>_2\<close>.\<close>

definition tensor_value :: mlir_value where
  "tensor_value = \<lparr>v_id = 0, v_ty = MT_Tensor [2, 3] MT_F32\<rparr>"

definition tensor_state :: codegen_state where
  "tensor_state = set_slice_shape 2 [6] (set_ssa 1 tensor_value codegen_state_new)"

lemma tensor_operand:
  "eval_arg example_ctx example_body blk tensor_state (Op_Copy (local_place 1) # args) 0 m = Ok (tensor_value, m)"
  by (simp add: eval_arg_def nth_arg_def vec_index_def call_arg_def ty_of_bare_place example_body_def codegen_operand_def
      codegen_copy_def tensor_state_def set_ssa_def set_slice_shape_def codegen_state_new_def)

theorem shape_calls_keep_elements_witness:
  "\<exists>v m'. codegen_view_call example_ctx example_body (i32_operand 0) [] [Op_Copy (local_place 1), Op_Copy (local_place 2)]
      (local_place 3) 0 tensor_state empty_module = Ok (Some v, tensor_state, m') \<and>
    (\<exists>dims. v_ty v = MT_Tensor dims MT_F32 \<and> elements dims = 6)"
proof -
  let ?args = "[Op_Copy (local_place 1), Op_Copy (local_place 2)]"
  let ?r = "reshape 0 tensor_value (MT_Tensor [6] MT_F32) False False empty_module"
  have slice: "slice_shape tensor_state l = (if l = 2 then Some [6] else None)" for l
    by (simp add: tensor_state_def set_slice_shape_def set_ssa_def codegen_state_new_def)
  then have shape: "shape_from_slice_arg tensor_state (Op_Copy (local_place 2)) = Ok [6]"
    by (simp add: shape_from_slice_arg_def place_local_def)
  have "numel [2, 3] = Ok 6" "numel [6] = Ok 6" by (simp_all add: numel_def mul_i64_def in_i64_def)
  then have call: "codegen_view_call example_ctx example_body (i32_operand 0) [] ?args (local_place 3) 0 tensor_state
      empty_module = Ok (Some (fst ?r), tensor_state, snd ?r)"
    by (simp add: codegen_view_call_def tensor_operand [simplified] shape nth_arg_def vec_index_def reshape_to_def ranked_def
        tensor_value_def numel_mismatch_def give_def tensor_type_def)
  have "\<exists>dims. v_ty (fst ?r) = MT_Tensor dims MT_F32 \<and> elements dims = elements [2, 3]"
    by (rule shape_calls_keep_elements [where h = "codegen_view_call example_ctx", OF _ tensor_operand _ _ _ call])
      (auto simp: tensor_value_def static_dims_def slice split: if_splits)
  then show ?thesis using call by (simp add: elements_def)
qed

section \<open>Reductions\<close>

lemma drop_index:
  "map snd (filter (\<lambda>(i, _). i \<noteq> n + k) (enumerate n xs)) = take k xs @ drop (Suc k) xs"
proof (induction xs arbitrary: n k)
  case (Cons x xs)
  have rest: "filter (\<lambda>(i, _). i \<noteq> n) (enumerate (Suc n) xs) = enumerate (Suc n) xs"
    by (rule filter_True) (auto simp: in_set_enumerate_eq)
  show ?case
  proof (cases k)
    case 0
    then show ?thesis using rest by simp
  next
    case (Suc j)
    then show ?thesis using Cons [of "Suc n" j] by simp
  qed
qed simp

lemma index_i32:
  fixes axis :: i32
  assumes "i < 2 ^ 31"
  shows "of_nat i = axis \<longleftrightarrow> int i = sint axis"
proof -
  have "sint (of_nat i :: i32) = int i" using assms by (simp add: signed_of_nat signed_take_bit_int_eq_self)
  then show ?thesis by (metis signed_word_eqI)
qed

lemma reduce_dims_axis:
  assumes "length dims < 2 ^ 31"
  shows "reduce_dims axis dims =
    (if 0 \<le> sint axis then take (nat (sint axis)) dims @ drop (Suc (nat (sint axis))) dims else dims)"
proof -
  have "reduce_dims axis dims = map snd (filter (\<lambda>(i, _). int i \<noteq> sint axis) (enumerate 0 dims))"
    unfolding reduce_dims_def using index_i32 [OF order.strict_trans [OF _ assms], of _ axis]
    by (intro arg_cong [where f = "map snd"] filter_cong refl) (simp add: in_set_enumerate_eq case_prod_beta)
  also have "\<dots> = (if 0 \<le> sint axis then take (nat (sint axis)) dims @ drop (Suc (nat (sint axis))) dims else dims)"
  proof (cases "0 \<le> sint axis")
    case True
    then have "(\<lambda>(i, d :: i64). int i \<noteq> sint axis) = (\<lambda>(i, _). i \<noteq> 0 + nat (sint axis))" by (auto simp: fun_eq_iff)
    then show ?thesis using True drop_index [of 0 "nat (sint axis)" dims] by simp
  next
    case False
    then have "(\<lambda>(i, d :: i64). int i \<noteq> sint axis) = (\<lambda>_. True)" by (auto simp: fun_eq_iff)
    then show ?thesis using False by simp
  qed
  finally show ?thesis .
qed

text \<open>What a reduction along an axis returns: a negative axis removes nothing, and the axis is kept only in a
  tensor of rank one.\<close>

definition reduced_ty :: "i64 list \<Rightarrow> mlir_ty \<Rightarrow> i32 \<Rightarrow> bool \<Rightarrow> mlir_ty" where
  "reduced_ty dims e axis keep_dims =
     (if 0 \<le> sint axis \<and> sint axis < int (length dims) then
        if length dims = 1 then if keep_dims then MT_Tensor [1] e else e
        else MT_Tensor (take (nat (sint axis)) dims @ drop (Suc (nat (sint axis))) dims) e
      else MT_Tensor dims e)"

text \<open>A block that combines its two arguments and returns the result.\<close>

definition combine_block :: "mlir_ty \<Rightarrow> string \<Rightarrow> mlir_block \<Rightarrow> bool" where
  "combine_block t combine_op b \<longleftrightarrow>
     (\<exists>lhs rhs r. v_ty lhs = t \<and> v_ty rhs = t \<and> v_ty r = t \<and> distinct [v_id lhs, v_id rhs, v_id r] \<and> blk_args b = [lhs, rhs] \<and>
        blk_ops b =
          [\<lparr>op_name = combine_op, op_operands = [lhs, rhs], op_attrs = [], op_results = [r], op_successors = [], op_regions = []\<rparr>,
           \<lparr>op_name = ''tt.reduce.return'', op_operands = [r], op_attrs = [], op_results = [], op_successors = [], op_regions = []\<rparr>])"

lemma build_reduce_region_block:
  "\<exists>b m'. build_reduce_region t combine_op m = Ok (length (mm_blocks m), m') \<and> mm_blocks m' = mm_blocks m @ [b] \<and>
    combine_block t combine_op b"
  by (simp add: build_reduce_region_def combine_region_def new_block_def emit1_def reduce_return_def emit0_def append_op_def
      append_operation_def Let_def combine_block_def)

text \<open>A module with the reduction and its region.\<close>

definition reduction :: "block_ref \<Rightarrow> mlir_value \<Rightarrow> i32 \<Rightarrow> mlir_ty \<Rightarrow> string \<Rightarrow> block_ref \<Rightarrow> mlir_module \<Rightarrow> bool" where
  "reduction blk src axis t combine_op b m \<longleftrightarrow>
     combine_block t combine_op (mm_blocks m ! b) \<and>
     (\<exists>op1\<in>set (blk_ops (mm_blocks m ! blk)).
        op_name op1 = ''tt.reduce'' \<and> op_operands op1 = [src] \<and> op_attrs op1 = [attr_i32 (sint axis)] \<and> op_regions op1 = [[b]])"

lemma emit_reduce_result:
  assumes "blk < length (mm_blocks m)"
  shows "\<exists>r m'. emit_reduce blk src axis t combine_op m = Ok (r, m') \<and> v_ty r = reduce_result_ty src axis \<and>
    reduction blk src axis t combine_op (length (mm_blocks m)) m' \<and> length (mm_blocks m') = Suc (length (mm_blocks m))"
proof -
  obtain b m1 where b: "build_reduce_region t combine_op m = Ok (length (mm_blocks m), m1)" "mm_blocks m1 = mm_blocks m @ [b]"
    "combine_block t combine_op b"
    using build_reduce_region_block by blast
  then show ?thesis using assms
    by (simp add: emit_reduce_def reduce_def append_op_def append_operation_def vec_index_def reduction_def nth_append)
qed

lemma reduction_emit1:
  assumes "blk < length (mm_blocks m)" "blk \<noteq> b" "reduction blk src axis t combine_op b m"
  shows "reduction blk src axis t combine_op b (snd (emit1 blk nm operands attrs rt m))"
  using assms by (auto simp: reduction_def emit1_def append_operation_def Let_def)

lemma keep_reduced_result:
  assumes "blk < length (mm_blocks m)" "blk \<noteq> b" "reduction blk src axis t combine_op b m"
    "v_ty src = MT_Tensor dims e" "dims \<noteq> []" "length dims < 2 ^ 31" "\<not> is_tensor e" "v_ty r = reduce_result_ty src axis"
  shows "v_ty (fst (keep_reduced blk src axis keep_dims r m)) = reduced_ty dims e axis keep_dims"
    "reduction blk src axis t combine_op b (snd (keep_reduced blk src axis keep_dims r m))"
proof -
  show "reduction blk src axis t combine_op b (snd (keep_reduced blk src axis keep_dims r m))"
    using assms(3,4) reduction_emit1 [OF assms(1-3)] by (simp add: keep_reduced_def splat_def)
  note axis = reduce_dims_axis [OF assms(6), of axis]
  show "v_ty (fst (keep_reduced blk src axis keep_dims r m)) = reduced_ty dims e axis keep_dims"
  proof (cases "reduce_dims axis dims = []")
    case True
    then obtain d where "dims = [d]" "sint axis = 0"
      using axis assms(5) by (cases dims) (auto split: if_splits simp: Suc_length_conv)
    then show ?thesis using True assms(4,7,8) index_i32 [of 0 axis]
      by (auto simp: keep_reduced_def reduce_result_ty_def splat_def emit1_ty tensor_type_def reduced_ty_def)
  next
    case False
    then show ?thesis using axis assms(4-8)
      by (auto simp: keep_reduced_def reduce_result_ty_def tensor_type_def reduced_ty_def length_Suc_conv split: if_splits)
  qed
qed



section \<open>Casts and constants\<close>

text \<open>When a conversion of the arithmetic dialect verifies on the element types, and the numbers of a kernel.\<close>

definition cast_legal :: "string \<Rightarrow> mlir_ty \<Rightarrow> mlir_ty \<Rightarrow> bool" where
  "cast_legal nm s d \<longleftrightarrow>
     nm = ''arith.truncf'' \<and> is_float s \<and> is_float d \<and> float_bits d < float_bits s \<or>
     nm = ''arith.extf'' \<and> is_float s \<and> is_float d \<and> float_bits s < float_bits d \<or>
     nm = ''arith.sitofp'' \<and> is_integer s \<and> is_float d \<or>
     nm = ''arith.fptosi'' \<and> is_float s \<and> is_integer d \<or>
     nm = ''arith.trunci'' \<and> (\<exists>w w'. s = MT_Integer w \<and> d = MT_Integer w' \<and> w' < w)"

definition is_number :: "mlir_ty \<Rightarrow> bool" where
  "is_number t \<longleftrightarrow> is_integer t \<or> is_float t"

definition widens_integer :: "mlir_ty \<Rightarrow> mlir_ty \<Rightarrow> bool" where
  "widens_integer s d \<longleftrightarrow> (case (s, d) of (MT_Integer w, MT_Integer w') \<Rightarrow> w < w' | _ \<Rightarrow> False)"

lemma cast_op_legal:
  assumes "is_number s" "is_number d" "s \<noteq> d"
  shows "cast_legal (cast_op s d) s d \<longleftrightarrow> \<not> widens_integer s d"
  using assms by (cases s; cases d) (auto simp: is_number_def cast_op_def cast_legal_def widens_integer_def float_bits_def)

lemma emit1_emits:
  "emits blk m [\<lparr>op_name = nm, op_operands = operands, op_attrs = attrs, op_results = [fst (emit1 blk nm operands attrs t m)],
     op_successors = [], op_regions = []\<rparr>] (snd (emit1 blk nm operands attrs t m))"
  by (simp add: emits_def emit1_def Let_def append_operation_def)

text \<open>C22. A cast between numbers of different types appends one operation on the argument, whose result has the
  destination's type, with the shape of the argument where the destination's is unknown. The operation is one that
  verifies on these types exactly when the cast does not widen an integer: that is emitted as a truncation.\<close>

theorem cast_call_legal:
  assumes "eval_arg cc mir blk st args 0 m = Ok (src, m1)" "dest_mlir_ty cc mir dest = Ok d"
    "cast_dest_ty (v_ty src) d = Ok t" "is_number (elem_ty src)" "is_number (elem_ty_from_type t)"
    "elem_ty src \<noteq> elem_ty_from_type t"
  shows "\<exists>v m' op1. codegen_cast_call cc mir func nm args dest blk st m = Ok (Some v, st, m') \<and> v_ty v = t \<and>
    emits blk m1 [op1] m' \<and> op_operands op1 = [src] \<and> op_results op1 = [v] \<and>
    (cast_legal (op_name op1) (elem_ty src) (elem_ty_from_type t) \<longleftrightarrow> \<not> widens_integer (elem_ty src) (elem_ty_from_type t))"
proof -
  let ?nm = "cast_op (elem_ty src) (elem_ty_from_type t)"
  let ?r = "emit1 blk ?nm [src] [] t m1"
  have "v_ty src \<noteq> t" using assms(6) by (auto simp: Kernel_Args.elem_ty_def)
  then have "codegen_cast_call cc mir func nm args dest blk st m = Ok (Some (fst ?r), st, snd ?r)"
    using assms(1-3) by (simp add: codegen_cast_call_def give_def)
  then show ?thesis using cast_op_legal [OF assms(4-6)] emit1_emits [of blk m1 ?nm "[src]" "[]" t] emit1_ty by fastforce
qed

lemma example_map_type: "map_type example_ctx Ty_Bool = Ok (MT_Integer 1)" "map_type example_ctx (Ty_Int I32) = Ok (MT_Integer 32)"
  by (simp_all add: map_type_def example_ctx_def numeral_eq_Suc create_bool_type_def)

lemma local_type:
  assumes "l < length (local_decls example_body)" "map_type example_ctx (local_decls example_body ! l) = Ok t"
  shows "dest_mlir_ty example_ctx example_body (local_place l) = Ok t"
  using assms by (simp add: dest_mlir_ty_def dest_ty_def ty_of_bare_place example_ctx_def)

text \<open>The cast of a boolean to \<open>i32\<close>: the value has one bit, and the operation does not verify.\<close>

theorem cast_call_legal_witness:
  "\<exists>v m' op1. codegen_cast_call example_ctx example_body (i32_operand 0) [] [Op_Copy (local_place 3)] (local_place 1) 0
      (set_ssa 3 \<lparr>v_id = 0, v_ty = MT_Integer 1\<rparr> codegen_state_new) empty_module =
      Ok (Some v, set_ssa 3 \<lparr>v_id = 0, v_ty = MT_Integer 1\<rparr> codegen_state_new, m') \<and> v_ty v = MT_Integer 32 \<and>
    emits 0 empty_module [op1] m' \<and> op_results op1 = [v] \<and> \<not> cast_legal (op_name op1) (MT_Integer 1) (MT_Integer 32)"
proof -
  let ?v = "\<lparr>v_id = 0, v_ty = MT_Integer 1\<rparr>" and ?st = "set_ssa 3 \<lparr>v_id = 0, v_ty = MT_Integer 1\<rparr> codegen_state_new"
  have src: "eval_arg example_ctx example_body 0 ?st [Op_Copy (local_place 3)] 0 empty_module = Ok (?v, empty_module)"
    by (simp add: eval_arg_def nth_arg_def vec_index_def call_arg_def ty_of_bare_place example_body_def codegen_operand_def
        codegen_copy_def set_ssa_def codegen_state_new_def)
  have dest: "dest_mlir_ty example_ctx example_body (local_place 1) = Ok (MT_Integer 32)"
    by (rule local_type) (simp_all add: example_body_def example_map_type)
  have "elem_ty ?v = MT_Integer 1" "elem_ty_from_type (MT_Integer 32) = MT_Integer 32"
    by (simp_all add: Kernel_Args.elem_ty_def elem_ty_from_type_def)
  then show ?thesis
    using cast_call_legal [OF src dest, where t = "MT_Integer 32" and func = "i32_operand 0" and nm = "[]"]
    by (auto simp: cast_dest_ty_def is_number_def widens_integer_def)
qed

lemma emits_emit1_emit1:
  assumes "emit1 blk nm1 xs1 attrs1 t1 m = (v1, m1)" "emit1 blk nm2 xs2 attrs2 t2 m1 = (v2, m2)"
  shows "emits blk m
    [\<lparr>op_name = nm1, op_operands = xs1, op_attrs = attrs1, op_results = [v1], op_successors = [], op_regions = []\<rparr>,
     \<lparr>op_name = nm2, op_operands = xs2, op_attrs = attrs2, op_results = [v2], op_successors = [], op_regions = []\<rparr>] m2"
  using emits_trans [of blk m _ m1 _ m2] emit1_emits [of blk m nm1 xs1 attrs1 t1] emit1_emits [of blk m1 nm2 xs2 attrs2 t2] assms
  by fastforce

text \<open>C23. \<open>zeros\<close> of a type of numbers appends a constant and a \<open>tt.splat\<close> of it, whose result is a tensor of the
  requested shape and element type. The constant has the element type, as \<open>tt.splat\<close> requires, exactly when the element
  type is a float or the integers of 32 bits: an integer zero has 32 bits whatever the type.\<close>

theorem zeros_call_element_type:
  assumes "lib_documented (cc_lib cc)" "dest_mlir_ty cc mir dest = Ok d" "is_number (elem_ty_from_type d)"
  shows "\<exists>v zero m' op1 op2. codegen_zeros cc mir func nm args dest blk st m = Ok (Some v, st, m') \<and>
    v_ty v = MT_Tensor (zeros_shape st args) (elem_ty_from_type d) \<and> emits blk m [op1, op2] m' \<and>
    op_name op1 = ''arith.constant'' \<and> op_results op1 = [zero] \<and> op_name op2 = ''tt.splat'' \<and> op_operands op2 = [zero] \<and>
    op_results op2 = [v] \<and>
    (v_ty zero = elem_ty_from_type d \<longleftrightarrow> is_float (elem_ty_from_type d) \<or> elem_ty_from_type d = MT_Integer 32)"
proof -
  let ?e = "elem_ty_from_type d"
  let ?t = "MT_Tensor (zeros_shape st args) ?e"
  obtain attr t where zero: "\<And>m. zero_const (cc_lib cc) blk ?e m = Ok (emit1 blk ''arith.constant'' [] [attr] t m)"
    "t = ?e \<longleftrightarrow> is_float ?e \<or> ?e = MT_Integer 32"
  proof (cases "is_integer ?e")
    case True
    then have "zero_const (cc_lib cc) blk ?e m = Ok (emit1 blk ''arith.constant'' [] [Attr_Int 0 (MT_Integer 32)] (MT_Integer 32) m)" for m
      using assms(1) by (simp add: zero_const_def create_int_constant_def int_attr_def lib_documented_def create_constant_def int_ty_of_def)
    moreover have "\<not> is_float ?e" using True by (cases ?e) auto
    ultimately show ?thesis using that by metis
  next
    case False
    then have "zero_const (cc_lib cc) blk ?e m = Ok (emit1 blk ''arith.constant'' [] [Attr_Float float_zero ?e] ?e m)" for m
      by (simp add: zero_const_def arith_constant_def create_constant_def)
    then show ?thesis using that False assms(3) is_number_def by metis
  qed
  obtain z m1 where z: "emit1 blk ''arith.constant'' [] [attr] t m = (z, m1)" by fastforce
  obtain v m' where v: "emit1 blk ''tt.splat'' [z] [] ?t m1 = (v, m')" by fastforce
  have "codegen_zeros cc mir func nm args dest blk st m = Ok (Some v, st, m')"
    using assms(2,3) zero(1) z v
    by (auto simp: codegen_zeros_def zeros_of_def splat_zero_def splat_def tensor_type_def is_number_def give_def)
  moreover have "v_ty v = ?t" "v_ty z = t" using emit1_ty z v fst_conv by metis+
  ultimately show ?thesis using emits_emit1_emit1 [OF z v] zero(2) by fastforce
qed

text \<open>Zeros of booleans: the constant has 32 bits and the elements have one.\<close>

theorem zeros_call_element_type_witness:
  "\<exists>v zero m' op1 op2. codegen_zeros example_ctx example_body (i32_operand 0) [] [] (local_place 3) 0 codegen_state_new
      empty_module = Ok (Some v, codegen_state_new, m') \<and> emits 0 empty_module [op1, op2] m' \<and>
    v_ty v = MT_Tensor [1] (MT_Integer 1) \<and> op_results op1 = [zero] \<and> op_name op2 = ''tt.splat'' \<and> op_operands op2 = [zero] \<and>
    v_ty zero \<noteq> MT_Integer 1"
proof -
  have dest: "dest_mlir_ty example_ctx example_body (local_place 3) = Ok (MT_Integer 1)"
    by (rule local_type) (simp_all add: example_body_def example_map_type)
  have doc: "lib_documented (cc_lib example_ctx)" using example_lib_documented by (simp add: example_ctx_def)
  show ?thesis
    using zeros_call_element_type [OF doc dest, where func = "i32_operand 0" and nm = "[]" and args = "[]" and blk = 0
        and st = codegen_state_new and m = empty_module]
    by (simp add: is_number_def elem_ty_from_type_def zeros_shape_def) blast
qed

end
