(* ===== verification/Spec2Isabelle.thy ===== *)
theory Spec2Isabelle
  imports
    MIR_Sem Lex_Literals Triton_Loop_Correct Triton_Phi_Props Kernel_Meta Kernel_Target
    Interval_Correct Mixed_Set Sparse_Matrix Relation_Props Leb128_Props Loop_Reject Kernel_Props
begin

text \<open>
  \<^bold>\<open>The program.\<close> The repository is a Rust compiler with a second code generator: functions marked as GPU
  kernels are translated from MIR, the compiler's control-flow graphs, to the Triton dialect of MLIR, compiled by a
  C++ library, and the resulting text is read back together with metadata on the kernel. This development
  models that code generator, its analyses and the code it emits, the parts of the compiler it stands on, and
  self-contained components around it: the lexer, index sets, and the integers of crate metadata.

  Partial operations of the source (an index out of range, an \<open>unwrap\<close>, an arithmetic overflow of a debug
  build, a failing assertion) are values: a function that may panic returns an option or a result, and \<open>None\<close>
  or the error is the panic. Theorems that a component does not panic are stated as such.

  \<^bold>\<open>Shared theories.\<close>
  \<^item> \<open>Prelude\<close>: names of the machine words, the option monad, \<open>rust_assert\<close>, indexing with panics,
    checked arithmetic, and lemmas on lists and words.
  \<^item> \<open>Worklist\<close>: a search with a stack or a queue, its termination, and that it visits what is reachable;
    a locale of the laws of a search, interpreted by the block searches below.
  \<^item> \<open>Index_Set\<close>: the contract of a set of indices as the locales \<open>index_set\<close> and \<open>index_set_changed\<close>
    (operations with a representation invariant, an abstraction to a set of numbers, and laws for each operation),
    an abstract machine on sets, and the simulation proved once inside the locale: a sequence of operations on the
    representation answers as on the sets. \<open>Interval_Props\<close> and \<open>Dense_Correct\<close> interpret it.

  \<^bold>\<open>MIR and the analyses of the Triton code generator\<close>
  (\<open>compiler/rustc_codegen_llvm/src/mlir/codegen/triton/mod.rs\<close>).
  \<^item> \<open>MIR_Ty\<close> (\<open>rustc_middle/src/ty\<close>, \<open>rustc_type_ir\<close>) and \<open>MIR_Syntax\<close> (\<open>rustc_middle/src/mir/syntax.rs\<close>,
    \<open>terminator.rs\<close>): types, constants, statements, terminators, \<open>SwitchTargets\<close> and successors.
  \<^item> \<open>Triton_Const\<close>: \<open>compute_const_disc_locals\<close>, both passes, and \<open>extract_switch_const\<close>; the second pass is a
    loop to a fixpoint and terminates because every sweep that goes on adds a local.
  \<^item> \<open>Triton_Reach\<close>: \<open>compute_reachable_blocks\<close>; it returns exactly the blocks reachable along the folded
    edges, once, dominators first, but not in the order its comment promises.
  \<^item> \<open>MIR_Sem\<close>: an operational semantics of the control flow, with the soundness of pruning for locals that
    are written at one place, and a kernel on which the pass prunes a block that executes.
  \<^item> \<open>Triton_Fold\<close>: \<open>fold_local_as_i32\<close> and its mutually recursive helpers, with fuel because the
    recursion of the source has no bound: enough fuel is the length of the longest chain of definitions, and no fuel
    is enough on a local that is defined through itself.
  \<^item> \<open>Triton_Loops\<close>, \<open>Triton_Loop_Props\<close>, \<open>Triton_Loop_Correct\<close>: \<open>detect_range_loop\<close>, \<open>detect_while_loop\<close> and
    their helpers; the loops reported are well formed, the body is what is reachable without the header,
    and the carried locals are those read before they are assigned.
  \<^item> \<open>Triton_Phi\<close>, \<open>Triton_Phi_Props\<close>: \<open>compute_phi_join_locals\<close>. The walk over ancestors has fuel, the number
    of blocks plus one, which is enough because it never visits a block twice; the fixpoint loop has the number of
    rounds as fuel, and more rounds than reachable blocks times locals are enough. The iteration orders of hash
    tables are parameters, and the result is the least fixpoint for all of them.

  \<^bold>\<open>Emission\<close> (\<open>rustc_codegen_llvm/src/mlir/codegen\<close>, \<open>rustc_mlir/src\<close>). A module under construction is a table of
  blocks with their arguments and operations, and a counter for values; every function of the code generator takes the
  module and returns it with its additions, or an error, or a panic. The MLIR library is a record of functions
  (\<open>mlir_lib\<close>): inference of result types, parsing of attributes and types, printing of types. Queries of the
  compiler (normalisation, layouts, constants, symbols) are fields of \<open>codegen_ctx\<close> and \<open>func_ctx\<close>.
  \<^item> \<open>Mlir_Ir\<close>, \<open>Arith_Build\<close>, \<open>Kernel_Build\<close>: the module and the builders of \<open>rustc_mlir\<close>.
  \<^item> \<open>Type_Mapper\<close>, \<open>MIR_Place_Ty\<close>: \<open>type_mapper.rs\<close>, whose recursion has the depth of the stack as fuel, and the types of
    places.
  \<^item> \<open>Triton_Binops\<close>, \<open>Triton_Operand\<close>, \<open>Triton_Stmt\<close>: operators with broadcasting (\<open>ops/binaryops.rs\<close>), operands,
    constants and casts, and every statement, with the tables of the state \<open>CodegenState\<close>.
  \<^item> \<open>Kernel_Args\<close>, \<open>Kernel_Memory\<close>, \<open>Kernel_Shape\<close>, \<open>Kernel_Math\<close>: the handlers of the kernel library
    (\<open>ops/triton/tensor.rs\<close>, \<open>program.rs\<close>), one definition for each.
  \<^item> \<open>Triton_Calls\<close>, \<open>Triton_Term\<close>, \<open>Triton_Func\<close>: the table of handlers, plain calls, terminators with block
    arguments and snapshots, conditionals in loop bodies, structured loops, and whole functions.
  \<^item> \<open>Emit_Sem\<close>, \<open>Emit_Ops\<close>, \<open>Emit_Runs\<close>, \<open>Emit_Correct\<close>, \<open>Emit_Props\<close>: a meaning of operations on integers that agrees with
    the documentation of the arithmetic dialect, a meaning of MIR on a store of integers, and a forward simulation:
    straight-line code is compiled correctly outside the listed cases (\<open>run_faithful\<close>), in which it is not.
  \<^item> \<open>Emission\<close>, \<open>Kernel_Emission\<close>: the locale \<open>emission\<close>, a predicate on modules that survives new values, new blocks and
    the allowed operations; inside it, that every builder, handler and statement keeps such a predicate.
  \<^item> \<open>Emit_Flow\<close>, \<open>Func_Flow\<close>, \<open>Func_Props\<close>: the interpretation \<open>quiet\<close> of that locale, in which only plain
    operations are appended, and with it that the control flow of an emitted function is well formed.
  \<^item> \<open>Loop_Reject\<close>: while loops with a conditional in the body are never emitted.
  \<^item> \<open>Kernel_Props\<close>: what the code for \<open>cdiv\<close> computes, what reductions and shape operations return, and which casts and
    constants do not verify.

  \<^bold>\<open>The driver of the code generator\<close> (\<open>rustc_codegen_llvm/src/mlir\<close>, \<open>rustc_mlir/src/ffi.rs\<close>).
  \<^item> \<open>Rust_Str\<close>, \<open>Rust_Parse\<close>, \<open>Rust_Parse_Props\<close>: the string functions of \<open>core\<close> that the driver calls, and
    the integer parser with its unchecked fast path, for every width.
  \<^item> \<open>Kernel_Meta\<close>: \<open>KernelMetadata::parse\<close> and the writer in \<open>CudaBackend.cpp\<close>, which are inverse.
  \<^item> \<open>Kernel_Target\<close>: target resolution (\<open>target.rs\<close>) and the structures passed to C++, with pointers as
    references to strings that are kept alive or not.

  \<^bold>\<open>The lexer\<close> (\<open>rustc_lexer/src/lib.rs\<close>). \<open>Lex_Cursor\<close> has the tokens, character classes and the cursor;
  \<open>Lexer\<close> every scanner; \<open>Lex_Scan\<close> and \<open>Lex_Token\<close> that each scanner stays inside the text and moves on (the locale \<open>scanner\<close>,
  interpreted by every scanner);
  \<open>Lex_Tokenize\<close> that the tokens partition the text; \<open>Lex_Literals\<close> raw and guarded strings, comments and the
  shebang. Unicode tables and \<open>memchr\<close> are parameters with their documented laws.

  \<^bold>\<open>Index sets\<close> (\<open>rustc_index/src\<close>).
  \<^item> \<open>Rust_Search\<close>: \<open>binary_search_by\<close> and \<open>partition_point\<close> of \<open>core\<close>, on which interval sets rest.
  \<^item> \<open>Interval_Set\<close>, \<open>Interval_Props\<close>, \<open>Interval_Correct\<close>: \<open>IntervalSet\<close> and \<open>SparseIntervalMatrix\<close>, with the
    truncation to 32 bits and the debug assertions; refinement to sets and relations, and the flag of \<open>union\<close>.
  \<^item> \<open>Dense_Bit_Set\<close>, \<open>Dense_Props\<close>, \<open>Dense_Correct\<close>, \<open>Dense_Iter\<close>: \<open>DenseBitSet\<close>, \<open>BitIter\<close>, \<open>GrowableBitSet\<close> on
    64-bit words; refinement to sets, relations between sets, iteration. Collecting an iterator has fuel, and more
    than the size of the domain is enough.
  \<^item> \<open>Bit_Relations\<close> (the locale \<open>bit_set\<close>: the operations of data-flow states, with flags that say whether a set has
    changed, and the simulation of sequences of calls), \<open>Chunked_Bit_Set\<close> (\<open>ChunkedBitSet\<close>, \<open>MixedBitSet\<close>),
    \<open>Chunked_Props\<close> (single chunks and their counts), \<open>Chunked_Set\<close> (lists of chunks), \<open>Mixed_Set\<close> (the interpretations
    for dense, chunked and mixed sets).
  \<^item> \<open>Bit_Matrix\<close>, \<open>Matrix_Rows\<close>: \<open>BitMatrix\<close>, whose rows share one vector; each row behaves as a set.
    \<open>Sparse_Matrix\<close>: \<open>SparseBitMatrix\<close>.

  \<^bold>\<open>Transitive relations\<close> (\<open>rustc_data_structures/src/transitive_relation.rs\<close>). \<open>Transitive_Relation\<close> has the builder,
  the closure on a bit matrix and the queries; its loops that nothing bounds syntactically are partial functions, where
  no result means a panic or no end. \<open>Relation_Closure\<close> shows that the rounds end with the transitive closure,
  \<open>Relation_Bounds\<close> that the in-place loops return the minimal upper bounds and that the search for a postdominator ends,
  by the multiset order over what is strictly above; \<open>Relation_Props\<close> states this on the pairs that were added.
  The index set of the elements is third-party code, a parameter with its documented laws.

  \<^bold>\<open>Integers of crate metadata\<close> (\<open>rustc_serialize/src/leb128.rs\<close>). \<open>Leb128\<close> has the readers and writers for words
  of every length, \<open>Leb128_Props\<close> the round trip and the bounds of the unchecked stores.

  \<^bold>\<open>Not modelled.\<close> The MLIR library itself, its verifier and passes, are not part of the repository; the model has the
  data that the code generator builds with it. Source locations, debug output and attribute names are left out of that
  data. The driver's files, processes and logging are effects without logic of their own, and the foreign function
  bindings have no bodies. The meaning of tensors and floats at run time is not defined, so the results on them are on
  types and on the operations that are emitted. The rest of the compiler, the standard library and the tools are the
  upstream program; of them the development has what the code generator reads and the components named above. The
  opaque encoder is left out.
\<close>

end
